(* ===== verification/Prelude.thy ===== *)
theory Prelude
  imports Main "HOL-Library.AList" "HOL-Library.Char_ord" "HOL-Library.List_Lexorder"
begin

text \<open>
  Shared base of the development: how Go values are represented, the generic facts on lists,
  options and association lists that the components use, and the named collections their
  proofs are driven by.

  \<^item> A Go \<open>string\<close> is a list of bytes (\<open>string = char list\<close>); \<open>len\<close> is \<open>length\<close>.
  \<^item> A Go \<open>error\<close> is the constant part of its message; a function that returns
    \<open>(v, error)\<close> returns a pair \<open>v \<times> go_error option\<close>, or a sum when the value is the zero
    value on every error path.
  \<^item> A Go \<open>map\<close> whose iteration order matters is an association list with distinct keys, and
    the order in which \<open>range\<close> visits it is an explicit argument (\<open>range_order\<close>).
  \<^item> \<open>time.Time\<close> is an integer number of nanoseconds from the zero instant, so \<open>IsZero\<close> is
    \<open>= 0\<close>.
\<close>

type_synonym go_error = string
type_synonym 'a go_result = "go_error + 'a"
type_synonym time = int
type_synonym 'v gomap = "(string \<times> 'v) list"
type_synonym range_order = "string list \<Rightarrow> string list"

named_theorems go_string_simps \<open>evaluation of the Go string functions\<close>
named_theorems store_simps \<open>field projections of the store operations\<close>
named_theorems step_intros \<open>introduction rules of the step relations\<close>

section \<open>Go maps as association lists\<close>

abbreviation gm_get :: "'v gomap \<Rightarrow> string \<Rightarrow> 'v option" where
  "gm_get m k \<equiv> map_of m k"

abbreviation gm_put :: "string \<Rightarrow> 'v \<Rightarrow> 'v gomap \<Rightarrow> 'v gomap" where
  "gm_put k v m \<equiv> AList.update k v m"

abbreviation gm_del :: "string \<Rightarrow> 'v gomap \<Rightarrow> 'v gomap" where
  "gm_del k m \<equiv> AList.delete k m"

definition gm_keys :: "'v gomap \<Rightarrow> string list" where
  "gm_keys m = map fst m"

definition valid_order :: "range_order \<Rightarrow> bool" where
  "valid_order ord \<longleftrightarrow> (\<forall>ks. distinct ks \<longrightarrow> distinct (ord ks) \<and> set (ord ks) = set ks)"

lemma valid_order_id: "valid_order id"
  by (simp add: valid_order_def)

lemma valid_order_rev: "valid_order rev"
  by (simp add: valid_order_def)

lemma valid_orderD:
  assumes "valid_order ord" and "distinct ks"
  shows "distinct (ord ks)" and "set (ord ks) = set ks"
  using assms by (auto simp: valid_order_def)

lemma gm_get_put [simp]: "gm_get (gm_put k v m) k' = (if k' = k then Some v else gm_get m k')"
  by (simp add: update_conv')

lemma gm_get_del [simp]: "gm_get (gm_del k m) k' = (if k' = k then None else gm_get m k')"
  by (simp add: delete_conv')

lemma gm_distinct_put [simp]: "distinct (gm_keys m) \<Longrightarrow> distinct (gm_keys (gm_put k v m))"
  unfolding gm_keys_def by (rule distinct_update)

lemma gm_distinct_del [simp]: "distinct (gm_keys m) \<Longrightarrow> distinct (gm_keys (gm_del k m))"
  unfolding gm_keys_def by (rule distinct_delete)

lemma gm_keys_dom: "k \<in> set (gm_keys m) \<longleftrightarrow> gm_get m k \<noteq> None"
  by (auto simp: gm_keys_def map_of_eq_None_iff image_iff)

section \<open>Lists and options\<close>

lemma list_all_filter_keep: "list_all P xs \<Longrightarrow> list_all P (filter Q xs)"
  by (auto simp: list_all_iff)

lemma length_filter_snoc:
  "length (filter P (xs @ [x])) = length (filter P xs) + (if P x then 1 else 0)"
  by simp

lemma filter_snoc: "filter P (xs @ [x]) = filter P xs @ (if P x then [x] else [])"
  by simp

lemma fold_invariant_weak:
  assumes "I s" and "\<And>x s. x \<in> set xs \<Longrightarrow> I s \<Longrightarrow> I (f x s)"
  shows "I (fold f xs s)"
  using assms by (induction xs arbitrary: s) auto

section \<open>Transition systems\<close>

text \<open>
  The interface between a component and the claims on its runs: an invariant that the initial
  states have and every step keeps, and a preorder in which every step grows.
\<close>

locale transition_system =
  fixes initial :: "'s \<Rightarrow> bool" and step :: "'s \<Rightarrow> 's \<Rightarrow> bool" and inv :: "'s \<Rightarrow> bool"
    and grows :: "'s \<Rightarrow> 's \<Rightarrow> bool"
  assumes initial_inv: "initial s \<Longrightarrow> inv s"
    and step_inv: "inv s \<Longrightarrow> step s s' \<Longrightarrow> inv s' \<and> grows s s'"
    and grows_refl: "grows s s"
    and grows_trans: "grows a b \<Longrightarrow> grows b c \<Longrightarrow> grows a c"
begin

lemma run_inv:
  assumes "step\<^sup>*\<^sup>* s s'" and "inv s"
  shows "inv s' \<and> grows s s'"
  using assms
proof (induction rule: rtranclp_induct)
  case base
  then show ?case by (simp add: grows_refl)
next
  case (step y z)
  then show ?case using step_inv grows_trans by blast
qed

lemma reached_inv: "initial s0 \<Longrightarrow> step\<^sup>*\<^sup>* s0 s \<Longrightarrow> inv s"
  using initial_inv run_inv by blast

lemma reached_grows: "initial s0 \<Longrightarrow> step\<^sup>*\<^sup>* s0 s \<Longrightarrow> step\<^sup>*\<^sup>* s s' \<Longrightarrow> grows s s'"
  using run_inv reached_inv by blast

end

end
