(* ===== verification/GoStrings.thy ===== *)
theory GoStrings
  imports Prelude
begin

text \<open>
  The part of Go's \<open>strings\<close>, \<open>unicode/utf8\<close>, \<open>strconv\<close>, \<open>sort\<close> and \<open>path\<close> packages the
  program uses, on byte lists. White space (\<open>TrimSpace\<close>, \<open>Fields\<close>) and rune counting follow
  UTF-8 exactly: no byte of a multi-byte white space encoding can be confused with a byte of
  another rune, so scanning for the encodings byte by byte gives what decoding rune by rune
  gives. Case mapping (\<open>ToLower\<close>, \<open>ToUpper\<close>, \<open>EqualFold\<close>) is the ASCII mapping; bytes outside
  ASCII are left as they are.

  The length-prefixed encodings that every digest of the program is computed over are proved
  injective here, once.
\<close>

section \<open>Prefixes, search, case\<close>

definition HasPrefix :: "string \<Rightarrow> string \<Rightarrow> bool" where
  "HasPrefix s p = (take (length p) s = p)"

definition HasSuffix :: "string \<Rightarrow> string \<Rightarrow> bool" where
  "HasSuffix s p = HasPrefix (rev s) (rev p)"

definition TrimPrefix :: "string \<Rightarrow> string \<Rightarrow> string" where
  "TrimPrefix s p = (if HasPrefix s p then drop (length p) s else s)"

fun Contains :: "string \<Rightarrow> string \<Rightarrow> bool" where
  "Contains [] p = (p = [])"
| "Contains (c # s) p = (HasPrefix (c # s) p \<or> Contains s p)"

definition ContainsAny :: "string \<Rightarrow> string \<Rightarrow> bool" where
  "ContainsAny s cs = list_ex (\<lambda>c. c \<in> set cs) s"

definition upper_letters :: string where
  "upper_letters = ''ABCDEFGHIJKLMNOPQRSTUVWXYZ''"

definition lower_letters :: string where
  "lower_letters = ''abcdefghijklmnopqrstuvwxyz''"

definition lower_char :: "char \<Rightarrow> char" where
  "lower_char c = (case map_of (zip upper_letters lower_letters) c of None \<Rightarrow> c | Some d \<Rightarrow> d)"

definition upper_char :: "char \<Rightarrow> char" where
  "upper_char c = (case map_of (zip lower_letters upper_letters) c of None \<Rightarrow> c | Some d \<Rightarrow> d)"

definition ToLower :: "string \<Rightarrow> string" where
  "ToLower s = map lower_char s"

definition ToUpper :: "string \<Rightarrow> string" where
  "ToUpper s = map upper_char s"

definition EqualFold :: "string \<Rightarrow> string \<Rightarrow> bool" where
  "EqualFold a b = (ToLower a = ToLower b)"

section \<open>White space, trimming, fields\<close>

definition ascii_spaces :: "string list" where
  "ascii_spaces = [[CHR 0x09], [CHR 0x0A], [CHR 0x0B], [CHR 0x0C], [CHR 0x0D], '' '']"

definition uni_spaces :: "string list" where
  "uni_spaces =
    [[CHR 0xC2, CHR 0x85], [CHR 0xC2, CHR 0xA0], [CHR 0xE1, CHR 0x9A, CHR 0x80],
     [CHR 0xE2, CHR 0x80, CHR 0x80], [CHR 0xE2, CHR 0x80, CHR 0x81],
     [CHR 0xE2, CHR 0x80, CHR 0x82], [CHR 0xE2, CHR 0x80, CHR 0x83],
     [CHR 0xE2, CHR 0x80, CHR 0x84], [CHR 0xE2, CHR 0x80, CHR 0x85],
     [CHR 0xE2, CHR 0x80, CHR 0x86], [CHR 0xE2, CHR 0x80, CHR 0x87],
     [CHR 0xE2, CHR 0x80, CHR 0x88], [CHR 0xE2, CHR 0x80, CHR 0x89],
     [CHR 0xE2, CHR 0x80, CHR 0x8A], [CHR 0xE2, CHR 0x80, CHR 0xA8],
     [CHR 0xE2, CHR 0x80, CHR 0xA9], [CHR 0xE2, CHR 0x80, CHR 0xAF],
     [CHR 0xE2, CHR 0x81, CHR 0x9F], [CHR 0xE3, CHR 0x80, CHR 0x80]]"

definition go_spaces :: "string list" where
  "go_spaces = ascii_spaces @ uni_spaces"

fun first_prefix :: "string list \<Rightarrow> string \<Rightarrow> string option" where
  "first_prefix [] s = None"
| "first_prefix (u # us) s = (if u \<noteq> [] \<and> HasPrefix s u then Some u else first_prefix us s)"

lemma first_prefix_Some:
  "first_prefix us s = Some u \<Longrightarrow> u \<in> set us \<and> u \<noteq> [] \<and> HasPrefix s u"
  by (induction us) (auto split: if_splits)

lemma first_prefix_shorter:
  "first_prefix us s = Some u \<Longrightarrow> length (drop (length u) s) < length s"
  by (drule first_prefix_Some) (cases u; cases s; auto simp: HasPrefix_def)

function strip_heads :: "string list \<Rightarrow> string \<Rightarrow> string" where
  "strip_heads us s =
     (case first_prefix us s of None \<Rightarrow> s | Some u \<Rightarrow> strip_heads us (drop (length u) s))"
  by pat_completeness auto
termination
  by (relation "measure (\<lambda>(us, s). length s)") (use first_prefix_shorter in auto)

declare strip_heads.simps [simp del]

definition strip_both :: "string list \<Rightarrow> string \<Rightarrow> string" where
  "strip_both us s = rev (strip_heads (map rev us) (rev (strip_heads us s)))"

definition TrimSpace :: "string \<Rightarrow> string" where
  "TrimSpace s = strip_both go_spaces s"

definition Trim :: "string \<Rightarrow> string \<Rightarrow> string" where
  "Trim s cutset = strip_both (map (\<lambda>c. [c]) cutset) s"

definition TrimRight :: "string \<Rightarrow> string \<Rightarrow> string" where
  "TrimRight s cutset = rev (strip_heads (map (\<lambda>c. [c]) cutset) (rev s))"

definition flush_field :: "string \<Rightarrow> string list" where
  "flush_field cur = (if cur = [] then [] else [rev cur])"

function fields_on :: "string list \<Rightarrow> string \<Rightarrow> string \<Rightarrow> string list" where
  "fields_on us cur s =
     (case s of
        [] \<Rightarrow> flush_field cur
      | c # cs \<Rightarrow>
          (case first_prefix us s of
             None \<Rightarrow> fields_on us (c # cur) cs
           | Some u \<Rightarrow> flush_field cur @ fields_on us [] (drop (length u) s)))"
  by pat_completeness auto
termination
proof (relation "measure (\<lambda>(us, cur, s). length s)", goal_cases)
  case (3 us cur s c cs u)
  then show ?case using first_prefix_shorter [of us s u] by simp
qed auto

declare fields_on.simps [simp del]

definition Fields :: "string \<Rightarrow> string list" where
  "Fields s = fields_on go_spaces [] s"

fun split_on :: "char \<Rightarrow> string \<Rightarrow> string \<Rightarrow> string list" where
  "split_on d cur [] = [rev cur]"
| "split_on d cur (c # cs) = (if c = d then rev cur # split_on d [] cs else split_on d (c # cur) cs)"

definition Split :: "string \<Rightarrow> char \<Rightarrow> string list" where
  "Split s d = split_on d [] s"

fun Join :: "string list \<Rightarrow> string \<Rightarrow> string" where
  "Join [] sep = []"
| "Join [x] sep = x"
| "Join (x # y # zs) sep = x @ sep @ Join (y # zs) sep"

section \<open>Runes\<close>

definition byte :: "char \<Rightarrow> nat" where
  "byte c = of_char c"

definition is_cont :: "char \<Rightarrow> bool" where
  "is_cont c = (0x80 \<le> byte c \<and> byte c \<le> 0xBF)"

text \<open>Width and accepted range of the second byte, by the leading byte (\<open>unicode/utf8\<close>'s table).\<close>

definition rune_lead :: "nat \<Rightarrow> (nat \<times> nat \<times> nat) option" where
  "rune_lead b =
     (if b < 0x80 then Some (1, 0x80, 0xBF)
      else if 0xC2 \<le> b \<and> b \<le> 0xDF then Some (2, 0x80, 0xBF)
      else if b = 0xE0 then Some (3, 0xA0, 0xBF)
      else if b = 0xED then Some (3, 0x80, 0x9F)
      else if 0xE1 \<le> b \<and> b \<le> 0xEF then Some (3, 0x80, 0xBF)
      else if b = 0xF0 then Some (4, 0x90, 0xBF)
      else if 0xF1 \<le> b \<and> b \<le> 0xF3 then Some (4, 0x80, 0xBF)
      else if b = 0xF4 then Some (4, 0x80, 0x8F)
      else None)"

definition tail_ok :: "nat \<Rightarrow> nat \<Rightarrow> string \<Rightarrow> bool" where
  "tail_ok lo hi ts =
     (case ts of [] \<Rightarrow> True | d # ds \<Rightarrow> lo \<le> byte d \<and> byte d \<le> hi \<and> list_all is_cont ds)"

definition rune_valid_width :: "string \<Rightarrow> nat" where
  "rune_valid_width s =
     (case s of
        [] \<Rightarrow> 0
      | c # cs \<Rightarrow>
          (case rune_lead (byte c) of
             None \<Rightarrow> 0
           | Some (w, lo, hi) \<Rightarrow>
               (let ts = take (w - 1) cs in
                if length ts = w - 1 \<and> tail_ok lo hi ts then w else 0)))"

function rune_list :: "string \<Rightarrow> string list" where
  "rune_list s =
     (if s = [] then []
      else let w = rune_valid_width s in
           if w = 0 then [CHR 0xEF, CHR 0xBF, CHR 0xBD] # rune_list (tl s)
           else take w s # rune_list (drop w s))"
  by pat_completeness auto
termination
  by (relation "measure length") auto

declare rune_list.simps [simp del]

definition RuneCount :: "string \<Rightarrow> nat" where
  "RuneCount s = length (rune_list s)"

definition take_runes :: "nat \<Rightarrow> string \<Rightarrow> string" where
  "take_runes n s = concat (take n (rune_list s))"

section \<open>Numbers, sorting, paths\<close>

definition digit_char :: "nat \<Rightarrow> char" where
  "digit_char d = ''0123456789'' ! d"

fun dec :: "nat \<Rightarrow> string" where
  "dec n = (if n < 10 then [digit_char n] else dec (n div 10) @ [digit_char (n mod 10)])"

declare dec.simps [simp del]

definition itoa :: "int \<Rightarrow> string" where
  "itoa i = (if i < 0 then ''-'' @ dec (nat (- i)) else dec (nat i))"

definition atoi :: "string \<Rightarrow> int option" where
  "atoi s =
     (let neg = (s \<noteq> [] \<and> hd s = CHR ''-''); ds = (if s \<noteq> [] \<and> hd s \<in> set ''+-'' then tl s else s);
          n = foldl (\<lambda>a c. 10 * a + (int (byte c) - 48)) 0 ds; v = (if neg then - n else n)
      in if ds = [] \<or> list_ex (\<lambda>c. c \<notin> set ''0123456789'') ds then None
         else if - (2 ^ 63) \<le> v \<and> v < 2 ^ 63 then Some v else None)"

definition unique_sorted :: "string list \<Rightarrow> string list" where
  "unique_sorted xs = sort (remdups (filter (\<lambda>s. s \<noteq> []) xs))"

fun clean_segs :: "bool \<Rightarrow> string list \<Rightarrow> string list \<Rightarrow> string list" where
  "clean_segs rooted out [] = rev out"
| "clean_segs rooted out (g # gs) =
     (if g = [] \<or> g = ''.'' then clean_segs rooted out gs
      else if g = ''..'' then
        (case out of
           [] \<Rightarrow> clean_segs rooted (if rooted then [] else [''..'']) gs
         | o1 # os \<Rightarrow> if o1 = ''..'' then clean_segs rooted (''..'' # out) gs
                     else clean_segs rooted os gs)
      else clean_segs rooted (g # out) gs)"

definition path_Clean :: "string \<Rightarrow> string" where
  "path_Clean s =
     (let rooted = HasPrefix s ''/'';
          body = Join (clean_segs rooted [] (Split s (CHR ''/''))) ''/'';
          full = (if rooted then ''/'' @ body else body)
      in if full = [] then ''.'' else full)"

section \<open>Digests over length-prefixed encodings\<close>

text \<open>
  \<open>sha256_hex\<close> stands for \<open>hex.EncodeToString\<close> of \<open>sha256.Sum256\<close>, \<open>json_decode\<close> and
  \<open>json_encode\<close> for \<open>json.Unmarshal\<close> into \<open>any\<close> and \<open>json.Marshal\<close>. They are arguments of the
  definitions that call them, so every theorem holds for whatever functions they are; where a
  claim needs two digests to differ it says so as a hypothesis.
\<close>

datatype json = JNull | JBool bool | JNum string | JStr string | JArr "json list"
  | JObj "(string \<times> json) list"

record gostd =
  sha256_hex :: "string \<Rightarrow> string"
  json_decode :: "string \<Rightarrow> json option"
  json_encode :: "json \<Rightarrow> string"

definition len_prefixed :: "string \<Rightarrow> string" where
  "len_prefixed s = dec (length s) @ '':'' @ s"

definition encodeStringList :: "string list \<Rightarrow> string" where
  "encodeStringList items =
     (if items = [] then ''0''
      else dec (length items) @ concat (map (\<lambda>s. '';'' @ len_prefixed s) items))"

definition encode_fields :: "(string \<times> string) list \<Rightarrow> string" where
  "encode_fields kvs =
     ''n='' @ dec (length kvs) @
     concat (map (\<lambda>(k, v). '';k='' @ len_prefixed k @ '';v='' @ len_prefixed v) kvs)"

definition encodeFingerprintCanon :: "(string \<times> string) list \<Rightarrow> string" where
  "encodeFingerprintCanon kvs = encode_fields (sort_key fst kvs)"

definition digestBytes :: "gostd \<Rightarrow> string \<Rightarrow> string" where
  "digestBytes std b = take 32 (sha256_hex std b)"

section \<open>Facts\<close>

lemma HasPrefix_append [simp]: "HasPrefix (p @ s) p"
  by (simp add: HasPrefix_def)

lemma digit_char_inj: "a < 10 \<Longrightarrow> b < 10 \<Longrightarrow> digit_char a = digit_char b \<Longrightarrow> a = b"
  unfolding digit_char_def by (subst (asm) nth_eq_iff_index_eq) auto

lemma digit_char_set: "d < 10 \<Longrightarrow> digit_char d \<in> set ''0123456789''"
  unfolding digit_char_def by (rule nth_mem) simp

lemma dec_nonempty [simp]: "dec n \<noteq> []"
  by (subst dec.simps) simp

lemma dec_digits: "set (dec n) \<subseteq> set ''0123456789''"
proof (induction n rule: dec.induct)
  case (1 n)
  show ?case
  proof (cases "n < 10")
    case True
    then show ?thesis using digit_char_set [OF True] by (simp add: dec.simps [of n])
  next
    case False
    then show ?thesis
      using 1 digit_char_set [of "n mod 10"] by (simp add: dec.simps [of n])
  qed
qed

lemma dec_no_colon: "CHR '':'' \<notin> set (dec n)"
  using dec_digits [of n] by auto

lemma dec_no_semicolon: "CHR '';'' \<notin> set (dec n)"
  using dec_digits [of n] by auto

lemma dec_inj: "dec m = dec n \<Longrightarrow> m = n"
proof (induction m arbitrary: n rule: dec.induct)
  case (1 m)
  show ?case
  proof (cases "m < 10")
    case True
    with "1.prems" have n: "n < 10"
      by (rule_tac ccontr) (auto simp: dec.simps [of m] dec.simps [of n] dest: sym)
    with True "1.prems" have "digit_char m = digit_char n"
      by (simp add: dec.simps [of m] dec.simps [of n])
    with True n show ?thesis by (rule digit_char_inj)
  next
    case False
    with "1.prems" have n: "\<not> n < 10"
      by (auto simp: dec.simps [of m] dec.simps [of n])
    with False "1.prems" have "dec (m div 10) = dec (n div 10)"
      and d: "digit_char (m mod 10) = digit_char (n mod 10)"
      by (auto simp: dec.simps [of m] dec.simps [of n])
    with False "1.IH" have "m div 10 = n div 10" by blast
    moreover from d have "m mod 10 = n mod 10" by (rule digit_char_inj [rotated 2]) auto
    ultimately show ?thesis by (metis div_mult_mod_eq)
  qed
qed

text \<open>Two lists that end at the first occurrence of a separator split the same way.\<close>

lemma split_at_sep:
  assumes "xs @ c # ys = xs' @ c # ys'" and "c \<notin> set xs" and "c \<notin> set xs'"
  shows "xs = xs' \<and> ys = ys'"
  using assms
proof (induction xs arbitrary: xs')
  case Nil
  then show ?case by (cases xs') auto
next
  case (Cons x xs)
  then show ?case by (cases xs') auto
qed

lemma len_prefixed_parse:
  assumes "len_prefixed s @ r = len_prefixed s' @ r'"
  shows "s = s' \<and> r = r'"
proof -
  from assms have "dec (length s) @ CHR '':'' # (s @ r) = dec (length s') @ CHR '':'' # (s' @ r')"
    by (simp add: len_prefixed_def)
  from split_at_sep [OF this dec_no_colon dec_no_colon]
  have "dec (length s) = dec (length s')" and eq: "s @ r = s' @ r'" by auto
  then have "length s = length s'" by (blast dest: dec_inj)
  with eq show ?thesis by simp
qed

lemma concat_tagged_parse:
  assumes "\<And>x y r r'. f x @ r = f y @ r' \<Longrightarrow> x = y \<and> r = r'"
    and "length xs = length ys" and "concat (map f xs) = concat (map f ys)"
  shows "xs = ys"
  using assms(2,3)
proof (induction xs ys rule: list_induct2)
  case Nil
  then show ?case by simp
next
  case (Cons x xs y ys)
  from Cons.prems have "f x @ concat (map f xs) = f y @ concat (map f ys)" by simp
  from assms(1) [OF this] Cons.IH show ?case by simp
qed

lemma dec_then_tail:
  assumes "dec m @ xs = dec n @ ys"
    and "xs = [] \<or> hd xs = CHR '';''" and "ys = [] \<or> hd ys = CHR '';''"
  shows "m = n \<and> xs = ys"
proof -
  have "dec m @ (xs @ [CHR '';'']) = dec n @ (ys @ [CHR '';''])" using assms(1) by simp
  moreover obtain xs' ys' where "xs @ [CHR '';''] = CHR '';'' # xs'" "ys @ [CHR '';''] = CHR '';'' # ys'"
    using assms(2,3) by (cases xs; cases ys) auto
  ultimately have "dec m @ CHR '';'' # xs' = dec n @ CHR '';'' # ys'" by simp
  from split_at_sep [OF this dec_no_semicolon dec_no_semicolon] have "dec m = dec n" by simp
  with assms(1) show ?thesis by (auto dest: dec_inj)
qed

lemma encodeStringList_inj:
  assumes "encodeStringList xs = encodeStringList ys"
  shows "xs = ys"
proof -
  let ?t = "\<lambda>zs. concat (map (\<lambda>s. '';'' @ len_prefixed s) zs)"
  have enc: "encodeStringList zs = dec (length zs) @ ?t zs" for zs
    by (cases zs) (simp_all add: encodeStringList_def dec.simps digit_char_def)
  have hd: "?t zs = [] \<or> hd (?t zs) = CHR '';''" for zs by (cases zs) simp_all
  have "length xs = length ys \<and> ?t xs = ?t ys"
    using assms unfolding enc by (rule dec_then_tail) (rule hd)+
  then show ?thesis
    by (intro concat_tagged_parse [where f = "\<lambda>s. '';'' @ len_prefixed s"])
       (auto dest: len_prefixed_parse)
qed

lemma encode_fields_inj:
  assumes "encode_fields xs = encode_fields ys"
  shows "xs = ys"
proof -
  let ?f = "\<lambda>(k, v). '';k='' @ len_prefixed k @ '';v='' @ len_prefixed v"
  have hd: "concat (map ?f zs) = [] \<or> hd (concat (map ?f zs)) = CHR '';''" for zs
    by (cases zs) auto
  have "length xs = length ys \<and> concat (map ?f xs) = concat (map ?f ys)"
    using assms hd by (intro dec_then_tail) (auto simp: encode_fields_def)
  then show ?thesis
  proof (intro concat_tagged_parse [where f = ?f])
    fix x y :: "string \<times> string" and r r'
    assume eq: "?f x @ r = ?f y @ r'"
    obtain k v k' v' where xy: "x = (k, v)" "y = (k', v')" by (cases x, cases y)
    from eq xy have "len_prefixed k @ '';v='' @ len_prefixed v @ r
        = len_prefixed k' @ '';v='' @ len_prefixed v' @ r'" by simp
    from len_prefixed_parse [OF this] have "k = k'" "len_prefixed v @ r = len_prefixed v' @ r'"
      by auto
    with len_prefixed_parse xy show "x = y \<and> r = r'" by blast
  qed auto
qed

lemma HasPrefix_iff: "HasPrefix s p \<longleftrightarrow> (\<exists>b. s = p @ b)"
  unfolding HasPrefix_def by (metis append_eq_conv_conj append_take_drop_id)

lemma Contains_iff: "Contains s p \<longleftrightarrow> (\<exists>a b. s = a @ p @ b)"
proof (induction s)
  case Nil
  then show ?case by auto
next
  case (Cons c s)
  show ?case
  proof
    assume "Contains (c # s) p"
    then consider b where "c # s = p @ b" | a b where "s = a @ p @ b"
      using Cons.IH by (auto simp: HasPrefix_iff)
    then show "\<exists>a b. c # s = a @ p @ b"
      by cases (metis append_Nil, metis append_Cons)
  next
    assume "\<exists>a b. c # s = a @ p @ b"
    then obtain a b where eq: "c # s = a @ p @ b" by blast
    show "Contains (c # s) p"
    proof (cases a)
      case Nil
      with eq have "HasPrefix (c # s) p" by (simp add: HasPrefix_iff)
      then show ?thesis by simp
    next
      case (Cons d a')
      with eq have "s = a' @ p @ b" by simp
      with Cons.IH show ?thesis by auto
    qed
  qed
qed

lemma Contains_mono: "Contains x m \<Longrightarrow> Contains (a @ x @ b) m"
  unfolding Contains_iff by (metis append.assoc)

lemma strip_heads_suffix: "\<exists>a. s = a @ strip_heads us s"
proof (induction us s rule: strip_heads.induct)
  case (1 us s)
  show ?case
  proof (cases "first_prefix us s")
    case None
    then show ?thesis by (simp add: strip_heads.simps [of us s])
  next
    case (Some u)
    then obtain a where "drop (length u) s = a @ strip_heads us (drop (length u) s)"
      using 1 by blast
    then have "s = (take (length u) s @ a) @ strip_heads us (drop (length u) s)"
      by (metis append.assoc append_take_drop_id)
    with Some show ?thesis by (subst strip_heads.simps) (metis option.simps(5))
  qed
qed

lemma strip_both_infix: "\<exists>a b. s = a @ strip_both us s @ b"
proof -
  obtain a where a: "s = a @ strip_heads us s" using strip_heads_suffix by blast
  obtain b where b: "rev (strip_heads us s) = b @ strip_heads (map rev us) (rev (strip_heads us s))"
    using strip_heads_suffix by blast
  then have "strip_heads us s = strip_both us s @ rev b"
    unfolding strip_both_def by (metis rev_append rev_rev_ident)
  with a show ?thesis by metis
qed

lemma Contains_TrimSpace: "Contains (ToLower (TrimSpace s)) m \<Longrightarrow> Contains (ToLower s) m"
proof -
  assume c: "Contains (ToLower (TrimSpace s)) m"
  obtain a b where "s = a @ TrimSpace s @ b" unfolding TrimSpace_def using strip_both_infix by blast
  then have "ToLower s = ToLower a @ ToLower (TrimSpace s) @ ToLower b"
    unfolding ToLower_def by (metis map_append)
  with c show ?thesis by (simp add: Contains_mono)
qed

subsection \<open>Decoding runes\<close>

lemma rune_lead_range:
  "rune_lead b = Some (w, lo, hi) \<Longrightarrow> 0x80 \<le> lo \<and> hi \<le> 0xBF \<and> 1 \<le> w \<and> w \<le> 4"
  by (auto simp: rune_lead_def split: if_splits)

lemma tail_ok_cont:
  assumes "tail_ok lo hi ts" and "0x80 \<le> lo" and "hi \<le> 0xBF"
  shows "list_all is_cont ts"
  using assms by (cases ts) (auto simp: tail_ok_def is_cont_def)

lemma rune_valid_width_le: "rune_valid_width s \<le> length s"
  by (auto simp: rune_valid_width_def Let_def split: list.splits option.splits dest: rune_lead_range)

lemma rune_valid_width_take:
  assumes "0 < rune_valid_width s"
  shows "rune_valid_width (take (rune_valid_width s) s @ r) = rune_valid_width s"
proof -
  from assms obtain c cs w lo hi where s: "s = c # cs" "rune_lead (byte c) = Some (w, lo, hi)"
    "length (take (w - 1) cs) = w - 1" "tail_ok lo hi (take (w - 1) cs)" "rune_valid_width s = w"
    by (auto simp: rune_valid_width_def Let_def split: list.splits option.splits if_splits)
  from assms s(5) have "take w s = c # take (w - 1) cs" by (cases w) (simp_all add: s(1))
  with s show ?thesis by (simp add: rune_valid_width_def Let_def)
qed

lemma rune_valid_width_append:
  assumes "x \<noteq> []" and "u \<noteq> []" and "\<not> is_cont (hd u)"
  shows "rune_valid_width (x @ u) = rune_valid_width x"
proof -
  obtain c cs where x: "x = c # cs" using assms(1) by (cases x) auto
  obtain d ds where u: "u = d # ds" "\<not> is_cont d" using assms(2,3) by (cases u) auto
  show ?thesis
  proof (cases "rune_lead (byte c)")
    case None
    then show ?thesis by (simp add: rune_valid_width_def x)
  next
    case (Some t)
    obtain w lo hi where t: "t = (w, lo, hi)" by (cases t)
    show ?thesis
    proof (cases "w - 1 \<le> length cs")
      case True
      then show ?thesis by (simp add: rune_valid_width_def x Some t Let_def)
    next
      case False
      have r: "0x80 \<le> lo" "hi \<le> 0xBF" using rune_lead_range Some t by auto
      have mem: "d \<in> set (take (w - 1) (cs @ u))"
        using False by (cases "w - 1 - length cs") (auto simp: u)
      have "\<not> tail_ok lo hi (take (w - 1) (cs @ u))"
      proof
        assume "tail_ok lo hi (take (w - 1) (cs @ u))"
        from tail_ok_cont [OF this r] mem u(2) show False by (auto simp: list_all_iff)
      qed
      with False show ?thesis by (simp add: rune_valid_width_def x Some t Let_def)
    qed
  qed
qed

lemma rune_list_append:
  assumes "u \<noteq> []" and "\<not> is_cont (hd u)"
  shows "rune_list (x @ u) = rune_list x @ rune_list u"
proof (induction x rule: rune_list.induct)
  case (1 x)
  show ?case
  proof (cases "x = []")
    case True
    then show ?thesis by (simp add: rune_list.simps [of "[]"])
  next
    case False
    define w where "w = rune_valid_width x"
    have w: "rune_valid_width (x @ u) = w" "w \<le> length x"
      using rune_valid_width_append [OF False assms] rune_valid_width_le by (auto simp: w_def)
    show ?thesis
    proof (cases "w = 0")
      case True
      with False 1 [of w] have "rune_list (tl x @ u) = rune_list (tl x) @ rune_list u"
        by (simp add: w_def)
      with False True w(1) show ?thesis
        by (simp add: rune_list.simps [of "x @ u"] rune_list.simps [of x] w_def Let_def)
    next
      case nz: False
      with False 1 [of w] have "rune_list (drop w x @ u) = rune_list (drop w x) @ rune_list u"
        by (simp add: w_def)
      with False nz w show ?thesis
        by (simp add: rune_list.simps [of "x @ u"] rune_list.simps [of x] w_def Let_def)
    qed
  qed
qed

lemma RuneCount_append:
  "u \<noteq> [] \<Longrightarrow> \<not> is_cont (hd u) \<Longrightarrow> RuneCount x \<le> RuneCount (x @ u)"
  by (simp add: RuneCount_def rune_list_append)

text \<open>Re-decoding the runes of a string gives the same runes; so cutting bounds the count.\<close>

lemma rune_list_step:
  assumes "0 < rune_valid_width s"
  shows "rune_list (take (rune_valid_width s) s @ r) = take (rune_valid_width s) s # rune_list r"
proof -
  have "s \<noteq> []" using assms by (auto simp: rune_valid_width_def)
  moreover have "length (take (rune_valid_width s) s) = rune_valid_width s"
    using rune_valid_width_le [of s] by simp
  ultimately show ?thesis
    using assms rune_valid_width_take [OF assms, of r]
    by (subst rune_list.simps) (auto simp: Let_def)
qed

lemma rune_list_replacement:
  "rune_list ([CHR 0xEF, CHR 0xBF, CHR 0xBD] @ r) = [CHR 0xEF, CHR 0xBF, CHR 0xBD] # rune_list r"
proof -
  have "rune_valid_width ([CHR 0xEF, CHR 0xBF, CHR 0xBD] @ r) = 3"
    by (simp add: rune_valid_width_def rune_lead_def tail_ok_def byte_def is_cont_def Let_def)
  from rune_list_step [of "[CHR 0xEF, CHR 0xBF, CHR 0xBD] @ r" r] this show ?thesis by simp
qed

lemma rune_list_idem: "rune_list (concat (take n (rune_list s))) = take n (rune_list s)"
proof (induction s arbitrary: n rule: rune_list.induct)
  case (1 s)
  show ?case
  proof (cases "s = [] \<or> n = 0")
    case True
    then show ?thesis by (auto simp: rune_list.simps [of "[]"])
  next
    case False
    then obtain m where m: "n = Suc m" by (cases n) auto
    define w where "w = rune_valid_width s"
    show ?thesis
    proof (cases "w = 0")
      case True
      with False 1 [of w m] show ?thesis
        by (simp add: rune_list.simps [of s] m w_def Let_def
              rune_list_replacement [simplified])
    next
      case nz: False
      with False 1 [of w m] have "rune_list (concat (take m (rune_list (drop w s)))) = take m (rune_list (drop w s))"
        by (simp add: w_def)
      with False nz show ?thesis
        using rune_list_step [of s] by (simp add: rune_list.simps [of s] m w_def Let_def)
    qed
  qed
qed

lemma RuneCount_take_runes: "RuneCount (take_runes n s) \<le> n"
  by (simp add: RuneCount_def take_runes_def rune_list_idem)

lemma RuneCount_strip_heads: "RuneCount (strip_heads us s) \<le> RuneCount s"
  if "\<forall>u \<in> set us. u \<noteq> [] \<longrightarrow> rune_valid_width u = length u"
  using that
proof (induction us s rule: strip_heads.induct)
  case (1 us s)
  show ?case
  proof (cases "first_prefix us s")
    case None
    then show ?thesis by (simp add: strip_heads.simps [of us s])
  next
    case (Some u)
    then obtain b where u: "u \<in> set us" "u \<noteq> []" "s = u @ b"
      using first_prefix_Some HasPrefix_iff by blast
    with "1.prems" have "rune_valid_width u = length u" "0 < length u" by auto
    with rune_list_step [of u b] have "RuneCount s = Suc (RuneCount b)"
      by (simp add: RuneCount_def u(3))
    with 1 Some u show ?thesis by (subst strip_heads.simps) simp
  qed
qed

lemma RuneCount_strip_tails:
  assumes "\<forall>u \<in> set us. u \<noteq> [] \<longrightarrow> \<not> is_cont (hd u)"
  shows "RuneCount (rev (strip_heads (map rev us) r)) \<le> RuneCount (rev r)"
proof (induction r rule: length_induct)
  case (1 r)
  show ?case
  proof (cases "first_prefix (map rev us) r")
    case None
    then show ?thesis by (simp add: strip_heads.simps [of "map rev us" r])
  next
    case (Some v)
    then obtain b where v: "v \<in> set (map rev us)" "v \<noteq> []" "r = v @ b"
      using first_prefix_Some HasPrefix_iff by blast
    then obtain u where u: "u \<in> set us" "v = rev u" by auto
    with v assms have "RuneCount (rev b) \<le> RuneCount (rev r)"
      by (auto intro: RuneCount_append)
    moreover have "RuneCount (rev (strip_heads (map rev us) b)) \<le> RuneCount (rev b)"
      using 1 v by simp
    ultimately show ?thesis using Some v by (subst strip_heads.simps) simp
  qed
qed

lemma RuneCount_TrimSpace: "RuneCount (TrimSpace s) \<le> RuneCount s"
proof -
  have a: "\<forall>u \<in> set go_spaces. u \<noteq> [] \<longrightarrow> rune_valid_width u = length u"
    by (simp add: go_spaces_def ascii_spaces_def uni_spaces_def rune_valid_width_def rune_lead_def
          tail_ok_def byte_def is_cont_def Let_def)
  have b: "\<forall>u \<in> set go_spaces. u \<noteq> [] \<longrightarrow> \<not> is_cont (hd u)"
    by (simp add: go_spaces_def ascii_spaces_def uni_spaces_def byte_def is_cont_def)
  show ?thesis
    unfolding TrimSpace_def strip_both_def
    using RuneCount_strip_tails [OF b, of "rev (strip_heads go_spaces s)"] RuneCount_strip_heads [OF a, of s]
    by simp
qed

lemma sorted_unique_sorted [simp]: "sorted (unique_sorted xs)"
  by (simp add: unique_sorted_def)

lemma distinct_unique_sorted [simp]: "distinct (unique_sorted xs)"
  by (simp add: unique_sorted_def)

lemma set_unique_sorted: "set (unique_sorted xs) = {s \<in> set xs. s \<noteq> []}"
  by (simp add: unique_sorted_def)

lemma RuneCount_le_length: "RuneCount s \<le> length s"
proof (induction s rule: rune_list.induct)
  case (1 s)
  show ?case
  proof (cases "s = []")
    case True
    then show ?thesis by (simp add: RuneCount_def rune_list.simps)
  next
    case False
    define w where "w = rune_valid_width s"
    show ?thesis
    proof (cases "w = 0")
      case True
      with False 1 [of w] show ?thesis
        by (simp add: RuneCount_def rune_list.simps [of s] w_def Let_def)
           (cases s, simp_all)
    next
      case nz: False
      with False 1 [of w] have "RuneCount (drop w s) \<le> length (drop w s)"
        by (simp add: w_def)
      with False nz show ?thesis
        by (simp add: RuneCount_def rune_list.simps [of s] w_def Let_def)
           (cases s, simp_all)
    qed
  qed
qed

end
