(* ===== verification/GoRegex.thy ===== *)
theory GoRegex
  imports GoStrings
begin

text \<open>
  Go's \<open>regexp.MatchString\<close> on byte lists: a small regular expression syntax with the
  constructs the program's patterns use (literals, classes, sequence, alternation, repetition,
  ASCII word boundary), a matcher that computes every position a match can end at, and the
  relation the matcher is proved to decide. Under \<open>(?i)\<close> Go folds \<open>s\<close> with U+017F and \<open>k\<close> with
  U+212A as well; \<open>ci_char\<close> includes their UTF-8 encodings.
\<close>

datatype re =
    REps
  | RChr char
  | RCls "char \<Rightarrow> bool"
  | RSeq re re
  | RAlt re re
  | RStar re
  | RBound

type_synonym pos = "char option \<times> string"

definition word_char :: "char \<Rightarrow> bool" where
  "word_char c = (c \<in> set ''0123456789ABCDEFGHIJKLMNOPQRSTUVWXYZabcdefghijklmnopqrstuvwxyz_'')"

definition at_boundary :: "pos \<Rightarrow> bool" where
  "at_boundary p =
     ((case fst p of None \<Rightarrow> False | Some c \<Rightarrow> word_char c) \<noteq>
      (case snd p of [] \<Rightarrow> False | c # _ \<Rightarrow> word_char c))"

fun star_iter :: "(pos \<Rightarrow> pos list) \<Rightarrow> nat \<Rightarrow> pos \<Rightarrow> pos list" where
  "star_iter f 0 p = [p]"
| "star_iter f (Suc n) p =
     p # concat (map (star_iter f n) (filter (\<lambda>q. length (snd q) < length (snd p)) (f p)))"

definition step_char :: "(char \<Rightarrow> bool) \<Rightarrow> pos \<Rightarrow> pos list" where
  "step_char P p = (case snd p of [] \<Rightarrow> [] | c # cs \<Rightarrow> if P c then [(Some c, cs)] else [])"

primrec rmatch :: "re \<Rightarrow> pos \<Rightarrow> pos list" where
  "rmatch REps = (\<lambda>p. [p])"
| "rmatch (RChr c) = step_char (\<lambda>d. d = c)"
| "rmatch (RCls P) = step_char P"
| "rmatch (RSeq a b) = (\<lambda>p. concat (map (rmatch b) (rmatch a p)))"
| "rmatch (RAlt a b) = (\<lambda>p. rmatch a p @ rmatch b p)"
| "rmatch (RStar a) = (\<lambda>p. star_iter (rmatch a) (length (snd p)) p)"
| "rmatch RBound = (\<lambda>p. if at_boundary p then [p] else [])"

fun search_from :: "re \<Rightarrow> char option \<Rightarrow> string \<Rightarrow> bool" where
  "search_from r prev [] = (rmatch r (prev, []) \<noteq> [])"
| "search_from r prev (c # cs) = (rmatch r (prev, c # cs) \<noteq> [] \<or> search_from r (Some c) cs)"

definition MatchString :: "re \<Rightarrow> string \<Rightarrow> bool" where
  "MatchString r s = search_from r None s"

definition MatchAtStart :: "re \<Rightarrow> string \<Rightarrow> bool" where
  "MatchAtStart r s = (rmatch r (None, s) \<noteq> [])"

section \<open>Pattern constructors\<close>

fun r_seq :: "re list \<Rightarrow> re" where
  "r_seq [] = REps"
| "r_seq [r] = r"
| "r_seq (r # rs) = RSeq r (r_seq rs)"

fun r_alt :: "re list \<Rightarrow> re" where
  "r_alt [] = RCls (\<lambda>_. False)"
| "r_alt [r] = r"
| "r_alt (r # rs) = RAlt r (r_alt rs)"

definition r_lit :: "string \<Rightarrow> re" where
  "r_lit s = r_seq (map RChr s)"

definition fold_extra :: "char \<Rightarrow> re list" where
  "fold_extra c =
     (if lower_char c = CHR ''s'' then [r_lit [CHR 0xC5, CHR 0xBF]]
      else if lower_char c = CHR ''k'' then [r_lit [CHR 0xE2, CHR 0x84, CHR 0xAA]]
      else [])"

definition ci_char :: "char \<Rightarrow> re" where
  "ci_char c = r_alt (RCls (\<lambda>d. lower_char d = lower_char c) # fold_extra c)"

definition r_ci :: "string \<Rightarrow> re" where
  "r_ci s = r_seq (map ci_char s)"

definition re_space :: "char \<Rightarrow> bool" where
  "re_space c = (c \<in> {CHR 0x09, CHR 0x0A, CHR 0x0C, CHR 0x0D, CHR '' ''})"

definition r_spaces :: re where
  "r_spaces = RSeq (RCls re_space) (RStar (RCls re_space))"

definition r_nonspaces :: re where
  "r_nonspaces = RSeq (RCls (\<lambda>c. \<not> re_space c)) (RStar (RCls (\<lambda>c. \<not> re_space c)))"

definition r_any :: re where
  "r_any = RStar (RCls (\<lambda>c. c \<noteq> CHR 0x0A))"

definition r_word_ci :: re where
  "r_word_ci = RStar (r_alt [RCls word_char, r_lit [CHR 0xC5, CHR 0xBF],
                             r_lit [CHR 0xE2, CHR 0x84, CHR 0xAA]])"

definition r_opt :: "re \<Rightarrow> re" where
  "r_opt r = RAlt r REps"

section \<open>The matcher decides the match relation\<close>

inductive re_span :: "re \<Rightarrow> pos \<Rightarrow> pos \<Rightarrow> bool" where
  r_eps: "re_span REps p p"
| r_chr: "re_span (RChr c) (v, c # cs) (Some c, cs)"
| r_cls: "P c \<Longrightarrow> re_span (RCls P) (v, c # cs) (Some c, cs)"
| r_sq: "re_span a p q \<Longrightarrow> re_span b q r \<Longrightarrow> re_span (RSeq a b) p r"
| r_al: "re_span a p q \<Longrightarrow> re_span (RAlt a b) p q"
| r_ar: "re_span b p q \<Longrightarrow> re_span (RAlt a b) p q"
| r_s0: "re_span (RStar a) p p"
| r_s1: "re_span a p q \<Longrightarrow> re_span (RStar a) q r \<Longrightarrow> re_span (RStar a) p r"
| r_wb: "at_boundary p \<Longrightarrow> re_span RBound p p"

inductive_simps re_span_base [simp]:
  "re_span REps p q" "re_span (RChr c) p q" "re_span (RCls P) p q" "re_span (RSeq a b) p q"
  "re_span (RAlt a b) p q" "re_span RBound p q"

text \<open>A match consumes a prefix: it ends no earlier than it starts, at the same place if empty.\<close>

definition advances :: "pos \<Rightarrow> pos \<Rightarrow> bool" where
  "advances p q \<longleftrightarrow> q = p \<or> length (snd q) < length (snd p)"

lemma re_span_advances: "re_span r p q \<Longrightarrow> advances p q"
  by (induction rule: re_span.induct) (auto simp: advances_def)

lemma star_iter_sound:
  assumes "\<And>p q. q \<in> set (f p) \<Longrightarrow> re_span a p q"
  shows "q \<in> set (star_iter f n p) \<Longrightarrow> re_span (RStar a) p q"
proof (induction n arbitrary: p)
  case 0
  then show ?case by (simp add: r_s0)
next
  case (Suc n)
  then consider "q = p" | p' where "p' \<in> set (f p)" "q \<in> set (star_iter f n p')" by auto
  then show ?case
  proof cases
    case 1
    then show ?thesis by (simp add: r_s0)
  next
    case 2
    then show ?thesis using Suc.IH assms r_s1 by blast
  qed
qed

lemma rmatch_sound: "q \<in> set (rmatch r p) \<Longrightarrow> re_span r p q"
proof (induction r arbitrary: p q)
  case (RSeq a b)
  then obtain m where "m \<in> set (rmatch a p)" "q \<in> set (rmatch b m)" by auto
  with RSeq.IH show ?case by (blast intro: r_sq)
next
  case (RStar a)
  have "\<And>p q. q \<in> set (rmatch a p) \<Longrightarrow> re_span a p q" by (rule RStar.IH)
  from star_iter_sound [OF this] RStar.prems show ?case by simp
qed (auto simp: step_char_def split: list.splits if_splits intro: re_span.intros)

lemma star_complete:
  assumes "re_span (RStar a) p q" and "\<And>p q. re_span a p q \<Longrightarrow> q \<in> set (f p)"
    and "length (snd p) \<le> n"
  shows "q \<in> set (star_iter f n p)"
  using assms(1,3)
proof (induction "RStar a" p q arbitrary: n rule: re_span.induct)
  case (r_s0 p)
  then show ?case by (cases n) simp_all
next
  case (r_s1 p q r)
  show ?case
  proof (cases "q = p")
    case True
    with r_s1 show ?thesis by simp
  next
    case False
    with re_span_advances [OF r_s1.hyps(1)] have lt: "length (snd q) < length (snd p)"
      unfolding advances_def by blast
    with r_s1.prems obtain m where n: "n = Suc m" "length (snd q) \<le> m" by (cases n) auto
    with r_s1.hyps have "r \<in> set (star_iter f m q)" by blast
    moreover have "q \<in> set (f p)" using r_s1.hyps(1) by (rule assms(2))
    ultimately show ?thesis using lt n by (auto simp del: split_paired_Ex)
  qed
qed

lemma rmatch_complete: "re_span r p q \<Longrightarrow> q \<in> set (rmatch r p)"
proof (induction r arbitrary: p q)
  case (RSeq a b)
  then obtain m where "re_span a p m" "re_span b m q" by auto
  with RSeq.IH show ?case by (simp del: split_paired_Ex) blast
next
  case (RStar a)
  from star_complete [OF RStar.prems, of "rmatch a"] RStar.IH show ?case by simp
qed (auto simp: step_char_def)

lemma rmatch_iff: "q \<in> set (rmatch r p) \<longleftrightarrow> re_span r p q"
  using rmatch_sound rmatch_complete by blast

lemma MatchAtStart_iff: "MatchAtStart r s \<longleftrightarrow> (\<exists>q. re_span r (None, s) q)"
  unfolding MatchAtStart_def rmatch_iff [symmetric] by (cases "rmatch r (None, s)") auto

end
