(* ===== verification/ProposedAction.thy ===== *)
theory ProposedAction
  imports GoRegex
begin

text \<open>
  \<^verbatim>\<open>pkg/adapter/proposed_action.go\<close>: the canonical projection of a host tool call. The record
  mirrors the Go struct field by field; \<open>RedactedPayload\<close> is the raw JSON text. Tool input
  (\<open>any\<close>) is a decoded \<open>json\<close> value. The lemmas cover the tool classes, the full-suite test
  (which commands can count as a whole-repository test run), key redaction and the rune bound.
\<close>

section \<open>Data\<close>

abbreviation ProposedActionSchemaVersion :: string where
  "ProposedActionSchemaVersion \<equiv> ''reinframe.proposed_action.v1''"

definition MaxProposedCommandRunes :: nat where "MaxProposedCommandRunes = 4000"
definition MaxProposedArgRunes :: nat where "MaxProposedArgRunes = 1000"
definition MaxProposedArgs :: nat where "MaxProposedArgs = 32"
definition MaxProposedPayloadBytes :: nat where "MaxProposedPayloadBytes = 4096"
definition MaxProposedFilePathRunes :: nat where "MaxProposedFilePathRunes = 1024"
definition MaxProposedActionIDRunes :: nat where "MaxProposedActionIDRunes = 128"

abbreviation ToolClassShell :: string where "ToolClassShell \<equiv> ''shell''"
abbreviation ToolClassEdit :: string where "ToolClassEdit \<equiv> ''edit''"
abbreviation ToolClassRead :: string where "ToolClassRead \<equiv> ''read''"
abbreviation ToolClassSearch :: string where "ToolClassSearch \<equiv> ''search''"
abbreviation ToolClassUnknown :: string where "ToolClassUnknown \<equiv> ''unknown''"
abbreviation ToolClassOther :: string where "ToolClassOther \<equiv> ''other''"

record proposed_action =
  pa_SchemaVersion :: string
  pa_SessionID :: string
  pa_ActionID :: string
  pa_ToolName :: string
  pa_ToolClass :: string
  pa_Command :: string
  pa_Arguments :: "string list"
  pa_FilePath :: string
  pa_TargetScope :: "string list"
  pa_WorkspaceRevision :: string
  pa_ContractRevision :: int
  pa_RedactedPayload :: string
  pa_Source :: string
  pa_Truncated :: bool
  pa_ParseStatus :: string

definition empty_action :: proposed_action where
  "empty_action = \<lparr>pa_SchemaVersion = [], pa_SessionID = [], pa_ActionID = [], pa_ToolName = [],
     pa_ToolClass = [], pa_Command = [], pa_Arguments = [], pa_FilePath = [], pa_TargetScope = [],
     pa_WorkspaceRevision = [], pa_ContractRevision = 0, pa_RedactedPayload = [], pa_Source = [],
     pa_Truncated = False, pa_ParseStatus = []\<rparr>"

record proposed_action_options =
  po_WorkspaceRevision :: string
  po_ContractRevision :: int
  po_TargetScope :: "string list"
  po_ActionID :: string

definition sensitiveKeyParts :: "string list" where
  "sensitiveKeyParts =
    [''password'', ''secret'', ''token'', ''api_key'', ''apikey'', ''authorization'',
     ''auth'', ''credential'', ''private_key'', ''privatekey'', ''cookie'', ''session_key'']"

section \<open>Operations\<close>

definition ellipsis :: string where
  "ellipsis = [CHR 0xE2, CHR 0x80, CHR 0xA6]"

definition boundRunes :: "string \<Rightarrow> nat \<Rightarrow> string" where
  "boundRunes s mx =
     (if mx = 0 \<or> s = [] then s
      else if RuneCount s \<le> mx then s
      else take_runes mx s @ ellipsis)"

definition ClassifyToolName :: "string \<Rightarrow> string" where
  "ClassifyToolName toolName =
     (let n = TrimSpace toolName in
      if n \<in> set [''Bash'', ''bash'', ''Shell'', ''shell'', ''terminal'', ''Terminal''] then ToolClassShell
      else if n \<in> set [''Edit'', ''Write'', ''MultiEdit'', ''NotebookEdit'', ''create_file'', ''StrReplace'']
        then ToolClassEdit
      else if n \<in> set [''Read'', ''read_file'', ''NotebookRead''] then ToolClassRead
      else if n \<in> set [''Grep'', ''Glob'', ''Search'', ''SemanticSearch''] then ToolClassSearch
      else if n = [] then ToolClassUnknown
      else ToolClassOther)"

definition looksLikeCommandString :: "string \<Rightarrow> bool" where
  "looksLikeCommandString s0 =
     (let s = TrimSpace s0 in
      s \<noteq> [] \<and> (Contains s '' '' \<or> Contains s ''./'' \<or> (Contains s ''-'' \<and> Contains s ''test'')))"

definition ident_start :: "char \<Rightarrow> bool" where
  "ident_start c = (c \<in> set upper_letters \<or> c \<in> set lower_letters \<or> c = CHR ''_'')"

definition ident_rest :: "char \<Rightarrow> bool" where
  "ident_rest c = (ident_start c \<or> c \<in> set ''0123456789'')"

definition isShellIdent :: "string \<Rightarrow> bool" where
  "isShellIdent s = (case s of [] \<Rightarrow> False | c # cs \<Rightarrow> ident_start c \<and> list_all ident_rest cs)"

definition goTestHasAlteringFlags :: "string list \<Rightarrow> bool" where
  "goTestHasAlteringFlags args =
     list_ex (\<lambda>a. let low = ToLower a in
        HasPrefix low ''-toolexec'' \<or> HasPrefix low ''-exec'' \<or> HasPrefix low ''-overlay'' \<or>
        HasPrefix low ''-linkshared'' \<or> HasPrefix low ''-buildmode'' \<or>
        low = ''-toolexec'' \<or> low = ''-exec'' \<or> low = ''-overlay'' \<or> low = ''-buildmode'') args"

fun before_char :: "char \<Rightarrow> string \<Rightarrow> string" where
  "before_char d [] = []"
| "before_char d (c # cs) = (if c = d then [] else c # before_char d cs)"

text \<open>The leading \<open>ENV=\<close> assignment test of \<open>isFullSuiteText\<close> (lines 226-232).\<close>

definition leading_env_assign :: "string \<Rightarrow> bool" where
  "leading_env_assign lead =
     (lead \<noteq> [] \<and> hd lead \<noteq> CHR ''-'' \<and> Contains lead ''='' \<and>
      (let nm = before_char (CHR ''='') lead in nm \<noteq> [] \<and> isShellIdent nm))"

definition isFullSuiteText :: "string \<Rightarrow> bool" where
  "isFullSuiteText s =
     (let n = TrimSpace s in
      if n = [] then False
      else let low = ToLower n; fs = Fields n in
        (case fs of
           [] \<Rightarrow> False
         | argv0 # rest \<Rightarrow>
             if leading_env_assign argv0 then False
             else if ContainsAny argv0 (''/'' @ [CHR 0x5C]) then False
             else let base = ToLower argv0 in
               if base = ''go'' then
                 (case rest of
                    [] \<Rightarrow> False
                  | f1 # args \<Rightarrow>
                      if \<not> EqualFold f1 ''test'' then False
                      else if goTestHasAlteringFlags args then False
                      else if Contains low ''./...'' then True
                      else Contains low ''-race'' \<and> Contains low ''./'')
               else if base = ''gotestsum'' \<or> base = ''gotest'' then
                 (if goTestHasAlteringFlags rest then False else Contains low ''./...'')
               else False))"

definition FullSuiteCommand :: "proposed_action \<Rightarrow> bool" where
  "FullSuiteCommand pa =
     (if pa_ToolClass pa = ToolClassShell \<or> pa_Command pa \<noteq> [] then isFullSuiteText (pa_Command pa)
      else if looksLikeCommandString (pa_ToolName pa) then isFullSuiteText (pa_ToolName pa)
      else False)"

definition deriveActionID :: "gostd \<Rightarrow> proposed_action \<Rightarrow> string" where
  "deriveActionID std pa =
     (let sum = sha256_hex std (Join [pa_SessionID pa, pa_ToolName pa, pa_Command pa,
                                      pa_FilePath pa, pa_Source pa] ''|'')
      in ''pa-'' @ (if length sum > 16 then take 16 sum else sum))"

definition ProposedActionFromCodexTool ::
  "gostd \<Rightarrow> string \<Rightarrow> string \<Rightarrow> string \<Rightarrow> string \<Rightarrow> proposed_action_options \<Rightarrow> proposed_action" where
  "ProposedActionFromCodexTool std sessionID toolName command source opts =
     (let sid = (if sessionID = [] then ''codex-unknown'' else sessionID);
          tool = (if toolName = [] then ''unknown'' else toolName);
          src = (if source = [] then ''codex_rollout'' else source);
          pa = empty_action\<lparr>pa_SchemaVersion := ProposedActionSchemaVersion, pa_SessionID := sid,
                 pa_ToolName := tool, pa_ToolClass := ClassifyToolName tool,
                 pa_Command := boundRunes command MaxProposedCommandRunes, pa_Source := src,
                 pa_WorkspaceRevision := po_WorkspaceRevision opts,
                 pa_ContractRevision := po_ContractRevision opts, pa_ParseStatus := ''ok''\<rparr>
      in pa\<lparr>pa_ActionID := (if po_ActionID opts \<noteq> []
                            then boundRunes (po_ActionID opts) MaxProposedActionIDRunes
                            else deriveActionID std pa)\<rparr>)"

definition isSensitiveKey :: "string \<Rightarrow> bool" where
  "isSensitiveKey lk = list_ex (\<lambda>p. Contains lk p) sensitiveKeyParts"

abbreviation redacted_mark :: string where
  "redacted_mark \<equiv> ''[REDACTED]''"

text \<open>
  \<open>redactMap\<close> walks nested objects only; every other value, arrays included, is copied as it is.
\<close>

fun redact_value :: "json \<Rightarrow> json \<times> bool"
and redactMap :: "(string \<times> json) list \<Rightarrow> (string \<times> json) list \<times> bool" where
  "redact_value (JObj kvs) = (let (m, t) = redactMap kvs in (JObj m, t))"
| "redact_value (JStr s) =
     (JStr (boundRunes s MaxProposedCommandRunes), RuneCount s > MaxProposedCommandRunes)"
| "redact_value v = (v, False)"
| "redactMap [] = ([], False)"
| "redactMap ((k, v) # kvs) =
     (let (rest, t) = redactMap kvs in
      if isSensitiveKey (ToLower k) then ((k, JStr redacted_mark) # rest, t)
      else let (v', t') = redact_value v in ((k, v') # rest, t' \<or> t))"

fun firstStringMap :: "(string \<times> json) list \<Rightarrow> string list \<Rightarrow> string" where
  "firstStringMap m [] = []"
| "firstStringMap m (k # ks) =
     (case map_of m k of
        Some (JStr t) \<Rightarrow> if TrimSpace t \<noteq> [] then t else firstStringMap m ks
      | _ \<Rightarrow> firstStringMap m ks)"

definition arg_text :: "gostd \<Rightarrow> json \<Rightarrow> string" where
  "arg_text std a =
     boundRunes (case a of JStr s \<Rightarrow> s | _ \<Rightarrow> json_encode std a) MaxProposedArgRunes"

definition normalizeArgs :: "gostd \<Rightarrow> json \<Rightarrow> string list" where
  "normalizeArgs std v =
     (case v of
        JArr xs \<Rightarrow> map (arg_text std) (take MaxProposedArgs xs)
      | JStr t \<Rightarrow> if t = [] then [] else [boundRunes t MaxProposedArgRunes]
      | _ \<Rightarrow> [])"

definition string_elems :: "json list \<Rightarrow> string list" where
  "string_elems xs = concat (map (\<lambda>a. case a of JStr s \<Rightarrow> [s] | _ \<Rightarrow> []) xs)"

record tool_fields =
  tf_command :: string
  tf_args :: "string list"
  tf_path :: string
  tf_payload :: string
  tf_truncated :: bool
  tf_status :: string

definition extractToolInputFields :: "gostd \<Rightarrow> json \<Rightarrow> tool_fields" where
  "extractToolInputFields std v =
     (case v of
        JObj t \<Rightarrow>
          (let c0 = firstStringMap t [''command'', ''cmd''];
               path = firstStringMap t [''file_path'', ''filePath'', ''path''];
               args = (case map_of t ''arguments'' of
                         Some a \<Rightarrow> normalizeArgs std a
                       | None \<Rightarrow> (case map_of t ''args'' of
                                    Some a \<Rightarrow> normalizeArgs std a | None \<Rightarrow> []));
               command = (if c0 = [] then
                            (case map_of t ''command'' of
                               Some (JArr arr) \<Rightarrow> Join (string_elems arr) '' '' | _ \<Rightarrow> c0)
                          else c0);
               (red, trunc) = redactMap t;
               b = json_encode std (JObj red);
               over = length b > MaxProposedPayloadBytes;
               payload = (if over then take MaxProposedPayloadBytes b @ ellipsis @ ''\"}'' else b)
           in \<lparr>tf_command = command, tf_args = args, tf_path = path, tf_payload = payload,
               tf_truncated = (trunc \<or> over), tf_status = ''ok''\<rparr>)
      | JStr t \<Rightarrow> \<lparr>tf_command = t, tf_args = [], tf_path = [], tf_payload = ''{}'',
                   tf_truncated = False, tf_status = ''partial''\<rparr>
      | _ \<Rightarrow> \<lparr>tf_command = [], tf_args = [], tf_path = [], tf_payload = ''{}'',
               tf_truncated = False, tf_status = ''unknown_shape''\<rparr>)"

text \<open>The assignments both branches of \<open>ProposedActionFromClaudePreTool\<close> make from the fields.\<close>

definition apply_tool_fields :: "proposed_action \<Rightarrow> tool_fields \<Rightarrow> proposed_action" where
  "apply_tool_fields pa tf =
     pa\<lparr>pa_FilePath := (if tf_path tf \<noteq> [] \<and> pa_FilePath pa = []
                        then boundRunes (tf_path tf) MaxProposedFilePathRunes else pa_FilePath pa),
        pa_Command := boundRunes (tf_command tf) MaxProposedCommandRunes,
        pa_Arguments := tf_args tf,
        pa_RedactedPayload := tf_payload tf,
        pa_Truncated := tf_truncated tf,
        pa_ParseStatus := (if tf_status tf \<noteq> ''ok'' then tf_status tf else pa_ParseStatus pa)\<rparr>"

definition ProposedActionFromClaudePreTool ::
  "gostd \<Rightarrow> string \<Rightarrow> string \<Rightarrow> string \<Rightarrow> string \<Rightarrow> json option \<Rightarrow> proposed_action_options
   \<Rightarrow> proposed_action go_result" where
  "ProposedActionFromClaudePreTool std sessionID toolName filePath rawToolInput toolInput opts =
     (if TrimSpace sessionID = [] then Inl ''proposed_action: session_id required''
      else if TrimSpace toolName = [] then Inl ''proposed_action: tool_name required''
      else
        let base = empty_action\<lparr>pa_SchemaVersion := ProposedActionSchemaVersion,
              pa_SessionID := sessionID, pa_ToolName := toolName,
              pa_ToolClass := ClassifyToolName toolName,
              pa_FilePath := boundRunes filePath MaxProposedFilePathRunes,
              pa_Source := ''claude_pretool'',
              pa_WorkspaceRevision := po_WorkspaceRevision opts,
              pa_ContractRevision := po_ContractRevision opts,
              pa_TargetScope := po_TargetScope opts, pa_ParseStatus := ''ok''\<rparr>;
            pa = (case toolInput of
                    Some v \<Rightarrow> apply_tool_fields base (extractToolInputFields std v)
                  | None \<Rightarrow>
                      if rawToolInput \<noteq> [] then
                        (case json_decode std rawToolInput of
                           Some v \<Rightarrow> apply_tool_fields base (extractToolInputFields std v)
                         | None \<Rightarrow> base\<lparr>pa_ParseStatus := ''unknown_shape'',
                                        pa_RedactedPayload := ''{}''\<rparr>)
                      else base)
        in Inr (pa\<lparr>pa_ActionID := (if po_ActionID opts \<noteq> []
                                  then boundRunes (po_ActionID opts) MaxProposedActionIDRunes
                                  else deriveActionID std pa)\<rparr>))"

section \<open>Facts\<close>

lemma isFullSuiteText_runner:
  assumes "isFullSuiteText s"
  obtains argv0 rest where "Fields (TrimSpace s) = argv0 # rest"
    and "ToLower argv0 \<in> {''go'', ''gotestsum'', ''gotest''}"
    and "\<not> ContainsAny argv0 (''/'' @ [CHR 0x5C])" and "\<not> leading_env_assign argv0"
    and "\<not> goTestHasAlteringFlags (if ToLower argv0 = ''go'' then tl rest else rest)"
  using assms that unfolding isFullSuiteText_def Let_def
  by (auto split: if_splits list.splits)

lemma redact_keys: "map fst (fst (redactMap m)) = map fst m"
  by (induction m rule: redact_value_redactMap.induct(2)) (auto split: prod.splits simp: Let_def)

lemma redact_sensitive:
  "map_of (fst (redactMap m)) k \<noteq> None \<Longrightarrow> isSensitiveKey (ToLower k) \<Longrightarrow>
   map_of (fst (redactMap m)) k = Some (JStr redacted_mark)"
  by (induction m rule: redact_value_redactMap.induct(2)) (auto split: prod.splits if_splits simp: Let_def)

section \<open>Severities\<close>

text \<open>The range of a Stage 1 severity (\<open>pkg/classifier/types.go\<close>), which the re-evaluator and the classifier share.\<close>

definition ValidateSeverity :: "int \<Rightarrow> bool" where
  "ValidateSeverity s = (s \<ge> 0 \<and> s \<le> 100)"

end
