(* ===== verification/ShellSurface.thy ===== *)
theory ShellSurface
  imports ProposedAction
begin

text \<open>
  The shell half of \<^verbatim>\<open>pkg/challenge/fingerprint.go\<close>: how a command line is trimmed and split,
  which commands are recognised as \<open>rm\<close> and \<open>find -delete\<close>, which flags bind the scope of a
  deletion, how operands are normalised, and the patterns for high-impact commands. Every scan
  over the argument list is a structural recursion over the fields that are left.
\<close>

section \<open>Patterns\<close>

definition reFindDelete :: re where
  "reFindDelete = r_seq [RBound, r_ci ''find'', r_spaces, r_nonspaces, r_spaces, r_any,
                         r_ci ''-delete'', RBound]"

definition reCurl :: re where
  "reCurl = r_seq [RBound, r_alt [r_ci ''curl'', r_ci ''wget''], RBound]"

definition reDeploy :: re where
  "reDeploy = r_seq [RBound,
     r_alt [r_seq [r_ci ''kubectl'', r_spaces, r_ci ''apply''],
            r_seq [r_ci ''helm'', r_spaces, r_ci ''upgrade''],
            r_seq [r_ci ''terraform'', r_spaces, r_ci ''apply''],
            r_seq [r_ci ''gcloud'', r_spaces, r_any, r_ci ''deploy''],
            r_seq [r_ci ''fly'', r_spaces, r_ci ''deploy''],
            r_seq [r_ci ''firebase'', r_spaces, r_ci ''deploy'']], RBound]"

definition rePayment :: re where
  "rePayment = r_seq [RBound,
     r_alt [RSeq (r_ci ''stripe'') r_spaces, RSeq (r_ci ''charge'') r_spaces,
            RSeq (r_ci ''paypal'') r_spaces, RSeq (r_ci ''billing'') r_spaces], RBound]"

definition reChmod :: re where
  "reChmod = r_seq [RBound,
     r_alt [r_ci ''chmod'', r_ci ''chown'', r_ci ''setfacl'', r_ci ''icacls''], RBound]"

definition reGitMut :: re where
  "reGitMut = r_seq [RBound, r_ci ''git'', r_spaces,
     r_alt [r_ci ''push'', r_ci ''commit'', r_seq [r_ci ''reset'', r_spaces, r_ci ''--hard''],
            r_seq [r_ci ''clean'', r_spaces, r_ci ''-fd'']], RBound]"

definition reSecretOut :: re where
  "reSecretOut = r_seq [RBound,
     r_alt [r_seq [r_ci ''cat'', r_spaces, r_any, r_lit ''.'',
                   r_alt [r_ci ''pem'', r_ci ''key'', r_ci ''env'']],
            r_seq [r_ci ''curl'', r_spaces, r_any, r_lit ''$'', r_opt (r_lit ''{''), r_word_ci,
                   r_alt [r_ci ''TOKEN'', r_ci ''SECRET'', r_ci ''PASSWORD'', r_ci ''API_KEY'']]]]"

definition reCrossWS :: re where
  "reCrossWS = r_alt [r_lit ''../'', r_ci ''/users/'', r_ci ''/home/'',
                      r_ci (''c:'' @ [CHR 0x5C] @ ''users'' @ [CHR 0x5C])]"

definition envAssignPrefix :: re where
  "envAssignPrefix = r_seq [RCls ident_start, RStar (RCls ident_rest), RChr (CHR ''='')]"

definition is_env_assign :: "string \<Rightarrow> bool" where
  "is_env_assign f = MatchAtStart envAssignPrefix f"

section \<open>Trimming and fields\<close>

definition shell_blanks :: "string list" where
  "shell_blanks = ['' '', [CHR 0x09], [CHR 0x0A]]"

definition isShellASCIIWhitespace :: "char \<Rightarrow> bool" where
  "isShellASCIIWhitespace r = ([r] \<in> set shell_blanks)"

definition trimShellASCIIWhitespace :: "string \<Rightarrow> string" where
  "trimShellASCIIWhitespace s = strip_both shell_blanks s"

definition hasNonShellUnicodeWhitespace :: "string \<Rightarrow> bool" where
  "hasNonShellUnicodeWhitespace s = list_ex (\<lambda>u. Contains s u) uni_spaces"

definition hasCarriageReturn :: "string \<Rightarrow> bool" where
  "hasCarriageReturn s = Contains s [CHR 0x0D]"

definition shellFields :: "string \<Rightarrow> string list option" where
  "shellFields cmd =
     (if hasNonShellUnicodeWhitespace cmd \<or> hasCarriageReturn cmd then None
      else Some (fields_on shell_blanks [] cmd))"

definition compound_chars :: string where
  "compound_chars = '';|&'' @ [CHR 0x0A, CHR 0x0D, CHR 0x60, CHR 0x27, CHR 0x22, CHR 0x5C]"

definition shellHasCompoundOrQuoting :: "string \<Rightarrow> bool" where
  "shellHasCompoundOrQuoting cmd =
     (ContainsAny cmd compound_chars
      \<or> Contains cmd ''&&'' \<or> Contains cmd ''||''
      \<or> list_ex (\<lambda>f. ContainsAny f '';|&'') (Fields cmd))"

fun resolution_env_scan :: "string list \<Rightarrow> bool" where
  "resolution_env_scan [] = False"
| "resolution_env_scan (f # fs) =
     (if is_env_assign f then True
      else if Contains f ''='' \<and> \<not> HasPrefix f ''-'' then resolution_env_scan fs
      else False)"

definition shellHasResolutionEnv :: "string \<Rightarrow> bool" where
  "shellHasResolutionEnv cmd =
     (case shellFields (trimShellASCIIWhitespace cmd) of
        None \<Rightarrow> True | Some fs \<Rightarrow> resolution_env_scan fs)"

definition after_env :: "string list \<Rightarrow> string list" where
  "after_env fs = dropWhile is_env_assign fs"

definition shellArgv0 :: "string \<Rightarrow> string" where
  "shellArgv0 cmd =
     (if shellHasResolutionEnv cmd then []
      else case shellFields (trimShellASCIIWhitespace cmd) of
             None \<Rightarrow> []
           | Some fs \<Rightarrow>
               (case after_env fs of
                  [] \<Rightarrow> []
                | argv0 # _ \<Rightarrow> if ContainsAny argv0 (''/'' @ [CHR 0x5C]) then [] else argv0))"

section \<open>Deletion flags\<close>

definition parseInteractiveValue :: "string \<Rightarrow> string option" where
  "parseInteractiveValue v =
     (if v = ''always'' \<or> v = ''yes'' then Some ''all''
      else if v = ''once'' then Some ''once''
      else if v = ''never'' \<or> v = ''no'' \<or> v = ''none'' then Some ''none''
      else None)"

definition isValidFindOLevel :: "string \<Rightarrow> bool" where
  "isValidFindOLevel f =
     (HasPrefix f ''-O'' \<and> length f \<ge> 3 \<and> list_all (\<lambda>c. c \<in> set ''0123456789'') (drop 2 f))"

record rm_flags =
  rf_prompt :: string
  rf_preserve :: string
  rf_dir :: bool
  rf_onefs :: bool
  rf_other :: "string list"

definition rm_short :: "string \<Rightarrow> rm_flags \<Rightarrow> rm_flags" where
  "rm_short r st =
     (if r = ''f'' then st\<lparr>rf_prompt := ''none''\<rparr>
      else if r = ''i'' then st\<lparr>rf_prompt := ''all''\<rparr>
      else if r = ''I'' then st\<lparr>rf_prompt := ''once''\<rparr>
      else if r = ''d'' then st\<lparr>rf_dir := True\<rparr>
      else if r = ''r'' \<or> r = ''R'' \<or> r = ''v'' then st
      else st\<lparr>rf_other := rf_other st @ [r]\<rparr>)"

definition rm_flag :: "string \<Rightarrow> rm_flags \<Rightarrow> rm_flags" where
  "rm_flag f st =
     (if f = ''--one-file-system'' then st\<lparr>rf_onefs := True\<rparr>
      else if f = ''--preserve-root'' then st\<lparr>rf_preserve := ''--preserve-root''\<rparr>
      else if HasPrefix f ''--preserve-root='' then st\<lparr>rf_preserve := f\<rparr>
      else if f = ''--no-preserve-root'' then st\<lparr>rf_preserve := ''--no-preserve-root''\<rparr>
      else if f = ''--dir'' \<or> f = ''-d'' then st\<lparr>rf_dir := True\<rparr>
      else if f = ''--force'' then st\<lparr>rf_prompt := ''none''\<rparr>
      else if f = ''-i'' then st\<lparr>rf_prompt := ''all''\<rparr>
      else if f = ''-I'' then st\<lparr>rf_prompt := ''once''\<rparr>
      else if f = ''--interactive'' then st\<lparr>rf_prompt := ''all''\<rparr>
      else if HasPrefix f ''--interactive='' then
        (case parseInteractiveValue (TrimPrefix f ''--interactive='') of
           Some mode \<Rightarrow> st\<lparr>rf_prompt := mode\<rparr> | None \<Rightarrow> st)
      else if HasPrefix f ''-'' \<and> \<not> HasPrefix f ''--'' \<and> f \<noteq> ''-'' then fold rm_short (rune_list (tl f)) st
      else st)"

fun rm_scan :: "string list \<Rightarrow> rm_flags \<Rightarrow> rm_flags" where
  "rm_scan [] st = st"
| "rm_scan (f # fs) st = (if f = ''--'' then st else rm_scan fs (rm_flag f st))"

definition rm_scope :: "string list \<Rightarrow> string list" where
  "rm_scope fs =
     (let st = rm_scan fs \<lparr>rf_prompt = [], rf_preserve = [], rf_dir = False, rf_onefs = False, rf_other = []\<rparr>
      in rf_other st
         @ (if rf_onefs st then [''--one-file-system''] else [])
         @ (if rf_preserve st \<noteq> [] then [rf_preserve st] else [])
         @ (if rf_dir st then [''dir_removal''] else [])
         @ (if rf_prompt st = ''all'' \<or> rf_prompt st = ''once'' then [''prompt='' @ rf_prompt st] else []))"

fun find_scan :: "string list \<Rightarrow> string \<Rightarrow> string list \<Rightarrow> string \<times> string list" where
  "find_scan [] tr out = (tr, out)"
| "find_scan (f # fs) tr out =
     (if f = ''--'' then (tr, out)
      else if f = ''-H'' \<or> f = ''-L'' \<or> f = ''-P'' then find_scan fs f out
      else if isValidFindOLevel f then find_scan fs tr (out @ [f])
      else if f = ''-D'' then (case fs of [] \<Rightarrow> (tr, out) | _ # fs' \<Rightarrow> find_scan fs' tr out)
      else if HasPrefix f ''-D'' \<and> length f > 2 then find_scan fs tr out
      else (tr, out))"

definition find_scope :: "string list \<Rightarrow> string list" where
  "find_scope fs =
     (let (tr, out) = find_scan fs [] [] in out @ (if tr \<noteq> [] then [''traversal='' @ tr] else []))"

definition extractDeleteScopeFlags :: "string \<Rightarrow> string list" where
  "extractDeleteScopeFlags cmd =
     (case shellFields cmd of
        None \<Rightarrow> []
      | Some fs \<Rightarrow>
          (case after_env fs of
             [] \<Rightarrow> []
           | argv0 # rest \<Rightarrow>
               sort ((if argv0 = ''rm'' then rm_scope rest else [])
                     @ (if argv0 = ''find'' then find_scope rest else []))))"

section \<open>Recognising \<open>rm\<close> and \<open>find\<close>\<close>

text \<open>The fields after \<open>argv0\<close>, when \<open>argv0\<close> is the bare command \<open>name\<close>.\<close>

definition args_of :: "string \<Rightarrow> string \<Rightarrow> string list option" where
  "args_of name cmd =
     (if shellArgv0 cmd \<noteq> name then None
      else case shellFields cmd of
             None \<Rightarrow> None
           | Some fs \<Rightarrow> (case after_env fs of [] \<Rightarrow> None | _ # rest \<Rightarrow> Some rest))"

fun find_bad_globals :: "string list \<Rightarrow> bool" where
  "find_bad_globals [] = False"
| "find_bad_globals (f # fs) =
     (if f = ''--'' then False
      else if f = ''-H'' \<or> f = ''-L'' \<or> f = ''-P'' then find_bad_globals fs
      else if HasPrefix f ''-O'' then (if \<not> isValidFindOLevel f then True else find_bad_globals fs)
      else if f = ''-D'' \<or> (HasPrefix f ''-D'' \<and> length f > 2) then True
      else if f = ''--help'' \<or> f = ''--version'' then True
      else False)"

definition findFailClosedGlobals :: "string \<Rightarrow> bool" where
  "findFailClosedGlobals cmd =
     (if shellArgv0 cmd \<noteq> ''find'' then False
      else case shellFields cmd of
             None \<Rightarrow> True
           | Some fs \<Rightarrow> (case after_env fs of [] \<Rightarrow> False | _ # rest \<Rightarrow> find_bad_globals rest))"

definition rm_known_long :: "string \<Rightarrow> bool" where
  "rm_known_long f =
     (f \<in> set [''--recursive'', ''--force'', ''--verbose'', ''--dir'', ''--one-file-system'',
               ''--preserve-root'', ''--no-preserve-root'', ''--interactive'']
      \<or> HasPrefix f ''--preserve-root=''
      \<or> (HasPrefix f ''--interactive='' \<and>
         parseInteractiveValue (TrimPrefix f ''--interactive='') \<noteq> None))"

definition rm_known_short :: "string \<Rightarrow> bool" where
  "rm_known_short f = list_all (\<lambda>c. c \<in> set ''rRfviId'') (tl f)"

fun rm_bad_option :: "string list \<Rightarrow> bool" where
  "rm_bad_option [] = False"
| "rm_bad_option (f # fs) =
     (if f = ''--'' then False
      else if f = ''--help'' \<or> f = ''--version'' then True
      else if HasPrefix f ''--'' then (if rm_known_long f then rm_bad_option fs else True)
      else if f = ''-'' then rm_bad_option fs
      else if HasPrefix f ''-'' \<and> \<not> rm_known_short f then True
      else rm_bad_option fs)"

definition rmHasExitOnlyOrUnknownOption :: "string \<Rightarrow> bool" where
  "rmHasExitOnlyOrUnknownOption cmd =
     (if shellArgv0 cmd \<noteq> ''rm'' then False
      else case shellFields cmd of
             None \<Rightarrow> True
           | Some fs \<Rightarrow> (case after_env fs of [] \<Rightarrow> False | _ # rest \<Rightarrow> rm_bad_option rest))"

fun find_skip_globals :: "string list \<Rightarrow> string list" where
  "find_skip_globals [] = []"
| "find_skip_globals (f # fs) =
     (if f = ''--'' then fs
      else if f = ''-H'' \<or> f = ''-L'' \<or> f = ''-P'' then find_skip_globals fs
      else if isValidFindOLevel f then find_skip_globals fs
      else if HasPrefix f ''-O'' then f # fs
      else if f = ''-D'' then (case fs of [] \<Rightarrow> [] | _ # fs' \<Rightarrow> find_skip_globals fs')
      else if HasPrefix f ''-D'' \<and> length f > 2 then find_skip_globals fs
      else f # fs)"

definition find_path_token :: "string \<Rightarrow> bool" where
  "find_path_token f = (\<not> (f = ''!'' \<or> f = ''('' \<or> f = '')'' \<or> HasPrefix f ''-''))"

definition findHasExpressionPredicates :: "string \<Rightarrow> bool" where
  "findHasExpressionPredicates cmd =
     (case shellFields cmd of
        None \<Rightarrow> True
      | Some fs \<Rightarrow>
          (case after_env fs of
             [] \<Rightarrow> False
           | argv0 # rest \<Rightarrow>
               if argv0 \<noteq> ''find'' then False
               else dropWhile find_path_token (find_skip_globals rest) \<noteq> [''-delete'']))"

fun rm_recursive_scan :: "string list \<Rightarrow> bool" where
  "rm_recursive_scan [] = False"
| "rm_recursive_scan (f # fs) =
     (if f = ''--'' then False
      else if f = ''--recursive'' then True
      else if f = ''-'' then rm_recursive_scan fs
      else if HasPrefix f ''-'' \<and> \<not> HasPrefix f ''--'' \<and> (Contains f ''r'' \<or> Contains f ''R'') then True
      else rm_recursive_scan fs)"

definition isRecursiveRm :: "string \<Rightarrow> bool" where
  "isRecursiveRm cmd = (case args_of ''rm'' cmd of None \<Rightarrow> False | Some fs \<Rightarrow> rm_recursive_scan fs)"

definition isPlainRm :: "string \<Rightarrow> bool" where
  "isPlainRm cmd = (shellArgv0 cmd = ''rm'' \<and> \<not> isRecursiveRm cmd)"

section \<open>Operands and paths\<close>

definition deleteOperandHasDotComponent :: "string \<Rightarrow> bool" where
  "deleteOperandHasDotComponent p = list_ex (\<lambda>g. g = ''.'' \<or> g = ''..'') (Split p (CHR ''/''))"

definition quote_chars :: string where
  "quote_chars = [CHR 0x22, CHR 0x27]"

definition normalizeDeleteTarget :: "string \<Rightarrow> string" where
  "normalizeDeleteTarget s0 =
     (let s = Trim (trimShellASCIIWhitespace s0) quote_chars in
      if s = [] \<or> s = ''-'' then s
      else if deleteOperandHasDotComponent s then s
      else let hadSlash = (length s > 1 \<and> HasSuffix s ''/'');
               cleaned = TrimPrefix (path_Clean s) ''./''
           in if hadSlash \<and> cleaned \<noteq> ''/'' \<and> \<not> HasSuffix cleaned ''/'' then cleaned @ ''/'' else cleaned)"

definition normalizeResource :: "string \<Rightarrow> string" where
  "normalizeResource s = TrimPrefix (path_Clean (Trim (TrimSpace s) quote_chars)) ''./''"

definition lexicalEditPathIdentity :: "string \<Rightarrow> string" where
  "lexicalEditPathIdentity s = s"

fun rm_targets :: "bool \<Rightarrow> string list \<Rightarrow> string list" where
  "rm_targets after [] = []"
| "rm_targets after (f # fs) =
     (if after then normalizeDeleteTarget f # rm_targets after fs
      else if f = ''--'' then rm_targets True fs
      else if f = ''-'' then normalizeDeleteTarget f # rm_targets after fs
      else if HasPrefix f ''-'' then rm_targets after fs
      else normalizeDeleteTarget f # rm_targets after fs)"

definition extractRmTargets :: "string \<Rightarrow> string list" where
  "extractRmTargets cmd = (case args_of ''rm'' cmd of None \<Rightarrow> [] | Some fs \<Rightarrow> rm_targets False fs)"

definition extractFindDeleteTargets :: "string \<Rightarrow> string list" where
  "extractFindDeleteTargets cmd =
     (case args_of ''find'' cmd of
        None \<Rightarrow> []
      | Some fs \<Rightarrow> map normalizeDeleteTarget (takeWhile find_path_token (find_skip_globals fs)))"

definition path_of_field :: "string \<Rightarrow> string list" where
  "path_of_field f =
     (if f = ''-'' then [normalizeResource f]
      else if HasPrefix f ''-'' then []
      else if ToLower f \<in> set [''rm'', ''find'', ''go'', ''git'', ''curl'', ''wget''] then []
      else if Contains f ''/'' \<or> Contains f ''.'' \<or> HasPrefix f ''build'' then [normalizeResource f]
      else [])"

definition extractPaths :: "string \<Rightarrow> string list" where
  "extractPaths cmd = concat (map path_of_field (Fields cmd))"

section \<open>Command digests\<close>

definition joinASCIIFields :: "string \<Rightarrow> string" where
  "joinASCIIFields p = (case shellFields p of None \<Rightarrow> p | Some fs \<Rightarrow> Join fs '' '')"

definition normalizeCommandPreserveCase :: "string \<Rightarrow> string" where
  "normalizeCommandPreserveCase cmd0 =
     (let cmd = trimShellASCIIWhitespace cmd0 in
      if cmd = [] then []
      else if Contains cmd [CHR 0x0A]
        then Join (map joinASCIIFields (Split cmd (CHR 0x0A))) [CHR 0x0A]
      else joinASCIIFields cmd)"

definition normalizeCommandForDigest :: "string \<Rightarrow> string" where
  "normalizeCommandForDigest cmd0 =
     (let cmd = trimShellASCIIWhitespace cmd0 in
      if cmd = [] then []
      else if hasNonShellUnicodeWhitespace cmd \<or> hasCarriageReturn cmd then cmd
      else if ContainsAny cmd [CHR 0x27, CHR 0x22, CHR 0x5C] then cmd
      else normalizeCommandPreserveCase cmd)"

definition shellPrivilegedOpDigest :: "gostd \<Rightarrow> string \<Rightarrow> string \<Rightarrow> string" where
  "shellPrivilegedOpDigest std cmd kind =
     (if kind = ''delete'' then
        digestBytes std (encodeFingerprintCanon
          [(''kind'', ''delete''), (''scope_flags'', encodeStringList (extractDeleteScopeFlags cmd))])
      else
        let fs = (case shellFields (trimShellASCIIWhitespace cmd) of None \<Rightarrow> [] | Some fs \<Rightarrow> fs);
            rest = drop 1 (after_env fs)
        in digestBytes std (encodeFingerprintCanon
             [(''kind'', kind), (''rest'', encodeStringList rest),
              (''cmd'', normalizeCommandForDigest cmd)]))"

section \<open>Facts\<close>

text \<open>Privileged classification is never given to a command with a leading assignment.\<close>

lemma shellArgv0_no_env:
  assumes "shellArgv0 cmd \<noteq> []"
  shows "\<not> shellHasResolutionEnv cmd"
  using assms by (auto simp: shellArgv0_def split: if_splits)

lemma shellArgv0_bare:
  assumes "shellArgv0 cmd \<noteq> []"
  shows "\<not> ContainsAny (shellArgv0 cmd) (''/'' @ [CHR 0x5C])"
  using assms by (auto simp: shellArgv0_def split: if_splits option.splits list.splits)

lemma isRecursiveRm_argv0: "isRecursiveRm cmd \<Longrightarrow> shellArgv0 cmd = ''rm''"
  by (auto simp: isRecursiveRm_def args_of_def split: option.splits if_splits)

end
