(* ===== verification/Fingerprint.thy ===== *)
theory Fingerprint
  imports ShellSurface
begin

text \<open>
  The rest of \<^verbatim>\<open>pkg/challenge/fingerprint.go\<close> with \<^verbatim>\<open>pkg/challenge/proposed.go\<close>: the side effect
  class of an action, its operation digest, the ownership-bound fingerprint, and how a retried
  action relates to the one a challenge was opened for. The theorems say what equal
  fingerprints mean (no two different actions share one without a digest collision) and which
  actions can be treated as a rewrite of the same deletion.
\<close>

section \<open>Side effects\<close>

datatype side_effect =
    SideEffectEmpty
  | SideEffectNone
  | SideEffectDeleteTree
  | SideEffectDeleteFile
  | SideEffectWriteFile
  | SideEffectShellGeneric
  | SideEffectRead
  | SideEffectSearch
  | SideEffectTestSuite
  | SideEffectGitMutate
  | SideEffectNetwork
  | SideEffectDeploy
  | SideEffectPayment
  | SideEffectPermission
  | SideEffectUnknown

fun side_str :: "side_effect \<Rightarrow> string" where
  "side_str SideEffectEmpty = []"
| "side_str SideEffectNone = ''none''"
| "side_str SideEffectDeleteTree = ''delete_tree''"
| "side_str SideEffectDeleteFile = ''delete_file''"
| "side_str SideEffectWriteFile = ''write_file''"
| "side_str SideEffectShellGeneric = ''shell_generic''"
| "side_str SideEffectRead = ''read''"
| "side_str SideEffectSearch = ''search''"
| "side_str SideEffectTestSuite = ''test_suite''"
| "side_str SideEffectGitMutate = ''git_mutate''"
| "side_str SideEffectNetwork = ''network''"
| "side_str SideEffectDeploy = ''deploy''"
| "side_str SideEffectPayment = ''payment''"
| "side_str SideEffectPermission = ''permission_change''"
| "side_str SideEffectUnknown = ''unknown''"

definition irreversibleSideEffect :: "string \<Rightarrow> (side_effect \<times> string list) option" where
  "irreversibleSideEffect cmd =
     (if MatchString reSecretOut cmd then Some (SideEffectUnknown, extractPaths cmd)
      else if MatchString reDeploy cmd then Some (SideEffectDeploy, extractPaths cmd)
      else if MatchString rePayment cmd then Some (SideEffectPayment, [])
      else if MatchString reChmod cmd then Some (SideEffectPermission, extractPaths cmd)
      else if MatchString reGitMut cmd then Some (SideEffectGitMutate, [])
      else None)"

text \<open>The shell-only branch of \<open>classifySideEffect\<close>: privileged delete identity.\<close>

definition classify_shell :: "string \<Rightarrow> (side_effect \<times> string list) go_result" where
  "classify_shell cmd =
     (let unsafeShell = (shellHasCompoundOrQuoting cmd \<or> shellHasResolutionEnv cmd);
          generic = Inr (SideEffectShellGeneric, extractPaths cmd)
      in
      if isRecursiveRm cmd then
        (if unsafeShell \<or> rmHasExitOnlyOrUnknownOption cmd then generic
         else let targets = extractRmTargets cmd in
              if targets \<noteq> [] then Inr (SideEffectDeleteTree, targets)
              else Inl ''fingerprint: ambiguous recursive rm with no targets'')
      else if shellArgv0 cmd = ''find'' \<and> MatchString reFindDelete cmd then
        (if unsafeShell \<or> findFailClosedGlobals cmd then generic
         else if findHasExpressionPredicates cmd then generic
         else let targets = extractFindDeleteTargets cmd in
              if targets = [] then generic else Inr (SideEffectDeleteTree, targets))
      else if isPlainRm cmd then
        (if unsafeShell \<or> rmHasExitOnlyOrUnknownOption cmd then generic
         else let targets = extractRmTargets cmd in
              if targets \<noteq> [] then Inr (SideEffectDeleteFile, targets)
              else Inl ''fingerprint: ambiguous rm with no targets'')
      else generic)"

definition classifySideEffect :: "proposed_action \<Rightarrow> (side_effect \<times> string list) go_result" where
  "classifySideEffect pa =
     (let cmd = trimShellASCIIWhitespace (pa_Command pa) in
      if pa_ToolClass pa = ToolClassRead then Inr (SideEffectRead, [])
      else if pa_ToolClass pa = ToolClassSearch then Inr (SideEffectSearch, [])
      else if pa_ToolClass pa = ToolClassEdit then
        Inr (SideEffectWriteFile,
             if pa_FilePath pa \<noteq> [] then [lexicalEditPathIdentity (pa_FilePath pa)] else [])
      else if cmd = [] then
        Inr (if pa_ToolClass pa = ToolClassShell then SideEffectShellGeneric else SideEffectUnknown, [])
      else if FullSuiteCommand pa then
        (if shellHasCompoundOrQuoting cmd \<or> shellHasResolutionEnv cmd then
           (case irreversibleSideEffect cmd of
              Some st \<Rightarrow> Inr st
            | None \<Rightarrow> Inr (SideEffectShellGeneric, extractPaths cmd))
         else Inr (SideEffectTestSuite, [''./...'']))
      else
        (case irreversibleSideEffect cmd of
           Some st \<Rightarrow> Inr st
         | None \<Rightarrow>
             if MatchString reCurl cmd then Inr (SideEffectNetwork, [])
             else if pa_ToolClass pa = ToolClassShell then classify_shell cmd
             else if pa_Arguments pa \<noteq> [] then
               Inr (SideEffectUnknown, map normalizeResource (filter (\<lambda>a. a \<noteq> []) (pa_Arguments pa)))
             else Inr (SideEffectUnknown, extractPaths cmd)))"

section \<open>Operation digests\<close>

abbreviation blank_payload :: "string \<Rightarrow> bool" where
  "blank_payload raw \<equiv> raw = [] \<or> raw = ''{}'' \<or> raw = ''null''"

definition boundedPayloadDigest :: "gostd \<Rightarrow> string \<Rightarrow> string" where
  "boundedPayloadDigest std raw =
     (if blank_payload raw then []
      else case json_decode std raw of
             None \<Rightarrow> digestBytes std raw
           | Some v \<Rightarrow> digestBytes std (json_encode std v))"

fun stringFieldsAgree :: "(string \<times> json) list \<Rightarrow> string list \<Rightarrow> string option \<Rightarrow> string option go_result" where
  "stringFieldsAgree m [] value = Inr value"
| "stringFieldsAgree m (k # ks) value =
     (case map_of m k of
        None \<Rightarrow> stringFieldsAgree m ks value
      | Some (JStr s) \<Rightarrow>
          (case value of
             None \<Rightarrow> stringFieldsAgree m ks (Some s)
           | Some v \<Rightarrow> if s \<noteq> v then Inl ''proposed_action: edit payload aliases conflict for key set''
                       else stringFieldsAgree m ks value)
      | Some _ \<Rightarrow> Inl ''proposed_action: edit payload key must be string'')"

definition allowedEditPayloadKeys :: "string list" where
  "allowedEditPayloadKeys =
    [''old_string'', ''old_str'', ''new_string'', ''new_str'', ''content'', ''contents'',
     ''file_path'', ''path'', ''filePath'', ''replace_all'']"

text \<open>Contents and flags an edit binds: old digest, new digest, \<open>replace_all\<close>.\<close>

type_synonym edit_parts = "string \<times> string \<times> string option"

definition edit_args_parts :: "gostd \<Rightarrow> string list \<Rightarrow> edit_parts go_result" where
  "edit_args_parts std args =
     (case args of
        [] \<Rightarrow> Inr ([], [], None)
      | [n] \<Rightarrow> Inr ([], digestBytes std n, None)
      | [old, n] \<Rightarrow> Inr (digestBytes std old, digestBytes std n, None)
      | _ \<Rightarrow> Inl ''proposed_action: edit arguments length unsupported (want 1 or 2)'')"

definition merge_digest :: "gostd \<Rightarrow> string \<Rightarrow> string option \<Rightarrow> string \<Rightarrow> string go_result" where
  "merge_digest std cur present err =
     (case present of
        None \<Rightarrow> Inr cur
      | Some s \<Rightarrow> let d = digestBytes std s in if cur \<noteq> [] \<and> cur \<noteq> d then Inl err else Inr d)"

definition payload_object :: "gostd \<Rightarrow> string \<Rightarrow> (string \<times> json) list go_result" where
  "payload_object std raw =
     (case json_decode std raw of
        Some (JObj m) \<Rightarrow> Inr m
      | Some JNull \<Rightarrow> Inr []
      | _ \<Rightarrow> Inl ''proposed_action: edit redacted_payload is not valid JSON object'')"

definition edit_payload_parts ::
  "gostd \<Rightarrow> string \<Rightarrow> (string \<times> json) list \<Rightarrow> edit_parts \<Rightarrow> edit_parts go_result" where
  "edit_payload_parts std filePath m parts =
     (let (oldDig, newDig, _) = parts in
      if \<not> list_all (\<lambda>(k, _). k \<in> set allowedEditPayloadKeys) m
        then Inl ''proposed_action: edit payload key unsupported''
      else case stringFieldsAgree m [''old_string'', ''old_str''] None of
        Inl e \<Rightarrow> Inl e
      | Inr oldv \<Rightarrow>
        (case merge_digest std oldDig oldv
                ''proposed_action: edit old content conflicts between args and payload'' of
           Inl e \<Rightarrow> Inl e
         | Inr oldD \<Rightarrow>
           (case stringFieldsAgree m [''new_string'', ''new_str'', ''content'', ''contents''] None of
              Inl e \<Rightarrow> Inl e
            | Inr newv \<Rightarrow>
              (case merge_digest std newDig newv
                      ''proposed_action: edit new content conflicts between args and payload'' of
                 Inl e \<Rightarrow> Inl e
               | Inr newD \<Rightarrow>
                 (case (case map_of m ''replace_all'' of
                          None \<Rightarrow> Inr None
                        | Some (JBool b) \<Rightarrow> Inr (Some (if b then ''true'' else ''false''))
                        | Some _ \<Rightarrow> Inl ''proposed_action: edit replace_all must be JSON boolean'') of
                    Inl e \<Rightarrow> Inl e
                  | Inr ra \<Rightarrow>
                    (case stringFieldsAgree m [''file_path'', ''path'', ''filePath''] None of
                       Inl e \<Rightarrow> Inl e
                     | Inr None \<Rightarrow> Inr (oldD, newD, ra)
                     | Inr (Some s) \<Rightarrow>
                         if lexicalEditPathIdentity s \<noteq> lexicalEditPathIdentity filePath
                         then Inl ''proposed_action: edit payload path conflicts with FilePath''
                         else Inr (oldD, newD, ra)))))))"

definition edit_encode :: "gostd \<Rightarrow> proposed_action \<Rightarrow> edit_parts \<Rightarrow> string go_result" where
  "edit_encode std pa parts =
     (let (oldDig, newDig, ra) = parts;
          base = [(''path'', lexicalEditPathIdentity (pa_FilePath pa))]
                 @ (case ra of None \<Rightarrow> [] | Some b \<Rightarrow> [(''replace_all'', b)])
                 @ (if oldDig \<noteq> [] then [(''old'', oldDig)] else [])
                 @ (if newDig \<noteq> [] then [(''new'', newDig)] else [])
      in if oldDig = [] \<and> newDig = [] then
           (if trimShellASCIIWhitespace (pa_Command pa) \<noteq> []
            then Inr (digestBytes std (encodeFingerprintCanon
                        (base @ [(''cmd'', normalizeCommandForDigest (pa_Command pa))])))
            else Inl ''proposed_action: edit operation missing content (args/payload/command)'')
         else Inr (digestBytes std (encodeFingerprintCanon base)))"

definition editOperationDigest :: "gostd \<Rightarrow> proposed_action \<Rightarrow> string go_result" where
  "editOperationDigest std pa =
     (case edit_args_parts std (pa_Arguments pa) of
        Inl e \<Rightarrow> Inl e
      | Inr parts \<Rightarrow>
          if blank_payload (pa_RedactedPayload pa) then edit_encode std pa parts
          else (case payload_object std (pa_RedactedPayload pa) of
                  Inl e \<Rightarrow> Inl e
                | Inr m \<Rightarrow>
                    (case edit_payload_parts std (pa_FilePath pa) m parts of
                       Inl e \<Rightarrow> Inl e
                     | Inr parts' \<Rightarrow> edit_encode std pa parts')))"

definition generic_op_digest :: "gostd \<Rightarrow> proposed_action \<Rightarrow> string" where
  "generic_op_digest std pa =
     (let cmd = normalizeCommandForDigest (pa_Command pa) in
      if cmd = [] \<and> pa_Arguments pa = [] \<and> pa_RedactedPayload pa = []
      then digestBytes std (encodeFingerprintCanon
             [(''tool'', pa_ToolName pa), (''class'', pa_ToolClass pa),
              (''args'', encodeStringList (pa_Arguments pa))])
      else digestBytes std (encodeFingerprintCanon
             [(''cmd'', cmd), (''args'', encodeStringList (pa_Arguments pa)),
              (''class'', pa_ToolClass pa),
              (''payload'', boundedPayloadDigest std (pa_RedactedPayload pa))]))"

definition operationDigest :: "gostd \<Rightarrow> proposed_action \<Rightarrow> side_effect \<Rightarrow> string go_result" where
  "operationDigest std pa side =
     (case side of
        SideEffectWriteFile \<Rightarrow> editOperationDigest std pa
      | SideEffectDeleteTree \<Rightarrow> Inr (shellPrivilegedOpDigest std (pa_Command pa) ''delete'')
      | SideEffectDeleteFile \<Rightarrow> Inr (shellPrivilegedOpDigest std (pa_Command pa) ''delete'')
      | SideEffectTestSuite \<Rightarrow> Inr (shellPrivilegedOpDigest std (pa_Command pa) ''test_suite'')
      | SideEffectRead \<Rightarrow> Inr (digestBytes std (encodeFingerprintCanon
            [(''tool'', pa_ToolName pa), (''path'', pa_FilePath pa),
             (''args'', encodeStringList (pa_Arguments pa)),
             (''payload'', boundedPayloadDigest std (pa_RedactedPayload pa))]))
      | SideEffectSearch \<Rightarrow> Inr (digestBytes std (encodeFingerprintCanon
            [(''tool'', pa_ToolName pa), (''path'', pa_FilePath pa),
             (''args'', encodeStringList (pa_Arguments pa)),
             (''payload'', boundedPayloadDigest std (pa_RedactedPayload pa))]))
      | _ \<Rightarrow> Inr (generic_op_digest std pa))"

section \<open>Fingerprints and relationships\<close>

record fingerprint_input =
  fi_Proposed :: proposed_action
  fi_SessionID :: string
  fi_Branch :: string
  fi_WorkspaceRevision :: string
  fi_ContractRevision :: int

record fingerprint_result =
  fr_Fingerprint :: string
  fr_SideEffectClass :: side_effect
  fr_TargetResources :: "string list"
  fr_OperationDigest :: string
  fr_ToolClass :: string
  fr_ToolName :: string
  fr_CanonicalForm :: string

definition target_identity :: "side_effect \<Rightarrow> string \<Rightarrow> string" where
  "target_identity side t =
     (if side = SideEffectWriteFile then lexicalEditPathIdentity t else normalizeResource t)"

definition fingerprint_fields ::
  "proposed_action \<Rightarrow> side_effect \<Rightarrow> string list \<Rightarrow> string \<Rightarrow> string \<Rightarrow> string \<Rightarrow> string \<Rightarrow> int
   \<Rightarrow> (string \<times> string) list" where
  "fingerprint_fields pa side targets opDigest session branch ws cr =
     [(''tool_class'', pa_ToolClass pa), (''tool_name'', pa_ToolName pa), (''side'', side_str side),
      (''targets'', encodeStringList targets), (''op'', opDigest), (''session'', session),
      (''branch'', branch), (''ws'', ws), (''contract'', itoa cr)]"

definition ComputeFingerprint :: "gostd \<Rightarrow> fingerprint_input \<Rightarrow> fingerprint_result go_result" where
  "ComputeFingerprint std inp =
     (let pa = fi_Proposed inp;
          session = (if fi_SessionID inp = [] then pa_SessionID pa else fi_SessionID inp);
          ws = (if fi_WorkspaceRevision inp = [] then pa_WorkspaceRevision pa else fi_WorkspaceRevision inp);
          cr = (if fi_ContractRevision inp = 0 then pa_ContractRevision pa else fi_ContractRevision inp)
      in case classifySideEffect pa of
           Inl e \<Rightarrow> Inl e
         | Inr (side, targets0) \<Rightarrow>
             (let targets = unique_sorted (targets0
                    @ map (target_identity side) (pa_TargetScope pa)
                    @ (if pa_FilePath pa \<noteq> [] then [target_identity side (pa_FilePath pa)] else []))
              in case operationDigest std pa side of
                   Inl e \<Rightarrow> Inl e
                 | Inr opDigest \<Rightarrow>
                     (let canon = encodeFingerprintCanon
                            (fingerprint_fields pa side targets opDigest session (fi_Branch inp) ws cr)
                      in Inr \<lparr>fr_Fingerprint = ''af-'' @ take 32 (sha256_hex std canon),
                              fr_SideEffectClass = side, fr_TargetResources = targets,
                              fr_OperationDigest = opDigest, fr_ToolClass = pa_ToolClass pa,
                              fr_ToolName = pa_ToolName pa, fr_CanonicalForm = canon\<rparr>)))"

definition rewriteEligible :: "side_effect \<Rightarrow> bool" where
  "rewriteEligible side = (side = SideEffectDeleteTree \<or> side = SideEffectDeleteFile)"

definition sameStringSet :: "string list \<Rightarrow> string list \<Rightarrow> bool" where
  "sameStringSet a b = (a = b)"

definition strictSubset :: "string list \<Rightarrow> string list \<Rightarrow> bool" where
  "strictSubset sub super =
     (if sub = [] \<or> length sub \<ge> length super then False
      else list_all (\<lambda>s. s \<in> set super) sub)"

datatype relationship = RelSame | RelReducedScope | RelDifferent | RelBypass

definition ClassifyRelationship :: "fingerprint_result \<Rightarrow> fingerprint_result \<Rightarrow> relationship" where
  "ClassifyRelationship original candidate =
     (if fr_Fingerprint original = fr_Fingerprint candidate then RelSame
      else if rewriteEligible (fr_SideEffectClass original)
           \<and> fr_SideEffectClass original = fr_SideEffectClass candidate
           \<and> length (fr_TargetResources original) > 0
           \<and> sameStringSet (fr_TargetResources original) (fr_TargetResources candidate)
           \<and> fr_OperationDigest original \<noteq> []
           \<and> fr_OperationDigest original = fr_OperationDigest candidate
        then RelBypass
      else if fr_SideEffectClass original = SideEffectWriteFile
           \<and> fr_SideEffectClass candidate = SideEffectWriteFile
           \<and> sameStringSet (fr_TargetResources original) (fr_TargetResources candidate)
           \<and> fr_OperationDigest original \<noteq> fr_OperationDigest candidate
        then RelDifferent
      else if fr_SideEffectClass original = fr_SideEffectClass candidate
           \<and> length (fr_TargetResources candidate) > 0
           \<and> strictSubset (fr_TargetResources candidate) (fr_TargetResources original)
        then RelReducedScope
      else RelDifferent)"

definition LooksLikeCrossWorkspace :: "proposed_action \<Rightarrow> bool" where
  "LooksLikeCrossWorkspace pa =
     (MatchString reCrossWS (pa_Command pa) \<or> MatchString reCrossWS (pa_FilePath pa)
      \<or> list_ex (MatchString reCrossWS) (pa_TargetScope pa))"

definition LooksLikeSecretExfil :: "proposed_action \<Rightarrow> bool" where
  "LooksLikeSecretExfil pa = MatchString reSecretOut (pa_Command pa)"

definition ValidateProposedForChallenge :: "gostd \<Rightarrow> proposed_action \<Rightarrow> go_error option" where
  "ValidateProposedForChallenge std pa =
     (if TrimSpace (pa_SchemaVersion pa) = [] then Some ''proposed_action: schema_version required''
      else if pa_SchemaVersion pa \<noteq> ProposedActionSchemaVersion
        then Some ''proposed_action: unsupported schema_version''
      else if pa_Truncated pa
        then Some ''proposed_action: truncated projections cannot open/consume challenges''
      else let ps = TrimSpace (pa_ParseStatus pa) in
        if ps = [] then Some ''proposed_action: parse_status required (must be ok)''
        else if ps \<noteq> ''ok'' then Some ''proposed_action: parse_status cannot open/consume challenges''
        else if TrimSpace (pa_SessionID pa) = [] then Some ''proposed_action: session_id required''
        else if TrimSpace (pa_ToolName pa) = [] then Some ''proposed_action: tool_name required''
        else if TrimSpace (pa_ToolClass pa) = [] then Some ''proposed_action: tool_class required''
        else if TrimSpace (pa_ActionID pa) = [] then Some ''proposed_action: action_id required''
        else if RuneCount (pa_ActionID pa) > MaxProposedActionIDRunes
          then Some ''proposed_action: action_id exceeds max runes''
        else if RuneCount (pa_Command pa) > MaxProposedCommandRunes
          then Some ''proposed_action: command exceeds max runes''
        else if RuneCount (pa_FilePath pa) > MaxProposedFilePathRunes
          then Some ''proposed_action: file_path exceeds max runes''
        else if length (pa_Arguments pa) > MaxProposedArgs
          then Some ''proposed_action: too many arguments''
        else if pa_ToolClass pa = ToolClassEdit
          then (case editOperationDigest std pa of Inl e \<Rightarrow> Some e | Inr _ \<Rightarrow> None)
        else None)"

section \<open>What a fingerprint binds\<close>

lemma side_str_inj: "side_str a = side_str b \<Longrightarrow> a = b"
  by (cases a; cases b) simp_all

lemma itoa_inj: "itoa a = itoa b \<Longrightarrow> a = b"
proof -
  have neg: "dec n \<noteq> CHR ''-'' # xs" for n xs
    using dec_digits [of n] by (cases "dec n") auto
  assume "itoa a = itoa b"
  then show "a = b"
    using neg neg [THEN not_sym] by (auto simp: itoa_def split: if_splits dest!: dec_inj)
qed

lemma fingerprint_fields_sorted:
  "sort_key fst (fingerprint_fields pa side targets opd session branch ws cr) =
     [(''branch'', branch), (''contract'', itoa cr), (''op'', opd), (''session'', session),
      (''side'', side_str side), (''targets'', encodeStringList targets),
      (''tool_class'', pa_ToolClass pa), (''tool_name'', pa_ToolName pa), (''ws'', ws)]"
  by (simp add: fingerprint_fields_def)

definition owner_session :: "fingerprint_input \<Rightarrow> string" where
  "owner_session inp = (if fi_SessionID inp = [] then pa_SessionID (fi_Proposed inp) else fi_SessionID inp)"

definition owner_ws :: "fingerprint_input \<Rightarrow> string" where
  "owner_ws inp =
     (if fi_WorkspaceRevision inp = [] then pa_WorkspaceRevision (fi_Proposed inp) else fi_WorkspaceRevision inp)"

definition owner_contract :: "fingerprint_input \<Rightarrow> int" where
  "owner_contract inp =
     (if fi_ContractRevision inp = 0 then pa_ContractRevision (fi_Proposed inp) else fi_ContractRevision inp)"

lemma ComputeFingerprint_canon:
  assumes "ComputeFingerprint std inp = Inr r"
  shows "fr_CanonicalForm r = encodeFingerprintCanon (fingerprint_fields (fi_Proposed inp)
           (fr_SideEffectClass r) (fr_TargetResources r) (fr_OperationDigest r)
           (owner_session inp) (fi_Branch inp) (owner_ws inp) (owner_contract inp))"
    and "fr_Fingerprint r = ''af-'' @ take 32 (sha256_hex std (fr_CanonicalForm r))"
    and "fr_ToolClass r = pa_ToolClass (fi_Proposed inp)"
    and "fr_ToolName r = pa_ToolName (fi_Proposed inp)"
  using assms
  by (auto simp: ComputeFingerprint_def Let_def owner_session_def owner_ws_def owner_contract_def
           split: sum.splits prod.splits)

lemma ComputeFingerprint_targets:
  assumes "ComputeFingerprint std inp = Inr r"
  shows "sorted (fr_TargetResources r)" and "distinct (fr_TargetResources r)"
    and "[] \<notin> set (fr_TargetResources r)"
  using assms
  by (auto simp: ComputeFingerprint_def Let_def set_unique_sorted split: sum.splits prod.splits)

lemma ComputeFingerprint_parts:
  assumes "ComputeFingerprint std inp = Inr r"
  shows "\<exists>targets0. classifySideEffect (fi_Proposed inp) = Inr (fr_SideEffectClass r, targets0)"
    and "operationDigest std (fi_Proposed inp) (fr_SideEffectClass r) = Inr (fr_OperationDigest r)"
  using assms by (auto simp: ComputeFingerprint_def Let_def split: sum.splits prod.splits)

text \<open>
  C13. Fingerprint identity. If two actions get the same fingerprint and their canonical forms
  do not collide in the (truncated) digest, then they agree on everything the fingerprint is
  meant to bind: tool class and name, side effect class, target set, operation digest, and the
  owning session, branch, workspace revision and contract revision.
\<close>

theorem fingerprint_binds_action_and_owner:
  assumes a: "ComputeFingerprint std i1 = Inr r1" and b: "ComputeFingerprint std i2 = Inr r2"
    and eq: "fr_Fingerprint r1 = fr_Fingerprint r2"
    and nocoll: "take 32 (sha256_hex std (fr_CanonicalForm r1)) = take 32 (sha256_hex std (fr_CanonicalForm r2))
                 \<Longrightarrow> fr_CanonicalForm r1 = fr_CanonicalForm r2"
  shows "fr_ToolClass r1 = fr_ToolClass r2 \<and> fr_ToolName r1 = fr_ToolName r2
    \<and> fr_SideEffectClass r1 = fr_SideEffectClass r2
    \<and> fr_TargetResources r1 = fr_TargetResources r2
    \<and> fr_OperationDigest r1 = fr_OperationDigest r2
    \<and> owner_session i1 = owner_session i2 \<and> fi_Branch i1 = fi_Branch i2
    \<and> owner_ws i1 = owner_ws i2 \<and> owner_contract i1 = owner_contract i2"
proof -
  note ca = ComputeFingerprint_canon [OF a] and cb = ComputeFingerprint_canon [OF b]
  have "fr_CanonicalForm r1 = fr_CanonicalForm r2"
    using eq nocoll unfolding ca(2) cb(2) by simp
  then have "sort_key fst (fingerprint_fields (fi_Proposed i1) (fr_SideEffectClass r1)
        (fr_TargetResources r1) (fr_OperationDigest r1) (owner_session i1) (fi_Branch i1)
        (owner_ws i1) (owner_contract i1))
    = sort_key fst (fingerprint_fields (fi_Proposed i2) (fr_SideEffectClass r2)
        (fr_TargetResources r2) (fr_OperationDigest r2) (owner_session i2) (fi_Branch i2)
        (owner_ws i2) (owner_contract i2))"
    unfolding ca(1) cb(1) encodeFingerprintCanon_def by (rule encode_fields_inj)
  then show ?thesis
    unfolding fingerprint_fields_sorted ca(3,4) cb(3,4)
    by (auto dest: itoa_inj side_str_inj encodeStringList_inj)
qed

section \<open>Privileged deletions\<close>

lemma classify_shell_delete:
  assumes "classify_shell cmd = Inr (side, targets)" and "rewriteEligible side"
  shows "\<not> shellHasCompoundOrQuoting cmd" and "\<not> shellHasResolutionEnv cmd"
    and "shellArgv0 cmd \<in> {''rm'', ''find''}" and "targets \<noteq> []"
    and "shellArgv0 cmd = ''rm'' \<Longrightarrow> \<not> rmHasExitOnlyOrUnknownOption cmd"
    and "shellArgv0 cmd = ''find'' \<Longrightarrow> \<not> findHasExpressionPredicates cmd \<and> \<not> findFailClosedGlobals cmd"
    and "targets = (if shellArgv0 cmd = ''rm'' then extractRmTargets cmd else extractFindDeleteTargets cmd)"
  using assms isRecursiveRm_argv0 [of cmd]
  by (auto simp: classify_shell_def Let_def rewriteEligible_def isPlainRm_def split: if_splits)

lemma irreversible_not_delete:
  "irreversibleSideEffect cmd = Some (side, targets) \<Longrightarrow> \<not> rewriteEligible side"
  by (auto simp: irreversibleSideEffect_def rewriteEligible_def split: if_splits)

lemma classify_delete_shell:
  assumes cls: "classifySideEffect pa = Inr (side, targets)" and del: "rewriteEligible side"
  shows "pa_ToolClass pa = ToolClassShell"
    and "irreversibleSideEffect (trimShellASCIIWhitespace (pa_Command pa)) = None"
    and "classify_shell (trimShellASCIIWhitespace (pa_Command pa)) = Inr (side, targets)"
  using cls del irreversible_not_delete
  by (auto simp: classifySideEffect_def Let_def rewriteEligible_def split: if_splits option.splits)

text \<open>
  C14. Only a plain shell command gets privileged delete identity: when an action is classified
  as a file or tree deletion, its tool is a shell tool, the command has no compound operator,
  quoting, escape or environment prefix, its command word is exactly \<open>rm\<close> or \<open>find\<close>, no unknown
  option or find predicate is present, no high-impact pattern matches, and at least one target
  was extracted.
\<close>

theorem delete_identity_requires_plain_shell:
  assumes cls: "classifySideEffect pa = Inr (side, targets)" and del: "rewriteEligible side"
  defines "cmd \<equiv> trimShellASCIIWhitespace (pa_Command pa)"
  shows "pa_ToolClass pa = ToolClassShell \<and> \<not> shellHasCompoundOrQuoting cmd
    \<and> \<not> shellHasResolutionEnv cmd \<and> shellArgv0 cmd \<in> {''rm'', ''find''}
    \<and> (shellArgv0 cmd = ''rm'' \<longrightarrow> \<not> rmHasExitOnlyOrUnknownOption cmd)
    \<and> (shellArgv0 cmd = ''find'' \<longrightarrow> \<not> findHasExpressionPredicates cmd)
    \<and> irreversibleSideEffect cmd = None \<and> targets \<noteq> []"
  using classify_delete_shell [OF cls del] classify_shell_delete [OF _ del]
  unfolding cmd_def by blast

definition delete_canon :: "string \<Rightarrow> string" where
  "delete_canon c = encodeFingerprintCanon
     [(''kind'', ''delete''), (''scope_flags'', encodeStringList (extractDeleteScopeFlags c))]"

lemma delete_digest_canon: "shellPrivilegedOpDigest std c ''delete'' = digestBytes std (delete_canon c)"
  by (simp add: shellPrivilegedOpDigest_def delete_canon_def)

lemma delete_canon_scope: "delete_canon c1 = delete_canon c2 \<Longrightarrow> extractDeleteScopeFlags c1 = extractDeleteScopeFlags c2"
  by (auto simp: delete_canon_def encodeFingerprintCanon_def dest!: encode_fields_inj encodeStringList_inj)

lemma bypass_characterised:
  "ClassifyRelationship o1 c1 = RelBypass \<longleftrightarrow>
     fr_Fingerprint o1 \<noteq> fr_Fingerprint c1 \<and> rewriteEligible (fr_SideEffectClass o1)
     \<and> fr_SideEffectClass o1 = fr_SideEffectClass c1 \<and> fr_TargetResources o1 \<noteq> []
     \<and> fr_TargetResources o1 = fr_TargetResources c1 \<and> fr_OperationDigest o1 \<noteq> []
     \<and> fr_OperationDigest o1 = fr_OperationDigest c1"
  by (auto simp: ClassifyRelationship_def sameStringSet_def)

lemma reduced_scope_strict:
  assumes "ClassifyRelationship o1 c1 = RelReducedScope"
    and "distinct (fr_TargetResources c1)" and "distinct (fr_TargetResources o1)"
  shows "set (fr_TargetResources c1) \<subset> set (fr_TargetResources o1)"
proof -
  from assms(1) have "strictSubset (fr_TargetResources c1) (fr_TargetResources o1)"
    by (auto simp: ClassifyRelationship_def split: if_splits)
  then have "set (fr_TargetResources c1) \<subseteq> set (fr_TargetResources o1)"
    and "length (fr_TargetResources c1) < length (fr_TargetResources o1)"
    by (auto simp: strictSubset_def list_all_iff split: if_splits)
  moreover from this assms(2,3) have "set (fr_TargetResources c1) \<noteq> set (fr_TargetResources o1)"
    by (metis distinct_card less_irrefl)
  ultimately show ?thesis by blast
qed

lemma delete_op_digest:
  assumes "ComputeFingerprint std i = Inr r" and "rewriteEligible (fr_SideEffectClass r)"
  shows "fr_OperationDigest r = digestBytes std (delete_canon (pa_Command (fi_Proposed i)))"
  using ComputeFingerprint_parts(2) [OF assms(1)] assms(2)
  by (auto simp: operationDigest_def rewriteEligible_def delete_digest_canon)

text \<open>A command that is a plain deletion: one unquoted \<open>rm\<close> or \<open>find\<close> without an environment or options that are not known.\<close>

definition plain_deletion :: "proposed_action \<Rightarrow> bool" where
  "plain_deletion pa \<longleftrightarrow>
     (let cmd = trimShellASCIIWhitespace (pa_Command pa) in
      pa_ToolClass pa = ToolClassShell \<and> \<not> shellHasCompoundOrQuoting cmd \<and> \<not> shellHasResolutionEnv cmd
    \<and> shellArgv0 cmd \<in> {''rm'', ''find''}
    \<and> (shellArgv0 cmd = ''rm'' \<longrightarrow> \<not> rmHasExitOnlyOrUnknownOption cmd)
    \<and> (shellArgv0 cmd = ''find'' \<longrightarrow> \<not> findHasExpressionPredicates cmd)
    \<and> irreversibleSideEffect cmd = None)"

lemma delete_plain: "classifySideEffect pa = Inr (side, targets) \<Longrightarrow> rewriteEligible side \<Longrightarrow> plain_deletion pa"
  using classify_delete_shell [of pa side targets] classify_shell_delete [of "trimShellASCIIWhitespace (pa_Command pa)" side targets]
  unfolding plain_deletion_def Let_def by blast

text \<open>
  C15. A retried action passes as a rewrite of the challenged one (\<open>RelBypass\<close>) only if both are
  deletions of the same class, of a file or of a tree, by a plain shell command, with the same
  non-empty target set and, unless the digests of their canonical forms collide, the same
  scope-altering flags.
\<close>

theorem bypass_is_same_deletion:
  assumes o1: "ComputeFingerprint std io = Inr ro" and c1: "ComputeFingerprint std ic = Inr rc"
    and rel: "ClassifyRelationship ro rc = RelBypass"
    and nocoll: "digestBytes std (delete_canon (pa_Command (fi_Proposed io)))
                 = digestBytes std (delete_canon (pa_Command (fi_Proposed ic)))
                 \<Longrightarrow> delete_canon (pa_Command (fi_Proposed io)) = delete_canon (pa_Command (fi_Proposed ic))"
  shows "plain_deletion (fi_Proposed io) \<and> plain_deletion (fi_Proposed ic)
    \<and> fr_SideEffectClass ro \<in> {SideEffectDeleteFile, SideEffectDeleteTree} \<and> fr_SideEffectClass ro = fr_SideEffectClass rc
    \<and> fr_TargetResources ro = fr_TargetResources rc \<and> fr_TargetResources ro \<noteq> []
    \<and> extractDeleteScopeFlags (pa_Command (fi_Proposed io)) = extractDeleteScopeFlags (pa_Command (fi_Proposed ic))"
proof -
  from rel have b: "rewriteEligible (fr_SideEffectClass ro)" "rewriteEligible (fr_SideEffectClass rc)"
    "fr_OperationDigest ro = fr_OperationDigest rc"
    by (auto simp: bypass_characterised)
  have "delete_canon (pa_Command (fi_Proposed io)) = delete_canon (pa_Command (fi_Proposed ic))"
    using b(3) unfolding delete_op_digest [OF o1 b(1)] delete_op_digest [OF c1 b(2)] by (rule nocoll)
  then have "extractDeleteScopeFlags (pa_Command (fi_Proposed io)) = extractDeleteScopeFlags (pa_Command (fi_Proposed ic))"
    by (rule delete_canon_scope)
  moreover have "plain_deletion (fi_Proposed io)" "plain_deletion (fi_Proposed ic)"
    using ComputeFingerprint_parts(1) [OF o1] ComputeFingerprint_parts(1) [OF c1] b(1,2) delete_plain by blast+
  moreover have "fr_SideEffectClass ro \<in> {SideEffectDeleteFile, SideEffectDeleteTree}" using b(1) by (auto simp: rewriteEligible_def)
  ultimately show ?thesis using rel unfolding bypass_characterised by blast
qed

end
