(* ===== verification/ChallengePolicy.thy ===== *)
theory ChallengePolicy
  imports Fingerprint
begin

text \<open>
  The pure rules of \<^verbatim>\<open>pkg/challenge\<close>: which blocks may be appealed (\<^verbatim>\<open>appealability.go\<close>), the closed
  list of claims (\<^verbatim>\<open>claims.go\<close>), the validation and digest of a justification
  (\<^verbatim>\<open>justification.go\<close>). The theorems: validation of required claims succeeds exactly on
  duplicate-free lists of known names and canonicalises them; an accepted justification is
  bounded, refers to known evidence only and carries no control text; block classes that are
  unknown, irreversible or hard denials are never self-appealable.
\<close>

section \<open>Appealability\<close>

abbreviation PolicyClassProductivity :: string where "PolicyClassProductivity \<equiv> ''PRODUCTIVITY''"
abbreviation PolicyClassSecurity :: string where "PolicyClassSecurity \<equiv> ''SECURITY''"

abbreviation BlockClassScopeDrift :: string where "BlockClassScopeDrift \<equiv> ''SCOPE_DRIFT''"
abbreviation BlockClassOverSOP :: string where "BlockClassOverSOP \<equiv> ''OVER_SOP''"
abbreviation BlockClassExpensiveHardening :: string where "BlockClassExpensiveHardening \<equiv> ''EXPENSIVE_HARDENING''"
abbreviation BlockClassRepeatedExploration :: string where "BlockClassRepeatedExploration \<equiv> ''REPEATED_EXPLORATION''"
abbreviation BlockClassEvidenceGap :: string where "BlockClassEvidenceGap \<equiv> ''EVIDENCE_GAP''"
abbreviation BlockClassSecretExfiltration :: string where "BlockClassSecretExfiltration \<equiv> ''SECRET_EXFILTRATION''"
abbreviation BlockClassExplicitDeny :: string where "BlockClassExplicitDeny \<equiv> ''EXPLICIT_DENY''"
abbreviation BlockClassCrossWorkspace :: string where "BlockClassCrossWorkspace \<equiv> ''CROSS_WORKSPACE''"
abbreviation BlockClassProductionDeploy :: string where "BlockClassProductionDeploy \<equiv> ''PRODUCTION_DEPLOY''"
abbreviation BlockClassPayment :: string where "BlockClassPayment \<equiv> ''PAYMENT''"
abbreviation BlockClassRemoteDeletion :: string where "BlockClassRemoteDeletion \<equiv> ''REMOTE_DELETION''"
abbreviation BlockClassPermissionChange :: string where "BlockClassPermissionChange \<equiv> ''PERMISSION_CHANGE''"
abbreviation BlockClassUnknownSecurity :: string where "BlockClassUnknownSecurity \<equiv> ''UNKNOWN_SECURITY''"
abbreviation BlockClassProductivityGeneric :: string where "BlockClassProductivityGeneric \<equiv> ''PRODUCTIVITY_BLOCK''"

datatype appeal = AppealEmpty | AppealAppealable | AppealNonAppealable | AppealHumanReview

datatype intervention =
  InterventionEmpty | InterventionNone | InterventionAppealableChallenge | InterventionHumanReview

definition NormalizePolicyClass :: "string \<Rightarrow> string" where
  "NormalizePolicyClass s0 =
     (let s = ToUpper (TrimSpace s0) in
      if s = [] \<or> s = PolicyClassProductivity then PolicyClassProductivity
      else if s = PolicyClassSecurity then PolicyClassSecurity
      else PolicyClassSecurity)"

definition NormalizeBlockClass :: "string \<Rightarrow> string" where
  "NormalizeBlockClass s = ToUpper (TrimSpace s)"

definition side_of :: "proposed_action \<Rightarrow> side_effect" where
  "side_of pa = (case classifySideEffect pa of Inl _ \<Rightarrow> SideEffectEmpty | Inr (side, _) \<Rightarrow> side)"

definition ResolveBlockClass :: "string \<Rightarrow> proposed_action \<Rightarrow> string" where
  "ResolveBlockClass blockClass pa =
     (let bc = NormalizeBlockClass blockClass in
      if bc = [] \<or> bc = BlockClassUnknownSecurity then
        (if LooksLikeSecretExfil pa then BlockClassSecretExfiltration
         else if LooksLikeCrossWorkspace pa then BlockClassCrossWorkspace
         else case side_of pa of
                SideEffectDeploy \<Rightarrow> BlockClassProductionDeploy
              | SideEffectPayment \<Rightarrow> BlockClassPayment
              | SideEffectPermission \<Rightarrow> BlockClassPermissionChange
              | SideEffectDeleteTree \<Rightarrow>
                  (if Contains (pa_Command pa) ''://'' \<or> Contains (pa_Command pa) ''s3://''
                   then BlockClassRemoteDeletion else BlockClassUnknownSecurity)
              | _ \<Rightarrow> BlockClassUnknownSecurity)
      else bc)"

definition hard_deny_classes :: "string list" where
  "hard_deny_classes = [BlockClassSecretExfiltration, BlockClassExplicitDeny, BlockClassCrossWorkspace]"

definition irreversible_classes :: "string list" where
  "irreversible_classes =
    [BlockClassProductionDeploy, BlockClassPayment, BlockClassRemoteDeletion,
     BlockClassPermissionChange, BlockClassUnknownSecurity]"

definition appealable_classes :: "string list" where
  "appealable_classes =
    [BlockClassScopeDrift, BlockClassOverSOP, BlockClassExpensiveHardening,
     BlockClassRepeatedExploration, BlockClassEvidenceGap, BlockClassProductivityGeneric]"

definition ClassifyAppealability :: "string \<Rightarrow> proposed_action \<Rightarrow> appeal \<times> intervention" where
  "ClassifyAppealability blockClass pa =
     (let bc = ResolveBlockClass blockClass pa in
      if bc \<in> set hard_deny_classes then (AppealNonAppealable, InterventionNone)
      else if bc \<in> set [BlockClassProductionDeploy, BlockClassPayment, BlockClassRemoteDeletion,
                         BlockClassPermissionChange] then (AppealHumanReview, InterventionHumanReview)
      else if bc = BlockClassUnknownSecurity then (AppealHumanReview, InterventionHumanReview)
      else if bc \<in> set appealable_classes then (AppealAppealable, InterventionAppealableChallenge)
      else (AppealHumanReview, InterventionHumanReview))"

definition IsHardDenyClass :: "string \<Rightarrow> bool" where
  "IsHardDenyClass blockClass = (ToUpper (TrimSpace blockClass) \<in> set hard_deny_classes)"

definition IsIrreversibleClass :: "string \<Rightarrow> bool" where
  "IsIrreversibleClass blockClass = (ToUpper (TrimSpace blockClass) \<in> set irreversible_classes)"

section \<open>Claims\<close>

abbreviation ClaimConcreteValue :: string where "ClaimConcreteValue \<equiv> ''concrete_value''"
abbreviation ClaimPreventedFailureOrThreat :: string where "ClaimPreventedFailureOrThreat \<equiv> ''prevented_failure_or_threat''"
abbreviation ClaimEstimatedCost :: string where "ClaimEstimatedCost \<equiv> ''estimated_cost''"
abbreviation ClaimAlternativesConsidered :: string where "ClaimAlternativesConsidered \<equiv> ''alternatives_considered''"
abbreviation ClaimScopeLimit :: string where "ClaimScopeLimit \<equiv> ''scope_limit''"
abbreviation ClaimVerificationPlan :: string where "ClaimVerificationPlan \<equiv> ''verification_plan''"
abbreviation ClaimRollbackPlan :: string where "ClaimRollbackPlan \<equiv> ''rollback_plan''"
abbreviation ClaimSupportingEvidenceIDs :: string where "ClaimSupportingEvidenceIDs \<equiv> ''supporting_evidence_event_ids''"

definition ValidClaimNames :: "string list" where
  "ValidClaimNames =
    [ClaimConcreteValue, ClaimPreventedFailureOrThreat, ClaimEstimatedCost,
     ClaimAlternativesConsidered, ClaimScopeLimit, ClaimVerificationPlan, ClaimRollbackPlan,
     ClaimSupportingEvidenceIDs]"

definition maxClaimNameRunes :: nat where "maxClaimNameRunes = 64"
definition maxRequiredClaims :: nat where "maxRequiredClaims = 16"

definition DefaultRequiredClaims :: "string \<Rightarrow> string list" where
  "DefaultRequiredClaims blockClass =
     [ClaimConcreteValue, ClaimPreventedFailureOrThreat, ClaimEstimatedCost, ClaimScopeLimit,
      ClaimVerificationPlan, ClaimRollbackPlan]
     @ (if EqualFold blockClass BlockClassEvidenceGap then [ClaimSupportingEvidenceIDs] else [])"

fun claims_loop :: "string list \<Rightarrow> string list \<Rightarrow> string list go_result" where
  "claims_loop out [] = Inr out"
| "claims_loop out (c0 # cs) =
     (let c = TrimSpace c0 in
      if c = [] then Inl ''required_claims: empty claim name''
      else if RuneCount c > maxClaimNameRunes then Inl ''required_claims: claim name too long''
      else if c \<notin> set ValidClaimNames then Inl ''required_claims: unknown claim''
      else if c \<in> set out then Inl ''required_claims: duplicate claim''
      else claims_loop (out @ [c]) cs)"

definition ValidateRequiredClaims :: "string list \<Rightarrow> string list go_result" where
  "ValidateRequiredClaims claims =
     (if claims = [] then Inr []
      else if length claims > maxRequiredClaims then Inl ''required_claims: too many claims''
      else case claims_loop [] claims of Inl e \<Rightarrow> Inl e | Inr out \<Rightarrow> Inr (sort out))"

definition IsValidClaim :: "string \<Rightarrow> bool" where
  "IsValidClaim name = (TrimSpace name \<in> set ValidClaimNames)"

section \<open>Justifications\<close>

abbreviation SchemaJustification :: string where
  "SchemaJustification \<equiv> ''reinframe.challenge_justification.v1''"

definition MaxJustificationFieldRunes :: nat where "MaxJustificationFieldRunes = 500"
definition MaxEvidenceIDs :: nat where "MaxEvidenceIDs = 16"
definition MaxEvidenceIDRunes :: nat where "MaxEvidenceIDRunes = 128"

record justification =
  ju_SchemaVersion :: string
  ju_ChallengeID :: string
  ju_ConcreteValue :: string
  ju_PreventedFailureOrThreat :: string
  ju_EstimatedCost :: string
  ju_AlternativesConsidered :: string
  ju_ScopeLimit :: string
  ju_VerificationPlan :: string
  ju_RollbackPlan :: string
  ju_SupportingEvidenceEventIDs :: "string list"

definition injectionMarkers :: "string list" where
  "injectionMarkers =
    [''ignore previous'', ''ignore all previous'', ''system prompt'', ''override policy'',
     ''set policy'', ''ruleset='', ''provider='', ''model='', ''api_key'', ''authorization:'',
     ''BEGIN PRIVATE'', ''chain-of-thought'', ''chain of thought'', ''<policy>'', ''</policy>'',
     ''allow unconditionally'', ''force allow'', ''decision=allow'', ''stage2=allow'']"

definition checkInjection :: "string \<Rightarrow> go_error option" where
  "checkInjection v =
     (let low = ToLower v in
      if list_ex (\<lambda>m. Contains low (ToLower m)) injectionMarkers
      then Some ''justification: field contains disallowed control text'' else None)"

definition checkField :: "string \<Rightarrow> go_error option" where
  "checkField v =
     (if RuneCount v > MaxJustificationFieldRunes then Some ''justification: field exceeds max runes''
      else checkInjection v)"

definition boundField :: "string \<Rightarrow> string" where
  "boundField s0 =
     (let s = TrimSpace s0 in
      if RuneCount s \<le> MaxJustificationFieldRunes then s
      else take_runes MaxJustificationFieldRunes s)"

definition ju_fields :: "justification \<Rightarrow> string list" where
  "ju_fields j =
     [ju_ConcreteValue j, ju_PreventedFailureOrThreat j, ju_EstimatedCost j,
      ju_AlternativesConsidered j, ju_ScopeLimit j, ju_VerificationPlan j, ju_RollbackPlan j]"

fun first_error :: "('a \<Rightarrow> go_error option) \<Rightarrow> 'a list \<Rightarrow> go_error option" where
  "first_error f [] = None"
| "first_error f (x # xs) = (case f x of Some e \<Rightarrow> Some e | None \<Rightarrow> first_error f xs)"

definition claim_missing :: "justification \<Rightarrow> string \<Rightarrow> bool" where
  "claim_missing j claim =
     (if claim = ClaimConcreteValue then TrimSpace (ju_ConcreteValue j) = []
      else if claim = ClaimPreventedFailureOrThreat then TrimSpace (ju_PreventedFailureOrThreat j) = []
      else if claim = ClaimEstimatedCost then TrimSpace (ju_EstimatedCost j) = []
      else if claim = ClaimScopeLimit then TrimSpace (ju_ScopeLimit j) = []
      else if claim = ClaimVerificationPlan then TrimSpace (ju_VerificationPlan j) = []
      else if claim = ClaimRollbackPlan then TrimSpace (ju_RollbackPlan j) = []
      else if claim = ClaimSupportingEvidenceIDs then ju_SupportingEvidenceEventIDs j = []
      else TrimSpace (ju_AlternativesConsidered j) = [])"

definition check_claim :: "justification \<Rightarrow> string \<Rightarrow> go_error option" where
  "check_claim j claim0 =
     (let claim = TrimSpace claim0 in
      if \<not> IsValidClaim claim then Some ''justification: unsupported required claim''
      else if claim_missing j claim then Some ''justification: missing required claim''
      else None)"

fun evidence_loop :: "string list \<Rightarrow> string list \<Rightarrow> string list \<Rightarrow> string list go_result" where
  "evidence_loop known clean [] = Inr clean"
| "evidence_loop known clean (i0 # ids) =
     (let i = TrimSpace i0 in
      if i = [] then Inl ''justification: empty evidence id''
      else if RuneCount i > MaxEvidenceIDRunes then Inl ''justification: evidence id too long''
      else if i \<in> set clean then Inl ''justification: duplicate evidence id''
      else if i \<notin> set known then Inl ''justification: unknown evidence id''
      else case checkInjection i of
             Some e \<Rightarrow> Inl e
           | None \<Rightarrow> evidence_loop known (clean @ [i]) ids)"

definition ValidateJustification ::
  "justification \<Rightarrow> string list \<Rightarrow> string list \<Rightarrow> justification go_result" where
  "ValidateJustification j0 knownEvidence requiredClaims =
     (let j = (if TrimSpace (ju_SchemaVersion j0) = []
               then j0\<lparr>ju_SchemaVersion := SchemaJustification\<rparr> else j0) in
      if ju_SchemaVersion j \<noteq> SchemaJustification then Inl ''justification: unsupported schema_version''
      else if TrimSpace (ju_ChallengeID j) = [] then Inl ''justification: challenge_id required''
      else case first_error checkField (ju_fields j) of
        Some e \<Rightarrow> Inl e
      | None \<Rightarrow>
        (case first_error (check_claim j) requiredClaims of
           Some e \<Rightarrow> Inl e
         | None \<Rightarrow>
           if length (ju_SupportingEvidenceEventIDs j) > MaxEvidenceIDs
             then Inl ''justification: too many evidence ids''
           else case evidence_loop knownEvidence [] (ju_SupportingEvidenceEventIDs j) of
             Inl e \<Rightarrow> Inl e
           | Inr clean \<Rightarrow>
               Inr \<lparr>ju_SchemaVersion = SchemaJustification,
                    ju_ChallengeID = TrimSpace (ju_ChallengeID j),
                    ju_ConcreteValue = boundField (ju_ConcreteValue j),
                    ju_PreventedFailureOrThreat = boundField (ju_PreventedFailureOrThreat j),
                    ju_EstimatedCost = boundField (ju_EstimatedCost j),
                    ju_AlternativesConsidered = boundField (ju_AlternativesConsidered j),
                    ju_ScopeLimit = boundField (ju_ScopeLimit j),
                    ju_VerificationPlan = boundField (ju_VerificationPlan j),
                    ju_RollbackPlan = boundField (ju_RollbackPlan j),
                    ju_SupportingEvidenceEventIDs = clean\<rparr>))"

definition ju_encoding :: "justification \<Rightarrow> (string \<times> string) list" where
  "ju_encoding j =
     [(''schema'', ju_SchemaVersion j), (''challenge_id'', ju_ChallengeID j),
      (''concrete_value'', ju_ConcreteValue j),
      (''prevented_failure_or_threat'', ju_PreventedFailureOrThreat j),
      (''estimated_cost'', ju_EstimatedCost j),
      (''alternatives_considered'', ju_AlternativesConsidered j),
      (''scope_limit'', ju_ScopeLimit j), (''verification_plan'', ju_VerificationPlan j),
      (''rollback_plan'', ju_RollbackPlan j),
      (''evidence'', encodeStringList (ju_SupportingEvidenceEventIDs j))]"

definition HashJustification :: "gostd \<Rightarrow> justification \<Rightarrow> string" where
  "HashJustification std j = take 32 (sha256_hex std (encode_fields (ju_encoding j)))"

section \<open>Required claims\<close>

lemma valid_claim_shape:
  assumes "c \<in> set ValidClaimNames"
  shows "c \<noteq> []" and "RuneCount c \<le> maxClaimNameRunes"
proof -
  show "c \<noteq> []" using assms by (auto simp: ValidClaimNames_def)
  have "length c \<le> 64" using assms by (auto simp: ValidClaimNames_def)
  with RuneCount_le_length [of c] show "RuneCount c \<le> maxClaimNameRunes"
    by (simp add: maxClaimNameRunes_def)
qed

lemma claims_loop_iff:
  assumes "distinct out"
  shows "claims_loop out cs = Inr r \<longleftrightarrow>
    distinct (out @ map TrimSpace cs) \<and> set (map TrimSpace cs) \<subseteq> set ValidClaimNames
    \<and> r = out @ map TrimSpace cs"
  using assms
proof (induction cs arbitrary: out)
  case Nil
  then show ?case by auto
next
  case (Cons c cs)
  show ?case
  proof (cases "TrimSpace c \<in> set ValidClaimNames \<and> TrimSpace c \<notin> set out")
    case True
    then have "TrimSpace c \<noteq> []" "\<not> RuneCount (TrimSpace c) > maxClaimNameRunes"
      using valid_claim_shape [of "TrimSpace c"] by simp_all
    with True have "claims_loop out (c # cs) = claims_loop (out @ [TrimSpace c]) cs"
      by (simp add: Let_def)
    moreover have "distinct (out @ [TrimSpace c])" using Cons.prems True by simp
    ultimately show ?thesis using Cons.IH [of "out @ [TrimSpace c]"] True by auto
  next
    case False
    then show ?thesis by (auto simp: Let_def)
  qed
qed

text \<open>
  Required claims: validation succeeds exactly on lists of at most 16 names that are, after
  trimming, pairwise different and all on the closed allowlist; the result is that list, trimmed
  and sorted. Every other input is an error.
\<close>

theorem ValidateRequiredClaims_exact:
  "ValidateRequiredClaims claims = Inr out \<longleftrightarrow>
     length claims \<le> maxRequiredClaims \<and> distinct (map TrimSpace claims)
     \<and> set (map TrimSpace claims) \<subseteq> set ValidClaimNames \<and> out = sort (map TrimSpace claims)"
proof (cases "claims = [] \<or> length claims > maxRequiredClaims")
  case True
  then show ?thesis by (auto simp: ValidateRequiredClaims_def)
next
  case False
  have loop: "claims_loop [] claims = Inr r \<longleftrightarrow> distinct (map TrimSpace claims)
    \<and> set (map TrimSpace claims) \<subseteq> set ValidClaimNames \<and> r = map TrimSpace claims" for r
    using claims_loop_iff [of "[]" claims r] by simp
  from False have "ValidateRequiredClaims claims =
      (case claims_loop [] claims of Inl e \<Rightarrow> Inl e | Inr out \<Rightarrow> Inr (sort out))"
    by (simp add: ValidateRequiredClaims_def)
  moreover from False have "length claims \<le> maxRequiredClaims" by simp
  ultimately show ?thesis
  proof (cases "claims_loop [] claims")
    case (Inl e)
    then have "\<not> (distinct (map TrimSpace claims) \<and> set (map TrimSpace claims) \<subseteq> set ValidClaimNames)"
      using loop [of "map TrimSpace claims"] by simp
    with Inl \<open>ValidateRequiredClaims claims = _\<close> show ?thesis by auto
  next
    case (Inr r)
    with loop [of r] \<open>ValidateRequiredClaims claims = _\<close> \<open>length claims \<le> _\<close> show ?thesis by auto
  qed
qed

section \<open>Accepted justifications\<close>

lemma first_error_None: "first_error f xs = None \<longleftrightarrow> (\<forall>x \<in> set xs. f x = None)"
  by (induction xs) (auto split: option.splits)

definition evidence_ok :: "string list \<Rightarrow> string \<Rightarrow> bool" where
  "evidence_ok known i \<longleftrightarrow>
     i \<in> set known \<and> i \<noteq> [] \<and> RuneCount i \<le> MaxEvidenceIDRunes \<and> checkInjection i = None"

lemma evidence_loop_step:
  assumes "evidence_loop known clean (i # ids) = Inr out"
  shows "evidence_ok known (TrimSpace i) \<and> TrimSpace i \<notin> set clean
    \<and> evidence_loop known (clean @ [TrimSpace i]) ids = Inr out"
proof -
  have "(if t = [] then Inl a else if RuneCount t > MaxEvidenceIDRunes then Inl b
      else if t \<in> set clean then Inl c else if t \<notin> set known then Inl d
      else case checkInjection t of Some e \<Rightarrow> Inl e | None \<Rightarrow> r) = Inr out
      \<Longrightarrow> evidence_ok known t \<and> t \<notin> set clean \<and> r = Inr out" for a b c d r and t :: string
    unfolding evidence_ok_def by (split if_split_asm option.split_asm; simp)+
  from this [OF assms [unfolded evidence_loop.simps Let_def]] show ?thesis .
qed

lemma evidence_loop_sound:
  assumes "evidence_loop known clean ids = Inr out" and "distinct clean"
    and "\<forall>i \<in> set clean. evidence_ok known i"
  shows "distinct out \<and> out = clean @ map TrimSpace ids \<and> (\<forall>i \<in> set out. evidence_ok known i)"
  using assms
proof (induction ids arbitrary: clean)
  case Nil
  then show ?case by simp
next
  case (Cons i ids)
  from evidence_loop_step [OF Cons.prems(1)]
  have new: "evidence_ok known (TrimSpace i)" "TrimSpace i \<notin> set clean"
    and rest: "evidence_loop known (clean @ [TrimSpace i]) ids = Inr out" by auto
  have "distinct (clean @ [TrimSpace i])" using Cons.prems(2) new by simp
  moreover have "\<forall>k \<in> set (clean @ [TrimSpace i]). evidence_ok known k"
    using Cons.prems(3) new by simp
  ultimately show ?case using Cons.IH [OF rest] unfolding list.map append_assoc append.simps by blast
qed

lemma boundField_runes: "RuneCount (boundField s) \<le> MaxJustificationFieldRunes"
  by (simp add: boundField_def Let_def RuneCount_take_runes)

lemma boundField_clean:
  assumes "checkField s = None"
  shows "boundField s = TrimSpace s" and "checkInjection (boundField s) = None"
proof -
  from assms have "RuneCount s \<le> MaxJustificationFieldRunes" and inj: "checkInjection s = None"
    by (auto simp: checkField_def split: if_splits)
  with RuneCount_TrimSpace [of s] show eq: "boundField s = TrimSpace s"
    by (simp add: boundField_def Let_def)
  show "checkInjection (boundField s) = None"
    unfolding eq using inj Contains_TrimSpace [of s]
    by (auto simp: checkInjection_def Let_def list_ex_iff split: if_splits)
qed

lemma ju_fields_schema [simp]: "ju_fields (j\<lparr>ju_SchemaVersion := v\<rparr>) = ju_fields j"
  by (simp add: ju_fields_def)

lemma claim_missing_schema [simp]:
  "claim_missing (j\<lparr>ju_SchemaVersion := v\<rparr>) c = claim_missing j c"
  by (simp add: claim_missing_def)

lemma check_claim_schema [simp]: "check_claim (j\<lparr>ju_SchemaVersion := v\<rparr>) = check_claim j"
  by (rule ext) (simp add: check_claim_def Let_def)

lemma ValidateJustification_checks:
  assumes "ValidateJustification j known claims = Inr c"
  shows "TrimSpace (ju_ChallengeID j) \<noteq> []" and "first_error checkField (ju_fields j) = None"
    and "first_error (check_claim j) claims = None"
    and "length (ju_SupportingEvidenceEventIDs j) \<le> MaxEvidenceIDs"
  using assms
  by (auto simp: ValidateJustification_def Let_def split: if_splits option.splits sum.splits)

lemma ValidateJustification_result:
  assumes "ValidateJustification j known claims = Inr c"
  shows "ju_fields c = map boundField (ju_fields j)"
    and "ju_ChallengeID c = TrimSpace (ju_ChallengeID j)"
    and "ju_SchemaVersion c = SchemaJustification"
    and "evidence_loop known [] (ju_SupportingEvidenceEventIDs j) = Inr (ju_SupportingEvidenceEventIDs c)"
  using assms
  by (auto simp: ValidateJustification_def Let_def ju_fields_def
      split: if_splits option.splits sum.splits)

text \<open>
  C17. A justification that is accepted names a challenge, has every required claim filled in, no
  field longer than 500 runes, no field or evidence id with a control-text marker, and at most 16
  pairwise different evidence ids, each one known to the caller.
\<close>

theorem accepted_justification_is_bounded_and_clean:
  assumes "ValidateJustification j known claims = Inr c"
  shows "ju_SchemaVersion c = SchemaJustification
    \<and> ju_ChallengeID c = TrimSpace (ju_ChallengeID j) \<and> ju_ChallengeID c \<noteq> []
    \<and> (\<forall>f \<in> set (ju_fields c). RuneCount f \<le> MaxJustificationFieldRunes \<and> checkInjection f = None)
    \<and> (\<forall>k \<in> set claims. IsValidClaim (TrimSpace k) \<and> \<not> claim_missing j (TrimSpace k))
    \<and> length (ju_SupportingEvidenceEventIDs c) \<le> MaxEvidenceIDs
    \<and> distinct (ju_SupportingEvidenceEventIDs c)
    \<and> (\<forall>i \<in> set (ju_SupportingEvidenceEventIDs c). evidence_ok known i)"
proof -
  note checks = ValidateJustification_checks [OF assms]
  note result = ValidateJustification_result [OF assms]
  have f: "\<forall>f \<in> set (ju_fields c). RuneCount f \<le> MaxJustificationFieldRunes \<and> checkInjection f = None"
    using checks(2) boundField_runes boundField_clean(2) by (auto simp: result(1) first_error_None)
  have k: "\<forall>k \<in> set claims. IsValidClaim (TrimSpace k) \<and> \<not> claim_missing j (TrimSpace k)"
    using checks(3) by (auto simp: first_error_None check_claim_def Let_def split: if_splits)
  have ev: "distinct (ju_SupportingEvidenceEventIDs c)" "length (ju_SupportingEvidenceEventIDs c) \<le> MaxEvidenceIDs"
    "\<forall>i \<in> set (ju_SupportingEvidenceEventIDs c). evidence_ok known i"
    using evidence_loop_sound [OF result(4)] checks(4) by auto
  from ev checks(1) f k result(2,3) show ?thesis by simp
qed

section \<open>Appeals fail closed\<close>

lemma resolved_class_kept:
  "ResolveBlockClass bc pa = NormalizeBlockClass bc
   \<or> ResolveBlockClass bc pa \<in> set (hard_deny_classes @ irreversible_classes)"
  by (auto simp: ResolveBlockClass_def Let_def hard_deny_classes_def irreversible_classes_def
      split: side_effect.splits)

lemma resolved_class_normal:
  "NormalizeBlockClass bc \<noteq> [] \<Longrightarrow> NormalizeBlockClass bc \<noteq> BlockClassUnknownSecurity
   \<Longrightarrow> ResolveBlockClass bc pa = NormalizeBlockClass bc"
  by (simp add: ResolveBlockClass_def)

lemma appealable_classes_apart:
  assumes "b \<in> set appealable_classes"
  shows "b \<notin> set hard_deny_classes" "b \<notin> set irreversible_classes" "b \<noteq> []"
  using assms by (auto simp: appealable_classes_def hard_deny_classes_def irreversible_classes_def)

lemma appealable_resolved:
  "fst (ClassifyAppealability bc pa) = AppealAppealable
   \<longleftrightarrow> ResolveBlockClass bc pa \<in> set appealable_classes"
  using appealable_classes_apart [of "ResolveBlockClass bc pa"]
  by (auto simp: ClassifyAppealability_def Let_def irreversible_classes_def)

text \<open>
  Appeals fail closed: a block is self-appealable exactly when its normalised class is one of
  the six productivity classes. Hard denials are never appealable, and every other class
  (irreversible, unknown security, empty, misspelled) goes to human review or is denied.
\<close>

theorem appealable_iff_productivity_class:
  "fst (ClassifyAppealability bc pa) = AppealAppealable
     \<longleftrightarrow> NormalizeBlockClass bc \<in> {BlockClassScopeDrift, BlockClassOverSOP, BlockClassExpensiveHardening,
           BlockClassRepeatedExploration, BlockClassEvidenceGap, BlockClassProductivityGeneric}"
proof -
  have "ResolveBlockClass bc pa \<in> set appealable_classes
      \<longleftrightarrow> NormalizeBlockClass bc \<in> set appealable_classes"
  proof
    assume "ResolveBlockClass bc pa \<in> set appealable_classes"
    with resolved_class_kept [of bc pa] appealable_classes_apart show
      "NormalizeBlockClass bc \<in> set appealable_classes" by auto
  next
    assume n: "NormalizeBlockClass bc \<in> set appealable_classes"
    then have "NormalizeBlockClass bc \<noteq> BlockClassUnknownSecurity"
      by (auto simp: appealable_classes_def)
    with n appealable_classes_apart(3) [OF n] show "ResolveBlockClass bc pa \<in> set appealable_classes"
      by (simp add: resolved_class_normal)
  qed
  then have "fst (ClassifyAppealability bc pa) = AppealAppealable \<longleftrightarrow> NormalizeBlockClass bc \<in> set appealable_classes"
    by (simp add: appealable_resolved)
  then show ?thesis by (simp add: appealable_classes_def)
qed

end
