(* ===== verification/ChallengeStore.thy ===== *)
theory ChallengeStore
  imports ChallengePolicy
begin

text \<open>
  The durable challenge store of \<^verbatim>\<open>pkg/challenge\<close> (\<^verbatim>\<open>types.go\<close>, \<^verbatim>\<open>store.go\<close>, \<^verbatim>\<open>projector.go\<close>):
  the challenge record and its append-only event, the event projector \<open>ApplyEvent\<close>, the store
  operations that run under \<open>store.mu\<close>, the non-appeal barrier, the terminal channels, replay and
  the snapshot that is written to disk.

  The lemmas: a legal event path is a run of the closed state machine, it consumes the retry
  budget and allows at most once, and replaying it rebuilds the record field by field; the store
  invariant (every record is the projection of its own events, sequences grow, one active
  challenge per session and fingerprint) is kept by every legal commit.
\<close>

section \<open>Records\<close>

datatype challenge_state =
  StateEmpty | StateOpen | StateJustified | StateRetryPending | StateAllowedOnce | StateRejected
| StateHumanReview | StateAbandoned | StateExpired

fun state_str :: "challenge_state \<Rightarrow> string" where
  "state_str StateEmpty = ''''"
| "state_str StateOpen = ''OPEN''"
| "state_str StateJustified = ''JUSTIFIED''"
| "state_str StateRetryPending = ''RETRY_PENDING''"
| "state_str StateAllowedOnce = ''ALLOWED_ONCE''"
| "state_str StateRejected = ''REJECTED''"
| "state_str StateHumanReview = ''HUMAN_REVIEW''"
| "state_str StateAbandoned = ''ABANDONED''"
| "state_str StateExpired = ''EXPIRED''"

datatype decision = DecisionEmpty | DecisionAllow | DecisionBlock

datatype event_type =
  EvOpened | EvJustified | EvBudgetConsumed | EvRetryPending | EvAllowedOnce | EvRejected
| EvHumanReview | EvAbandoned | EvExpired | EvOther string

abbreviation SchemaChallengeRecord :: string where "SchemaChallengeRecord \<equiv> ''reinframe.challenge_record.v1''"
abbreviation SchemaChallengeEvent :: string where "SchemaChallengeEvent \<equiv> ''reinframe.challenge_event.v1''"
abbreviation SchemaChallengeAudit :: string where "SchemaChallengeAudit \<equiv> ''reinframe.challenge_audit.v1''"
abbreviation SchemaCacheKeyInputs :: string where "SchemaCacheKeyInputs \<equiv> ''reinframe.challenge_cache_key_inputs.v1''"

definition InitialRetryBudget :: int where "InitialRetryBudget = 1"

record challenge =
  ch_SchemaVersion :: string
  ch_ChallengeID :: string
  ch_ChallengeNonce :: string
  ch_SuggestedFix :: string
  ch_SessionID :: string
  ch_ActionFingerprint :: string
  ch_OriginalActionID :: string
  ch_PolicyClass :: string
  ch_BlockClass :: string
  ch_ReasonCode :: string
  ch_RequiredClaims :: "string list"
  ch_RetryBudget :: int
  ch_RetryBudgetInitial :: int
  ch_State :: challenge_state
  ch_Appealability :: appeal
  ch_Intervention :: intervention
  ch_Stage2Decision :: decision
  ch_WorkspaceRevision :: string
  ch_ContractRevision :: int
  ch_Branch :: string
  ch_SideEffectClass :: side_effect
  ch_TargetResources :: "string list"
  ch_PolicyVersion :: string
  ch_RulesetHash :: string
  ch_PolicyHash :: string
  ch_JustificationHash :: string
  ch_ConsumedRetryKey :: string
  ch_OperationDigest :: string
  ch_ExpiresAtSequence :: int
  ch_CreatedSequence :: int
  ch_UpdatedSequence :: int
  ch_ProviderCallAuditID :: string
  ch_CreatedAt :: time
  ch_UpdatedAt :: time

definition empty_challenge :: challenge where
  "empty_challenge =
    \<lparr>ch_SchemaVersion = [], ch_ChallengeID = [], ch_ChallengeNonce = [], ch_SuggestedFix = [],
     ch_SessionID = [], ch_ActionFingerprint = [], ch_OriginalActionID = [], ch_PolicyClass = [],
     ch_BlockClass = [], ch_ReasonCode = [], ch_RequiredClaims = [], ch_RetryBudget = 0,
     ch_RetryBudgetInitial = 0, ch_State = StateEmpty, ch_Appealability = AppealEmpty,
     ch_Intervention = InterventionEmpty, ch_Stage2Decision = DecisionEmpty,
     ch_WorkspaceRevision = [], ch_ContractRevision = 0, ch_Branch = [],
     ch_SideEffectClass = SideEffectEmpty, ch_TargetResources = [], ch_PolicyVersion = [],
     ch_RulesetHash = [], ch_PolicyHash = [], ch_JustificationHash = [], ch_ConsumedRetryKey = [],
     ch_OperationDigest = [], ch_ExpiresAtSequence = 0, ch_CreatedSequence = 0,
     ch_UpdatedSequence = 0, ch_ProviderCallAuditID = [], ch_CreatedAt = 0, ch_UpdatedAt = 0\<rparr>"

record event =
  ev_SchemaVersion :: string
  ev_Sequence :: int
  ev_ChallengeID :: string
  ev_SessionID :: string
  ev_Type :: event_type
  ev_FromState :: challenge_state
  ev_ToState :: challenge_state
  ev_CorrelationID :: string
  ev_CausationID :: string
  ev_PayloadHash :: string
  ev_ProviderCallAuditID :: string
  ev_Note :: string
  ev_At :: time

record barrier_entry =
  be_Note :: string
  be_PolicyVersion :: string
  be_RulesetHash :: string
  be_MarkSeq :: int
  be_SideEffectClass :: side_effect
  be_TargetResources :: "string list"
  be_OperationDigest :: string

text \<open>
  \<open>st_terminalCh\<close> maps a challenge id to whether its channel is closed. The two locks of the
  code are not state: each definition below that takes a store is one critical section.
\<close>

record store =
  st_seq :: int
  st_events :: "event list"
  st_byID :: "challenge gomap"
  st_justifications :: "justification gomap"
  st_openByFP :: "string gomap"
  st_terminalCh :: "bool gomap"
  st_idSeq :: nat
  st_nonAppealBarrier :: "barrier_entry gomap"

definition NewStore :: store where
  "NewStore = \<lparr>st_seq = 0, st_events = [], st_byID = [], st_justifications = [], st_openByFP = [],
     st_terminalCh = [], st_idSeq = 0, st_nonAppealBarrier = []\<rparr>"

definition isTerminal :: "challenge_state \<Rightarrow> bool" where
  "isTerminal st \<longleftrightarrow>
     st \<in> {StateAllowedOnce, StateRejected, StateHumanReview, StateAbandoned, StateExpired}"

definition is_active_state :: "challenge_state \<Rightarrow> bool" where
  "is_active_state st \<longleftrightarrow> st \<in> {StateOpen, StateJustified, StateRetryPending}"

section \<open>The projector\<close>

fun apply_type :: "challenge \<Rightarrow> event \<Rightarrow> event_type \<Rightarrow> challenge option" where
  "apply_type rec ev EvOpened =
     (let r1 = rec\<lparr>ch_State := StateOpen, ch_Stage2Decision := DecisionBlock\<rparr>;
          r2 = (if ch_Intervention r1 = InterventionEmpty
                then r1\<lparr>ch_Intervention := InterventionAppealableChallenge\<rparr> else r1);
          r3 = (if ch_RetryBudgetInitial r2 = 0 \<and> ch_RetryBudget r2 = 0 \<and> ch_Appealability r2 \<noteq> AppealHumanReview
                then r2\<lparr>ch_RetryBudget := InitialRetryBudget, ch_RetryBudgetInitial := InitialRetryBudget\<rparr>
                else r2);
          r4 = (if ch_CreatedSequence r3 = 0 then r3\<lparr>ch_CreatedSequence := ev_Sequence ev\<rparr> else r3)
      in Some (if ch_CreatedAt r4 = 0 then r4\<lparr>ch_CreatedAt := ev_At ev\<rparr> else r4))"
| "apply_type rec ev EvJustified = Some (rec\<lparr>ch_State := StateJustified\<rparr>)"
| "apply_type rec ev EvBudgetConsumed =
     (let r1 = (if ch_RetryBudget rec > 0 then rec\<lparr>ch_RetryBudget := ch_RetryBudget rec - 1\<rparr> else rec)
      in Some (if ev_ToState ev \<noteq> StateEmpty then r1\<lparr>ch_State := ev_ToState ev\<rparr>
               else r1\<lparr>ch_State := StateRetryPending\<rparr>))"
| "apply_type rec ev EvRetryPending = Some (rec\<lparr>ch_State := StateRetryPending\<rparr>)"
| "apply_type rec ev EvAllowedOnce =
     Some (rec\<lparr>ch_State := StateAllowedOnce, ch_Stage2Decision := DecisionAllow,
               ch_Intervention := InterventionNone\<rparr>)"
| "apply_type rec ev EvRejected =
     Some (rec\<lparr>ch_State := StateRejected, ch_Stage2Decision := DecisionBlock\<rparr>)"
| "apply_type rec ev EvHumanReview =
     Some (rec\<lparr>ch_State := StateHumanReview, ch_Stage2Decision := DecisionBlock,
               ch_Intervention := InterventionHumanReview, ch_RetryBudget := 0\<rparr>)"
| "apply_type rec ev EvAbandoned = Some (rec\<lparr>ch_State := StateAbandoned\<rparr>)"
| "apply_type rec ev EvExpired = Some (rec\<lparr>ch_State := StateExpired\<rparr>)"
| "apply_type rec ev (EvOther _) =
     (if ev_ToState ev \<noteq> StateEmpty then Some (rec\<lparr>ch_State := ev_ToState ev\<rparr>) else None)"

definition ApplyEvent :: "challenge \<Rightarrow> event \<Rightarrow> challenge \<times> go_error option" where
  "ApplyEvent rec ev =
     (if ch_State rec \<noteq> StateEmpty \<and> ch_State rec = ev_ToState ev \<and> ev_Type ev \<noteq> EvBudgetConsumed
      then (rec\<lparr>ch_UpdatedSequence := ev_Sequence ev, ch_UpdatedAt := ev_At ev\<rparr>, None)
      else case apply_type rec ev (ev_Type ev) of
        None \<Rightarrow> (rec, Some ''apply event: unknown type'')
      | Some r \<Rightarrow>
          (let r1 = r\<lparr>ch_UpdatedSequence := ev_Sequence ev,
                      ch_UpdatedAt := (if ev_At ev \<noteq> 0 then ev_At ev else 0)\<rparr>
           in (if ev_ProviderCallAuditID ev \<noteq> [] then r1\<lparr>ch_ProviderCallAuditID := ev_ProviderCallAuditID ev\<rparr>
               else r1, None)))"

section \<open>Store operations\<close>

definition nextSeqLocked :: "store \<Rightarrow> int \<times> store" where
  "nextSeqLocked s = (st_seq s + 1, s\<lparr>st_seq := st_seq s + 1\<rparr>)"

definition Sequence :: "store \<Rightarrow> int" where
  "Sequence s = st_seq s"

definition Get :: "store \<Rightarrow> string \<Rightarrow> challenge option" where
  "Get s i = gm_get (st_byID s) i"

definition GetJustification :: "store \<Rightarrow> string \<Rightarrow> justification option" where
  "GetJustification s i = gm_get (st_justifications s) i"

definition Events :: "store \<Rightarrow> string \<Rightarrow> event list" where
  "Events s i = filter (\<lambda>e. ev_ChallengeID e = i) (st_events s)"

definition AllEvents :: "store \<Rightarrow> event list" where
  "AllEvents s = st_events s"

definition barrierKey :: "string \<Rightarrow> string \<Rightarrow> string" where
  "barrierKey sessionID fingerprint = sessionID @ ''|'' @ fingerprint"

definition ActiveByFingerprint :: "store \<Rightarrow> string \<Rightarrow> string \<Rightarrow> challenge option" where
  "ActiveByFingerprint s sessionID fp =
     (case gm_get (st_openByFP s) (sessionID @ ''|'' @ fp) of
        None \<Rightarrow> None
      | Some i \<Rightarrow>
          (case gm_get (st_byID s) i of
             None \<Rightarrow> None
           | Some rec \<Rightarrow> if is_active_state (ch_State rec) then Some rec else None))"

text \<open>
  \<open>putLocked\<close>: the ids to expire are collected from the map and then updated one by one. The
  updates hit different keys, so the order of the range does not matter and the order of the
  association list is used.
\<close>

definition put_conflicts :: "store \<Rightarrow> challenge \<Rightarrow> string list" where
  "put_conflicts s rec =
     map fst (filter (\<lambda>(i, existing). i \<noteq> ch_ChallengeID rec
                \<and> ch_SessionID existing = ch_SessionID rec
                \<and> ch_ActionFingerprint existing = ch_ActionFingerprint rec
                \<and> \<not> isTerminal (ch_State existing)) (st_byID s))"

definition silent_expire :: "challenge \<Rightarrow> string \<Rightarrow> challenge gomap \<Rightarrow> challenge gomap" where
  "silent_expire rec i m =
     (case gm_get m i of
        None \<Rightarrow> m
      | Some existing \<Rightarrow>
          if isTerminal (ch_State existing) then m
          else gm_put i (existing\<lparr>ch_State := StateExpired, ch_UpdatedSequence := ch_UpdatedSequence rec,
                                  ch_UpdatedAt := ch_UpdatedAt rec\<rparr>) m)"

definition putLocked :: "challenge \<Rightarrow> event \<Rightarrow> justification option \<Rightarrow> store \<Rightarrow> store" where
  "putLocked rec ev just s0 =
     (let s1 = s0\<lparr>st_events := st_events s0 @ [ev],
                  st_byID := gm_put (ch_ChallengeID rec) rec (st_byID s0),
                  st_justifications := (case just of None \<Rightarrow> st_justifications s0
                     | Some j \<Rightarrow> gm_put (ch_ChallengeID rec) j (st_justifications s0))\<rparr>;
          key = ch_SessionID rec @ ''|'' @ ch_ActionFingerprint rec
      in if is_active_state (ch_State rec)
         then s1\<lparr>st_byID := fold (silent_expire rec) (put_conflicts s1 rec) (st_byID s1),
                 st_openByFP := gm_put key (ch_ChallengeID rec) (st_openByFP s1)\<rparr>
         else if gm_get (st_openByFP s1) key = Some (ch_ChallengeID rec)
         then s1\<lparr>st_openByFP := gm_del key (st_openByFP s1)\<rparr>
         else s1)"

record transition =
  tr_from :: challenge_state
  tr_to :: challenge_state
  tr_typ :: event_type
  tr_corr :: string
  tr_cause :: string
  tr_payloadHash :: string
  tr_note :: string
  tr_audit :: string
  tr_at :: time

definition transition_rec :: "challenge \<Rightarrow> transition \<Rightarrow> int \<Rightarrow> challenge" where
  "transition_rec rec t seq =
     (let r = rec\<lparr>ch_State := tr_to t, ch_UpdatedSequence := seq, ch_UpdatedAt := tr_at t\<rparr>
      in if tr_audit t \<noteq> [] then r\<lparr>ch_ProviderCallAuditID := tr_audit t\<rparr> else r)"

definition transition_event :: "challenge \<Rightarrow> transition \<Rightarrow> int \<Rightarrow> event" where
  "transition_event rec t seq =
     \<lparr>ev_SchemaVersion = SchemaChallengeEvent, ev_Sequence = seq, ev_ChallengeID = ch_ChallengeID rec,
      ev_SessionID = ch_SessionID rec, ev_Type = tr_typ t, ev_FromState = tr_from t,
      ev_ToState = tr_to t, ev_CorrelationID = tr_corr t, ev_CausationID = tr_cause t,
      ev_PayloadHash = tr_payloadHash t, ev_ProviderCallAuditID = tr_audit t, ev_Note = tr_note t,
      ev_At = tr_at t\<rparr>"

definition appendTransitionAudit ::
  "challenge \<Rightarrow> transition \<Rightarrow> justification option \<Rightarrow> store \<Rightarrow> challenge \<times> store" where
  "appendTransitionAudit rec t just s0 =
     (let (seq, s1) = nextSeqLocked s0;
          rec' = transition_rec rec t seq
      in (rec', putLocked rec' (transition_event rec' t seq) just s1))"

definition appendTransition ::
  "challenge \<Rightarrow> transition \<Rightarrow> justification option \<Rightarrow> store \<Rightarrow> challenge \<times> store" where
  "appendTransition rec t just s = appendTransitionAudit rec (t\<lparr>tr_audit := []\<rparr>) just s"

text \<open>\<open>UnixNano\<close> of the zero instant is the (negative) offset of year 1 from 1970.\<close>

definition UnixNano :: "time \<Rightarrow> int" where
  "UnixNano t = t - 62135596800 * 1000000000"

definition newID :: "gostd \<Rightarrow> string \<Rightarrow> time \<Rightarrow> store \<Rightarrow> string \<times> store" where
  "newID std pre now s =
     (let n = (st_idSeq s + 1) mod 2 ^ 64
      in (pre @ ''-'' @ take 16 (sha256_hex std (pre @ ''-'' @ itoa (UnixNano now) @ ''-'' @ dec n)),
          s\<lparr>st_idSeq := n\<rparr>))"

definition terminalWaitCh :: "string \<Rightarrow> store \<Rightarrow> store" where
  "terminalWaitCh i s =
     (case gm_get (st_terminalCh s) i of
        Some _ \<Rightarrow> s
      | None \<Rightarrow> s\<lparr>st_terminalCh := gm_put i False (st_terminalCh s)\<rparr>)"

definition signalTerminal :: "string \<Rightarrow> store \<Rightarrow> store" where
  "signalTerminal i s =
     (if i = [] then s else s\<lparr>st_terminalCh := gm_put i True (st_terminalCh s)\<rparr>)"

section \<open>The non-appeal barrier\<close>

definition markNonAppealBarrierLocked ::
  "string \<Rightarrow> string \<Rightarrow> string \<Rightarrow> string \<Rightarrow> string \<Rightarrow> side_effect \<Rightarrow> string list \<Rightarrow> string \<Rightarrow> store \<Rightarrow> store" where
  "markNonAppealBarrierLocked sessionID fingerprint note pv rh side targets opDigest s =
     s\<lparr>st_seq := st_seq s + 1,
       st_nonAppealBarrier := gm_put (barrierKey sessionID fingerprint)
         \<lparr>be_Note = note, be_PolicyVersion = pv, be_RulesetHash = rh, be_MarkSeq = st_seq s + 1,
          be_SideEffectClass = side, be_TargetResources = targets, be_OperationDigest = opDigest\<rparr>
         (st_nonAppealBarrier s)\<rparr>"

definition semanticActionMatch ::
  "side_effect \<Rightarrow> string list \<Rightarrow> string \<Rightarrow> side_effect \<Rightarrow> string list \<Rightarrow> string \<Rightarrow> bool" where
  "semanticActionMatch sideA targetsA opA sideB targetsB opB =
     (if sideA \<noteq> sideB \<or> opA = [] \<or> opA \<noteq> opB then False
      else if targetsA = [] \<and> targetsB = [] then True
      else sameStringSet targetsA targetsB)"

definition barrierPolicyHit :: "barrier_entry \<Rightarrow> string \<Rightarrow> string \<Rightarrow> int \<Rightarrow> string option" where
  "barrierPolicyHit e pv rh openTicket =
     (if be_PolicyVersion e = pv \<and> be_RulesetHash e = rh then Some (be_Note e)
      else if openTicket < be_MarkSeq e then Some (be_Note e @ ''_stale_open'')
      else None)"

fun barrier_scan :: "(string \<Rightarrow> string option) \<Rightarrow> string list \<Rightarrow> string option" where
  "barrier_scan f [] = None"
| "barrier_scan f (k # ks) = (case f k of Some n \<Rightarrow> Some n | None \<Rightarrow> barrier_scan f ks)"

definition barrier_variant_hit ::
  "string \<Rightarrow> string \<Rightarrow> string \<Rightarrow> string \<Rightarrow> int \<Rightarrow> side_effect \<Rightarrow> string list \<Rightarrow> string \<Rightarrow> store
   \<Rightarrow> string \<Rightarrow> string option" where
  "barrier_variant_hit sessionID fingerprint pv rh openTicket side targets opDigest s key =
     (if key = barrierKey sessionID fingerprint \<or> \<not> HasPrefix key (sessionID @ ''|'') then None
      else case gm_get (st_nonAppealBarrier s) key of
        None \<Rightarrow> None
      | Some e \<Rightarrow>
          if semanticActionMatch (be_SideEffectClass e) (be_TargetResources e) (be_OperationDigest e)
               side targets opDigest
          then barrierPolicyHit e pv rh openTicket else None)"

definition nonAppealBarrierNoteLocked ::
  "range_order \<Rightarrow> string \<Rightarrow> string \<Rightarrow> string \<Rightarrow> string \<Rightarrow> int \<Rightarrow> side_effect \<Rightarrow> string list \<Rightarrow> string
   \<Rightarrow> store \<Rightarrow> string option" where
  "nonAppealBarrierNoteLocked ord sessionID fingerprint pv rh openTicket side targets opDigest s =
     (case (case gm_get (st_nonAppealBarrier s) (barrierKey sessionID fingerprint) of
              None \<Rightarrow> None | Some e \<Rightarrow> barrierPolicyHit e pv rh openTicket) of
        Some note \<Rightarrow> Some note
      | None \<Rightarrow>
          if opDigest = [] then None
          else barrier_scan
                 (barrier_variant_hit sessionID fingerprint pv rh openTicket side targets opDigest s)
                 (ord (gm_keys (st_nonAppealBarrier s))))"

section \<open>Replay\<close>

definition allowed_edges :: "challenge_state \<Rightarrow> challenge_state list" where
  "allowed_edges st =
     (if st = StateOpen then [StateJustified, StateRejected, StateAbandoned, StateExpired, StateHumanReview]
      else if st = StateJustified
        then [StateRetryPending, StateAbandoned, StateExpired, StateRejected, StateHumanReview]
      else if st = StateRetryPending
        then [StateAllowedOnce, StateRejected, StateHumanReview, StateExpired]
      else [])"

definition validateTransition :: "challenge_state \<Rightarrow> challenge_state \<Rightarrow> event_type \<Rightarrow> go_error option" where
  "validateTransition from to evType =
     (if from = StateEmpty \<and> to = StateOpen then None
      else if to \<in> set (allowed_edges from) then None
      else if from = to \<and> from \<noteq> StateEmpty then None
      else Some ''invalid transition'')"

text \<open>The body of the loop of \<open>Replay\<close>: \<open>Inr None\<close> is \<open>continue\<close>.\<close>

definition replay_event :: "bool \<Rightarrow> challenge \<Rightarrow> challenge \<Rightarrow> event \<Rightarrow> challenge option go_result" where
  "replay_event applied seed rec0 ev =
     (if ch_ChallengeID seed \<noteq> [] \<and> ev_ChallengeID ev \<noteq> ch_ChallengeID seed then Inr None
      else let rec = (if \<not> applied \<and> ch_ChallengeID rec0 = []
               then rec0\<lparr>ch_ChallengeID := ev_ChallengeID ev, ch_SessionID := ev_SessionID ev,
                         ch_SchemaVersion := SchemaChallengeRecord\<rparr> else rec0) in
      if isTerminal (ch_State rec) \<and> ev_ToState ev \<noteq> ch_State rec
         \<and> (ch_State rec = StateExpired \<or> ev_FromState ev \<noteq> ch_State rec) then Inr None
      else if validateTransition (ch_State rec) (ev_ToState ev) (ev_Type ev) \<noteq> None \<and> applied
              \<and> ch_State rec \<noteq> StateEmpty then Inl ''replay: invalid transition''
      else let rec1 = (if ch_State rec = StateEmpty \<and> ev_ToState ev = StateOpen
               \<and> ch_RetryBudgetInitial rec = 0 \<and> ch_RetryBudget rec = 0
               \<and> ch_Appealability rec \<noteq> AppealHumanReview
               then rec\<lparr>ch_RetryBudget := InitialRetryBudget, ch_RetryBudgetInitial := InitialRetryBudget\<rparr>
               else rec)
           in case ApplyEvent rec1 ev of
                (_, Some e) \<Rightarrow> Inl (''replay: '' @ e)
              | (next, None) \<Rightarrow> Inr (Some next))"

fun replay_loop :: "bool \<Rightarrow> challenge \<Rightarrow> challenge \<Rightarrow> event list \<Rightarrow> challenge go_result" where
  "replay_loop applied seed rec [] = (if applied then Inr rec else Inl ''replay: no events'')"
| "replay_loop applied seed rec (ev # evs) =
     (case replay_event applied seed rec ev of
        Inl e \<Rightarrow> Inl e
      | Inr None \<Rightarrow>
          replay_loop applied seed
            (if ch_ChallengeID seed \<noteq> [] \<and> ev_ChallengeID ev \<noteq> ch_ChallengeID seed then rec
             else if \<not> applied \<and> ch_ChallengeID rec = []
             then rec\<lparr>ch_ChallengeID := ev_ChallengeID ev, ch_SessionID := ev_SessionID ev,
                      ch_SchemaVersion := SchemaChallengeRecord\<rparr> else rec) evs
      | Inr (Some next) \<Rightarrow> replay_loop True seed next evs)"

definition Replay :: "event list \<Rightarrow> challenge \<Rightarrow> challenge go_result" where
  "Replay events seed = replay_loop False seed seed events"

definition seed_opened :: "challenge \<Rightarrow> challenge \<Rightarrow> challenge" where
  "seed_opened snap rec =
     (let r = rec\<lparr>ch_ActionFingerprint := ch_ActionFingerprint snap,
        ch_OriginalActionID := ch_OriginalActionID snap, ch_ChallengeNonce := ch_ChallengeNonce snap,
        ch_SuggestedFix := ch_SuggestedFix snap, ch_BlockClass := ch_BlockClass snap,
        ch_ReasonCode := ch_ReasonCode snap, ch_Appealability := ch_Appealability snap,
        ch_PolicyClass := ch_PolicyClass snap, ch_RequiredClaims := ch_RequiredClaims snap,
        ch_SideEffectClass := ch_SideEffectClass snap, ch_TargetResources := ch_TargetResources snap,
        ch_WorkspaceRevision := ch_WorkspaceRevision snap, ch_ContractRevision := ch_ContractRevision snap,
        ch_Branch := ch_Branch snap, ch_PolicyVersion := ch_PolicyVersion snap,
        ch_RulesetHash := ch_RulesetHash snap, ch_PolicyHash := ch_PolicyHash snap,
        ch_ExpiresAtSequence := ch_ExpiresAtSequence snap,
        ch_RetryBudgetInitial := ch_RetryBudgetInitial snap, ch_RetryBudget := ch_RetryBudgetInitial snap,
        ch_Intervention := ch_Intervention snap\<rparr>;
          r1 = (if ch_Intervention r = InterventionEmpty \<and> ch_Appealability snap = AppealHumanReview
                then r\<lparr>ch_Intervention := InterventionHumanReview\<rparr> else r)
      in if ch_Intervention r1 = InterventionEmpty
         then r1\<lparr>ch_Intervention := InterventionAppealableChallenge\<rparr> else r1)"

definition replay_step :: "challenge option \<Rightarrow> challenge \<Rightarrow> event \<Rightarrow> challenge go_result" where
  "replay_step snap rec0 ev =
     (let r1 = (case snap of Some sn \<Rightarrow> if ev_Type ev = EvOpened then seed_opened sn rec0 else rec0
                | None \<Rightarrow> rec0);
          r2 = (case snap of
                  Some sn \<Rightarrow> if ev_Type ev = EvJustified
                    then r1\<lparr>ch_JustificationHash := ch_JustificationHash sn\<rparr> else r1
                | None \<Rightarrow> r1)
      in case ApplyEvent r2 ev of
           (_, Some e) \<Rightarrow> Inl e
         | (r3, None) \<Rightarrow>
             (let r4 = (if ev_Type ev \<in> {EvAllowedOnce, EvRejected, EvHumanReview} \<and> ev_PayloadHash ev \<noteq> []
                        then r3\<lparr>ch_ConsumedRetryKey := ev_PayloadHash ev\<rparr> else r3);
                  r5 = (case snap of
                      Some sn \<Rightarrow>
                        if ch_ConsumedRetryKey sn \<noteq> [] \<and> ch_ConsumedRetryKey r4 = [] \<and> isTerminal (ch_State r4)
                        then r4\<lparr>ch_ConsumedRetryKey := ch_ConsumedRetryKey sn\<rparr> else r4
                    | None \<Rightarrow> r4)
              in Inr (case snap of
                   Some sn \<Rightarrow> if ch_OperationDigest sn \<noteq> []
                     then r5\<lparr>ch_OperationDigest := ch_OperationDigest sn\<rparr> else r5
                 | None \<Rightarrow> r5)))"

fun replay_all :: "challenge option \<Rightarrow> challenge \<Rightarrow> event list \<Rightarrow> challenge go_result" where
  "replay_all snap rec [] = Inr rec"
| "replay_all snap rec (ev # evs) =
     (case replay_step snap rec ev of Inl e \<Rightarrow> Inl e | Inr r \<Rightarrow> replay_all snap r evs)"

definition replay_seed :: "challenge option \<Rightarrow> string \<Rightarrow> event \<Rightarrow> challenge" where
  "replay_seed snap challengeID ev0 =
     (case snap of
        Some sn \<Rightarrow> sn\<lparr>ch_State := StateEmpty, ch_JustificationHash := [], ch_UpdatedSequence := 0,
                      ch_RetryBudget := ch_RetryBudgetInitial sn\<rparr>
      | None \<Rightarrow> empty_challenge\<lparr>ch_SchemaVersion := SchemaChallengeRecord, ch_ChallengeID := challengeID,
                      ch_SessionID := ev_SessionID ev0, ch_RetryBudgetInitial := InitialRetryBudget,
                      ch_RetryBudget := InitialRetryBudget\<rparr>)"

definition ReplayFromStore :: "string \<Rightarrow> store \<Rightarrow> challenge go_result" where
  "ReplayFromStore challengeID s =
     (case Events s challengeID of
        [] \<Rightarrow> Inl ''replay: unknown challenge''
      | ev0 # evs \<Rightarrow>
          (let snap = gm_get (st_byID s) challengeID
           in replay_all snap (replay_seed snap challengeID ev0) (ev0 # evs)))"

section \<open>Snapshots on disk\<close>

record store_serialized =
  ss_Seq :: int
  ss_Events :: "event list"
  ss_ByID :: "challenge gomap"
  ss_Justifications :: "justification gomap option"
  ss_OpenByFP :: "string gomap option"
  ss_NonAppealBarrier :: "barrier_entry gomap option"
  ss_IDSeq :: nat

text \<open>
  \<open>SaveToFile\<close> up to the call of \<open>json.MarshalIndent\<close> and \<open>LoadFromFile\<close> after \<open>json.Unmarshal\<close>:
  a missing JSON object is the nil map \<open>None\<close>, and the terminal channels are not saved.
\<close>

definition SaveToFile :: "store \<Rightarrow> store_serialized" where
  "SaveToFile s =
     \<lparr>ss_Seq = st_seq s, ss_Events = st_events s, ss_ByID = st_byID s,
      ss_Justifications = Some (st_justifications s), ss_OpenByFP = Some (st_openByFP s),
      ss_NonAppealBarrier = Some (st_nonAppealBarrier s), ss_IDSeq = st_idSeq s\<rparr>"

definition LoadFromFile :: "store_serialized \<Rightarrow> store \<Rightarrow> store" where
  "LoadFromFile snap s =
     s\<lparr>st_idSeq := ss_IDSeq snap, st_seq := ss_Seq snap, st_events := ss_Events snap,
       st_byID := ss_ByID snap,
       st_justifications := (case ss_Justifications snap of None \<Rightarrow> [] | Some m \<Rightarrow> m),
       st_openByFP := (case ss_OpenByFP snap of None \<Rightarrow> [] | Some m \<Rightarrow> m),
       st_nonAppealBarrier := (case ss_NonAppealBarrier snap of None \<Rightarrow> [] | Some m \<Rightarrow> m)\<rparr>"

section \<open>Legal event paths\<close>

text \<open>
  The transitions the service writes, with their event types. Compared with
  \<open>validateTransition\<close> there are no self loops, and a human-review record starts directly in its
  terminal state.
\<close>

inductive legal_edge :: "challenge_state \<Rightarrow> event_type \<Rightarrow> challenge_state \<Rightarrow> bool" where
  le_open: "legal_edge StateEmpty EvOpened StateOpen"
| le_open_hr: "legal_edge StateEmpty EvHumanReview StateHumanReview"
| le_justify: "legal_edge StateOpen EvJustified StateJustified"
| le_reject: "st \<in> {StateOpen, StateJustified, StateRetryPending} \<Longrightarrow> legal_edge st EvRejected StateRejected"
| le_expire: "st \<in> {StateOpen, StateJustified, StateRetryPending} \<Longrightarrow> legal_edge st EvExpired StateExpired"
| le_abandon: "st \<in> {StateOpen, StateJustified} \<Longrightarrow> legal_edge st EvAbandoned StateAbandoned"
| le_budget: "legal_edge StateJustified EvBudgetConsumed StateRetryPending"
| le_allow: "legal_edge StateRetryPending EvAllowedOnce StateAllowedOnce"
| le_hr: "legal_edge StateRetryPending EvHumanReview StateHumanReview"

code_pred legal_edge .

inductive_cases legal_edgeE: "legal_edge st t st'"

inductive_simps legal_edge_simps:
  "legal_edge st EvOpened st'" "legal_edge st EvJustified st'" "legal_edge st EvBudgetConsumed st'"
  "legal_edge st EvAllowedOnce st'" "legal_edge st EvHumanReview st'" "legal_edge st EvRejected st'"
  "legal_edge st EvExpired st'" "legal_edge st EvAbandoned st'"

text \<open>A path of events from one state to another.\<close>

inductive legal_path :: "challenge_state \<Rightarrow> event list \<Rightarrow> challenge_state \<Rightarrow> bool" where
  lp_Nil: "legal_path st [] st"
| lp_snoc: "legal_path st evs st1 \<Longrightarrow> ev_FromState ev = st1 \<Longrightarrow> legal_edge st1 (ev_Type ev) (ev_ToState ev)
    \<Longrightarrow> legal_path st (evs @ [ev]) (ev_ToState ev)"

inductive_cases legal_path_snocE: "legal_path st (evs @ [ev]) st'"

abbreviation has_type :: "event_type \<Rightarrow> event list \<Rightarrow> bool" where
  "has_type t evs \<equiv> t \<in> ev_Type ` set evs"

abbreviation count_type :: "event_type \<Rightarrow> event list \<Rightarrow> nat" where
  "count_type t evs \<equiv> length (filter (\<lambda>e. ev_Type e = t) evs)"

text \<open>What a path from the empty state has seen, as a function of the state it reached.\<close>

definition path_shape :: "challenge_state \<Rightarrow> event list \<Rightarrow> bool" where
  "path_shape st evs \<longleftrightarrow>
     (st = StateEmpty \<longleftrightarrow> evs = [])
   \<and> count_type EvOpened evs \<le> 1 \<and> count_type EvJustified evs \<le> 1
   \<and> count_type EvBudgetConsumed evs \<le> 1
   \<and> (st = StateEmpty \<longrightarrow> count_type EvOpened evs = 0)
   \<and> (st \<in> {StateEmpty, StateOpen} \<longrightarrow> count_type EvJustified evs = 0)
   \<and> (st \<in> {StateEmpty, StateOpen, StateJustified} \<longrightarrow> count_type EvBudgetConsumed evs = 0)
   \<and> (st \<in> {StateJustified, StateRetryPending, StateAllowedOnce} \<longrightarrow>
        count_type EvJustified evs = 1 \<and> count_type EvOpened evs = 1)
   \<and> (st \<in> {StateRetryPending, StateAllowedOnce} \<longrightarrow> count_type EvBudgetConsumed evs = 1)
   \<and> (st = StateOpen \<longrightarrow> count_type EvOpened evs = 1)
   \<and> count_type EvAllowedOnce evs = (if st = StateAllowedOnce then 1 else 0)"

lemma legal_path_shape:
  assumes "legal_path st0 evs st" and "st0 = StateEmpty"
  shows "path_shape st evs"
  using assms
proof (induction rule: legal_path.induct)
  case (lp_Nil st)
  then show ?case by (simp add: path_shape_def)
next
  case (lp_snoc st evs st1 ev)
  then have IH: "path_shape st1 evs" by simp
  from lp_snoc.hyps(3) show ?case
    by (cases rule: legal_edge.cases) (insert IH, auto simp: path_shape_def)
qed

lemma legal_edge_not_terminal: "legal_edge st t st' \<Longrightarrow> \<not> isTerminal st"
  by (auto simp: isTerminal_def elim: legal_edgeE)

lemma legal_edge_target: "legal_edge st t st' \<Longrightarrow> st' \<noteq> StateEmpty \<and> st \<noteq> st'"
  by (auto elim: legal_edgeE)

lemma legal_edge_validate:
  assumes "legal_edge st t st'" and "st \<noteq> StateEmpty"
  shows "validateTransition st st' t = None"
  using assms by (auto simp: validateTransition_def allowed_edges_def elim: legal_edgeE)


section \<open>Replay rebuilds the record\<close>

definition audit_after :: "string \<Rightarrow> event list \<Rightarrow> string" where
  "audit_after a evs = fold (\<lambda>e a. if ev_ProviderCallAuditID e \<noteq> [] then ev_ProviderCallAuditID e else a) evs a"

definition verdict_event :: "event \<Rightarrow> bool" where
  "verdict_event e \<longleftrightarrow> ev_Type e \<in> {EvAllowedOnce, EvRejected, EvHumanReview}"

definition replay_key :: "challenge \<Rightarrow> event list \<Rightarrow> string" where
  "replay_key snap evs =
     (if evs \<noteq> [] \<and> verdict_event (last evs) \<and> ev_PayloadHash (last evs) \<noteq> []
      then ev_PayloadHash (last evs) else ch_ConsumedRetryKey snap)"

definition budget_after :: "event list \<Rightarrow> int" where
  "budget_after evs = (if has_type EvOpened evs \<and> \<not> has_type EvBudgetConsumed evs then 1 else 0)"

definition decision_after :: "event list \<Rightarrow> decision" where
  "decision_after evs = (if has_type EvAllowedOnce evs then DecisionAllow else DecisionBlock)"

definition intervention_after :: "intervention \<Rightarrow> event list \<Rightarrow> intervention" where
  "intervention_after i evs =
     (if has_type EvAllowedOnce evs then InterventionNone
      else if has_type EvHumanReview evs then InterventionHumanReview else i)"

text \<open>The record replay has built after the events \<open>evs\<close>, for a snapshot \<open>snap\<close>.\<close>

definition projected :: "challenge \<Rightarrow> event list \<Rightarrow> challenge_state \<Rightarrow> challenge" where
  "projected snap evs st =
     snap\<lparr>ch_State := st, ch_UpdatedSequence := ev_Sequence (last evs), ch_UpdatedAt := ev_At (last evs),
          ch_Stage2Decision := decision_after evs,
          ch_Intervention := intervention_after (ch_Intervention snap) evs,
          ch_RetryBudget := budget_after evs,
          ch_JustificationHash := (if has_type EvJustified evs then ch_JustificationHash snap else []),
          ch_ConsumedRetryKey := replay_key snap evs,
          ch_ProviderCallAuditID := audit_after (ch_ProviderCallAuditID snap) evs\<rparr>"

definition snapshot_fits :: "challenge \<Rightarrow> event \<Rightarrow> bool" where
  "snapshot_fits snap ev0 \<longleftrightarrow>
     ch_Intervention snap \<noteq> InterventionEmpty \<and> (ch_CreatedAt snap = 0 \<longrightarrow> ev_At ev0 = 0)
   \<and> (ev_Type ev0 = EvOpened \<longrightarrow> ch_RetryBudgetInitial snap = 1 \<and> ch_CreatedSequence snap \<noteq> 0)"

lemma replay_all_snoc:
  "replay_all snap rec (evs @ [ev]) =
     (case replay_all snap rec evs of Inl e \<Rightarrow> Inl e | Inr r \<Rightarrow> replay_step snap r ev)"
  by (induction evs arbitrary: rec) (auto split: sum.splits)

lemma legal_edge_verdict:
  assumes "legal_edge st t st'" and "t \<in> {EvAllowedOnce, EvRejected, EvHumanReview}"
  shows "isTerminal st'"
  using assms by (cases rule: legal_edge.cases) (simp_all add: isTerminal_def)

lemma legal_path_last:
  assumes "legal_path st0 evs st" and "evs \<noteq> []"
  shows "ev_ToState (last evs) = st" and "\<not> isTerminal st \<Longrightarrow> \<not> verdict_event (last evs)"
proof -
  from assms obtain st1 where to: "st = ev_ToState (last evs)"
    and edge: "legal_edge st1 (ev_Type (last evs)) (ev_ToState (last evs))"
    by (cases rule: legal_path.cases) simp_all
  then show "ev_ToState (last evs) = st" by simp
  show "\<not> verdict_event (last evs)" if "\<not> isTerminal st"
    using legal_edge_verdict [OF edge] that to by (auto simp: verdict_event_def)
qed

lemma ApplyEvent_projects:
  assumes "apply_type rec ev (ev_Type ev) = Some r" and "ch_State rec = StateEmpty \<or> ch_State rec \<noteq> ev_ToState ev"
  shows "ApplyEvent rec ev =
     (r\<lparr>ch_UpdatedSequence := ev_Sequence ev, ch_UpdatedAt := ev_At ev,
        ch_ProviderCallAuditID := (if ev_ProviderCallAuditID ev \<noteq> [] then ev_ProviderCallAuditID ev
                                   else ch_ProviderCallAuditID r)\<rparr>, None)"
proof -
  have zero: "(if ev_At ev \<noteq> 0 then ev_At ev else 0) = ev_At ev" by simp
  have noop: "r\<lparr>ch_UpdatedSequence := a, ch_UpdatedAt := b, ch_ProviderCallAuditID := ch_ProviderCallAuditID r\<rparr>
      = r\<lparr>ch_UpdatedSequence := a, ch_UpdatedAt := b\<rparr>" for a b
    by (cases r) simp
  from assms(2) have notself: "\<not> (ch_State rec \<noteq> StateEmpty \<and> ch_State rec = ev_ToState ev \<and> ev_Type ev \<noteq> EvBudgetConsumed)"
    by auto
  show ?thesis unfolding ApplyEvent_def zero Let_def if_not_P [OF notself] by (simp add: assms(1) noop)
qed

definition prepared :: "challenge \<Rightarrow> event \<Rightarrow> challenge \<Rightarrow> challenge" where
  "prepared snap ev rec =
     (if ev_Type ev = EvOpened then seed_opened snap rec
      else if ev_Type ev = EvJustified then rec\<lparr>ch_JustificationHash := ch_JustificationHash snap\<rparr> else rec)"

lemma replay_step_projects:
  assumes "ApplyEvent (prepared snap ev rec) ev = (r, None)"
    and "ch_OperationDigest r = ch_OperationDigest snap"
    and "ch_ConsumedRetryKey r = ch_ConsumedRetryKey snap"
  shows "replay_step (Some snap) rec ev = Inr (r\<lparr>ch_ConsumedRetryKey :=
     (if verdict_event ev \<and> ev_PayloadHash ev \<noteq> [] then ev_PayloadHash ev else ch_ConsumedRetryKey snap)\<rparr>)"
proof -
  have same: "r\<lparr>ch_ConsumedRetryKey := ch_ConsumedRetryKey snap\<rparr> = r"
    using assms(3) by (cases r) simp
  have op: "r\<lparr>ch_ConsumedRetryKey := k, ch_OperationDigest := ch_OperationDigest snap\<rparr>
      = r\<lparr>ch_ConsumedRetryKey := k\<rparr>" for k
    using assms(2) by (cases r) simp
  have op': "r\<lparr>ch_OperationDigest := ch_OperationDigest snap\<rparr> = r"
    using assms(2) by (cases r) simp
  show ?thesis
    using assms same
    by (auto simp: replay_step_def prepared_def Let_def verdict_event_def op op' split: if_splits)
qed

lemmas projection_defs = projected_def audit_after_def replay_key_def verdict_event_def budget_after_def
  decision_after_def intervention_after_def

lemma seed_opened_noop:
  assumes "ch_Intervention snap \<noteq> InterventionEmpty"
  shows "seed_opened snap (replay_seed (Some snap) i ev) = replay_seed (Some snap) i ev"
  using assms by (cases snap) (simp add: seed_opened_def replay_seed_def Let_def)

lemma replay_first:
  assumes "legal_edge StateEmpty (ev_Type ev) (ev_ToState ev)" and "snapshot_fits snap ev"
  shows "replay_step (Some snap) (replay_seed (Some snap) i ev) ev
     = Inr (projected snap [ev] (ev_ToState ev))"
  using assms(1)
proof (cases rule: legal_edge.cases)
  case le_open
  let ?r = "snap\<lparr>ch_State := StateOpen, ch_JustificationHash := [], ch_UpdatedSequence := 0,
     ch_RetryBudget := 1, ch_Stage2Decision := DecisionBlock\<rparr>"
  have prep: "prepared snap ev (replay_seed (Some snap) i ev) = replay_seed (Some snap) i ev"
    using le_open assms(2) by (simp add: prepared_def seed_opened_noop snapshot_fits_def)
  have at: "ch_CreatedAt snap = 0 \<Longrightarrow> snap\<lparr>ch_State := a, ch_JustificationHash := b, ch_UpdatedSequence := c,
     ch_RetryBudget := d, ch_Stage2Decision := e, ch_CreatedAt := 0\<rparr> =
     snap\<lparr>ch_State := a, ch_JustificationHash := b, ch_UpdatedSequence := c,
     ch_RetryBudget := d, ch_Stage2Decision := e\<rparr>" for a b c d e by (cases snap) simp
  have "apply_type (replay_seed (Some snap) i ev) ev (ev_Type ev) = Some ?r"
    using le_open assms(2) by (auto simp: replay_seed_def Let_def snapshot_fits_def at)
  from ApplyEvent_projects [OF this] have
    "ApplyEvent (prepared snap ev (replay_seed (Some snap) i ev)) ev =
       (?r\<lparr>ch_UpdatedSequence := ev_Sequence ev, ch_UpdatedAt := ev_At ev,
        ch_ProviderCallAuditID := (if ev_ProviderCallAuditID ev \<noteq> [] then ev_ProviderCallAuditID ev
                                   else ch_ProviderCallAuditID ?r)\<rparr>, None)"
    unfolding prep by (simp add: replay_seed_def)
  from replay_step_projects [OF this] show ?thesis
    using le_open assms(2) by (cases snap) (simp add: projection_defs snapshot_fits_def)
next
  case le_open_hr
  let ?r = "snap\<lparr>ch_State := StateHumanReview, ch_JustificationHash := [], ch_UpdatedSequence := 0,
     ch_RetryBudget := 0, ch_Stage2Decision := DecisionBlock, ch_Intervention := InterventionHumanReview\<rparr>"
  have prep: "prepared snap ev (replay_seed (Some snap) i ev) = replay_seed (Some snap) i ev"
    using le_open_hr by (simp add: prepared_def)
  have "apply_type (replay_seed (Some snap) i ev) ev (ev_Type ev) = Some ?r"
    using le_open_hr by (simp add: replay_seed_def)
  from ApplyEvent_projects [OF this] have
    "ApplyEvent (prepared snap ev (replay_seed (Some snap) i ev)) ev =
       (?r\<lparr>ch_UpdatedSequence := ev_Sequence ev, ch_UpdatedAt := ev_At ev,
        ch_ProviderCallAuditID := (if ev_ProviderCallAuditID ev \<noteq> [] then ev_ProviderCallAuditID ev
                                   else ch_ProviderCallAuditID ?r)\<rparr>, None)"
    unfolding prep by (simp add: replay_seed_def)
  from replay_step_projects [OF this] show ?thesis
    using le_open_hr by (cases snap) (simp add: projection_defs)
qed simp_all

lemma count_type_zero: "count_type t evs = 0 \<longleftrightarrow> \<not> has_type t evs"
  by (induction evs) auto

lemma count_type_one: "count_type t evs = 1 \<Longrightarrow> has_type t evs"
  using count_type_zero [of t evs] by auto

lemma path_types:
  assumes "legal_path StateEmpty evs st"
  shows "st \<noteq> StateAllowedOnce \<Longrightarrow> \<not> has_type EvAllowedOnce evs"
    and "st \<in> {StateEmpty, StateOpen} \<Longrightarrow> \<not> has_type EvJustified evs"
    and "st \<in> {StateEmpty, StateOpen, StateJustified} \<Longrightarrow> \<not> has_type EvBudgetConsumed evs"
    and "st \<in> {StateJustified, StateRetryPending, StateAllowedOnce} \<Longrightarrow> has_type EvJustified evs"
    and "st \<in> {StateRetryPending, StateAllowedOnce} \<Longrightarrow> has_type EvBudgetConsumed evs"
    and "st \<in> {StateOpen, StateJustified, StateRetryPending, StateAllowedOnce} \<Longrightarrow> has_type EvOpened evs"
proof -
  note shape = legal_path_shape [OF assms refl, unfolded path_shape_def]
  show "st \<noteq> StateAllowedOnce \<Longrightarrow> \<not> has_type EvAllowedOnce evs"
    using shape by (simp only: count_type_zero [symmetric] if_False)
  show "st \<in> {StateEmpty, StateOpen} \<Longrightarrow> \<not> has_type EvJustified evs"
    using shape by (simp only: count_type_zero [symmetric])
  show "st \<in> {StateEmpty, StateOpen, StateJustified} \<Longrightarrow> \<not> has_type EvBudgetConsumed evs"
    using shape by (simp only: count_type_zero [symmetric])
  show "st \<in> {StateJustified, StateRetryPending, StateAllowedOnce} \<Longrightarrow> has_type EvJustified evs"
    using shape count_type_one by blast
  show "st \<in> {StateRetryPending, StateAllowedOnce} \<Longrightarrow> has_type EvBudgetConsumed evs"
    using shape count_type_one by blast
  show "st \<in> {StateOpen, StateJustified, StateRetryPending, StateAllowedOnce} \<Longrightarrow> has_type EvOpened evs"
    using shape count_type_one by blast
qed

lemma replay_next_via:
  fixes snap evs st ev
  defines "r0 \<equiv> prepared snap ev (projected snap evs st)"
  defines "r \<equiv> the (apply_type r0 ev (ev_Type ev))"
  assumes some: "apply_type r0 ev (ev_Type ev) \<noteq> None" and state: "ch_State r0 \<noteq> ev_ToState ev"
    and opd: "ch_OperationDigest r = ch_OperationDigest snap"
    and old: "ch_ConsumedRetryKey r = ch_ConsumedRetryKey snap"
    and new: "r\<lparr>ch_UpdatedSequence := ev_Sequence ev, ch_UpdatedAt := ev_At ev,
        ch_ProviderCallAuditID := (if ev_ProviderCallAuditID ev \<noteq> [] then ev_ProviderCallAuditID ev
                                   else ch_ProviderCallAuditID r),
        ch_ConsumedRetryKey := replay_key snap (evs @ [ev])\<rparr> = projected snap (evs @ [ev]) (ev_ToState ev)"
  shows "replay_step (Some snap) (projected snap evs st) ev = Inr (projected snap (evs @ [ev]) (ev_ToState ev))"
proof -
  have key: "replay_key snap (evs @ [ev]) = (if verdict_event ev \<and> ev_PayloadHash ev \<noteq> []
      then ev_PayloadHash ev else ch_ConsumedRetryKey snap)"
    by (simp add: replay_key_def)
  from some have "apply_type r0 ev (ev_Type ev) = Some r" by (auto simp: r_def)
  from replay_step_projects [OF ApplyEvent_projects [OF this disjI2 [OF state], unfolded r0_def]] opd old
  show ?thesis unfolding new [symmetric] key by simp
qed

lemma audit_after_snoc:
  "audit_after a (evs @ [ev]) = (if ev_ProviderCallAuditID ev \<noteq> [] then ev_ProviderCallAuditID ev else audit_after a evs)"
  by (simp add: audit_after_def)

lemma intervention_after_snoc:
  "intervention_after i (evs @ [ev]) =
     (if ev_Type ev = EvAllowedOnce then InterventionNone
      else if ev_Type ev = EvHumanReview \<and> \<not> has_type EvAllowedOnce evs then InterventionHumanReview
      else intervention_after i evs)"
  by (auto simp: intervention_after_def)

lemmas after_snoc = audit_after_snoc intervention_after_snoc

lemma replay_next:
  assumes path: "legal_path StateEmpty evs st" and "evs \<noteq> []"
    and edge: "legal_edge st (ev_Type ev) (ev_ToState ev)"
  shows "replay_step (Some snap) (projected snap evs st) ev = Inr (projected snap (evs @ [ev]) (ev_ToState ev))"
proof -
  have nonterm: "\<not> isTerminal st" using edge by (rule legal_edge_not_terminal)
  have key: "replay_key snap evs = ch_ConsumedRetryKey snap"
    using legal_path_last(2) [OF path \<open>evs \<noteq> []\<close> nonterm] by (simp add: replay_key_def)
  have st: "st \<in> {StateOpen, StateJustified, StateRetryPending}"
    using edge legal_path_shape [OF path refl] \<open>evs \<noteq> []\<close>
    by (cases rule: legal_edge.cases) (auto simp: path_shape_def)
  have notopen: "ev_Type ev \<noteq> EvOpened" using edge st by (auto elim: legal_edgeE)
  have opened: "has_type EvOpened evs" using path_types(6) [OF path] st by blast
  have noallow: "\<not> has_type EvAllowedOnce evs" using path_types(1) [OF path] st by auto
  have state: "ch_State (prepared snap ev (projected snap evs st)) \<noteq> ev_ToState ev"
    using legal_edge_target [OF edge] notopen by (simp add: prepared_def projected_def)
  note facts = prepared_def projected_def after_snoc budget_after_def decision_after_def opened noallow key
  from edge show ?thesis
  proof (cases rule: legal_edge.cases)
    case le_justify
    with path_types(3) [OF path] show ?thesis
      by (intro replay_next_via [OF _ state] challenge.equality)
        (simp_all add: facts split del: if_split cong del: if_weak_cong)
  next
    case le_budget
    with path_types(3,4) [OF path] show ?thesis
      by (intro replay_next_via [OF _ state] challenge.equality)
        (simp_all add: facts split del: if_split cong del: if_weak_cong)
  next
    case le_hr
    with path_types(4,5) [OF path] show ?thesis
      by (intro replay_next_via [OF _ state] challenge.equality)
        (simp_all add: facts split del: if_split cong del: if_weak_cong)
  next
    case le_allow
    with path_types(4,5) [OF path] show ?thesis
      by (intro replay_next_via [OF _ state] challenge.equality)
        (simp_all add: facts split del: if_split cong del: if_weak_cong)
  next
    case le_reject
    show ?thesis
      by (intro replay_next_via [OF _ state] challenge.equality)
        (simp_all add: facts le_reject split del: if_split cong del: if_weak_cong)
  next
    case le_expire
    show ?thesis
      by (intro replay_next_via [OF _ state] challenge.equality)
        (simp_all add: facts le_expire split del: if_split cong del: if_weak_cong)
  next
    case le_abandon
    show ?thesis
      by (intro replay_next_via [OF _ state] challenge.equality)
        (simp_all add: facts le_abandon split del: if_split cong del: if_weak_cong)
  qed (use st in auto)
qed

text \<open>Replaying a legal path from its own snapshot yields the projection of the path.\<close>

lemma replay_legal_path:
  assumes "legal_path st0 evs st" and "st0 = StateEmpty" and "evs \<noteq> []"
    and "snapshot_fits snap (hd evs)"
  shows "replay_all (Some snap) (replay_seed (Some snap) i (hd evs)) evs = Inr (projected snap evs st)"
  using assms
proof (induction rule: legal_path.induct)
  case (lp_Nil st)
  then show ?case by simp
next
  case (lp_snoc st0 evs st1 ev)
  show ?case
  proof (cases "evs = []")
    case True
    with lp_snoc.hyps(1) have "st1 = StateEmpty" using lp_snoc.prems(1) by (cases rule: legal_path.cases) auto
    with True lp_snoc.hyps(3) lp_snoc.prems(3) show ?thesis by (simp add: replay_first)
  next
    case False
    with lp_snoc have "replay_all (Some snap) (replay_seed (Some snap) i (hd (evs @ [ev]))) evs = Inr (projected snap evs st1)"
      by simp
    with replay_next [of evs st1 ev snap] lp_snoc False show ?thesis by (simp add: replay_all_snoc)
  qed
qed

section \<open>The store invariant\<close>

text \<open>The live value of the consumed retry key: the payload of the event that ended an evaluation.\<close>

definition live_key :: "event list \<Rightarrow> string" where
  "live_key evs =
     (if verdict_event (last evs) \<and> ev_FromState (last evs) = StateRetryPending
      then ev_PayloadHash (last evs) else [])"

definition justified_hash_ok :: "event list \<Rightarrow> challenge \<Rightarrow> bool" where
  "justified_hash_ok evs r \<longleftrightarrow> (\<not> has_type EvJustified evs \<longrightarrow> ch_JustificationHash r = [])"

text \<open>A record is exactly what its own events say, and its immutable fields fit the first of them.\<close>

definition tracks :: "event list \<Rightarrow> challenge \<Rightarrow> bool" where
  "tracks evs r \<longleftrightarrow>
     evs \<noteq> [] \<and> legal_path StateEmpty evs (ch_State r) \<and> snapshot_fits r (hd evs)
   \<and> ch_UpdatedSequence r = ev_Sequence (last evs) \<and> ch_UpdatedAt r = ev_At (last evs)
   \<and> ch_Stage2Decision r = decision_after evs
   \<and> ch_Intervention r = intervention_after InterventionAppealableChallenge evs
   \<and> ch_RetryBudget r = budget_after evs \<and> justified_hash_ok evs r
   \<and> ch_ConsumedRetryKey r = live_key evs \<and> ch_ProviderCallAuditID r = audit_after [] evs"

lemma audit_after_cases:
  "audit_after a evs = (if audit_after [] evs = [] then a else audit_after [] evs)"
  by (induction evs rule: rev_induct) (auto simp: audit_after_def)

lemma tracks_projected:
  assumes "tracks evs r"
  shows "projected r evs (ch_State r) = r\<lparr>ch_ConsumedRetryKey := replay_key r evs\<rparr>"
  using assms audit_after_cases [of "audit_after [] evs" evs]
  by (intro challenge.equality)
    (simp_all add: projected_def tracks_def justified_hash_ok_def intervention_after_def)

lemma tracks_state: "tracks evs r \<Longrightarrow> ch_State r \<noteq> StateEmpty"
  using legal_path_shape [of StateEmpty evs "ch_State r"] by (auto simp: tracks_def path_shape_def)

lemma tracks_active: "tracks evs r \<Longrightarrow> is_active_state (ch_State r) \<longleftrightarrow> \<not> isTerminal (ch_State r)"
  using tracks_state [of evs r] by (cases "ch_State r") (auto simp: is_active_state_def isTerminal_def)

text \<open>One more legal event, with the mutable fields updated accordingly.\<close>

lemma tracks_snoc:
  assumes "tracks evs r" and "legal_edge (ch_State r) (ev_Type ev) (ev_ToState ev)"
    and "ev_FromState ev = ch_State r" and "ch_State r' = ev_ToState ev"
    and "ch_UpdatedSequence r' = ev_Sequence ev" "ch_UpdatedAt r' = ev_At ev"
    and "ch_Stage2Decision r' = decision_after (evs @ [ev])"
    and "ch_Intervention r' = intervention_after InterventionAppealableChallenge (evs @ [ev])"
    and "ch_RetryBudget r' = budget_after (evs @ [ev])" and "justified_hash_ok (evs @ [ev]) r'"
    and "ch_ConsumedRetryKey r' = live_key (evs @ [ev])"
    and "ch_ProviderCallAuditID r' = audit_after [] (evs @ [ev])"
    and "ch_CreatedAt r' = ch_CreatedAt r" "ch_CreatedSequence r' = ch_CreatedSequence r"
    and "ch_RetryBudgetInitial r' = ch_RetryBudgetInitial r"
  shows "tracks (evs @ [ev]) r'"
proof -
  have "legal_path StateEmpty (evs @ [ev]) (ev_ToState ev)"
    using assms by (intro lp_snoc) (auto simp: tracks_def)
  then show ?thesis using assms
    by (simp add: tracks_def snapshot_fits_def intervention_after_def)
qed

definition single_active :: "store \<Rightarrow> bool" where
  "single_active s \<longleftrightarrow>
     (\<forall>i j ri rj. gm_get (st_byID s) i = Some ri \<longrightarrow> gm_get (st_byID s) j = Some rj
        \<longrightarrow> ch_SessionID ri = ch_SessionID rj \<longrightarrow> ch_ActionFingerprint ri = ch_ActionFingerprint rj
        \<longrightarrow> \<not> isTerminal (ch_State ri) \<longrightarrow> \<not> isTerminal (ch_State rj) \<longrightarrow> i = j)"

definition log_ordered :: "store \<Rightarrow> bool" where
  "log_ordered s \<longleftrightarrow> 0 \<le> st_seq s \<and> sorted_wrt (<) (map ev_Sequence (st_events s))
     \<and> (\<forall>e \<in> set (st_events s). 0 < ev_Sequence e \<and> ev_Sequence e \<le> st_seq s)"

definition records_track :: "store \<Rightarrow> bool" where
  "records_track s \<longleftrightarrow>
     (\<forall>i r. gm_get (st_byID s) i = Some r \<longrightarrow> ch_ChallengeID r = i \<and> tracks (Events s i) r)
   \<and> (\<forall>i. gm_get (st_byID s) i = None \<longrightarrow> Events s i = [])"

definition marks_bounded :: "store \<Rightarrow> bool" where
  "marks_bounded s \<longleftrightarrow> (\<forall>k e. gm_get (st_nonAppealBarrier s) k = Some e \<longrightarrow> be_MarkSeq e \<le> st_seq s)"

definition store_inv :: "store \<Rightarrow> bool" where
  "store_inv s \<longleftrightarrow> distinct (gm_keys (st_byID s)) \<and> distinct (gm_keys (st_nonAppealBarrier s))
     \<and> records_track s \<and> log_ordered s \<and> single_active s \<and> marks_bounded s"

lemma store_inv_New: "store_inv NewStore"
  by (simp add: store_inv_def marks_bounded_def NewStore_def gm_keys_def records_track_def log_ordered_def
      single_active_def Events_def)

lemma store_invD:
  assumes "store_inv s" and "gm_get (st_byID s) i = Some r"
  shows "ch_ChallengeID r = i" and "tracks (Events s i) r"
  using assms by (auto simp: store_inv_def records_track_def)

section \<open>Committing one event\<close>

definition no_conflict :: "store \<Rightarrow> challenge \<Rightarrow> bool" where
  "no_conflict s rec \<longleftrightarrow>
     (\<forall>i r. gm_get (st_byID s) i = Some r \<longrightarrow> i \<noteq> ch_ChallengeID rec
        \<longrightarrow> ch_SessionID r = ch_SessionID rec \<longrightarrow> ch_ActionFingerprint r = ch_ActionFingerprint rec
        \<longrightarrow> isTerminal (ch_State r))"

lemma put_conflicts_none:
  assumes "distinct (gm_keys (st_byID s))" and "no_conflict s rec"
  shows "put_conflicts (s\<lparr>st_events := es, st_byID := gm_put (ch_ChallengeID rec) rec (st_byID s),
           st_justifications := js\<rparr>) rec = []"
proof -
  let ?m = "gm_put (ch_ChallengeID rec) rec (st_byID s)"
  have "distinct (map fst ?m)" using gm_distinct_put [OF assms(1)] by (simp add: gm_keys_def)
  then have "gm_get ?m i = Some r" if "(i, r) \<in> set ?m" for i r using that by (rule map_of_is_SomeI)
  then show ?thesis
    using assms(2) by (fastforce simp: put_conflicts_def filter_empty_conv no_conflict_def split: if_splits)
qed

lemma putLocked_fields:
  assumes "distinct (gm_keys (st_byID s))" and "is_active_state (ch_State rec) \<longrightarrow> no_conflict s rec"
  shows "st_byID (putLocked rec ev just s) = gm_put (ch_ChallengeID rec) rec (st_byID s)"
    and "st_events (putLocked rec ev just s) = st_events s @ [ev]"
    and "st_seq (putLocked rec ev just s) = st_seq s"
    and "st_nonAppealBarrier (putLocked rec ev just s) = st_nonAppealBarrier s"
    and "st_terminalCh (putLocked rec ev just s) = st_terminalCh s"
    and "st_idSeq (putLocked rec ev just s) = st_idSeq s"
  using put_conflicts_none [OF assms(1)] assms(2) by (auto simp: putLocked_def Let_def)

lemma Events_put:
  assumes "st_events s' = st_events s @ [ev]"
  shows "Events s' i = Events s i @ (if ev_ChallengeID ev = i then [ev] else [])"
  using assms by (simp add: Events_def)

lemma putLocked_inv:
  assumes inv: "store_inv s" and conf: "is_active_state (ch_State rec) \<longrightarrow> no_conflict s rec"
    and ev: "ev_ChallengeID ev = ch_ChallengeID rec"
    and seq: "0 < ev_Sequence ev" "ev_Sequence ev \<le> st_seq s" "\<forall>e \<in> set (st_events s). ev_Sequence e < ev_Sequence ev"
    and tracks: "tracks (Events s (ch_ChallengeID rec) @ [ev]) rec"
  shows "store_inv (putLocked rec ev just s)"
proof -
  let ?s' = "putLocked rec ev just s"
  have dist: "distinct (gm_keys (st_byID s))" using inv by (simp add: store_inv_def)
  note f = putLocked_fields [OF dist conf]
  have "records_track ?s'"
    using inv ev tracks unfolding records_track_def store_inv_def Events_put [OF f(2)] f(1) by auto
  moreover have "log_ordered ?s'"
    using inv seq by (auto simp: log_ordered_def store_inv_def f sorted_wrt_append)
  moreover have "single_active ?s'"
  proof (cases "isTerminal (ch_State rec)")
    case True
    with inv show ?thesis unfolding single_active_def store_inv_def f(1) gm_get_put by (metis option.inject)
  next
    case False
    then have "no_conflict s rec" using conf tracks_active [OF tracks] by simp
    with inv show ?thesis
      unfolding single_active_def store_inv_def f(1) gm_get_put no_conflict_def by (metis option.inject)
  qed
  ultimately show ?thesis using inv dist by (simp add: store_inv_def marks_bounded_def f)
qed

section \<open>How a store may evolve\<close>

text \<open>The fields of a record that no operation changes after it was inserted.\<close>

definition identity_of :: "challenge \<Rightarrow> challenge" where
  "identity_of r = r\<lparr>ch_State := StateEmpty, ch_UpdatedSequence := 0, ch_UpdatedAt := 0,
     ch_Stage2Decision := DecisionEmpty, ch_Intervention := InterventionEmpty, ch_RetryBudget := 0,
     ch_JustificationHash := [], ch_ConsumedRetryKey := [], ch_ProviderCallAuditID := []\<rparr>"

lemma identity_of_fields:
  assumes "identity_of a = identity_of b"
  shows "ch_ChallengeID a = ch_ChallengeID b" "ch_SessionID a = ch_SessionID b"
    "ch_ActionFingerprint a = ch_ActionFingerprint b" "ch_BlockClass a = ch_BlockClass b"
    "ch_CreatedAt a = ch_CreatedAt b" "ch_CreatedSequence a = ch_CreatedSequence b"
    "ch_RetryBudgetInitial a = ch_RetryBudgetInitial b" "ch_ExpiresAtSequence a = ch_ExpiresAtSequence b"
proof -
  have "ch_ChallengeID (identity_of r) = ch_ChallengeID r" "ch_SessionID (identity_of r) = ch_SessionID r"
    "ch_ActionFingerprint (identity_of r) = ch_ActionFingerprint r" "ch_BlockClass (identity_of r) = ch_BlockClass r"
    "ch_CreatedAt (identity_of r) = ch_CreatedAt r" "ch_CreatedSequence (identity_of r) = ch_CreatedSequence r"
    "ch_RetryBudgetInitial (identity_of r) = ch_RetryBudgetInitial r"
    "ch_ExpiresAtSequence (identity_of r) = ch_ExpiresAtSequence r" for r
    by (simp_all add: identity_of_def)
  with assms show "ch_ChallengeID a = ch_ChallengeID b" "ch_SessionID a = ch_SessionID b"
    "ch_ActionFingerprint a = ch_ActionFingerprint b" "ch_BlockClass a = ch_BlockClass b"
    "ch_CreatedAt a = ch_CreatedAt b" "ch_CreatedSequence a = ch_CreatedSequence b"
    "ch_RetryBudgetInitial a = ch_RetryBudgetInitial b" "ch_ExpiresAtSequence a = ch_ExpiresAtSequence b"
    by metis+
qed

definition store_ext :: "store \<Rightarrow> store \<Rightarrow> bool" where
  "store_ext s s' \<longleftrightarrow>
     (\<exists>es. st_events s' = st_events s @ es) \<and> st_seq s \<le> st_seq s'
   \<and> (\<forall>i r. gm_get (st_byID s) i = Some r \<longrightarrow>
        (\<exists>r'. gm_get (st_byID s') i = Some r' \<and> identity_of r' = identity_of r
              \<and> (isTerminal (ch_State r) \<longrightarrow> r' = r)))
   \<and> (\<forall>k e. gm_get (st_nonAppealBarrier s) k = Some e \<longrightarrow>
        (\<exists>e'. gm_get (st_nonAppealBarrier s') k = Some e' \<and> be_MarkSeq e \<le> be_MarkSeq e'))"

lemma store_ext_refl: "store_ext s s"
  by (simp add: store_ext_def)

lemma store_ext_record:
  assumes "store_ext s s'" and "gm_get (st_byID s) i = Some r"
  obtains r' where "gm_get (st_byID s') i = Some r'" "identity_of r' = identity_of r"
    "isTerminal (ch_State r) \<longrightarrow> r' = r"
  using assms unfolding store_ext_def by blast

lemma store_ext_trans:
  assumes "store_ext a b" and "store_ext b c"
  shows "store_ext a c"
  unfolding store_ext_def
proof (intro conjI allI impI)
  show "\<exists>es. st_events c = st_events a @ es" and "st_seq a \<le> st_seq c"
    using assms by (auto simp: store_ext_def)
next
  fix i r assume "gm_get (st_byID a) i = Some r"
  then obtain r' where r': "gm_get (st_byID b) i = Some r'" "identity_of r' = identity_of r"
    "isTerminal (ch_State r) \<longrightarrow> r' = r" by (rule store_ext_record [OF assms(1)])
  moreover from r'(1) obtain r'' where "gm_get (st_byID c) i = Some r''" "identity_of r'' = identity_of r'"
    "isTerminal (ch_State r') \<longrightarrow> r'' = r'" by (rule store_ext_record [OF assms(2)])
  ultimately show "\<exists>r'. gm_get (st_byID c) i = Some r' \<and> identity_of r' = identity_of r
    \<and> (isTerminal (ch_State r) \<longrightarrow> r' = r)" by auto
next
  fix k e assume "gm_get (st_nonAppealBarrier a) k = Some e"
  with assms show "\<exists>e'. gm_get (st_nonAppealBarrier c) k = Some e' \<and> be_MarkSeq e \<le> be_MarkSeq e'"
    unfolding store_ext_def by (meson order_trans)
qed

definition evolves :: "store \<Rightarrow> store \<Rightarrow> bool" where
  "evolves s s' \<longleftrightarrow> store_inv s' \<and> store_ext s s'"

lemma evolves_refl: "store_inv s \<Longrightarrow> evolves s s"
  by (simp add: evolves_def store_ext_refl)

lemma evolves_trans: "evolves a b \<Longrightarrow> evolves b c \<Longrightarrow> evolves a c"
  using store_ext_trans by (auto simp: evolves_def)

lemma evolves_inv: "evolves s s' \<Longrightarrow> store_inv s'"
  by (simp add: evolves_def)

text \<open>Committing an event for a record that exists.\<close>

lemma put_ext:
  assumes "store_inv s" and "is_active_state (ch_State rec) \<longrightarrow> no_conflict s rec"
    and "\<And>old. gm_get (st_byID s) (ch_ChallengeID rec) = Some old \<Longrightarrow>
           identity_of rec = identity_of old \<and> \<not> isTerminal (ch_State old)"
  shows "store_ext s (putLocked rec ev just s)"
proof -
  have dist: "distinct (gm_keys (st_byID s))" using assms(1) by (simp add: store_inv_def)
  show ?thesis
    using assms(3) by (auto simp: store_ext_def putLocked_fields [OF dist assms(2)])
qed

lemma tick_inv:
  assumes "store_inv s"
  shows "store_inv (s\<lparr>st_seq := st_seq s + 1\<rparr>)" and "store_ext s (s\<lparr>st_seq := st_seq s + 1\<rparr>)"
  using assms
  by (fastforce simp: store_inv_def records_track_def Events_def log_ordered_def single_active_def
      marks_bounded_def store_ext_def)+

lemma transition_step:
  fixes just :: "justification option" and rec :: challenge and t :: transition and s :: store
  assumes inv: "store_inv s" and old: "gm_get (st_byID s) i = Some old"
    and same: "identity_of rec = identity_of old"
    and edge: "legal_edge (ch_State old) (tr_typ t) (tr_to t)"
    and tracks: "tracks (Events s i @ [transition_event rec t (st_seq s + 1)]) (transition_rec rec t (st_seq s + 1))"
  defines "s' \<equiv> snd (appendTransitionAudit rec t just s)"
  shows "evolves s s'"
    and "st_byID s' = gm_put i (transition_rec rec t (st_seq s + 1)) (st_byID s)"
    and "st_events s' = st_events s @ [transition_event rec t (st_seq s + 1)]"
    and "st_seq s' = st_seq s + 1" and "st_terminalCh s' = st_terminalCh s"
    and "st_nonAppealBarrier s' = st_nonAppealBarrier s"
proof -
  let ?s1 = "s\<lparr>st_seq := st_seq s + 1\<rparr>"
  let ?rec = "transition_rec rec t (st_seq s + 1)"
  let ?ev = "transition_event rec t (st_seq s + 1)"
  have id: "ch_ChallengeID ?rec = i" "identity_of ?rec = identity_of old"
    using store_invD(1) [OF inv old] identity_of_fields(1) [OF same] same
    by (simp_all add: transition_rec_def Let_def identity_of_def)
  have ev: "transition_event ?rec t (st_seq s + 1) = ?ev"
    by (simp add: transition_event_def transition_rec_def Let_def)
  have s': "s' = putLocked ?rec ?ev just ?s1"
    by (simp add: s'_def appendTransitionAudit_def nextSeqLocked_def Let_def ev)
  have inv1: "store_inv ?s1" using tick_inv [OF inv] by simp
  have conf: "is_active_state (ch_State ?rec) \<longrightarrow> no_conflict ?s1 ?rec"
  proof
    assume "is_active_state (ch_State ?rec)"
    then have "\<not> isTerminal (ch_State old)" using legal_edge_not_terminal [OF edge] by simp
    then show "no_conflict ?s1 ?rec"
      using inv old id(1) identity_of_fields [OF id(2)]
      unfolding no_conflict_def store_inv_def single_active_def by (simp, metis)
  qed
  have "store_inv s'" unfolding s'
  proof (rule putLocked_inv [OF inv1 conf])
    show "ev_ChallengeID ?ev = ch_ChallengeID ?rec"
      by (simp add: transition_event_def transition_rec_def Let_def)
    show "0 < ev_Sequence ?ev" "ev_Sequence ?ev \<le> st_seq ?s1"
      "\<forall>e \<in> set (st_events ?s1). ev_Sequence e < ev_Sequence ?ev"
      using inv by (auto simp: transition_event_def store_inv_def log_ordered_def)
    show "tracks (Events ?s1 (ch_ChallengeID ?rec) @ [?ev]) ?rec"
      using tracks id(1) by (simp add: Events_def)
  qed
  moreover have "store_ext ?s1 s'"
    unfolding s' using put_ext [OF inv1 conf] id old legal_edge_not_terminal [OF edge] by simp
  ultimately show "evolves s s'" using tick_inv(2) [OF inv] store_ext_trans by (auto simp: evolves_def)
  have "distinct (gm_keys (st_byID ?s1))" using inv1 by (simp add: store_inv_def)
  note f = putLocked_fields [OF this conf, of ?ev just, folded s', unfolded id(1)]
  show "st_byID s' = gm_put i ?rec (st_byID s)" "st_events s' = st_events s @ [?ev]"
    "st_seq s' = st_seq s + 1" "st_terminalCh s' = st_terminalCh s"
    "st_nonAppealBarrier s' = st_nonAppealBarrier s"
    using f by simp_all
qed

section \<open>The transitions of the service\<close>

lemma identity_transition: "identity_of (transition_rec rec t q) = identity_of rec"
  by (simp add: transition_rec_def identity_of_def Let_def)

lemma transition_rec_fields [simp]:
  "ch_State (transition_rec rec t q) = tr_to t" "ch_UpdatedSequence (transition_rec rec t q) = q"
  "ch_UpdatedAt (transition_rec rec t q) = tr_at t"
  "ch_Stage2Decision (transition_rec rec t q) = ch_Stage2Decision rec"
  "ch_Intervention (transition_rec rec t q) = ch_Intervention rec"
  "ch_RetryBudget (transition_rec rec t q) = ch_RetryBudget rec"
  "ch_RetryBudgetInitial (transition_rec rec t q) = ch_RetryBudgetInitial rec"
  "ch_JustificationHash (transition_rec rec t q) = ch_JustificationHash rec"
  "ch_ConsumedRetryKey (transition_rec rec t q) = ch_ConsumedRetryKey rec"
  "ch_CreatedAt (transition_rec rec t q) = ch_CreatedAt rec"
  "ch_CreatedSequence (transition_rec rec t q) = ch_CreatedSequence rec"
  "ch_ChallengeID (transition_rec rec t q) = ch_ChallengeID rec"
  "ch_ProviderCallAuditID (transition_rec rec t q) =
     (if tr_audit t \<noteq> [] then tr_audit t else ch_ProviderCallAuditID rec)"
  by (simp_all add: transition_rec_def Let_def)

lemma transition_event_fields [simp]:
  "ev_Type (transition_event rec t q) = tr_typ t" "ev_ToState (transition_event rec t q) = tr_to t"
  "ev_FromState (transition_event rec t q) = tr_from t" "ev_Sequence (transition_event rec t q) = q"
  "ev_At (transition_event rec t q) = tr_at t" "ev_PayloadHash (transition_event rec t q) = tr_payloadHash t"
  "ev_ProviderCallAuditID (transition_event rec t q) = tr_audit t"
  "ev_ChallengeID (transition_event rec t q) = ch_ChallengeID rec"
  by (simp_all add: transition_event_def)

text \<open>The record that the service hands to \<open>appendTransition\<close>, per kind of transition.\<close>

definition staged :: "challenge \<Rightarrow> transition \<Rightarrow> challenge \<Rightarrow> bool" where
  "staged old t rec \<longleftrightarrow>
     tr_from t = ch_State old \<and> legal_edge (ch_State old) (tr_typ t) (tr_to t)
   \<and> identity_of rec = identity_of old \<and> ch_ProviderCallAuditID rec = ch_ProviderCallAuditID old
   \<and> (tr_typ t \<noteq> EvJustified \<longrightarrow> ch_JustificationHash rec = ch_JustificationHash old)
   \<and> ch_Stage2Decision rec = (if tr_typ t = EvAllowedOnce then DecisionAllow else DecisionBlock)
   \<and> ch_Intervention rec = (if tr_typ t = EvAllowedOnce then InterventionNone
        else if tr_typ t = EvHumanReview then InterventionHumanReview else ch_Intervention old)
   \<and> ch_RetryBudget rec = (if tr_typ t = EvBudgetConsumed then ch_RetryBudget old - 1 else ch_RetryBudget old)
   \<and> ch_ConsumedRetryKey rec =
       (if tr_from t = StateRetryPending \<and> tr_typ t \<in> {EvAllowedOnce, EvRejected, EvHumanReview}
        then tr_payloadHash t else [])"

lemma tracks_nonterminal:
  assumes "tracks evs r" and "\<not> isTerminal (ch_State r)"
  shows "has_type EvOpened evs" "\<not> has_type EvAllowedOnce evs" "\<not> has_type EvHumanReview evs"
    "ch_ConsumedRetryKey r = []" "ch_Stage2Decision r = DecisionBlock"
    "ch_Intervention r = InterventionAppealableChallenge"
proof -
  have path: "legal_path StateEmpty evs (ch_State r)" and "evs \<noteq> []" using assms(1) by (auto simp: tracks_def)
  have st: "ch_State r \<in> {StateOpen, StateJustified, StateRetryPending}"
    using assms(2) tracks_state [OF assms(1)] by (cases "ch_State r") (auto simp: isTerminal_def)
  show "has_type EvOpened evs" using path_types(6) [OF path] st by blast
  show noallow: "\<not> has_type EvAllowedOnce evs" using path_types(1) [OF path] st by auto
  have "legal_path st0 es st \<Longrightarrow> \<not> isTerminal st \<Longrightarrow> \<not> has_type EvHumanReview es" for st0 es st
    by (induction rule: legal_path.induct)
      (auto dest: legal_edge_verdict legal_edge_not_terminal)
  from this [OF path assms(2)] show nohr: "\<not> has_type EvHumanReview evs" .
  show "ch_ConsumedRetryKey r = []"
    using legal_path_last(2) [OF path \<open>evs \<noteq> []\<close> assms(2)] assms(1) by (simp add: tracks_def live_key_def)
  show "ch_Stage2Decision r = DecisionBlock" "ch_Intervention r = InterventionAppealableChallenge"
    using assms(1) noallow nohr by (simp_all add: tracks_def decision_after_def intervention_after_def)
qed

lemma staged_tracks:
  assumes old: "tracks evs old" and st: "staged old t rec"
  shows "tracks (evs @ [transition_event rec t q]) (transition_rec rec t q)"
proof -
  have edge: "legal_edge (ch_State old) (tr_typ t) (tr_to t)" using st by (simp add: staged_def)
  note nt = tracks_nonterminal [OF old legal_edge_not_terminal [OF edge]]
  have path: "legal_path StateEmpty evs (ch_State old)" using old by (simp add: tracks_def)
  have budget: "ch_RetryBudget rec = budget_after (evs @ [transition_event rec t q])"
  proof (cases "tr_typ t = EvBudgetConsumed")
    case True
    with edge have "\<not> has_type EvBudgetConsumed evs"
      using path_types(3) [OF path] by (auto simp: legal_edge_simps)
    with True st old nt(1) show ?thesis by (simp add: staged_def tracks_def budget_after_def)
  next
    case False
    with st old nt(1) show ?thesis by (auto simp: staged_def tracks_def budget_after_def)
  qed
  note same = identity_of_fields [of rec old]
  show ?thesis
  proof (rule tracks_snoc [OF old])
    show "ch_Stage2Decision (transition_rec rec t q) = decision_after (evs @ [transition_event rec t q])"
      using st nt(2) by (simp add: staged_def decision_after_def)
    show "ch_Intervention (transition_rec rec t q)
        = intervention_after InterventionAppealableChallenge (evs @ [transition_event rec t q])"
      using st nt by (simp add: staged_def intervention_after_def)
    show "ch_ConsumedRetryKey (transition_rec rec t q) = live_key (evs @ [transition_event rec t q])"
      using st by (auto simp: staged_def live_key_def verdict_event_def)
    show "justified_hash_ok (evs @ [transition_event rec t q]) (transition_rec rec t q)"
      using st old by (auto simp: staged_def justified_hash_ok_def tracks_def)
    show "ch_ProviderCallAuditID (transition_rec rec t q) = audit_after [] (evs @ [transition_event rec t q])"
      using st old by (auto simp: staged_def audit_after_snoc tracks_def)
  qed (use st same budget in \<open>simp_all add: staged_def\<close>)
qed

lemma staged_step:
  fixes just :: "justification option" and rec :: challenge and t :: transition and s :: store
  assumes "store_inv s" and "gm_get (st_byID s) i = Some old" and "staged old t rec"
  defines "s' \<equiv> snd (appendTransitionAudit rec t just s)"
  shows "evolves s s'"
    and "st_byID s' = gm_put i (transition_rec rec t (st_seq s + 1)) (st_byID s)"
    and "st_events s' = st_events s @ [transition_event rec t (st_seq s + 1)]"
    and "st_seq s' = st_seq s + 1" and "st_terminalCh s' = st_terminalCh s"
    and "st_nonAppealBarrier s' = st_nonAppealBarrier s"
proof -
  have "identity_of rec = identity_of old" and "legal_edge (ch_State old) (tr_typ t) (tr_to t)"
    using assms(3) by (simp_all add: staged_def)
  note step = transition_step [OF assms(1,2) this
      staged_tracks [OF store_invD(2) [OF assms(1,2)] assms(3)], of just, folded s'_def]
  from step show "evolves s s'"
    "st_byID s' = gm_put i (transition_rec rec t (st_seq s + 1)) (st_byID s)"
    "st_events s' = st_events s @ [transition_event rec t (st_seq s + 1)]"
    "st_seq s' = st_seq s + 1" "st_terminalCh s' = st_terminalCh s"
    "st_nonAppealBarrier s' = st_nonAppealBarrier s" by simp_all
qed

lemma staged_unchanged:
  assumes "tracks evs old" and "\<not> isTerminal (ch_State old)"
    and "tr_from t = ch_State old" and "legal_edge (ch_State old) (tr_typ t) (tr_to t)"
    and "tr_typ t \<in> {EvExpired, EvAbandoned} \<or> tr_typ t = EvRejected \<and> ch_State old \<noteq> StateRetryPending"
  shows "staged old t old"
  using assms tracks_nonterminal [OF assms(1,2)] by (auto simp: staged_def)

section \<open>Insertions, marks and signals\<close>

lemma insert_step:
  assumes inv: "store_inv s" and new: "gm_get (st_byID s) (ch_ChallengeID rec) = None"
    and ev: "ev_ChallengeID ev = ch_ChallengeID rec" "ev_Sequence ev = st_seq s + 1"
    and tracks: "tracks [ev] rec" and conf: "is_active_state (ch_State rec) \<longrightarrow> no_conflict s rec"
  shows "evolves s (putLocked rec ev just (s\<lparr>st_seq := st_seq s + 1\<rparr>))"
proof -
  let ?s1 = "s\<lparr>st_seq := st_seq s + 1\<rparr>"
  have inv1: "store_inv ?s1" using tick_inv [OF inv] by simp
  have conf1: "is_active_state (ch_State rec) \<longrightarrow> no_conflict ?s1 rec" using conf by (simp add: no_conflict_def)
  have log: "\<forall>e \<in> set (st_events ?s1). ev_Sequence e < ev_Sequence ev" "0 < ev_Sequence ev"
    "ev_Sequence ev \<le> st_seq ?s1"
    using inv ev(2) by (auto simp: store_inv_def log_ordered_def)
  have "Events ?s1 (ch_ChallengeID rec) = []"
    using inv new by (simp add: store_inv_def records_track_def Events_def)
  with tracks have "store_inv (putLocked rec ev just ?s1)"
    by (intro putLocked_inv [OF inv1 conf1 ev(1) log(2,3,1)]) simp
  moreover have "store_ext ?s1 (putLocked rec ev just ?s1)"
    using new by (intro put_ext [OF inv1 conf1]) simp
  ultimately show ?thesis using tick_inv(2) [OF inv] store_ext_trans by (auto simp: evolves_def)
qed

text \<open>Changes of the id counter and of the terminal channels are invisible to the invariant.\<close>

definition same_core :: "store \<Rightarrow> store \<Rightarrow> bool" where
  "same_core s s' \<longleftrightarrow> st_seq s' = st_seq s \<and> st_events s' = st_events s \<and> st_byID s' = st_byID s
     \<and> st_nonAppealBarrier s' = st_nonAppealBarrier s"

lemma same_core_evolves:
  assumes "store_inv s" and "same_core s s'"
  shows "evolves s s'"
  using assms
  by (auto simp: same_core_def evolves_def store_inv_def store_ext_def records_track_def Events_def
      log_ordered_def single_active_def marks_bounded_def)

lemma signalTerminal_core [simp]: "same_core s (signalTerminal i s)"
  by (simp add: same_core_def signalTerminal_def)

lemma terminalWaitCh_core [simp]: "same_core s (terminalWaitCh i s)"
  by (simp add: same_core_def terminalWaitCh_def split: option.splits)

lemma newID_core [simp]: "same_core s (snd (newID std pre now s))"
  by (simp add: same_core_def newID_def Let_def)

lemma signalTerminal_fields [simp]:
  "st_byID (signalTerminal i s) = st_byID s" "st_seq (signalTerminal i s) = st_seq s"
  "st_events (signalTerminal i s) = st_events s"
  "st_nonAppealBarrier (signalTerminal i s) = st_nonAppealBarrier s"
  "gm_get (st_terminalCh (signalTerminal i s)) j =
     (if j = i \<and> i \<noteq> [] then Some True else gm_get (st_terminalCh s) j)"
  by (simp_all add: signalTerminal_def)

lemma mark_fields [simp]:
  "st_byID (markNonAppealBarrierLocked a b c d e f g h s) = st_byID s"
  "st_events (markNonAppealBarrierLocked a b c d e f g h s) = st_events s"
  "st_seq (markNonAppealBarrierLocked a b c d e f g h s) = st_seq s + 1"
  "st_terminalCh (markNonAppealBarrierLocked a b c d e f g h s) = st_terminalCh s"
  by (simp_all add: markNonAppealBarrierLocked_def)

lemma mark_evolves:
  assumes "store_inv s"
  shows "evolves s (markNonAppealBarrierLocked sid fp note pv rh side targets opd s)"
proof -
  let ?s' = "markNonAppealBarrierLocked sid fp note pv rh side targets opd s"
  have "store_inv ?s'"
    using assms
    by (fastforce simp: markNonAppealBarrierLocked_def store_inv_def records_track_def Events_def
        log_ordered_def single_active_def marks_bounded_def)
  moreover have "store_ext s ?s'"
    using assms
    by (fastforce simp: store_ext_def store_inv_def marks_bounded_def markNonAppealBarrierLocked_def)
  ultimately show ?thesis by (simp add: evolves_def)
qed

end
