(* ===== verification/ReEval.thy ===== *)
theory ReEval
  imports ChallengeStore
begin

text \<open>
  Re-evaluation of a justified retry (\<^verbatim>\<open>pkg/challenge/reeval.go\<close>): the deterministic pipeline
  hard rules, irreversibility, optional Stage 1 classifier, Stage 2 threshold and exceptions.
  The Stage 1 provider is a service outside the repository. It and the construction of its
  request are the parameter \<open>stage1\<close>; everything the pipeline decides from its answer is a
  definition. The theorems: the pipeline allows only through a validated low severity, an
  explicit exception or a named fail-open reason, and never for hard-denied or irreversible
  blocks or actions, whatever the justification says.
\<close>

section \<open>Context and results\<close>

record reeval_context =
  rc_HardBlock :: bool
  rc_Irreversible :: bool
  rc_HasProvider :: bool
  rc_Threshold :: int
  rc_UserException :: bool
  rc_RepoPolicyException :: bool
  rc_FlakyInvestigation :: bool
  rc_PolicyClass :: string
  rc_AllowLegacyFixtureIDs :: bool

definition empty_reeval_context :: reeval_context where
  "empty_reeval_context =
    \<lparr>rc_HardBlock = False, rc_Irreversible = False, rc_HasProvider = False, rc_Threshold = 0,
     rc_UserException = False, rc_RepoPolicyException = False, rc_FlakyInvestigation = False,
     rc_PolicyClass = [], rc_AllowLegacyFixtureIDs = False\<rparr>"

record reeval_result =
  re_Stage2Decision :: decision
  re_Intervention :: intervention
  re_Reason :: string
  re_RawSeverity :: int
  re_ProviderCall :: "string option"

datatype provider_error = ContextErr | ProviderErr string | OtherErr

record raw_assessment =
  ra_ParseStatus :: string
  ra_Severity :: int

text \<open>
  The provider side: \<open>s1_NewRequest\<close> is \<open>NewProviderRequest\<close> or its fixture variant on the packet
  built from the record, the action, the justification and the context (\<open>None\<close> is an error),
  \<open>s1_Assess\<close> is the remote call, \<open>s1_Validate\<close> the request-bound validation of its result, and
  \<open>s1_AuditJSON\<close> the bytes of the closed provider-call audit (empty when it has no bounded form).
\<close>

record 'q stage1 =
  s1_NewRequest :: "bool \<Rightarrow> challenge \<Rightarrow> proposed_action \<Rightarrow> justification \<Rightarrow> reeval_context \<Rightarrow> 'q option"
  s1_Assess :: "'q \<Rightarrow> raw_assessment \<times> provider_error option"
  s1_Validate :: "'q \<Rightarrow> raw_assessment \<Rightarrow> provider_error option"
  s1_AuditJSON :: "'q \<Rightarrow> raw_assessment \<Rightarrow> provider_error option \<Rightarrow> string"

abbreviation ParseStatusOK :: string where "ParseStatusOK \<equiv> ''ok''"

definition plain_result :: "decision \<Rightarrow> intervention \<Rightarrow> string \<Rightarrow> string option \<Rightarrow> reeval_result" where
  "plain_result d i reason call =
     \<lparr>re_Stage2Decision = d, re_Intervention = i, re_Reason = reason, re_RawSeverity = 0, re_ProviderCall = call\<rparr>"

text \<open>The matrix that every soft failure of Stage 1 goes through: SECURITY closes, PRODUCTIVITY opens.\<close>

definition fail_matrix :: "string \<Rightarrow> string \<Rightarrow> string option \<Rightarrow> reeval_result" where
  "fail_matrix policyClass stem call =
     (if policyClass = PolicyClassSecurity
      then plain_result DecisionBlock InterventionEmpty (stem @ ''_fail_closed'') call
      else plain_result DecisionAllow InterventionEmpty (stem @ ''_fail_open'') call)"

section \<open>The pipeline\<close>

definition normalize_context :: "challenge \<Rightarrow> reeval_context option \<Rightarrow> reeval_context" where
  "normalize_context rec cin0 =
     (let c0 = (case cin0 of None \<Rightarrow> empty_reeval_context | Some c \<Rightarrow> c);
          c1 = (if rc_PolicyClass c0 = [] then c0\<lparr>rc_PolicyClass := ch_PolicyClass rec\<rparr> else c0);
          c2 = c1\<lparr>rc_PolicyClass := NormalizePolicyClass (rc_PolicyClass c1)\<rparr>
      in if rc_Threshold c2 \<le> 0 then c2\<lparr>rc_Threshold := 50\<rparr> else c2)"

definition threshold_decision :: "reeval_context \<Rightarrow> int \<Rightarrow> decision \<times> string" where
  "threshold_decision cin severity =
     (if severity \<ge> rc_Threshold cin
      then (if rc_UserException cin then (DecisionAllow, ''user_exception'')
            else if rc_RepoPolicyException cin then (DecisionAllow, ''repo_policy_exception'')
            else if rc_FlakyInvestigation cin then (DecisionAllow, ''flaky_investigation'')
            else (DecisionBlock, ''above_threshold''))
      else (DecisionAllow, ''below_threshold''))"

definition stage1_assess ::
  "'q stage1 \<Rightarrow> 'q \<Rightarrow> raw_assessment \<times> provider_error option" where
  "stage1_assess st1 preq =
     (case s1_Assess st1 preq of
        (pres, Some err) \<Rightarrow> (pres, Some err)
      | (pres, None) \<Rightarrow> (pres, s1_Validate st1 preq pres))"

definition provider_eval ::
  "'q stage1 \<Rightarrow> challenge \<Rightarrow> proposed_action \<Rightarrow> justification \<Rightarrow> reeval_context
   \<Rightarrow> reeval_result \<times> provider_error option" where
  "provider_eval st1 rec proposed just cin =
     (case s1_NewRequest st1 (rc_AllowLegacyFixtureIDs cin) rec proposed just cin of
        None \<Rightarrow> (fail_matrix (rc_PolicyClass cin) ''provider'' None, None)
      | Some preq \<Rightarrow>
          (let (raw, err) = stage1_assess st1 preq;
               call = Some (s1_AuditJSON st1 preq raw err)
           in case err of
                Some ContextErr \<Rightarrow>
                  (plain_result DecisionBlock InterventionEmpty ''provider_context_canceled'' call, Some ContextErr)
              | Some (ProviderErr c) \<Rightarrow>
                  (if c = ''parse'' then (fail_matrix (rc_PolicyClass cin) ''parse'' call, None)
                   else (fail_matrix (rc_PolicyClass cin) ''provider'' call, None))
              | Some OtherErr \<Rightarrow> (fail_matrix (rc_PolicyClass cin) ''provider'' call, None)
              | None \<Rightarrow>
                  if ra_ParseStatus raw \<noteq> ParseStatusOK
                  then (fail_matrix (rc_PolicyClass cin) ''parse'' call, None)
                  else if \<not> ValidateSeverity (ra_Severity raw)
                  then (fail_matrix (rc_PolicyClass cin) ''severity'' call, None)
                  else (let (dec, reason) = threshold_decision cin (ra_Severity raw)
                        in (\<lparr>re_Stage2Decision = dec, re_Intervention = InterventionNone, re_Reason = reason,
                             re_RawSeverity = ra_Severity raw, re_ProviderCall = call\<rparr>, None))))"

definition ReEvaluate ::
  "'q stage1 \<Rightarrow> challenge \<Rightarrow> proposed_action \<Rightarrow> justification \<Rightarrow> reeval_context option
   \<Rightarrow> reeval_result \<times> provider_error option" where
  "ReEvaluate st1 rec proposed just cin0 =
     (let cin = normalize_context rec cin0 in
      if rc_HardBlock cin \<or> IsHardDenyClass (ch_BlockClass rec)
        then (plain_result DecisionBlock InterventionNone ''hard_rule_block'' None, None)
      else if LooksLikeSecretExfil proposed \<or> LooksLikeCrossWorkspace proposed
        then (plain_result DecisionBlock InterventionNone ''hard_security_block'' None, None)
      else if rc_Irreversible cin \<or> IsIrreversibleClass (ch_BlockClass rec)
        then (plain_result DecisionBlock InterventionHumanReview ''human_review_required'' None, None)
      else if side_of proposed \<in> {SideEffectDeploy, SideEffectPayment, SideEffectPermission}
        then (plain_result DecisionBlock InterventionHumanReview ''irreversible_side_effect'' None, None)
      else if rc_HasProvider cin then provider_eval st1 rec proposed just cin
      else if rc_UserException cin \<or> rc_RepoPolicyException cin \<or> rc_FlakyInvestigation cin
        then (plain_result DecisionAllow InterventionNone ''exception_without_provider'' None, None)
      else (plain_result DecisionBlock InterventionNone ''default_block_no_auto_allow'' None, None))"

definition firstNonEmpty :: "string \<Rightarrow> string \<Rightarrow> string" where
  "firstNonEmpty a b = (if TrimSpace a \<noteq> [] then a else b)"

definition isProviderFailOpenReason :: "string \<Rightarrow> bool" where
  "isProviderFailOpenReason reason \<longleftrightarrow>
     reason \<in> set [''provider_fail_open'', ''parse_fail_open'', ''severity_fail_open'', ''reeval_error'']"

section \<open>What can become an allow\<close>

definition has_exception :: "reeval_context \<Rightarrow> bool" where
  "has_exception c \<longleftrightarrow> rc_UserException c \<or> rc_RepoPolicyException c \<or> rc_FlakyInvestigation c"

definition genuine_allow :: "reeval_result \<Rightarrow> bool" where
  "genuine_allow re \<longleftrightarrow> re_Stage2Decision re = DecisionAllow \<and> \<not> isProviderFailOpenReason (re_Reason re)"

lemma normalize_context_flags:
  "rc_HardBlock (normalize_context rec (Some c)) = rc_HardBlock c"
  "rc_Irreversible (normalize_context rec (Some c)) = rc_Irreversible c"
  "rc_HasProvider (normalize_context rec (Some c)) = rc_HasProvider c"
  "has_exception (normalize_context rec (Some c)) = has_exception c"
  "rc_AllowLegacyFixtureIDs (normalize_context rec (Some c)) = rc_AllowLegacyFixtureIDs c"
  by (simp_all add: normalize_context_def Let_def has_exception_def)

lemma fail_matrix_not_genuine:
  assumes "stem \<in> set [''provider'', ''parse'', ''severity'']"
  shows "\<not> genuine_allow (fail_matrix pc stem call)"
  using assms by (auto simp: genuine_allow_def fail_matrix_def plain_result_def isProviderFailOpenReason_def)

lemma fail_matrix_reason:
  assumes "stem \<in> set [''provider'', ''parse'', ''severity'']"
    and "re_Stage2Decision (fail_matrix pc stem call) = DecisionAllow"
  shows "isProviderFailOpenReason (re_Reason (fail_matrix pc stem call))"
  using fail_matrix_not_genuine [OF assms(1)] assms(2) by (auto simp: genuine_allow_def)

lemma provider_eval_genuine:
  assumes "provider_eval st1 rec pa j cin = (re, err)" and "genuine_allow re"
  shows "\<exists>preq raw. s1_NewRequest st1 (rc_AllowLegacyFixtureIDs cin) rec pa j cin = Some preq
    \<and> stage1_assess st1 preq = (raw, None) \<and> ra_ParseStatus raw = ParseStatusOK
    \<and> ValidateSeverity (ra_Severity raw) \<and> (ra_Severity raw < rc_Threshold cin \<or> has_exception cin)"
proof (cases "s1_NewRequest st1 (rc_AllowLegacyFixtureIDs cin) rec pa j cin")
  case None
  with assms show ?thesis by (auto simp: provider_eval_def fail_matrix_not_genuine)
next
  case (Some preq)
  obtain raw perr where a: "stage1_assess st1 preq = (raw, perr)" by (cases "stage1_assess st1 preq")
  show ?thesis
  proof (cases perr)
    case None
    then show ?thesis using assms Some a
      by (auto simp: provider_eval_def Let_def fail_matrix_reason threshold_decision_def has_exception_def
          genuine_allow_def not_less split: if_splits)
  next
    case (Some e)
    then show ?thesis using assms \<open>s1_NewRequest _ _ _ _ _ _ = Some preq\<close> a
      by (cases e) (auto simp: provider_eval_def Let_def fail_matrix_reason genuine_allow_def plain_result_def
          split: if_splits)
  qed
qed

text \<open>A guard that holds ends the re-evaluation in a block, which is no genuine allow.\<close>

lemma plain_block_not_genuine: "\<not> genuine_allow (plain_result DecisionBlock i r pc)"
  by (simp add: genuine_allow_def plain_result_def)

lemma reevaluate_guards:
  assumes "ReEvaluate st1 rec pa j (Some c) = (re, err)" and "genuine_allow re"
  shows "\<not> rc_HardBlock c" "\<not> IsHardDenyClass (ch_BlockClass rec)"
    "\<not> LooksLikeSecretExfil pa" "\<not> LooksLikeCrossWorkspace pa" "\<not> rc_Irreversible c"
    "\<not> IsIrreversibleClass (ch_BlockClass rec)"
    "side_of pa \<notin> {SideEffectDeploy, SideEffectPayment, SideEffectPermission}"
proof -
  note ev = assms(1) [unfolded ReEvaluate_def Let_def] and no = plain_block_not_genuine
  note flags = normalize_context_flags [of rec c]
  have 1: "\<not> (rc_HardBlock (normalize_context rec (Some c)) \<or> IsHardDenyClass (ch_BlockClass rec))"
  proof
    assume "rc_HardBlock (normalize_context rec (Some c)) \<or> IsHardDenyClass (ch_BlockClass rec)"
    then show False using ev assms(2) no by (simp only: if_True) auto
  qed
  have 2: "\<not> (LooksLikeSecretExfil pa \<or> LooksLikeCrossWorkspace pa)"
  proof
    assume "LooksLikeSecretExfil pa \<or> LooksLikeCrossWorkspace pa"
    then show False using ev assms(2) no 1 by (simp only: if_True if_False) auto
  qed
  have 3: "\<not> (rc_Irreversible (normalize_context rec (Some c)) \<or> IsIrreversibleClass (ch_BlockClass rec))"
  proof
    assume "rc_Irreversible (normalize_context rec (Some c)) \<or> IsIrreversibleClass (ch_BlockClass rec)"
    then show False using ev assms(2) no 1 2 by (simp only: if_True if_False) auto
  qed
  show "side_of pa \<notin> {SideEffectDeploy, SideEffectPayment, SideEffectPermission}"
  proof
    assume "side_of pa \<in> {SideEffectDeploy, SideEffectPayment, SideEffectPermission}"
    then show False using ev assms(2) no 1 2 3 by (simp only: if_True if_False) auto
  qed
  show "\<not> rc_HardBlock c" "\<not> IsHardDenyClass (ch_BlockClass rec)"
    "\<not> LooksLikeSecretExfil pa" "\<not> LooksLikeCrossWorkspace pa" "\<not> rc_Irreversible c"
    "\<not> IsIrreversibleClass (ch_BlockClass rec)"
    using 1 2 3 flags by auto
qed

text \<open>
  C19. Justification never grants an allow. When re-evaluation yields a decision that may
  authorise a retry (an ALLOW whose reason is not one of the provider fail-open reasons), the
  block was neither hard-denied nor irreversible, the action itself shows no secret
  exfiltration, no cross-workspace access, no deployment, payment or permission change, and
  either an explicit exception flag was set by the host or the provider returned a validated
  assessment below the threshold. The justification enters only through the provider's answer.
\<close>

theorem reevaluate_never_self_allows:
  assumes "ReEvaluate st1 rec pa j (Some c) = (re, err)" and "genuine_allow re"
  shows "\<not> IsHardDenyClass (ch_BlockClass rec) \<and> \<not> IsIrreversibleClass (ch_BlockClass rec)
    \<and> \<not> rc_HardBlock c \<and> \<not> rc_Irreversible c
    \<and> \<not> LooksLikeSecretExfil pa \<and> \<not> LooksLikeCrossWorkspace pa
    \<and> side_of pa \<notin> {SideEffectDeploy, SideEffectPayment, SideEffectPermission}
    \<and> (has_exception c \<or>
       (rc_HasProvider c \<and> (\<exists>preq raw. stage1_assess st1 preq = (raw, None)
          \<and> ra_ParseStatus raw = ParseStatusOK \<and> ValidateSeverity (ra_Severity raw)
          \<and> ra_Severity raw < rc_Threshold (normalize_context rec (Some c)))))"
proof -
  let ?c = "normalize_context rec (Some c)"
  note guards = reevaluate_guards [OF assms] and flags = normalize_context_flags [of rec c]
  show ?thesis
  proof (cases "rc_HasProvider ?c")
    case True
    with guards assms(1) have "provider_eval st1 rec pa j ?c = (re, err)" by (simp add: ReEvaluate_def Let_def flags)
    from provider_eval_genuine [OF this assms(2)] show ?thesis
      using guards True by (auto simp: flags)
  next
    case False
    with guards assms have "has_exception ?c"
      by (auto simp: ReEvaluate_def Let_def genuine_allow_def plain_result_def has_exception_def split: if_splits)
    with guards show ?thesis by (simp add: flags)
  qed
qed

end
