(* ===== verification/ChallengeService.thy ===== *)
theory ChallengeService
  imports ReEval
begin

text \<open>
  The challenge workflow (\<^verbatim>\<open>pkg/challenge/service.go\<close>, \<^verbatim>\<open>cache_key.go\<close>): \<open>Open\<close>, \<open>Justify\<close>,
  \<open>AttemptRetry\<close>, \<open>Abandon\<close>, \<open>ExpireDue\<close>, \<open>waitTerminal\<close> and the audit and cache-key views.

  Each critical section under \<open>store.mu\<close> is one definition on the store. A handler is the
  composition of its sections with an explicit environment: what the clock, the random source,
  the map iteration order, the re-evaluator and the context return, and \<open>env_others k\<close>, an
  arbitrary change that other goroutines make to the store at the \<open>k\<close>-th point where the handler
  does not hold the lock.
\<close>

section \<open>Requests, results and environment\<close>

record open_request =
  or_SessionID :: string
  or_Proposed :: proposed_action
  or_BlockClass :: string
  or_ReasonCode :: string
  or_SuggestedFix :: string
  or_ChallengeNonce :: string
  or_PolicyClass :: string
  or_RequiredClaims :: "string list"
  or_PolicyVersion :: string
  or_RulesetHash :: string
  or_Branch :: string
  or_ExpiresAfterSequences :: int
  or_CorrelationID :: string

record retry_request =
  rq_ChallengeID :: string
  rq_ChallengeNonce :: string
  rq_RequireNonce :: bool
  rq_SessionID :: string
  rq_Branch :: string
  rq_RetryRequestID :: string
  rq_Proposed :: proposed_action
  rq_CorrelationID :: string
  rq_ReEval :: "reeval_context option"

text \<open>\<open>rt_Relationship = None\<close> is the empty relationship string.\<close>

record retry_result =
  rt_Record :: challenge
  rt_Stage2Decision :: decision
  rt_Intervention :: intervention
  rt_Relationship :: "relationship option"
  rt_IdempotentReplay :: bool
  rt_RejectedReason :: string
  rt_ProviderCall :: "string option"
  rt_ProviderCallAuditID :: string

definition empty_retry_result :: retry_result where
  "empty_retry_result =
     \<lparr>rt_Record = empty_challenge, rt_Stage2Decision = DecisionEmpty, rt_Intervention = InterventionEmpty,
      rt_Relationship = None, rt_IdempotentReplay = False, rt_RejectedReason = [],
      rt_ProviderCall = None, rt_ProviderCallAuditID = []\<rparr>"

text \<open>One round of the loop in \<open>waitTerminal\<close>: interference before the channel is taken, before the
  second read, and while the waiter is blocked; and whether the context ends the wait.\<close>

record wait_turn =
  wt_a :: "store \<Rightarrow> store"
  wt_b :: "store \<Rightarrow> store"
  wt_c :: "store \<Rightarrow> store"
  wt_canceled :: bool

record env =
  env_clock :: "nat \<Rightarrow> time"
  env_order :: range_order
  env_rand :: "string option"
  env_wall :: time
  env_ctx :: "nat \<Rightarrow> bool"
  env_reeval :: "challenge \<Rightarrow> proposed_action \<Rightarrow> justification \<Rightarrow> reeval_context option
                   \<Rightarrow> reeval_result \<times> provider_error option"
  env_others :: "nat \<Rightarrow> store \<Rightarrow> store"
  env_wait :: "wait_turn list"

abbreviation ctx_error :: go_error where "ctx_error \<equiv> ''context canceled''"

section \<open>Helpers\<close>

definition hashPolicy :: "gostd \<Rightarrow> string \<Rightarrow> string \<Rightarrow> string \<Rightarrow> string" where
  "hashPolicy std ver ruleset block = take 16 (sha256_hex std (ver @ ''|'' @ ruleset @ ''|'' @ block))"

definition hashInput :: "gostd \<Rightarrow> challenge \<Rightarrow> string" where
  "hashInput std rec = take 16 (sha256_hex std
     (ch_ChallengeID rec @ ''|'' @ ch_SessionID rec @ ''|'' @ state_str (ch_State rec) @ ''|'' @ ch_JustificationHash rec))"

definition pickContract :: "int \<Rightarrow> int \<Rightarrow> int" where
  "pickContract a b = (if a \<noteq> 0 then a else b)"

definition wrap64 :: "int \<Rightarrow> int" where
  "wrap64 n = (n + 2 ^ 63) mod 2 ^ 64 - 2 ^ 63"

definition defaultSuggestedFix :: "string \<Rightarrow> string" where
  "defaultSuggestedFix blockClass =
     (let bc = NormalizeBlockClass blockClass in
      if bc = BlockClassOverSOP then ''Scope action to affected files only, or submit a justification with verification and rollback plans.''
      else if bc = BlockClassScopeDrift then ''Constrain operations to the active workspace scope, or submit a justification.''
      else if bc = BlockClassExpensiveHardening then ''Run targeted test cases or provide justification for full-suite execution.''
      else if bc = BlockClassRepeatedExploration then ''Consolidate exploratory queries or submit justification with evidence.''
      else if bc = BlockClassEvidenceGap then ''Provide supporting evidence event IDs and verification plan in justification.''
      else ''Submit structured justification with verification plan to appeal this block.'')"

definition newNonce :: "gostd \<Rightarrow> env \<Rightarrow> store \<Rightarrow> string" where
  "newNonce std env s =
     (case env_rand env of
        Some hx \<Rightarrow> ''cn-'' @ hx
      | None \<Rightarrow> ''cn-'' @ take 32 (sha256_hex std
          (''cn-'' @ itoa (UnixNano (env_wall env)) @ ''-'' @ itoa (Sequence s))))"

definition checkOwnership :: "challenge \<Rightarrow> retry_request \<Rightarrow> go_error option" where
  "checkOwnership rec req =
     (let sid = TrimSpace (rq_SessionID req); psid = TrimSpace (pa_SessionID (rq_Proposed req));
          b = TrimSpace (rq_Branch req); wr = TrimSpace (pa_WorkspaceRevision (rq_Proposed req));
          cr = pa_ContractRevision (rq_Proposed req)
      in if sid \<noteq> [] \<and> sid \<noteq> ch_SessionID rec then Some ''retry: session_id mismatch''
         else if psid \<noteq> [] \<and> psid \<noteq> ch_SessionID rec then Some ''retry: proposed session_id mismatch''
         else if b \<noteq> [] \<and> ch_Branch rec \<noteq> [] \<and> b \<noteq> ch_Branch rec then Some ''retry: branch mismatch''
         else if wr \<noteq> [] \<and> TrimSpace (ch_WorkspaceRevision rec) \<noteq> [] \<and> wr \<noteq> ch_WorkspaceRevision rec
           then Some ''retry: workspace_revision mismatch''
         else if cr \<noteq> 0 \<and> ch_ContractRevision rec \<noteq> 0 \<and> cr \<noteq> ch_ContractRevision rec
           then Some ''retry: contract_revision mismatch''
         else None)"

definition isTargetSuperset :: "string list \<Rightarrow> string list \<Rightarrow> bool" where
  "isTargetSuperset cand original =
     (if length cand \<le> length original \<or> original = [] then False
      else list_all (\<lambda>t. t \<in> set cand) original)"

definition retry_key_fields :: "string \<Rightarrow> retry_request \<Rightarrow> string \<Rightarrow> (string \<times> string) list" where
  "retry_key_fields challengeID req fingerprint =
     [(''challenge_id'', challengeID), (''action_id'', pa_ActionID (rq_Proposed req)),
      (''correlation_id'', rq_CorrelationID req), (''retry_request_id'', rq_RetryRequestID req),
      (''fingerprint'', fingerprint)]"

definition retryAttemptKey :: "gostd \<Rightarrow> string \<Rightarrow> retry_request \<Rightarrow> string \<Rightarrow> string" where
  "retryAttemptKey std challengeID req fingerprint =
     take 32 (sha256_hex std (encode_fields (retry_key_fields challengeID req fingerprint)))"

definition providerCallAuditID :: "gostd \<Rightarrow> string option \<Rightarrow> string" where
  "providerCallAuditID std call =
     (case call of None \<Rightarrow> [] | Some b \<Rightarrow> if b = [] then [] else take 32 (sha256_hex std b))"

section \<open>Expiry\<close>

definition expired_transition :: "challenge \<Rightarrow> string \<Rightarrow> string \<Rightarrow> string \<Rightarrow> string \<Rightarrow> time \<Rightarrow> transition" where
  "expired_transition rec corr cause payload note now =
     \<lparr>tr_from = ch_State rec, tr_to = StateExpired, tr_typ = EvExpired, tr_corr = corr, tr_cause = cause,
      tr_payloadHash = payload, tr_note = note, tr_audit = [], tr_at = now\<rparr>"

text \<open>Sequence expiry is due: the condition that every handler rechecks under the lock.\<close>

definition expiry_due :: "store \<Rightarrow> challenge \<Rightarrow> bool" where
  "expiry_due s rec \<longleftrightarrow>
     ch_ExpiresAtSequence rec > 0 \<and> st_seq s \<ge> ch_ExpiresAtSequence rec \<and> \<not> isTerminal (ch_State rec)"

text \<open>\<open>expireIfNeeded\<close>: the unlocked reads on \<open>s0\<close>, the locked section on \<open>s1\<close>, the signal after it.\<close>

definition expire_locked :: "time \<Rightarrow> challenge \<Rightarrow> store \<Rightarrow> (challenge \<times> bool) \<times> store" where
  "expire_locked now rec s =
     (case gm_get (st_byID s) (ch_ChallengeID rec) of
        None \<Rightarrow> ((rec, False), s)
      | Some cur \<Rightarrow>
          if isTerminal (ch_State cur) then ((cur, False), s)
          else let (updated, s') = appendTransition cur
                     (expired_transition cur [] (ch_ChallengeID rec) [] ''sequence_expiry'' now) None s
               in ((updated, True), s'))"

definition expireIfNeeded ::
  "time \<Rightarrow> (store \<Rightarrow> store) \<Rightarrow> (store \<Rightarrow> store) \<Rightarrow> challenge \<Rightarrow> store \<Rightarrow> (challenge \<times> go_error option) \<times> store" where
  "expireIfNeeded now others1 others2 rec s0 =
     (if ch_ExpiresAtSequence rec \<le> 0 \<or> Sequence s0 < ch_ExpiresAtSequence rec \<or> isTerminal (ch_State rec)
      then ((rec, None), s0)
      else case expire_locked now rec (others1 s0) of
        ((rec', False), s1) \<Rightarrow> ((rec', None), s1)
      | ((rec', True), s1) \<Rightarrow>
          ((rec', Some ''challenge expired''), signalTerminal (ch_ChallengeID rec') (others2 s1)))"

definition semantic_hit :: "string \<Rightarrow> fingerprint_result \<Rightarrow> challenge \<Rightarrow> bool" where
  "semantic_hit sessionID fp existing \<longleftrightarrow>
     ch_SessionID existing = sessionID \<and> \<not> isTerminal (ch_State existing)
   \<and> (ch_ActionFingerprint existing = fr_Fingerprint fp
      \<or> semanticActionMatch (ch_SideEffectClass existing) (ch_TargetResources existing) (ch_OperationDigest existing)
          (fr_SideEffectClass fp) (fr_TargetResources fp) (fr_OperationDigest fp))"

definition matching_ids :: "range_order \<Rightarrow> (challenge \<Rightarrow> bool) \<Rightarrow> store \<Rightarrow> string list" where
  "matching_ids ord P s =
     filter (\<lambda>i. case gm_get (st_byID s) i of None \<Rightarrow> False | Some r \<Rightarrow> P r) (ord (gm_keys (st_byID s)))"

definition expire_one :: "string \<Rightarrow> string \<Rightarrow> string \<Rightarrow> string \<Rightarrow> time \<Rightarrow> string \<Rightarrow> store \<Rightarrow> store" where
  "expire_one corr cause payload note now i s =
     (case gm_get (st_byID s) i of
        None \<Rightarrow> s
      | Some cur \<Rightarrow>
          if isTerminal (ch_State cur) then s
          else signalTerminal i (snd (appendTransition cur
                 (expired_transition cur corr cause payload note now) None s)))"

definition expireActiveBySemanticLocked ::
  "range_order \<Rightarrow> string \<Rightarrow> fingerprint_result \<Rightarrow> string \<Rightarrow> string \<Rightarrow> string \<Rightarrow> time \<Rightarrow> store \<Rightarrow> store" where
  "expireActiveBySemanticLocked ord sessionID fp corr cause note now s =
     fold (expire_one corr cause (fr_Fingerprint fp) note now) (matching_ids ord (semantic_hit sessionID fp) s) s"

text \<open>\<open>ExpireDue\<close>: the range body appends under the lock, the signals follow after it.\<close>

definition expire_due_one :: "int \<Rightarrow> time \<Rightarrow> string \<Rightarrow> string list \<times> store \<Rightarrow> string list \<times> store" where
  "expire_due_one seq now i acc =
     (case gm_get (st_byID (snd acc)) i of
        None \<Rightarrow> acc
      | Some rec \<Rightarrow>
          if ch_ExpiresAtSequence rec > 0 \<and> seq \<ge> ch_ExpiresAtSequence rec \<and> \<not> isTerminal (ch_State rec)
          then (fst acc @ [i], snd (appendTransition rec
                 (expired_transition rec [] i [] ''sequence_expiry'' now) None (snd acc)))
          else acc)"

definition expire_due_locked :: "env \<Rightarrow> store \<Rightarrow> string list \<times> store" where
  "expire_due_locked env s =
     fold (expire_due_one (st_seq s) (env_clock env 0)) (env_order env (gm_keys (st_byID s))) ([], s)"

definition ExpireDue :: "env \<Rightarrow> store \<Rightarrow> int \<times> store" where
  "ExpireDue env s =
     (let (expired, s1) = expire_due_locked env s
      in (int (length expired), fold signalTerminal expired (env_others env 0 s1)))"

section \<open>Open\<close>

record open_plan =
  pl_SessionID :: string
  pl_PolicyClass :: string
  pl_BlockClass :: string
  pl_ReasonCode :: string
  pl_Claims :: "string list"
  pl_Appeal :: appeal
  pl_FP :: fingerprint_result
  pl_PolicyHash :: string

definition open_block_class :: "string \<Rightarrow> string \<Rightarrow> proposed_action \<Rightarrow> string" where
  "open_block_class policyClass blockClass pa =
     (if policyClass = PolicyClassSecurity
      then (if blockClass = [] \<or> (\<not> IsHardDenyClass blockClass \<and> \<not> IsIrreversibleClass blockClass)
            then BlockClassUnknownSecurity else blockClass)
      else ResolveBlockClass blockClass pa)"

definition openPrepare :: "gostd \<Rightarrow> open_request \<Rightarrow> open_plan go_result" where
  "openPrepare std req =
     (let reqSID0 = TrimSpace (or_SessionID req);
          paSID = TrimSpace (pa_SessionID (or_Proposed req));
          reqSID = (if reqSID0 = [] then paSID else reqSID0)
      in if reqSID \<noteq> [] \<and> paSID \<noteq> [] \<and> reqSID \<noteq> paSID then Inl ''challenge open: session_id mismatch''
         else if TrimSpace reqSID = [] then Inl ''challenge open: session_id required''
         else case ValidateProposedForChallenge std (or_Proposed req) of
           Some e \<Rightarrow> Inl (''challenge open: '' @ e)
         | None \<Rightarrow>
           (let policyClass = NormalizePolicyClass (or_PolicyClass req);
                reason = (if or_ReasonCode req = [] then ''BLOCK'' else or_ReasonCode req);
                blockClass = open_block_class policyClass (NormalizeBlockClass (or_BlockClass req)) (or_Proposed req);
                claims0 = (if or_RequiredClaims req = [] then DefaultRequiredClaims blockClass
                           else or_RequiredClaims req)
            in case ValidateRequiredClaims claims0 of
                 Inl e \<Rightarrow> Inl (''challenge open: '' @ e)
               | Inr claims \<Rightarrow>
                 (case ComputeFingerprint std
                    \<lparr>fi_Proposed = or_Proposed req, fi_SessionID = reqSID, fi_Branch = or_Branch req,
                     fi_WorkspaceRevision = pa_WorkspaceRevision (or_Proposed req),
                     fi_ContractRevision = pa_ContractRevision (or_Proposed req)\<rparr> of
                    Inl e \<Rightarrow> Inl (''challenge open: '' @ e)
                  | Inr fp \<Rightarrow>
                      Inr \<lparr>pl_SessionID = reqSID, pl_PolicyClass = policyClass, pl_BlockClass = blockClass,
                           pl_ReasonCode = reason, pl_Claims = claims,
                           pl_Appeal = fst (ClassifyAppealability blockClass (or_Proposed req)), pl_FP = fp,
                           pl_PolicyHash = hashPolicy std (or_PolicyVersion req) (or_RulesetHash req) blockClass\<rparr>)))"

text \<open>The fields that the three record literals of \<open>Open\<close> share.\<close>

definition open_base :: "open_plan \<Rightarrow> open_request \<Rightarrow> time \<Rightarrow> challenge" where
  "open_base pl req now =
     empty_challenge\<lparr>
       ch_SchemaVersion := SchemaChallengeRecord, ch_SessionID := pl_SessionID pl,
       ch_ActionFingerprint := fr_Fingerprint (pl_FP pl), ch_OriginalActionID := pa_ActionID (or_Proposed req),
       ch_PolicyClass := pl_PolicyClass pl, ch_BlockClass := pl_BlockClass pl,
       ch_ReasonCode := pl_ReasonCode pl, ch_Stage2Decision := DecisionBlock,
       ch_SideEffectClass := fr_SideEffectClass (pl_FP pl),
       ch_TargetResources := fr_TargetResources (pl_FP pl),
       ch_OperationDigest := fr_OperationDigest (pl_FP pl),
       ch_WorkspaceRevision := pa_WorkspaceRevision (or_Proposed req),
       ch_ContractRevision := pa_ContractRevision (or_Proposed req), ch_Branch := or_Branch req,
       ch_PolicyVersion := or_PolicyVersion req, ch_RulesetHash := or_RulesetHash req,
       ch_PolicyHash := pl_PolicyHash pl, ch_CreatedAt := now, ch_UpdatedAt := now\<rparr>"

definition denied_record :: "open_plan \<Rightarrow> open_request \<Rightarrow> time \<Rightarrow> challenge" where
  "denied_record pl req now =
     (open_base pl req now)\<lparr>ch_State := StateRejected, ch_Appealability := AppealNonAppealable,
        ch_Intervention := InterventionNone\<rparr>"

definition human_record :: "open_plan \<Rightarrow> open_request \<Rightarrow> string \<Rightarrow> time \<Rightarrow> challenge" where
  "human_record pl req i now =
     (open_base pl req now)\<lparr>ch_ChallengeID := i, ch_RequiredClaims := pl_Claims pl,
        ch_State := StateHumanReview, ch_Appealability := AppealHumanReview,
        ch_Intervention := InterventionHumanReview\<rparr>"

definition appeal_record :: "open_plan \<Rightarrow> open_request \<Rightarrow> string \<Rightarrow> string \<Rightarrow> time \<Rightarrow> challenge" where
  "appeal_record pl req i nonce now =
     (open_base pl req now)\<lparr>ch_ChallengeID := i, ch_ChallengeNonce := nonce,
        ch_SuggestedFix := (let fix0 = TrimSpace (or_SuggestedFix req) in
           if fix0 = [] then defaultSuggestedFix (pl_BlockClass pl) else fix0),
        ch_RequiredClaims := pl_Claims pl, ch_RetryBudget := InitialRetryBudget,
        ch_RetryBudgetInitial := InitialRetryBudget, ch_State := StateOpen,
        ch_Appealability := AppealAppealable, ch_Intervention := InterventionAppealableChallenge\<rparr>"

definition mark_plan :: "open_plan \<Rightarrow> open_request \<Rightarrow> string \<Rightarrow> store \<Rightarrow> store" where
  "mark_plan pl req note s =
     markNonAppealBarrierLocked (pl_SessionID pl) (fr_Fingerprint (pl_FP pl)) note
       (or_PolicyVersion req) (or_RulesetHash req) (fr_SideEffectClass (pl_FP pl))
       (fr_TargetResources (pl_FP pl)) (fr_OperationDigest (pl_FP pl)) s"

definition open_deny_locked :: "range_order \<Rightarrow> open_plan \<Rightarrow> open_request \<Rightarrow> time \<Rightarrow> store \<Rightarrow> store" where
  "open_deny_locked ord pl req now s =
     mark_plan pl req ''hard_block''
       (expireActiveBySemanticLocked ord (pl_SessionID pl) (pl_FP pl) (or_CorrelationID req)
          (pa_ActionID (or_Proposed req)) ''superseded_by_hard_block'' now s)"

definition open_human_locked ::
  "range_order \<Rightarrow> open_plan \<Rightarrow> open_request \<Rightarrow> string \<Rightarrow> time \<Rightarrow> store \<Rightarrow> challenge \<times> store" where
  "open_human_locked ord pl req i now s =
     appendTransition (human_record pl req i now)
       \<lparr>tr_from = StateEmpty, tr_to = StateHumanReview, tr_typ = EvHumanReview,
        tr_corr = or_CorrelationID req, tr_cause = pa_ActionID (or_Proposed req),
        tr_payloadHash = fr_Fingerprint (pl_FP pl), tr_note = ''open_human_review'', tr_audit = [], tr_at = now\<rparr>
       None
       (mark_plan pl req ''human_review''
         (expireActiveBySemanticLocked ord (pl_SessionID pl) (pl_FP pl) (or_CorrelationID req)
            (pa_ActionID (or_Proposed req)) ''superseded_by_human_review'' now s))"

definition policyIdentityMatch :: "challenge \<Rightarrow> open_plan \<Rightarrow> open_request \<Rightarrow> bool" where
  "policyIdentityMatch existing pl req \<longleftrightarrow>
     ch_PolicyClass existing = pl_PolicyClass pl \<and> ch_BlockClass existing = pl_BlockClass pl
   \<and> ch_PolicyVersion existing = or_PolicyVersion req \<and> ch_RulesetHash existing = or_RulesetHash req
   \<and> ch_PolicyHash existing = pl_PolicyHash pl \<and> ch_ReasonCode existing = pl_ReasonCode pl
   \<and> ch_Branch existing = or_Branch req
   \<and> ch_WorkspaceRevision existing = pa_WorkspaceRevision (or_Proposed req)
   \<and> ch_ContractRevision existing = pa_ContractRevision (or_Proposed req)
   \<and> ch_RequiredClaims existing = pl_Claims pl"

definition open_hit :: "open_plan \<Rightarrow> challenge \<Rightarrow> bool" where
  "open_hit pl existing \<longleftrightarrow>
     ch_SessionID existing = pl_SessionID pl \<and> ch_ActionFingerprint existing = fr_Fingerprint (pl_FP pl)
   \<and> \<not> isTerminal (ch_State existing)"

text \<open>The loop over the collected hits; they were copied before the loop changes the map.\<close>

fun reclaim :: "open_plan \<Rightarrow> open_request \<Rightarrow> time \<Rightarrow> (string \<times> challenge) list \<Rightarrow> challenge option
    \<Rightarrow> store \<Rightarrow> challenge option \<times> store" where
  "reclaim pl req now [] found s = (found, s)"
| "reclaim pl req now ((i, h) # hits) found s =
     (if policyIdentityMatch h pl req \<and> found = None then reclaim pl req now hits (Some h) s
      else reclaim pl req now hits found
        (signalTerminal i (snd (appendTransition h
           (expired_transition h (or_CorrelationID req) i (fr_Fingerprint (pl_FP pl))
              (if policyIdentityMatch h pl req then ''superseded_duplicate_open''
               else ''superseded_by_policy_change'') now) None s))))"

definition collect_hits :: "range_order \<Rightarrow> open_plan \<Rightarrow> store \<Rightarrow> (string \<times> challenge) list" where
  "collect_hits ord pl s =
     map (\<lambda>i. (i, the (gm_get (st_byID s) i))) (matching_ids ord (open_hit pl) s)"

definition opened_event :: "open_request \<Rightarrow> challenge \<Rightarrow> int \<Rightarrow> time \<Rightarrow> event" where
  "opened_event req rec seq now =
     \<lparr>ev_SchemaVersion = SchemaChallengeEvent, ev_Sequence = seq, ev_ChallengeID = ch_ChallengeID rec,
      ev_SessionID = ch_SessionID rec, ev_Type = EvOpened, ev_FromState = StateEmpty, ev_ToState = StateOpen,
      ev_CorrelationID = or_CorrelationID req, ev_CausationID = pa_ActionID (or_Proposed req),
      ev_PayloadHash = ch_ActionFingerprint rec, ev_ProviderCallAuditID = [], ev_Note = ''open_appealable'',
      ev_At = now\<rparr>"

definition insert_open :: "open_request \<Rightarrow> challenge \<Rightarrow> time \<Rightarrow> store \<Rightarrow> challenge \<times> store" where
  "insert_open req rec0 now s0 =
     (let (seq, s1) = nextSeqLocked s0;
          r1 = rec0\<lparr>ch_CreatedSequence := seq, ch_UpdatedSequence := seq\<rparr>;
          r2 = (if or_ExpiresAfterSequences req > 0
                then r1\<lparr>ch_ExpiresAtSequence := wrap64 (seq + or_ExpiresAfterSequences req)\<rparr> else r1)
      in (r2, putLocked r2 (opened_event req r2 seq now) None s1))"

definition open_appeal_locked ::
  "range_order \<Rightarrow> open_plan \<Rightarrow> open_request \<Rightarrow> int \<Rightarrow> challenge \<Rightarrow> time \<Rightarrow> store
   \<Rightarrow> (challenge \<times> go_error option) \<times> store" where
  "open_appeal_locked ord pl req openTicket rec now s =
     (case nonAppealBarrierNoteLocked ord (pl_SessionID pl) (fr_Fingerprint (pl_FP pl)) (or_PolicyVersion req)
             (or_RulesetHash req) openTicket (fr_SideEffectClass (pl_FP pl)) (fr_TargetResources (pl_FP pl))
             (fr_OperationDigest (pl_FP pl)) s of
        Some note \<Rightarrow> ((empty_challenge, Some ''challenge open: non-appealable barrier''), s)
      | None \<Rightarrow>
          (case reclaim pl req now (collect_hits ord pl s) None s of
             (Some m, s1) \<Rightarrow> ((m, None), s1)
           | (None, s1) \<Rightarrow> (let (r, s2) = insert_open req rec now s1 in ((r, None), s2))))"

definition Open :: "gostd \<Rightarrow> env \<Rightarrow> open_request \<Rightarrow> store \<Rightarrow> (challenge \<times> go_error option) \<times> store" where
  "Open std env req s0 =
     (if env_ctx env 0 then ((empty_challenge, Some ctx_error), s0)
      else let openTicket = Sequence s0; s1 = env_others env 0 s0 in
        case openPrepare std req of
          Inl e \<Rightarrow> ((empty_challenge, Some e), s1)
        | Inr pl \<Rightarrow>
          if pl_Appeal pl = AppealNonAppealable
          then (let now = env_clock env 0
                in ((denied_record pl req now, Some ''challenge open: non-appealable block class''),
                    open_deny_locked (env_order env) pl req now s1))
          else if pl_Appeal pl = AppealHumanReview
          then (let now = env_clock env 0;
                    (i, s2) = newID std ''hr'' (env_clock env 1) s1;
                    (rec, s3) = open_human_locked (env_order env) pl req i now (env_others env 1 s2)
                in ((rec, None), signalTerminal (ch_ChallengeID rec) (env_others env 2 s3)))
          else (let now = env_clock env 0;
                    (i, s2) = newID std ''ch'' (env_clock env 1) s1;
                    s3 = env_others env 1 s2;
                    nonce0 = TrimSpace (or_ChallengeNonce req);
                    nonce = (if nonce0 = [] then newNonce std env s3 else nonce0)
                in open_appeal_locked (env_order env) pl req openTicket
                     (appeal_record pl req i nonce now) now (env_others env 2 s3)))"

section \<open>Justify\<close>

definition justified_transition :: "challenge \<Rightarrow> string \<Rightarrow> string \<Rightarrow> time \<Rightarrow> transition" where
  "justified_transition rec corr jh now =
     \<lparr>tr_from = ch_State rec, tr_to = StateJustified, tr_typ = EvJustified, tr_corr = corr,
      tr_cause = ch_OriginalActionID rec, tr_payloadHash = jh, tr_note = ''justification_accepted'',
      tr_audit = [], tr_at = now\<rparr>"

text \<open>The locked section; the boolean says that the terminal signal is still due after it.\<close>

definition justify_locked ::
  "time \<Rightarrow> string \<Rightarrow> justification \<Rightarrow> string \<Rightarrow> store \<Rightarrow> (challenge \<times> go_error option) \<times> bool \<times> store" where
  "justify_locked now i clean jh s =
     (case gm_get (st_byID s) i of
        None \<Rightarrow> ((empty_challenge, Some ''justify: unknown challenge''), False, s)
      | Some rec \<Rightarrow>
          if expiry_due s rec
          then (let (out, s') = appendTransition rec
                      (expired_transition rec (ju_ChallengeID clean) (ch_OriginalActionID rec) []
                         ''sequence_expiry_under_lock'' now) None s
                in ((out, Some ''justify: challenge expired''), True, s'))
          else if ch_State rec = StateExpired then ((rec, Some ''justify: challenge expired''), False, s)
          else if ch_State rec = StateJustified \<and> ch_JustificationHash rec = jh then ((rec, None), False, s)
          else if ch_State rec \<noteq> StateOpen then ((rec, Some ''justify: invalid state''), False, s)
          else (let (out, s') = appendTransition (rec\<lparr>ch_JustificationHash := jh\<rparr>)
                      (justified_transition rec (ju_ChallengeID clean) jh now) (Some clean) s
                in ((out, None), False, s')))"

definition Justify ::
  "gostd \<Rightarrow> env \<Rightarrow> justification \<Rightarrow> string list \<Rightarrow> store \<Rightarrow> (challenge \<times> go_error option) \<times> store" where
  "Justify std env j knownEvidence s0 =
     (if env_ctx env 0 then ((empty_challenge, Some ctx_error), s0)
      else case Get s0 (ju_ChallengeID j) of
        None \<Rightarrow> ((empty_challenge, Some ''justify: unknown challenge''), s0)
      | Some rec0 \<Rightarrow>
        (case expireIfNeeded (env_clock env 0) (env_others env 1) (env_others env 2) rec0 (env_others env 0 s0) of
           ((rec1, Some e), s1) \<Rightarrow> ((rec1, Some e), s1)
         | ((rec1, None), s1) \<Rightarrow>
           if ch_State rec1 = StateExpired then ((rec1, Some ''justify: challenge expired''), s1)
           else (case ValidateJustification j knownEvidence (ch_RequiredClaims rec1) of
             Inl e \<Rightarrow> ((empty_challenge, Some e), s1)
           | Inr clean \<Rightarrow>
             if ju_ChallengeID clean \<noteq> ch_ChallengeID rec1
             then ((empty_challenge, Some ''justify: challenge_id mismatch''), s1)
             else (case justify_locked (env_clock env 1) (ch_ChallengeID rec1) clean
                          (HashJustification std clean) (env_others env 3 s1) of
               (res, False, s2) \<Rightarrow> (res, s2)
             | (res, True, s2) \<Rightarrow>
                 (res, signalTerminal (ch_ChallengeID (fst res)) (env_others env 4 s2))))))"

section \<open>AttemptRetry\<close>

definition block_result :: "challenge \<Rightarrow> intervention \<Rightarrow> relationship option \<Rightarrow> string \<Rightarrow> retry_result" where
  "block_result rec i rel reason =
     empty_retry_result\<lparr>rt_Record := rec, rt_Stage2Decision := DecisionBlock, rt_Intervention := i,
        rt_Relationship := rel, rt_RejectedReason := reason\<rparr>"

text \<open>The checks of the nonce, in the order of the code.\<close>

definition check_nonce :: "challenge \<Rightarrow> retry_request \<Rightarrow> (string \<times> go_error) option" where
  "check_nonce rec req =
     (if rq_RequireNonce req \<and> TrimSpace (rq_ChallengeNonce req) = []
        then Some (''missing_challenge_nonce'', ''retry: missing challenge nonce'')
      else if rq_ChallengeNonce req \<noteq> [] \<and> ch_ChallengeNonce rec \<noteq> [] \<and> rq_ChallengeNonce req \<noteq> ch_ChallengeNonce rec
        then Some (''corrupted_challenge_nonce'', ''retry: corrupted or invalid challenge nonce'')
      else if rq_ChallengeNonce req \<noteq> [] \<and> ch_ChallengeNonce rec = []
        then Some (''corrupted_challenge_nonce'', ''retry: corrupted challenge nonce (no nonce issued)'')
      else None)"

record retry_binding =
  rb_fp :: string
  rb_rel :: relationship
  rb_key :: string

text \<open>Ownership, nonce and semantic binding of a retry to the record that was read.\<close>

definition bind_retry ::
  "gostd \<Rightarrow> retry_request \<Rightarrow> challenge \<Rightarrow> (retry_result \<times> go_error) + retry_binding" where
  "bind_retry std req rec =
     (case checkOwnership rec req of
        Some e \<Rightarrow> Inl (block_result rec (ch_Intervention rec) None ''ownership_mismatch'', e)
      | None \<Rightarrow>
        (case check_nonce rec req of
           Some (reason, e) \<Rightarrow> Inl (block_result rec (ch_Intervention rec) None reason, e)
         | None \<Rightarrow>
           (case ComputeFingerprint std
              \<lparr>fi_Proposed = rq_Proposed req, fi_SessionID = ch_SessionID rec, fi_Branch = ch_Branch rec,
               fi_WorkspaceRevision = firstNonEmpty (pa_WorkspaceRevision (rq_Proposed req)) (ch_WorkspaceRevision rec),
               fi_ContractRevision = pickContract (pa_ContractRevision (rq_Proposed req)) (ch_ContractRevision rec)\<rparr> of
              Inl e \<Rightarrow> Inl (block_result rec InterventionEmpty None ''fingerprint_error'', e)
            | Inr fp \<Rightarrow>
              (let rel = ClassifyRelationship
                     \<lparr>fr_Fingerprint = ch_ActionFingerprint rec, fr_SideEffectClass = ch_SideEffectClass rec,
                      fr_TargetResources = ch_TargetResources rec, fr_OperationDigest = ch_OperationDigest rec,
                      fr_ToolClass = [], fr_ToolName = [], fr_CanonicalForm = []\<rparr> fp;
                   key = retryAttemptKey std (ch_ChallengeID rec) req (fr_Fingerprint fp)
               in if isTargetSuperset (fr_TargetResources fp) (ch_TargetResources rec)
                  then Inl (block_result rec (ch_Intervention rec) (Some RelDifferent) ''scope_expansion'',
                            ''retry: target scope expansion is not bound to challenge'')
                  else if rel = RelReducedScope \<or> rel = RelDifferent
                  then Inl (block_result rec (ch_Intervention rec) (Some rel) ''not_same_semantic_action'',
                            ''retry: action relationship is not bound to challenge'')
                  else Inr \<lparr>rb_fp = fr_Fingerprint fp, rb_rel = rel, rb_key = key\<rparr>))))"

text \<open>
  The first locked section. Its outcome is a reply (with the id whose terminal signal is still
  due after the unlock), a wait for the retry in flight, or a consumed budget with the pending
  record and the stored justification for the re-evaluation.
\<close>

datatype consume_outcome =
  CReply retry_result "go_error option" "string option"
| CWait
| CEvaluate challenge justification

definition empty_justification :: justification where
  "empty_justification =
     \<lparr>ju_SchemaVersion = [], ju_ChallengeID = [], ju_ConcreteValue = [], ju_PreventedFailureOrThreat = [],
      ju_EstimatedCost = [], ju_AlternativesConsidered = [], ju_ScopeLimit = [], ju_VerificationPlan = [],
      ju_RollbackPlan = [], ju_SupportingEvidenceEventIDs = []\<rparr>"

definition set_rec :: "string \<Rightarrow> (challenge \<Rightarrow> challenge) \<Rightarrow> store \<Rightarrow> store" where
  "set_rec i f s =
     (case gm_get (st_byID s) i of None \<Rightarrow> s | Some r \<Rightarrow> s\<lparr>st_byID := gm_put i (f r) (st_byID s)\<rparr>)"

definition rejected_transition :: "challenge_state \<Rightarrow> retry_request \<Rightarrow> string \<Rightarrow> string \<Rightarrow> string \<Rightarrow> time \<Rightarrow> transition" where
  "rejected_transition from req payload note audit now =
     \<lparr>tr_from = from, tr_to = StateRejected, tr_typ = EvRejected, tr_corr = rq_CorrelationID req,
      tr_cause = pa_ActionID (rq_Proposed req), tr_payloadHash = payload, tr_note = note, tr_audit = audit,
      tr_at = now\<rparr>"

definition terminal_reply :: "challenge \<Rightarrow> retry_binding \<Rightarrow> retry_result \<times> go_error option" where
  "terminal_reply rec b =
     (let base = empty_retry_result\<lparr>rt_Record := rec, rt_Intervention := ch_Intervention rec,
                    rt_Relationship := Some (rb_rel b)\<rparr>
      in if ch_State rec = StateAllowedOnce
         then (if ch_ConsumedRetryKey rec = []
               then (base\<lparr>rt_Stage2Decision := DecisionBlock, rt_RejectedReason := ''already_consumed''\<rparr>,
                     Some ''retry: already_consumed (missing retry identity)'')
               else if rb_key b = ch_ConsumedRetryKey rec
               then (base\<lparr>rt_Stage2Decision := DecisionAllow, rt_IdempotentReplay := True,
                          rt_RejectedReason := ''idempotent_replay''\<rparr>, None)
               else (base\<lparr>rt_Stage2Decision := DecisionBlock, rt_RejectedReason := ''retry_budget_exhausted''\<rparr>,
                     Some ''retry: retry_budget_exhausted / already_consumed''))
         else if ch_ConsumedRetryKey rec \<noteq> [] \<and> rb_key b = ch_ConsumedRetryKey rec
         then (base\<lparr>rt_Stage2Decision := ch_Stage2Decision rec, rt_IdempotentReplay := True,
                    rt_RejectedReason := ''already_terminal''\<rparr>, None)
         else (base\<lparr>rt_Stage2Decision := DecisionBlock, rt_RejectedReason := ''already_terminal''\<rparr>, None))"

definition reject_now ::
  "time \<Rightarrow> retry_request \<Rightarrow> retry_binding \<Rightarrow> challenge \<Rightarrow> string \<Rightarrow> store \<Rightarrow> challenge \<times> store" where
  "reject_now now req b rec note s =
     (let (r, s1) = appendTransition rec (rejected_transition (ch_State rec) req (rb_fp b) note [] now) None s
      in (r\<lparr>ch_Stage2Decision := DecisionBlock\<rparr>,
          set_rec (ch_ChallengeID r) (\<lambda>x. x\<lparr>ch_Stage2Decision := DecisionBlock\<rparr>) s1))"

definition budget_event :: "retry_request \<Rightarrow> challenge \<Rightarrow> challenge_state \<Rightarrow> string \<Rightarrow> int \<Rightarrow> time \<Rightarrow> event" where
  "budget_event req rec from key seq now =
     \<lparr>ev_SchemaVersion = SchemaChallengeEvent, ev_Sequence = seq, ev_ChallengeID = ch_ChallengeID rec,
      ev_SessionID = ch_SessionID rec, ev_Type = EvBudgetConsumed, ev_FromState = from,
      ev_ToState = StateRetryPending, ev_CorrelationID = rq_CorrelationID req,
      ev_CausationID = pa_ActionID (rq_Proposed req), ev_PayloadHash = key, ev_ProviderCallAuditID = [],
      ev_Note = ''one_shot_budget'', ev_At = now\<rparr>"

definition consume_budget ::
  "time \<Rightarrow> retry_request \<Rightarrow> string \<Rightarrow> challenge \<Rightarrow> store \<Rightarrow> (challenge \<times> justification) \<times> store" where
  "consume_budget now req key rec s =
     (let from = ch_State rec;
          r1 = (if ch_RetryBudget rec > 0 then rec\<lparr>ch_RetryBudget := ch_RetryBudget rec - 1\<rparr> else rec);
          (seq1, s1) = nextSeqLocked s;
          r2 = r1\<lparr>ch_UpdatedSequence := seq1, ch_UpdatedAt := now, ch_State := StateRetryPending\<rparr>;
          s2 = putLocked r2 (budget_event req r2 from key seq1 now) None s1;
          just = (case gm_get (st_justifications s2) (ch_ChallengeID r2) of
                    None \<Rightarrow> empty_justification | Some j \<Rightarrow> j)
      in ((r2, just), s2))"

definition retry_consume_locked ::
  "time \<Rightarrow> retry_request \<Rightarrow> retry_binding \<Rightarrow> store \<Rightarrow> consume_outcome \<times> store" where
  "retry_consume_locked now req b s =
     (let rel = Some (rb_rel b) in
      case gm_get (st_byID s) (rq_ChallengeID req) of
        None \<Rightarrow> (CReply empty_retry_result (Some ''retry: unknown challenge'') None, s)
      | Some rec \<Rightarrow>
        if expiry_due s rec
        then (let (out, s') = appendTransition rec
                    (expired_transition rec (rq_CorrelationID req) (pa_ActionID (rq_Proposed req)) (rb_fp b)
                       ''sequence_expiry_under_lock'' now) None s
              in (CReply (block_result out InterventionEmpty rel ''expired'') (Some ''retry: expired'')
                    (Some (ch_ChallengeID out)), s'))
        else if ch_State rec = StateExpired
        then (CReply (block_result rec InterventionEmpty rel ''expired'') (Some ''retry: expired'') None, s)
        else if ch_State rec \<in> {StateAllowedOnce, StateRejected, StateHumanReview, StateAbandoned}
        then (CReply (fst (terminal_reply rec b)) (snd (terminal_reply rec b)) None, s)
        else if ch_State rec = StateOpen
        then (let (out, s') = reject_now now req b rec ''retry_without_justification'' s
              in (CReply (block_result out InterventionAppealableChallenge rel ''retry_without_justification'')
                    None (Some (ch_ChallengeID out)), s'))
        else if ch_State rec = StateJustified \<and> ch_RetryBudget rec \<le> 0
        then (let (out, s') = reject_now now req b rec ''budget_exhausted'' s
              in (CReply (block_result out InterventionEmpty rel ''budget_exhausted'') None
                    (Some (ch_ChallengeID out)), s'))
        else if ch_State rec = StateRetryPending then (CWait, s)
        else if ch_State rec \<noteq> StateJustified
        then (CReply (block_result rec InterventionEmpty rel ''invalid_state'') (Some ''retry: invalid state'') None, s)
        else (let ((pending, just), s') = consume_budget now req (rb_key b) rec s
              in (CEvaluate pending just, s')))"

text \<open>The locked section that ends a retry whose owner was cancelled during the re-evaluation.\<close>

definition retry_cancel_locked :: "time \<Rightarrow> retry_request \<Rightarrow> string \<Rightarrow> store \<Rightarrow> store" where
  "retry_cancel_locked now req key s =
     (case gm_get (st_byID s) (rq_ChallengeID req) of
        None \<Rightarrow> s
      | Some cur \<Rightarrow>
          if ch_State cur \<noteq> StateRetryPending then s
          else let (_, s1) = appendTransition (cur\<lparr>ch_ConsumedRetryKey := key, ch_Stage2Decision := DecisionBlock\<rparr>)
                     (rejected_transition StateRetryPending req key ''owner_context_canceled'' [] now) None s;
                   s2 = set_rec (rq_ChallengeID req)
                     (\<lambda>x. x\<lparr>ch_ConsumedRetryKey := key, ch_Stage2Decision := DecisionBlock\<rparr>) s1
               in signalTerminal (rq_ChallengeID req) s2)"

definition verdict_transition ::
  "event_type \<Rightarrow> challenge_state \<Rightarrow> challenge \<Rightarrow> retry_request \<Rightarrow> string \<Rightarrow> string \<Rightarrow> string \<Rightarrow> time \<Rightarrow> transition" where
  "verdict_transition typ to rec req key note audit now =
     \<lparr>tr_from = ch_State rec, tr_to = to, tr_typ = typ, tr_corr = rq_CorrelationID req,
      tr_cause = pa_ActionID (rq_Proposed req), tr_payloadHash = key, tr_note = note, tr_audit = audit, tr_at = now\<rparr>"

definition allow_once :: "reeval_result \<Rightarrow> bool" where
  "allow_once re \<longleftrightarrow> re_Stage2Decision re = DecisionAllow \<and> \<not> isProviderFailOpenReason (re_Reason re)"

text \<open>The three-way verdict: human review, allow once, reject.\<close>

definition write_verdict ::
  "gostd \<Rightarrow> time \<Rightarrow> retry_request \<Rightarrow> string \<Rightarrow> reeval_result \<Rightarrow> challenge \<Rightarrow> store \<Rightarrow> store" where
  "write_verdict std now req key re rec s =
     (let audit = providerCallAuditID std (re_ProviderCall re); i = ch_ChallengeID rec in
      if re_Intervention re = InterventionHumanReview
      then set_rec i (\<lambda>x. x\<lparr>ch_Stage2Decision := DecisionBlock, ch_Intervention := InterventionHumanReview,
                          ch_ConsumedRetryKey := key\<rparr>)
             (snd (appendTransitionAudit (rec\<lparr>ch_Stage2Decision := DecisionBlock,
                ch_Intervention := InterventionHumanReview, ch_ConsumedRetryKey := key\<rparr>)
                (verdict_transition EvHumanReview StateHumanReview rec req key (re_Reason re) audit now) None s))
      else if allow_once re
      then set_rec i (\<lambda>x. x\<lparr>ch_Stage2Decision := DecisionAllow, ch_Intervention := InterventionNone,
                          ch_ConsumedRetryKey := key\<rparr>)
             (snd (appendTransitionAudit (rec\<lparr>ch_Stage2Decision := DecisionAllow,
                ch_Intervention := InterventionNone, ch_ConsumedRetryKey := key\<rparr>)
                (verdict_transition EvAllowedOnce StateAllowedOnce rec req key (re_Reason re) audit now) None s))
      else set_rec i (\<lambda>x. x\<lparr>ch_Stage2Decision := DecisionBlock, ch_ConsumedRetryKey := key\<rparr>)
             (snd (appendTransitionAudit (rec\<lparr>ch_Stage2Decision := DecisionBlock, ch_ConsumedRetryKey := key\<rparr>)
                (verdict_transition EvRejected StateRejected rec req key
                   (if re_Stage2Decision re = DecisionAllow \<and> isProviderFailOpenReason (re_Reason re)
                    then re_Reason re @ ''_no_allowed_once'' else re_Reason re) audit now) None s)))"

definition retry_finish_locked ::
  "gostd \<Rightarrow> time \<Rightarrow> retry_request \<Rightarrow> retry_binding \<Rightarrow> reeval_result \<Rightarrow> store
   \<Rightarrow> (retry_result \<times> go_error option) \<times> store" where
  "retry_finish_locked std now req b re s =
     (let rel = Some (rb_rel b) in
      case gm_get (st_byID s) (rq_ChallengeID req) of
        None \<Rightarrow> ((empty_retry_result, Some ''retry: lost challenge''), s)
      | Some rec \<Rightarrow>
        if expiry_due s rec
        then (let (out, s') = appendTransition rec
                    (expired_transition rec (rq_CorrelationID req) (pa_ActionID (rq_Proposed req)) (rb_fp b)
                       ''sequence_expiry_under_lock'' now) None s
              in ((block_result out InterventionEmpty rel ''expired'', Some ''retry: expired''),
                  signalTerminal (ch_ChallengeID out) s'))
        else if ch_State rec \<in> {StateAllowedOnce, StateRejected, StateHumanReview}
        then (let base = empty_retry_result\<lparr>rt_Record := rec, rt_Intervention := ch_Intervention rec,
                           rt_Relationship := rel, rt_IdempotentReplay := True\<rparr>;
                  s' = signalTerminal (ch_ChallengeID rec) s
              in if ch_State rec = StateAllowedOnce \<and> ch_ConsumedRetryKey rec \<noteq> [] \<and> rb_key b = ch_ConsumedRetryKey rec
                 then ((base\<lparr>rt_Stage2Decision := DecisionAllow\<rparr>, None), s')
                 else if ch_State rec = StateAllowedOnce
                 then ((base\<lparr>rt_Stage2Decision := DecisionBlock, rt_RejectedReason := ''retry_budget_exhausted''\<rparr>,
                        Some ''retry: retry_budget_exhausted''), s')
                 else ((base\<lparr>rt_Stage2Decision := ch_Stage2Decision rec\<rparr>, None), s'))
        else if ch_State rec \<noteq> StateRetryPending
        then ((block_result rec InterventionEmpty rel ''state_changed'', Some ''retry: unexpected state''), s)
        else (let s' = write_verdict std now req (rb_key b) re rec s;
                  out = the (gm_get (st_byID s') (ch_ChallengeID rec))
              in ((empty_retry_result\<lparr>rt_Record := out, rt_Stage2Decision := ch_Stage2Decision out,
                     rt_Intervention := ch_Intervention out, rt_Relationship := rel,
                     rt_ProviderCall := re_ProviderCall re,
                     rt_ProviderCallAuditID := providerCallAuditID std (re_ProviderCall re)\<rparr>, None),
                  signalTerminal (ch_ChallengeID out) s')))"

text \<open>
  \<open>waitTerminal\<close> over the rounds that the environment supplies; \<open>None\<close> means that the waiter is
  still blocked when they end.
\<close>

definition terminal_record :: "store \<Rightarrow> string \<Rightarrow> challenge option" where
  "terminal_record s i =
     (case Get s i of None \<Rightarrow> None | Some r \<Rightarrow> if isTerminal (ch_State r) then Some r else None)"

fun waitTerminal :: "wait_turn list \<Rightarrow> string \<Rightarrow> store \<Rightarrow> challenge go_result option \<times> store" where
  "waitTerminal [] i s =
     (case terminal_record s i of Some r \<Rightarrow> (Some (Inr r), s) | None \<Rightarrow> (None, s))"
| "waitTerminal (t # ts) i s =
     (case terminal_record s i of
        Some r \<Rightarrow> (Some (Inr r), s)
      | None \<Rightarrow>
          (let s2 = wt_b t (terminalWaitCh i (wt_a t s)) in
           case terminal_record s2 i of
             Some r \<Rightarrow> (Some (Inr r), s2)
           | None \<Rightarrow>
               (let s3 = wt_c t s2 in
                if wt_canceled t then (Some (Inl ctx_error), s3)
                else if gm_get (st_terminalCh s3) i = Some True then waitTerminal ts i s3
                else (None, s3))))"

definition after_wait :: "retry_binding \<Rightarrow> challenge \<Rightarrow> retry_result \<times> go_error option" where
  "after_wait b final =
     (let base = empty_retry_result\<lparr>rt_Record := final, rt_Intervention := ch_Intervention final,
                    rt_Relationship := Some (rb_rel b), rt_IdempotentReplay := True\<rparr>
      in if ch_State final = StateAllowedOnce
         then (if ch_ConsumedRetryKey final \<noteq> [] \<and> rb_key b = ch_ConsumedRetryKey final
               then (base\<lparr>rt_Stage2Decision := DecisionAllow, rt_RejectedReason := ''duplicate_retry''\<rparr>, None)
               else (base\<lparr>rt_Stage2Decision := DecisionBlock, rt_RejectedReason := ''retry_budget_exhausted''\<rparr>,
                     Some ''retry: retry_budget_exhausted''))
         else (base\<lparr>rt_Stage2Decision := ch_Stage2Decision final, rt_RejectedReason := ''duplicate_retry''\<rparr>, None))"

definition canceled_result :: "relationship \<Rightarrow> retry_result" where
  "canceled_result rel =
     empty_retry_result\<lparr>rt_RejectedReason := ''context_canceled'', rt_Relationship := Some rel\<rparr>"

definition retry_evaluate ::
  "gostd \<Rightarrow> env \<Rightarrow> retry_request \<Rightarrow> retry_binding \<Rightarrow> challenge \<Rightarrow> justification \<Rightarrow> store
   \<Rightarrow> (retry_result \<times> go_error option) \<times> store" where
  "retry_evaluate std env req b pending just s =
     (case env_reeval env pending (rq_Proposed req) just (rq_ReEval req) of
        (re, None) \<Rightarrow> retry_finish_locked std (env_clock env 2) req b re (env_others env 5 s)
      | (re, Some _) \<Rightarrow>
          if env_ctx env 1
          then ((canceled_result (rb_rel b), Some ctx_error),
                retry_cancel_locked (env_clock env 2) req (rb_key b) (env_others env 5 s))
          else retry_finish_locked std (env_clock env 2) req b
                 (plain_result DecisionBlock InterventionEmpty ''reeval_error'' None) (env_others env 5 s))"

text \<open>What \<open>AttemptRetry\<close> does after the first locked section.\<close>

definition retry_after ::
  "gostd \<Rightarrow> env \<Rightarrow> retry_request \<Rightarrow> retry_binding \<Rightarrow> consume_outcome \<Rightarrow> store
   \<Rightarrow> (retry_result \<times> go_error option) option \<times> store" where
  "retry_after std env req b out s2 =
     (case out of
        CReply res err None \<Rightarrow> (Some (res, err), s2)
      | CReply res err (Some i) \<Rightarrow> (Some (res, err), signalTerminal i (env_others env 4 s2))
      | CWait \<Rightarrow>
          (case waitTerminal (env_wait env) (rq_ChallengeID req) (env_others env 4 s2) of
             (None, s3) \<Rightarrow> (None, s3)
           | (Some (Inl e), s3) \<Rightarrow> (Some (canceled_result (rb_rel b), Some e), s3)
           | (Some (Inr final), s3) \<Rightarrow> (Some (after_wait b final), s3))
      | CEvaluate pending just \<Rightarrow>
          (let (res, s3) = retry_evaluate std env req b pending just s2 in (Some res, s3)))"

text \<open>\<open>None\<close> in the result: the caller is blocked in \<open>waitTerminal\<close>.\<close>

definition AttemptRetry ::
  "gostd \<Rightarrow> env \<Rightarrow> retry_request \<Rightarrow> store \<Rightarrow> (retry_result \<times> go_error option) option \<times> store" where
  "AttemptRetry std env req s0 =
     (if env_ctx env 0 then (Some (empty_retry_result, Some ctx_error), s0)
      else if TrimSpace (rq_ChallengeID req) = []
        then (Some (empty_retry_result, Some ''retry: challenge_id required''), s0)
      else case ValidateProposedForChallenge std (rq_Proposed req) of
        Some e \<Rightarrow> (Some (empty_retry_result\<lparr>rt_Stage2Decision := DecisionBlock,
                      rt_RejectedReason := ''lossy_proposed_action''\<rparr>, Some (''retry: '' @ e)), s0)
      | None \<Rightarrow>
        if TrimSpace (rq_CorrelationID req) = [] \<and> TrimSpace (rq_RetryRequestID req) = []
        then (Some (empty_retry_result\<lparr>rt_Stage2Decision := DecisionBlock,
                 rt_RejectedReason := ''missing_retry_identity''\<rparr>,
               Some ''retry: CorrelationID or RetryRequestID required''), s0)
        else (case Get s0 (rq_ChallengeID req) of
          None \<Rightarrow> (Some (empty_retry_result, Some ''retry: unknown challenge''), s0)
        | Some rec0 \<Rightarrow>
          (case expireIfNeeded (env_clock env 0) (env_others env 1) (env_others env 2) rec0 (env_others env 0 s0) of
             ((rec1, Some e), s1) \<Rightarrow> (Some (block_result rec1 InterventionEmpty None ''expired'', Some e), s1)
           | ((rec1, None), s1) \<Rightarrow>
             (case bind_retry std req rec1 of
                Inl (res, e) \<Rightarrow> (Some (res, Some e), s1)
              | Inr b \<Rightarrow>
                (let (out, s2) = retry_consume_locked (env_clock env 1) req b (env_others env 3 s1)
                 in retry_after std env req b out s2)))))"

section \<open>Abandon and the read-only views\<close>

definition abandon_locked :: "time \<Rightarrow> string \<Rightarrow> string \<Rightarrow> store \<Rightarrow> (challenge \<times> go_error option) \<times> bool \<times> store" where
  "abandon_locked now challengeID corr s =
     (case gm_get (st_byID s) challengeID of
        None \<Rightarrow> ((empty_challenge, Some ''abandon: unknown challenge''), False, s)
      | Some rec \<Rightarrow>
          if isTerminal (ch_State rec) then ((rec, None), False, s)
          else if ch_State rec \<noteq> StateOpen \<and> ch_State rec \<noteq> StateJustified
          then ((rec, Some ''abandon: invalid state''), False, s)
          else (let (out, s') = appendTransition rec
                      \<lparr>tr_from = ch_State rec, tr_to = StateAbandoned, tr_typ = EvAbandoned, tr_corr = corr,
                       tr_cause = challengeID, tr_payloadHash = [], tr_note = ''user_abandon'', tr_audit = [],
                       tr_at = now\<rparr> None s
                in ((out, None), True, s')))"

definition Abandon :: "env \<Rightarrow> string \<Rightarrow> string \<Rightarrow> store \<Rightarrow> (challenge \<times> go_error option) \<times> store" where
  "Abandon env challengeID corr s =
     (case abandon_locked (env_clock env 0) challengeID corr s of
        (res, False, s') \<Rightarrow> (res, s')
      | (res, True, s') \<Rightarrow> (res, signalTerminal (ch_ChallengeID (fst res)) (env_others env 0 s')))"

record audit_record =
  au_SchemaVersion :: string
  au_ChallengeID :: string
  au_SessionID :: string
  au_State :: string
  au_Stage2Decision :: decision
  au_Intervention :: intervention
  au_ActionFingerprint :: string
  au_JustificationHash :: string
  au_PolicyHash :: string
  au_RulesetHash :: string
  au_InputHash :: string
  au_FingerprintHash :: string

definition Audit :: "gostd \<Rightarrow> string \<Rightarrow> store \<Rightarrow> audit_record go_result" where
  "Audit std i s =
     (case Get s i of
        None \<Rightarrow> Inl ''audit: unknown challenge''
      | Some rec \<Rightarrow>
          Inr \<lparr>au_SchemaVersion = SchemaChallengeAudit, au_ChallengeID = ch_ChallengeID rec,
               au_SessionID = ch_SessionID rec, au_State = state_str (ch_State rec),
               au_Stage2Decision = ch_Stage2Decision rec, au_Intervention = ch_Intervention rec,
               au_ActionFingerprint = ch_ActionFingerprint rec, au_JustificationHash = ch_JustificationHash rec,
               au_PolicyHash = ch_PolicyHash rec, au_RulesetHash = ch_RulesetHash rec,
               au_InputHash = hashInput std rec, au_FingerprintHash = ch_ActionFingerprint rec\<rparr>)"

record cache_key_inputs =
  ck_SchemaVersion :: string
  ck_SessionID :: string
  ck_ChallengeID :: string
  ck_ChallengeState :: string
  ck_ActionFingerprint :: string
  ck_JustificationHash :: string
  ck_EvidenceIDsHash :: string
  ck_ContractRevision :: int
  ck_WorkspaceRevision :: string
  ck_RulesetHash :: string
  ck_PolicyHash :: string
  ck_ModelID :: string
  ck_PromptHash :: string
  ck_CanonicalKey :: string

definition hashStrings :: "gostd \<Rightarrow> string list \<Rightarrow> string" where
  "hashStrings std ids =
     (if ids = [] then []
      else take 16 (sha256_hex std (concat (map (\<lambda>i. dec (length i) @ '':'' @ i @ [CHR 0x00]) ids))))"

definition cache_key_fields :: "cache_key_inputs \<Rightarrow> (string \<times> string) list" where
  "cache_key_fields k =
     [(''schema'', ck_SchemaVersion k), (''session'', ck_SessionID k), (''challenge'', ck_ChallengeID k),
      (''state'', ck_ChallengeState k), (''fp'', ck_ActionFingerprint k), (''just'', ck_JustificationHash k),
      (''evidence'', ck_EvidenceIDsHash k), (''contract'', itoa (ck_ContractRevision k)),
      (''ws'', ck_WorkspaceRevision k), (''ruleset'', ck_RulesetHash k), (''policy'', ck_PolicyHash k),
      (''model'', ck_ModelID k), (''prompt'', ck_PromptHash k)]"

definition hashCacheKey :: "gostd \<Rightarrow> cache_key_inputs \<Rightarrow> string" where
  "hashCacheKey std k = take 32 (sha256_hex std (encode_fields (cache_key_fields k)))"

definition BuildCacheKeyInputs :: "gostd \<Rightarrow> challenge \<Rightarrow> string list \<Rightarrow> string \<Rightarrow> string \<Rightarrow> cache_key_inputs" where
  "BuildCacheKeyInputs std rec evidenceIDs modelID promptHash =
     (let k = \<lparr>ck_SchemaVersion = SchemaCacheKeyInputs, ck_SessionID = ch_SessionID rec,
               ck_ChallengeID = ch_ChallengeID rec, ck_ChallengeState = state_str (ch_State rec),
               ck_ActionFingerprint = ch_ActionFingerprint rec, ck_JustificationHash = ch_JustificationHash rec,
               ck_EvidenceIDsHash = hashStrings std (sort evidenceIDs),
               ck_ContractRevision = ch_ContractRevision rec, ck_WorkspaceRevision = ch_WorkspaceRevision rec,
               ck_RulesetHash = ch_RulesetHash rec, ck_PolicyHash = ch_PolicyHash rec, ck_ModelID = modelID,
               ck_PromptHash = promptHash, ck_CanonicalKey = []\<rparr>
      in k\<lparr>ck_CanonicalKey := hashCacheKey std k\<rparr>)"

definition CacheKeyChanges :: "cache_key_inputs \<Rightarrow> cache_key_inputs \<Rightarrow> bool" where
  "CacheKeyChanges a b \<longleftrightarrow> ck_CanonicalKey a \<noteq> ck_CanonicalKey b"

definition CacheKey :: "gostd \<Rightarrow> string \<Rightarrow> string list \<Rightarrow> string \<Rightarrow> string \<Rightarrow> store \<Rightarrow> cache_key_inputs go_result" where
  "CacheKey std i evidence modelID promptHash s =
     (case Get s i of
        None \<Rightarrow> Inl ''cache key: unknown challenge''
      | Some rec \<Rightarrow> Inr (BuildCacheKeyInputs std rec evidence modelID promptHash))"

definition ValidStage2Decision :: "decision \<Rightarrow> bool" where
  "ValidStage2Decision d \<longleftrightarrow> d = DecisionAllow \<or> d = DecisionBlock"

end
