(* ===== verification/ChallengeSections.thy ===== *)
theory ChallengeSections
  imports ChallengeService
begin

text \<open>
  The critical sections of the challenge service, one lemma each: \<open>covers\<close> (or \<open>kept\<close>, when no
  record is added) says that the section keeps the store invariant, only extends the log, leaves
  terminal records and identities alone, and accounts for every challenge it ends, either by
  closing its channel or by a signal that is due after the unlock.
\<close>

section \<open>Terminal transitions and their signals\<close>

definition terminal_in :: "store \<Rightarrow> string \<Rightarrow> bool" where
  "terminal_in s i \<longleftrightarrow> (\<exists>r. gm_get (st_byID s) i = Some r \<and> isTerminal (ch_State r))"

definition closed_in :: "store \<Rightarrow> string \<Rightarrow> bool" where
  "closed_in s i \<longleftrightarrow> gm_get (st_terminalCh s) i = Some True"

text \<open>
  \<open>covers s s' ds\<close>: the store evolved, every challenge that became terminal has its channel
  closed or its signal in \<open>ds\<close>, and channels were closed for terminal challenges only.
\<close>

definition covers :: "store \<Rightarrow> store \<Rightarrow> string list \<Rightarrow> bool" where
  "covers s s' ds \<longleftrightarrow>
     evolves s s' \<and> (gm_get (st_byID s) [] = None \<longrightarrow> gm_get (st_byID s') [] = None)
   \<and> (\<forall>i. terminal_in s' i \<longrightarrow> terminal_in s i \<or> closed_in s' i \<or> i \<in> set ds)
   \<and> (\<forall>i. closed_in s i \<longrightarrow> closed_in s' i)
   \<and> (\<forall>i. closed_in s' i \<longrightarrow> closed_in s i \<or> terminal_in s' i)
   \<and> (\<forall>i \<in> set ds. terminal_in s' i)"

lemma evolves_terminal:
  assumes "evolves s s'" and "terminal_in s i"
  shows "terminal_in s' i"
proof -
  from assms(2) obtain r where r: "gm_get (st_byID s) i = Some r" "isTerminal (ch_State r)"
    by (auto simp: terminal_in_def)
  from assms(1) have "store_ext s s'" by (simp add: evolves_def)
  then obtain r' where "gm_get (st_byID s') i = Some r'" "isTerminal (ch_State r) \<longrightarrow> r' = r"
    using store_ext_record [OF _ r(1)] by metis
  with r show ?thesis by (auto simp: terminal_in_def)
qed

lemma covers_refl: "store_inv s \<Longrightarrow> covers s s []"
  by (simp add: covers_def evolves_refl)

lemma covers_inv: "covers s s' ds \<Longrightarrow> store_inv s'"
  using evolves_inv by (auto simp: covers_def)

lemma covers_trans:
  assumes "covers a b d1" and "covers b c d2"
  shows "covers a c (d1 @ d2)"
proof -
  have "evolves a c" using assms evolves_trans by (auto simp: covers_def)
  moreover have bc: "evolves b c" using assms(2) by (simp add: covers_def)
  moreover have "\<forall>i \<in> set (d1 @ d2). terminal_in c i"
    using assms evolves_terminal [OF bc] by (auto simp: covers_def)
  ultimately show ?thesis using assms evolves_terminal [OF bc] unfolding covers_def by auto
qed

lemma covers_signal:
  assumes "covers s s' ds" and "terminal_in s' i" and "i \<noteq> []"
  shows "covers s (signalTerminal i s') (filter (\<lambda>j. j \<noteq> i) ds)"
proof -
  have t: "terminal_in (signalTerminal i s') = terminal_in s'" by (simp add: terminal_in_def fun_eq_iff)
  have c: "closed_in (signalTerminal i s') j \<longleftrightarrow> j = i \<or> closed_in s' j" for j
    using assms(3) by (auto simp: closed_in_def)
  have "evolves s (signalTerminal i s')"
    using assms(1) same_core_evolves [OF covers_inv [OF assms(1)] signalTerminal_core] evolves_trans
    by (auto simp: covers_def)
  then show ?thesis using assms unfolding covers_def t c by auto
qed

text \<open>A step that only touches the sequence, the barrier, the id counter or opens channels.\<close>

lemma covers_quiet:
  assumes "evolves s s'" and "st_byID s' = st_byID s" and "\<forall>i. closed_in s' i \<longleftrightarrow> closed_in s i"
  shows "covers s s' []"
  using assms by (simp add: covers_def terminal_in_def)

text \<open>\<open>kept\<close>: moreover no record was added or removed.\<close>

definition kept :: "store \<Rightarrow> store \<Rightarrow> string list \<Rightarrow> bool" where
  "kept s s' ds \<longleftrightarrow> covers s s' ds \<and> (\<forall>i. gm_get (st_byID s') i = None \<longleftrightarrow> gm_get (st_byID s) i = None)"

lemma kept_covers: "kept s s' ds \<Longrightarrow> covers s s' ds"
  by (simp add: kept_def)

lemma kept_inv: "kept s s' ds \<Longrightarrow> store_inv s'"
  using covers_inv kept_covers by blast

lemma kept_refl: "store_inv s \<Longrightarrow> kept s s []"
  by (simp add: kept_def covers_refl)

lemma kept_trans: "kept a b d1 \<Longrightarrow> kept b c d2 \<Longrightarrow> kept a c (d1 @ d2)"
  using covers_trans by (auto simp: kept_def)

lemma kept_signal:
  "kept s s' ds \<Longrightarrow> terminal_in s' i \<Longrightarrow> i \<noteq> [] \<Longrightarrow> kept s (signalTerminal i s') (filter (\<lambda>j. j \<noteq> i) ds)"
  using covers_signal by (simp add: kept_def)

lemma kept_empty_id: "kept s s' ds \<Longrightarrow> gm_get (st_byID s) [] = None \<Longrightarrow> gm_get (st_byID s') [] = None"
  by (simp add: kept_def)

text \<open>One committed transition: due when it is terminal.\<close>

lemma kept_staged:
  fixes just :: "justification option"
  assumes inv: "store_inv s" and old: "gm_get (st_byID s) i = Some old" and st: "staged old t rec"
  shows "kept s (snd (appendTransitionAudit rec t just s)) (if isTerminal (tr_to t) then [i] else [])"
proof -
  let ?s' = "snd (appendTransitionAudit rec t just s)"
  note f = staged_step [OF inv old st, of just]
  have c: "closed_in ?s' = closed_in s" by (simp add: closed_in_def f(5) fun_eq_iff)
  have t: "terminal_in ?s' j \<longleftrightarrow> (if j = i then isTerminal (tr_to t) else terminal_in s j)" for j
    by (simp add: terminal_in_def f(2))
  show ?thesis using f(1) old unfolding kept_def covers_def c t by (auto simp: f(2))
qed

lemma store_inv_id:
  assumes "store_inv s" and "gm_get (st_byID s) i = Some r"
  shows "ch_ChallengeID r = i"
  using store_invD(1) [OF assms] .

section \<open>Expiry\<close>

lemma expire_staged:
  assumes "store_inv s" and "gm_get (st_byID s) i = Some cur" and "\<not> isTerminal (ch_State cur)"
  shows "staged cur (expired_transition cur corr cause payload note now) cur"
proof -
  have tr: "tracks (Events s i) cur" by (rule store_invD(2) [OF assms(1,2)])
  have "ch_State cur \<in> {StateOpen, StateJustified, StateRetryPending}"
    using assms(3) tracks_state [OF tr] by (cases "ch_State cur") (auto simp: isTerminal_def)
  then have "legal_edge (ch_State cur) EvExpired StateExpired" by (rule le_expire)
  then show ?thesis
    using assms(3) by (intro staged_unchanged) (use tr in \<open>simp_all add: expired_transition_def\<close>)
qed

lemma appendTransition_plain:
  "tr_audit t = [] \<Longrightarrow> appendTransition rec t just s = appendTransitionAudit rec t just s"
  by (cases t) (simp add: appendTransition_def)

lemma kept_expire:
  assumes "store_inv s" and "gm_get (st_byID s) i = Some cur" and "\<not> isTerminal (ch_State cur)"
  shows "kept s (snd (appendTransition cur (expired_transition cur corr cause payload note now) None s)) [i]"
    and "fst (appendTransition cur (expired_transition cur corr cause payload note now) None s)
       = transition_rec cur (expired_transition cur corr cause payload note now) (st_seq s + 1)"
proof -
  have plain: "tr_audit (expired_transition cur corr cause payload note now) = []"
    "isTerminal (tr_to (expired_transition cur corr cause payload note now))"
    by (simp_all add: expired_transition_def isTerminal_def)
  have "staged cur (expired_transition cur corr cause payload note now) cur"
    by (rule expire_staged [OF assms])
  from kept_staged [OF assms(1,2) this, of None] plain
  show "kept s (snd (appendTransition cur (expired_transition cur corr cause payload note now) None s)) [i]"
    by (simp add: appendTransition_plain)
  show "fst (appendTransition cur (expired_transition cur corr cause payload note now) None s)
       = transition_rec cur (expired_transition cur corr cause payload note now) (st_seq s + 1)"
    using plain by (simp add: appendTransition_plain appendTransitionAudit_def nextSeqLocked_def Let_def)
qed

lemma kept_expire_one:
  assumes "store_inv s" and "gm_get (st_byID s) [] = None"
  shows "kept s (expire_one corr cause payload note now i s) []"
proof (cases "gm_get (st_byID s) i")
  case None
  then show ?thesis using assms by (simp add: expire_one_def kept_refl)
next
  case (Some cur)
  show ?thesis
  proof (cases "isTerminal (ch_State cur)")
    case True
    with Some assms show ?thesis by (simp add: expire_one_def kept_refl)
  next
    case False
    let ?s1 = "snd (appendTransition cur (expired_transition cur corr cause payload note now) None s)"
    have cover: "kept s ?s1 [i]" by (rule kept_expire(1) [OF assms(1) Some False])
    moreover have "terminal_in ?s1 i" using cover by (simp add: kept_def covers_def)
    moreover have "i \<noteq> []" using Some assms(2) by auto
    ultimately have "kept s (signalTerminal i ?s1) (filter (\<lambda>j. j \<noteq> i) [i])" by (rule kept_signal)
    then show ?thesis using Some False by (simp add: expire_one_def)
  qed
qed

lemma kept_fold:
  assumes "\<And>x s. x \<in> set xs \<Longrightarrow> store_inv s \<Longrightarrow> gm_get (st_byID s) [] = None \<Longrightarrow> kept s (f x s) []"
    and "store_inv s" and "gm_get (st_byID s) [] = None"
  shows "kept s (fold f xs s) []"
  using assms
proof (induction xs arbitrary: s)
  case Nil
  then show ?case by (simp add: kept_refl)
next
  case (Cons x xs)
  have one: "kept s (f x s) []" using Cons.prems by simp
  then have "kept (f x s) (fold f xs (f x s)) []"
    using Cons.prems kept_inv [OF one] kept_empty_id [OF one] by (intro Cons.IH) auto
  from kept_trans [OF one this] show ?case by simp
qed

lemma kept_expireActive:
  assumes "store_inv s" and "gm_get (st_byID s) [] = None"
  shows "kept s (expireActiveBySemanticLocked ord sid fp corr cause note now s) []"
  unfolding expireActiveBySemanticLocked_def
  by (rule kept_fold [OF _ assms]) (rule kept_expire_one)

lemma kept_expire_due:
  assumes "store_inv s"
  shows "kept s (snd (expire_due_locked env s)) (fst (expire_due_locked env s))"
proof -
  let ?f = "expire_due_one (st_seq s) (env_clock env 0)"
  have "kept s (snd (?f i acc)) (fst (?f i acc))" if acc: "kept s (snd acc) (fst acc)" for i acc
  proof (cases "gm_get (st_byID (snd acc)) i")
    case None
    with acc show ?thesis by (simp add: expire_due_one_def)
  next
    case (Some rec)
    show ?thesis
    proof (cases "ch_ExpiresAtSequence rec > 0 \<and> st_seq s \<ge> ch_ExpiresAtSequence rec \<and> \<not> isTerminal (ch_State rec)")
      case True
      with Some have "kept (snd acc) (snd (?f i acc)) [i]"
        using kept_expire(1) [OF kept_inv [OF acc] Some] by (simp add: expire_due_one_def)
      from kept_trans [OF acc this] show ?thesis using Some True by (simp add: expire_due_one_def)
    next
      case False
      with Some acc show ?thesis by (auto simp: expire_due_one_def)
    qed
  qed
  then show ?thesis
    unfolding expire_due_locked_def
    by (intro fold_invariant_weak [where I = "\<lambda>acc. kept s (snd acc) (fst acc)"])
      (simp_all add: kept_refl assms)
qed

lemma kept_expire_locked:
  assumes "store_inv s"
  shows "kept s (snd (expire_locked now rec s))
    (if snd (fst (expire_locked now rec s)) then [ch_ChallengeID (fst (fst (expire_locked now rec s)))] else [])"
proof (cases "gm_get (st_byID s) (ch_ChallengeID rec)")
  case None
  then show ?thesis using assms by (simp add: expire_locked_def kept_refl)
next
  case (Some cur)
  note id = store_invD(1) [OF assms Some]
  show ?thesis
  proof (cases "isTerminal (ch_State cur)")
    case True
    with Some assms show ?thesis by (simp add: expire_locked_def kept_refl)
  next
    case False
    let ?t = "expired_transition cur [] (ch_ChallengeID rec) [] ''sequence_expiry'' now"
    obtain u s' where app: "appendTransition cur ?t None s = (u, s')" by (cases "appendTransition cur ?t None s")
    have "kept s s' [ch_ChallengeID rec]" "ch_ChallengeID u = ch_ChallengeID rec"
      using kept_expire [OF assms Some False, of "[]" "ch_ChallengeID rec" "[]" "''sequence_expiry''" now] id
      by (simp_all add: app)
    then show ?thesis using Some False by (simp add: expire_locked_def app)
  qed
qed

section \<open>Open\<close>

lemma kept_mark:
  assumes "store_inv s"
  shows "kept s (mark_plan pl req note s) []"
  unfolding mark_plan_def kept_def
  by (rule conjI, rule covers_quiet [OF mark_evolves [OF assms]]) (simp_all add: closed_in_def)

lemma kept_deny:
  assumes "store_inv s" and "gm_get (st_byID s) [] = None"
  shows "kept s (open_deny_locked ord pl req now s) []"
proof -
  note e = kept_expireActive [OF assms]
  from kept_trans [OF e kept_mark [OF kept_inv [OF e]]]
  show ?thesis by (simp add: open_deny_locked_def)
qed

lemma covers_insert:
  assumes inv: "store_inv s" and new: "gm_get (st_byID s) (ch_ChallengeID rec) = None" "ch_ChallengeID rec \<noteq> []"
    and ev: "ev_ChallengeID ev = ch_ChallengeID rec" "ev_Sequence ev = st_seq s + 1"
    and tracks: "tracks [ev] rec" and conf: "is_active_state (ch_State rec) \<longrightarrow> no_conflict s rec"
  shows "covers s (putLocked rec ev just (s\<lparr>st_seq := st_seq s + 1\<rparr>))
           (if isTerminal (ch_State rec) then [ch_ChallengeID rec] else [])"
proof -
  let ?s1 = "s\<lparr>st_seq := st_seq s + 1\<rparr>"
  let ?s' = "putLocked rec ev just ?s1"
  have "distinct (gm_keys (st_byID ?s1))" using inv by (simp add: store_inv_def)
  moreover have "is_active_state (ch_State rec) \<longrightarrow> no_conflict ?s1 rec" using conf by (simp add: no_conflict_def)
  ultimately have f: "st_byID ?s' = gm_put (ch_ChallengeID rec) rec (st_byID s)" "st_terminalCh ?s' = st_terminalCh s"
    by (simp_all add: putLocked_fields)
  have c: "closed_in ?s' = closed_in s" by (simp add: closed_in_def f fun_eq_iff)
  have t: "terminal_in ?s' j \<longleftrightarrow> (if j = ch_ChallengeID rec then isTerminal (ch_State rec) else terminal_in s j)" for j
    by (simp add: terminal_in_def f)
  show ?thesis
    using insert_step [OF inv new(1) ev tracks conf, of just] new unfolding covers_def c t by (auto simp: f)
qed

lemma human_tracks:
  assumes "rec = transition_rec (human_record pl req i now)
      \<lparr>tr_from = StateEmpty, tr_to = StateHumanReview, tr_typ = EvHumanReview, tr_corr = co, tr_cause = ca,
       tr_payloadHash = ph, tr_note = no, tr_audit = [], tr_at = now\<rparr> q"
    and "ev = transition_event rec
      \<lparr>tr_from = StateEmpty, tr_to = StateHumanReview, tr_typ = EvHumanReview, tr_corr = co, tr_cause = ca,
       tr_payloadHash = ph, tr_note = no, tr_audit = [], tr_at = now\<rparr> q"
  shows "tracks [ev] rec"
proof -
  have "legal_path StateEmpty ([] @ [ev]) (ev_ToState ev)"
    using assms by (intro lp_snoc [OF lp_Nil]) (simp_all add: le_open_hr)
  then show ?thesis
    using assms
    by (simp add: tracks_def snapshot_fits_def human_record_def open_base_def empty_challenge_def
        decision_after_def intervention_after_def budget_after_def justified_hash_ok_def live_key_def
        audit_after_def)
qed

lemma covers_human:
  assumes inv: "store_inv s" "gm_get (st_byID s) [] = None" and new: "gm_get (st_byID s) i = None" "i \<noteq> []"
  shows "covers s (snd (open_human_locked ord pl req i now s)) [i]"
    and "ch_ChallengeID (fst (open_human_locked ord pl req i now s)) = i"
proof -
  define s1 where "s1 = mark_plan pl req ''human_review''
    (expireActiveBySemanticLocked ord (pl_SessionID pl) (pl_FP pl) (or_CorrelationID req)
       (pa_ActionID (or_Proposed req)) ''superseded_by_human_review'' now s)"
  note e = kept_expireActive [OF inv]
  have s1: "kept s s1 []"
    using kept_trans [OF e kept_mark [OF kept_inv [OF e]]] by (simp add: s1_def)
  then have new1: "gm_get (st_byID s1) i = None" using new by (simp add: kept_def)
  define t where "t = \<lparr>tr_from = StateEmpty, tr_to = StateHumanReview, tr_typ = EvHumanReview,
        tr_corr = or_CorrelationID req, tr_cause = pa_ActionID (or_Proposed req),
        tr_payloadHash = fr_Fingerprint (pl_FP pl), tr_note = ''open_human_review'', tr_audit = [], tr_at = now\<rparr>"
  let ?rec = "transition_rec (human_record pl req i now) t (st_seq s1 + 1)"
  let ?ev = "transition_event ?rec t (st_seq s1 + 1)"
  have op: "snd (open_human_locked ord pl req i now s) = putLocked ?rec ?ev None (s1\<lparr>st_seq := st_seq s1 + 1\<rparr>)"
    unfolding open_human_locked_def s1_def [symmetric] t_def [symmetric]
    by (simp add: t_def appendTransition_plain appendTransitionAudit_def nextSeqLocked_def Let_def)
  have id: "ch_ChallengeID ?rec = i" by (simp add: human_record_def)
  have state: "ch_State ?rec = StateHumanReview" by (simp add: t_def)
  have "tracks [?ev] ?rec" by (rule human_tracks) (simp_all add: t_def)
  then have "covers s1 (putLocked ?rec ?ev None (s1\<lparr>st_seq := st_seq s1 + 1\<rparr>)) [i]"
    using covers_insert [of s1 ?rec ?ev None] kept_inv [OF s1] new1 new(2) id state
    by (simp add: isTerminal_def is_active_state_def)
  from covers_trans [OF kept_covers [OF s1] this]
  show "covers s (snd (open_human_locked ord pl req i now s)) [i]" by (simp add: op)
  show "ch_ChallengeID (fst (open_human_locked ord pl req i now s)) = i"
    by (simp add: open_human_locked_def appendTransition_def appendTransitionAudit_def nextSeqLocked_def Let_def
        human_record_def)
qed

text \<open>The reclaim loop expires every hit except the one it returns.\<close>

lemma reclaim_spec:
  assumes "reclaim pl req now hits found s = (found', s')" and "store_inv s" "gm_get (st_byID s) [] = None"
    and "distinct (map fst hits)"
    and "\<forall>(i, h) \<in> set hits. gm_get (st_byID s) i = Some h \<and> \<not> isTerminal (ch_State h)"
  shows "kept s s' [] \<and> (\<forall>j. j \<notin> fst ` set hits \<longrightarrow> gm_get (st_byID s') j = gm_get (st_byID s) j)
    \<and> (found' = None \<longrightarrow> found = None \<and> (\<forall>i \<in> fst ` set hits. terminal_in s' i))
    \<and> (\<forall>m. found' = Some m \<longrightarrow> found = Some m \<or> (\<exists>i. (i, m) \<in> set hits \<and> gm_get (st_byID s') i = Some m
          \<and> policyIdentityMatch m pl req))"
  using assms
proof (induction hits arbitrary: found s)
  case Nil
  then show ?case by (simp add: kept_refl)
next
  case (Cons x hits)
  obtain i h where x: "x = (i, h)" by (cases x)
  have cur: "gm_get (st_byID s) i = Some h" "\<not> isTerminal (ch_State h)" using Cons.prems(5) x by auto
  show ?case
  proof (cases "policyIdentityMatch h pl req \<and> found = None")
    case True
    then have "reclaim pl req now hits (Some h) s = (found', s')" using Cons.prems(1) x by simp
    from Cons.IH [OF this Cons.prems(2,3)] Cons.prems(4,5) have IH:
      "kept s s' []" "\<forall>j. j \<notin> fst ` set hits \<longrightarrow> gm_get (st_byID s') j = gm_get (st_byID s) j"
      "found' \<noteq> None"
      "\<forall>m. found' = Some m \<longrightarrow> m = h \<or> (\<exists>i. (i, m) \<in> set hits \<and> gm_get (st_byID s') i = Some m
          \<and> policyIdentityMatch m pl req)"
      by auto
    moreover have "gm_get (st_byID s') i = Some h" using IH(2) Cons.prems(4) x cur(1) by simp
    ultimately show ?thesis using True x by auto
  next
    case False
    define t where "t = expired_transition h (or_CorrelationID req) i (fr_Fingerprint (pl_FP pl))
              (if policyIdentityMatch h pl req then ''superseded_duplicate_open''
               else ''superseded_by_policy_change'') now"
    define s1 where "s1 = signalTerminal i (snd (appendTransition h t None s))"
    have run: "reclaim pl req now hits found s1 = (found', s')"
      using False Cons.prems(1) by (auto simp: x s1_def t_def)
    have ne: "i \<noteq> []" using cur Cons.prems(3) by auto
    have app: "kept s (snd (appendTransition h t None s)) [i]"
      unfolding t_def by (rule kept_expire(1) [OF Cons.prems(2) cur])
    then have trm: "terminal_in (snd (appendTransition h t None s)) i" by (simp add: kept_def covers_def)
    have k1: "kept s s1 []" using kept_signal [OF app trm ne] by (simp add: s1_def)
    have "staged h t h" unfolding t_def by (rule expire_staged [OF Cons.prems(2) cur])
    then have upd: "st_byID s1 = gm_put i (transition_rec h t (st_seq s + 1)) (st_byID s)"
      using staged_step(2) [OF Cons.prems(2) cur(1), of t h None]
      by (simp add: s1_def appendTransition_plain t_def expired_transition_def)
    have others: "gm_get (st_byID s1) j = Some g \<and> \<not> isTerminal (ch_State g)" if "(j, g) \<in> set hits" for j g
    proof -
      have "j \<noteq> i" using that Cons.prems(4) x by (force simp: image_iff)
      with that Cons.prems(5) show ?thesis by (auto simp: upd)
    qed
    then have "\<forall>(j, g) \<in> set hits. gm_get (st_byID s1) j = Some g \<and> \<not> isTerminal (ch_State g)" by blast
    from Cons.IH [OF run kept_inv [OF k1] kept_empty_id [OF k1 Cons.prems(3)] _ this] Cons.prems(4)
    have IH: "kept s1 s' []" "\<forall>j. j \<notin> fst ` set hits \<longrightarrow> gm_get (st_byID s') j = gm_get (st_byID s1) j"
      "found' = None \<longrightarrow> found = None \<and> (\<forall>i \<in> fst ` set hits. terminal_in s' i)"
      "\<forall>m. found' = Some m \<longrightarrow> found = Some m \<or> (\<exists>i. (i, m) \<in> set hits \<and> gm_get (st_byID s') i = Some m
          \<and> policyIdentityMatch m pl req)"
      by auto
    have "terminal_in s1 i" using trm by (simp add: s1_def terminal_in_def)
    then have "terminal_in s' i" using IH(1) evolves_terminal by (auto simp: kept_def covers_def)
    moreover have "kept s s' []" using kept_trans [OF k1 IH(1)] by simp
    moreover have "\<forall>j. j \<notin> fst ` set ((i, h) # hits) \<longrightarrow> gm_get (st_byID s') j = gm_get (st_byID s) j"
      using IH(2) by (simp add: upd)
    ultimately show ?thesis using IH(3,4) by (auto simp: x)
  qed
qed

lemma matching_ids_spec:
  assumes "store_inv s" and "valid_order ord"
  shows "distinct (matching_ids ord P s)"
    and "i \<in> set (matching_ids ord P s) \<longleftrightarrow> (\<exists>r. gm_get (st_byID s) i = Some r \<and> P r)"
proof -
  have d: "distinct (gm_keys (st_byID s))" using assms(1) by (simp add: store_inv_def)
  show "distinct (matching_ids ord P s)"
    using valid_orderD(1) [OF assms(2) d] by (simp add: matching_ids_def)
  show "i \<in> set (matching_ids ord P s) \<longleftrightarrow> (\<exists>r. gm_get (st_byID s) i = Some r \<and> P r)"
    using valid_orderD(2) [OF assms(2) d] gm_keys_dom [of i "st_byID s"]
    by (auto simp: matching_ids_def split: option.splits)
qed

lemma opened_tracks:
  assumes "rec = (appeal_record pl req i nonce now)\<lparr>ch_CreatedSequence := q, ch_UpdatedSequence := q\<rparr>
     \<or> rec = (appeal_record pl req i nonce now)\<lparr>ch_CreatedSequence := q, ch_UpdatedSequence := q,
          ch_ExpiresAtSequence := x\<rparr>"
    and "q \<noteq> 0"
  shows "tracks [opened_event req rec q now] rec"
proof -
  let ?ev = "opened_event req rec q now"
  have "legal_path StateEmpty ([] @ [?ev]) (ev_ToState ?ev)"
    by (intro lp_snoc [OF lp_Nil]) (simp_all add: le_open opened_event_def)
  then show ?thesis
    using assms
    by (auto simp: tracks_def snapshot_fits_def appeal_record_def open_base_def empty_challenge_def
        opened_event_def decision_after_def intervention_after_def budget_after_def justified_hash_ok_def
        live_key_def verdict_event_def audit_after_def InitialRetryBudget_def)
qed

lemma insert_open_record:
  obtains r2 where "insert_open req (appeal_record pl req i nonce now) now s =
      (r2, putLocked r2 (opened_event req r2 (st_seq s + 1) now) None (s\<lparr>st_seq := st_seq s + 1\<rparr>))"
    and "ch_ChallengeID r2 = i" "ch_SessionID r2 = pl_SessionID pl" "ch_State r2 = StateOpen"
    "ch_ActionFingerprint r2 = fr_Fingerprint (pl_FP pl)" "ch_BlockClass r2 = pl_BlockClass pl"
    and "st_seq s + 1 \<noteq> 0 \<Longrightarrow> tracks [opened_event req r2 (st_seq s + 1) now] r2"
proof -
  let ?q = "st_seq s + 1"
  let ?r1 = "(appeal_record pl req i nonce now)\<lparr>ch_CreatedSequence := ?q, ch_UpdatedSequence := ?q\<rparr>"
  let ?r2 = "if or_ExpiresAfterSequences req > 0
     then ?r1\<lparr>ch_ExpiresAtSequence := wrap64 (?q + or_ExpiresAfterSequences req)\<rparr> else ?r1"
  show ?thesis
  proof (rule that [of ?r2])
    show "insert_open req (appeal_record pl req i nonce now) now s =
      (?r2, putLocked ?r2 (opened_event req ?r2 ?q now) None (s\<lparr>st_seq := ?q\<rparr>))"
      by (simp add: insert_open_def nextSeqLocked_def Let_def)
    show "tracks [opened_event req ?r2 ?q now] ?r2" if "?q \<noteq> 0"
      using that by (intro opened_tracks [where x = "wrap64 (?q + or_ExpiresAfterSequences req)"]) auto
  qed (auto simp: appeal_record_def open_base_def)
qed

lemma collect_hits_spec:
  assumes "store_inv s" and "valid_order ord"
  shows "distinct (map fst (collect_hits ord pl s))"
    and "(i, h) \<in> set (collect_hits ord pl s) \<longleftrightarrow> gm_get (st_byID s) i = Some h \<and> open_hit pl h"
proof -
  have "map fst (collect_hits ord pl s) = matching_ids ord (open_hit pl) s"
    by (simp add: collect_hits_def comp_def)
  then show "distinct (map fst (collect_hits ord pl s))" using matching_ids_spec(1) [OF assms] by simp
  show "(i, h) \<in> set (collect_hits ord pl s) \<longleftrightarrow> gm_get (st_byID s) i = Some h \<and> open_hit pl h"
    using matching_ids_spec(2) [OF assms, of _ "open_hit pl"] by (auto simp: collect_hits_def image_iff)
qed

lemma kept_reclaim:
  assumes inv: "store_inv s" "gm_get (st_byID s) [] = None" and ord: "valid_order ord"
    and run: "reclaim pl req now (collect_hits ord pl s) None s = (found, s')"
  shows "kept s s' []"
    and "found = None \<Longrightarrow> gm_get (st_byID s') i = Some r \<Longrightarrow> ch_SessionID r = pl_SessionID pl
           \<Longrightarrow> ch_ActionFingerprint r = fr_Fingerprint (pl_FP pl) \<Longrightarrow> isTerminal (ch_State r)"
    and "found = Some m \<Longrightarrow> \<exists>j. gm_get (st_byID s') j = Some m \<and> open_hit pl m \<and> policyIdentityMatch m pl req"
proof -
  have "\<forall>(i, h) \<in> set (collect_hits ord pl s). gm_get (st_byID s) i = Some h \<and> \<not> isTerminal (ch_State h)"
    using collect_hits_spec(2) [OF inv(1) ord] by (auto simp: open_hit_def)
  note spec = reclaim_spec [OF run inv collect_hits_spec(1) [OF inv(1) ord] this]
  then show k: "kept s s' []" by simp
  show "isTerminal (ch_State r)" if "found = None" and get: "gm_get (st_byID s') i = Some r"
    and same: "ch_SessionID r = pl_SessionID pl" "ch_ActionFingerprint r = fr_Fingerprint (pl_FP pl)"
  proof (cases "i \<in> fst ` set (collect_hits ord pl s)")
    case True
    with spec that(1) have "terminal_in s' i" by blast
    with get show ?thesis by (simp add: terminal_in_def)
  next
    case False
    with spec get have "gm_get (st_byID s) i = Some r" by simp
    with False collect_hits_spec(2) [OF inv(1) ord, of i r pl] same show ?thesis
      by (force simp: open_hit_def)
  qed
  show "\<exists>j. gm_get (st_byID s') j = Some m \<and> open_hit pl m \<and> policyIdentityMatch m pl req" if "found = Some m"
    using spec that collect_hits_spec(2) [OF inv(1) ord] by blast
qed

lemma covers_appeal:
  assumes inv: "store_inv s" "gm_get (st_byID s) [] = None" and ord: "valid_order ord"
    and new: "gm_get (st_byID s) i = None" "i \<noteq> []"
  shows "covers s (snd (open_appeal_locked ord pl req ticket (appeal_record pl req i nonce now) now s)) []"
proof (cases "nonAppealBarrierNoteLocked ord (pl_SessionID pl) (fr_Fingerprint (pl_FP pl)) (or_PolicyVersion req)
             (or_RulesetHash req) ticket (fr_SideEffectClass (pl_FP pl)) (fr_TargetResources (pl_FP pl))
             (fr_OperationDigest (pl_FP pl)) s")
  case (Some n)
  then show ?thesis using inv by (simp add: open_appeal_locked_def covers_refl)
next
  case None
  obtain found s1 where run: "reclaim pl req now (collect_hits ord pl s) None s = (found, s1)"
    by (cases "reclaim pl req now (collect_hits ord pl s) None s")
  note k = kept_reclaim [OF inv ord run]
  show ?thesis
  proof (cases found)
    case (Some m)
    with None run k(1) show ?thesis by (simp add: open_appeal_locked_def kept_covers)
  next
    case found: None
    have inv1: "store_inv s1" using k(1) by (rule kept_inv)
    obtain r2 where ins: "insert_open req (appeal_record pl req i nonce now) now s1 =
        (r2, putLocked r2 (opened_event req r2 (st_seq s1 + 1) now) None (s1\<lparr>st_seq := st_seq s1 + 1\<rparr>))"
      and r2: "ch_ChallengeID r2 = i" "ch_SessionID r2 = pl_SessionID pl" "ch_State r2 = StateOpen"
        "ch_ActionFingerprint r2 = fr_Fingerprint (pl_FP pl)"
      and tr: "st_seq s1 + 1 \<noteq> 0 \<Longrightarrow> tracks [opened_event req r2 (st_seq s1 + 1) now] r2"
      by (rule insert_open_record [of req pl i nonce now s1]) blast
    have "no_conflict s1 r2" using k(2) [OF found] r2 by (auto simp: no_conflict_def)
    moreover have "st_seq s1 + 1 \<noteq> 0" using inv1 by (auto simp: store_inv_def log_ordered_def)
    moreover have "gm_get (st_byID s1) i = None" using k(1) new(1) by (simp add: kept_def)
    ultimately have "covers s1 (putLocked r2 (opened_event req r2 (st_seq s1 + 1) now) None
        (s1\<lparr>st_seq := st_seq s1 + 1\<rparr>)) []"
      using covers_insert [of s1 r2 "opened_event req r2 (st_seq s1 + 1) now" None] inv1 r2 new(2) tr
      by (simp add: isTerminal_def opened_event_def)
    from covers_trans [OF kept_covers [OF k(1)] this] show ?thesis
      using None run found ins by (simp add: open_appeal_locked_def)
  qed
qed

section \<open>Justify, retry and abandon\<close>

lemma set_rec_noop:
  assumes "gm_get (st_byID s) i = Some r" and "f r = r"
  shows "set_rec i f s = s"
  using assms by (simp add: set_rec_def AList.update_triv)

lemma terminal_after:
  assumes "st_byID s' = gm_put i r m" and "isTerminal (ch_State r)"
  shows "terminal_in s' i"
  using assms by (simp add: terminal_in_def)

lemma kept_justify:
  assumes inv: "store_inv s" and run: "justify_locked now i clean jh s = (res, due, s')"
  shows "kept s s' (if due then [ch_ChallengeID (fst res)] else [])"
proof (cases "gm_get (st_byID s) i")
  case None
  then show ?thesis using run inv by (simp add: justify_locked_def kept_refl)
next
  case (Some rec)
  note id = store_invD(1) [OF inv Some]
  consider (due) "expiry_due s rec" | (commit) "\<not> expiry_due s rec" "ch_State rec = StateOpen"
    | (no) "\<not> expiry_due s rec" "ch_State rec \<noteq> StateOpen" by blast
  then show ?thesis
  proof cases
    case due
    then have "\<not> isTerminal (ch_State rec)" by (simp add: expiry_due_def)
    note e = kept_expire [OF inv Some this, of "ju_ChallengeID clean" "ch_OriginalActionID rec" "[]"
        "''sequence_expiry_under_lock''" now]
    show ?thesis using run Some due e id
      by (cases "appendTransition rec (expired_transition rec (ju_ChallengeID clean) (ch_OriginalActionID rec) []
           ''sequence_expiry_under_lock'' now) None s")
        (auto simp: justify_locked_def)
  next
    case commit
    let ?t = "justified_transition rec (ju_ChallengeID clean) jh now"
    have st: "staged rec ?t (rec\<lparr>ch_JustificationHash := jh\<rparr>)"
      using tracks_nonterminal [OF store_invD(2) [OF inv Some]] commit(2)
      by (simp add: staged_def justified_transition_def isTerminal_def le_justify identity_of_def)
    from kept_staged [OF inv Some st, of "Some clean"]
    have "kept s (snd (appendTransition (rec\<lparr>ch_JustificationHash := jh\<rparr>) ?t (Some clean) s)) []"
      by (simp add: appendTransition_plain justified_transition_def isTerminal_def)
    then show ?thesis using run Some commit by (auto simp: justify_locked_def split: prod.splits)
  next
    case no
    then show ?thesis using run Some inv by (auto simp: justify_locked_def kept_refl split: if_splits)
  qed
qed

lemma kept_abandon:
  assumes inv: "store_inv s" and run: "abandon_locked now i corr s = (res, due, s')"
  shows "kept s s' (if due then [ch_ChallengeID (fst res)] else [])"
proof (cases "gm_get (st_byID s) i")
  case None
  then show ?thesis using run inv by (simp add: abandon_locked_def kept_refl)
next
  case (Some rec)
  note id = store_invD(1) [OF inv Some]
  let ?t = "\<lparr>tr_from = ch_State rec, tr_to = StateAbandoned, tr_typ = EvAbandoned, tr_corr = corr,
     tr_cause = i, tr_payloadHash = [], tr_note = ''user_abandon'', tr_audit = [], tr_at = now\<rparr>"
  show ?thesis
  proof (cases "ch_State rec \<in> {StateOpen, StateJustified}")
    case True
    have nt: "\<not> isTerminal (ch_State rec)" using True by (auto simp: isTerminal_def)
    have st: "staged rec ?t rec"
      by (rule staged_unchanged [OF store_invD(2) [OF inv Some] nt]) (use True le_abandon in auto)
    from kept_staged [OF inv Some st, of None]
    have "kept s (snd (appendTransition rec ?t None s)) [i]"
      by (simp add: appendTransition_plain isTerminal_def)
    moreover have "ch_ChallengeID (fst (appendTransition rec ?t None s)) = i"
      using id by (simp add: appendTransition_plain appendTransitionAudit_def nextSeqLocked_def Let_def)
    ultimately show ?thesis using run Some True nt
      by (cases "appendTransition rec ?t None s") (auto simp: abandon_locked_def)
  next
    case False
    then show ?thesis using run Some inv by (auto simp: abandon_locked_def kept_refl split: if_splits)
  qed
qed

lemma kept_reject_now:
  assumes inv: "store_inv s" and get: "gm_get (st_byID s) i = Some rec"
    and state: "ch_State rec \<in> {StateOpen, StateJustified}"
  shows "kept s (snd (reject_now now req b rec note s)) [i]"
    and "ch_ChallengeID (fst (reject_now now req b rec note s)) = i"
proof -
  let ?t = "rejected_transition (ch_State rec) req (rb_fp b) note [] now"
  note id = store_invD(1) [OF inv get] and tr = store_invD(2) [OF inv get]
  have nt: "\<not> isTerminal (ch_State rec)" using state by (auto simp: isTerminal_def)
  have st: "staged rec ?t rec"
    by (rule staged_unchanged [OF tr nt]) (use state le_reject in \<open>auto simp: rejected_transition_def\<close>)
  note f = staged_step [OF inv get st, of None]
  have app: "appendTransition rec ?t None s = appendTransitionAudit rec ?t None s"
    by (rule appendTransition_plain) (simp add: rejected_transition_def)
  obtain r s1 where rs: "appendTransitionAudit rec ?t None s = (r, s1)" by (cases "appendTransitionAudit rec ?t None s")
  have r: "r = transition_rec rec ?t (st_seq s + 1)"
    using rs by (simp add: appendTransitionAudit_def nextSeqLocked_def Let_def)
  have "gm_get (st_byID s1) i = Some r" using f(2) rs r by simp
  then have "set_rec (ch_ChallengeID r) (\<lambda>x. x\<lparr>ch_Stage2Decision := DecisionBlock\<rparr>) s1 = s1"
    using id r tracks_nonterminal(5) [OF tr nt] by (intro set_rec_noop [of _ _ r]) simp_all
  then have eq: "reject_now now req b rec note s = (r\<lparr>ch_Stage2Decision := DecisionBlock\<rparr>, s1)"
    by (simp add: reject_now_def app rs)
  have "kept s s1 (if isTerminal (tr_to ?t) then [i] else [])"
    using kept_staged [OF inv get st, of None] by (simp only: rs snd_conv)
  then show "kept s (snd (reject_now now req b rec note s)) [i]"
    by (simp add: eq rejected_transition_def isTerminal_def)
  show "ch_ChallengeID (fst (reject_now now req b rec note s)) = i" using id by (simp add: eq r)
qed

lemma consume_budget_transition:
  fixes req :: retry_request and key :: string and now :: time
  assumes inv: "store_inv s" and get: "gm_get (st_byID s) i = Some rec" and state: "ch_State rec = StateJustified"
  defines "t \<equiv> \<lparr>tr_from = StateJustified, tr_to = StateRetryPending, tr_typ = EvBudgetConsumed,
     tr_corr = rq_CorrelationID req, tr_cause = pa_ActionID (rq_Proposed req), tr_payloadHash = key,
     tr_note = ''one_shot_budget'', tr_audit = [], tr_at = now\<rparr>"
  defines "rec1 \<equiv> rec\<lparr>ch_RetryBudget := ch_RetryBudget rec - 1\<rparr>"
  shows "staged rec t rec1" and "ch_RetryBudget rec = 1"
    and "snd (consume_budget now req key rec s) = snd (appendTransitionAudit rec1 t None s)"
    and "fst (fst (consume_budget now req key rec s)) = transition_rec rec1 t (st_seq s + 1)"
proof -
  note tr = store_invD(2) [OF inv get]
  have nt: "\<not> isTerminal (ch_State rec)" using state by (simp add: isTerminal_def)
  show "staged rec t rec1"
    using tracks_nonterminal [OF tr nt] state
    by (simp add: staged_def t_def rec1_def le_budget identity_of_def)
  have "legal_path StateEmpty (Events s i) StateJustified" using tr state by (simp add: tracks_def)
  then have "\<not> has_type EvBudgetConsumed (Events s i)" by (intro path_types(3)) auto
  then show one: "ch_RetryBudget rec = 1"
    using tr tracks_nonterminal(1) [OF tr nt] by (simp add: tracks_def budget_after_def)
  have swap: "rec\<lparr>ch_RetryBudget := x, ch_UpdatedSequence := q, ch_UpdatedAt := now, ch_State := StateRetryPending\<rparr>
      = rec\<lparr>ch_RetryBudget := x, ch_State := StateRetryPending, ch_UpdatedSequence := q, ch_UpdatedAt := now\<rparr>" for x q
    by (cases rec) simp
  from one show "snd (consume_budget now req key rec s) = snd (appendTransitionAudit rec1 t None s)"
    "fst (fst (consume_budget now req key rec s)) = transition_rec rec1 t (st_seq s + 1)"
    by (simp_all add: consume_budget_def appendTransitionAudit_def nextSeqLocked_def Let_def t_def rec1_def
        state swap transition_rec_def transition_event_def budget_event_def)
qed

definition outcome_due :: "consume_outcome \<Rightarrow> string list" where
  "outcome_due out = (case out of CReply _ _ (Some i) \<Rightarrow> [i] | _ \<Rightarrow> [])"

lemma kept_consume:
  assumes inv: "store_inv s" and run: "retry_consume_locked now req b s = (out, s')"
  shows "kept s s' (outcome_due out)"
proof (cases "gm_get (st_byID s) (rq_ChallengeID req)")
  case None
  then show ?thesis using run inv by (auto simp: retry_consume_locked_def kept_refl outcome_due_def)
next
  case (Some rec)
  note id = store_invD(1) [OF inv Some] and tr = store_invD(2) [OF inv Some]
  consider (due) "expiry_due s rec"
    | (reject) "\<not> expiry_due s rec" "ch_State rec = StateOpen"
    | (commit) "\<not> expiry_due s rec" "ch_State rec = StateJustified"
    | (quiet) "\<not> expiry_due s rec" "ch_State rec \<notin> {StateOpen, StateJustified}" by blast
  then show ?thesis
  proof cases
    case due
    then have nt: "\<not> isTerminal (ch_State rec)" by (simp add: expiry_due_def)
    note e = kept_expire [OF inv Some nt, of "rq_CorrelationID req" "pa_ActionID (rq_Proposed req)" "rb_fp b"
        "''sequence_expiry_under_lock''" now]
    show ?thesis using run Some due e id
      by (cases "appendTransition rec (expired_transition rec (rq_CorrelationID req) (pa_ActionID (rq_Proposed req))
           (rb_fp b) ''sequence_expiry_under_lock'' now) None s")
        (auto simp: retry_consume_locked_def outcome_due_def)
  next
    case reject
    then have "ch_State rec \<in> {StateOpen, StateJustified}" by simp
    note k = kept_reject_now [OF inv Some this, of now req b "''retry_without_justification''"]
    show ?thesis using run Some reject k
      by (cases "reject_now now req b rec ''retry_without_justification'' s")
        (auto simp: retry_consume_locked_def outcome_due_def)
  next
    case commit
    note c = consume_budget_transition [OF inv Some commit(2)]
    have "kept s (snd (consume_budget now req (rb_key b) rec s)) []"
      using kept_staged [OF inv Some c(1), where just = None] by (simp add: isTerminal_def c(3))
    then show ?thesis using run Some commit c(2)
      by (auto simp: retry_consume_locked_def outcome_due_def split: prod.splits)
  next
    case quiet
    then show ?thesis using run Some inv tracks_state [OF tr]
      by (cases "ch_State rec") (auto simp: retry_consume_locked_def outcome_due_def kept_refl Let_def)
  qed
qed

text \<open>
  Writing a verdict: the writes through the map after the transition repeat what the committed
  record already has, so a verdict is one transition out of \<open>RETRY_PENDING\<close>.
\<close>

lemma verdict_commit:
  assumes inv: "store_inv s" and get: "gm_get (st_byID s) i = Some rec" and st: "staged rec t rec1"
    and trm: "isTerminal (tr_to t)" and same: "f (transition_rec rec1 t (st_seq s + 1)) = transition_rec rec1 t (st_seq s + 1)"
  shows "kept s (set_rec i f (snd (appendTransitionAudit rec1 t None s))) [i]"
    and "set_rec i f (snd (appendTransitionAudit rec1 t None s)) = snd (appendTransitionAudit rec1 t None s)"
    and "gm_get (st_byID (set_rec i f (snd (appendTransitionAudit rec1 t None s)))) i
       = Some (transition_rec rec1 t (st_seq s + 1))"
proof -
  note byid = staged_step(2) [OF inv get st, of None]
  have "set_rec i f (snd (appendTransitionAudit rec1 t None s)) = snd (appendTransitionAudit rec1 t None s)"
    by (rule set_rec_noop [where f = f, OF _ same]) (simp add: byid)
  then show "kept s (set_rec i f (snd (appendTransitionAudit rec1 t None s))) [i]"
    "set_rec i f (snd (appendTransitionAudit rec1 t None s)) = snd (appendTransitionAudit rec1 t None s)"
    "gm_get (st_byID (set_rec i f (snd (appendTransitionAudit rec1 t None s)))) i
       = Some (transition_rec rec1 t (st_seq s + 1))"
    using kept_staged [OF inv get st, of None] trm by (simp_all add: byid)
qed

text \<open>The event type that a re-evaluation result leads to.\<close>

definition verdict_of :: "reeval_result \<Rightarrow> event_type" where
  "verdict_of re =
     (if re_Intervention re = InterventionHumanReview then EvHumanReview
      else if allow_once re then EvAllowedOnce else EvRejected)"

definition verdict_state :: "event_type \<Rightarrow> challenge_state" where
  "verdict_state t = (if t = EvHumanReview then StateHumanReview
     else if t = EvAllowedOnce then StateAllowedOnce else StateRejected)"

lemma write_verdict_step:
  assumes inv: "store_inv s" and get: "gm_get (st_byID s) i = Some rec" and state: "ch_State rec = StateRetryPending"
  obtains r ev where "kept s (write_verdict std now req key re rec s) [i]"
    "gm_get (st_byID (write_verdict std now req key re rec s)) i = Some r"
    "st_events (write_verdict std now req key re rec s) = st_events s @ [ev]"
    "ev_Type ev = verdict_of re" "ev_ChallengeID ev = i" "ev_FromState ev = StateRetryPending"
    "ch_State r = verdict_state (verdict_of re)" "ch_ConsumedRetryKey r = key" "ch_ChallengeID r = i"
    "ch_Stage2Decision r = (if verdict_of re = EvAllowedOnce then DecisionAllow else DecisionBlock)"
    "identity_of r = identity_of rec"
proof -
  note goal = that and id = store_invD(1) [OF inv get] and tr = store_invD(2) [OF inv get]
  have nt: "\<not> isTerminal (ch_State rec)" using state by (simp add: isTerminal_def)
  note old = tracks_nonterminal [OF tr nt]
  define audit where "audit = providerCallAuditID std (re_ProviderCall re)"
  have finish: thesis
    if st: "staged rec t nrec" and f: "\<And>q. f (transition_rec nrec t q) = transition_rec nrec t q"
      and wv: "write_verdict std now req key re rec s = set_rec i f (snd (appendTransitionAudit nrec t None s))"
      and t: "tr_typ t = verdict_of re" "tr_to t = verdict_state (verdict_of re)"
      and key: "ch_ConsumedRetryKey nrec = key"
      and dec: "ch_Stage2Decision nrec = (if verdict_of re = EvAllowedOnce then DecisionAllow else DecisionBlock)"
    for t nrec f
  proof (rule goal [of "transition_rec nrec t (st_seq s + 1)" "transition_event nrec t (st_seq s + 1)"])
    have trm: "isTerminal (tr_to t)" by (simp add: t verdict_state_def isTerminal_def)
    note c = verdict_commit [where f = f, OF inv get st trm f]
    have i1: "ch_ChallengeID nrec = i" "identity_of nrec = identity_of rec"
      using st id identity_of_fields(1) [of nrec rec] by (auto simp: staged_def)
    show "kept s (write_verdict std now req key re rec s) [i]"
      "gm_get (st_byID (write_verdict std now req key re rec s)) i = Some (transition_rec nrec t (st_seq s + 1))"
      unfolding wv by (rule c(1), rule c(3))
    show "st_events (write_verdict std now req key re rec s) = st_events s @ [transition_event nrec t (st_seq s + 1)]"
      unfolding wv c(2) by (rule staged_step(3) [OF inv get st])
    show "ev_FromState (transition_event nrec t (st_seq s + 1)) = StateRetryPending"
      using st state by (simp add: staged_def)
    show "identity_of (transition_rec nrec t (st_seq s + 1)) = identity_of rec"
      by (simp add: identity_transition i1)
    show "ev_ChallengeID (transition_event nrec t (st_seq s + 1)) = i"
      "ch_ChallengeID (transition_rec nrec t (st_seq s + 1)) = i" by (simp_all add: i1)
  qed (simp_all add: t key dec)
  note facts = write_verdict_def Let_def audit_def verdict_state_def staged_def verdict_transition_def
    identity_of_def transition_rec_def state id old
  show thesis
  proof (cases "verdict_of re")
    case EvHumanReview
    then have hr: "re_Intervention re = InterventionHumanReview"
      by (simp add: verdict_of_def split: if_splits)
    show ?thesis
      by (rule finish [where t = "verdict_transition EvHumanReview StateHumanReview rec req key (re_Reason re) audit now"
            and f = "\<lambda>x. x\<lparr>ch_Stage2Decision := DecisionBlock, ch_Intervention := InterventionHumanReview, ch_ConsumedRetryKey := key\<rparr>"
            and nrec = "rec\<lparr>ch_Stage2Decision := DecisionBlock, ch_Intervention := InterventionHumanReview, ch_ConsumedRetryKey := key\<rparr>"])
        (simp_all add: facts hr EvHumanReview le_hr)
  next
    case EvAllowedOnce
    then have al: "re_Intervention re \<noteq> InterventionHumanReview" "allow_once re"
      by (simp_all add: verdict_of_def split: if_splits)
    show ?thesis
      by (rule finish [where t = "verdict_transition EvAllowedOnce StateAllowedOnce rec req key (re_Reason re) audit now"
            and f = "\<lambda>x. x\<lparr>ch_Stage2Decision := DecisionAllow, ch_Intervention := InterventionNone, ch_ConsumedRetryKey := key\<rparr>"
            and nrec = "rec\<lparr>ch_Stage2Decision := DecisionAllow, ch_Intervention := InterventionNone, ch_ConsumedRetryKey := key\<rparr>"])
        (simp_all add: facts al EvAllowedOnce le_allow)
  next
    case EvRejected
    then have rj: "re_Intervention re \<noteq> InterventionHumanReview" "\<not> allow_once re"
      by (simp_all add: verdict_of_def split: if_splits)
    show ?thesis
      by (rule finish [where t = "verdict_transition EvRejected StateRejected rec req key
                   (if re_Stage2Decision re = DecisionAllow \<and> isProviderFailOpenReason (re_Reason re)
                    then re_Reason re @ ''_no_allowed_once'' else re_Reason re) audit now"
            and f = "\<lambda>x. x\<lparr>ch_Stage2Decision := DecisionBlock, ch_ConsumedRetryKey := key\<rparr>"
            and nrec = "rec\<lparr>ch_Stage2Decision := DecisionBlock, ch_ConsumedRetryKey := key\<rparr>"])
        (simp_all add: facts rj EvRejected le_reject)
  qed (simp_all add: verdict_of_def split: if_splits)
qed

lemma kept_cancel:
  assumes inv: "store_inv s" "gm_get (st_byID s) [] = None"
  shows "kept s (retry_cancel_locked now req key s) []"
proof (cases "\<exists>cur. gm_get (st_byID s) (rq_ChallengeID req) = Some cur \<and> ch_State cur = StateRetryPending")
  case False
  then show ?thesis using inv by (auto simp: retry_cancel_locked_def kept_refl split: option.splits)
next
  case True
  then obtain cur where get: "gm_get (st_byID s) (rq_ChallengeID req) = Some cur"
    and state: "ch_State cur = StateRetryPending" by blast
  let ?i = "rq_ChallengeID req"
  let ?t = "rejected_transition StateRetryPending req key ''owner_context_canceled'' [] now"
  let ?nrec = "cur\<lparr>ch_ConsumedRetryKey := key, ch_Stage2Decision := DecisionBlock\<rparr>"
  let ?f = "\<lambda>x. x\<lparr>ch_ConsumedRetryKey := key, ch_Stage2Decision := DecisionBlock\<rparr>"
  have nt: "\<not> isTerminal (ch_State cur)" using state by (simp add: isTerminal_def)
  have st: "staged cur ?t ?nrec"
    using tracks_nonterminal [OF store_invD(2) [OF inv(1) get] nt] state
    by (simp add: staged_def rejected_transition_def le_reject identity_of_def)
  have trm: "isTerminal (tr_to ?t)" by (simp add: rejected_transition_def isTerminal_def)
  have same: "?f (transition_rec ?nrec ?t q) = transition_rec ?nrec ?t q" for q
    by (simp add: transition_rec_def rejected_transition_def)
  note c = verdict_commit [where f = ?f, OF inv(1) get st trm same]
  have "?i \<noteq> []" using get inv(2) by auto
  from kept_signal [OF c(1) _ this] c(3) trm
  have "kept s (signalTerminal ?i (set_rec ?i ?f (snd (appendTransitionAudit ?nrec ?t None s)))) []"
    by (simp add: terminal_in_def)
  moreover have "appendTransition ?nrec ?t None s = appendTransitionAudit ?nrec ?t None s"
    by (rule appendTransition_plain) (simp add: rejected_transition_def)
  ultimately show ?thesis
    using get state by (simp add: retry_cancel_locked_def case_prod_beta)
qed

lemma kept_finish:
  assumes inv: "store_inv s" "gm_get (st_byID s) [] = None"
  shows "kept s (snd (retry_finish_locked std now req b re s)) []"
proof (cases "gm_get (st_byID s) (rq_ChallengeID req)")
  case None
  then show ?thesis using inv by (simp add: retry_finish_locked_def kept_refl)
next
  case (Some rec)
  let ?i = "rq_ChallengeID req"
  note id = store_invD(1) [OF inv(1) Some] and tr = store_invD(2) [OF inv(1) Some]
  have ne: "?i \<noteq> []" using Some inv(2) by auto
  consider (due) "expiry_due s rec"
    | (ended) "\<not> expiry_due s rec" "ch_State rec \<in> {StateAllowedOnce, StateRejected, StateHumanReview}"
    | (pending) "\<not> expiry_due s rec" "ch_State rec = StateRetryPending"
    | (other) "\<not> expiry_due s rec"
        "ch_State rec \<notin> {StateAllowedOnce, StateRejected, StateHumanReview, StateRetryPending}" by blast
  then show ?thesis
  proof cases
    case due
    then have nt: "\<not> isTerminal (ch_State rec)" by (simp add: expiry_due_def)
    let ?t = "expired_transition rec (rq_CorrelationID req) (pa_ActionID (rq_Proposed req)) (rb_fp b)
        ''sequence_expiry_under_lock'' now"
    obtain out s' where app: "appendTransition rec ?t None s = (out, s')" by (cases "appendTransition rec ?t None s")
    have k: "kept s s' [?i]" "ch_ChallengeID out = ?i"
      using kept_expire [OF inv(1) Some nt, of "rq_CorrelationID req" "pa_ActionID (rq_Proposed req)" "rb_fp b"
          "''sequence_expiry_under_lock''" now] id by (simp_all add: app)
    have "terminal_in s' ?i" using k(1) by (simp add: kept_def covers_def)
    from kept_signal [OF k(1) this ne] show ?thesis
      using Some due k(2) by (simp add: retry_finish_locked_def app)
  next
    case ended
    then have "terminal_in s ?i" using Some by (auto simp: terminal_in_def isTerminal_def)
    from kept_signal [OF kept_refl [OF inv(1)] this ne] show ?thesis
      using Some ended id by (simp add: retry_finish_locked_def Let_def)
  next
    case pending
    obtain r where k: "kept s (write_verdict std now req (rb_key b) re rec s) [?i]"
      and r: "gm_get (st_byID (write_verdict std now req (rb_key b) re rec s)) ?i = Some r" "ch_ChallengeID r = ?i"
      using write_verdict_step [OF inv(1) Some pending(2), of std now req "rb_key b" re] by metis
    have "terminal_in (write_verdict std now req (rb_key b) re rec s) ?i" using k by (simp add: kept_def covers_def)
    from kept_signal [OF k this ne] show ?thesis
      using Some pending id r by (simp add: retry_finish_locked_def Let_def)
  next
    case other
    then show ?thesis using Some inv by (simp add: retry_finish_locked_def kept_refl)
  qed
qed

end
