(* ===== verification/ChallengeRuns.thy ===== *)
theory ChallengeRuns
  imports ChallengeSections
begin

text \<open>
  Concurrent runs of the challenge service. A state is the store and the list of terminal signals
  that goroutines still owe after releasing the lock. A step is one critical section of any
  goroutine, with arbitrary (also stale) local data, one owed signal, or the repeated signal of a
  challenge that has ended. The theorems hold in every state that some interleaving can reach from an
  empty store, or from the store that a new process loads from the file of such a state
  (\<open>LoadFromFile\<close>), which has the records and no channel.

  Challenge ids are truncated digests. The two steps that insert a record require that the
  allocated id is not in use, so what is excluded is exactly a collision of the truncated digest.
\<close>

section \<open>Steps\<close>

record sys =
  sy_store :: store
  sy_due :: "string list"

inductive sys_step :: "sys \<Rightarrow> sys \<Rightarrow> bool" where
  sec_deny: "valid_order ord \<Longrightarrow>
    sys_step \<lparr>sy_store = s, sy_due = d\<rparr> \<lparr>sy_store = open_deny_locked ord pl req now s, sy_due = d\<rparr>"
| sec_human: "valid_order ord \<Longrightarrow> gm_get (st_byID s) i = None \<Longrightarrow> i \<noteq> [] \<Longrightarrow>
    open_human_locked ord pl req i now s = (rec, s') \<Longrightarrow>
    sys_step \<lparr>sy_store = s, sy_due = d\<rparr> \<lparr>sy_store = s', sy_due = ch_ChallengeID rec # d\<rparr>"
| sec_appeal: "valid_order ord \<Longrightarrow> gm_get (st_byID s) i = None \<Longrightarrow> i \<noteq> [] \<Longrightarrow>
    open_appeal_locked ord pl req ticket (appeal_record pl req i nonce now) now s = (res, s') \<Longrightarrow>
    sys_step \<lparr>sy_store = s, sy_due = d\<rparr> \<lparr>sy_store = s', sy_due = d\<rparr>"
| sec_newID: "sys_step \<lparr>sy_store = s, sy_due = d\<rparr> \<lparr>sy_store = snd (newID std pre now s), sy_due = d\<rparr>"
| sec_expire: "expire_locked now rec s = ((rec', due), s') \<Longrightarrow>
    sys_step \<lparr>sy_store = s, sy_due = d\<rparr>
      \<lparr>sy_store = s', sy_due = (if due then [ch_ChallengeID rec'] else []) @ d\<rparr>"
| sec_expire_due: "expire_due_locked env s = (ids, s') \<Longrightarrow>
    sys_step \<lparr>sy_store = s, sy_due = d\<rparr> \<lparr>sy_store = s', sy_due = ids @ d\<rparr>"
| sec_justify: "justify_locked now i clean jh s = (res, due, s') \<Longrightarrow>
    sys_step \<lparr>sy_store = s, sy_due = d\<rparr>
      \<lparr>sy_store = s', sy_due = (if due then [ch_ChallengeID (fst res)] else []) @ d\<rparr>"
| sec_consume: "retry_consume_locked now req b s = (out, s') \<Longrightarrow>
    sys_step \<lparr>sy_store = s, sy_due = d\<rparr> \<lparr>sy_store = s', sy_due = outcome_due out @ d\<rparr>"
| sec_cancel: "sys_step \<lparr>sy_store = s, sy_due = d\<rparr> \<lparr>sy_store = retry_cancel_locked now req key s, sy_due = d\<rparr>"
| sec_finish: "retry_finish_locked std now req b re s = (res, s') \<Longrightarrow>
    sys_step \<lparr>sy_store = s, sy_due = d\<rparr> \<lparr>sy_store = s', sy_due = d\<rparr>"
| sec_abandon: "abandon_locked now i corr s = (res, due, s') \<Longrightarrow>
    sys_step \<lparr>sy_store = s, sy_due = d\<rparr>
      \<lparr>sy_store = s', sy_due = (if due then [ch_ChallengeID (fst res)] else []) @ d\<rparr>"
| sec_wait: "sys_step \<lparr>sy_store = s, sy_due = d\<rparr> \<lparr>sy_store = terminalWaitCh i s, sy_due = d\<rparr>"
| sec_signal: "sys_step \<lparr>sy_store = s, sy_due = d1 @ i # d2\<rparr> \<lparr>sy_store = signalTerminal i s, sy_due = d1 @ d2\<rparr>"
| sec_again: "terminal_record s i \<noteq> None \<Longrightarrow>
    sys_step \<lparr>sy_store = s, sy_due = d\<rparr> \<lparr>sy_store = signalTerminal i s, sy_due = d\<rparr>"

declare sys_step.intros [step_intros]

text \<open>A process starts with an empty store or with one that was saved in a reachable state.\<close>

inductive sys_reached :: "sys \<Rightarrow> bool" where
  reached_new: "sys_reached \<lparr>sy_store = NewStore, sy_due = []\<rparr>"
| reached_load: "sys_reached y \<Longrightarrow> sys_reached \<lparr>sy_store = LoadFromFile (SaveToFile (sy_store y)) NewStore, sy_due = []\<rparr>"
| reached_step: "sys_reached y \<Longrightarrow> sys_step y y' \<Longrightarrow> sys_reached y'"

lemma sys_reached_run:
  assumes "sys_reached y" and "sys_step\<^sup>*\<^sup>* y y'"
  shows "sys_reached y'"
  using assms(2,1) by (induction rule: rtranclp_induct) (auto intro: reached_step)

lemma terminal_record_iff: "terminal_record s i \<noteq> None \<longleftrightarrow> terminal_in s i"
  by (auto simp: terminal_record_def terminal_in_def Get_def split: option.splits)

definition sys_inv :: "sys \<Rightarrow> bool" where
  "sys_inv y \<longleftrightarrow>
     store_inv (sy_store y) \<and> gm_get (st_byID (sy_store y)) [] = None
   \<and> (\<forall>i. closed_in (sy_store y) i \<or> i \<in> set (sy_due y) \<longrightarrow> terminal_in (sy_store y) i)"

definition signalled :: "sys \<Rightarrow> string \<Rightarrow> bool" where
  "signalled y i \<longleftrightarrow> closed_in (sy_store y) i \<or> i \<in> set (sy_due y)"

text \<open>Between two states the store grows, and what ends between them is signalled.\<close>

definition sys_grows :: "sys \<Rightarrow> sys \<Rightarrow> bool" where
  "sys_grows y y' \<longleftrightarrow> store_ext (sy_store y) (sy_store y') \<and> (\<forall>i. signalled y i \<longrightarrow> signalled y' i)
     \<and> (\<forall>i. terminal_in (sy_store y') i \<longrightarrow> terminal_in (sy_store y) i \<or> signalled y' i)"

lemma covers_sys:
  assumes "sys_inv \<lparr>sy_store = s, sy_due = d\<rparr>" and "covers s s' ds"
  shows "sys_inv \<lparr>sy_store = s', sy_due = ds @ d\<rparr> \<and> sys_grows \<lparr>sy_store = s, sy_due = d\<rparr> \<lparr>sy_store = s', sy_due = ds @ d\<rparr>"
proof -
  have ev: "evolves s s'" using assms(2) by (simp add: covers_def)
  show ?thesis
    using assms evolves_terminal [OF ev] ev covers_inv [OF assms(2)]
    by (auto simp: sys_inv_def sys_grows_def signalled_def covers_def evolves_def)
qed

lemmas covers_sys_quiet = covers_sys [where ds = "[]", simplified]

lemma sys_step_keeps:
  assumes "sys_step y y'" and "sys_inv y"
  shows "sys_inv y' \<and> sys_grows y y'"
  using assms
proof (induction rule: sys_step.induct)
  case (sec_deny ord s d pl req now)
  then have "covers s (open_deny_locked ord pl req now s) []"
    using kept_covers kept_deny by (auto simp: sys_inv_def)
  from covers_sys_quiet [OF sec_deny.prems this] show ?case .
next
  case (sec_human ord s i pl req now rec s' d)
  then have "covers s s' [i]" "ch_ChallengeID rec = i"
    using covers_human [of s i ord pl req now] by (simp_all add: sys_inv_def)
  with covers_sys [of s d s' "[i]"] sec_human.prems show ?case by simp
next
  case (sec_appeal ord s i pl req ticket nonce now res s' d)
  then have "covers s s' []"
    using covers_appeal [of s ord i pl req ticket nonce now] by (simp add: sys_inv_def)
  from covers_sys_quiet [OF sec_appeal.prems this] show ?case .
next
  case (sec_newID s d std pre now)
  then have inv: "store_inv s" by (simp add: sys_inv_def)
  have "covers s (snd (newID std pre now s)) []"
    by (rule covers_quiet [OF same_core_evolves [OF inv newID_core]])
      (simp_all add: newID_def Let_def closed_in_def)
  from covers_sys_quiet [OF sec_newID.prems this] show ?case .
next
  case (sec_expire now rec s rec' due s' d)
  then have "covers s s' (if due then [ch_ChallengeID rec'] else [])"
    using kept_covers [OF kept_expire_locked [of s now rec]] by (auto simp: sys_inv_def split: if_splits)
  from covers_sys [OF sec_expire.prems this] show ?case .
next
  case (sec_expire_due env s ids s' d)
  then have "covers s s' ids"
    using kept_covers [OF kept_expire_due [of s env]] by (simp add: sys_inv_def)
  from covers_sys [OF sec_expire_due.prems this] show ?case .
next
  case (sec_justify now i clean jh s res due s' d)
  then have "covers s s' (if due then [ch_ChallengeID (fst res)] else [])"
    using kept_covers [OF kept_justify [of s now i clean jh res due s']] by (simp add: sys_inv_def)
  from covers_sys [OF sec_justify.prems this] show ?case .
next
  case (sec_consume now req b s out s' d)
  then have "covers s s' (outcome_due out)"
    using kept_covers [OF kept_consume [of s now req b out s']] by (simp add: sys_inv_def)
  from covers_sys [OF sec_consume.prems this] show ?case .
next
  case (sec_cancel s d now req key)
  then have "covers s (retry_cancel_locked now req key s) []"
    using kept_covers kept_cancel by (auto simp: sys_inv_def)
  from covers_sys_quiet [OF sec_cancel.prems this] show ?case .
next
  case (sec_finish std now req b re s res s' d)
  then have "covers s s' []"
    using kept_covers [OF kept_finish [of s std now req b re]] by (simp add: sys_inv_def)
  from covers_sys_quiet [OF sec_finish.prems this] show ?case .
next
  case (sec_abandon now i corr s res due s' d)
  then have "covers s s' (if due then [ch_ChallengeID (fst res)] else [])"
    using kept_covers [OF kept_abandon [of s now i corr res due s']] by (simp add: sys_inv_def)
  from covers_sys [OF sec_abandon.prems this] show ?case .
next
  case (sec_wait s d i)
  then have inv: "store_inv s" by (simp add: sys_inv_def)
  have "covers s (terminalWaitCh i s) []"
    by (rule covers_quiet [OF same_core_evolves [OF inv terminalWaitCh_core]])
      (simp_all add: terminalWaitCh_def closed_in_def split: option.splits)
  from covers_sys_quiet [OF sec_wait.prems this] show ?case .
next
  case (sec_signal s d1 i d2)
  then have inv: "store_inv s" and t: "terminal_in s i" and ne: "i \<noteq> []"
    by (auto simp: sys_inv_def terminal_in_def)
  have "covers s (signalTerminal i s) []" using covers_signal [OF covers_refl [OF inv] t ne] by simp
  moreover have "closed_in (signalTerminal i s) j \<longleftrightarrow> j = i \<or> closed_in s j" for j
    using ne by (auto simp: closed_in_def)
  moreover have "terminal_in (signalTerminal i s) = terminal_in s" by (simp add: terminal_in_def fun_eq_iff)
  ultimately show ?case using sec_signal t
    by (auto simp: sys_inv_def sys_grows_def signalled_def covers_def evolves_def)
next
  case (sec_again s i d)
  then have inv: "store_inv s" and t: "terminal_in s i"
    using terminal_record_iff by (auto simp: sys_inv_def)
  with sec_again.prems have ne: "i \<noteq> []" by (auto simp: sys_inv_def terminal_in_def)
  have "covers s (signalTerminal i s) []" using covers_signal [OF covers_refl [OF inv] t ne] by simp
  from covers_sys_quiet [OF sec_again.prems this] show ?case .
qed

lemma loaded_inv:
  assumes "sys_inv y"
  shows "sys_inv \<lparr>sy_store = LoadFromFile (SaveToFile (sy_store y)) NewStore, sy_due = []\<rparr>"
proof -
  have "same_core (sy_store y) (LoadFromFile (SaveToFile (sy_store y)) NewStore)"
    by (simp add: same_core_def LoadFromFile_def SaveToFile_def)
  then have "store_inv (LoadFromFile (SaveToFile (sy_store y)) NewStore)"
    using same_core_evolves assms by (auto simp: sys_inv_def evolves_def)
  then show ?thesis using assms
    by (simp add: sys_inv_def closed_in_def) (simp add: LoadFromFile_def SaveToFile_def NewStore_def)
qed

interpretation challenge_runs: transition_system sys_reached sys_step sys_inv sys_grows
proof unfold_locales
  show "sys_reached y \<Longrightarrow> sys_inv y" for y
  proof (induction rule: sys_reached.induct)
    case reached_new
    then show ?case using store_inv_New by (auto simp: sys_inv_def terminal_in_def closed_in_def NewStore_def)
  next
    case (reached_load y)
    then show ?case by (intro loaded_inv)
  next
    case (reached_step y y')
    then show ?case using sys_step_keeps by blast
  qed
  show "sys_inv y \<Longrightarrow> sys_step y y' \<Longrightarrow> sys_inv y' \<and> sys_grows y y'" for y y'
    by (rule sys_step_keeps)
  show "sys_grows y y" for y by (auto simp: sys_grows_def store_ext_refl)
  show "sys_grows a b \<Longrightarrow> sys_grows b c \<Longrightarrow> sys_grows a c" for a b c
    unfolding sys_grows_def using store_ext_trans by blast
qed

lemmas sys_reached_inv = challenge_runs.initial_inv

lemma reached_store_inv: "sys_reached y \<Longrightarrow> store_inv (sy_store y)"
  using sys_reached_inv by (auto simp: sys_inv_def)

lemma sys_reached_grows:
  assumes "sys_reached y" and "sys_step\<^sup>*\<^sup>* y y'"
  shows "store_ext (sy_store y) (sy_store y')"
  using challenge_runs.run_inv [OF assms(2) sys_reached_inv [OF assms(1)]] by (simp add: sys_grows_def)

lemma reached_tracks:
  assumes "sys_reached y" and "gm_get (st_byID (sy_store y)) i = Some r"
  shows "tracks (Events (sy_store y) i) r"
  using store_invD(2) [OF reached_store_inv [OF assms(1)] assms(2)] .

section \<open>Properties of every run\<close>

lemma events_of_unknown:
  assumes "sys_reached y" and "gm_get (st_byID (sy_store y)) i = None"
  shows "Events (sy_store y) i = []"
  using reached_store_inv [OF assms(1)] assms(2) by (simp add: store_inv_def records_track_def)

lemma event_path:
  assumes "sys_reached y"
  shows "\<exists>st. legal_path StateEmpty (Events (sy_store y) i) st"
proof (cases "gm_get (st_byID (sy_store y)) i")
  case None
  then show ?thesis using events_of_unknown [OF assms] lp_Nil by metis
next
  case (Some r)
  then show ?thesis using reached_tracks [OF assms] by (auto simp: tracks_def)
qed

text \<open>
  C1. One-shot authorisation. However the goroutines interleave, the log never holds more than one
  \<open>allowed_once\<close> event and never more than one \<open>budget_consumed\<close> event for a challenge; and when it
  holds an \<open>allowed_once\<close>, the challenge was opened, justified and had its budget consumed exactly
  once.
\<close>

theorem one_shot_per_challenge:
  assumes "sys_reached y"
  shows "count_type EvAllowedOnce (Events (sy_store y) i) \<le> 1
    \<and> count_type EvBudgetConsumed (Events (sy_store y) i) \<le> 1
    \<and> (has_type EvAllowedOnce (Events (sy_store y) i) \<longrightarrow>
         count_type EvOpened (Events (sy_store y) i) = 1
       \<and> count_type EvJustified (Events (sy_store y) i) = 1
       \<and> count_type EvBudgetConsumed (Events (sy_store y) i) = 1)"
proof -
  let ?evs = "Events (sy_store y) i"
  obtain st where path: "legal_path StateEmpty ?evs st" using event_path [OF assms] by blast
  have shape: "path_shape st ?evs" by (rule legal_path_shape [OF path refl])
  have "count_type EvAllowedOnce ?evs = (if st = StateAllowedOnce then 1 else 0)"
    "count_type EvBudgetConsumed ?evs \<le> 1"
    using shape unfolding path_shape_def by blast+
  moreover have "st = StateAllowedOnce" if "has_type EvAllowedOnce ?evs"
    using path_types(1) [OF path] that by blast
  ultimately show ?thesis using shape unfolding path_shape_def by simp
qed

text \<open>
  C2. Replay. In every reachable store, rebuilding a challenge from its events alone succeeds and
  returns the live record in every field but one. \<open>ConsumedRetryKey\<close> is the live value as well,
  unless the last event is a rejection or a human review that did not end an evaluation; then
  replay reports the payload of that event (a fingerprint) where the live record has none.
\<close>

theorem replay_matches_live:
  assumes "sys_reached y" and "Get (sy_store y) i = Some r"
  shows "\<exists>k. ReplayFromStore i (sy_store y) = Inr (r\<lparr>ch_ConsumedRetryKey := k\<rparr>)
    \<and> (k = ch_ConsumedRetryKey r
       \<or> (verdict_event (last (Events (sy_store y) i))
          \<and> ev_FromState (last (Events (sy_store y) i)) \<noteq> StateRetryPending
          \<and> ch_ConsumedRetryKey r = [] \<and> k = ev_PayloadHash (last (Events (sy_store y) i))))"
proof -
  let ?evs = "Events (sy_store y) i"
  have get: "gm_get (st_byID (sy_store y)) i = Some r" using assms(2) by (simp add: Get_def)
  have tr: "tracks ?evs r" by (rule reached_tracks [OF assms(1) get])
  then obtain ev0 evs where evs: "?evs = ev0 # evs" by (cases ?evs) (auto simp: tracks_def)
  have "replay_all (Some r) (replay_seed (Some r) i (hd ?evs)) ?evs = Inr (projected r ?evs (ch_State r))"
    using tr by (intro replay_legal_path [OF _ refl]) (simp_all add: tracks_def)
  then have "ReplayFromStore i (sy_store y) = Inr (r\<lparr>ch_ConsumedRetryKey := replay_key r ?evs\<rparr>)"
    using get evs tracks_projected [OF tr] by (simp add: ReplayFromStore_def)
  moreover have "ch_ConsumedRetryKey r = live_key ?evs" using tr by (simp add: tracks_def)
  then have "replay_key r ?evs = ch_ConsumedRetryKey r
     \<or> (verdict_event (last ?evs) \<and> ev_FromState (last ?evs) \<noteq> StateRetryPending
        \<and> ch_ConsumedRetryKey r = [] \<and> replay_key r ?evs = ev_PayloadHash (last ?evs))"
    by (simp add: replay_key_def live_key_def)
  ultimately show ?thesis by blast
qed

text \<open>
  C3. Terminal states are final and challenges keep their identity. Along every run from a
  reachable state a record never disappears and never changes session, fingerprint, block class,
  nonce, budget size, expiry or any other field fixed at opening; and once its state is terminal
  the whole record never changes again.
\<close>

theorem terminal_records_never_change:
  assumes "sys_reached y" and "sys_step\<^sup>*\<^sup>* y y'" and "Get (sy_store y) i = Some r"
  shows "\<exists>r'. Get (sy_store y') i = Some r' \<and> identity_of r' = identity_of r
    \<and> (isTerminal (ch_State r) \<longrightarrow> r' = r)"
  using store_ext_record [OF sys_reached_grows [OF assms(1,2)], of i r] assms(3) by (metis Get_def)

text \<open>
  C4. The log is append-only and totally ordered: along every run the old log is a prefix of the
  new one, sequence numbers are positive, strictly increasing and never above the store sequence,
  and the events of each challenge form a path of the closed state machine that ends in the
  challenge's current state.
\<close>

theorem log_is_an_ordered_history:
  assumes "sys_reached y" and "sys_step\<^sup>*\<^sup>* y y'"
  shows "(\<exists>es. AllEvents (sy_store y') = AllEvents (sy_store y) @ es)
    \<and> sorted_wrt (<) (map ev_Sequence (AllEvents (sy_store y')))
    \<and> (\<forall>e \<in> set (AllEvents (sy_store y')). 0 < ev_Sequence e \<and> ev_Sequence e \<le> Sequence (sy_store y'))
    \<and> (\<forall>i r. Get (sy_store y') i = Some r \<longrightarrow>
         legal_path StateEmpty (Events (sy_store y') i) (ch_State r))"
proof -
  have r': "sys_reached y'" by (rule sys_reached_run [OF assms])
  have "store_ext (sy_store y) (sy_store y')" by (rule sys_reached_grows [OF assms])
  moreover have "log_ordered (sy_store y')" using reached_store_inv [OF r'] by (simp add: store_inv_def)
  ultimately show ?thesis using reached_tracks [OF r']
    by (auto simp: AllEvents_def Sequence_def Get_def store_ext_def log_ordered_def tracks_def)
qed

text \<open>
  C5. At most one active challenge per session and fingerprint, under every interleaving.
\<close>

theorem at_most_one_active:
  assumes "sys_reached y" and "Get (sy_store y) i = Some ri" and "Get (sy_store y) j = Some rj"
    and "ch_SessionID ri = ch_SessionID rj" and "ch_ActionFingerprint ri = ch_ActionFingerprint rj"
    and "\<not> isTerminal (ch_State ri)" and "\<not> isTerminal (ch_State rj)"
  shows "i = j"
  using reached_store_inv [OF assms(1)] assms(2-7) unfolding store_inv_def single_active_def Get_def by blast

lemma run_signals:
  assumes "sys_reached y" and "sys_step\<^sup>*\<^sup>* y y'"
  shows "terminal_in (sy_store y') i \<Longrightarrow> terminal_in (sy_store y) i \<or> signalled y' i"
    and "closed_in (sy_store y') i \<Longrightarrow> terminal_in (sy_store y') i"
  using challenge_runs.run_inv [OF assms(2) sys_reached_inv [OF assms(1)]] by (auto simp: sys_grows_def sys_inv_def)

section \<open>Hard denials\<close>

lemma expire_one_terminal:
  assumes "store_inv s" and "gm_get (st_byID s) [] = None" and "gm_get (st_byID s) i \<noteq> None"
  shows "terminal_in (expire_one corr cause payload note now i s) i"
proof -
  obtain cur where get: "gm_get (st_byID s) i = Some cur" using assms(3) by blast
  show ?thesis
  proof (cases "isTerminal (ch_State cur)")
    case True
    with get show ?thesis by (simp add: expire_one_def terminal_in_def)
  next
    case False
    from kept_expire(1) [OF assms(1) get False, of corr cause payload "note" now] get False
    show ?thesis by (simp add: expire_one_def kept_def covers_def terminal_in_def)
  qed
qed

lemma kept_dom: "kept s s' ds \<Longrightarrow> (gm_get (st_byID s') i = None) = (gm_get (st_byID s) i = None)"
  by (simp add: kept_def)

lemma fold_expire_terminal:
  assumes "store_inv s" and "gm_get (st_byID s) [] = None" and "i \<in> set ids" and "gm_get (st_byID s) i \<noteq> None"
  shows "terminal_in (fold (expire_one corr cause payload note now) ids s) i"
  using assms
proof (induction ids arbitrary: s)
  case (Cons j ids)
  let ?s1 = "expire_one corr cause payload note now j s"
  have k: "kept s ?s1 []" by (rule kept_expire_one [OF Cons.prems(1,2)])
  have inv1: "store_inv ?s1" "gm_get (st_byID ?s1) [] = None" using kept_inv [OF k] kept_empty_id [OF k Cons.prems(2)] .
  have rest: "kept ?s1 (fold (expire_one corr cause payload note now) ids ?s1) []"
    by (rule kept_fold [OF _ inv1]) (rule kept_expire_one)
  show ?case
  proof (cases "j = i")
    case True
    then have "terminal_in ?s1 i" using expire_one_terminal [OF Cons.prems(1,2)] Cons.prems(4) by simp
    then show ?thesis using rest evolves_terminal by (auto simp: kept_def covers_def)
  next
    case False
    have "gm_get (st_byID ?s1) i \<noteq> None" using kept_dom [OF k] Cons.prems(4) by simp
    with Cons.IH [OF inv1] False Cons.prems(3) show ?thesis by simp
  qed
qed simp

lemma expireActive_clears:
  assumes "store_inv s" and "gm_get (st_byID s) [] = None" and "valid_order ord"
    and "gm_get (st_byID (expireActiveBySemanticLocked ord sid fp corr cause note now s)) i = Some r"
  shows "\<not> semantic_hit sid fp r"
proof
  let ?s' = "expireActiveBySemanticLocked ord sid fp corr cause note now s"
  assume hit: "semantic_hit sid fp r"
  have k: "kept s ?s' []" by (rule kept_expireActive [OF assms(1,2)])
  then have "gm_get (st_byID s) i \<noteq> None" using assms(4) by (metis kept_def option.distinct(1))
  then obtain r0 where r0: "gm_get (st_byID s) i = Some r0" by blast
  have "store_ext s ?s'" using k by (simp add: kept_def covers_def evolves_def)
  then obtain r' where "gm_get (st_byID ?s') i = Some r'" "identity_of r' = identity_of r0"
    "isTerminal (ch_State r0) \<longrightarrow> r' = r0" by (rule store_ext_record [OF _ r0])
  with assms(4) have same: "identity_of r = identity_of r0" and "isTerminal (ch_State r0) \<longrightarrow> r = r0" by auto
  have "ch_SideEffectClass (identity_of x) = ch_SideEffectClass x"
    "ch_TargetResources (identity_of x) = ch_TargetResources x"
    "ch_OperationDigest (identity_of x) = ch_OperationDigest x" for x by (simp_all add: identity_of_def)
  with same have sem: "ch_SideEffectClass r = ch_SideEffectClass r0" "ch_TargetResources r = ch_TargetResources r0"
    "ch_OperationDigest r = ch_OperationDigest r0" by metis+
  have "semantic_hit sid fp r0"
    using hit sem identity_of_fields [OF same] \<open>isTerminal (ch_State r0) \<longrightarrow> r = r0\<close>
    by (auto simp: semantic_hit_def)
  with r0 have "i \<in> set (matching_ids ord (semantic_hit sid fp) s)"
    using matching_ids_spec(2) [OF assms(1,3)] by blast
  with r0 have "terminal_in ?s' i"
    unfolding expireActiveBySemanticLocked_def by (intro fold_expire_terminal [OF assms(1,2)]) simp_all
  with assms(4) hit show False by (simp add: terminal_in_def semantic_hit_def)
qed

text \<open>
  C7. A hard denial or a human-review block leaves nothing to appeal through: after its critical
  section no active challenge of that session has the denied fingerprint, and none has the same
  side effect, targets and operation digest under another tool name.
\<close>

theorem denial_leaves_no_active_challenge:
  assumes "sys_reached y" and "valid_order ord"
  shows "(\<forall>j r. Get (open_deny_locked ord pl req now (sy_store y)) j = Some r
            \<longrightarrow> \<not> semantic_hit (pl_SessionID pl) (pl_FP pl) r)
    \<and> (\<forall>j r. Get (snd (open_human_locked ord pl req i now (sy_store y))) j = Some r \<longrightarrow> i \<noteq> [] \<longrightarrow> j \<noteq> i
            \<longrightarrow> \<not> semantic_hit (pl_SessionID pl) (pl_FP pl) r)"
proof -
  let ?s = "sy_store y"
  have inv: "store_inv ?s" "gm_get (st_byID ?s) [] = None" using sys_reached_inv [OF assms(1)] by (auto simp: sys_inv_def)
  have deny: "\<not> semantic_hit (pl_SessionID pl) (pl_FP pl) r"
    if "gm_get (st_byID (expireActiveBySemanticLocked ord (pl_SessionID pl) (pl_FP pl) co ca n now ?s)) j = Some r"
    for j r co ca n
    using expireActive_clears [OF inv assms(2) that] .
  have "\<not> semantic_hit (pl_SessionID pl) (pl_FP pl) r"
    if get: "gm_get (st_byID (snd (open_human_locked ord pl req i now ?s))) j = Some r" and "j \<noteq> i" for j r
  proof -
    define s1 where "s1 = mark_plan pl req ''human_review''
      (expireActiveBySemanticLocked ord (pl_SessionID pl) (pl_FP pl) (or_CorrelationID req)
         (pa_ActionID (or_Proposed req)) ''superseded_by_human_review'' now ?s)"
    note e = kept_expireActive [OF inv]
    have "store_inv s1" unfolding s1_def by (rule kept_inv [OF kept_mark [OF kept_inv [OF e]]])
    then have "distinct (gm_keys (st_byID (s1\<lparr>st_seq := q\<rparr>)))" for q by (simp add: store_inv_def)
    note f = putLocked_fields(1) [OF this]
    have "st_byID (snd (open_human_locked ord pl req i now ?s)) =
        gm_put i (fst (open_human_locked ord pl req i now ?s)) (st_byID s1)"
      unfolding open_human_locked_def s1_def [symmetric]
      by (simp add: appendTransition_plain appendTransitionAudit_def nextSeqLocked_def Let_def f
          is_active_state_def human_record_def)
    with get \<open>j \<noteq> i\<close> have "gm_get (st_byID s1) j = Some r" by simp
    then show ?thesis by (intro deny) (simp add: s1_def mark_plan_def)
  qed
  then show ?thesis using deny by (simp add: Get_def open_deny_locked_def mark_plan_def)
qed

lemma barrier_hit_refuses:
  assumes "gm_get (st_nonAppealBarrier s) (barrierKey (pl_SessionID pl) (fr_Fingerprint (pl_FP pl))) = Some e"
    and "barrierPolicyHit e (or_PolicyVersion req) (or_RulesetHash req) ticket = Some n"
  shows "open_appeal_locked ord pl req ticket rec now s
    = ((empty_challenge, Some ''challenge open: non-appealable barrier''), s)"
  using assms by (simp add: open_appeal_locked_def nonAppealBarrierNoteLocked_def)

lemma barrier_scan_hit:
  assumes "k \<in> set ks" and "f k \<noteq> None"
  shows "barrier_scan f ks \<noteq> None"
  using assms by (induction ks) (auto split: option.splits)

lemma deny_barrier:
  "gm_get (st_nonAppealBarrier (open_deny_locked ord pl req now s))
      (barrierKey (pl_SessionID pl) (fr_Fingerprint (pl_FP pl))) =
     Some \<lparr>be_Note = ''hard_block'', be_PolicyVersion = or_PolicyVersion req, be_RulesetHash = or_RulesetHash req,
       be_MarkSeq = st_seq (open_deny_locked ord pl req now s),
       be_SideEffectClass = fr_SideEffectClass (pl_FP pl), be_TargetResources = fr_TargetResources (pl_FP pl),
       be_OperationDigest = fr_OperationDigest (pl_FP pl)\<rparr>"
  by (simp add: open_deny_locked_def mark_plan_def markNonAppealBarrierLocked_def)

text \<open>
  C8. A hard denial wins against every \<open>Open\<close> that was already in flight. If an \<open>Open\<close> sampled its
  ticket before the denial was committed, then in every later state of every run its critical
  section for the same session and fingerprint is refused by the barrier and changes nothing,
  whatever policy version, ruleset or block class it carries.
\<close>

theorem stale_open_loses_to_denial:
  assumes "sys_reached \<lparr>sy_store = s, sy_due = d\<rparr>" and "valid_order ord"
    and "sys_step\<^sup>*\<^sup>* \<lparr>sy_store = open_deny_locked ord pl req now s, sy_due = d\<rparr> \<lparr>sy_store = s', sy_due = d'\<rparr>"
    and "pl_SessionID pl' = pl_SessionID pl" and "fr_Fingerprint (pl_FP pl') = fr_Fingerprint (pl_FP pl)"
    and "ticket \<le> Sequence s"
  shows "open_appeal_locked ord' pl' req' ticket rec now' s'
    = ((empty_challenge, Some ''challenge open: non-appealable barrier''), s')"
proof -
  let ?s1 = "open_deny_locked ord pl req now s"
  let ?k = "barrierKey (pl_SessionID pl) (fr_Fingerprint (pl_FP pl))"
  have "sys_step \<lparr>sy_store = s, sy_due = d\<rparr> \<lparr>sy_store = ?s1, sy_due = d\<rparr>" using assms(2) by (rule sec_deny)
  then have r1: "sys_reached \<lparr>sy_store = ?s1, sy_due = d\<rparr>"
    by (rule reached_step [OF assms(1)])
  have "store_ext ?s1 s'" using sys_reached_grows [OF r1 assms(3)] by simp
  with deny_barrier [of ord pl req now s] obtain e where e: "gm_get (st_nonAppealBarrier s') ?k = Some e"
    "st_seq ?s1 \<le> be_MarkSeq e" unfolding store_ext_def by fastforce
  have "st_seq s < st_seq ?s1"
  proof -
    have inv: "store_inv s" "gm_get (st_byID s) [] = None" using sys_reached_inv [OF assms(1)] by (auto simp: sys_inv_def)
    from kept_expireActive [OF inv] have
      "st_seq s \<le> st_seq (expireActiveBySemanticLocked ord (pl_SessionID pl) (pl_FP pl) co ca n now s)" for co ca n
      by (simp add: kept_def covers_def evolves_def store_ext_def)
    from this [of "or_CorrelationID req" "pa_ActionID (or_Proposed req)" "''superseded_by_hard_block''"]
    show ?thesis by (simp add: open_deny_locked_def mark_plan_def)
  qed
  with e(2) assms(6) have "ticket < be_MarkSeq e" by (simp add: Sequence_def)
  then obtain n where "barrierPolicyHit e (or_PolicyVersion req') (or_RulesetHash req') ticket = Some n"
    by (cases "be_PolicyVersion e = or_PolicyVersion req' \<and> be_RulesetHash e = or_RulesetHash req'")
      (auto simp: barrierPolicyHit_def)
  with e(1) show ?thesis using assms(4,5) by (intro barrier_hit_refuses) simp_all
qed

text \<open>
  Under the policy of the denial itself the barrier holds for every ticket: directly after a
  hard denial, an \<open>Open\<close> with the same policy version and ruleset is refused for the denied
  fingerprint, and also for a tool-name variant of the action in the same session (same side
  effect, targets and non-empty operation digest).
\<close>

theorem denied_policy_stays_denied:
  assumes "sys_reached y" and "valid_order ord" and "valid_order ord'"
    and "pl_SessionID pl' = pl_SessionID pl"
    and "or_PolicyVersion req' = or_PolicyVersion req" and "or_RulesetHash req' = or_RulesetHash req"
    and "fr_Fingerprint (pl_FP pl') = fr_Fingerprint (pl_FP pl)
       \<or> semanticActionMatch (fr_SideEffectClass (pl_FP pl)) (fr_TargetResources (pl_FP pl))
           (fr_OperationDigest (pl_FP pl)) (fr_SideEffectClass (pl_FP pl')) (fr_TargetResources (pl_FP pl'))
           (fr_OperationDigest (pl_FP pl'))"
  shows "snd (fst (open_appeal_locked ord' pl' req' ticket rec now' (open_deny_locked ord pl req now (sy_store y))))
    \<noteq> None
    \<and> snd (open_appeal_locked ord' pl' req' ticket rec now' (open_deny_locked ord pl req now (sy_store y)))
      = open_deny_locked ord pl req now (sy_store y)"
proof -
  let ?s1 = "open_deny_locked ord pl req now (sy_store y)"
  let ?k = "barrierKey (pl_SessionID pl) (fr_Fingerprint (pl_FP pl))"
  have "store_inv (sy_store y)" "gm_get (st_byID (sy_store y)) [] = None"
    using sys_reached_inv [OF assms(1)] by (auto simp: sys_inv_def)
  then have "store_inv ?s1" by (rule kept_inv [OF kept_deny])
  then have keys: "set (ord' (gm_keys (st_nonAppealBarrier ?s1))) = set (gm_keys (st_nonAppealBarrier ?s1))"
    by (intro valid_orderD(2) [OF assms(3)]) (simp add: store_inv_def)
  note e = deny_barrier [of ord pl req now "sy_store y"]
  have "\<exists>n. nonAppealBarrierNoteLocked ord' (pl_SessionID pl') (fr_Fingerprint (pl_FP pl')) (or_PolicyVersion req')
             (or_RulesetHash req') ticket (fr_SideEffectClass (pl_FP pl')) (fr_TargetResources (pl_FP pl'))
             (fr_OperationDigest (pl_FP pl')) ?s1 = Some n"
  proof (cases "fr_Fingerprint (pl_FP pl') = fr_Fingerprint (pl_FP pl)")
    case True
    with e assms(4-6) show ?thesis by (simp add: nonAppealBarrierNoteLocked_def barrierPolicyHit_def)
  next
    case False
    with assms(7) have sem: "semanticActionMatch (fr_SideEffectClass (pl_FP pl)) (fr_TargetResources (pl_FP pl))
           (fr_OperationDigest (pl_FP pl)) (fr_SideEffectClass (pl_FP pl')) (fr_TargetResources (pl_FP pl'))
           (fr_OperationDigest (pl_FP pl'))" by simp
    let ?f = "barrier_variant_hit (pl_SessionID pl') (fr_Fingerprint (pl_FP pl')) (or_PolicyVersion req')
      (or_RulesetHash req') ticket (fr_SideEffectClass (pl_FP pl')) (fr_TargetResources (pl_FP pl'))
      (fr_OperationDigest (pl_FP pl')) ?s1"
    have "?k \<in> set (ord' (gm_keys (st_nonAppealBarrier ?s1)))" using e by (simp add: keys gm_keys_dom)
    moreover have "?f ?k \<noteq> None"
      using False sem e assms(4-6)
      by (simp add: barrier_variant_hit_def barrierKey_def HasPrefix_iff barrierPolicyHit_def)
    ultimately have "barrier_scan ?f (ord' (gm_keys (st_nonAppealBarrier ?s1))) \<noteq> None" by (rule barrier_scan_hit)
    moreover have "fr_OperationDigest (pl_FP pl') \<noteq> []" using sem by (auto simp: semanticActionMatch_def split: if_splits)
    ultimately show ?thesis by (auto simp: nonAppealBarrierNoteLocked_def split: option.splits)
  qed
  then show ?thesis by (auto simp: open_appeal_locked_def)
qed

end
