(* ===== verification/ChallengeHandlers.thy ===== *)
theory ChallengeHandlers
  imports ChallengeRuns
begin

text \<open>
  The handlers of the challenge service as whole operations. Every handler, run against any
  interference of other goroutines, is itself a run of critical sections, so the properties of
  runs hold after it; and the answers of \<open>AttemptRetry\<close> are characterised: a fresh ALLOW means a
  genuine re-evaluation, every other ALLOW is the replay of the attempt that was already allowed.
\<close>

declare One_nat_def [simp del]

section \<open>Handlers are runs\<close>

text \<open>
  A change of the store that some run makes, and that leaves no signal owed but of the challenges \<open>P\<close>.
\<close>

definition run_leaving :: "string set \<Rightarrow> store \<Rightarrow> store \<Rightarrow> bool" where
  "run_leaving P s s' \<longleftrightarrow>
     (\<exists>ds. set ds \<subseteq> P \<and> (\<forall>d. sys_step\<^sup>*\<^sup>* \<lparr>sy_store = s, sy_due = d\<rparr> \<lparr>sy_store = s', sy_due = ds @ d\<rparr>))"

abbreviation store_run :: "store \<Rightarrow> store \<Rightarrow> bool" where
  "store_run \<equiv> run_leaving {}"

lemma store_run_iff: "store_run s s' \<longleftrightarrow> (\<forall>d. sys_step\<^sup>*\<^sup>* \<lparr>sy_store = s, sy_due = d\<rparr> \<lparr>sy_store = s', sy_due = d\<rparr>)"
  by (simp add: run_leaving_def)

lemma run_leavingI: "set ds \<subseteq> P \<Longrightarrow> (\<And>d. sys_step\<^sup>*\<^sup>* \<lparr>sy_store = s, sy_due = d\<rparr> \<lparr>sy_store = s', sy_due = ds @ d\<rparr>) \<Longrightarrow> run_leaving P s s'"
  by (auto simp: run_leaving_def)

lemma run_leaving_mono: "run_leaving P s s' \<Longrightarrow> P \<subseteq> Q \<Longrightarrow> run_leaving Q s s'"
  by (auto simp: run_leaving_def)

lemma run_leaving_refl [simp]: "run_leaving P s s"
  by (rule run_leavingI [of "[]"]) simp_all

lemma run_leaving_trans:
  assumes "run_leaving P a b" and "run_leaving P b c"
  shows "run_leaving P a c"
proof -
  obtain ds where d: "set ds \<subseteq> P" "\<And>d. sys_step\<^sup>*\<^sup>* \<lparr>sy_store = a, sy_due = d\<rparr> \<lparr>sy_store = b, sy_due = ds @ d\<rparr>"
    using assms(1) by (auto simp: run_leaving_def)
  obtain es where e: "set es \<subseteq> P" "\<And>d. sys_step\<^sup>*\<^sup>* \<lparr>sy_store = b, sy_due = d\<rparr> \<lparr>sy_store = c, sy_due = es @ d\<rparr>"
    using assms(2) by (auto simp: run_leaving_def)
  show ?thesis using d(1) e(1) rtranclp_trans [OF d(2) e(2)] by (intro run_leavingI [of "es @ ds"]) simp_all
qed

lemma run_leaving_step:
  assumes "\<And>d. sys_step \<lparr>sy_store = s, sy_due = d\<rparr> \<lparr>sy_store = s', sy_due = d\<rparr>"
  shows "run_leaving P s s'"
  using assms by (intro run_leavingI [of "[]"]) (auto intro: r_into_rtranclp)

lemma pay_signals:
  "sys_step\<^sup>*\<^sup>* \<lparr>sy_store = s, sy_due = e @ ids @ d\<rparr> \<lparr>sy_store = fold signalTerminal ids s, sy_due = e @ d\<rparr>"
proof (induction ids arbitrary: s)
  case (Cons i ids)
  have "sys_step \<lparr>sy_store = s, sy_due = e @ i # (ids @ d)\<rparr> \<lparr>sy_store = signalTerminal i s, sy_due = e @ (ids @ d)\<rparr>"
    by (rule sec_signal)
  then have "sys_step \<lparr>sy_store = s, sy_due = e @ (i # ids) @ d\<rparr> \<lparr>sy_store = signalTerminal i s, sy_due = e @ ids @ d\<rparr>"
    by simp
  from converse_rtranclp_into_rtranclp [of sys_step, OF this Cons.IH] show ?case by simp
qed simp

text \<open>A section that owes signals, interference, and then the signals.\<close>

lemma run_leaving_due:
  assumes "\<And>d. sys_step \<lparr>sy_store = s, sy_due = d\<rparr> \<lparr>sy_store = s1, sy_due = ids @ d\<rparr>" and "run_leaving P s1 s2"
  shows "run_leaving P s (fold signalTerminal ids s2)"
proof -
  obtain ds where d: "set ds \<subseteq> P" "\<And>d. sys_step\<^sup>*\<^sup>* \<lparr>sy_store = s1, sy_due = d\<rparr> \<lparr>sy_store = s2, sy_due = ds @ d\<rparr>"
    using assms(2) by (auto simp: run_leaving_def)
  show ?thesis
    by (rule run_leavingI [OF d(1)])
      (rule converse_rtranclp_into_rtranclp [of sys_step, OF assms(1) rtranclp_trans [OF d(2) pay_signals]])
qed

text \<open>
  The other goroutines, in every gap between two critical sections: any run, which may also leave challenges
  ended whose signal is still to come, those of \<open>P\<close>, and signal them in a later gap or not at all.
\<close>

definition others_leave :: "string set \<Rightarrow> env \<Rightarrow> bool" where
  "others_leave P env \<longleftrightarrow>
     (\<forall>k s. run_leaving P s (env_others env k s))
   \<and> (\<forall>t \<in> set (env_wait env). \<forall>s. run_leaving P s (wt_a t s) \<and> run_leaving P s (wt_b t s) \<and> run_leaving P s (wt_c t s))"

abbreviation others_run :: "env \<Rightarrow> bool" where
  "others_run \<equiv> others_leave {}"

lemma others_leaveD: "others_leave P env \<Longrightarrow> run_leaving P s (env_others env k s)"
  by (simp add: others_leave_def)

lemma others_leave_mono: "others_leave P env \<Longrightarrow> P \<subseteq> Q \<Longrightarrow> others_leave Q env"
  using run_leaving_mono unfolding others_leave_def by blast

lemma others_leave_after: "others_leave P env \<Longrightarrow> run_leaving P a b \<Longrightarrow> run_leaving P a (env_others env k b)"
  using others_leaveD run_leaving_trans by blast

lemma expireIfNeeded_run:
  assumes "\<And>s. run_leaving P s (o1 s)" and "\<And>s. run_leaving P s (o2 s)"
  shows "run_leaving P s (snd (expireIfNeeded now o1 o2 rec s))"
proof (cases "ch_ExpiresAtSequence rec \<le> 0 \<or> Sequence s < ch_ExpiresAtSequence rec \<or> isTerminal (ch_State rec)")
  case True
  then show ?thesis by (simp add: expireIfNeeded_def)
next
  case False
  obtain rec' due s1 where e: "expire_locked now rec (o1 s) = ((rec', due), s1)"
    by (metis surj_pair)
  have "sys_step \<lparr>sy_store = o1 s, sy_due = d\<rparr> \<lparr>sy_store = s1, sy_due = (if due then [ch_ChallengeID rec'] else []) @ d\<rparr>" for d
    using e by (rule sec_expire)
  from run_leaving_due [OF this] have "run_leaving P (o1 s) (fold signalTerminal (if due then [ch_ChallengeID rec'] else [])
      (if due then o2 s1 else s1))" using assms(2) by simp
  from run_leaving_trans [OF assms(1) this] show ?thesis
    using False e by (cases due) (simp_all add: expireIfNeeded_def)
qed

lemma waitTerminal_run:
  assumes "\<forall>t \<in> set ts. \<forall>s. run_leaving P s (wt_a t s) \<and> run_leaving P s (wt_b t s) \<and> run_leaving P s (wt_c t s)"
  shows "run_leaving P s (snd (waitTerminal ts i s))"
  using assms
proof (induction ts arbitrary: s)
  case Nil
  then show ?case by (simp split: option.splits)
next
  case (Cons t ts)
  have "run_leaving P (wt_a t s) (terminalWaitCh i (wt_a t s))" by (rule run_leaving_step) (rule sec_wait)
  then have 2: "run_leaving P s (wt_b t (terminalWaitCh i (wt_a t s)))"
    using Cons.prems run_leaving_trans by (metis list.set_intros(1))
  then have 3: "run_leaving P s (wt_c t (wt_b t (terminalWaitCh i (wt_a t s))))"
    using Cons.prems run_leaving_trans by (metis list.set_intros(1))
  have "run_leaving P s (snd (waitTerminal ts i (wt_c t (wt_b t (terminalWaitCh i (wt_a t s))))))"
    using run_leaving_trans [OF 3] Cons.IH Cons.prems by simp
  with 2 3 show ?case by (auto simp: Let_def split: option.splits)
qed

text \<open>The pattern shared by the handlers: a section that may owe one signal for \<open>i\<close>.\<close>

lemma section_run:
  assumes "\<And>d. sys_step \<lparr>sy_store = s, sy_due = d\<rparr> \<lparr>sy_store = s1, sy_due = (if due then [i] else []) @ d\<rparr>"
    and "run_leaving P s1 s2"
  shows "run_leaving P s (if due then signalTerminal i s2 else s1)"
proof (cases due)
  case True
  with run_leaving_due [OF assms] show ?thesis by simp
next
  case False
  with assms(1) show ?thesis by (simp add: run_leaving_step)
qed

lemma Justify_run:
  assumes "others_leave P env"
  shows "run_leaving P s (snd (Justify std env j known s))"
proof (cases "env_ctx env 0 \<or> Get s (ju_ChallengeID j) = None")
  case True
  then show ?thesis by (auto simp: Justify_def)
next
  case False
  then obtain rec0 where get: "Get s (ju_ChallengeID j) = Some rec0" and ctx: "\<not> env_ctx env 0" by blast
  obtain rec1 e1 s1 where ex: "expireIfNeeded (env_clock env 0) (env_others env 1) (env_others env 2) rec0
      (env_others env 0 s) = ((rec1, e1), s1)" by (metis surj_pair)
  have "run_leaving P (env_others env 0 s) s1"
    using expireIfNeeded_run [of _ "env_others env 1" "env_others env 2" "env_others env 0 s" "env_clock env 0" rec0]
      others_leaveD [OF assms] ex by simp
  then have run1: "run_leaving P s s1" using others_leaveD [OF assms] run_leaving_trans by blast
  show ?thesis
  proof (cases "e1 = None \<and> ch_State rec1 \<noteq> StateExpired")
    case False
    with run1 show ?thesis by (cases e1) (simp_all add: Justify_def get ctx ex)
  next
    case True
    show ?thesis
    proof (cases "ValidateJustification j known (ch_RequiredClaims rec1)")
      case (Inl e)
      with True run1 show ?thesis by (simp add: Justify_def get ctx ex)
    next
      case (Inr clean)
      obtain res due s2 where jl: "justify_locked (env_clock env 1) (ch_ChallengeID rec1) clean
          (HashJustification std clean) (env_others env 3 s1) = (res, due, s2)" by (metis surj_pair)
      have "run_leaving P (env_others env 3 s1)
          (if due then signalTerminal (ch_ChallengeID (fst res)) (env_others env 4 s2) else s2)"
        by (rule section_run [OF sec_justify [OF jl] others_leaveD [OF assms]])
      with run1 have "run_leaving P s (if due then signalTerminal (ch_ChallengeID (fst res)) (env_others env 4 s2) else s2)"
        using others_leave_after [OF assms] run_leaving_trans by blast
      with True Inr run1 jl show ?thesis by (cases due) (simp_all add: Justify_def get ctx ex)
    qed
  qed
qed

lemma Abandon_run:
  assumes "others_leave P env"
  shows "run_leaving P s (snd (Abandon env i corr s))"
proof -
  obtain res due s1 where a: "abandon_locked (env_clock env 0) i corr s = (res, due, s1)" by (metis surj_pair)
  have "run_leaving P s (if due then signalTerminal (ch_ChallengeID (fst res)) (env_others env 0 s1) else s1)"
    by (rule section_run [OF sec_abandon [OF a] others_leaveD [OF assms]])
  with a show ?thesis by (cases due) (simp_all add: Abandon_def)
qed

lemma ExpireDue_run:
  assumes "others_leave P env"
  shows "run_leaving P s (snd (ExpireDue env s))"
proof -
  obtain ids s1 where e: "expire_due_locked env s = (ids, s1)" by (metis surj_pair)
  from run_leaving_due [OF sec_expire_due [OF e] others_leaveD [OF assms, of s1 0]] e show ?thesis
    by (simp add: ExpireDue_def)
qed

lemma retry_evaluate_run:
  assumes "others_leave P env"
  shows "run_leaving P s (snd (retry_evaluate std env req b pending just s))"
proof -
  have fin: "run_leaving P s (snd (retry_finish_locked std now req b re (env_others env 5 s)))" for now re
  proof -
    obtain res s1 where f: "retry_finish_locked std now req b re (env_others env 5 s) = (res, s1)" by (metis surj_pair)
    have "run_leaving P (env_others env 5 s) s1" by (rule run_leaving_step) (rule sec_finish [OF f])
    then show ?thesis using others_leaveD [OF assms] run_leaving_trans f by (metis snd_conv)
  qed
  have "run_leaving P (env_others env 5 s) (retry_cancel_locked now req key (env_others env 5 s))" for now key
    by (rule run_leaving_step) (rule sec_cancel)
  then have can: "run_leaving P s (retry_cancel_locked now req key (env_others env 5 s))" for now key
    using others_leaveD [OF assms] run_leaving_trans by blast
  show ?thesis using fin can by (auto simp: retry_evaluate_def split: prod.splits option.splits)
qed

lemma retry_after_run:
  assumes "others_leave P env" and "retry_consume_locked now req b s = (out, s2)"
  shows "run_leaving P s (snd (retry_after std env req b out s2))"
proof -
  note c = sec_consume [OF assms(2)]
  have quiet: "run_leaving P s s2" if "outcome_due out = []" by (rule run_leaving_step) (use c that in simp)
  show ?thesis
  proof (cases out)
    case (CReply res err due)
    then have "sys_step \<lparr>sy_store = s, sy_due = d\<rparr>
        \<lparr>sy_store = s2, sy_due = (if due \<noteq> None then [the due] else []) @ d\<rparr>" for d
      using c by (auto simp: outcome_due_def split: option.splits)
    from section_run [OF this others_leaveD [OF assms(1)]] CReply show ?thesis
      by (cases due) (simp_all add: retry_after_def)
  next
    case CWait
    have "run_leaving P (env_others env 4 s2) (snd (waitTerminal (env_wait env) (rq_ChallengeID req) (env_others env 4 s2)))"
      by (rule waitTerminal_run) (use assms(1) in \<open>simp add: others_leave_def\<close>)
    moreover have "run_leaving P s (env_others env 4 s2)"
      using quiet CWait others_leave_after [OF assms(1)] by (simp add: outcome_due_def)
    ultimately have "run_leaving P s (snd (waitTerminal (env_wait env) (rq_ChallengeID req) (env_others env 4 s2)))"
      by (rule run_leaving_trans [rotated])
    then show ?thesis using CWait by (auto simp: retry_after_def split: prod.splits option.splits sum.splits)
  next
    case (CEvaluate pending just)
    then have "run_leaving P s s2" using quiet by (simp add: outcome_due_def)
    from run_leaving_trans [OF this retry_evaluate_run [OF assms(1)]] CEvaluate show ?thesis
      by (simp add: retry_after_def case_prod_beta)
  qed
qed

lemma AttemptRetry_run:
  assumes "others_leave P env"
  shows "run_leaving P s (snd (AttemptRetry std env req s))"
proof (cases "env_ctx env 0 \<or> TrimSpace (rq_ChallengeID req) = []
    \<or> ValidateProposedForChallenge std (rq_Proposed req) \<noteq> None
    \<or> TrimSpace (rq_CorrelationID req) = [] \<and> TrimSpace (rq_RetryRequestID req) = []
    \<or> Get s (rq_ChallengeID req) = None")
  case True
  then show ?thesis
    by (cases "ValidateProposedForChallenge std (rq_Proposed req)") (auto simp: AttemptRetry_def)
next
  case False
  then obtain rec0 where get: "Get s (rq_ChallengeID req) = Some rec0" by blast
  obtain rec1 e1 s1 where ex: "expireIfNeeded (env_clock env 0) (env_others env 1) (env_others env 2) rec0
      (env_others env 0 s) = ((rec1, e1), s1)" by (metis surj_pair)
  have "run_leaving P (env_others env 0 s) s1"
    using expireIfNeeded_run [of _ "env_others env 1" "env_others env 2" "env_others env 0 s" "env_clock env 0" rec0]
      others_leaveD [OF assms] ex by simp
  then have run1: "run_leaving P s s1" using others_leaveD [OF assms] run_leaving_trans by blast
  show ?thesis
  proof (cases "e1 = None \<and> (\<exists>b. bind_retry std req rec1 = Inr b)")
    case early: False
    with run1 False get ex show ?thesis
      by (cases e1) (auto simp: AttemptRetry_def split: sum.splits)
  next
    case True
    then obtain b where b: "bind_retry std req rec1 = Inr b" and "e1 = None" by blast
    obtain out s2 where c: "retry_consume_locked (env_clock env 1) req b (env_others env 3 s1) = (out, s2)"
      by (metis surj_pair)
    have "run_leaving P s (snd (retry_after std env req b out s2))"
      using run_leaving_trans [OF others_leave_after [OF assms run1] retry_after_run [OF assms c]] .
    with False get ex b c \<open>e1 = None\<close> show ?thesis by (auto simp: AttemptRetry_def)
  qed
qed

text \<open>
  C10. The handlers refine the interleaving of critical sections. Whatever the re-evaluator, the clock and the
  context do, and whatever critical sections and signals the other goroutines run in the gaps, the
  effect of \<open>Justify\<close>, \<open>AttemptRetry\<close>, \<open>Abandon\<close> and \<open>ExpireDue\<close> on the store, the interference included, is a run;
  and if the others leave at most the signals of the challenges \<open>P\<close> outstanding, so does it: the handler has
  sent every signal that it owed.
\<close>

theorem handlers_are_runs:
  assumes "others_leave P env"
  shows "run_leaving P s (snd (AttemptRetry std env req s)) \<and> run_leaving P s (snd (Justify std env j known s))
    \<and> run_leaving P s (snd (Abandon env i corr s)) \<and> run_leaving P s (snd (ExpireDue env s))"
  using AttemptRetry_run [OF assms] Justify_run [OF assms] Abandon_run [OF assms] ExpireDue_run [OF assms] by blast

text \<open>The id that \<open>Open\<close> allocated is not in use when its critical section runs.\<close>

definition no_id_collision :: "gostd \<Rightarrow> env \<Rightarrow> store \<Rightarrow> bool" where
  "no_id_collision std env s0 \<longleftrightarrow>
     (let s1 = env_others env 0 s0; (hr, s2) = newID std ''hr'' (env_clock env 1) s1;
          (ch, s3) = newID std ''ch'' (env_clock env 1) s1
      in gm_get (st_byID (env_others env 1 s2)) hr = None
       \<and> gm_get (st_byID (env_others env 2 (env_others env 1 s3))) ch = None)"

lemma newID_nonempty: "fst (newID std pre now s) \<noteq> []"
  by (simp add: newID_def Let_def)

lemma newID_run: "run_leaving P s (snd (newID std pre now s))"
  by (rule run_leaving_step) (rule sec_newID)

lemma Open_run:
  assumes "others_leave P env" and "valid_order (env_order env)" and "no_id_collision std env s"
  shows "run_leaving P s (snd (Open std env req s))"
proof (cases "env_ctx env 0")
  case True
  then show ?thesis by (simp add: Open_def)
next
  case ctx: False
  let ?s1 = "env_others env 0 s" and ?now = "env_clock env 0"
  have r1: "run_leaving P s ?s1" by (rule others_leaveD [OF assms(1)])
  show ?thesis
  proof (cases "openPrepare std req")
    case (Inl e)
    with ctx r1 show ?thesis by (simp add: Open_def Let_def)
  next
    case (Inr pl)
    obtain hr s2 where hr: "newID std ''hr'' (env_clock env 1) ?s1 = (hr, s2)" by (metis surj_pair)
    obtain ch s3 where ch: "newID std ''ch'' (env_clock env 1) ?s1 = (ch, s3)" by (metis surj_pair)
    have ids: "hr \<noteq> []" "ch \<noteq> []" "gm_get (st_byID (env_others env 1 s2)) hr = None"
      "gm_get (st_byID (env_others env 2 (env_others env 1 s3))) ch = None"
      using newID_nonempty [of std "''hr''" "env_clock env 1" ?s1] newID_nonempty [of std "''ch''" "env_clock env 1" ?s1]
        hr ch assms(3) by (simp_all add: no_id_collision_def Let_def)
    have "run_leaving P s s2" "run_leaving P s s3"
      using newID_run [of _ ?s1] run_leaving_trans [OF r1] hr ch by (metis snd_conv)+
    then have r2: "run_leaving P s (env_others env 1 s2)" "run_leaving P s (env_others env 2 (env_others env 1 s3))"
      using others_leave_after [OF assms(1)] by blast+
    have deny: "run_leaving P s (open_deny_locked (env_order env) pl req ?now ?s1)"
      by (rule run_leaving_trans [OF r1 run_leaving_step [OF sec_deny [OF assms(2)]]])
    obtain rec s4 where hum: "open_human_locked (env_order env) pl req hr ?now (env_others env 1 s2) = (rec, s4)"
      by (metis surj_pair)
    have "run_leaving P (env_others env 1 s2) (signalTerminal (ch_ChallengeID rec) (env_others env 2 s4))"
      using run_leaving_due [of _ s4 "[ch_ChallengeID rec]", OF _ others_leaveD [OF assms(1)]]
        sec_human [OF assms(2) ids(3) ids(1) hum] by simp
    then have human: "run_leaving P s (signalTerminal (ch_ChallengeID rec) (env_others env 2 s4))"
      by (rule run_leaving_trans [OF r2(1)])
    have appeal: "run_leaving P s (snd (open_appeal_locked (env_order env) pl req ticket
        (appeal_record pl req ch nonce ?now) ?now (env_others env 2 (env_others env 1 s3))))" for ticket nonce
    proof -
      obtain res s5 where ap: "open_appeal_locked (env_order env) pl req ticket
        (appeal_record pl req ch nonce ?now) ?now (env_others env 2 (env_others env 1 s3)) = (res, s5)" by (metis surj_pair)
      have "run_leaving P (env_others env 2 (env_others env 1 s3)) s5"
        by (rule run_leaving_step) (rule sec_appeal [OF assms(2) ids(4) ids(2) ap])
      from run_leaving_trans [OF r2(2) this] ap show ?thesis by simp
    qed
    show ?thesis using ctx Inr deny human appeal by (simp add: Open_def Let_def hr ch hum)
  qed
qed

text \<open>
  C11. \<open>Open\<close> refines the interleaving as well: on every branch (invalid request, hard denial,
  human review, appealable block, reused challenge, barrier) its effect on the store is a run of
  critical sections, provided the truncated id digest does not collide with an id in use. Other goroutines
  may run any sections and signals in the gaps, and \<open>Open\<close> leaves no signal outstanding but theirs (\<open>P\<close>).
\<close>

theorem open_is_a_run:
  assumes "others_leave P env" and "valid_order (env_order env)" and "no_id_collision std env s"
  shows "run_leaving P s (snd (Open std env req s))"
  by (rule Open_run [OF assms])

section \<open>Waiters are released\<close>

text \<open>The store after a handler call of the service.\<close>

definition handler_call :: "gostd \<Rightarrow> env \<Rightarrow> store \<Rightarrow> store \<Rightarrow> bool" where
  "handler_call std env s s' \<longleftrightarrow>
     (\<exists>req. s' = snd (AttemptRetry std env req s)) \<or> (\<exists>j known. s' = snd (Justify std env j known s))
   \<or> (\<exists>i corr. s' = snd (Abandon env i corr s)) \<or> s' = snd (ExpireDue env s)
   \<or> (\<exists>req. s' = snd (Open std env req s) \<and> valid_order (env_order env) \<and> no_id_collision std env s)"

lemma handler_call_run: "others_leave P env \<Longrightarrow> handler_call std env s s' \<Longrightarrow> run_leaving P s s'"
  unfolding handler_call_def
  by (elim disjE exE conjE) (simp_all add: AttemptRetry_run Justify_run Abandon_run ExpireDue_run Open_run)

text \<open>
  C6. No lost wake-up and no spurious one. Take any handler call on a store that some interleaving has
  reached, also after a restart from a file, with other goroutines in its gaps that leave at most
  the signals of the challenges \<open>P\<close> outstanding (for \<open>Open\<close>, with a new id that is not in use). When it returns,
  every challenge that ended meanwhile has its channel closed, but for those of \<open>P\<close> and those whose signal was
  already owed by someone (\<open>d\<close>); a closed channel belongs to a challenge that has ended; and whoever waits
  for a challenge that has ended, also one that ended before a restart and has no channel, gets its
  record at once, without touching the store.
\<close>

theorem ended_challenges_release_waiters:
  assumes "sys_reached \<lparr>sy_store = s, sy_due = d\<rparr>" and "others_leave P env" and "handler_call std env s s'"
  shows "(terminal_record s' i \<noteq> None \<longrightarrow> terminal_record s i \<noteq> None \<or> gm_get (st_terminalCh s') i = Some True \<or> i \<in> P \<union> set d)
    \<and> (gm_get (st_terminalCh s') i = Some True \<longrightarrow> terminal_record s' i \<noteq> None)
    \<and> (terminal_record s' i = Some r \<longrightarrow> waitTerminal ts i s' = (Some (Inr r), s'))"
proof -
  obtain ds where ds: "set ds \<subseteq> P" "sys_step\<^sup>*\<^sup>* \<lparr>sy_store = s, sy_due = d\<rparr> \<lparr>sy_store = s', sy_due = ds @ d\<rparr>"
    using handler_call_run [OF assms(2,3)] by (auto simp: run_leaving_def)
  have "terminal_record s' i = Some r \<Longrightarrow> waitTerminal ts i s' = (Some (Inr r), s')" by (cases ts) simp_all
  with run_signals [OF assms(1) ds(2), of i] ds(1) show ?thesis
    unfolding terminal_record_iff by (auto simp: signalled_def closed_in_def)
qed

section \<open>What an ALLOW of AttemptRetry means\<close>

lemma run_leaving_reached:
  assumes "run_leaving P s s'" and "sys_reached \<lparr>sy_store = s, sy_due = d\<rparr>"
  obtains d' where "sys_reached \<lparr>sy_store = s', sy_due = d'\<rparr>"
  using assms sys_reached_run unfolding run_leaving_def by blast

lemma store_run_reached:
  assumes "store_run s s'" and "sys_reached \<lparr>sy_store = s, sy_due = d\<rparr>"
  shows "sys_reached \<lparr>sy_store = s', sy_due = d\<rparr>"
  using assms sys_reached_run unfolding store_run_iff by blast

text \<open>The replay of an attempt that was already allowed: same attempt key, terminal record.\<close>

definition replayed_allow :: "retry_result \<Rightarrow> string \<Rightarrow> bool" where
  "replayed_allow res key \<longleftrightarrow>
     rt_IdempotentReplay res \<and> ch_State (rt_Record res) = StateAllowedOnce
   \<and> ch_ConsumedRetryKey (rt_Record res) = key \<and> key \<noteq> []"

lemma terminal_decision:
  assumes "tracks evs r" and "ch_State r \<noteq> StateAllowedOnce"
  shows "ch_Stage2Decision r = DecisionBlock"
  using assms path_types(1) [of evs "ch_State r"] by (auto simp: tracks_def decision_after_def)

lemma consume_allow:
  assumes inv: "store_inv s" and run: "retry_consume_locked now req b s = (CReply res err due, s')"
    and "rt_Stage2Decision res = DecisionAllow"
  shows "replayed_allow res (rb_key b)"
proof -
  obtain rec where get: "gm_get (st_byID s) (rq_ChallengeID req) = Some rec"
    using run assms(3) by (cases "gm_get (st_byID s) (rq_ChallengeID req)")
      (auto simp: retry_consume_locked_def empty_retry_result_def)
  note tr = store_invD(2) [OF inv get]
  have "ch_State rec \<in> {StateAllowedOnce, StateRejected, StateHumanReview, StateAbandoned}"
    and res: "res = fst (terminal_reply rec b)"
    using run assms(3) get
    by (auto simp: retry_consume_locked_def block_result_def Let_def split: if_splits prod.splits)
  show ?thesis
    using assms(3) terminal_decision [OF tr] unfolding res
    by (auto simp: terminal_reply_def Let_def replayed_allow_def empty_retry_result_def split: if_splits)
qed

lemma after_wait_allow:
  assumes "tracks evs final" and "rt_Stage2Decision (fst (after_wait b final)) = DecisionAllow"
  shows "replayed_allow (fst (after_wait b final)) (rb_key b)"
  using assms(2) terminal_decision [OF assms(1)]
  by (auto simp: after_wait_def Let_def replayed_allow_def empty_retry_result_def split: if_splits)

lemma finish_allow:
  assumes inv: "store_inv s" and run: "retry_finish_locked std now req b re s = ((res, err), s')"
    and allow: "rt_Stage2Decision res = DecisionAllow"
  shows "replayed_allow res (rb_key b)
    \<or> (allow_once re \<and> re_Intervention re \<noteq> InterventionHumanReview
       \<and> ch_State (rt_Record res) = StateAllowedOnce \<and> ch_ConsumedRetryKey (rt_Record res) = rb_key b
       \<and> (\<exists>ev. st_events s' = st_events s @ [ev] \<and> ev_Type ev = EvAllowedOnce
              \<and> ev_ChallengeID ev = rq_ChallengeID req)
       \<and> (\<exists>r0. gm_get (st_byID s) (rq_ChallengeID req) = Some r0 \<and> identity_of (rt_Record res) = identity_of r0))"
proof -
  obtain rec where get: "gm_get (st_byID s) (rq_ChallengeID req) = Some rec"
    using run allow by (cases "gm_get (st_byID s) (rq_ChallengeID req)")
      (auto simp: retry_finish_locked_def empty_retry_result_def)
  note id = store_invD(1) [OF inv get] and tr = store_invD(2) [OF inv get]
  show ?thesis
  proof (cases "ch_State rec = StateRetryPending \<and> \<not> expiry_due s rec")
    case False
    then have "replayed_allow res (rb_key b)"
      using run allow get terminal_decision [OF tr]
      by (auto simp: retry_finish_locked_def block_result_def Let_def replayed_allow_def empty_retry_result_def
          split: if_splits prod.splits)
    then show ?thesis ..
  next
    case True
    obtain r ev where w: "gm_get (st_byID (write_verdict std now req (rb_key b) re rec s)) (rq_ChallengeID req) = Some r"
      "st_events (write_verdict std now req (rb_key b) re rec s) = st_events s @ [ev]"
      "ev_Type ev = verdict_of re" "ev_ChallengeID ev = rq_ChallengeID req"
      "ch_State r = verdict_state (verdict_of re)" "ch_ConsumedRetryKey r = rb_key b"
      "ch_Stage2Decision r = (if verdict_of re = EvAllowedOnce then DecisionAllow else DecisionBlock)"
      "identity_of r = identity_of rec"
      using write_verdict_step [OF inv get conjunct1 [OF True], of std now req "rb_key b" re] by metis
    have eq: "rt_Record res = r" "rt_Stage2Decision res = ch_Stage2Decision r"
      "st_events s' = st_events (write_verdict std now req (rb_key b) re rec s)"
      using run get True w(1) id by (auto simp: retry_finish_locked_def Let_def empty_retry_result_def)
    have v: "verdict_of re = EvAllowedOnce" using allow eq(2) w(7) by (simp split: if_splits)
    then have "allow_once re" "re_Intervention re \<noteq> InterventionHumanReview"
      by (simp_all add: verdict_of_def split: if_splits)
    with v w eq get show ?thesis by (simp add: verdict_state_def)
  qed
qed

lemma expireIfNeeded_id:
  assumes "expireIfNeeded now o1 o2 rec s = ((rec', e), s')" and "store_inv (o1 s)"
  shows "ch_ChallengeID rec' = ch_ChallengeID rec"
proof -
  have "ch_ChallengeID (fst (fst (expire_locked now rec (o1 s)))) = ch_ChallengeID rec"
    using store_invD(1) [OF assms(2)]
    by (auto simp: expire_locked_def appendTransition_plain appendTransitionAudit_def nextSeqLocked_def Let_def
        expired_transition_def split: option.splits)
  with assms(1) show ?thesis
    by (auto simp: expireIfNeeded_def split: if_splits prod.splits bool.splits)
qed

lemma bind_retry_error:
  assumes "bind_retry std req rec = Inl (res, e)"
  shows "rt_Stage2Decision res = DecisionBlock"
  using assms
  by (auto simp: bind_retry_def block_result_def Let_def split: option.splits sum.splits prod.splits if_splits)

lemma bind_retry_key:
  assumes "bind_retry std req rec = Inr b"
  shows "\<exists>fp. rb_key b = retryAttemptKey std (ch_ChallengeID rec) req fp"
  using assms by (auto simp: bind_retry_def Let_def split: option.splits sum.splits prod.splits if_splits)

lemma consume_pending:
  assumes inv: "store_inv s" and run: "retry_consume_locked now req b s = (CEvaluate pending just, s')"
  shows "gm_get (st_byID s') (rq_ChallengeID req) = Some pending"
proof -
  obtain rec where get: "gm_get (st_byID s) (rq_ChallengeID req) = Some rec" and state: "ch_State rec = StateJustified"
    and c: "consume_budget now req (rb_key b) rec s = ((pending, just), s')"
    using run by (auto simp: retry_consume_locked_def Let_def split: option.splits if_splits prod.splits)
  note t = consume_budget_transition [OF inv get state]
  show ?thesis
    using staged_step(2) [OF inv get t(1), where just = None, of req "rb_key b" now] t(3,4) [of now req "rb_key b"] c
    by simp
qed

text \<open>A fresh ALLOW: the evaluation that produced it and the challenge it was produced for.\<close>

definition fresh_allow :: "env \<Rightarrow> retry_request \<Rightarrow> retry_result \<Rightarrow> store \<Rightarrow> bool" where
  "fresh_allow env req res s' \<longleftrightarrow>
     (\<exists>pending just re. env_reeval env pending (rq_Proposed req) just (rq_ReEval req) = (re, None)
        \<and> genuine_allow re \<and> re_Intervention re \<noteq> InterventionHumanReview
        \<and> ch_ChallengeID pending = rq_ChallengeID req \<and> identity_of (rt_Record res) = identity_of pending
        \<and> ch_State (rt_Record res) = StateAllowedOnce
        \<and> has_type EvAllowedOnce (Events s' (rq_ChallengeID req)))"

lemma evaluate_allow:
  assumes inv: "store_inv s" "store_inv (env_others env 5 s)" and ext: "store_ext s (env_others env 5 s)"
    and pend: "gm_get (st_byID s) (rq_ChallengeID req) = Some pending"
    and run: "retry_evaluate std env req b pending just s = ((res, err), s')"
    and allow: "rt_Stage2Decision res = DecisionAllow"
  shows "replayed_allow res (rb_key b) \<or> fresh_allow env req res s'"
proof -
  obtain re perr where re: "env_reeval env pending (rq_Proposed req) just (rq_ReEval req) = (re, perr)"
    by (metis surj_pair)
  have not_canceled: "\<not> (perr \<noteq> None \<and> env_ctx env 1)"
    using run allow re by (auto simp: retry_evaluate_def canceled_result_def empty_retry_result_def)
  obtain re' where fin: "retry_finish_locked std (env_clock env 2) req b re' (env_others env 5 s) = ((res, err), s')"
    and re': "perr = None \<and> re' = re \<or> \<not> allow_once re'"
    using run re not_canceled
    by (cases perr) (auto simp: retry_evaluate_def allow_once_def plain_result_def)
  from finish_allow [OF inv(2) fin allow] show ?thesis
  proof
    assume "replayed_allow res (rb_key b)"
    then show ?thesis ..
  next
    assume f: "allow_once re' \<and> re_Intervention re' \<noteq> InterventionHumanReview
       \<and> ch_State (rt_Record res) = StateAllowedOnce \<and> ch_ConsumedRetryKey (rt_Record res) = rb_key b
       \<and> (\<exists>ev. st_events s' = st_events (env_others env 5 s) @ [ev] \<and> ev_Type ev = EvAllowedOnce
              \<and> ev_ChallengeID ev = rq_ChallengeID req)
       \<and> (\<exists>r0. gm_get (st_byID (env_others env 5 s)) (rq_ChallengeID req) = Some r0
            \<and> identity_of (rt_Record res) = identity_of r0)"
    with re' have "perr = None" "re' = re" by auto
    moreover obtain r0 where r0: "gm_get (st_byID (env_others env 5 s)) (rq_ChallengeID req) = Some r0"
      "identity_of (rt_Record res) = identity_of r0" using f by blast
    moreover obtain r1 where "gm_get (st_byID (env_others env 5 s)) (rq_ChallengeID req) = Some r1"
      "identity_of r1 = identity_of pending" by (rule store_ext_record [OF ext pend])
    moreover have "ch_ChallengeID pending = rq_ChallengeID req" by (rule store_invD(1) [OF inv(1) pend])
    moreover have "has_type EvAllowedOnce (Events s' (rq_ChallengeID req))" using f by (force simp: Events_def image_iff)
    ultimately have "fresh_allow env req res s'"
      using f re unfolding fresh_allow_def genuine_allow_def allow_once_def by auto
    then show ?thesis ..
  qed
qed

lemma wait_result:
  assumes "waitTerminal ts i s = (Some (Inr final), s')"
  shows "Get s' i = Some final"
  using assms
  by (induction ts i s rule: waitTerminal.induct)
    (auto simp: terminal_record_def Let_def split: option.splits if_splits)

lemma run_inv_ext:
  assumes "sys_reached \<lparr>sy_store = a, sy_due = d\<rparr>" and "run_leaving P a b"
  shows "store_inv b" and "store_ext a b"
proof -
  from assms(2) obtain ds where "sys_step\<^sup>*\<^sup>* \<lparr>sy_store = a, sy_due = d\<rparr> \<lparr>sy_store = b, sy_due = ds @ d\<rparr>"
    unfolding run_leaving_def by blast
  from sys_reached_grows [OF assms(1) this] reached_store_inv [OF sys_reached_run [OF assms(1) this]]
  show "store_inv b" and "store_ext a b" by simp_all
qed

lemma retry_after_allow:
  assumes reached: "sys_reached \<lparr>sy_store = s, sy_due = d\<rparr>" and others: "others_leave P env"
    and cons: "retry_consume_locked now req b s = (out, s2)"
    and run: "retry_after std env req b out s2 = (Some (res, err), s')"
    and allow: "rt_Stage2Decision res = DecisionAllow"
  shows "replayed_allow res (rb_key b) \<or> fresh_allow env req res s'"
proof (cases out)
  case (CReply res' err' due)
  have "store_inv s" using reached_store_inv [OF reached] by simp
  moreover have "res' = res" using run CReply by (cases due) (simp_all add: retry_after_def)
  ultimately show ?thesis using consume_allow [of s now req b res err' due s2] cons CReply allow by simp
next
  case CWait
  then obtain final where w: "waitTerminal (env_wait env) (rq_ChallengeID req) (env_others env 4 s2) = (Some (Inr final), s')"
    and res: "res = fst (after_wait b final)"
    using run allow by (auto simp: retry_after_def canceled_result_def empty_retry_result_def
        split: prod.splits option.splits sum.splits)
  have "run_leaving P s (snd (retry_after std env req b out s2))" by (rule retry_after_run [OF others cons])
  then have "store_inv s'" using run_inv_ext(1) [OF reached] run by simp
  moreover have "gm_get (st_byID s') (rq_ChallengeID req) = Some final" using wait_result [OF w] by (simp add: Get_def)
  ultimately have "tracks (Events s' (rq_ChallengeID req)) final" by (rule store_invD(2))
  from after_wait_allow [OF this] allow show ?thesis by (simp add: res)
next
  case (CEvaluate pending just)
  have quiet: "store_run s s2" by (rule run_leaving_step) (use sec_consume [OF cons] CEvaluate in \<open>simp add: outcome_due_def\<close>)
  have r2: "sys_reached \<lparr>sy_store = s2, sy_due = d\<rparr>" by (rule store_run_reached [OF quiet reached])
  note after = run_inv_ext [OF r2 others_leaveD [OF others]]
  have "retry_evaluate std env req b pending just s2 = ((res, err), s')"
    using run CEvaluate by (simp add: retry_after_def case_prod_beta prod_eq_iff)
  moreover have "gm_get (st_byID s2) (rq_ChallengeID req) = Some pending"
    using consume_pending cons CEvaluate reached_store_inv [OF reached] by simp
  ultimately show ?thesis
    using evaluate_allow [OF _ after _ _ allow] reached_store_inv [OF r2] by simp
qed

lemma retry_allow_cases:
  assumes reached: "sys_reached \<lparr>sy_store = s, sy_due = d\<rparr>" and others: "others_leave P env"
    and run: "AttemptRetry std env req s = (Some (res, err), s')"
    and allow: "rt_Stage2Decision res = DecisionAllow"
  shows "(\<exists>fp. replayed_allow res (retryAttemptKey std (rq_ChallengeID req) req fp)) \<or> fresh_allow env req res s'"
proof -
  have valid: "\<not> env_ctx env 0" "TrimSpace (rq_ChallengeID req) \<noteq> []"
    "ValidateProposedForChallenge std (rq_Proposed req) = None"
    "\<not> (TrimSpace (rq_CorrelationID req) = [] \<and> TrimSpace (rq_RetryRequestID req) = [])"
    using run allow by (auto simp: AttemptRetry_def empty_retry_result_def split: if_splits option.splits)
  then obtain rec0 where get: "Get s (rq_ChallengeID req) = Some rec0"
    using run allow by (cases "Get s (rq_ChallengeID req)") (auto simp: AttemptRetry_def empty_retry_result_def)
  obtain rec1 e1 s1 where ex: "expireIfNeeded (env_clock env 0) (env_others env 1) (env_others env 2) rec0
      (env_others env 0 s) = ((rec1, e1), s1)" by (metis surj_pair)
  have o0: "run_leaving P s (env_others env 0 s)" by (rule others_leaveD [OF others])
  have "run_leaving P s (env_others env 1 (env_others env 0 s))" by (rule others_leave_after [OF others o0])
  then have "ch_ChallengeID rec1 = ch_ChallengeID rec0"
    using expireIfNeeded_id [OF ex] run_inv_ext(1) [OF reached] by blast
  moreover have "ch_ChallengeID rec0 = rq_ChallengeID req"
    using store_invD(1) reached_store_inv [OF reached] get by (simp add: Get_def)
  ultimately have id: "ch_ChallengeID rec1 = rq_ChallengeID req" by simp
  have "run_leaving P (env_others env 0 s) s1"
    using expireIfNeeded_run [of _ "env_others env 1" "env_others env 2" "env_others env 0 s" "env_clock env 0" rec0]
      others_leaveD [OF others] ex by simp
  with o0 have "run_leaving P s (env_others env 3 s1)" using run_leaving_trans others_leave_after [OF others] by blast
  then obtain d3 where r3: "sys_reached \<lparr>sy_store = env_others env 3 s1, sy_due = d3\<rparr>"
    using reached by (rule run_leaving_reached)
  have "e1 = None" using run allow valid get ex
    by (cases e1) (auto simp: AttemptRetry_def block_result_def)
  moreover obtain b where b: "bind_retry std req rec1 = Inr b"
    using run allow valid get ex calculation
    by (cases "bind_retry std req rec1") (auto simp: AttemptRetry_def dest!: bind_retry_error)
  moreover obtain out s2 where c: "retry_consume_locked (env_clock env 1) req b (env_others env 3 s1) = (out, s2)"
    by (metis surj_pair)
  ultimately have "retry_after std env req b out s2 = (Some (res, err), s')"
    using run valid get ex by (auto simp: AttemptRetry_def)
  from retry_after_allow [OF r3 others c this allow] bind_retry_key [OF b] show ?thesis by (auto simp: id)
qed

text \<open>What the default re-evaluator guarantees of a challenge and an action it allows.\<close>

definition allow_guards :: "reeval_context \<Rightarrow> retry_request \<Rightarrow> retry_result \<Rightarrow> bool" where
  "allow_guards c req res \<longleftrightarrow>
     \<not> IsHardDenyClass (ch_BlockClass (rt_Record res)) \<and> \<not> IsIrreversibleClass (ch_BlockClass (rt_Record res))
   \<and> \<not> rc_HardBlock c \<and> \<not> rc_Irreversible c
   \<and> \<not> LooksLikeSecretExfil (rq_Proposed req) \<and> \<not> LooksLikeCrossWorkspace (rq_Proposed req)
   \<and> side_of (rq_Proposed req) \<notin> {SideEffectDeploy, SideEffectPayment, SideEffectPermission}"

text \<open>
  C12. What an ALLOW means. From any reachable store and with any critical sections and signals of
  other goroutines in the gaps, whatever they leave outstanding (\<open>P\<close> is arbitrary), when
  \<open>AttemptRetry\<close> answers ALLOW then either this is the replay of the very attempt that was allowed
  before (the record is \<open>ALLOWED_ONCE\<close> and its consumed key is the non-empty key of this request),
  or the re-evaluator returned, for this challenge and this action, a genuine allow: no error, no
  human review, no provider fail-open reason, with the \<open>allowed_once\<close> event in the log. With the
  default re-evaluator the block was then neither hard-denied nor irreversible and the action
  shows no exfiltration, no cross-workspace access, no deployment, payment or permission change.
\<close>

theorem allow_needs_genuine_reevaluation:
  assumes "sys_reached \<lparr>sy_store = s, sy_due = d\<rparr>" and "others_leave P env"
    and "AttemptRetry std env req s = (Some (res, err), s')"
    and "rt_Stage2Decision res = DecisionAllow"
  shows "(\<exists>fp. replayed_allow res (retryAttemptKey std (rq_ChallengeID req) req fp))
    \<or> (fresh_allow env req res s'
       \<and> (env_reeval env = ReEvaluate st1 \<longrightarrow> rq_ReEval req = Some c \<longrightarrow> allow_guards c req res))"
  using retry_allow_cases [OF assms]
proof
  assume f: "fresh_allow env req res s'"
  have "allow_guards c req res" if "env_reeval env = ReEvaluate st1" "rq_ReEval req = Some c"
  proof -
    from f that obtain pending just re where
      re: "ReEvaluate st1 pending (rq_Proposed req) just (Some c) = (re, None)" "genuine_allow re"
      and same: "identity_of (rt_Record res) = identity_of pending" by (auto simp: fresh_allow_def)
    from reevaluate_guards [OF re] identity_of_fields(4) [OF same] show ?thesis by (simp add: allow_guards_def)
  qed
  with f show ?thesis by blast
qed blast

end
