(* ===== verification/ChallengeWitnesses.thy ===== *)
theory ChallengeWitnesses
  imports ChallengeHandlers
begin

text \<open>
  A concrete challenge, followed from its opening to the one allowed retry, and concrete inputs
  at which the hypotheses of the theorems on the challenge service hold.
\<close>

section \<open>One challenge from open to allowed once\<close>

definition demo_std :: gostd where
  "demo_std = \<lparr>sha256_hex = (\<lambda>x. x), json_decode = (\<lambda>_. None), json_encode = (\<lambda>_. [])\<rparr>"

definition demo_action :: proposed_action where
  "demo_action = empty_action\<lparr>pa_SchemaVersion := ProposedActionSchemaVersion, pa_SessionID := ''s'',
     pa_ActionID := ''a1'', pa_ToolName := ''Read'', pa_ToolClass := ToolClassRead, pa_FilePath := ''f'',
     pa_ParseStatus := ''ok''\<rparr>"

definition demo_open :: open_request where
  "demo_open = \<lparr>or_SessionID = ''s'', or_Proposed = demo_action, or_BlockClass = ''OVER_SOP'', or_ReasonCode = ''R'',
     or_SuggestedFix = [], or_ChallengeNonce = [], or_PolicyClass = [], or_RequiredClaims = [''scope_limit''],
     or_PolicyVersion = ''v1'', or_RulesetHash = ''h1'', or_Branch = [], or_ExpiresAfterSequences = 0,
     or_CorrelationID = ''c''\<rparr>"

definition demo_plan :: open_plan where
  "demo_plan = projr (openPrepare demo_std demo_open)"

definition demo_just :: justification where
  "demo_just = empty_justification\<lparr>ju_SchemaVersion := SchemaJustification, ju_ChallengeID := ''ch-1'',
     ju_ScopeLimit := ''one file''\<rparr>"

definition demo_stage1 :: "unit stage1" where
  "demo_stage1 = \<lparr>s1_NewRequest = (\<lambda>_ _ _ _ _. None), s1_Assess = (\<lambda>_. (\<lparr>ra_ParseStatus = [], ra_Severity = 0\<rparr>, None)),
     s1_Validate = (\<lambda>_ _. None), s1_AuditJSON = (\<lambda>_ _ _. [])\<rparr>"

definition demo_env :: env where
  "demo_env = \<lparr>env_clock = (\<lambda>_. 7), env_order = id, env_rand = None, env_wall = 0, env_ctx = (\<lambda>_. False),
     env_reeval = ReEvaluate demo_stage1, env_others = (\<lambda>_ s. s), env_wait = []\<rparr>"

definition demo_context :: reeval_context where
  "demo_context = empty_reeval_context\<lparr>rc_RepoPolicyException := True\<rparr>"

definition demo_retry :: retry_request where
  "demo_retry = \<lparr>rq_ChallengeID = ''ch-1'', rq_ChallengeNonce = [], rq_RequireNonce = False, rq_SessionID = ''s'',
     rq_Branch = [], rq_RetryRequestID = [], rq_Proposed = demo_action, rq_CorrelationID = ''c1'',
     rq_ReEval = Some demo_context\<rparr>"

definition demo_s1 :: store where
  "demo_s1 = snd (open_appeal_locked id demo_plan demo_open 0 (appeal_record demo_plan demo_open ''ch-1'' ''n'' 5) 5 NewStore)"

definition demo_s2 :: store where
  "demo_s2 = snd (snd (justify_locked 6 ''ch-1'' demo_just ''jh'' demo_s1))"

definition demo_s3 :: store where
  "demo_s3 = snd (AttemptRetry demo_std demo_env demo_retry demo_s2)"

definition demo_y :: "store \<Rightarrow> sys" where
  "demo_y s = \<lparr>sy_store = s, sy_due = []\<rparr>"

lemma demo_others: "others_run demo_env"
  by (simp add: others_leave_def demo_env_def)

lemma demo_reached0: "sys_reached (demo_y NewStore)"
  by (simp add: demo_y_def reached_new)

lemma demo_reached1: "sys_reached (demo_y demo_s1)"
proof -
  obtain res where "open_appeal_locked id demo_plan demo_open 0 (appeal_record demo_plan demo_open ''ch-1'' ''n'' 5) 5 NewStore
      = (res, demo_s1)" unfolding demo_s1_def by (metis surjective_pairing)
  then have "sys_step (demo_y NewStore) (demo_y demo_s1)"
    unfolding demo_y_def by (intro sec_appeal [OF valid_order_id]) (simp_all add: NewStore_def)
  with demo_reached0 show ?thesis by (rule reached_step)
qed

lemma demo_due: "fst (snd (justify_locked 6 ''ch-1'' demo_just ''jh'' demo_s1)) = False"
  by code_simp

lemma demo_reached2: "sys_reached (demo_y demo_s2)"
proof -
  obtain res where "justify_locked 6 ''ch-1'' demo_just ''jh'' demo_s1 = (res, False, demo_s2)"
    using demo_due unfolding demo_s2_def by (metis surjective_pairing)
  from sec_justify [OF this, of "[]"] have "sys_step (demo_y demo_s1) (demo_y demo_s2)" by (simp add: demo_y_def)
  with demo_reached1 show ?thesis by (rule reached_step)
qed

lemma demo_run3: "store_run demo_s2 demo_s3"
  unfolding demo_s3_def by (rule AttemptRetry_run [OF demo_others])

lemma demo_reached3: "sys_reached (demo_y demo_s3)"
  using store_run_reached [OF demo_run3, of "[]"] demo_reached2 by (simp add: demo_y_def)

lemma demo_answer:
  "map_option (\<lambda>(res, err). (rt_Stage2Decision res, err, rt_IdempotentReplay res))
     (fst (AttemptRetry demo_std demo_env demo_retry demo_s2)) = Some (DecisionAllow, None, False)"
  by code_simp

lemma demo_log: "map ev_Type (Events demo_s3 ''ch-1'') = [EvOpened, EvJustified, EvBudgetConsumed, EvAllowedOnce]"
  by code_simp

lemma demo_states:
  "map_option ch_State (Get demo_s1 ''ch-1'') = Some StateOpen"
  "map_option ch_State (Get demo_s3 ''ch-1'') = Some StateAllowedOnce"
  by code_simp+

section \<open>Witnesses\<close>

lemma demo_store [simp]: "sy_store (demo_y s) = s"
  by (simp add: demo_y_def)

lemma demo_types: "has_type t (Events demo_s3 ''ch-1'') \<longleftrightarrow> t \<in> {EvOpened, EvJustified, EvBudgetConsumed, EvAllowedOnce}"
proof -
  have "ev_Type ` set (Events demo_s3 ''ch-1'') = set (map ev_Type (Events demo_s3 ''ch-1''))" by simp
  then show ?thesis unfolding demo_log by auto
qed

theorem one_shot_per_challenge_witness:
  "has_type EvAllowedOnce (Events demo_s3 ''ch-1'') \<and> count_type EvAllowedOnce (Events demo_s3 ''ch-1'') \<le> 1
   \<and> count_type EvBudgetConsumed (Events demo_s3 ''ch-1'') = 1"
  using one_shot_per_challenge [OF demo_reached3, of "''ch-1''"] demo_types [of EvAllowedOnce] by simp

theorem replay_matches_live_witness:
  "\<exists>r k. Get demo_s3 ''ch-1'' = Some r \<and> ReplayFromStore ''ch-1'' demo_s3 = Inr (r\<lparr>ch_ConsumedRetryKey := k\<rparr>)"
proof -
  obtain r where "Get demo_s3 ''ch-1'' = Some r" using demo_states(2) by auto
  with replay_matches_live [OF demo_reached3, of "''ch-1''" r] show ?thesis by auto
qed

lemma demo_steps: "sys_step\<^sup>*\<^sup>* (demo_y demo_s2) (demo_y demo_s3)"
  using demo_run3 by (simp add: store_run_iff demo_y_def)

theorem terminal_records_never_change_witness:
  "\<exists>r. Get demo_s3 ''ch-1'' = Some r \<and> isTerminal (ch_State r)
     \<and> Get (snd (Abandon demo_env ''ch-1'' ''x'' demo_s3)) ''ch-1'' = Some r"
proof -
  obtain r where r: "Get demo_s3 ''ch-1'' = Some r" "ch_State r = StateAllowedOnce" using demo_states(2) by auto
  have "store_run demo_s3 (snd (Abandon demo_env ''ch-1'' ''x'' demo_s3))" by (rule Abandon_run [OF demo_others])
  then have "sys_step\<^sup>*\<^sup>* (demo_y demo_s3) (demo_y (snd (Abandon demo_env ''ch-1'' ''x'' demo_s3)))"
    by (simp add: store_run_iff demo_y_def)
  from terminal_records_never_change [OF demo_reached3 this, of "''ch-1''" r] r show ?thesis
    by (simp add: isTerminal_def)
qed

theorem log_is_an_ordered_history_witness:
  "(\<exists>es. AllEvents demo_s3 = AllEvents demo_s2 @ es) \<and> sorted_wrt (<) (map ev_Sequence (AllEvents demo_s3))"
  using log_is_an_ordered_history [OF demo_reached2 demo_steps] by simp

theorem at_most_one_active_witness:
  "\<exists>r. Get demo_s1 ''ch-1'' = Some r \<and> \<not> isTerminal (ch_State r)
     \<and> (\<forall>j. Get demo_s1 j = Some r \<longrightarrow> j = ''ch-1'')"
proof -
  obtain r where r: "Get demo_s1 ''ch-1'' = Some r" "ch_State r = StateOpen" using demo_states(1) by auto
  then have nt: "\<not> isTerminal (ch_State r)" by (simp add: isTerminal_def)
  have "j = ''ch-1''" if "Get demo_s1 j = Some r" for j
    using at_most_one_active [OF demo_reached1, of j r "''ch-1''" r] r that nt by simp
  with r nt show ?thesis by blast
qed

lemma demo_open2: "terminal_record demo_s2 ''ch-1'' = None"
  by code_simp+

theorem ended_challenges_release_waiters_witness:
  "terminal_record demo_s3 ''ch-1'' \<noteq> None \<and> gm_get (st_terminalCh demo_s3) ''ch-1'' = Some True"
proof -
  have "terminal_record demo_s3 ''ch-1'' \<noteq> None"
    using demo_states(2) by (auto simp: terminal_record_def isTerminal_def split: option.splits)
  moreover have "handler_call demo_std demo_env demo_s2 demo_s3" by (auto simp: handler_call_def demo_s3_def)
  ultimately show ?thesis
    using ended_challenges_release_waiters [OF demo_reached2 [unfolded demo_y_def] demo_others, of demo_std demo_s3 "''ch-1''"]
      demo_open2 by simp
qed

text \<open>The same action under a hard denial.\<close>

definition demo_deny :: open_plan where
  "demo_deny = demo_plan\<lparr>pl_BlockClass := BlockClassExplicitDeny, pl_Appeal := AppealNonAppealable\<rparr>"

lemma demo_hit: "list_all (semantic_hit (pl_SessionID demo_deny) (pl_FP demo_deny)) (map snd (st_byID demo_s1)) \<and> st_byID demo_s1 \<noteq> []"
  by code_simp

theorem denial_leaves_no_active_challenge_witness:
  "(\<exists>r \<in> set (map snd (st_byID demo_s1)). semantic_hit (pl_SessionID demo_deny) (pl_FP demo_deny) r)
   \<and> \<not> (\<exists>j r. Get (open_deny_locked id demo_deny demo_open 9 demo_s1) j = Some r
        \<and> semantic_hit (pl_SessionID demo_deny) (pl_FP demo_deny) r)"
proof -
  have "\<exists>r \<in> set (map snd (st_byID demo_s1)). semantic_hit (pl_SessionID demo_deny) (pl_FP demo_deny) r"
    using demo_hit by (cases "st_byID demo_s1") auto
  with denial_leaves_no_active_challenge [OF demo_reached1 valid_order_id, of demo_deny demo_open 9] show ?thesis
    by (metis demo_store)
qed

theorem stale_open_loses_to_denial_witness:
  "open_appeal_locked id demo_plan (demo_open\<lparr>or_PolicyVersion := ''v2''\<rparr>) (Sequence demo_s1)
      (appeal_record demo_plan demo_open ''ch-2'' ''n'' 9) 9 (open_deny_locked id demo_deny demo_open 8 demo_s1)
    = ((empty_challenge, Some ''challenge open: non-appealable barrier''), open_deny_locked id demo_deny demo_open 8 demo_s1)"
  by (rule stale_open_loses_to_denial [OF demo_reached1 [unfolded demo_y_def] valid_order_id rtranclp.rtrancl_refl])
    (simp_all add: demo_deny_def)

theorem denied_policy_stays_denied_witness:
  "snd (fst (open_appeal_locked rev demo_plan demo_open 1000 (appeal_record demo_plan demo_open ''ch-2'' ''n'' 9) 9
       (open_deny_locked id demo_deny demo_open 8 demo_s1))) \<noteq> None"
  using denied_policy_stays_denied [OF demo_reached1 valid_order_id valid_order_rev, of demo_plan demo_deny demo_open demo_open]
  by (simp add: demo_deny_def)

text \<open>In the first gap another goroutine abandons the challenge and has not signalled yet.\<close>

definition demo_noisy :: env where
  "demo_noisy = demo_env\<lparr>env_others := (\<lambda>k s. if k = 0 then snd (snd (abandon_locked 9 ''ch-1'' ''x'' s)) else s)\<rparr>"

lemma demo_noisy_others: "others_leave UNIV demo_noisy"
proof -
  have "run_leaving UNIV s (snd (snd (abandon_locked 9 ''ch-1'' ''x'' s)))" for s
  proof -
    obtain res due s1 where a: "abandon_locked 9 ''ch-1'' ''x'' s = (res, due, s1)" by (metis surj_pair)
    from run_leavingI [OF subset_UNIV r_into_rtranclp [of sys_step, OF sec_abandon [OF a]]] a show ?thesis by simp
  qed
  then show ?thesis by (simp add: others_leave_def demo_noisy_def demo_env_def)
qed

theorem handlers_are_runs_witness:
  "run_leaving UNIV demo_s1 (snd (Justify demo_std demo_noisy demo_just [] demo_s1))
   \<and> store_run demo_s1 (snd (Justify demo_std demo_env demo_just [] demo_s1))"
  using handlers_are_runs [OF demo_others] handlers_are_runs [OF demo_noisy_others] by blast

lemma demo_no_collision: "no_id_collision demo_std demo_env NewStore"
  by (simp add: no_id_collision_def demo_env_def newID_def NewStore_def Let_def)

theorem open_is_a_run_witness:
  "store_run NewStore (snd (Open demo_std demo_env demo_open NewStore))"
  by (rule open_is_a_run [OF demo_others _ demo_no_collision]) (simp add: demo_env_def valid_order_id)

theorem allow_needs_genuine_reevaluation_witness:
  "\<exists>res s'. AttemptRetry demo_std demo_env demo_retry demo_s2 = (Some (res, None), s')
     \<and> fresh_allow demo_env demo_retry res s' \<and> allow_guards demo_context demo_retry res"
proof -
  obtain res s' where run: "AttemptRetry demo_std demo_env demo_retry demo_s2 = (Some (res, None), s')"
    and allow: "rt_Stage2Decision res = DecisionAllow" and fresh: "\<not> rt_IdempotentReplay res"
    using demo_answer by (cases "AttemptRetry demo_std demo_env demo_retry demo_s2") auto
  have "env_reeval demo_env = ReEvaluate demo_stage1" "rq_ReEval demo_retry = Some demo_context"
    by (simp_all add: demo_env_def demo_retry_def)
  with allow_needs_genuine_reevaluation [OF demo_reached2 [unfolded demo_y_def] demo_others run allow, of demo_stage1 demo_context]
    fresh run show ?thesis by (auto simp: replayed_allow_def)
qed

theorem reevaluate_never_self_allows_witness:
  "\<exists>re. ReEvaluate demo_stage1 (empty_challenge\<lparr>ch_BlockClass := BlockClassOverSOP\<rparr>) demo_action demo_just (Some demo_context) = (re, None)
     \<and> genuine_allow re \<and> \<not> LooksLikeSecretExfil demo_action"
proof -
  have ev: "(case ReEvaluate demo_stage1 (empty_challenge\<lparr>ch_BlockClass := BlockClassOverSOP\<rparr>) demo_action demo_just (Some demo_context)
      of (re, err) \<Rightarrow> genuine_allow re \<and> err = None)" by code_simp
  then obtain re where re: "ReEvaluate demo_stage1 (empty_challenge\<lparr>ch_BlockClass := BlockClassOverSOP\<rparr>) demo_action demo_just
      (Some demo_context) = (re, None)" "genuine_allow re" by (auto split: prod.splits)
  from reevaluate_never_self_allows [OF re] re show ?thesis by blast
qed

end
