(* ===== verification/FingerprintWitnesses.thy ===== *)
theory FingerprintWitnesses
  imports ChallengePolicy
begin

text \<open>
  Concrete actions and justifications at which the hypotheses of the theorems on fingerprints,
  relationships and justifications hold.
\<close>

definition rev_std :: gostd where
  "rev_std = \<lparr>sha256_hex = rev, json_decode = (\<lambda>_. None), json_encode = (\<lambda>_. [])\<rparr>"

definition shell_action :: "string \<Rightarrow> string \<Rightarrow> proposed_action" where
  "shell_action tool cmd = empty_action\<lparr>pa_SchemaVersion := ProposedActionSchemaVersion, pa_SessionID := ''s'',
     pa_ActionID := ''a1'', pa_ToolName := tool, pa_ToolClass := ToolClassShell, pa_Command := cmd,
     pa_ParseStatus := ''ok''\<rparr>"

definition shell_input :: "string \<Rightarrow> string \<Rightarrow> string \<Rightarrow> fingerprint_input" where
  "shell_input tool sid cmd =
     \<lparr>fi_Proposed = shell_action tool cmd, fi_SessionID = sid, fi_Branch = [], fi_WorkspaceRevision = [],
      fi_ContractRevision = 0\<rparr>"

definition rm_result :: "string \<Rightarrow> string \<Rightarrow> string \<Rightarrow> fingerprint_result" where
  "rm_result tool fp canon_tail =
     \<lparr>fr_Fingerprint = fp, fr_SideEffectClass = SideEffectDeleteFile, fr_TargetResources = [''a''],
      fr_OperationDigest = ''0:1=v;sgalf_epocs:11=k;eteled:6='', fr_ToolClass = ToolClassShell, fr_ToolName = tool,
      fr_CanonicalForm = ''n=9;k=6:branch;v=0:;k=8:contract;v=1:0;k=2:op;v=32:0:1=v;sgalf_epocs:11=k;eteled:6=;k=7:session;v=1:s;k=4:side;v=11:delete_file;k=7:targets;v=5:1;1:a;k=10:tool_class;v=5:shell;k=9:tool_name;v='' @ canon_tail @ '';k=2:ws;v=0:''\<rparr>"

abbreviation bash_result :: fingerprint_result where
  "bash_result \<equiv> rm_result ''Bash'' ''af-:0=v;sw:2=k;hsaB:4=v;eman_loot:9'' ''4:Bash''"

abbreviation shell_result :: fingerprint_result where
  "shell_result \<equiv> rm_result ''Shell'' ''af-:0=v;sw:2=k;llehS:5=v;eman_loot:'' ''5:Shell''"

lemma rm_classified: "classifySideEffect (shell_action ''Bash'' ''rm a'') = Inr (SideEffectDeleteFile, [''a''])"
  by code_simp

lemma bash_fingerprint: "ComputeFingerprint rev_std (shell_input ''Bash'' ''s'' ''rm a'') = Inr bash_result"
  by code_simp

lemma shell_fingerprint: "ComputeFingerprint rev_std (shell_input ''Shell'' ''s'' ''rm a'') = Inr shell_result"
  by code_simp

lemma rm_bypass: "ClassifyRelationship bash_result shell_result = RelBypass"
  by code_simp

definition read_input :: "string \<Rightarrow> fingerprint_input" where
  "read_input sid =
     \<lparr>fi_Proposed = empty_action\<lparr>pa_SessionID := ''s'', pa_ToolName := ''Read'', pa_ToolClass := ToolClassRead, pa_FilePath := ''f''\<rparr>,
      fi_SessionID = sid, fi_Branch = [], fi_WorkspaceRevision = [], fi_ContractRevision = 0\<rparr>"

lemma same_owner:
  "(case (ComputeFingerprint rev_std (read_input ''''), ComputeFingerprint rev_std (read_input ''s''))
    of (Inr a, Inr b) \<Rightarrow> a = b | _ \<Rightarrow> False)"
  by code_simp

theorem fingerprint_binds_action_and_owner_witness:
  "\<exists>r. ComputeFingerprint rev_std (read_input '''') = Inr r \<and> ComputeFingerprint rev_std (read_input ''s'') = Inr r
     \<and> owner_session (read_input '''') = owner_session (read_input ''s'')"
proof -
  obtain r where r: "ComputeFingerprint rev_std (read_input '''') = Inr r" "ComputeFingerprint rev_std (read_input ''s'') = Inr r"
    using same_owner by (auto split: sum.splits)
  from fingerprint_binds_action_and_owner [OF r refl refl] r show ?thesis by blast
qed

theorem delete_identity_requires_plain_shell_witness:
  "shellArgv0 (trimShellASCIIWhitespace ''rm a'') \<in> {''rm'', ''find''}
   \<and> \<not> shellHasCompoundOrQuoting (trimShellASCIIWhitespace ''rm a'')"
proof -
  have "pa_Command (shell_action ''Bash'' ''rm a'') = ''rm a''" by (simp add: shell_action_def)
  with delete_identity_requires_plain_shell [OF rm_classified] show ?thesis by (simp add: rewriteEligible_def)
qed

theorem bypass_is_same_deletion_witness:
  "plain_deletion (fi_Proposed (shell_input ''Bash'' ''s'' ''rm a''))
   \<and> fr_TargetResources bash_result = fr_TargetResources shell_result"
proof -
  have "delete_canon (pa_Command (fi_Proposed (shell_input ''Bash'' ''s'' ''rm a'')))
      = delete_canon (pa_Command (fi_Proposed (shell_input ''Shell'' ''s'' ''rm a'')))"
    by (simp add: shell_input_def shell_action_def)
  from bypass_is_same_deletion [OF bash_fingerprint shell_fingerprint rm_bypass this] show ?thesis by blast
qed

definition good_justification :: justification where
  "good_justification =
     \<lparr>ju_SchemaVersion = [], ju_ChallengeID = ''ch-1'', ju_ConcreteValue = [], ju_PreventedFailureOrThreat = [],
      ju_EstimatedCost = [], ju_AlternativesConsidered = [], ju_ScopeLimit = '' one file '', ju_VerificationPlan = [],
      ju_RollbackPlan = [], ju_SupportingEvidenceEventIDs = [''e1 '']\<rparr>"

theorem accepted_justification_is_bounded_and_clean_witness:
  "\<exists>c. ValidateJustification good_justification [''e1''] [''scope_limit''] = Inr c
     \<and> (\<forall>i \<in> set (ju_SupportingEvidenceEventIDs c). evidence_ok [''e1''] i)"
proof -
  have "(case ValidateJustification good_justification [''e1''] [''scope_limit''] of Inl _ \<Rightarrow> False | Inr _ \<Rightarrow> True)"
    by code_simp
  then obtain c where c: "ValidateJustification good_justification [''e1''] [''scope_limit''] = Inr c"
    by (auto split: sum.splits)
  from accepted_justification_is_bounded_and_clean [OF c] c show ?thesis by blast
qed

end
