(* ===== verification/Capability.thy ===== *)
theory Capability
  imports GoStrings "HOL-Library.Word"
begin

unbundle bit_operations_syntax

text \<open>
  Capability negotiation (\<open>pkg/protocol/capability.go\<close>, the manifest type of \<open>schema.go\<close>). Flags and
  masks are 64-bit words, as in the source; a flag is \<open>1 << iota\<close>. The theory shows that the
  boolean manifest and its bitmask carry the same information and that a handshake grants exactly
  the highest level the manifest supports.
\<close>

section \<open>Flags and manifests\<close>

definition cap_flag :: "nat \<Rightarrow> 64 word" where
  "cap_flag i = push_bit i 1"

abbreviation CapEventStream :: "64 word" where "CapEventStream \<equiv> cap_flag 0"
abbreviation CapToolInspection :: "64 word" where "CapToolInspection \<equiv> cap_flag 1"
abbreviation CapDiffInspection :: "64 word" where "CapDiffInspection \<equiv> cap_flag 2"
abbreviation CapCostTracking :: "64 word" where "CapCostTracking \<equiv> cap_flag 3"
abbreviation CapHooks :: "64 word" where "CapHooks \<equiv> cap_flag 4"
abbreviation CapHeadless :: "64 word" where "CapHeadless \<equiv> cap_flag 5"
abbreviation CapCLIControl :: "64 word" where "CapCLIControl \<equiv> cap_flag 6"
abbreviation CapPause :: "64 word" where "CapPause \<equiv> cap_flag 7"
abbreviation CapCancel :: "64 word" where "CapCancel \<equiv> cap_flag 8"
abbreviation CapResume :: "64 word" where "CapResume \<equiv> cap_flag 9"
abbreviation CapCheckpoint :: "64 word" where "CapCheckpoint \<equiv> cap_flag 10"
abbreviation CapRollback :: "64 word" where "CapRollback \<equiv> cap_flag 11"
abbreviation CapMCP :: "64 word" where "CapMCP \<equiv> cap_flag 12"
abbreviation CapSubagents :: "64 word" where "CapSubagents \<equiv> cap_flag 13"
abbreviation CapExtensions :: "64 word" where "CapExtensions \<equiv> cap_flag 14"
abbreviation CapSwitchModel :: "64 word" where "CapSwitchModel \<equiv> cap_flag 15"
abbreviation CapCustomProvider :: "64 word" where "CapCustomProvider \<equiv> cap_flag 16"
abbreviation CapOpenAICompat :: "64 word" where "CapOpenAICompat \<equiv> cap_flag 17"
abbreviation CapLocalModels :: "64 word" where "CapLocalModels \<equiv> cap_flag 18"
abbreviation CapSDK :: "64 word" where "CapSDK \<equiv> cap_flag 19"
abbreviation CapAdviceDelivery :: "64 word" where "CapAdviceDelivery \<equiv> cap_flag 20"
abbreviation CapContextInjection :: "64 word" where "CapContextInjection \<equiv> cap_flag 21"
abbreviation CapToolGate :: "64 word" where "CapToolGate \<equiv> cap_flag 22"
abbreviation CapTurnBoundary :: "64 word" where "CapTurnBoundary \<equiv> cap_flag 23"
abbreviation CapInterventionAck :: "64 word" where "CapInterventionAck \<equiv> cap_flag 24"

definition CapabilityFlagCount :: nat where
  "CapabilityFlagCount = 25"

definition CapabilityKnownMask :: "64 word" where
  "CapabilityKnownMask = push_bit CapabilityFlagCount 1 - 1"

definition Level0RequiredMask :: "64 word" where
  "Level0RequiredMask = CapEventStream"

definition Level1RequiredMask :: "64 word" where
  "Level1RequiredMask = Level0RequiredMask OR CapToolInspection OR CapAdviceDelivery"

definition Level2RequiredMask :: "64 word" where
  "Level2RequiredMask = Level1RequiredMask OR CapDiffInspection OR CapPause OR CapCancel OR CapResume"

definition Level3RequiredMask :: "64 word" where
  "Level3RequiredMask = Level2RequiredMask OR CapCheckpoint OR CapRollback OR CapHeadless OR CapCLIControl
     OR CapMCP OR CapSubagents OR CapSwitchModel"

text \<open>\<open>flagToStringMap\<close>, in bit order.\<close>

definition flag_names :: "string list" where
  "flag_names =
    [''CapEventStream'', ''CapToolInspection'', ''CapDiffInspection'', ''CapCostTracking'', ''CapHooks'',
     ''CapHeadless'', ''CapCLIControl'', ''CapPause'', ''CapCancel'', ''CapResume'',
     ''CapCheckpoint'', ''CapRollback'', ''CapMCP'', ''CapSubagents'', ''CapExtensions'',
     ''CapSwitchModel'', ''CapCustomProvider'', ''CapOpenAICompat'', ''CapLocalModels'', ''CapSDK'',
     ''CapAdviceDelivery'', ''CapContextInjection'', ''CapToolGate'', ''CapTurnBoundary'', ''CapInterventionAck'']"

record capability_manifest =
  cm_AgentID :: string
  cm_Version :: string
  cm_IntegrationLevel :: int
  cm_SupportsEventStream :: bool
  cm_SupportsToolInspection :: bool
  cm_SupportsDiffInspection :: bool
  cm_SupportsCostTracking :: bool
  cm_SupportsHooks :: bool
  cm_SupportsHeadless :: bool
  cm_SupportsCLIControl :: bool
  cm_SupportsPause :: bool
  cm_SupportsCancel :: bool
  cm_SupportsResume :: bool
  cm_SupportsCheckpoint :: bool
  cm_SupportsRollback :: bool
  cm_SupportsMCP :: bool
  cm_SupportsSubagents :: bool
  cm_SupportsExtensions :: bool
  cm_SupportsSwitchModel :: bool
  cm_SupportsCustomProvider :: bool
  cm_SupportsOpenAICompat :: bool
  cm_SupportsLocalModels :: bool
  cm_SupportsSDK :: bool
  cm_SupportsAdviceDelivery :: bool
  cm_SupportsContextInjection :: bool
  cm_SupportsToolGate :: bool
  cm_SupportsTurnBoundary :: bool
  cm_SupportsInterventionAck :: bool

record handshake_request =
  hr_SessionID :: string
  hr_RequestedLevel :: int
  hr_Manifest :: capability_manifest

record handshake_response =
  hs_SessionID :: string
  hs_NegotiatedLevel :: int
  hs_IsDegraded :: bool
  hs_DegradedFrom :: int
  hs_MissingFlags :: "string list"

section \<open>Operations\<close>

definition manifest_flags :: "capability_manifest \<Rightarrow> (bool \<times> 64 word) list" where
  "manifest_flags m =
    [(cm_SupportsEventStream m, CapEventStream),
     (cm_SupportsToolInspection m, CapToolInspection),
     (cm_SupportsDiffInspection m, CapDiffInspection),
     (cm_SupportsCostTracking m, CapCostTracking),
     (cm_SupportsHooks m, CapHooks),
     (cm_SupportsHeadless m, CapHeadless),
     (cm_SupportsCLIControl m, CapCLIControl),
     (cm_SupportsPause m, CapPause),
     (cm_SupportsCancel m, CapCancel),
     (cm_SupportsResume m, CapResume),
     (cm_SupportsCheckpoint m, CapCheckpoint),
     (cm_SupportsRollback m, CapRollback),
     (cm_SupportsMCP m, CapMCP),
     (cm_SupportsSubagents m, CapSubagents),
     (cm_SupportsExtensions m, CapExtensions),
     (cm_SupportsSwitchModel m, CapSwitchModel),
     (cm_SupportsCustomProvider m, CapCustomProvider),
     (cm_SupportsOpenAICompat m, CapOpenAICompat),
     (cm_SupportsLocalModels m, CapLocalModels),
     (cm_SupportsSDK m, CapSDK),
     (cm_SupportsAdviceDelivery m, CapAdviceDelivery),
     (cm_SupportsContextInjection m, CapContextInjection),
     (cm_SupportsToolGate m, CapToolGate),
     (cm_SupportsTurnBoundary m, CapTurnBoundary),
     (cm_SupportsInterventionAck m, CapInterventionAck)]"

definition ToBitmask :: "capability_manifest \<Rightarrow> 64 word" where
  "ToBitmask m = fold (\<lambda>(b, f) msk. if b then msk OR f else msk) (manifest_flags m) 0"

definition EvaluateAchievableLevelFromMask :: "64 word \<Rightarrow> int" where
  "EvaluateAchievableLevelFromMask msk =
     (if msk AND Level3RequiredMask = Level3RequiredMask then 3
      else if msk AND Level2RequiredMask = Level2RequiredMask then 2
      else if msk AND Level1RequiredMask = Level1RequiredMask then 1
      else if msk AND Level0RequiredMask = Level0RequiredMask then 0
      else -1)"

definition FromBitmask :: "64 word \<Rightarrow> capability_manifest" where
  "FromBitmask msk =
    \<lparr>cm_AgentID = [], cm_Version = [], cm_IntegrationLevel = EvaluateAchievableLevelFromMask msk,
     cm_SupportsEventStream = (msk AND CapEventStream \<noteq> 0),
     cm_SupportsToolInspection = (msk AND CapToolInspection \<noteq> 0),
     cm_SupportsDiffInspection = (msk AND CapDiffInspection \<noteq> 0),
     cm_SupportsCostTracking = (msk AND CapCostTracking \<noteq> 0),
     cm_SupportsHooks = (msk AND CapHooks \<noteq> 0),
     cm_SupportsHeadless = (msk AND CapHeadless \<noteq> 0),
     cm_SupportsCLIControl = (msk AND CapCLIControl \<noteq> 0),
     cm_SupportsPause = (msk AND CapPause \<noteq> 0),
     cm_SupportsCancel = (msk AND CapCancel \<noteq> 0),
     cm_SupportsResume = (msk AND CapResume \<noteq> 0),
     cm_SupportsCheckpoint = (msk AND CapCheckpoint \<noteq> 0),
     cm_SupportsRollback = (msk AND CapRollback \<noteq> 0),
     cm_SupportsMCP = (msk AND CapMCP \<noteq> 0),
     cm_SupportsSubagents = (msk AND CapSubagents \<noteq> 0),
     cm_SupportsExtensions = (msk AND CapExtensions \<noteq> 0),
     cm_SupportsSwitchModel = (msk AND CapSwitchModel \<noteq> 0),
     cm_SupportsCustomProvider = (msk AND CapCustomProvider \<noteq> 0),
     cm_SupportsOpenAICompat = (msk AND CapOpenAICompat \<noteq> 0),
     cm_SupportsLocalModels = (msk AND CapLocalModels \<noteq> 0),
     cm_SupportsSDK = (msk AND CapSDK \<noteq> 0),
     cm_SupportsAdviceDelivery = (msk AND CapAdviceDelivery \<noteq> 0),
     cm_SupportsContextInjection = (msk AND CapContextInjection \<noteq> 0),
     cm_SupportsToolGate = (msk AND CapToolGate \<noteq> 0),
     cm_SupportsTurnBoundary = (msk AND CapTurnBoundary \<noteq> 0),
     cm_SupportsInterventionAck = (msk AND CapInterventionAck \<noteq> 0)\<rparr>"

definition HasCapability :: "capability_manifest \<Rightarrow> 64 word \<Rightarrow> bool" where
  "HasCapability m flag \<longleftrightarrow> ToBitmask m AND flag = flag"

definition EvaluateAchievableLevel :: "capability_manifest option \<Rightarrow> int" where
  "EvaluateAchievableLevel m =
     (case m of None \<Rightarrow> -1 | Some c \<Rightarrow> EvaluateAchievableLevelFromMask (ToBitmask c))"

definition required_mask :: "int \<Rightarrow> 64 word option" where
  "required_mask level =
     (if level = 0 then Some Level0RequiredMask
      else if level = 1 then Some Level1RequiredMask
      else if level = 2 then Some Level2RequiredMask
      else if level = 3 then Some Level3RequiredMask
      else None)"

definition isRequiredForLevel :: "64 word \<Rightarrow> int \<Rightarrow> bool" where
  "isRequiredForLevel flag level =
     (case required_mask level of None \<Rightarrow> False | Some req \<Rightarrow> req AND flag \<noteq> 0)"

definition missing_flags :: "capability_manifest \<Rightarrow> int \<Rightarrow> string list" where
  "missing_flags m level =
     map (\<lambda>i. flag_names ! i)
       (filter (\<lambda>i. isRequiredForLevel (cap_flag i) level \<and> ToBitmask m AND cap_flag i = 0)
         [0..<CapabilityFlagCount])"

definition NegotiateLevel :: "handshake_request option \<Rightarrow> handshake_response go_result" where
  "NegotiateLevel req0 =
     (case req0 of
        None \<Rightarrow> Inl ''handshake request cannot be nil''
      | Some req \<Rightarrow>
          if hr_SessionID req = [] then Inl ''session_id cannot be empty''
          else if hr_RequestedLevel req < 0 \<or> hr_RequestedLevel req > 3 then Inl ''invalid requested level''
          else
            let achievable = EvaluateAchievableLevel (Some (hr_Manifest req)) in
            if achievable < 0 then Inl ''unsupported agent capability manifest''
            else if hr_RequestedLevel req \<le> achievable then
              Inr \<lparr>hs_SessionID = hr_SessionID req, hs_NegotiatedLevel = hr_RequestedLevel req,
                   hs_IsDegraded = False, hs_DegradedFrom = 0, hs_MissingFlags = []\<rparr>
            else
              Inr \<lparr>hs_SessionID = hr_SessionID req, hs_NegotiatedLevel = achievable,
                   hs_IsDegraded = True, hs_DegradedFrom = hr_RequestedLevel req,
                   hs_MissingFlags = missing_flags (hr_Manifest req) (hr_RequestedLevel req)\<rparr>)"

section \<open>Bits of flags, masks and manifests\<close>

lemma bit_cap_flag: "i < 64 \<Longrightarrow> bit (cap_flag i) n \<longleftrightarrow> n = i"
  by (auto simp: cap_flag_def bit_exp_iff)

lemma and_cap_flag: "i < 64 \<Longrightarrow> msk AND cap_flag i \<noteq> 0 \<longleftrightarrow> bit msk i"
proof -
  assume "i < 64"
  then have "\<And>n. bit (msk AND cap_flag i) n \<longleftrightarrow> n = i \<and> bit msk i"
    by (auto simp: bit_and_iff bit_cap_flag)
  then show ?thesis by (metis bit_0_eq bit_eq_iff bot_apply bot_bool_def)
qed

lemma bit_fold_or:
  "list_all (\<lambda>(b, i). i < 64) bs \<Longrightarrow>
   bit (fold (\<lambda>(b, f) msk. if b then msk OR f else msk) (map (\<lambda>(b, i). (b, cap_flag i)) bs) w) n
     \<longleftrightarrow> bit w n \<or> (True, n) \<in> set bs"
proof (induction bs arbitrary: w)
  case (Cons p bs)
  obtain b i where p: "p = (b, i)" by (cases p)
  have i: "i < 64" and bs: "list_all (\<lambda>(b, i). i < 64) bs" using Cons.prems by (simp_all add: p)
  show ?case unfolding p by (simp add: Cons.IH [OF bs] bit_or_iff bit_cap_flag [OF i])
qed simp

definition manifest_bits :: "capability_manifest \<Rightarrow> bool list" where
  "manifest_bits m = map fst (manifest_flags m)"

lemma manifest_bits_length [simp]: "length (manifest_bits m) = CapabilityFlagCount"
  by (simp add: manifest_bits_def manifest_flags_def CapabilityFlagCount_def)

lemma cap_indices:
  "[0..<CapabilityFlagCount] = [0, 1, 2, 3, 4, 5, 6, 7, 8, 9, 10, 11, 12, 13, 14, 15, 16, 17, 18, 19, 20, 21, 22, 23, 24]"
  unfolding CapabilityFlagCount_def by code_simp

lemma manifest_flags_indexed:
  "manifest_flags m = map (\<lambda>(b, i). (b, cap_flag i)) (zip (manifest_bits m) [0..<CapabilityFlagCount])"
  by (simp add: manifest_bits_def manifest_flags_def cap_indices)

lemma bit_ToBitmask:
  "bit (ToBitmask m) n \<longleftrightarrow> n < CapabilityFlagCount \<and> manifest_bits m ! n"
proof -
  let ?z = "zip (manifest_bits m) [0..<CapabilityFlagCount]"
  have "list_all (\<lambda>(b, i). i < 64) ?z"
    by (auto simp: list_all_iff CapabilityFlagCount_def dest!: set_zip_rightD)
  then have "bit (ToBitmask m) n \<longleftrightarrow> (True, n) \<in> set ?z"
    by (simp add: ToBitmask_def manifest_flags_indexed bit_fold_or)
  also have "\<dots> \<longleftrightarrow> n < CapabilityFlagCount \<and> manifest_bits m ! n"
    by (auto simp: set_zip)
  finally show ?thesis .
qed

lemma bit_known_mask: "bit CapabilityKnownMask n \<longleftrightarrow> n < CapabilityFlagCount"
proof -
  have "CapabilityKnownMask = Bit_Operations.mask CapabilityFlagCount"
    by (simp add: CapabilityKnownMask_def mask_eq_exp_minus_1)
  show ?thesis unfolding \<open>CapabilityKnownMask = _\<close> by (auto simp: bit_mask_iff CapabilityFlagCount_def)
qed

lemma manifest_bits_From: "manifest_bits (FromBitmask w) = map (bit w) [0..<CapabilityFlagCount]"
  by (simp add: manifest_bits_def manifest_flags_def FromBitmask_def cap_indices and_cap_flag)

lemma manifest_eqI:
  assumes "manifest_bits m = manifest_bits m'" and "cm_AgentID m = cm_AgentID m'"
    and "cm_Version m = cm_Version m'" and "cm_IntegrationLevel m = cm_IntegrationLevel m'"
  shows "m = (m' :: capability_manifest)"
  using assms by (cases m, cases m') (simp add: manifest_bits_def manifest_flags_def)

lemma and_eq_req: "w AND req = req \<longleftrightarrow> (\<forall>n. bit req n \<longrightarrow> bit w n)" for w req :: "64 word"
proof
  assume "w AND req = req"
  then show "\<forall>n. bit req n \<longrightarrow> bit w n" using bit_and_iff [of w req] by auto
qed (rule bit_eqI, auto simp: bit_and_iff)

lemma level_masks_bits:
  "bit Level0RequiredMask n \<longleftrightarrow> n = 0"
  "bit Level1RequiredMask n \<longleftrightarrow> n \<in> {0, 1, 20}"
  "bit Level2RequiredMask n \<longleftrightarrow> n \<in> {0, 1, 20, 2, 7, 8, 9}"
  "bit Level3RequiredMask n \<longleftrightarrow> n \<in> {0, 1, 20, 2, 7, 8, 9, 10, 11, 5, 6, 12, 13, 15}"
  by (simp_all add: Level0RequiredMask_def Level1RequiredMask_def Level2RequiredMask_def Level3RequiredMask_def
      bit_or_iff bit_cap_flag)

section \<open>Levels\<close>

lemma int_le_cases4: "0 \<le> (k :: int) \<Longrightarrow> k \<le> 3 \<Longrightarrow> k = 0 \<or> k = 1 \<or> k = 2 \<or> k = 3"
  by arith

definition level_met :: "64 word \<Rightarrow> int \<Rightarrow> bool" where
  "level_met w l \<longleftrightarrow> (\<exists>req. required_mask l = Some req \<and> w AND req = req)"

lemma level_met_range: "level_met w l \<Longrightarrow> 0 \<le> l \<and> l \<le> 3"
  by (auto simp: level_met_def required_mask_def split: if_splits)

lemma level_met_down: "level_met w l \<Longrightarrow> 0 \<le> k \<Longrightarrow> k \<le> l \<Longrightarrow> level_met w k"
  by (auto simp: level_met_def required_mask_def and_eq_req level_masks_bits split: if_splits)

lemma achievable_cases:
  "EvaluateAchievableLevelFromMask w =
     (if level_met w 3 then 3 else if level_met w 2 then 2 else if level_met w 1 then 1
      else if level_met w 0 then 0 else -1)"
  by (simp add: EvaluateAchievableLevelFromMask_def level_met_def required_mask_def)

lemma achievable_level:
  assumes "0 \<le> k"
  shows "level_met w k \<longleftrightarrow> k \<le> EvaluateAchievableLevelFromMask w"
proof (cases "k \<le> 3")
  case True
  have "level_met w 3 \<Longrightarrow> level_met w 2" "level_met w 2 \<Longrightarrow> level_met w 1" "level_met w 1 \<Longrightarrow> level_met w 0"
    using level_met_down [of w 3 2] level_met_down [of w 2 1] level_met_down [of w 1 0] by simp_all
  then show ?thesis using int_le_cases4 [OF assms True] unfolding achievable_cases by auto
next
  case False
  then show ?thesis using level_met_range [of w k] by (auto simp: achievable_cases)
qed

lemma missing_none:
  assumes "required_mask l = Some req"
  shows "missing_flags m l = [] \<longleftrightarrow> level_met (ToBitmask m) l"
proof -
  have known: "bit req n \<Longrightarrow> n < CapabilityFlagCount" for n
    using assms by (auto simp: required_mask_def level_masks_bits CapabilityFlagCount_def split: if_splits)
  have "missing_flags m l = [] \<longleftrightarrow>
      (\<forall>i < CapabilityFlagCount. req AND cap_flag i \<noteq> 0 \<longrightarrow> ToBitmask m AND cap_flag i \<noteq> 0)"
    by (auto simp: missing_flags_def isRequiredForLevel_def assms filter_empty_conv)
  also have "\<dots> \<longleftrightarrow> (\<forall>i < CapabilityFlagCount. bit req i \<longrightarrow> bit (ToBitmask m) i)"
    by (simp add: and_cap_flag CapabilityFlagCount_def)
  also have "\<dots> \<longleftrightarrow> level_met (ToBitmask m) l"
    using known by (auto simp: level_met_def assms and_eq_req)
  finally show ?thesis .
qed

section \<open>Properties\<close>

text \<open>
  C20. The boolean manifest and its bitmask carry the same information: decoding the mask of a
  manifest restores every capability (with the identity fields cleared and the level recomputed),
  and encoding a decoded mask restores the mask up to the 25 defined bits.
\<close>

theorem bitmask_roundtrip:
  "FromBitmask (ToBitmask m) =
     m\<lparr>cm_AgentID := [], cm_Version := [], cm_IntegrationLevel := EvaluateAchievableLevel (Some m)\<rparr>
   \<and> ToBitmask (FromBitmask w) = w AND CapabilityKnownMask"
proof
  have "manifest_bits (FromBitmask (ToBitmask m)) = manifest_bits m"
    by (rule nth_equalityI) (simp_all add: manifest_bits_From bit_ToBitmask)
  then show "FromBitmask (ToBitmask m) =
      m\<lparr>cm_AgentID := [], cm_Version := [], cm_IntegrationLevel := EvaluateAchievableLevel (Some m)\<rparr>"
    by (intro manifest_eqI)
      (simp_all add: FromBitmask_def EvaluateAchievableLevel_def, simp add: manifest_bits_def manifest_flags_def)
  show "ToBitmask (FromBitmask w) = w AND CapabilityKnownMask"
    by (rule bit_eqI) (auto simp: bit_ToBitmask manifest_bits_From bit_and_iff bit_known_mask)
qed

text \<open>
  C21. A handshake is exact. A well-formed request is refused exactly when the manifest does not
  even stream events; otherwise the granted level is the highest level not above the requested one
  whose required flags are all present, and the response is marked as degraded exactly when it
  names a missing flag, which are exactly the flags of the requested level the manifest lacks.
\<close>

theorem negotiation_is_exact:
  assumes "hr_SessionID req \<noteq> []" and "0 \<le> hr_RequestedLevel req" and "hr_RequestedLevel req \<le> 3"
  shows "case NegotiateLevel (Some req) of
      Inl _ \<Rightarrow> \<not> level_met (ToBitmask (hr_Manifest req)) 0
    | Inr r \<Rightarrow> level_met (ToBitmask (hr_Manifest req)) (hs_NegotiatedLevel r)
        \<and> hs_NegotiatedLevel r \<le> hr_RequestedLevel req
        \<and> (\<forall>l \<le> hr_RequestedLevel req. level_met (ToBitmask (hr_Manifest req)) l \<longrightarrow> l \<le> hs_NegotiatedLevel r)
        \<and> hs_MissingFlags r = missing_flags (hr_Manifest req) (hr_RequestedLevel req)
        \<and> (hs_IsDegraded r \<longleftrightarrow> hs_MissingFlags r \<noteq> [])"
proof -
  let ?w = "ToBitmask (hr_Manifest req)" and ?k = "hr_RequestedLevel req"
  let ?a = "EvaluateAchievableLevelFromMask ?w"
  obtain rm where rm: "required_mask ?k = Some rm" using assms unfolding required_mask_def by (metis int_le_cases4)
  note met = achievable_level [of _ ?w]
  show ?thesis
  proof (cases "?a < 0")
    case True
    then show ?thesis using met [of 0] assms by (simp add: NegotiateLevel_def EvaluateAchievableLevel_def)
  next
    case False
    then have up: "level_met ?w l \<Longrightarrow> l \<le> ?a" for l using met level_met_range by blast
    show ?thesis
      using False assms up met [of ?k] met [of ?a] missing_none [OF rm, of "hr_Manifest req"]
      by (auto simp: NegotiateLevel_def EvaluateAchievableLevel_def Let_def)
  qed
qed

lemma and_cap_flag_zero: "i < 64 \<Longrightarrow> w AND cap_flag i = 0 \<longleftrightarrow> \<not> bit w i"
  using and_cap_flag by blast

definition tool_watcher :: capability_manifest where
  "tool_watcher = FromBitmask (CapEventStream OR CapToolInspection OR CapAdviceDelivery)"

theorem negotiation_is_exact_witness:
  "(case NegotiateLevel (Some \<lparr>hr_SessionID = ''s'', hr_RequestedLevel = 2, hr_Manifest = tool_watcher\<rparr>) of
      Inl _ \<Rightarrow> False
    | Inr r \<Rightarrow> hs_NegotiatedLevel r = 1
        \<and> hs_MissingFlags r = [''CapDiffInspection'', ''CapPause'', ''CapCancel'', ''CapResume''])"
proof -
  let ?req = "\<lparr>hr_SessionID = ''s'', hr_RequestedLevel = 2, hr_Manifest = tool_watcher\<rparr>"
  have bits: "bit (ToBitmask tool_watcher) n \<longleftrightarrow> n \<in> {0, 1, 20}" for n
    by (auto simp: tool_watcher_def bit_ToBitmask manifest_bits_From CapabilityFlagCount_def bit_or_iff bit_cap_flag)
  have "missing_flags tool_watcher 2 = [''CapDiffInspection'', ''CapPause'', ''CapCancel'', ''CapResume'']"
    by (simp add: missing_flags_def cap_indices isRequiredForLevel_def required_mask_def and_cap_flag
        and_cap_flag_zero level_masks_bits bits flag_names_def)
  moreover have "level_met (ToBitmask tool_watcher) 1" "level_met (ToBitmask tool_watcher) 0"
    "\<not> level_met (ToBitmask tool_watcher) 2"
    by (auto simp: level_met_def required_mask_def and_eq_req level_masks_bits bits)
  moreover from this have "l = 1" if "level_met (ToBitmask tool_watcher) l" "1 \<le> l" "l \<le> 2" for l
    using that int_le_cases4 [of l] by auto
  ultimately show ?thesis
    using negotiation_is_exact [of ?req] by (auto split: sum.splits)
qed

end
