(* ===== verification/RuntimeCatalog.thy ===== *)
theory RuntimeCatalog
  imports GoStrings "HOL-Library.Word" "HOL-Library.Multiset"
begin

unbundle bit_operations_syntax

text \<open>
  Runtime authentication snapshots (\<open>pkg/protocol/auth.go\<close>) and model catalog snapshots
  (\<open>pkg/protocol/model_catalog.go\<close>). The string enumerations of the source stay strings, because
  its validation distinguishes closed values from arbitrary ones. \<open>sort.Slice\<close> is modelled by the
  stable \<open>sort_key\<close>; on a validated catalog the keys are distinct, so the order is determined.
\<close>

section \<open>Authentication snapshots\<close>

abbreviation RuntimeAuthSnapshotSchemaVersion :: string where
  "RuntimeAuthSnapshotSchemaVersion \<equiv> ''reinframe.runtime_auth_snapshot.v1''"

abbreviation CredentialOwnerCodexProcess :: string where "CredentialOwnerCodexProcess \<equiv> ''codex_process''"
abbreviation CredentialOwnerReinframeEnv :: string where "CredentialOwnerReinframeEnv \<equiv> ''reinframe_env''"

abbreviation RuntimeAuthModeChatGPTSubscription :: string where
  "RuntimeAuthModeChatGPTSubscription \<equiv> ''chatgpt_subscription''"
abbreviation RuntimeAuthModeAPIKey :: string where "RuntimeAuthModeAPIKey \<equiv> ''api_key''"
abbreviation RuntimeAuthModeUnknown :: string where "RuntimeAuthModeUnknown \<equiv> ''unknown''"

abbreviation RuntimeAuthStateAuthenticated :: string where "RuntimeAuthStateAuthenticated \<equiv> ''authenticated''"
abbreviation RuntimeAuthStateUnauthenticated :: string where "RuntimeAuthStateUnauthenticated \<equiv> ''unauthenticated''"
abbreviation RuntimeAuthStateExpired :: string where "RuntimeAuthStateExpired \<equiv> ''expired''"
abbreviation RuntimeAuthStateUnavailable :: string where "RuntimeAuthStateUnavailable \<equiv> ''unavailable''"
abbreviation RuntimeAuthStateUnknown :: string where "RuntimeAuthStateUnknown \<equiv> ''unknown''"

definition owner_valid :: "string \<Rightarrow> bool" where
  "owner_valid co \<longleftrightarrow> co \<in> {CredentialOwnerCodexProcess, CredentialOwnerReinframeEnv}"

definition mode_valid :: "string \<Rightarrow> bool" where
  "mode_valid m \<longleftrightarrow>
     m \<in> {RuntimeAuthModeChatGPTSubscription, RuntimeAuthModeAPIKey, RuntimeAuthModeUnknown}"

definition state_valid :: "string \<Rightarrow> bool" where
  "state_valid s \<longleftrightarrow>
     s \<in> {RuntimeAuthStateAuthenticated, RuntimeAuthStateUnauthenticated, RuntimeAuthStateExpired,
          RuntimeAuthStateUnavailable, RuntimeAuthStateUnknown}"

record runtime_auth_snapshot =
  as_SchemaVersion :: string
  as_CredentialOwner :: string
  as_Mode :: string
  as_State :: string
  as_RuntimeProfile :: string
  as_CodexVersion :: string
  as_ScopeHash :: string
  as_AuthGenerationHash :: string
  as_ObservedAt :: time
  as_Metadata :: "string gomap"

definition isProhibitedSecretValue :: "string \<Rightarrow> bool" where
  "isProhibitedSecretValue s =
     (let lower = ToLower s in
      HasPrefix lower ''sk-'' \<or> HasPrefix lower ''bearer '' \<or> Contains lower ''refresh_token''
      \<or> Contains lower ''oauth_token'' \<or> Contains lower ''session_token'' \<or> Contains lower ''auth.json''
      \<or> Contains lower ''api_key'' \<or> Contains lower ''password'' \<or> Contains lower ''client_secret''
      \<or> (HasPrefix s ''eyJ'' \<and> length s > 30))"

definition auth_Validate :: "runtime_auth_snapshot \<Rightarrow> go_error option" where
  "auth_Validate s =
     (if as_SchemaVersion s \<noteq> RuntimeAuthSnapshotSchemaVersion then Some ''auth: invalid schema version''
      else if \<not> owner_valid (as_CredentialOwner s) then Some ''auth: invalid credential owner''
      else if \<not> mode_valid (as_Mode s) then Some ''auth: invalid auth mode''
      else if \<not> state_valid (as_State s) then Some ''auth: invalid auth state''
      else if TrimSpace (as_RuntimeProfile s) = [] then Some ''auth: runtime profile is required''
      else if TrimSpace (as_ScopeHash s) = [] then Some ''auth: scope hash is required''
      else if TrimSpace (as_AuthGenerationHash s) = [] then Some ''auth: auth generation hash is required''
      else if as_ObservedAt s = 0 then Some ''auth: observed_at timestamp is zero''
      else if list_ex (\<lambda>(k, v). isProhibitedSecretValue k \<or> isProhibitedSecretValue v) (as_Metadata s)
        then Some ''auth: prohibited raw secret token detected in metadata''
      else None)"

definition IsAuthenticated :: "runtime_auth_snapshot \<Rightarrow> bool" where
  "IsAuthenticated s \<longleftrightarrow> as_State s = RuntimeAuthStateAuthenticated"

definition RequiresOperatorAction :: "runtime_auth_snapshot \<Rightarrow> bool" where
  "RequiresOperatorAction s \<longleftrightarrow>
     as_State s \<in> {RuntimeAuthStateUnauthenticated, RuntimeAuthStateExpired, RuntimeAuthStateUnavailable}"

definition CacheKeyPartition :: "runtime_auth_snapshot \<Rightarrow> string" where
  "CacheKeyPartition s =
     ''prof='' @ as_RuntimeProfile s @ ''|owner='' @ as_CredentialOwner s @ ''|mode='' @ as_Mode s
     @ ''|scope='' @ as_ScopeHash s @ ''|authgen='' @ as_AuthGenerationHash s"

definition MatchesRequirement :: "runtime_auth_snapshot \<Rightarrow> string \<Rightarrow> go_error option" where
  "MatchesRequirement s requiredAuth =
     (let r = TrimSpace (ToLower requiredAuth);
          req = (if r = [] then RuntimeAuthModeChatGPTSubscription else r)
      in if as_Mode s \<noteq> req then Some ''auth: runtime auth mode mismatch''
         else if as_State s \<noteq> RuntimeAuthStateAuthenticated then Some ''auth: runtime auth is not authenticated''
         else None)"

definition redactedMetadata :: "runtime_auth_snapshot \<Rightarrow> string gomap" where
  "redactedMetadata s =
     map (\<lambda>(k, v). (k, if isProhibitedSecretValue k \<or> isProhibitedSecretValue v then ''[REDACTED]'' else v))
       (as_Metadata s)"

definition ComputeScopeHash :: "gostd \<Rightarrow> string list \<Rightarrow> string" where
  "ComputeScopeHash std scopes =
     (if scopes = [] then sha256_hex std ''<global_unscoped>''
      else sha256_hex std (concat (map (\<lambda>sc. TrimSpace sc @ [CHR 0x0A]) (sort scopes))))"

definition ComputeAuthGenerationHash :: "gostd \<Rightarrow> string \<Rightarrow> string \<Rightarrow> string" where
  "ComputeAuthGenerationHash std profile gen =
     sha256_hex std (''reinframe_auth_gen_v1:'' @ TrimSpace profile @ '':'' @ TrimSpace gen)"

definition NewRuntimeAuthSnapshot ::
  "time \<Rightarrow> string \<Rightarrow> string \<Rightarrow> string \<Rightarrow> string \<Rightarrow> string \<Rightarrow> string \<Rightarrow> string \<Rightarrow> time \<Rightarrow> string gomap
   \<Rightarrow> runtime_auth_snapshot go_result" where
  "NewRuntimeAuthSnapshot now owner mode state profile codexVersion scopeHash authGenHash observedAt metadata =
     (let snap = \<lparr>as_SchemaVersion = RuntimeAuthSnapshotSchemaVersion, as_CredentialOwner = owner,
                  as_Mode = mode, as_State = state, as_RuntimeProfile = profile,
                  as_CodexVersion = codexVersion, as_ScopeHash = scopeHash,
                  as_AuthGenerationHash = authGenHash,
                  as_ObservedAt = (if observedAt = 0 then now else observedAt), as_Metadata = metadata\<rparr>
      in case auth_Validate snap of Some e \<Rightarrow> Inl e | None \<Rightarrow> Inr snap)"

definition truncateHash :: "string \<Rightarrow> nat \<Rightarrow> string" where
  "truncateHash h maxLen = (if length h \<le> maxLen then h else take maxLen h)"

section \<open>Model catalogs\<close>

abbreviation ModelCatalogSnapshotSchemaVersion :: string where
  "ModelCatalogSnapshotSchemaVersion \<equiv> ''reinframe.model_catalog_snapshot.v1''"

abbreviation ModelSupportStateDiscovered :: string where "ModelSupportStateDiscovered \<equiv> ''discovered''"
abbreviation ModelSupportStateSelectable :: string where "ModelSupportStateSelectable \<equiv> ''selectable''"
abbreviation ModelSupportStateCapabilityPinned :: string where
  "ModelSupportStateCapabilityPinned \<equiv> ''capability_pinned''"
abbreviation ModelSupportStateLiveQualified :: string where "ModelSupportStateLiveQualified \<equiv> ''live_qualified''"

definition support_valid :: "string \<Rightarrow> bool" where
  "support_valid s \<longleftrightarrow>
     s \<in> {ModelSupportStateDiscovered, ModelSupportStateSelectable, ModelSupportStateCapabilityPinned,
          ModelSupportStateLiveQualified}"

definition support_IsSelectable :: "string \<Rightarrow> bool" where
  "support_IsSelectable s \<longleftrightarrow>
     s \<in> {ModelSupportStateSelectable, ModelSupportStateCapabilityPinned, ModelSupportStateLiveQualified}"

definition Rank :: "string \<Rightarrow> int" where
  "Rank s =
     (if s = ModelSupportStateDiscovered then 1
      else if s = ModelSupportStateSelectable then 2
      else if s = ModelSupportStateCapabilityPinned then 3
      else if s = ModelSupportStateLiveQualified then 4
      else 0)"

definition Satisfies :: "string \<Rightarrow> string \<Rightarrow> bool" where
  "Satisfies s required \<longleftrightarrow> Rank s \<ge> Rank required \<and> Rank s > 0"

definition ParseModelSupportState :: "string \<Rightarrow> string go_result" where
  "ParseModelSupportState str =
     (let norm = map (\<lambda>c. if c = CHR ''-'' then CHR ''_'' else c) (ToLower (TrimSpace str)) in
      if norm \<in> {''discovered'', ''discover'', ''unverified''} then Inr ModelSupportStateDiscovered
      else if norm \<in> {''selectable'', ''available'', ''supported'', ''enabled'', ''active''}
        then Inr ModelSupportStateSelectable
      else if norm \<in> {''capability_pinned'', ''pinned'', ''bound''} then Inr ModelSupportStateCapabilityPinned
      else if norm \<in> {''live_qualified'', ''qualified'', ''verified'', ''passed''}
        then Inr ModelSupportStateLiveQualified
      else Inl ''model_catalog: invalid model support state'')"

record model_descriptor =
  md_ModelID :: string
  md_DisplayName :: string
  md_SupportState :: string
  md_Capabilities :: "64 word"
  md_ContextWindow :: int
  md_InputModalities :: "string list"
  md_DefaultReasoningEffort :: string
  md_IsDefault :: bool
  md_Metadata :: "string gomap"

definition descriptor_Validate :: "model_descriptor \<Rightarrow> go_error option" where
  "descriptor_Validate d =
     (if TrimSpace (md_ModelID d) = [] then Some ''model_catalog: model ID cannot be empty''
      else if \<not> support_valid (md_SupportState d) then Some ''model_catalog: invalid model support state''
      else if md_ContextWindow d < 0 then Some ''model_catalog: invalid model descriptor''
      else None)"

definition HasAllCapabilities :: "model_descriptor \<Rightarrow> 64 word \<Rightarrow> bool" where
  "HasAllCapabilities d msk \<longleftrightarrow> md_Capabilities d AND msk = msk"

definition model_IsSelectable :: "model_descriptor \<Rightarrow> bool" where
  "model_IsSelectable d \<longleftrightarrow> support_IsSelectable (md_SupportState d)"

definition IsLiveQualified :: "model_descriptor \<Rightarrow> bool" where
  "IsLiveQualified d \<longleftrightarrow> md_SupportState d = ModelSupportStateLiveQualified"

record model_catalog_snapshot =
  mc_SchemaVersion :: string
  mc_CatalogHash :: string
  mc_AuthGenerationHash :: string
  mc_ScopeHash :: string
  mc_Models :: "model_descriptor list"
  mc_DiscoveredAt :: time
  mc_ExpiresAt :: time

definition norm_id :: "string \<Rightarrow> string" where
  "norm_id i = ToLower (TrimSpace i)"

fun validate_models :: "string list \<Rightarrow> model_descriptor list \<Rightarrow> go_error option" where
  "validate_models seen [] = None"
| "validate_models seen (m # ms) =
     (case descriptor_Validate m of
        Some e \<Rightarrow> Some e
      | None \<Rightarrow>
          if norm_id (md_ModelID m) \<in> set seen then Some ''model_catalog: duplicate model ID detected in catalog''
          else validate_models (norm_id (md_ModelID m) # seen) ms)"

definition catalog_Validate :: "model_catalog_snapshot \<Rightarrow> go_error option" where
  "catalog_Validate s =
     (if mc_SchemaVersion s \<noteq> ModelCatalogSnapshotSchemaVersion
        then Some ''model_catalog: invalid schema version''
      else if TrimSpace (mc_AuthGenerationHash s) = []
        then Some ''model_catalog: auth generation hash is required''
      else if TrimSpace (mc_ScopeHash s) = [] then Some ''model_catalog: scope hash is required''
      else if TrimSpace (mc_CatalogHash s) = [] then Some ''model_catalog: catalog hash is required''
      else if mc_DiscoveredAt s = 0 then Some ''model_catalog: discovered_at timestamp is zero''
      else validate_models [] (mc_Models s))"

definition GetModel :: "model_catalog_snapshot \<Rightarrow> string \<Rightarrow> model_descriptor option" where
  "GetModel s modelID =
     (if norm_id modelID = [] then None
      else find (\<lambda>m. norm_id (md_ModelID m) = norm_id modelID) (mc_Models s))"

definition catalog_IsSelectable :: "model_catalog_snapshot \<Rightarrow> string \<Rightarrow> bool" where
  "catalog_IsSelectable s modelID =
     (case GetModel s modelID of None \<Rightarrow> False | Some m \<Rightarrow> model_IsSelectable m)"

definition FindQualified :: "model_catalog_snapshot \<Rightarrow> 64 word \<Rightarrow> model_descriptor list" where
  "FindQualified s capability =
     filter (\<lambda>m. md_Capabilities m AND capability = capability \<and> model_IsSelectable m) (mc_Models s)"

definition DefaultModel :: "model_catalog_snapshot \<Rightarrow> model_descriptor option" where
  "DefaultModel s = find md_IsDefault (mc_Models s)"

definition IsExpired :: "model_catalog_snapshot \<Rightarrow> time \<Rightarrow> bool" where
  "IsExpired s now \<longleftrightarrow> mc_ExpiresAt s \<noteq> 0 \<and> now > mc_ExpiresAt s"

abbreviation nl :: string where "nl \<equiv> [CHR 0x0A]"

definition model_line :: "model_descriptor \<Rightarrow> string" where
  "model_line m =
     TrimSpace (md_ModelID m) @ '':'' @ TrimSpace (md_DisplayName m) @ '':'' @ md_SupportState m @ '':''
     @ dec (unat (md_Capabilities m)) @ '':'' @ itoa (md_ContextWindow m) @ '':''
     @ (if md_IsDefault m then ''true'' else ''false'') @ '':'' @ md_DefaultReasoningEffort m @ '':''
     @ concat (map (\<lambda>mo. mo @ '','') (sort (md_InputModalities m))) @ nl"

definition catalog_text :: "string \<Rightarrow> string \<Rightarrow> model_descriptor list \<Rightarrow> string" where
  "catalog_text authGenHash scopeHash models =
     ''reinframe_model_catalog_v1:'' @ nl @ TrimSpace authGenHash @ nl @ TrimSpace scopeHash @ nl
     @ concat (map model_line (sort_key md_ModelID models))"

definition ComputeCatalogHash :: "gostd \<Rightarrow> string \<Rightarrow> string \<Rightarrow> model_descriptor list \<Rightarrow> string" where
  "ComputeCatalogHash std authGenHash scopeHash models =
     sha256_hex std (catalog_text authGenHash scopeHash models)"

definition NewModelCatalogSnapshot ::
  "gostd \<Rightarrow> time \<Rightarrow> string \<Rightarrow> string \<Rightarrow> model_descriptor list \<Rightarrow> time \<Rightarrow> time \<Rightarrow> model_catalog_snapshot go_result" where
  "NewModelCatalogSnapshot std now authGenHash scopeHash models discoveredAt expiresAt =
     (let snap = \<lparr>mc_SchemaVersion = ModelCatalogSnapshotSchemaVersion,
                  mc_CatalogHash = ComputeCatalogHash std authGenHash scopeHash models,
                  mc_AuthGenerationHash = authGenHash, mc_ScopeHash = scopeHash, mc_Models = models,
                  mc_DiscoveredAt = (if discoveredAt = 0 then now else discoveredAt),
                  mc_ExpiresAt = expiresAt\<rparr>
      in case catalog_Validate snap of Some e \<Rightarrow> Inl e | None \<Rightarrow> Inr snap)"

section \<open>Lookup and hash of a validated catalog\<close>

lemma validate_models_None:
  "validate_models seen ms = None \<longleftrightarrow>
     (\<forall>m \<in> set ms. descriptor_Validate m = None)
     \<and> distinct (map (norm_id \<circ> md_ModelID) ms)
     \<and> set (map (norm_id \<circ> md_ModelID) ms) \<inter> set seen = {}"
  by (induction seen ms rule: validate_models.induct) (auto split: option.splits if_splits)

lemma catalog_Validate_models: "catalog_Validate s = None \<Longrightarrow> validate_models [] (mc_Models s) = None"
  by (simp add: catalog_Validate_def split: if_splits)

lemma find_distinct:
  "distinct (map f ms) \<Longrightarrow> m \<in> set ms \<Longrightarrow> find (\<lambda>x. f x = f m) ms = Some m"
  by (induction ms) auto

lemma GetModel_Some:
  "GetModel s i = Some m \<Longrightarrow> m \<in> set (mc_Models s) \<and> norm_id (md_ModelID m) = norm_id i \<and> norm_id i \<noteq> []"
  by (auto simp: GetModel_def find_Some_iff split: if_splits)

lemma valid_descriptor_id: "descriptor_Validate m = None \<Longrightarrow> norm_id (md_ModelID m) \<noteq> []"
  by (auto simp: descriptor_Validate_def norm_id_def ToLower_def split: if_splits)

lemma sort_key_unique:
  assumes "distinct (map f xs)" and "mset ys = mset xs"
  shows "sort_key f ys = sort_key f xs"
proof -
  have same: "set ys = set xs" "length ys = length xs"
    using mset_eq_setD [OF assms(2)] mset_eq_length [OF assms(2)] by blast+
  have "card (set xs) = length xs" using assms(1) by (metis distinct_card distinct_map)
  then have "distinct ys" using same by (metis card_distinct)
  moreover have "inj_on f (set xs)" using assms(1) by (simp add: distinct_map)
  ultimately have dy: "distinct (map f ys)" using same by (simp add: distinct_map)
  show ?thesis
  proof (rule map_inj_on)
    show "inj_on f (set (sort_key f ys) \<union> set (sort_key f xs))"
      using \<open>inj_on f (set xs)\<close> same(1) by simp
    show "map f (sort_key f ys) = map f (sort_key f xs)"
      by (rule sorted_distinct_set_unique)
        (use dy assms same in \<open>simp_all add: distinct_map inj_on_def\<close>)
  qed
qed


definition demo_models :: "model_descriptor list" where
  "demo_models =
    [\<lparr>md_ModelID = ''GPT-5'', md_DisplayName = ''five'', md_SupportState = ModelSupportStateSelectable,
      md_Capabilities = 3, md_ContextWindow = 8, md_InputModalities = [''text''],
      md_DefaultReasoningEffort = ''low'', md_IsDefault = True, md_Metadata = []\<rparr>,
     \<lparr>md_ModelID = ''codex'', md_DisplayName = ''c'', md_SupportState = ModelSupportStateDiscovered,
      md_Capabilities = 0, md_ContextWindow = 4, md_InputModalities = [],
      md_DefaultReasoningEffort = [], md_IsDefault = False, md_Metadata = []\<rparr>]"

definition plain_std :: gostd where
  "plain_std = \<lparr>sha256_hex = id, json_decode = (\<lambda>_. None), json_encode = (\<lambda>_. ''null'')\<rparr>"


end
