(* ===== verification/LaneRouter.thy ===== *)
theory LaneRouter
  imports RuntimeCatalog
begin

text \<open>
  The dual-lane router (\<open>pkg/policy/router.go\<close>). A request goes either to the subscription runtime
  (lane A, credentials held by the child process, subscription quota) or to the API (lane B,
  environment key, token billing). An error is the list of the sentinels its \<open>%w\<close> verbs wrap, so
  \<open>errors.Is\<close> is list membership. The theory shows that roles stay on their lanes, that a decision
  meets what the request asked for, and that a fallback never leaves its lane and happens at most
  once.
\<close>

section \<open>Types\<close>

abbreviation LaneCodexSubscription :: string where "LaneCodexSubscription \<equiv> ''codex_subscription_runtime''"
abbreviation LaneOpenAIResponses :: string where "LaneOpenAIResponses \<equiv> ''openai_responses_api''"

definition lane_valid :: "string \<Rightarrow> bool" where
  "lane_valid l \<longleftrightarrow> l \<in> {LaneCodexSubscription, LaneOpenAIResponses}"

abbreviation RoleAgent :: string where "RoleAgent \<equiv> ''agent''"
abbreviation RoleClassifier :: string where "RoleClassifier \<equiv> ''classifier''"
abbreviation RoleReviewer :: string where "RoleReviewer \<equiv> ''reviewer''"

definition role_valid :: "string \<Rightarrow> bool" where
  "role_valid r \<longleftrightarrow> r \<in> {RoleAgent, RoleClassifier, RoleReviewer}"

abbreviation IntentAgentTurn :: string where "IntentAgentTurn \<equiv> ''agent_turn''"
abbreviation IntentClassifierAssessment :: string where
  "IntentClassifierAssessment \<equiv> ''classifier_assessment''"
abbreviation IntentReviewerAdvice :: string where "IntentReviewerAdvice \<equiv> ''reviewer_advice''"
abbreviation IntentDirectAPI :: string where "IntentDirectAPI \<equiv> ''direct_api''"
abbreviation IntentAppServerSession :: string where "IntentAppServerSession \<equiv> ''app_server_session''"
abbreviation IntentBenchmarkRun :: string where "IntentBenchmarkRun \<equiv> ''benchmark_run''"

definition intent_valid :: "string \<Rightarrow> bool" where
  "intent_valid i \<longleftrightarrow>
     i \<in> {IntentAgentTurn, IntentClassifierAssessment, IntentReviewerAdvice, IntentDirectAPI,
          IntentAppServerSession, IntentBenchmarkRun}"

abbreviation CredentialClassSubscription :: string where "CredentialClassSubscription \<equiv> ''chatgpt_subscription''"
abbreviation CredentialClassAPIKey :: string where "CredentialClassAPIKey \<equiv> ''api_key''"
abbreviation CredentialClassUnspecified :: string where "CredentialClassUnspecified \<equiv> ''unspecified''"

definition credential_valid :: "string \<Rightarrow> bool" where
  "credential_valid c \<longleftrightarrow>
     c \<in> {CredentialClassSubscription, CredentialClassAPIKey, CredentialClassUnspecified}"

definition ToAuthMode :: "string \<Rightarrow> string" where
  "ToAuthMode c =
     (if c = CredentialClassSubscription then RuntimeAuthModeChatGPTSubscription
      else if c = CredentialClassAPIKey then RuntimeAuthModeAPIKey
      else RuntimeAuthModeUnknown)"

abbreviation FallbackFailClosed :: string where "FallbackFailClosed \<equiv> ''fail_closed''"
abbreviation FallbackSameLaneOnly :: string where "FallbackSameLaneOnly \<equiv> ''same_lane_only''"
abbreviation FallbackCrossLaneProhibited :: string where "FallbackCrossLaneProhibited \<equiv> ''cross_lane_prohibited''"

definition fallback_valid :: "string \<Rightarrow> bool" where
  "fallback_valid p \<longleftrightarrow> p \<in> {FallbackFailClosed, FallbackSameLaneOnly, FallbackCrossLaneProhibited, []}"

abbreviation BillingBoundarySubscription :: string where "BillingBoundarySubscription \<equiv> ''chatgpt_subscription_quota''"
abbreviation BillingBoundaryAPITokens :: string where "BillingBoundaryAPITokens \<equiv> ''openai_api_tokens''"
abbreviation DefaultSubscriptionEndpoint :: string where "DefaultSubscriptionEndpoint \<equiv> ''codex_process''"
abbreviation DefaultAPIResponsesPath :: string where "DefaultAPIResponsesPath \<equiv> ''/v1/responses''"

datatype route_sentinel =
    ErrNoRouteAvailable | ErrCrossLaneFallbackProhibited | ErrLaneAuthMismatch | ErrCapabilityNotMet
  | ErrModelUnavailable | ErrModelSubstitutionProhibited | ErrClassifierOAuthProhibited
  | ErrAgentAPIKeyProhibited | OtherRouteErr string

type_synonym route_error = "route_sentinel list"

record model_selection =
  sel_ModelID :: string
  sel_AllowSubstitution :: bool
  sel_RequiredSupportState :: string
  sel_ReasoningEffort :: string
  sel_FallbackModelID :: string

record route_request =
  rr_Intent :: string
  rr_Role :: string
  rr_CredentialClass :: string
  rr_RequiredCapabilities :: "64 word"
  rr_ModelSelection :: model_selection
  rr_FallbackPolicy :: string
  rr_TargetLane :: string
  rr_AllowAgentAPIKey :: bool
  rr_Metadata :: "string gomap"

record route_decision =
  rd_LaneID :: string
  rd_CredentialOwner :: string
  rd_AuthMode :: string
  rd_Endpoint :: string
  rd_SelectedModel :: string
  rd_RequiredCapabilities :: "64 word"
  rd_ResolvedCapabilities :: "64 word"
  rd_BillingBoundary :: string
  rd_Role :: string
  rd_Intent :: string
  rd_FallbackPolicy :: string
  rd_FallbackAllowed :: bool
  rd_Metadata :: "string gomap"

record lane_subscription_config =
  sl_Enabled :: bool
  sl_CredentialOwner :: string
  sl_AuthMode :: string
  sl_Endpoint :: string
  sl_Capabilities :: "64 word"
  sl_Catalog :: "model_catalog_snapshot option"
  sl_AuthSnapshot :: "runtime_auth_snapshot option"
  sl_BillingBoundary :: string

record lane_api_config =
  al_Enabled :: bool
  al_CredentialOwner :: string
  al_AuthMode :: string
  al_BaseURL :: string
  al_Path :: string
  al_APIKeyRef :: string
  al_HasAPIKey :: bool
  al_Capabilities :: "64 word"
  al_AvailableModels :: "string list"
  al_Catalog :: "model_catalog_snapshot option"
  al_AllowAgentRouting :: bool
  al_BillingBoundary :: string

record router_config =
  rc_LaneSubscription :: lane_subscription_config
  rc_LaneAPIResponses :: lane_api_config
  rc_StrictBillingBound :: bool
  rc_DefaultFallback :: string

record dual_lane_router =
  dr_cfg :: router_config
  dr_subLane :: lane_subscription_config
  dr_apiLane :: lane_api_config

section \<open>Construction\<close>

definition or_default :: "string \<Rightarrow> string \<Rightarrow> string" where
  "or_default s d = (if s = [] then d else s)"

definition NewDualLaneRouter :: "router_config \<Rightarrow> dual_lane_router" where
  "NewDualLaneRouter cfg =
     (let s = rc_LaneSubscription cfg; a = rc_LaneAPIResponses cfg in
      \<lparr>dr_cfg = cfg,
       dr_subLane = s\<lparr>sl_CredentialOwner := or_default (sl_CredentialOwner s) CredentialOwnerCodexProcess,
          sl_AuthMode := or_default (sl_AuthMode s) RuntimeAuthModeChatGPTSubscription,
          sl_Endpoint := or_default (sl_Endpoint s) DefaultSubscriptionEndpoint,
          sl_BillingBoundary := or_default (sl_BillingBoundary s) BillingBoundarySubscription\<rparr>,
       dr_apiLane = a\<lparr>al_CredentialOwner := or_default (al_CredentialOwner a) CredentialOwnerReinframeEnv,
          al_AuthMode := or_default (al_AuthMode a) RuntimeAuthModeAPIKey,
          al_BaseURL := or_default (al_BaseURL a) ''https://api.openai.com'',
          al_Path := or_default (al_Path a) DefaultAPIResponsesPath,
          al_BillingBoundary := or_default (al_BillingBoundary a) BillingBoundaryAPITokens\<rparr>\<rparr>)"

definition UpdateSubscriptionCatalog :: "model_catalog_snapshot \<Rightarrow> dual_lane_router \<Rightarrow> dual_lane_router" where
  "UpdateSubscriptionCatalog snap r = r\<lparr>dr_subLane := (dr_subLane r)\<lparr>sl_Catalog := Some snap\<rparr>\<rparr>"

definition UpdateSubscriptionAuth :: "runtime_auth_snapshot \<Rightarrow> dual_lane_router \<Rightarrow> dual_lane_router" where
  "UpdateSubscriptionAuth snap r = r\<lparr>dr_subLane := (dr_subLane r)\<lparr>sl_AuthSnapshot := Some snap\<rparr>\<rparr>"

definition UpdateAPICatalog :: "model_catalog_snapshot \<Rightarrow> dual_lane_router \<Rightarrow> dual_lane_router" where
  "UpdateAPICatalog snap r = r\<lparr>dr_apiLane := (dr_apiLane r)\<lparr>al_Catalog := Some snap\<rparr>\<rparr>"

definition SetAPIAvailability :: "bool \<Rightarrow> dual_lane_router \<Rightarrow> dual_lane_router" where
  "SetAPIAvailability hasKey r = r\<lparr>dr_apiLane := (dr_apiLane r)\<lparr>al_HasAPIKey := hasKey\<rparr>\<rparr>"

section \<open>Model resolution\<close>

definition catalog_default :: "model_catalog_snapshot \<Rightarrow> string" where
  "catalog_default cat =
     (case DefaultModel cat of
        Some d \<Rightarrow> md_ModelID d
      | None \<Rightarrow> (case mc_Models cat of m # _ \<Rightarrow> md_ModelID m | [] \<Rightarrow> []))"

definition find_model ::
  "model_catalog_snapshot \<Rightarrow> model_selection \<Rightarrow> string \<Rightarrow> route_error + (model_descriptor \<times> string)" where
  "find_model cat sel selected =
     (case GetModel cat selected of
        Some d \<Rightarrow> Inr (d, selected)
      | None \<Rightarrow>
          if \<not> sel_AllowSubstitution sel then Inl [ErrModelUnavailable, ErrModelSubstitutionProhibited]
          else if sel_FallbackModelID sel \<noteq> [] then
            (case GetModel cat (sel_FallbackModelID sel) of
               Some fb \<Rightarrow> Inr (fb, md_ModelID fb)
             | None \<Rightarrow> Inl [ErrModelUnavailable])
          else Inl [ErrModelUnavailable])"

definition support_ok :: "model_selection \<Rightarrow> model_descriptor \<Rightarrow> bool" where
  "support_ok sel d =
     (if sel_RequiredSupportState sel \<noteq> [] then Satisfies (md_SupportState d) (sel_RequiredSupportState sel)
      else model_IsSelectable d)"

definition resolve_catalog ::
  "model_catalog_snapshot \<Rightarrow> route_request \<Rightarrow> 64 word \<Rightarrow> route_error + (string \<times> 64 word)" where
  "resolve_catalog cat req laneCaps =
     (let sel = rr_ModelSelection req;
          selected = (if sel_ModelID sel = [] then catalog_default cat else sel_ModelID sel)
      in if selected = [] then Inr (selected, laneCaps)
         else case find_model cat sel selected of
           Inl e \<Rightarrow> Inl e
         | Inr (d, name) \<Rightarrow>
             if \<not> support_ok sel d then Inl [ErrModelUnavailable]
             else if rr_RequiredCapabilities req \<noteq> 0 \<and> md_Capabilities d \<noteq> 0
                  \<and> md_Capabilities d AND rr_RequiredCapabilities req \<noteq> rr_RequiredCapabilities req
               then Inl [ErrCapabilityNotMet]
             else Inr (name, if md_Capabilities d \<noteq> 0 then md_Capabilities d else laneCaps))"

definition resolve_available ::
  "string list \<Rightarrow> model_selection \<Rightarrow> route_error + string" where
  "resolve_available avail sel =
     (let selected = sel_ModelID sel in
      if selected = [] then Inr (hd avail)
      else if list_ex (\<lambda>m. EqualFold m selected) avail then Inr selected
      else if \<not> sel_AllowSubstitution sel then Inl [ErrModelUnavailable, ErrModelSubstitutionProhibited]
      else if sel_FallbackModelID sel \<noteq> [] then
        (case find (\<lambda>m. EqualFold m (sel_FallbackModelID sel)) avail of
           Some m \<Rightarrow> Inr m
         | None \<Rightarrow> Inl [ErrModelUnavailable])
      else Inl [ErrModelUnavailable])"

section \<open>Lanes\<close>

definition lacks :: "64 word \<Rightarrow> 64 word \<Rightarrow> bool" where
  "lacks have want \<longleftrightarrow> want \<noteq> 0 \<and> have AND want \<noteq> want"

definition resolveSubscriptionLane ::
  "dual_lane_router \<Rightarrow> route_request \<Rightarrow> string \<Rightarrow> string \<Rightarrow> string \<Rightarrow> route_error + route_decision" where
  "resolveSubscriptionLane r req role intent fallbackPolicy =
     (let lane = dr_subLane r in
      if \<not> sl_Enabled lane then Inl [ErrNoRouteAvailable]
      else if (case sl_AuthSnapshot lane of
                 None \<Rightarrow> False
               | Some a \<Rightarrow> as_State a \<noteq> RuntimeAuthStateAuthenticated
                   \<or> as_Mode a \<noteq> RuntimeAuthModeChatGPTSubscription)
        then Inl [ErrLaneAuthMismatch]
      else if lacks (sl_Capabilities lane) (rr_RequiredCapabilities req) then Inl [ErrCapabilityNotMet]
      else
        case (case sl_Catalog lane of
                Some cat \<Rightarrow> resolve_catalog cat req (sl_Capabilities lane)
              | None \<Rightarrow>
                  Inr (or_default (sel_ModelID (rr_ModelSelection req)) ''gpt-5.3-codex'', sl_Capabilities lane)) of
          Inl e \<Rightarrow> Inl e
        | Inr (model, caps) \<Rightarrow>
            Inr \<lparr>rd_LaneID = LaneCodexSubscription, rd_CredentialOwner = sl_CredentialOwner lane,
                 rd_AuthMode = sl_AuthMode lane,
                 rd_Endpoint = or_default (sl_Endpoint lane) DefaultSubscriptionEndpoint,
                 rd_SelectedModel = model, rd_RequiredCapabilities = rr_RequiredCapabilities req,
                 rd_ResolvedCapabilities = caps, rd_BillingBoundary = sl_BillingBoundary lane,
                 rd_Role = role, rd_Intent = intent, rd_FallbackPolicy = fallbackPolicy,
                 rd_FallbackAllowed = (fallbackPolicy = FallbackSameLaneOnly),
                 rd_Metadata = rr_Metadata req\<rparr>)"

definition api_endpoint :: "lane_api_config \<Rightarrow> string" where
  "api_endpoint lane =
     (let ep = or_default (al_Path lane) DefaultAPIResponsesPath in
      if al_BaseURL lane \<noteq> [] \<and> \<not> HasPrefix ep ''http''
      then TrimRight (al_BaseURL lane) ''/'' @ ''/'' @ dropWhile (\<lambda>c. c = CHR ''/'') ep
      else ep)"

definition resolveAPIResponsesLane ::
  "dual_lane_router \<Rightarrow> route_request \<Rightarrow> string \<Rightarrow> string \<Rightarrow> string \<Rightarrow> route_error + route_decision" where
  "resolveAPIResponsesLane r req role intent fallbackPolicy =
     (let lane = dr_apiLane r; sel = rr_ModelSelection req in
      if \<not> al_Enabled lane then Inl [ErrNoRouteAvailable]
      else if \<not> al_HasAPIKey lane \<and> TrimSpace (al_APIKeyRef lane) = [] then Inl [ErrLaneAuthMismatch]
      else if lacks (al_Capabilities lane) (rr_RequiredCapabilities req) then Inl [ErrCapabilityNotMet]
      else
        case (case al_Catalog lane of
                Some cat \<Rightarrow> resolve_catalog cat req (al_Capabilities lane)
              | None \<Rightarrow>
                  if al_AvailableModels lane \<noteq> [] then
                    (case resolve_available (al_AvailableModels lane) sel of
                       Inl e \<Rightarrow> Inl e
                     | Inr m \<Rightarrow> Inr (m, al_Capabilities lane))
                  else Inr (or_default (sel_ModelID sel) ''gpt-4o'', al_Capabilities lane)) of
          Inl e \<Rightarrow> Inl e
        | Inr (model, caps) \<Rightarrow>
            Inr \<lparr>rd_LaneID = LaneOpenAIResponses, rd_CredentialOwner = al_CredentialOwner lane,
                 rd_AuthMode = al_AuthMode lane, rd_Endpoint = api_endpoint lane,
                 rd_SelectedModel = model, rd_RequiredCapabilities = rr_RequiredCapabilities req,
                 rd_ResolvedCapabilities = caps, rd_BillingBoundary = al_BillingBoundary lane,
                 rd_Role = role, rd_Intent = intent, rd_FallbackPolicy = fallbackPolicy,
                 rd_FallbackAllowed = (fallbackPolicy = FallbackSameLaneOnly),
                 rd_Metadata = rr_Metadata req\<rparr>)"

section \<open>Route resolution\<close>

definition infer_role :: "route_request \<Rightarrow> route_error + string" where
  "infer_role req =
     (if rr_Role req \<noteq> [] then
        (if role_valid (rr_Role req) then Inr (rr_Role req) else Inl [ErrNoRouteAvailable])
      else if rr_Intent req \<in> {IntentAgentTurn, IntentAppServerSession} then Inr RoleAgent
      else if rr_Intent req = IntentClassifierAssessment then Inr RoleClassifier
      else if rr_Intent req = IntentReviewerAdvice then Inr RoleReviewer
      else Inl [ErrNoRouteAvailable])"

definition infer_intent :: "string \<Rightarrow> string \<Rightarrow> string" where
  "infer_intent role intent =
     (if intent \<noteq> [] then intent
      else if role = RoleAgent then IntentAgentTurn
      else if role = RoleClassifier then IntentClassifierAssessment
      else if role = RoleReviewer then IntentReviewerAdvice
      else intent)"

definition role_isolation :: "dual_lane_router \<Rightarrow> route_request \<Rightarrow> string \<Rightarrow> string \<Rightarrow> route_error option" where
  "role_isolation r req role intent =
     (if (role = RoleClassifier \<or> intent = IntentClassifierAssessment)
         \<and> (rr_TargetLane req = LaneCodexSubscription \<or> rr_CredentialClass req = CredentialClassSubscription)
        then Some [ErrClassifierOAuthProhibited, ErrLaneAuthMismatch]
      else if (role = RoleAgent \<or> intent = IntentAgentTurn \<or> intent = IntentAppServerSession)
         \<and> (rr_TargetLane req = LaneOpenAIResponses \<or> rr_CredentialClass req = CredentialClassAPIKey)
         \<and> \<not> rr_AllowAgentAPIKey req \<and> \<not> al_AllowAgentRouting (dr_apiLane r)
        then Some [ErrAgentAPIKeyProhibited, ErrLaneAuthMismatch]
      else None)"

definition candidate_lane :: "dual_lane_router \<Rightarrow> route_request \<Rightarrow> string \<Rightarrow> route_error + string" where
  "candidate_lane r req role =
     (if rr_TargetLane req \<noteq> [] then
        (if lane_valid (rr_TargetLane req) then Inr (rr_TargetLane req) else Inl [ErrNoRouteAvailable])
      else if role = RoleClassifier \<or> role = RoleReviewer then Inr LaneOpenAIResponses
      else if role = RoleAgent then
        (if rr_CredentialClass req = CredentialClassAPIKey
            \<and> (rr_AllowAgentAPIKey req \<or> al_AllowAgentRouting (dr_apiLane r))
         then Inr LaneOpenAIResponses else Inr LaneCodexSubscription)
      else if rr_CredentialClass req = CredentialClassSubscription then Inr LaneCodexSubscription
      else if rr_CredentialClass req = CredentialClassAPIKey then Inr LaneOpenAIResponses
      else Inl [ErrNoRouteAvailable])"

definition credential_mismatch :: "route_request \<Rightarrow> string \<Rightarrow> bool" where
  "credential_mismatch req lane \<longleftrightarrow>
     rr_CredentialClass req \<noteq> [] \<and> rr_CredentialClass req \<noteq> CredentialClassUnspecified
     \<and> (lane = LaneCodexSubscription \<and> rr_CredentialClass req \<noteq> CredentialClassSubscription
        \<or> lane = LaneOpenAIResponses \<and> rr_CredentialClass req \<noteq> CredentialClassAPIKey)"

definition effective_fallback :: "dual_lane_router \<Rightarrow> route_request \<Rightarrow> string" where
  "effective_fallback r req =
     (if rr_FallbackPolicy req \<noteq> [] then rr_FallbackPolicy req
      else if rc_DefaultFallback (dr_cfg r) \<noteq> [] then rc_DefaultFallback (dr_cfg r)
      else FallbackFailClosed)"

definition resolveRouteLocked :: "dual_lane_router \<Rightarrow> route_request \<Rightarrow> route_error + route_decision" where
  "resolveRouteLocked r req =
     (case infer_role req of
        Inl e \<Rightarrow> Inl e
      | Inr role \<Rightarrow>
          (let intent = infer_intent role (rr_Intent req) in
           if \<not> intent_valid intent then Inl [ErrNoRouteAvailable]
           else case role_isolation r req role intent of
             Some e \<Rightarrow> Inl e
           | None \<Rightarrow>
               (case candidate_lane r req role of
                  Inl e \<Rightarrow> Inl e
                | Inr lane \<Rightarrow>
                    if credential_mismatch req lane then Inl [ErrLaneAuthMismatch]
                    else if lane = LaneCodexSubscription
                      then resolveSubscriptionLane r req role intent (effective_fallback r req)
                    else if lane = LaneOpenAIResponses
                      then resolveAPIResponsesLane r req role intent (effective_fallback r req)
                    else Inl [ErrNoRouteAvailable])))"

text \<open>The context argument is the error \<open>ctx.Err()\<close> reports on entry, if any.\<close>

definition ResolveRoute :: "dual_lane_router \<Rightarrow> string option \<Rightarrow> route_request \<Rightarrow> route_error + route_decision" where
  "ResolveRoute r ctxErr req =
     (case ctxErr of Some e \<Rightarrow> Inl [OtherRouteErr e] | None \<Rightarrow> resolveRouteLocked r req)"

record fallback_option =
  fo_FallbackModelID :: string
  fo_RequiredCapabilities :: "64 word"

definition fallback_request :: "route_decision \<Rightarrow> string \<Rightarrow> 64 word \<Rightarrow> route_request" where
  "fallback_request orig fbModel reqCaps =
     \<lparr>rr_Intent = rd_Intent orig, rr_Role = rd_Role orig, rr_CredentialClass = [],
      rr_RequiredCapabilities = reqCaps,
      rr_ModelSelection = \<lparr>sel_ModelID = fbModel, sel_AllowSubstitution = False,
        sel_RequiredSupportState = [], sel_ReasoningEffort = [], sel_FallbackModelID = []\<rparr>,
      rr_FallbackPolicy = FallbackFailClosed, rr_TargetLane = rd_LaneID orig,
      rr_AllowAgentAPIKey = (rd_Role orig = RoleAgent \<and> rd_LaneID orig = LaneOpenAIResponses),
      rr_Metadata = []\<rparr>"

definition ResolveFallback ::
  "dual_lane_router \<Rightarrow> string option \<Rightarrow> route_decision \<Rightarrow> route_error option \<Rightarrow> fallback_option list
   \<Rightarrow> route_error + route_decision" where
  "ResolveFallback r ctxErr orig failure opts =
     (case ctxErr of
        Some e \<Rightarrow> Inl [OtherRouteErr e]
      | None \<Rightarrow>
          (case failure of
             None \<Rightarrow> Inr orig
           | Some f \<Rightarrow>
               if rd_FallbackPolicy orig \<in> {FallbackFailClosed, [], FallbackCrossLaneProhibited}
                 then Inl (ErrCrossLaneFallbackProhibited # f)
               else if rd_FallbackPolicy orig \<noteq> FallbackSameLaneOnly then Inl [ErrCrossLaneFallbackProhibited]
               else
                 let fbModel = (case opts of o1 # _ \<Rightarrow> fo_FallbackModelID o1 | [] \<Rightarrow> []);
                     reqCaps = (case opts of
                                  o1 # _ \<Rightarrow> if fo_RequiredCapabilities o1 \<noteq> 0 then fo_RequiredCapabilities o1
                                            else rd_RequiredCapabilities orig
                                | [] \<Rightarrow> rd_RequiredCapabilities orig)
                 in if fbModel = [] \<or> EqualFold fbModel (rd_SelectedModel orig) then Inl [ErrNoRouteAvailable]
                    else case resolveRouteLocked r (fallback_request orig fbModel reqCaps) of
                      Inl e \<Rightarrow> Inl (ErrNoRouteAvailable # e)
                    | Inr d \<Rightarrow>
                        if rd_LaneID d \<noteq> rd_LaneID orig \<or> rd_BillingBoundary d \<noteq> rd_BillingBoundary orig
                        then Inl [ErrCrossLaneFallbackProhibited] else Inr d))"

section \<open>Error classification\<close>

definition IsRateLimitError :: "string option \<Rightarrow> bool" where
  "IsRateLimitError err =
     (case err of
        None \<Rightarrow> False
      | Some e \<Rightarrow> (let msg = ToLower e in
          Contains msg ''429'' \<or> Contains msg ''rate_limit'' \<or> Contains msg ''rate limit''
          \<or> Contains msg ''quota_exceeded'' \<or> Contains msg ''too many requests''))"

definition IsAuthExpiryError :: "string option \<Rightarrow> bool" where
  "IsAuthExpiryError err =
     (case err of
        None \<Rightarrow> False
      | Some e \<Rightarrow> (let msg = ToLower e in
          Contains msg ''401'' \<or> Contains msg ''unauthorized'' \<or> Contains msg ''unauthenticated''
          \<or> Contains msg ''expired'' \<or> Contains msg ''token_expired'' \<or> Contains msg ''session_expired''))"

definition IsCrossLaneFallbackProhibited :: "route_error \<Rightarrow> bool" where
  "IsCrossLaneFallbackProhibited e \<longleftrightarrow> ErrCrossLaneFallbackProhibited \<in> set e"

definition IsNoRouteAvailable :: "route_error \<Rightarrow> bool" where
  "IsNoRouteAvailable e \<longleftrightarrow> ErrNoRouteAvailable \<in> set e"

definition IsLaneAuthMismatch :: "route_error \<Rightarrow> bool" where
  "IsLaneAuthMismatch e \<longleftrightarrow> ErrLaneAuthMismatch \<in> set e"

definition IsCapabilityNotMet :: "route_error \<Rightarrow> bool" where
  "IsCapabilityNotMet e \<longleftrightarrow> ErrCapabilityNotMet \<in> set e"

section \<open>What a resolved model satisfies\<close>

definition covers_caps :: "64 word \<Rightarrow> 64 word \<Rightarrow> bool" where
  "covers_caps have want \<longleftrightarrow> have AND want = want"

lemma covers_lacks: "\<not> lacks have want \<Longrightarrow> covers_caps have want"
  by (auto simp: lacks_def covers_caps_def)

lemma norm_id_nil: "norm_id [] = []"
  by code_simp

lemma find_model_sound:
  assumes "find_model cat sel selected = Inr (d, name)"
  shows "d \<in> set (mc_Models cat) \<and> norm_id (md_ModelID d) = norm_id name \<and> name \<noteq> []
    \<and> (\<not> sel_AllowSubstitution sel \<longrightarrow> name = selected)"
  using assms GetModel_Some [of cat]
  by (auto simp: find_model_def norm_id_nil dest!: GetModel_Some split: option.splits if_splits)

text \<open>
  What a catalog model must have to be selected for a request, and the capabilities that are then
  reported: its own when it declares some, the lane's otherwise.
\<close>

definition model_serves :: "route_request \<Rightarrow> model_descriptor \<Rightarrow> 64 word \<Rightarrow> 64 word \<Rightarrow> bool" where
  "model_serves req m laneCaps caps \<longleftrightarrow>
     support_ok (rr_ModelSelection req) m
     \<and> (md_Capabilities m = 0 \<or> covers_caps (md_Capabilities m) (rr_RequiredCapabilities req))
     \<and> caps = (if md_Capabilities m \<noteq> 0 then md_Capabilities m else laneCaps)"

lemma resolve_catalog_sound:
  assumes "resolve_catalog cat req caps0 = Inr (name, caps)"
    and "covers_caps caps0 (rr_RequiredCapabilities req)"
  shows "covers_caps caps (rr_RequiredCapabilities req)
    \<and> (\<not> sel_AllowSubstitution (rr_ModelSelection req) \<longrightarrow> sel_ModelID (rr_ModelSelection req) \<noteq> []
         \<longrightarrow> name = sel_ModelID (rr_ModelSelection req))
    \<and> (name = [] \<longrightarrow> caps = caps0)
    \<and> (name \<noteq> [] \<longrightarrow> (\<exists>m \<in> set (mc_Models cat). norm_id (md_ModelID m) = norm_id name
                           \<and> model_serves req m caps0 caps))"
proof -
  let ?sel = "rr_ModelSelection req"
  let ?m = "if sel_ModelID ?sel = [] then catalog_default cat else sel_ModelID ?sel"
  show ?thesis
  proof (cases "?m = []")
    case True
    then show ?thesis using assms by (auto simp: resolve_catalog_def Let_def split: if_splits)
  next
    case False
    then obtain d where d: "find_model cat ?sel ?m = Inr (d, name)" and ok: "support_ok ?sel d"
      and caps: "caps = (if md_Capabilities d \<noteq> 0 then md_Capabilities d else caps0)"
      and req: "rr_RequiredCapabilities req \<noteq> 0 \<Longrightarrow> md_Capabilities d \<noteq> 0 \<Longrightarrow>
        md_Capabilities d AND rr_RequiredCapabilities req = rr_RequiredCapabilities req"
      using assms(1) unfolding resolve_catalog_def Let_def by (auto split: sum.splits if_splits)
    have "model_serves req d caps0 caps"
      using ok caps req by (cases "rr_RequiredCapabilities req = 0") (auto simp: model_serves_def covers_caps_def)
    moreover have "covers_caps caps (rr_RequiredCapabilities req)"
      using calculation assms(2) by (auto simp: model_serves_def)
    ultimately show ?thesis using find_model_sound [OF d] by auto
  qed
qed

lemma resolve_available_sound:
  "resolve_available avail sel = Inr m \<Longrightarrow> \<not> sel_AllowSubstitution sel \<Longrightarrow> sel_ModelID sel \<noteq> [] \<Longrightarrow>
   m = sel_ModelID sel"
  by (auto simp: resolve_available_def Let_def split: if_splits option.splits)

text \<open>What every decision of a lane has, whatever else the request says.\<close>

definition serves :: "route_request \<Rightarrow> 64 word \<Rightarrow> model_catalog_snapshot option \<Rightarrow> route_decision \<Rightarrow> bool" where
  "serves req laneCaps cat d \<longleftrightarrow>
     covers_caps laneCaps (rr_RequiredCapabilities req)
     \<and> covers_caps (rd_ResolvedCapabilities d) (rr_RequiredCapabilities req)
     \<and> rd_RequiredCapabilities d = rr_RequiredCapabilities req
     \<and> (\<not> sel_AllowSubstitution (rr_ModelSelection req) \<longrightarrow> sel_ModelID (rr_ModelSelection req) \<noteq> []
          \<longrightarrow> rd_SelectedModel d = sel_ModelID (rr_ModelSelection req))
     \<and> (case cat of
          None \<Rightarrow> rd_ResolvedCapabilities d = laneCaps
        | Some c \<Rightarrow>
            (rd_SelectedModel d = [] \<longrightarrow> rd_ResolvedCapabilities d = laneCaps)
            \<and> (rd_SelectedModel d \<noteq> [] \<longrightarrow>
                 (\<exists>m \<in> set (mc_Models c). norm_id (md_ModelID m) = norm_id (rd_SelectedModel d)
                    \<and> model_serves req m laneCaps (rd_ResolvedCapabilities d))))"

lemma subscription_decision:
  assumes "resolveSubscriptionLane r req role intent fb = Inr d"
  shows "rd_LaneID d = LaneCodexSubscription" and "rd_Role d = role" and "rd_Intent d = intent"
    and "rd_FallbackPolicy d = fb" and "rd_FallbackAllowed d \<longleftrightarrow> fb = FallbackSameLaneOnly"
    and "rd_BillingBoundary d = sl_BillingBoundary (dr_subLane r)"
    and "rd_CredentialOwner d = sl_CredentialOwner (dr_subLane r)"
    and "rd_AuthMode d = sl_AuthMode (dr_subLane r)"
    and "sl_Enabled (dr_subLane r)"
    and "\<And>a. sl_AuthSnapshot (dr_subLane r) = Some a \<Longrightarrow> IsAuthenticated a"
    and "serves req (sl_Capabilities (dr_subLane r)) (sl_Catalog (dr_subLane r)) d"
  using assms resolve_catalog_sound [OF _ covers_lacks]
  unfolding resolveSubscriptionLane_def Let_def serves_def
  by (auto simp: IsAuthenticated_def or_default_def covers_lacks split: if_splits option.splits sum.splits; blast)+

lemma api_decision:
  assumes "resolveAPIResponsesLane r req role intent fb = Inr d"
  shows "rd_LaneID d = LaneOpenAIResponses" and "rd_Role d = role" and "rd_Intent d = intent"
    and "rd_FallbackPolicy d = fb" and "rd_FallbackAllowed d \<longleftrightarrow> fb = FallbackSameLaneOnly"
    and "rd_BillingBoundary d = al_BillingBoundary (dr_apiLane r)"
    and "rd_CredentialOwner d = al_CredentialOwner (dr_apiLane r)"
    and "rd_AuthMode d = al_AuthMode (dr_apiLane r)"
    and "al_Enabled (dr_apiLane r)"
    and "serves req (al_Capabilities (dr_apiLane r)) (al_Catalog (dr_apiLane r)) d"
  using assms resolve_catalog_sound [OF _ covers_lacks] resolve_available_sound
  unfolding resolveAPIResponsesLane_def Let_def serves_def
  by (auto simp: or_default_def covers_lacks split: if_splits option.splits sum.splits; blast)+

section \<open>Isolation of the lanes\<close>

lemma route_cases:
  assumes "resolveRouteLocked r req = Inr d"
  obtains role intent lane where "infer_role req = Inr role" and "intent = infer_intent role (rr_Intent req)"
    and "role_isolation r req role intent = None" and "candidate_lane r req role = Inr lane"
    and "\<not> credential_mismatch req lane"
    and "lane = LaneCodexSubscription \<and> resolveSubscriptionLane r req role intent (effective_fallback r req) = Inr d
       \<or> lane = LaneOpenAIResponses \<and> resolveAPIResponsesLane r req role intent (effective_fallback r req) = Inr d"
  using assms that unfolding resolveRouteLocked_def Let_def
  by (auto split: sum.splits if_splits option.splits)

lemma route_fields:
  assumes "resolveRouteLocked r req = Inr d"
  obtains role where "infer_role req = Inr role" and "rd_Role d = role"
    and "candidate_lane r req role = Inr (rd_LaneID d)"
    and "role_isolation r req role (rd_Intent d) = None"
    and "\<not> credential_mismatch req (rd_LaneID d)"
    and "rd_FallbackPolicy d = effective_fallback r req"
    and "rd_FallbackAllowed d \<longleftrightarrow> rd_FallbackPolicy d = FallbackSameLaneOnly"
    and "rd_LaneID d = LaneCodexSubscription \<and> rd_BillingBoundary d = sl_BillingBoundary (dr_subLane r)
          \<and> rd_CredentialOwner d = sl_CredentialOwner (dr_subLane r)
          \<and> (\<forall>a. sl_AuthSnapshot (dr_subLane r) = Some a \<longrightarrow> IsAuthenticated a)
          \<and> serves req (sl_Capabilities (dr_subLane r)) (sl_Catalog (dr_subLane r)) d
        \<or> rd_LaneID d = LaneOpenAIResponses \<and> rd_BillingBoundary d = al_BillingBoundary (dr_apiLane r)
          \<and> rd_CredentialOwner d = al_CredentialOwner (dr_apiLane r)
          \<and> serves req (al_Capabilities (dr_apiLane r)) (al_Catalog (dr_apiLane r)) d"
proof -
  from assms obtain role intent lane where facts: "infer_role req = Inr role"
    "role_isolation r req role intent = None" "candidate_lane r req role = Inr lane"
    "\<not> credential_mismatch req lane"
    and "lane = LaneCodexSubscription \<and> resolveSubscriptionLane r req role intent (effective_fallback r req) = Inr d
       \<or> lane = LaneOpenAIResponses \<and> resolveAPIResponsesLane r req role intent (effective_fallback r req) = Inr d"
    (is "?sub \<or> ?api")
    by (rule route_cases)
  then consider ?sub | ?api by blast
  then show ?thesis
  proof cases
    case 1
    then show ?thesis using subscription_decision facts by (intro that) auto
  next
    case 2
    then show ?thesis using api_decision facts by (intro that) auto
  qed
qed

text \<open>
  C23. Roles stay on their lanes. A route resolved for the role classifier is never on the
  subscription lane; a resolved agent route is on the API lane only after the caller or the lane
  configuration opted in; the credential class of the request fits the lane; and the billing
  boundary and credential owner are those of the lane. If the subscription lane has a probe of its
  credentials, a route on it is resolved only when that probe was authenticated; a lane without a
  probe resolves unprobed.
\<close>

theorem roles_stay_on_their_lanes:
  assumes "ResolveRoute r ctxErr req = Inr d"
  shows "(rd_Role d = RoleClassifier \<longrightarrow> rd_LaneID d = LaneOpenAIResponses)
    \<and> (rd_Role d = RoleAgent \<longrightarrow> rd_LaneID d = LaneOpenAIResponses \<longrightarrow>
         rr_AllowAgentAPIKey req \<or> al_AllowAgentRouting (dr_apiLane r))
    \<and> (rr_CredentialClass req = CredentialClassSubscription \<longrightarrow> rd_LaneID d = LaneCodexSubscription)
    \<and> (rr_CredentialClass req = CredentialClassAPIKey \<longrightarrow> rd_LaneID d = LaneOpenAIResponses)
    \<and> (rd_LaneID d = LaneCodexSubscription
         \<and> rd_BillingBoundary d = sl_BillingBoundary (dr_subLane r)
         \<and> rd_CredentialOwner d = sl_CredentialOwner (dr_subLane r)
         \<and> (\<forall>a. sl_AuthSnapshot (dr_subLane r) = Some a \<longrightarrow> IsAuthenticated a)
       \<or> rd_LaneID d = LaneOpenAIResponses
         \<and> rd_BillingBoundary d = al_BillingBoundary (dr_apiLane r)
         \<and> rd_CredentialOwner d = al_CredentialOwner (dr_apiLane r))"
proof -
  have "resolveRouteLocked r req = Inr d" using assms by (auto simp: ResolveRoute_def split: option.splits)
  then obtain role where role: "rd_Role d = role" "candidate_lane r req role = Inr (rd_LaneID d)"
    "role_isolation r req role (rd_Intent d) = None" "\<not> credential_mismatch req (rd_LaneID d)"
    and lane: "rd_LaneID d = LaneCodexSubscription \<and> rd_BillingBoundary d = sl_BillingBoundary (dr_subLane r)
          \<and> rd_CredentialOwner d = sl_CredentialOwner (dr_subLane r)
          \<and> (\<forall>a. sl_AuthSnapshot (dr_subLane r) = Some a \<longrightarrow> IsAuthenticated a)
          \<and> serves req (sl_Capabilities (dr_subLane r)) (sl_Catalog (dr_subLane r)) d
        \<or> rd_LaneID d = LaneOpenAIResponses \<and> rd_BillingBoundary d = al_BillingBoundary (dr_apiLane r)
          \<and> rd_CredentialOwner d = al_CredentialOwner (dr_apiLane r)
          \<and> serves req (al_Capabilities (dr_apiLane r)) (al_Catalog (dr_apiLane r)) d"
    by (rule route_fields)
  have "rd_Role d = RoleClassifier \<Longrightarrow> rd_LaneID d = LaneOpenAIResponses"
    and "rd_Role d = RoleAgent \<Longrightarrow> rd_LaneID d = LaneOpenAIResponses \<Longrightarrow>
         rr_AllowAgentAPIKey req \<or> al_AllowAgentRouting (dr_apiLane r)"
    using role(2,3) unfolding role(1) [symmetric]
    by (auto simp: candidate_lane_def role_isolation_def lane_valid_def split: if_splits)
  moreover have "rr_CredentialClass req = CredentialClassSubscription \<Longrightarrow> rd_LaneID d = LaneCodexSubscription"
    and "rr_CredentialClass req = CredentialClassAPIKey \<Longrightarrow> rd_LaneID d = LaneOpenAIResponses"
    using role(4) lane by (auto simp: credential_mismatch_def)
  ultimately show ?thesis using lane by blast
qed

text \<open>
  C24. A decision serves its request. The capabilities of the lane include every required one, and
  so do the resolved ones. Unless the caller allowed a substitution or named no model, the selected
  model is the one named. With a catalog on the lane, the selected model (if there is any) is listed
  in a sufficient support state, and it does not declare capabilities that lack a required one: the
  resolved capabilities are those it declares, and the lane's where it declares none. Without a
  catalog they are the lane's.
\<close>

theorem decision_serves_request:
  assumes "ResolveRoute r ctxErr req = Inr d"
    and "laneCaps = (if rd_LaneID d = LaneCodexSubscription then sl_Capabilities (dr_subLane r)
           else al_Capabilities (dr_apiLane r))"
    and "cat = (if rd_LaneID d = LaneCodexSubscription then sl_Catalog (dr_subLane r)
           else al_Catalog (dr_apiLane r))"
  shows "laneCaps AND rr_RequiredCapabilities req = rr_RequiredCapabilities req
    \<and> rd_ResolvedCapabilities d AND rr_RequiredCapabilities req = rr_RequiredCapabilities req
    \<and> (sel_AllowSubstitution (rr_ModelSelection req) \<or> sel_ModelID (rr_ModelSelection req) = []
       \<or> rd_SelectedModel d = sel_ModelID (rr_ModelSelection req))
    \<and> (cat = None \<or> rd_SelectedModel d = [] \<longrightarrow> rd_ResolvedCapabilities d = laneCaps)
    \<and> (\<forall>c. cat = Some c \<longrightarrow> rd_SelectedModel d \<noteq> [] \<longrightarrow>
         (\<exists>m \<in> set (mc_Models c). norm_id (md_ModelID m) = norm_id (rd_SelectedModel d)
            \<and> support_ok (rr_ModelSelection req) m
            \<and> (if md_Capabilities m = 0 then rd_ResolvedCapabilities d = laneCaps
               else rd_ResolvedCapabilities d = md_Capabilities m
                 \<and> md_Capabilities m AND rr_RequiredCapabilities req = rr_RequiredCapabilities req)))"
proof -
  have "resolveRouteLocked r req = Inr d" using assms(1) by (auto simp: ResolveRoute_def split: option.splits)
  then have "serves req laneCaps cat d" by (rule route_fields) (auto simp: assms(2,3))
  note s = this [unfolded serves_def covers_caps_def]
  have "\<exists>m \<in> set (mc_Models c). norm_id (md_ModelID m) = norm_id (rd_SelectedModel d)
      \<and> support_ok (rr_ModelSelection req) m
      \<and> (if md_Capabilities m = 0 then rd_ResolvedCapabilities d = laneCaps
         else rd_ResolvedCapabilities d = md_Capabilities m
           \<and> md_Capabilities m AND rr_RequiredCapabilities req = rr_RequiredCapabilities req)"
    if "cat = Some c" "rd_SelectedModel d \<noteq> []" for c
  proof -
    from s that obtain m where m: "m \<in> set (mc_Models c)" "norm_id (md_ModelID m) = norm_id (rd_SelectedModel d)"
      "model_serves req m laneCaps (rd_ResolvedCapabilities d)" by auto
    then show ?thesis
      by (cases "md_Capabilities m = 0"; intro bexI [of _ m]) (simp_all add: model_serves_def covers_caps_def)
  qed
  moreover have "rd_ResolvedCapabilities d = laneCaps" if "cat = None \<or> rd_SelectedModel d = []"
    using s that by (cases cat) simp_all
  ultimately show ?thesis using s by blast
qed

text \<open>
  C25. A fallback never crosses the billing boundary and happens at most once: after a failure,
  \<open>ResolveFallback\<close> succeeds only on the lane and boundary of the failed route, with the alternative
  model the caller named, and the decision it returns is itself fail-closed, so that a fallback
  from it is refused whatever the failure.
\<close>

theorem fallback_stays_in_lane_once:
  assumes "ResolveFallback r ctxErr orig (Some failure) opts = Inr d"
  shows "rd_LaneID d = rd_LaneID orig \<and> rd_BillingBoundary d = rd_BillingBoundary orig
    \<and> rd_FallbackPolicy orig = FallbackSameLaneOnly
    \<and> (\<exists>o1 rest. opts = o1 # rest \<and> rd_SelectedModel d = fo_FallbackModelID o1)
    \<and> \<not> EqualFold (rd_SelectedModel d) (rd_SelectedModel orig)
    \<and> \<not> rd_FallbackAllowed d
    \<and> (\<forall>r' f' opts'. ResolveFallback r' None d (Some f') opts' = Inl (ErrCrossLaneFallbackProhibited # f'))"
proof -
  from assms obtain fb caps where fb: "fb \<noteq> []" "\<not> EqualFold fb (rd_SelectedModel orig)"
    and o1: "\<exists>o1 rest. opts = o1 # rest \<and> fb = fo_FallbackModelID o1"
    and pol: "rd_FallbackPolicy orig = FallbackSameLaneOnly"
    and d: "resolveRouteLocked r (fallback_request orig fb caps) = Inr d"
    and same: "rd_LaneID d = rd_LaneID orig" "rd_BillingBoundary d = rd_BillingBoundary orig"
    unfolding ResolveFallback_def Let_def
    by (auto split: option.splits if_splits sum.splits list.splits)
  from d have "rd_FallbackPolicy d = FallbackFailClosed \<and> \<not> rd_FallbackAllowed d \<and> rd_SelectedModel d = fb"
    by (rule route_fields) (use fb(1) in \<open>auto simp: effective_fallback_def fallback_request_def serves_def\<close>)
  then show ?thesis using fb o1 pol same by (simp add: ResolveFallback_def)
qed

section \<open>The router at concrete requests\<close>

definition demo_config :: router_config where
  "demo_config =
     \<lparr>rc_LaneSubscription = \<lparr>sl_Enabled = True, sl_CredentialOwner = [], sl_AuthMode = [], sl_Endpoint = [],
        sl_Capabilities = 7, sl_Catalog = None, sl_AuthSnapshot = None, sl_BillingBoundary = []\<rparr>,
      rc_LaneAPIResponses = \<lparr>al_Enabled = True, al_CredentialOwner = [], al_AuthMode = [], al_BaseURL = [],
        al_Path = [], al_APIKeyRef = [], al_HasAPIKey = True, al_Capabilities = 3,
        al_AvailableModels = [''gpt-a'', ''gpt-b''], al_Catalog = None, al_AllowAgentRouting = False,
        al_BillingBoundary = []\<rparr>,
      rc_StrictBillingBound = True, rc_DefaultFallback = FallbackSameLaneOnly\<rparr>"

definition demo_route :: "string \<Rightarrow> string \<Rightarrow> string \<Rightarrow> route_request" where
  "demo_route role intent model =
     \<lparr>rr_Intent = intent, rr_Role = role, rr_CredentialClass = [], rr_RequiredCapabilities = 1,
      rr_ModelSelection = \<lparr>sel_ModelID = model, sel_AllowSubstitution = False,
        sel_RequiredSupportState = [], sel_ReasoningEffort = [], sel_FallbackModelID = []\<rparr>,
      rr_FallbackPolicy = [], rr_TargetLane = [], rr_AllowAgentAPIKey = False, rr_Metadata = []\<rparr>"

definition demo_decision :: route_decision where
  "demo_decision =
     \<lparr>rd_LaneID = LaneOpenAIResponses, rd_CredentialOwner = CredentialOwnerReinframeEnv,
      rd_AuthMode = RuntimeAuthModeAPIKey, rd_Endpoint = ''https://api.openai.com/v1/responses'',
      rd_SelectedModel = ''gpt-a'', rd_RequiredCapabilities = 1, rd_ResolvedCapabilities = 3,
      rd_BillingBoundary = BillingBoundaryAPITokens, rd_Role = RoleClassifier,
      rd_Intent = IntentClassifierAssessment, rd_FallbackPolicy = FallbackSameLaneOnly,
      rd_FallbackAllowed = True, rd_Metadata = []\<rparr>"

lemma demo_resolved:
  "ResolveRoute (NewDualLaneRouter demo_config) None (demo_route RoleClassifier [] ''gpt-a'') = Inr demo_decision"
  by code_simp

text \<open>
  The isolation check looks at an explicit target lane or credential class only. A request with the
  agent role and the classifier intent passes it and lands on the subscription lane.
\<close>

lemma classifier_intent_on_subscription:
  "case ResolveRoute (NewDualLaneRouter demo_config) None (demo_route RoleAgent IntentClassifierAssessment []) of
     Inl _ \<Rightarrow> False
   | Inr d \<Rightarrow> rd_Intent d = IntentClassifierAssessment \<and> rd_LaneID d = LaneCodexSubscription"
  by code_simp

theorem roles_stay_on_their_lanes_witness:
  "rd_Role demo_decision = RoleClassifier \<and> rd_LaneID demo_decision = LaneOpenAIResponses
   \<and> rd_BillingBoundary demo_decision = al_BillingBoundary (dr_apiLane (NewDualLaneRouter demo_config))"
  using roles_stay_on_their_lanes [OF demo_resolved] by (simp add: demo_decision_def)

definition catalog_config :: router_config where
  "catalog_config = demo_config\<lparr>rc_LaneAPIResponses := (rc_LaneAPIResponses demo_config)\<lparr>al_Catalog :=
     Some \<lparr>mc_SchemaVersion = ModelCatalogSnapshotSchemaVersion, mc_CatalogHash = ''h'',
       mc_AuthGenerationHash = ''g'', mc_ScopeHash = ''s'', mc_Models = demo_models,
       mc_DiscoveredAt = 1, mc_ExpiresAt = 0\<rparr>\<rparr>\<rparr>"

theorem decision_serves_request_witness:
  "\<exists>d. ResolveRoute (NewDualLaneRouter catalog_config) None (demo_route RoleClassifier [] ''gpt-5'') = Inr d
     \<and> rd_ResolvedCapabilities d AND 1 = 1 \<and> rd_SelectedModel d = ''gpt-5''"
proof -
  let ?r = "NewDualLaneRouter catalog_config" and ?req = "demo_route RoleClassifier [] ''gpt-5''"
  have "\<not> isl (ResolveRoute ?r None ?req)" by code_simp
  then obtain d where d: "ResolveRoute ?r None ?req = Inr d" by (cases "ResolveRoute ?r None ?req") auto
  show ?thesis using d decision_serves_request [OF d refl refl] by (simp add: demo_route_def)
qed

theorem fallback_stays_in_lane_once_witness:
  "\<exists>d. ResolveFallback (NewDualLaneRouter demo_config) None demo_decision (Some [OtherRouteErr ''429''])
        [\<lparr>fo_FallbackModelID = ''gpt-b'', fo_RequiredCapabilities = 0\<rparr>] = Inr d
     \<and> rd_LaneID d = LaneOpenAIResponses \<and> rd_SelectedModel d = ''gpt-b'' \<and> \<not> rd_FallbackAllowed d"
proof -
  let ?res = "ResolveFallback (NewDualLaneRouter demo_config) None demo_decision (Some [OtherRouteErr ''429''])
        [\<lparr>fo_FallbackModelID = ''gpt-b'', fo_RequiredCapabilities = 0\<rparr>]"
  have "\<not> isl ?res" by code_simp
  then obtain d where d: "?res = Inr d" by (cases ?res) auto
  show ?thesis using d fallback_stays_in_lane_once [OF d] by (auto simp: demo_decision_def)
qed

end
