(* ===== verification/GoGlob.thy ===== *)
theory GoGlob
  imports GoStrings
begin

text \<open>
  \<open>filepath.Match\<close> and \<open>filepath.Clean\<close> on Unix, as \<open>pkg/adapter/hook_gate.go\<close> uses them. The
  matcher follows the library: a pattern is cut at its unbracketed stars into chunks, a chunk is
  matched rune by rune, and a star tries the chunk at each position up to the next separator. A
  malformed pattern is \<open>None\<close>. A pattern without the characters star, question mark, bracket and
  backslash matches exactly itself, and the segments of a cleaned path are characterised: they
  are what confinement to a directory is about.
\<close>

section \<open>Runes\<close>

definition decode_rune :: "string \<Rightarrow> nat \<times> nat" where
  "decode_rune s =
     (let w = rune_valid_width s; b = (\<lambda>i. byte (s ! i)) in
      if w = 0 then (0xFFFD, 1)
      else if w = 1 then (b 0, 1)
      else if w = 2 then ((b 0 mod 32) * 64 + b 1 mod 64, 2)
      else if w = 3 then ((b 0 mod 16) * 4096 + (b 1 mod 64) * 64 + b 2 mod 64, 3)
      else ((b 0 mod 8) * 262144 + (b 1 mod 64) * 4096 + (b 2 mod 64) * 64 + b 3 mod 64, 4))"

lemma decode_rune_width: "0 < snd (decode_rune s)"
  by (simp add: decode_rune_def Let_def)

section \<open>Chunks of a pattern\<close>

definition getEsc :: "string \<Rightarrow> (nat \<times> string) option" where
  "getEsc chunk =
     (case chunk of
        [] \<Rightarrow> None
      | c # cs \<Rightarrow>
          if c = CHR ''-'' \<or> c = CHR '']'' then None
          else let ch = (if c = CHR 0x5C then cs else chunk) in
            if ch = [] then None
            else let (r, n) = decode_rune ch; rest = drop n ch in
              if r = 0xFFFD \<and> n = 1 \<or> rest = [] then None else Some (r, rest))"

lemma getEsc_shorter: "getEsc ch = Some (r, rest) \<Longrightarrow> length rest < length ch"
  using decode_rune_width [of ch] decode_rune_width [of "tl ch"]
  by (auto simp: getEsc_def Let_def split: list.splits if_splits prod.splits)

lemma getEsc_twice:
  "getEsc ch = Some (lo, ch1) \<Longrightarrow> getEsc (tl ch1) = Some (hi, ch2) \<Longrightarrow> length ch2 < length ch"
  using getEsc_shorter [of ch lo ch1] getEsc_shorter [of "tl ch1" hi ch2] by simp

function glob_class :: "nat \<Rightarrow> nat \<Rightarrow> bool \<Rightarrow> string \<Rightarrow> (bool \<times> string) option" where
  "glob_class r n m ch =
     (if ch \<noteq> [] \<and> hd ch = CHR '']'' \<and> 0 < n then Some (m, tl ch)
      else case getEsc ch of
        None \<Rightarrow> None
      | Some (lo, ch1) \<Rightarrow>
          if hd ch1 = CHR ''-'' then
            (case getEsc (tl ch1) of
               None \<Rightarrow> None
             | Some (hi, ch2) \<Rightarrow> glob_class r (n + 1) (m \<or> lo \<le> r \<and> r \<le> hi) ch2)
          else glob_class r (n + 1) (m \<or> lo = r) ch1)"
  by pat_completeness auto
termination
  by (relation "measure (\<lambda>(r, n, m, ch). length ch)") (auto dest: getEsc_shorter getEsc_twice)

declare glob_class.simps [simp del]

lemma glob_class_shorter: "glob_class r n m ch = Some (b, rest) \<Longrightarrow> length rest < length ch"
proof (induction r n m ch arbitrary: b rest rule: glob_class.induct)
  case (1 r n m ch)
  show ?case
  proof (cases "ch \<noteq> [] \<and> hd ch = CHR '']'' \<and> 0 < n")
    case True
    with 1 show ?thesis by (auto simp: glob_class.simps [of r n m ch])
  next
    case False
    with "1.prems" obtain lo ch1 where lo: "getEsc ch = Some (lo, ch1)"
      by (auto simp: glob_class.simps [of r n m ch] split: option.splits)
    then have l1: "length ch1 < length ch" by (rule getEsc_shorter)
    show ?thesis
    proof (cases "hd ch1 = CHR ''-''")
      case True
      with False lo "1.prems" obtain hi ch2 where hi: "getEsc (tl ch1) = Some (hi, ch2)"
        by (auto simp: glob_class.simps [of r n m ch] split: option.splits if_splits)
      with 1 False lo True have "length rest < length ch2"
        by (auto simp: glob_class.simps [of r n m ch])
      with getEsc_shorter [OF hi] l1 show ?thesis by simp
    next
      case no: False
      with 1 False lo have "length rest < length ch1"
        by (auto simp: glob_class.simps [of r n m ch])
      with l1 show ?thesis by simp
    qed
  qed
qed

text \<open>
  \<open>matchChunk\<close>: \<open>failed\<close> records a mismatch while the syntax of the rest is still checked. The
  result is \<open>None\<close> for a malformed chunk.
\<close>

function matchChunk :: "bool \<Rightarrow> string \<Rightarrow> string \<Rightarrow> (string \<times> bool) option" where
  "matchChunk failed chunk s =
     (case chunk of
        [] \<Rightarrow> Some (if failed then ([], False) else (s, True))
      | c # cs \<Rightarrow>
          let f = (failed \<or> s = []) in
          if c = CHR ''['' then
            let (r, n) = (if f then (0, 0) else decode_rune s);
                neg = (cs \<noteq> [] \<and> hd cs = CHR ''^'')
            in (case glob_class r 0 False (if neg then tl cs else cs) of
                  None \<Rightarrow> None
                | Some (m, rest) \<Rightarrow> matchChunk (f \<or> m = neg) rest (drop n s))
          else if c = CHR ''?'' then
            matchChunk (f \<or> hd s = CHR ''/'') cs (if f then s else drop (snd (decode_rune s)) s)
          else if c = CHR 0x5C then
            (case cs of
               [] \<Rightarrow> None
             | d # ds \<Rightarrow> matchChunk (f \<or> hd s \<noteq> d) ds (if f then s else tl s))
          else matchChunk (f \<or> hd s \<noteq> c) cs (if f then s else tl s))"
  by pat_completeness auto
termination
  by (relation "measure (\<lambda>(f, chunk, s). length chunk)")
    (auto dest!: glob_class_shorter split: if_splits)

declare matchChunk.simps [simp del]

fun scan_stars :: "bool \<Rightarrow> string \<Rightarrow> bool \<times> string" where
  "scan_stars star [] = (star, [])"
| "scan_stars star (c # cs) = (if c = CHR ''*'' then scan_stars True cs else (star, c # cs))"

fun scan_body :: "bool \<Rightarrow> bool \<Rightarrow> string \<Rightarrow> string \<times> string" where
  "scan_body esc inrange [] = ([], [])"
| "scan_body esc inrange (c # cs) =
     (if \<not> esc \<and> c = CHR ''*'' \<and> \<not> inrange then ([], c # cs)
      else
        let inrange' = (if esc then inrange else if c = CHR ''['' then True
                        else if c = CHR '']'' then False else inrange);
            (a, b) = scan_body (\<not> esc \<and> c = CHR 0x5C) inrange' cs
        in (c # a, b))"

definition scanChunk :: "string \<Rightarrow> bool \<times> string \<times> string" where
  "scanChunk p = (let (star, q) = scan_stars False p; (chunk, rest) = scan_body False False q in (star, chunk, rest))"

lemma scan_stars_le: "length (snd (scan_stars b p)) \<le> length p"
  by (induction b p rule: scan_stars.induct) auto

lemma scan_stars_hd: "snd (scan_stars b p) = c # cs \<Longrightarrow> c \<noteq> CHR ''*''"
  by (induction b p rule: scan_stars.induct) (auto split: if_splits)

lemma scan_body_split: "fst (scan_body e b p) @ snd (scan_body e b p) = p"
  by (induction e b p rule: scan_body.induct) (simp_all add: Let_def case_prod_beta)

lemma scan_body_shorter:
  assumes "p \<noteq> []" "hd p \<noteq> CHR ''*''"
  shows "length (snd (scan_body e b p)) < length p"
proof -
  have "fst (scan_body e b p) \<noteq> []" using assms by (cases p) (simp_all add: Let_def case_prod_beta)
  then show ?thesis using scan_body_split [of e b p] by (metis append_eq_conv_conj length_append length_greater_0_conv less_add_same_cancel2)
qed

lemma scanChunk_shorter:
  assumes "p \<noteq> []" "scanChunk p = (star, chunk, rest)"
  shows "length rest < length p"
proof -
  obtain st q where q: "scan_stars False p = (st, q)" by (cases "scan_stars False p")
  with assms have r: "rest = snd (scan_body False False q)" by (auto simp: scanChunk_def Let_def split: prod.splits)
  show ?thesis
  proof (cases q)
    case Nil
    with r assms show ?thesis by simp
  next
    case (Cons c cs)
    with scan_stars_hd [of False p c cs] q have "length (snd (scan_body False False q)) < length q"
      by (intro scan_body_shorter) auto
    with r scan_stars_le [of False p] q show ?thesis by simp
  qed
qed

lemma scanChunk_shorter': "(star, chunk, rest) = scanChunk p \<Longrightarrow> p \<noteq> [] \<Longrightarrow> length rest < length p"
  using scanChunk_shorter by metis

section \<open>The matcher\<close>

fun glob_skip :: "string \<Rightarrow> bool \<Rightarrow> string \<Rightarrow> string option option" where
  "glob_skip chunk final [] = Some None"
| "glob_skip chunk final (c # name) =
     (if c = CHR ''/'' then Some None
      else case matchChunk False chunk name of
        None \<Rightarrow> None
      | Some (t, ok) \<Rightarrow> if ok \<and> \<not> (final \<and> t \<noteq> []) then Some (Some t) else glob_skip chunk final name)"

definition glob_fit :: "bool \<Rightarrow> string \<Rightarrow> bool \<Rightarrow> string \<Rightarrow> string option option" where
  "glob_fit star chunk final name =
     (case matchChunk False chunk name of
        None \<Rightarrow> None
      | Some (t, ok) \<Rightarrow>
          if ok \<and> (t = [] \<or> \<not> final) then Some (Some t)
          else if star then glob_skip chunk final name else Some None)"

function glob_syntax :: "string \<Rightarrow> bool" where
  "glob_syntax p =
     (if p = [] then True
      else case scanChunk p of (star, chunk, rest) \<Rightarrow> if matchChunk False chunk [] = None then False else glob_syntax rest)"
  by pat_completeness auto
termination by (relation "measure length") (auto dest: scanChunk_shorter')

declare glob_syntax.simps [simp del]

function filepath_Match :: "string \<Rightarrow> string \<Rightarrow> bool option" where
  "filepath_Match p name =
     (if p = [] then Some (name = [])
      else case scanChunk p of (star, chunk, rest) \<Rightarrow>
        if star \<and> chunk = [] then Some (CHR ''/'' \<notin> set name)
        else case glob_fit star chunk (rest = []) name of
          None \<Rightarrow> None
        | Some (Some t) \<Rightarrow> filepath_Match rest t
        | Some None \<Rightarrow> if glob_syntax rest then Some False else None)"
  by pat_completeness auto
termination by (relation "measure (length \<circ> fst)") (auto dest: scanChunk_shorter')

declare filepath_Match.simps [simp del]

definition glob_plain :: "string \<Rightarrow> bool" where
  "glob_plain p \<longleftrightarrow> set p \<inter> {CHR ''*'', CHR ''?'', CHR ''['', CHR 0x5C} = {}"

lemma scan_body_plain: "glob_plain p \<Longrightarrow> scan_body e b p = (p, [])"
  by (induction e b p rule: scan_body.induct) (auto simp: glob_plain_def Let_def)

lemma matchChunk_plain:
  "glob_plain p \<Longrightarrow> matchChunk failed p s =
     Some (if \<not> failed \<and> HasPrefix s p then (drop (length p) s, True) else ([], False))"
proof (induction p arbitrary: failed s)
  case Nil
  then show ?case by (simp add: matchChunk.simps HasPrefix_def)
next
  case (Cons c p)
  then have p: "glob_plain p" and c: "c \<noteq> CHR ''['' \<and> c \<noteq> CHR ''?'' \<and> c \<noteq> CHR 0x5C"
    by (auto simp: glob_plain_def)
  show ?case using Cons.IH [OF p] c
    by (cases s) (simp_all add: matchChunk.simps [of failed "c # p"] HasPrefix_def Let_def)
qed

lemma filepath_Match_plain:
  assumes "glob_plain p" shows "filepath_Match p name = Some (name = p)"
proof (cases p)
  case Nil
  then show ?thesis by (simp add: filepath_Match.simps)
next
  case (Cons c cs)
  with assms have "scanChunk p = (False, p, [])"
    by (auto simp: scanChunk_def scan_body_plain glob_plain_def)
  then show ?thesis using Cons assms
    by (subst filepath_Match.simps)
      (auto simp: glob_fit_def matchChunk_plain HasPrefix_iff glob_syntax.simps filepath_Match.simps [of "[]"])
qed

section \<open>Cleaned paths\<close>

definition path_segs :: "string \<Rightarrow> string list" where
  "path_segs s = clean_segs (HasPrefix s ''/'') [] (Split s (CHR ''/''))"

definition seg_ok :: "string \<Rightarrow> bool" where
  "seg_ok g \<longleftrightarrow> g \<noteq> [] \<and> g \<noteq> ''.'' \<and> CHR ''/'' \<notin> set g"

lemma split_on_append: "split_on d acc (a @ d # b) = split_on d acc a @ split_on d [] b"
  by (induction a arbitrary: acc) auto

lemma Split_append: "Split (a @ d # b) d = Split a d @ Split b d"
  by (simp add: Split_def split_on_append)

lemma split_on_none: "d \<notin> set a \<Longrightarrow> split_on d acc a = [rev acc @ a]"
  by (induction a arbitrary: acc) auto

lemma split_on_clean: "d \<notin> set acc \<Longrightarrow> g \<in> set (split_on d acc s) \<Longrightarrow> d \<notin> set g"
  by (induction d acc s rule: split_on.induct) (auto split: if_splits)

lemma Split_Join:
  "gs \<noteq> [] \<Longrightarrow> \<forall>g \<in> set gs. d \<notin> set g \<Longrightarrow> Split (Join gs [d]) d = gs"
proof (induction gs "[d]" rule: Join.induct)
  case (2 x)
  then show ?case by (simp add: Split_def split_on_none)
next
  case (3 x y zs)
  then show ?case using Split_append [of x d "Join (y # zs) [d]"] by (simp add: Split_def split_on_none)
qed simp

definition clean_push :: "bool \<Rightarrow> string \<Rightarrow> string list \<Rightarrow> string list" where
  "clean_push rooted g out =
     (if g = [] \<or> g = ''.'' then out
      else if g = ''..'' then
        (case out of
           [] \<Rightarrow> if rooted then [] else [''..'']
         | o1 # os \<Rightarrow> if o1 = ''..'' then ''..'' # out else os)
      else g # out)"

lemma clean_segs_fold: "clean_segs rooted out gs = rev (fold (clean_push rooted) gs out)"
  by (cases rooted; induction gs arbitrary: out) (simp_all add: clean_push_def split: list.split)

lemma clean_segs_ok:
  assumes "\<forall>g \<in> set segs. CHR ''/'' \<notin> set g" "\<forall>g \<in> set out. seg_ok g"
  shows "\<forall>g \<in> set (clean_segs rooted out segs). seg_ok g"
proof -
  have "\<forall>g \<in> set (fold (clean_push rooted) segs out). seg_ok g"
    by (rule fold_invariant_weak) (use assms in \<open>auto simp: clean_push_def seg_ok_def split: list.splits if_splits\<close>)
  then show ?thesis by (simp add: clean_segs_fold)
qed

lemma clean_segs_rooted:
  assumes "''..'' \<notin> set out" shows "''..'' \<notin> set (clean_segs True out segs)"
proof -
  have "''..'' \<notin> set (fold (clean_push True) segs out)"
    by (rule fold_invariant_weak) (use assms in \<open>auto simp: clean_push_def split: list.splits if_splits\<close>)
  then show ?thesis by (simp add: clean_segs_fold)
qed

lemma path_segs_ok: "g \<in> set (path_segs s) \<Longrightarrow> seg_ok g"
  using clean_segs_ok [of "Split s (CHR ''/'')" "[]"] split_on_clean [of "CHR ''/''" "[]"]
  by (auto simp: path_segs_def Split_def)

lemma path_segs_rooted: "HasPrefix s ''/'' \<Longrightarrow> ''..'' \<notin> set (path_segs s)"
  by (simp add: path_segs_def clean_segs_rooted)

lemma path_Clean_segs:
  "path_Clean s = (if HasPrefix s ''/'' then ''/'' @ Join (path_segs s) ''/''
     else if path_segs s = [] then ''.'' else Join (path_segs s) ''/'')"
proof -
  have "Join gs ''/'' \<noteq> []" if "gs \<noteq> []" "\<forall>g \<in> set gs. seg_ok g" for gs
    using that by (cases gs rule: Join.cases [of "(_, ''/'')", simplified]) (auto simp: seg_ok_def)
  then show ?thesis using path_segs_ok [of _ s]
    by (auto simp: path_Clean_def path_segs_def Let_def)
qed

lemma Join_hd: "gs \<noteq> [] \<Longrightarrow> \<forall>g \<in> set gs. seg_ok g \<Longrightarrow> Join gs ''/'' \<noteq> [] \<and> hd (Join gs ''/'') \<noteq> CHR ''/''"
  by (cases gs rule: Join.cases [of "(_, ''/'')", simplified]) (auto simp: seg_ok_def hd_append dest: list.set_sel(1))

lemma Join_last: "gs \<noteq> [] \<Longrightarrow> \<forall>g \<in> set gs. seg_ok g \<Longrightarrow> Join gs ''/'' \<noteq> [] \<and> last (Join gs ''/'') \<noteq> CHR ''/''"
  by (induction gs "''/''" rule: Join.induct) (auto simp: seg_ok_def dest: last_in_set)

lemma path_Clean_rooted: "HasPrefix (path_Clean s) ''/'' \<longleftrightarrow> HasPrefix s ''/''"
  using Join_hd [of "path_segs s"] path_segs_ok [of _ s]
  by (auto simp: path_Clean_segs HasPrefix_iff)

lemma Split_rooted: "gs \<noteq> [] \<Longrightarrow> \<forall>g \<in> set gs. seg_ok g \<Longrightarrow> Split (''/'' @ Join gs ''/'') (CHR ''/'') = [] # gs"
  using Split_append [of "[]" "CHR ''/''" "Join gs ''/''"] Split_Join [of gs "CHR ''/''"]
  by (simp add: Split_def seg_ok_def)

text \<open>A rooted path that is, or lies below, a cleaned directory has that directory's segments first.\<close>

lemma clean_segs_id: "\<forall>g \<in> set gs. seg_ok g \<and> g \<noteq> ''..'' \<Longrightarrow> clean_segs r out gs = rev out @ gs"
  by (induction gs arbitrary: out) (auto simp: seg_ok_def)

lemma path_segs_clean: "HasPrefix s ''/'' \<Longrightarrow> path_segs (path_Clean s) = path_segs s"
proof (cases "path_segs s = []")
  case False
  assume s: "HasPrefix s ''/''"
  then have ok: "\<forall>g \<in> set (path_segs s). seg_ok g \<and> g \<noteq> ''..''"
    using path_segs_ok path_segs_rooted by blast
  with False s show ?thesis
    using Split_rooted [of "path_segs s"] path_Clean_rooted [of s]
    by (subst path_segs_def) (simp add: path_Clean_segs clean_segs_id)
qed (simp add: path_Clean_segs path_segs_def Split_def HasPrefix_def)

lemma path_below_segs:
  assumes e: "HasPrefix e ''/''" and p: "HasPrefix (path_Clean s) (TrimRight (path_Clean e) ''/'' @ ''/'')"
  shows "HasPrefix s ''/'' \<and> (\<exists>rest. path_segs s = path_segs e @ rest)"
proof -
  have okE: "\<forall>g \<in> set (path_segs e). seg_ok g" and okS: "\<forall>g \<in> set (path_segs s). seg_ok g"
    using path_segs_ok by blast+
  show ?thesis
  proof (cases "path_segs e = []")
    case True
    have "TrimRight (path_Clean e) ''/'' = []"
      using e True by (simp add: path_Clean_segs TrimRight_def strip_heads.simps HasPrefix_def)
    with p path_Clean_rooted [of s] True show ?thesis by simp
  next
    case False
    then have "TrimRight (path_Clean e) ''/'' = path_Clean e"
      using e Join_last [OF False okE] okE
      by (cases "Join (path_segs e) ''/''" rule: rev_cases)
        (auto simp: path_Clean_segs TrimRight_def strip_heads.simps HasPrefix_def)
    with p e obtain x where x: "path_Clean s = ''/'' @ Join (path_segs e) ''/'' @ ''/'' @ x"
      by (auto simp: HasPrefix_iff path_Clean_segs)
    then have s: "HasPrefix s ''/''" using path_Clean_rooted [of s] by (simp add: HasPrefix_def)
    with x have j: "Join (path_segs s) ''/'' = Join (path_segs e) ''/'' @ CHR ''/'' # x"
      by (simp add: path_Clean_segs)
    then have "path_segs s \<noteq> []" by auto
    with okS j have "path_segs s = Split (Join (path_segs e) ''/'' @ CHR ''/'' # x) (CHR ''/'')"
      using Split_Join [of "path_segs s" "CHR ''/''"] by (simp add: seg_ok_def)
    also have "\<dots> = path_segs e @ Split x (CHR ''/'')"
      using Split_Join [of "path_segs e" "CHR ''/''"] False okE by (simp add: Split_append seg_ok_def)
    finally show ?thesis using s by blast
  qed
qed

end
