(* ===== verification/ProtocolTypes.thy ===== *)
theory ProtocolTypes
  imports GoStrings Complex_Main
begin

text \<open>
  The structs of \<open>pkg/protocol/schema.go\<close> that the policy engine, the delivery path and the
  supervisor exchange: task contracts, evidence ledgers, review requests and decisions,
  interventions. Floats are rationals; a nil pointer is \<open>None\<close>.
\<close>

record criterion =
  cr_ID :: string
  cr_Description :: string

record evidence_requirement =
  er_ID :: string
  er_Kind :: string
  er_Required :: bool

record validation_budget =
  vb_MaxFullSuiteRuns :: int
  vb_MaxTargetedRuns :: int

record task_contract =
  co_TaskID :: string
  co_Revision :: int
  co_Complexity :: string
  co_Risk :: string
  co_Confidence :: rat
  co_SuccessCriteria :: "criterion list"
  co_RequiredEvidence :: "evidence_requirement list"
  co_AllowedScope :: "string list"
  co_ValidationBudget :: validation_budget
  co_MaxToolCalls :: int
  co_SubagentBudget :: int
  co_ReviewerBudget :: int
  co_CreatedFrom :: string
  co_CreatedAt :: time

record criterion_status =
  cs_CriterionID :: string
  cs_Status :: string

record validation_record =
  vr_RecordID :: string
  vr_Command :: string
  vr_TargetScope :: "string list"
  vr_WorkspaceRev :: string
  vr_ContractRevision :: int
  vr_Purpose :: string
  vr_Succeeded :: bool
  vr_Fingerprint :: string
  vr_RecordedAt :: time

record evidence_ledger =
  el_TaskID :: string
  el_ContractRevision :: int
  el_WorkspaceRevision :: string
  el_CriteriaStatus :: "criterion_status gomap"
  el_ValidationRecords :: "validation_record list"
  el_ToolCallCounts :: "int gomap"
  el_LastProgressAt :: "time option"
  el_LastWorkspaceHash :: string

record review_request =
  rq_RequestID :: string
  rq_ReviewerRole :: string
  rq_EvidencePackID :: string
  rq_Model :: string
  rq_Prompt :: string
  rq_RequestedAt :: time

record review_decision =
  rv_DecisionID :: string
  rv_RequestID :: string
  rv_ReviewerRole :: string
  rv_TunnelConfidence :: rat
  rv_Classification :: string
  rv_Rationale :: string
  rv_SuggestedAdvice :: string
  rv_TokensUsed :: int
  rv_DecidedAt :: time

record intervention =
  iv_InterventionID :: string
  iv_SessionID :: string
  iv_Level :: int
  iv_ActionType :: string
  iv_AdvicePrompt :: string
  iv_TargetCheckpointID :: string
  iv_Status :: string
  iv_ExecutedAt :: time
  iv_ExpiresAt :: "time option"
  iv_Priority :: int
  iv_DeliveryModeHint :: string
  iv_RequiresAck :: bool
  iv_AckStatus :: string
  iv_AckedAt :: "time option"
  iv_SafeBoundary :: string
  iv_Fingerprint :: string
  iv_ParentAssessmentID :: string

abbreviation RiskLow :: string where "RiskLow \<equiv> ''low''"
abbreviation RiskHigh :: string where "RiskHigh \<equiv> ''high''"
abbreviation RiskIrreversible :: string where "RiskIrreversible \<equiv> ''irreversible''"
abbreviation ComplexityTrivial :: string where "ComplexityTrivial \<equiv> ''trivial''"
abbreviation ComplexitySimple :: string where "ComplexitySimple \<equiv> ''simple''"
abbreviation BoundaryBeforeTool :: string where "BoundaryBeforeTool \<equiv> ''before_tool''"

section \<open>Numbered identifiers\<close>

text \<open>Identifiers that end in a dash and a counter determine the counter.\<close>

lemma numbered_id_inj:
  assumes "a @ ''-'' @ dec m = b @ ''-'' @ dec n"
  shows "m = n"
proof -
  have no: "CHR ''-'' \<notin> set (dec k)" for k using dec_digits [of k] by auto
  have eq: "rev (dec m) @ CHR ''-'' # rev a = rev (dec n) @ CHR ''-'' # rev b"
    using assms by (metis (no_types, lifting) append.assoc append_Cons append_Nil rev.simps(2) rev_append rev_rev_ident)
  have "takeWhile (\<lambda>c. c \<noteq> CHR ''-'') (rev (dec k) @ CHR ''-'' # x) = rev (dec k)" for k x
    using no [of k] by (subst takeWhile_append2) auto
  with eq have "rev (dec m) = rev (dec n)" by metis
  then show ?thesis by (simp add: dec_inj)
qed

end
