(* ===== verification/Detectors.thy ===== *)
theory Detectors
  imports GoStrings Complex_Main
begin

text \<open>
  The detectors (\<open>pkg/detector\<close>): repeated failures, tool budget, hypothesis loops and redundant
  re-validation, with the event types of \<open>pkg/protocol/schema.go\<close> they read and write. Each keeps
  per-session bookkeeping in nested maps. The locale \<open>tracked_value\<close> states what that bookkeeping
  is for: an observable value per key that evolves by a specification step of its own; every
  detector interprets it, and its firing condition follows as a statement about the history of
  observations. Weights and scores are rationals for the source's floats; the decoders of JSON
  into event structs are the parameter \<open>event_codec\<close>.
\<close>

section \<open>Events and signals\<close>

record agent_event =
  ae_EventID :: string
  ae_SessionID :: string
  ae_SequenceNum :: int
  ae_EventType :: string
  ae_Timestamp :: time
  ae_Payload :: string

record test_result_event =
  tr_TestRunID :: string
  tr_Command :: string
  tr_PassedCount :: int
  tr_FailedCount :: int
  tr_SkippedCount :: int
  tr_PassDelta :: int
  tr_FailureOutput :: string
  tr_DurationMs :: int

record tool_call_event =
  tc_ToolCallID :: string
  tc_ToolName :: string
  tc_Arguments :: "(string \<times> json) list"
  tc_Output :: string
  tc_ExitCode :: "int option"
  tc_DurationMs :: int
  tc_Error :: string

record tunnel_signal =
  ts_SignalID :: string
  ts_SessionID :: string
  ts_DetectorName :: string
  ts_FailureMode :: string
  ts_Weight :: rat
  ts_Score :: rat
  ts_Details :: "string gomap"
  ts_TriggeredAt :: time

record event_codec =
  ec_TestResult :: "string \<Rightarrow> test_result_event option"
  ec_ToolCall :: "string \<Rightarrow> tool_call_event option"
  ec_Object :: "string \<Rightarrow> (string \<times> json) list option"

section \<open>Failure fingerprints\<close>

definition re2_space :: "char \<Rightarrow> bool" where
  "re2_space c \<longleftrightarrow> c \<in> set [CHR 0x09, CHR 0x0A, CHR 0x0C, CHR 0x0D, CHR '' '']"

fun collapse_spaces :: "bool \<Rightarrow> string \<Rightarrow> string" where
  "collapse_spaces inrun [] = []"
| "collapse_spaces inrun (c # cs) =
     (if re2_space c then (if inrun then collapse_spaces True cs else CHR '' '' # collapse_spaces True cs)
      else c # collapse_spaces False cs)"

definition NormalizeFingerprint :: "string \<Rightarrow> string" where
  "NormalizeFingerprint raw =
     (let s = TrimSpace raw in if s = [] then [] else collapse_spaces False (ToLower s))"

definition DefaultThreshold :: int where "DefaultThreshold = 3"

abbreviation FailureModeRepeatedErrorLoop :: string where "FailureModeRepeatedErrorLoop \<equiv> ''repeated_error_loop''"
abbreviation DetectorNameRepeatedFailure :: string where "DetectorNameRepeatedFailure \<equiv> ''RepeatedFailureDetector''"
abbreviation FailureModeToolBudgetChurn :: string where "FailureModeToolBudgetChurn \<equiv> ''tool_budget_churn''"
abbreviation DetectorNameToolBudgetChurn :: string where "DetectorNameToolBudgetChurn \<equiv> ''ToolBudgetChurnDetector''"
abbreviation FailureModeHypothesisLoop :: string where "FailureModeHypothesisLoop \<equiv> ''hypothesis_loop''"
abbreviation DetectorNameHypothesisLoop :: string where "DetectorNameHypothesisLoop \<equiv> ''HypothesisLoopDetector''"
abbreviation FailureModeVerificationChurn :: string where "FailureModeVerificationChurn \<equiv> ''verification_churn''"
abbreviation DetectorNameVerificationChurn :: string where "DetectorNameVerificationChurn \<equiv> ''VerificationChurnDetector''"

fun first_string :: "(string \<times> json) list \<Rightarrow> string list \<Rightarrow> string" where
  "first_string m [] = []"
| "first_string m (k # ks) =
     (case map_of m k of
        Some (JStr v) \<Rightarrow> if v \<noteq> [] then v else first_string m ks
      | _ \<Rightarrow> first_string m ks)"

text \<open>
  The last test of the generic fallback (a positive \<open>failed_count\<close>) returns \<open>failure_output\<close>, which
  the loop before it has already tried, so it never contributes a text.
\<close>

definition generic_failure :: "event_codec \<Rightarrow> string \<Rightarrow> string" where
  "generic_failure ec payload =
     (case ec_Object ec payload of
        None \<Rightarrow> []
      | Some m \<Rightarrow> first_string m [''failure_output'', ''error'', ''normalized_text'', ''raw_error''])"

definition test_failure :: "event_codec \<Rightarrow> string \<Rightarrow> string option" where
  "test_failure ec payload =
     (case ec_TestResult ec payload of
        None \<Rightarrow> None
      | Some tr \<Rightarrow>
          if tr_FailureOutput tr \<noteq> [] then Some (tr_FailureOutput tr)
          else if tr_FailedCount tr > 0
            then Some (''test_failed command='' @ tr_Command tr @ '' failed='' @ itoa (tr_FailedCount tr))
          else None)"

definition tool_failure :: "event_codec \<Rightarrow> string \<Rightarrow> string option" where
  "tool_failure ec payload =
     (case ec_ToolCall ec payload of
        None \<Rightarrow> None
      | Some tc \<Rightarrow>
          if tc_Error tc \<noteq> [] then Some (tc_Error tc)
          else case tc_ExitCode tc of
            Some code \<Rightarrow>
              if code \<noteq> 0
              then Some (''tool '' @ tc_ToolName tc @ '' exit='' @ itoa code @ '' output='' @ tc_Output tc)
              else None
          | None \<Rightarrow> None)"

definition extractFailureText :: "event_codec \<Rightarrow> agent_event \<Rightarrow> string" where
  "extractFailureText ec e =
     (let p = ae_Payload e; t = ae_EventType e in
      if p = [] then []
      else if t \<in> {''test_result'', ''TestResult''} then
        (case test_failure ec p of Some s \<Rightarrow> s | None \<Rightarrow> generic_failure ec p)
      else if t \<in> {''tool_call'', ''ToolCall''} then
        (case tool_failure ec p of Some s \<Rightarrow> s | None \<Rightarrow> generic_failure ec p)
      else if t \<in> {''error'', ''failure'', ''agent_error''} then
        (case ec_Object ec p of
           None \<Rightarrow> p
         | Some m \<Rightarrow>
             (let s = first_string m [''error'', ''failure_output'', ''normalized_text'', ''message'', ''raw_error'']
              in if s \<noteq> [] then s else p))
      else generic_failure ec p)"

section \<open>Repeated failures\<close>

record session_fingerprints =
  sf_counts :: "int gomap"
  sf_first :: "time gomap"
  sf_last :: "time gomap"

record repeated_failure_detector =
  rf_threshold :: int
  rf_sessions :: "session_fingerprints gomap"
  rf_seq :: nat

definition NewRepeatedFailureDetector :: "int \<Rightarrow> repeated_failure_detector" where
  "NewRepeatedFailureDetector th =
     \<lparr>rf_threshold = (if th \<le> 0 then DefaultThreshold else th), rf_sessions = [], rf_seq = 0\<rparr>"

definition zero_int :: "int gomap \<Rightarrow> string \<Rightarrow> int" where
  "zero_int m k = (case gm_get m k of None \<Rightarrow> 0 | Some n \<Rightarrow> n)"

definition record_failure :: "string \<Rightarrow> time \<Rightarrow> session_fingerprints \<Rightarrow> session_fingerprints" where
  "record_failure fp now ss =
     ss\<lparr>sf_counts := gm_put fp (zero_int (sf_counts ss) fp + 1) (sf_counts ss),
        sf_first := (if gm_get (sf_first ss) fp = None then gm_put fp now (sf_first ss) else sf_first ss),
        sf_last := gm_put fp now (sf_last ss)\<rparr>"

definition fresh_fingerprints :: session_fingerprints where
  "fresh_fingerprints = \<lparr>sf_counts = [], sf_first = [], sf_last = []\<rparr>"

definition signal_id :: "string \<Rightarrow> string \<Rightarrow> nat \<Rightarrow> string" where
  "signal_id prefix sourceID seq =
     (if sourceID \<noteq> [] then prefix @ sourceID @ ''-'' @ dec seq else prefix @ dec seq)"

definition ObserveRaw ::
  "string \<Rightarrow> string \<Rightarrow> string \<Rightarrow> time \<Rightarrow> repeated_failure_detector
   \<Rightarrow> tunnel_signal option \<times> repeated_failure_detector" where
  "ObserveRaw sessionID raw sourceID now d =
     (let fp = NormalizeFingerprint raw in
      if fp = [] \<or> sessionID = [] then (None, d)
      else
        let ss = (case gm_get (rf_sessions d) sessionID of None \<Rightarrow> fresh_fingerprints | Some ss \<Rightarrow> ss);
            ss' = record_failure fp now ss;
            d1 = d\<lparr>rf_sessions := gm_put sessionID ss' (rf_sessions d)\<rparr>;
            cnt = zero_int (sf_counts ss') fp
        in if cnt < rf_threshold d then (None, d1)
           else
             let seq = rf_seq d + 1 in
             (Some \<lparr>ts_SignalID = signal_id ''sig-rf-'' sourceID seq, ts_SessionID = sessionID,
                    ts_DetectorName = DetectorNameRepeatedFailure,
                    ts_FailureMode = FailureModeRepeatedErrorLoop, ts_Weight = 35 / 100, ts_Score = 1,
                    ts_Details = [(''fingerprint'', fp), (''count'', itoa cnt),
                      (''threshold'', itoa (rf_threshold d)), (''source_id'', sourceID)],
                    ts_TriggeredAt = now\<rparr>,
              d1\<lparr>rf_seq := seq\<rparr>))"

definition rf_Observe ::
  "event_codec \<Rightarrow> agent_event \<Rightarrow> time \<Rightarrow> repeated_failure_detector
   \<Rightarrow> tunnel_signal option \<times> repeated_failure_detector" where
  "rf_Observe ec e now d =
     (let raw = extractFailureText ec e in
      if raw = [] then (None, d) else ObserveRaw (ae_SessionID e) raw (ae_EventID e) now d)"

definition rf_Count :: "repeated_failure_detector \<Rightarrow> string \<Rightarrow> string \<Rightarrow> int" where
  "rf_Count d sessionID raw =
     (case gm_get (rf_sessions d) sessionID of
        None \<Rightarrow> 0
      | Some ss \<Rightarrow> zero_int (sf_counts ss) (NormalizeFingerprint raw))"

definition rf_ResetSession :: "string \<Rightarrow> repeated_failure_detector \<Rightarrow> repeated_failure_detector" where
  "rf_ResetSession sessionID d = d\<lparr>rf_sessions := gm_del sessionID (rf_sessions d)\<rparr>"

section \<open>Tool budget\<close>

definition DefaultMaxToolCalls :: int where "DefaultMaxToolCalls = 30"

record tool_budget_session =
  tb_toolCalls :: int
  tb_progressHits :: int
  tb_toolsSinceProgress :: int

record tool_budget_detector =
  tb_maxDefault :: int
  tb_sessions :: "tool_budget_session gomap"
  tb_seq :: nat

definition NewToolBudgetChurnDetector :: "int \<Rightarrow> tool_budget_detector" where
  "NewToolBudgetChurnDetector mx =
     \<lparr>tb_maxDefault = (if mx \<le> 0 then DefaultMaxToolCalls else mx), tb_sessions = [], tb_seq = 0\<rparr>"

definition tb_session :: "tool_budget_detector \<Rightarrow> string \<Rightarrow> tool_budget_session" where
  "tb_session d s =
     (case gm_get (tb_sessions d) s of
        None \<Rightarrow> \<lparr>tb_toolCalls = 0, tb_progressHits = 0, tb_toolsSinceProgress = 0\<rparr>
      | Some ss \<Rightarrow> ss)"

definition MarkProgress :: "string \<Rightarrow> tool_budget_detector \<Rightarrow> tool_budget_detector" where
  "MarkProgress sessionID d =
     (if sessionID = [] then d
      else let ss = tb_session d sessionID in
        d\<lparr>tb_sessions := gm_put sessionID
             (ss\<lparr>tb_progressHits := tb_progressHits ss + 1, tb_toolsSinceProgress := 0\<rparr>) (tb_sessions d)\<rparr>)"

definition recordTool ::
  "string \<Rightarrow> string \<Rightarrow> string \<Rightarrow> int \<Rightarrow> time \<Rightarrow> tool_budget_detector
   \<Rightarrow> tunnel_signal option \<times> tool_budget_detector" where
  "recordTool sessionID toolName sourceID maxOverride now d =
     (if sessionID = [] then (None, d)
      else
        let mx = (if maxOverride > 0 then maxOverride else tb_maxDefault d);
            ss = tb_session d sessionID;
            ss' = ss\<lparr>tb_toolCalls := tb_toolCalls ss + 1,
                     tb_toolsSinceProgress := tb_toolsSinceProgress ss + 1\<rparr>;
            d1 = d\<lparr>tb_sessions := gm_put sessionID ss' (tb_sessions d)\<rparr>;
            cnt = tb_toolsSinceProgress ss'
        in if cnt < mx then (None, d1)
           else
             let seq = tb_seq d + 1 in
             (Some \<lparr>ts_SignalID = signal_id ''sig-tb-'' sourceID seq, ts_SessionID = sessionID,
                    ts_DetectorName = DetectorNameToolBudgetChurn,
                    ts_FailureMode = FailureModeToolBudgetChurn, ts_Weight = 32 / 100, ts_Score = 1,
                    ts_Details = [(''tool_name'', toolName), (''tools_since_progress'', itoa cnt),
                      (''total_tool_calls'', itoa (tb_toolCalls ss')), (''max_tool_calls'', itoa mx),
                      (''progress_hits'', itoa (tb_progressHits ss')), (''source_id'', sourceID)],
                    ts_TriggeredAt = now\<rparr>,
              d1\<lparr>tb_seq := seq\<rparr>))"

definition extractToolName :: "event_codec \<Rightarrow> agent_event \<Rightarrow> string" where
  "extractToolName ec e =
     (let p = ae_Payload e;
          generic = (case ec_Object ec p of
                       None \<Rightarrow> []
                     | Some m \<Rightarrow> (case map_of m ''tool_name'' of
                                    Some (JStr n) \<Rightarrow> n
                                  | _ \<Rightarrow> (case map_of m ''name'' of Some (JStr n) \<Rightarrow> n | _ \<Rightarrow> [])))
      in if p = [] then []
         else case ec_ToolCall ec p of
           Some tc \<Rightarrow> if tc_ToolName tc \<noteq> [] then tc_ToolName tc else generic
         | None \<Rightarrow> generic)"

definition ObserveWithBudget ::
  "event_codec \<Rightarrow> agent_event \<Rightarrow> int \<Rightarrow> time \<Rightarrow> tool_budget_detector
   \<Rightarrow> tunnel_signal option \<times> tool_budget_detector" where
  "ObserveWithBudget ec e maxToolCalls now d =
     (if ae_SessionID e = [] then (None, d)
      else if ae_EventType e \<in> {''tool_call'', ''ToolCall''}
        then recordTool (ae_SessionID e) (extractToolName ec e) (ae_EventID e) maxToolCalls now d
      else if ae_EventType e \<in> {''file_change'', ''FileChange'', ''evidence'', ''criterion_met''}
        then (None, MarkProgress (ae_SessionID e) d)
      else (None, d))"

definition ToolCount :: "tool_budget_detector \<Rightarrow> string \<Rightarrow> int" where
  "ToolCount d s = (case gm_get (tb_sessions d) s of None \<Rightarrow> 0 | Some ss \<Rightarrow> tb_toolCalls ss)"

definition ToolsSinceProgress :: "tool_budget_detector \<Rightarrow> string \<Rightarrow> int" where
  "ToolsSinceProgress d s = (case gm_get (tb_sessions d) s of None \<Rightarrow> 0 | Some ss \<Rightarrow> tb_toolsSinceProgress ss)"

definition tb_ResetSession :: "string \<Rightarrow> tool_budget_detector \<Rightarrow> tool_budget_detector" where
  "tb_ResetSession sessionID d = d\<lparr>tb_sessions := gm_del sessionID (tb_sessions d)\<rparr>"

section \<open>Hypothesis loops\<close>

definition DefaultHypothesisLoopThreshold :: int where "DefaultHypothesisLoopThreshold = 3"

record hypothesis_session =
  hy_counts :: "int gomap"
  hy_seenEvidence :: "string list gomap"

record hypothesis_loop_detector =
  hl_threshold :: int
  hl_sessions :: "hypothesis_session gomap"
  hl_seq :: nat

definition NewHypothesisLoopDetector :: "int \<Rightarrow> hypothesis_loop_detector" where
  "NewHypothesisLoopDetector th =
     \<lparr>hl_threshold = (if th \<le> 0 then DefaultHypothesisLoopThreshold else th), hl_sessions = [], hl_seq = 0\<rparr>"

fun merge_evidence :: "string list \<Rightarrow> string list \<Rightarrow> bool \<Rightarrow> string list \<times> bool" where
  "merge_evidence seen [] isnew = (seen, isnew)"
| "merge_evidence seen (i # is) isnew =
     (let t = TrimSpace i in
      if t = [] \<or> t \<in> set seen then merge_evidence seen is isnew
      else merge_evidence (t # seen) is True)"

definition hl_session :: "hypothesis_loop_detector \<Rightarrow> string \<Rightarrow> hypothesis_session" where
  "hl_session d s =
     (case gm_get (hl_sessions d) s of None \<Rightarrow> \<lparr>hy_counts = [], hy_seenEvidence = []\<rparr> | Some ss \<Rightarrow> ss)"

definition seen_for :: "hypothesis_session \<Rightarrow> string \<Rightarrow> string list" where
  "seen_for ss fp = (case gm_get (hy_seenEvidence ss) fp of None \<Rightarrow> [] | Some l \<Rightarrow> l)"

definition hl_Observe ::
  "string \<Rightarrow> string \<Rightarrow> string list \<Rightarrow> time \<Rightarrow> hypothesis_loop_detector
   \<Rightarrow> tunnel_signal option \<times> hypothesis_loop_detector" where
  "hl_Observe sessionID hyp evidenceIDs now d =
     (let fp = NormalizeFingerprint hyp in
      if sessionID = [] \<or> fp = [] then (None, d)
      else
        let ss = hl_session d sessionID;
            (seen, newEvidence) = merge_evidence (seen_for ss fp) evidenceIDs False;
            cnt = (if newEvidence then 1 else zero_int (hy_counts ss) fp + 1);
            ss' = ss\<lparr>hy_seenEvidence := gm_put fp seen (hy_seenEvidence ss),
                     hy_counts := gm_put fp cnt (hy_counts ss)\<rparr>;
            d1 = d\<lparr>hl_sessions := gm_put sessionID ss' (hl_sessions d)\<rparr>
        in if newEvidence \<or> cnt < hl_threshold d then (None, d1)
           else
             let seq = hl_seq d + 1 in
             (Some \<lparr>ts_SignalID = ''sig-hl-'' @ dec seq, ts_SessionID = sessionID,
                    ts_DetectorName = DetectorNameHypothesisLoop,
                    ts_FailureMode = FailureModeHypothesisLoop, ts_Weight = 3 / 10, ts_Score = 1,
                    ts_Details = [(''fingerprint'', fp), (''count'', itoa cnt),
                      (''threshold'', itoa (hl_threshold d)), (''evidence_seen'', dec (length seen))],
                    ts_TriggeredAt = now\<rparr>,
              d1\<lparr>hl_seq := seq\<rparr>))"

definition hl_Count :: "hypothesis_loop_detector \<Rightarrow> string \<Rightarrow> string \<Rightarrow> int" where
  "hl_Count d sessionID hyp =
     (case gm_get (hl_sessions d) sessionID of
        None \<Rightarrow> 0
      | Some ss \<Rightarrow> zero_int (hy_counts ss) (NormalizeFingerprint hyp))"

definition hl_ResetSession :: "string \<Rightarrow> hypothesis_loop_detector \<Rightarrow> hypothesis_loop_detector" where
  "hl_ResetSession sessionID d = d\<lparr>hl_sessions := gm_del sessionID (hl_sessions d)\<rparr>"

section \<open>Redundant validation\<close>

record validation_attempt =
  va_Command :: string
  va_TargetScope :: "string list"
  va_WorkspaceRev :: string
  va_ContractRevision :: int
  va_Purpose :: string
  va_Succeeded :: bool
  va_FlakyInvestigation :: bool
  va_PolicyRequiresRerun :: bool
  va_HighRiskIndependent :: bool
  va_WorkspaceChanged :: bool

record verification_churn_detector =
  vc_sessions :: "string list gomap"
  vc_seq :: nat

definition NewVerificationChurnDetector :: verification_churn_detector where
  "NewVerificationChurnDetector = \<lparr>vc_sessions = [], vc_seq = 0\<rparr>"

definition normalizeScope :: "string list \<Rightarrow> string" where
  "normalizeScope scope = Join (filter (\<lambda>s. s \<noteq> []) (map NormalizeFingerprint scope)) '',''"

definition ValidationFingerprint :: "validation_attempt \<Rightarrow> string" where
  "ValidationFingerprint a =
     ''cmd='' @ NormalizeFingerprint (va_Command a) @ ''|scope='' @ normalizeScope (va_TargetScope a)
     @ ''|ws='' @ TrimSpace (va_WorkspaceRev a) @ ''|crev='' @ itoa (va_ContractRevision a)
     @ ''|purpose='' @ NormalizeFingerprint (va_Purpose a)"

definition vc_marks :: "verification_churn_detector \<Rightarrow> string \<Rightarrow> string list" where
  "vc_marks d s = (case gm_get (vc_sessions d) s of None \<Rightarrow> [] | Some l \<Rightarrow> l)"

definition recordSuccessIfNeeded ::
  "string \<Rightarrow> string \<Rightarrow> validation_attempt \<Rightarrow> verification_churn_detector \<Rightarrow> verification_churn_detector" where
  "recordSuccessIfNeeded sessionID fp a d =
     (if \<not> va_Succeeded a then d
      else let marks = (if va_WorkspaceChanged a then [] else vc_marks d sessionID) in
        d\<lparr>vc_sessions := gm_put sessionID (List.insert fp marks) (vc_sessions d)\<rparr>)"

definition vc_exempt :: "validation_attempt \<Rightarrow> bool" where
  "vc_exempt a \<longleftrightarrow> va_FlakyInvestigation a \<or> va_PolicyRequiresRerun a \<or> va_HighRiskIndependent a
     \<or> va_WorkspaceChanged a"

definition vc_Observe ::
  "string \<Rightarrow> validation_attempt \<Rightarrow> time \<Rightarrow> verification_churn_detector
   \<Rightarrow> tunnel_signal option \<times> verification_churn_detector" where
  "vc_Observe sessionID a now d =
     (let fp = ValidationFingerprint a in
      if sessionID = [] then (None, d)
      else if (HasPrefix fp ''cmd=|'' \<or> va_Command a = []) \<and> NormalizeFingerprint (va_Command a) = [] then (None, d)
      else if vc_exempt a then (None, recordSuccessIfNeeded sessionID fp a d)
      else
        let marks = vc_marks d sessionID in
        if va_Succeeded a \<and> fp \<in> set marks then
          let seq = vc_seq d + 1 in
          (Some \<lparr>ts_SignalID = ''sig-vc-'' @ dec seq, ts_SessionID = sessionID,
                 ts_DetectorName = DetectorNameVerificationChurn,
                 ts_FailureMode = FailureModeVerificationChurn, ts_Weight = 3 / 10, ts_Score = 1,
                 ts_Details = [(''fingerprint'', fp), (''command'', NormalizeFingerprint (va_Command a)),
                   (''workspace_rev'', TrimSpace (va_WorkspaceRev a)),
                   (''contract_revision'', itoa (va_ContractRevision a)),
                   (''purpose'', NormalizeFingerprint (va_Purpose a))],
                 ts_TriggeredAt = now\<rparr>,
           d\<lparr>vc_sessions := gm_put sessionID marks (vc_sessions d), vc_seq := seq\<rparr>)
        else
          (None, d\<lparr>vc_sessions := gm_put sessionID (if va_Succeeded a then List.insert fp marks else marks)
                     (vc_sessions d)\<rparr>))"

definition vc_ResetSession :: "string \<Rightarrow> verification_churn_detector \<Rightarrow> verification_churn_detector" where
  "vc_ResetSession sessionID d = d\<lparr>vc_sessions := gm_del sessionID (vc_sessions d)\<rparr>"

section \<open>Bookkeeping as a tracked value\<close>

text \<open>
  A component keeps a configuration fixed and, per key, an observable value that every operation
  changes by a step of its own. After any history the value is the fold of those steps.
\<close>

locale tracked_value =
  fixes start :: 's and step :: "'op \<Rightarrow> 's \<Rightarrow> 's" and conf :: "'s \<Rightarrow> 'c"
    and read :: "'s \<Rightarrow> 'k \<Rightarrow> 'v" and origin :: 'v and spec :: "'op \<Rightarrow> 'k \<Rightarrow> 'v \<Rightarrow> 'v"
  assumes read_start: "read start k = origin"
    and read_step: "read (step op s) k = spec op k (read s k)"
    and conf_step: "conf (step op s) = conf s"
begin

lemma read_run: "read (fold step ops s) k = fold (\<lambda>op. spec op k) ops (read s k)"
  by (induction ops arbitrary: s) (simp_all add: read_step)

lemma read_history: "read (fold step ops start) k = fold (\<lambda>op. spec op k) ops origin"
  by (simp add: read_run read_start)

lemma conf_run: "conf (fold step ops s) = conf s"
  by (induction ops arbitrary: s) (simp_all add: conf_step)

lemma read_append:
  "read (fold step (ops @ [op]) start) k = spec op k (read (fold step ops start) k)"
  by (simp add: read_step)

end

subsection \<open>Repeated failures\<close>

datatype rf_op = RfFail string string string time | RfReset string

fun rf_step :: "rf_op \<Rightarrow> repeated_failure_detector \<Rightarrow> repeated_failure_detector" where
  "rf_step (RfFail s raw src now) d = snd (ObserveRaw s raw src now d)"
| "rf_step (RfReset s) d = rf_ResetSession s d"

definition rf_seen :: "repeated_failure_detector \<Rightarrow> string \<times> string \<Rightarrow> int" where
  "rf_seen d k =
     (case gm_get (rf_sessions d) (fst k) of None \<Rightarrow> 0 | Some ss \<Rightarrow> zero_int (sf_counts ss) (snd k))"

fun rf_spec :: "rf_op \<Rightarrow> string \<times> string \<Rightarrow> int \<Rightarrow> int" where
  "rf_spec (RfFail s raw src now) (s', fp) n =
     (if s = s' \<and> NormalizeFingerprint raw = fp \<and> s \<noteq> [] \<and> fp \<noteq> [] then n + 1 else n)"
| "rf_spec (RfReset s) (s', fp) n = (if s = s' then 0 else n)"

definition failure_count :: "rf_op list \<Rightarrow> string \<Rightarrow> string \<Rightarrow> int" where
  "failure_count ops s fp = fold (\<lambda>op. rf_spec op (s, fp)) ops 0"

lemma zero_int_put [simp]: "zero_int (gm_put k v m) k' = (if k' = k then v else zero_int m k')"
  by (simp add: zero_int_def)

lemma rf_step_seen: "rf_seen (rf_step op d) k = rf_spec op k (rf_seen d k)"
  by (cases op; cases k)
    (auto simp: rf_seen_def ObserveRaw_def rf_ResetSession_def record_failure_def fresh_fingerprints_def
      Let_def zero_int_def split: option.splits)

interpretation failures: tracked_value "NewRepeatedFailureDetector th" rf_step rf_threshold rf_seen 0 rf_spec
  for th
proof unfold_locales
  fix op :: rf_op and d :: repeated_failure_detector
  show "rf_threshold (rf_step op d) = rf_threshold d"
    by (cases op) (simp_all add: ObserveRaw_def rf_ResetSession_def Let_def)
qed (simp_all add: rf_step_seen, simp add: rf_seen_def NewRepeatedFailureDetector_def)

text \<open>
  C26. The repeated-failure detector counts exactly. After any history of failures and resets, the
  next failure fires a signal exactly when it names a session, its normalised text is not empty, and
  the number of failures with that text in that session since its last reset, this one included, is
  at least the threshold: so at the threshold-th failure and at every later one, until a reset. Other
  sessions and other texts never matter. The signal names the session and carries fingerprint and count.
\<close>

theorem repeated_failure_fires_exactly:
  "case fst (ObserveRaw s raw src now (fold rf_step ops (NewRepeatedFailureDetector th))) of
     None \<Rightarrow> s = [] \<or> NormalizeFingerprint raw = []
         \<or> failure_count ops s (NormalizeFingerprint raw) + 1 < (if th \<le> 0 then DefaultThreshold else th)
   | Some sig \<Rightarrow> s \<noteq> [] \<and> NormalizeFingerprint raw \<noteq> []
         \<and> failure_count ops s (NormalizeFingerprint raw) + 1 \<ge> (if th \<le> 0 then DefaultThreshold else th)
         \<and> ts_SessionID sig = s \<and> ts_FailureMode sig = FailureModeRepeatedErrorLoop
         \<and> gm_get (ts_Details sig) ''fingerprint'' = Some (NormalizeFingerprint raw)
         \<and> gm_get (ts_Details sig) ''count'' = Some (itoa (failure_count ops s (NormalizeFingerprint raw) + 1))"
proof -
  let ?d = "fold rf_step ops (NewRepeatedFailureDetector th)" and ?fp = "NormalizeFingerprint raw"
  let ?ss = "case gm_get (rf_sessions ?d) s of None \<Rightarrow> fresh_fingerprints | Some ss \<Rightarrow> ss"
  have "rf_threshold ?d = (if th \<le> 0 then DefaultThreshold else th)"
    by (simp add: failures.conf_run NewRepeatedFailureDetector_def)
  moreover have "zero_int (sf_counts (record_failure ?fp now ?ss)) ?fp = failure_count ops s ?fp + 1"
    using failures.read_history [of ops th "(s, ?fp)"]
    by (auto simp: failure_count_def rf_seen_def record_failure_def fresh_fingerprints_def zero_int_def
        split: option.splits)
  ultimately show ?thesis by (simp add: ObserveRaw_def Let_def)
qed

subsection \<open>Tool budget\<close>

datatype tb_op = TbTool string string string int time | TbProgress string | TbReset string

fun tb_step :: "tb_op \<Rightarrow> tool_budget_detector \<Rightarrow> tool_budget_detector" where
  "tb_step (TbTool s tool src mx now) d = snd (recordTool s tool src mx now d)"
| "tb_step (TbProgress s) d = MarkProgress s d"
| "tb_step (TbReset s) d = tb_ResetSession s d"

fun tb_spec :: "tb_op \<Rightarrow> string \<Rightarrow> int \<Rightarrow> int" where
  "tb_spec (TbTool s tool src mx now) s' n = (if s = s' \<and> s \<noteq> [] then n + 1 else n)"
| "tb_spec (TbProgress s) s' n = (if s = s' \<and> s \<noteq> [] then 0 else n)"
| "tb_spec (TbReset s) s' n = (if s = s' then 0 else n)"

definition tools_without_progress :: "tb_op list \<Rightarrow> string \<Rightarrow> int" where
  "tools_without_progress ops s = fold (\<lambda>op. tb_spec op s) ops 0"

interpretation budget: tracked_value "NewToolBudgetChurnDetector mx" tb_step tb_maxDefault ToolsSinceProgress 0 tb_spec
  for mx
proof unfold_locales
  fix op :: tb_op and d :: tool_budget_detector and k :: string
  show "ToolsSinceProgress (tb_step op d) k = tb_spec op k (ToolsSinceProgress d k)"
    by (cases op) (auto simp: ToolsSinceProgress_def recordTool_def MarkProgress_def tb_ResetSession_def
        tb_session_def Let_def split: option.splits)
  show "tb_maxDefault (tb_step op d) = tb_maxDefault d"
    by (cases op) (simp_all add: recordTool_def MarkProgress_def tb_ResetSession_def Let_def)
qed (simp add: ToolsSinceProgress_def NewToolBudgetChurnDetector_def)

text \<open>
  The tool budget is exact. After any history, a tool call fires a signal exactly when the
  calls of its session since the last progress or reset, this one included, reach the budget
  (the override when it is positive, the configured default otherwise).
\<close>

theorem tool_budget_fires_exactly:
  "case fst (recordTool s tool src over now (fold tb_step ops (NewToolBudgetChurnDetector mx))) of
     None \<Rightarrow> s = [] \<or> tools_without_progress ops s + 1
         < (if over > 0 then over else if mx \<le> 0 then DefaultMaxToolCalls else mx)
   | Some sig \<Rightarrow> s \<noteq> [] \<and> ts_SessionID sig = s \<and> tools_without_progress ops s + 1
         \<ge> (if over > 0 then over else if mx \<le> 0 then DefaultMaxToolCalls else mx)
         \<and> gm_get (ts_Details sig) ''tools_since_progress'' = Some (itoa (tools_without_progress ops s + 1))"
proof -
  let ?d = "fold tb_step ops (NewToolBudgetChurnDetector mx)"
  have "tb_maxDefault ?d = (if mx \<le> 0 then DefaultMaxToolCalls else mx)"
    by (simp add: budget.conf_run NewToolBudgetChurnDetector_def)
  moreover have "tb_toolsSinceProgress (tb_session ?d s) = tools_without_progress ops s"
    using budget.read_history [of ops mx s]
    by (auto simp: ToolsSinceProgress_def tools_without_progress_def tb_session_def split: option.splits)
  ultimately show ?thesis by (simp add: recordTool_def Let_def)
qed

subsection \<open>Hypothesis loops\<close>

datatype hl_op = HlObserve string string "string list" time | HlReset string

fun hl_step :: "hl_op \<Rightarrow> hypothesis_loop_detector \<Rightarrow> hypothesis_loop_detector" where
  "hl_step (HlObserve s hyp ev now) d = snd (hl_Observe s hyp ev now d)"
| "hl_step (HlReset s) d = hl_ResetSession s d"

definition hl_seen :: "hypothesis_loop_detector \<Rightarrow> string \<times> string \<Rightarrow> int \<times> string set" where
  "hl_seen d k =
     (case gm_get (hl_sessions d) (fst k) of
        None \<Rightarrow> (0, {})
      | Some ss \<Rightarrow> (zero_int (hy_counts ss) (snd k), set (seen_for ss (snd k))))"

definition evidence_of :: "string list \<Rightarrow> string set" where
  "evidence_of ev = TrimSpace ` set ev - {[]}"

fun hl_spec :: "hl_op \<Rightarrow> string \<times> string \<Rightarrow> int \<times> string set \<Rightarrow> int \<times> string set" where
  "hl_spec (HlObserve s hyp ev now) (s', fp) (n, E) =
     (if s = s' \<and> NormalizeFingerprint hyp = fp \<and> s \<noteq> [] \<and> fp \<noteq> []
      then if evidence_of ev \<subseteq> E then (n + 1, E) else (1, E \<union> evidence_of ev)
      else (n, E))"
| "hl_spec (HlReset s) (s', fp) (n, E) = (if s = s' then (0, {}) else (n, E))"

definition hypothesis_history :: "hl_op list \<Rightarrow> string \<Rightarrow> string \<Rightarrow> int \<times> string set" where
  "hypothesis_history ops s fp = fold (\<lambda>op. hl_spec op (s, fp)) ops (0, {})"

lemma merge_evidence_set: "set (fst (merge_evidence seen ev b)) = set seen \<union> evidence_of ev"
  by (induction seen ev b rule: merge_evidence.induct) (auto simp: evidence_of_def Let_def)

lemma merge_evidence_new: "snd (merge_evidence seen ev b) \<longleftrightarrow> b \<or> \<not> evidence_of ev \<subseteq> set seen"
  by (induction seen ev b rule: merge_evidence.induct) (auto simp: evidence_of_def Let_def)

lemma hl_seen_session:
  "hl_seen d (s, fp) = (zero_int (hy_counts (hl_session d s)) fp, set (seen_for (hl_session d s) fp))"
  by (simp add: hl_seen_def hl_session_def seen_for_def zero_int_def split: option.split)

lemma seen_for_put:
  "seen_for (ss\<lparr>hy_seenEvidence := gm_put k l m, hy_counts := c\<rparr>) k'
   = (if k' = k then l else seen_for (ss\<lparr>hy_seenEvidence := m\<rparr>) k')"
  by (simp add: seen_for_def)

lemma hl_Observe_session:
  assumes "s \<noteq> []" "NormalizeFingerprint hyp \<noteq> []"
  shows "hl_session (snd (hl_Observe s hyp ev now d)) s' =
    (if s' = s then
       let ss = hl_session d s; fp = NormalizeFingerprint hyp;
           m = merge_evidence (seen_for ss fp) ev False
       in ss\<lparr>hy_seenEvidence := gm_put fp (fst m) (hy_seenEvidence ss),
             hy_counts := gm_put fp (if snd m then 1 else zero_int (hy_counts ss) fp + 1) (hy_counts ss)\<rparr>
     else hl_session d s')"
  using assms by (simp add: hl_Observe_def Let_def hl_session_def split: prod.split)

lemma hl_step_seen: "hl_seen (hl_step op d) k = hl_spec op k (hl_seen d k)"
proof (cases op)
  case (HlObserve s hyp ev now)
  obtain s' fp where k: "k = (s', fp)" by (cases k)
  show ?thesis
  proof (cases "s = [] \<or> NormalizeFingerprint hyp = []")
    case True
    then show ?thesis by (auto simp: HlObserve k hl_Observe_def Let_def hl_seen_session)
  next
    case False
    then show ?thesis
      by (auto simp: HlObserve k hl_seen_session hl_Observe_session Let_def merge_evidence_set
          merge_evidence_new seen_for_put seen_for_def)
  qed
next
  case (HlReset s)
  then show ?thesis by (cases k) (auto simp: hl_seen_def hl_ResetSession_def split: option.splits)
qed

interpretation hypotheses: tracked_value "NewHypothesisLoopDetector th" hl_step hl_threshold hl_seen "(0, {})" hl_spec
  for th
proof unfold_locales
  fix op :: hl_op and d :: hypothesis_loop_detector
  show "hl_threshold (hl_step op d) = hl_threshold d"
    by (cases op) (simp_all add: hl_Observe_def hl_ResetSession_def Let_def split: prod.split)
qed (simp_all add: hl_step_seen, simp add: hl_seen_def NewHypothesisLoopDetector_def)


subsection \<open>Redundant validation\<close>

datatype vc_op = VcObserve string validation_attempt time | VcReset string

fun vc_step :: "vc_op \<Rightarrow> verification_churn_detector \<Rightarrow> verification_churn_detector" where
  "vc_step (VcObserve s a now) d = snd (vc_Observe s a now d)"
| "vc_step (VcReset s) d = vc_ResetSession s d"

fun vc_spec :: "vc_op \<Rightarrow> string \<Rightarrow> string set \<Rightarrow> string set" where
  "vc_spec (VcObserve s a now) s' M =
     (if s = s' \<and> s \<noteq> [] \<and> NormalizeFingerprint (va_Command a) \<noteq> [] \<and> va_Succeeded a
      then insert (ValidationFingerprint a) (if va_WorkspaceChanged a then {} else M)
      else M)"
| "vc_spec (VcReset s) s' M = (if s = s' then {} else M)"

definition proven_validations :: "vc_op list \<Rightarrow> string \<Rightarrow> string set" where
  "proven_validations ops s = fold (\<lambda>op. vc_spec op s) ops {}"

lemma vc_empty_command:
  "(HasPrefix (ValidationFingerprint a) ''cmd=|'' \<or> va_Command a = []) \<and> NormalizeFingerprint (va_Command a) = []
   \<longleftrightarrow> NormalizeFingerprint (va_Command a) = []"
  by (auto simp: HasPrefix_def ValidationFingerprint_def)

lemma vc_marks_put [simp]:
  "vc_marks (d\<lparr>vc_sessions := gm_put s l m\<rparr>) s' = (if s' = s then l else vc_marks (d\<lparr>vc_sessions := m\<rparr>) s')"
  "vc_marks (d\<lparr>vc_sessions := m, vc_seq := n\<rparr>) s' = vc_marks (d\<lparr>vc_sessions := m\<rparr>) s'"
  by (simp_all add: vc_marks_def)

lemma vc_step_marks: "set (vc_marks (vc_step op d) s) = vc_spec op s (set (vc_marks d s))"
proof (cases op)
  case (VcObserve s' a now)
  then show ?thesis
    by (auto simp: vc_Observe_def vc_empty_command vc_exempt_def recordSuccessIfNeeded_def Let_def)
next
  case (VcReset s')
  then show ?thesis by (auto simp: vc_marks_def vc_ResetSession_def)
qed

interpretation validations: tracked_value NewVerificationChurnDetector vc_step "\<lambda>_. ()"
  "\<lambda>d s. set (vc_marks d s)" "{}" vc_spec
  by unfold_locales (simp_all add: vc_step_marks, simp add: vc_marks_def NewVerificationChurnDetector_def)

text \<open>
  Re-validation is flagged exactly when it is redundant. After any history, an attempt fires
  exactly when it is not exempt, it succeeded, and the same validation (command, scope, workspace
  revision, contract revision and purpose) has already succeeded in the session since its last
  reset or successful attempt on a changed workspace.
\<close>

theorem verification_churn_fires_exactly:
  "(fst (vc_Observe s a now (fold vc_step ops NewVerificationChurnDetector)) \<noteq> None) =
   (s \<noteq> [] \<and> NormalizeFingerprint (va_Command a) \<noteq> [] \<and> va_Succeeded a \<and> \<not> vc_exempt a
    \<and> ValidationFingerprint a \<in> proven_validations ops s)"
  using validations.read_history [of ops s]
  by (auto simp: vc_Observe_def vc_empty_command proven_validations_def Let_def)

end
