(* ===== verification/HookGate.thy ===== *)
theory HookGate
  imports GoGlob ProposedAction ProtocolTypes Detectors
begin

text \<open>
  The synchronous gate in front of a tool call: \<open>pkg/adapter/hook_gate.go\<close> and
  \<open>pkg/policy/before_tool.go\<close>. The rules are one function; the goroutine, the wait barrier and the
  deadline around them are the record \<open>hook_race\<close>, which says how the run was scheduled, and every
  theorem holds for all schedules. Whitelisted directories confine paths lexically (C30), and the
  gate lets a tool pass exactly when no rule stands against it (C31).
\<close>

section \<open>Decisions, requests, policies\<close>

abbreviation HookActionAllow :: string where "HookActionAllow \<equiv> ''allow''"
abbreviation HookActionDeny :: string where "HookActionDeny \<equiv> ''deny''"
abbreviation HookActionDefer :: string where "HookActionDefer \<equiv> ''defer''"

abbreviation ReasonAllow :: string where "ReasonAllow \<equiv> ''allow''"
abbreviation ReasonDeniedTool :: string where "ReasonDeniedTool \<equiv> ''denied_tool''"
abbreviation ReasonDeniedPathScope :: string where "ReasonDeniedPathScope \<equiv> ''denied_path_scope''"
abbreviation ReasonDeniedBudget :: string where "ReasonDeniedBudget \<equiv> ''denied_budget_exhausted''"
abbreviation ReasonDeniedHardLatch :: string where "ReasonDeniedHardLatch \<equiv> ''denied_hard_latch''"
abbreviation ReasonDeferPendingAdvisory :: string where "ReasonDeferPendingAdvisory \<equiv> ''defer_pending_advisory''"
abbreviation ReasonTimeoutFailOpen :: string where "ReasonTimeoutFailOpen \<equiv> ''timeout_fail_open''"
abbreviation ReasonTimeoutFailClosed :: string where "ReasonTimeoutFailClosed \<equiv> ''timeout_fail_closed''"
abbreviation ReasonRedundantValidation :: string where "ReasonRedundantValidation \<equiv> ''redundant_validation''"
abbreviation ReasonDisproportionateScope :: string where "ReasonDisproportionateScope \<equiv> ''disproportionate_scope''"

record hook_decision =
  hd_Action :: string
  hd_ReasonCode :: string
  hd_InterventionID :: string
  hd_Deadline :: "time option"

record justification_input =
  ji_ConcreteValue :: string
  ji_PreventedFailureOrThreat :: string
  ji_EstimatedCost :: string
  ji_AlternativesConsidered :: string
  ji_ScopeLimit :: string
  ji_VerificationPlan :: string
  ji_RollbackPlan :: string
  ji_SupportingEvidenceEventIDs :: "string list"
  ji_RawText :: string

record hook_request =
  hq_SessionID :: string
  hq_Phase :: string
  hq_ToolName :: string
  hq_FilePath :: string
  hq_Proposed :: "proposed_action option"
  hq_ChallengeID :: string
  hq_ChallengeNonce :: string
  hq_Justification :: "justification_input option"

record hook_policy =
  hp_Timeout :: int
  hp_FailOpen :: bool
  hp_DeniedTools :: "unit gomap"
  hp_ToolDenyReasons :: "string gomap"
  hp_ScopeWhitelist :: "string list"
  hp_BudgetExhausted :: bool
  hp_HardDenyInterventionID :: string
  hp_PendingAdvisoryInterventionID :: string
  hp_DeferDeadline :: "time option"
  hp_Wait :: bool

text \<open>
  How one call was scheduled: whether the wait barrier gave way to the deadline, whether the
  deadline had passed when the barrier opened, whether the caller saw the deadline first, and
  whether a result was ready then.
\<close>

record hook_race =
  ra_waitTimedOut :: bool
  ra_expiredAfterWait :: bool
  ra_callerTimedOut :: bool
  ra_resultReady :: bool

section \<open>The gate\<close>

definition decision :: "string \<Rightarrow> string \<Rightarrow> hook_decision" where
  "decision act reason = \<lparr>hd_Action = act, hd_ReasonCode = reason, hd_InterventionID = [], hd_Deadline = None\<rparr>"

definition timeoutDecision :: "hook_policy \<Rightarrow> hook_decision" where
  "timeoutDecision pol =
     (if hp_FailOpen pol then decision HookActionAllow ReasonTimeoutFailOpen
      else decision HookActionDeny ReasonTimeoutFailClosed)"

definition scope_entry :: "string \<Rightarrow> string \<Rightarrow> bool" where
  "scope_entry clean entry \<longleftrightarrow>
     entry \<noteq> [] \<and>
     (let e = path_Clean entry in
        clean = e \<or> HasPrefix clean (TrimRight e ''/'' @ ''/'') \<or> filepath_Match entry clean = Some True)"

definition pathInScope :: "string \<Rightarrow> string list \<Rightarrow> bool" where
  "pathInScope filePath whitelist \<longleftrightarrow> filePath \<noteq> [] \<and> list_ex (scope_entry (path_Clean filePath)) whitelist"

definition deny_reason :: "hook_request \<Rightarrow> hook_policy \<Rightarrow> string" where
  "deny_reason req pol =
     (if hq_ToolName req = [] then []
      else case gm_get (hp_ToolDenyReasons pol) (hq_ToolName req) of None \<Rightarrow> [] | Some r \<Rightarrow> r)"

definition evaluateHookRules :: "hook_request \<Rightarrow> hook_policy \<Rightarrow> hook_decision" where
  "evaluateHookRules req pol =
     (if hp_HardDenyInterventionID pol \<noteq> [] then
        (decision HookActionDeny ReasonDeniedHardLatch)\<lparr>hd_InterventionID := hp_HardDenyInterventionID pol\<rparr>
      else if hp_BudgetExhausted pol then decision HookActionDeny ReasonDeniedBudget
      else if deny_reason req pol \<noteq> [] then decision HookActionDeny (deny_reason req pol)
      else if hp_DeniedTools pol \<noteq> [] \<and> hq_ToolName req \<noteq> []
          \<and> gm_get (hp_DeniedTools pol) (hq_ToolName req) \<noteq> None then decision HookActionDeny ReasonDeniedTool
      else if hp_ScopeWhitelist pol \<noteq> [] \<and> \<not> pathInScope (hq_FilePath req) (hp_ScopeWhitelist pol)
        then decision HookActionDeny ReasonDeniedPathScope
      else if hp_PendingAdvisoryInterventionID pol \<noteq> [] then
        \<lparr>hd_Action = HookActionDefer, hd_ReasonCode = ReasonDeferPendingAdvisory,
         hd_InterventionID = hp_PendingAdvisoryInterventionID pol, hd_Deadline = hp_DeferDeadline pol\<rparr>
      else decision HookActionAllow ReasonAllow)"

definition EvaluateHook :: "bool \<Rightarrow> hook_race \<Rightarrow> hook_request \<Rightarrow> hook_policy \<Rightarrow> hook_decision" where
  "EvaluateHook ctxDone race req pol =
     (if ctxDone then timeoutDecision pol
      else
        let worker = (if hp_Wait pol \<and> ra_waitTimedOut race then timeoutDecision pol
                      else if ra_expiredAfterWait race then timeoutDecision pol
                      else evaluateHookRules req pol)
        in if ra_callerTimedOut race \<and> \<not> ra_resultReady race then timeoutDecision pol else worker)"

section \<open>Before-tool adjudication\<close>

record before_tool_input =
  bt_Request :: hook_request
  bt_BasePolicy :: hook_policy
  bt_Contract :: "task_contract option"
  bt_Ledger :: "evidence_ledger option"
  bt_ChurnSignal :: "tunnel_signal option"

definition isFullSuiteTool :: "string \<Rightarrow> bool" where
  "isFullSuiteTool toolName =
     (let n = ToLower (TrimSpace toolName) in
      n \<noteq> [] \<and> (Contains n ''./...'' \<or> Contains n ''go test'' \<and> Contains n ''-race'' \<and> Contains n ''./''))"

definition isFullSuiteRequest :: "hook_request \<Rightarrow> bool" where
  "isFullSuiteRequest req =
     (case hq_Proposed req of Some a \<Rightarrow> FullSuiteCommand a | None \<Rightarrow> isFullSuiteTool (hq_ToolName req))"

definition criterion_met :: "evidence_ledger \<Rightarrow> criterion \<Rightarrow> bool" where
  "criterion_met led cr =
     (case gm_get (el_CriteriaStatus led) (cr_ID cr) of None \<Rightarrow> False | Some st \<Rightarrow> cs_Status st = ''met'')"

definition criteriaAllMet :: "task_contract \<Rightarrow> evidence_ledger option \<Rightarrow> bool" where
  "criteriaAllMet c led =
     (case led of
        None \<Rightarrow> False
      | Some l \<Rightarrow> co_SuccessCriteria c \<noteq> [] \<and> list_all (criterion_met l) (co_SuccessCriteria c))"

definition shouldDenyDisproportionate ::
  "task_contract option \<Rightarrow> evidence_ledger option \<Rightarrow> hook_request \<Rightarrow> bool" where
  "shouldDenyDisproportionate contract led req =
     (case contract of
        None \<Rightarrow> False
      | Some c \<Rightarrow>
          isFullSuiteRequest req
          \<and> (co_Complexity c = ComplexityTrivial \<or> co_Complexity c = ComplexitySimple)
          \<and> co_Risk c = RiskLow \<and> criteriaAllMet c led)"

definition before_tool_policy :: "before_tool_input \<Rightarrow> hook_policy" where
  "before_tool_policy inp =
     (let pol = bt_BasePolicy inp; req = bt_Request inp; tool = hq_ToolName req;
          churn = (case bt_ChurnSignal inp of
                     None \<Rightarrow> False | Some sig \<Rightarrow> ts_FailureMode sig = FailureModeVerificationChurn)
      in if tool = [] then pol
         else if churn then
           pol\<lparr>hp_ToolDenyReasons := gm_put tool ReasonRedundantValidation (hp_ToolDenyReasons pol)\<rparr>
         else if shouldDenyDisproportionate (bt_Contract inp) (bt_Ledger inp) req then
           pol\<lparr>hp_ToolDenyReasons := gm_put tool ReasonDisproportionateScope (hp_ToolDenyReasons pol)\<rparr>
         else pol)"

definition EvaluateBeforeTool :: "bool \<Rightarrow> hook_race \<Rightarrow> before_tool_input \<Rightarrow> hook_decision" where
  "EvaluateBeforeTool ctxDone race inp = EvaluateHook ctxDone race (bt_Request inp) (before_tool_policy inp)"

section \<open>Confinement to whitelisted directories\<close>

lemma scope_entry_segs:
  assumes "HasPrefix e ''/''" "glob_plain e" "scope_entry (path_Clean p) e"
  shows "HasPrefix p ''/'' \<and> (\<exists>rest. path_segs p = path_segs e @ rest)"
proof -
  from assms(3) consider "path_Clean p = path_Clean e"
    | "HasPrefix (path_Clean p) (TrimRight (path_Clean e) ''/'' @ ''/'')" | "path_Clean p = e"
    by (auto simp: scope_entry_def filepath_Match_plain [OF assms(2)] Let_def)
  then show ?thesis
  proof cases
    case 2
    then show ?thesis by (rule path_below_segs [OF assms(1)])
  qed (use assms(1) path_Clean_rooted [of p] path_Clean_rooted [of e] path_segs_clean [of p] path_segs_clean [of e] in auto)
qed

lemma in_scope_confined:
  assumes "\<forall>e \<in> set whitelist. HasPrefix e ''/'' \<and> glob_plain e" and "pathInScope p whitelist"
  shows "HasPrefix p ''/'' \<and> ''..'' \<notin> set (path_segs p)
    \<and> (\<exists>e \<in> set whitelist. \<exists>rest. path_segs p = path_segs e @ rest)"
proof -
  from assms(2) obtain e where e: "e \<in> set whitelist" "scope_entry (path_Clean p) e"
    by (auto simp: pathInScope_def list_ex_iff)
  with assms(1) scope_entry_segs [of e p] show ?thesis by (auto simp: path_segs_rooted)
qed

section \<open>What the gate decides\<close>

definition hook_interrupted :: "bool \<Rightarrow> hook_race \<Rightarrow> hook_policy \<Rightarrow> bool" where
  "hook_interrupted ctxDone race pol \<longleftrightarrow>
     ctxDone \<or> ra_callerTimedOut race \<and> \<not> ra_resultReady race \<or> hp_Wait pol \<and> ra_waitTimedOut race
     \<or> ra_expiredAfterWait race"

lemma EvaluateHook_cases:
  "EvaluateHook ctxDone race req pol =
     (if hook_interrupted ctxDone race pol then timeoutDecision pol else evaluateHookRules req pol)"
  by (auto simp: EvaluateHook_def hook_interrupted_def Let_def)

lemma rules_allow:
  "hd_Action (evaluateHookRules req pol) = HookActionAllow \<longleftrightarrow>
     hp_HardDenyInterventionID pol = [] \<and> \<not> hp_BudgetExhausted pol \<and> deny_reason req pol = []
     \<and> (hq_ToolName req = [] \<or> gm_get (hp_DeniedTools pol) (hq_ToolName req) = None)
     \<and> (hp_ScopeWhitelist pol = [] \<or> pathInScope (hq_FilePath req) (hp_ScopeWhitelist pol))
     \<and> hp_PendingAdvisoryInterventionID pol = []"
  by (auto simp: evaluateHookRules_def decision_def)

lemma before_tool_policy_fields [simp]:
  "hp_FailOpen (before_tool_policy inp) = hp_FailOpen (bt_BasePolicy inp)"
  "hp_Wait (before_tool_policy inp) = hp_Wait (bt_BasePolicy inp)"
  "hp_DeniedTools (before_tool_policy inp) = hp_DeniedTools (bt_BasePolicy inp)"
  "hp_ScopeWhitelist (before_tool_policy inp) = hp_ScopeWhitelist (bt_BasePolicy inp)"
  "hp_BudgetExhausted (before_tool_policy inp) = hp_BudgetExhausted (bt_BasePolicy inp)"
  "hp_HardDenyInterventionID (before_tool_policy inp) = hp_HardDenyInterventionID (bt_BasePolicy inp)"
  "hp_PendingAdvisoryInterventionID (before_tool_policy inp) = hp_PendingAdvisoryInterventionID (bt_BasePolicy inp)"
  by (simp_all add: before_tool_policy_def Let_def)

definition churn_denied :: "before_tool_input \<Rightarrow> bool" where
  "churn_denied inp \<longleftrightarrow> hq_ToolName (bt_Request inp) \<noteq> []
     \<and> (\<exists>sig. bt_ChurnSignal inp = Some sig \<and> ts_FailureMode sig = FailureModeVerificationChurn)"

definition suite_denied :: "before_tool_input \<Rightarrow> bool" where
  "suite_denied inp \<longleftrightarrow> hq_ToolName (bt_Request inp) \<noteq> []
     \<and> shouldDenyDisproportionate (bt_Contract inp) (bt_Ledger inp) (bt_Request inp)"

lemma before_tool_deny_reason:
  "deny_reason (bt_Request inp) (before_tool_policy inp) =
     (if churn_denied inp then ReasonRedundantValidation
      else if suite_denied inp then ReasonDisproportionateScope
      else deny_reason (bt_Request inp) (bt_BasePolicy inp))"
  by (auto simp: deny_reason_def before_tool_policy_def churn_denied_def suite_denied_def Let_def
      split: option.splits)

text \<open>
  C31. Before a tool runs, the gate allows exactly this: when the call was interrupted (context,
  deadline or barrier) the answer is the configured fail-open bit and nothing else; otherwise it is
  allow exactly when the hard latch is clear, the budget is left, neither redundant validation nor
  a disproportionate suite run nor a configured reason denies the tool, the tool is not on the deny
  list, the path is in scope and no advisory is pending. In particular a fail-closed policy never
  allows what a rule denies, however the goroutines are scheduled.
\<close>

theorem before_tool_allows_exactly:
  "(hd_Action (EvaluateBeforeTool ctxDone race inp) = HookActionAllow) =
   (if hook_interrupted ctxDone race (bt_BasePolicy inp) then hp_FailOpen (bt_BasePolicy inp)
    else hp_HardDenyInterventionID (bt_BasePolicy inp) = [] \<and> \<not> hp_BudgetExhausted (bt_BasePolicy inp)
      \<and> \<not> churn_denied inp \<and> \<not> suite_denied inp
      \<and> deny_reason (bt_Request inp) (bt_BasePolicy inp) = []
      \<and> (hq_ToolName (bt_Request inp) = []
         \<or> gm_get (hp_DeniedTools (bt_BasePolicy inp)) (hq_ToolName (bt_Request inp)) = None)
      \<and> (hp_ScopeWhitelist (bt_BasePolicy inp) = []
         \<or> pathInScope (hq_FilePath (bt_Request inp)) (hp_ScopeWhitelist (bt_BasePolicy inp)))
      \<and> hp_PendingAdvisoryInterventionID (bt_BasePolicy inp) = [])"
proof -
  have "hook_interrupted ctxDone race (before_tool_policy inp) = hook_interrupted ctxDone race (bt_BasePolicy inp)"
    by (simp add: hook_interrupted_def)
  then show ?thesis
    by (simp add: EvaluateBeforeTool_def EvaluateHook_cases rules_allow before_tool_deny_reason
        timeoutDecision_def decision_def)
qed

lemma rules_in_scope:
  "hd_Action (evaluateHookRules req pol) \<noteq> HookActionDeny \<Longrightarrow>
   hp_ScopeWhitelist pol = [] \<or> pathInScope (hq_FilePath req) (hp_ScopeWhitelist pol)"
  by (auto simp: evaluateHookRules_def decision_def split: if_splits)

text \<open>
  C30. Whitelisted directories confine. Suppose the policy has a whitelist and every entry of it is
  an absolute path without pattern characters. Whatever the gate lets through before a tool runs,
  allowed or deferred, names an absolute path whose cleaned segments are those of one entry followed
  by the rest, with no \<open>..\<close> left in them: dot-dot segments, doubled separators and sibling
  directories with a common name prefix do not lead out. The one exception is a call that was
  interrupted under a fail-open policy, which is let through unchecked.
\<close>

theorem whitelist_confines_paths:
  assumes "hd_Action (EvaluateBeforeTool ctxDone race inp) \<noteq> HookActionDeny"
    and "\<not> (hook_interrupted ctxDone race (bt_BasePolicy inp) \<and> hp_FailOpen (bt_BasePolicy inp))"
    and "hp_ScopeWhitelist (bt_BasePolicy inp) \<noteq> []"
    and "\<forall>e \<in> set (hp_ScopeWhitelist (bt_BasePolicy inp)). HasPrefix e ''/'' \<and> glob_plain e"
  shows "HasPrefix (hq_FilePath (bt_Request inp)) ''/'' \<and> ''..'' \<notin> set (path_segs (hq_FilePath (bt_Request inp)))
    \<and> (\<exists>e \<in> set (hp_ScopeWhitelist (bt_BasePolicy inp)). \<exists>rest.
         path_segs (hq_FilePath (bt_Request inp)) = path_segs e @ rest)"
proof -
  have "\<not> hook_interrupted ctxDone race (before_tool_policy inp)"
    using assms(1,2) by (auto simp: EvaluateBeforeTool_def EvaluateHook_cases timeoutDecision_def decision_def
        hook_interrupted_def split: if_splits)
  then have "pathInScope (hq_FilePath (bt_Request inp)) (hp_ScopeWhitelist (bt_BasePolicy inp))"
    using assms(1,3) rules_in_scope [of "bt_Request inp" "before_tool_policy inp"]
    by (simp add: EvaluateBeforeTool_def EvaluateHook_cases)
  then show ?thesis by (rule in_scope_confined [OF assms(4)])
qed

definition scoped_call :: "string \<Rightarrow> before_tool_input" where
  "scoped_call p =
     \<lparr>bt_Request = \<lparr>hq_SessionID = ''s'', hq_Phase = ''before_tool'', hq_ToolName = ''write'', hq_FilePath = p,
        hq_Proposed = None, hq_ChallengeID = [], hq_ChallengeNonce = [], hq_Justification = None\<rparr>,
      bt_BasePolicy = \<lparr>hp_Timeout = 1, hp_FailOpen = True, hp_DeniedTools = [], hp_ToolDenyReasons = [],
        hp_ScopeWhitelist = [''/tmp'', ''/work/''], hp_BudgetExhausted = False, hp_HardDenyInterventionID = [],
        hp_PendingAdvisoryInterventionID = [], hp_DeferDeadline = None, hp_Wait = False\<rparr>,
      bt_Contract = None, bt_Ledger = None, bt_ChurnSignal = None\<rparr>"

definition calm :: hook_race where
  "calm = \<lparr>ra_waitTimedOut = False, ra_expiredAfterWait = False, ra_callerTimedOut = False, ra_resultReady = True\<rparr>"

theorem whitelist_confines_paths_witness:
  "hd_Action (EvaluateBeforeTool False calm (scoped_call ''/work/a/../b//c.go'')) = HookActionAllow
   \<and> hd_Action (EvaluateBeforeTool False calm (scoped_call ''/work/../etc/passwd'')) = HookActionDeny
   \<and> hd_Action (EvaluateBeforeTool False calm (scoped_call ''/workspace/x'')) = HookActionDeny
   \<and> ''..'' \<notin> set (path_segs ''/work/a/../b//c.go'')"
proof -
  let ?inp = "scoped_call ''/work/a/../b//c.go''"
  have allow: "hd_Action (EvaluateBeforeTool False calm ?inp) = HookActionAllow" by code_simp
  have deny: "hd_Action (EvaluateBeforeTool False calm (scoped_call ''/work/../etc/passwd'')) = HookActionDeny"
    "hd_Action (EvaluateBeforeTool False calm (scoped_call ''/workspace/x'')) = HookActionDeny"
    by code_simp+
  have "\<not> (hook_interrupted False calm (bt_BasePolicy ?inp) \<and> hp_FailOpen (bt_BasePolicy ?inp))"
    "hp_ScopeWhitelist (bt_BasePolicy ?inp) \<noteq> []" by code_simp+
  moreover have "\<forall>e \<in> set (hp_ScopeWhitelist (bt_BasePolicy ?inp)). HasPrefix e ''/'' \<and> glob_plain e"
    by (simp add: scoped_call_def HasPrefix_def glob_plain_def)
  ultimately have "''..'' \<notin> set (path_segs (hq_FilePath (bt_Request ?inp)))"
    using whitelist_confines_paths [of False calm ?inp] allow by simp
  then show ?thesis using allow deny by (simp add: scoped_call_def)
qed

end
