(* ===== verification/PolicyEngine.thy ===== *)
theory PolicyEngine
  imports HookGate
begin

text \<open>
  The slow path of \<open>pkg/policy/policy.go\<close>: a detector signal becomes at most one zoom-out
  intervention. The engine keeps one counter for identifiers; the reviewer is a parameter (a
  function from requests to a decision or an error), as is the printing of a float with \<open>%g\<close>,
  which only the reviewer sees. C32 states when the reviewer is consulted and when an intervention
  is raised, and that identifiers are never reused.
\<close>

abbreviation ActionNone :: string where "ActionNone \<equiv> ''none''"
abbreviation ActionZoomOutPrompt :: string where "ActionZoomOutPrompt \<equiv> ''ZOOM_OUT_PROMPT''"
abbreviation ActionNoIntervention :: string where "ActionNoIntervention \<equiv> ''no_intervention''"

definition DefaultZoomOutAdvice :: string where
  "DefaultZoomOutAdvice = ''ZOOM_OUT: you are repeating the same failure. Pause, re-diagnose the root cause, and replan before retrying the same edit/test loop.''"

type_synonym reviewer = "review_request \<Rightarrow> go_error + review_decision"

record engine =
  en_reviewer :: "reviewer option"
  en_reviewerModel :: string
  en_idSeq :: nat

definition NewEngine :: "reviewer option \<Rightarrow> string \<Rightarrow> engine" where
  "NewEngine rv model = \<lparr>en_reviewer = rv, en_reviewerModel = model, en_idSeq = 0\<rparr>"

record slow_input =
  si_Signal :: "tunnel_signal option"
  si_Contract :: "task_contract option"
  si_Ledger :: "evidence_ledger option"
  si_Uncertain :: bool
  si_AdvicePrompt :: string

record slow_result =
  sr_Action :: string
  sr_Intervention :: "intervention option"
  sr_UsedReviewer :: bool
  sr_ReviewDecision :: "review_decision option"
  sr_Reason :: string

definition slow_nothing :: "string \<Rightarrow> string \<Rightarrow> slow_result" where
  "slow_nothing act reason =
     \<lparr>sr_Action = act, sr_Intervention = None, sr_UsedReviewer = False, sr_ReviewDecision = None, sr_Reason = reason\<rparr>"

definition slow_zoom :: "intervention \<Rightarrow> string \<Rightarrow> slow_result" where
  "slow_zoom iv reason =
     \<lparr>sr_Action = ActionZoomOutPrompt, sr_Intervention = Some iv, sr_UsedReviewer = False,
      sr_ReviewDecision = None, sr_Reason = reason\<rparr>"

text \<open>\<open>%.2f\<close>: two decimals, ties to even.\<close>

definition round_half_even :: "rat \<Rightarrow> int" where
  "round_half_even x =
     (let f = floor x; d = x - of_int f in
      if d < 1 / 2 then f else if d > 1 / 2 then f + 1 else if even f then f else f + 1)"

definition fmt_f2 :: "rat \<Rightarrow> string" where
  "fmt_f2 x =
     (let n = nat (round_half_even (\<bar>x\<bar> * 100)); frac = dec (n mod 100) in
      (if x < 0 then ''-'' else []) @ dec (n div 100) @ ''.'' @ (if n mod 100 < 10 then ''0'' else []) @ frac)"

definition adviceFromContract :: "task_contract option \<Rightarrow> evidence_ledger option \<Rightarrow> string" where
  "adviceFromContract contract led =
     (case contract of
        None \<Rightarrow> (case led of None \<Rightarrow> [] | Some _ \<Rightarrow> DefaultZoomOutAdvice)
      | Some c \<Rightarrow>
          DefaultZoomOutAdvice
          @ '' [contract rev='' @ itoa (co_Revision c) @ '' complexity='' @ co_Complexity c
          @ '' risk='' @ co_Risk c @ '' confidence='' @ fmt_f2 (co_Confidence c) @ '']''
          @ (case led of
               None \<Rightarrow> []
             | Some l \<Rightarrow> '' [ledger validations='' @ dec (length (el_ValidationRecords l))
                 @ '' tools='' @ dec (length (el_ToolCallCounts l)) @ '']''))"

definition contractSuggestsReviewer :: "task_contract option \<Rightarrow> evidence_ledger option \<Rightarrow> bool" where
  "contractSuggestsReviewer contract led =
     (case contract of
        None \<Rightarrow> False
      | Some c \<Rightarrow>
          (co_Risk c = RiskHigh \<or> co_Risk c = RiskIrreversible)
          \<and> (case led of
               None \<Rightarrow> True
             | Some l \<Rightarrow> \<not> list_ex (\<lambda>(k, st). cs_Status st = ''met'') (el_CriteriaStatus l)))"

definition isHighConfidenceRepeatedFailure :: "tunnel_signal \<Rightarrow> bool" where
  "isHighConfidenceRepeatedFailure sig \<longleftrightarrow>
     ts_FailureMode sig = FailureModeRepeatedErrorLoop
     \<or> ts_DetectorName sig = DetectorNameRepeatedFailure \<and> ts_Score sig \<ge> 1
     \<or> ts_FailureMode sig = FailureModeToolBudgetChurn \<or> ts_FailureMode sig = FailureModeHypothesisLoop
     \<or> (ts_DetectorName sig = DetectorNameToolBudgetChurn \<or> ts_DetectorName sig = DetectorNameHypothesisLoop)
       \<and> ts_Score sig \<ge> 1"

definition buildZoomOut :: "tunnel_signal \<Rightarrow> string \<Rightarrow> time \<Rightarrow> engine \<Rightarrow> intervention \<times> engine" where
  "buildZoomOut sig advice now e =
     (let n = en_idSeq e + 1 in
      (\<lparr>iv_InterventionID = ''iv-zoom-'' @ ts_SignalID sig @ ''-'' @ dec n, iv_SessionID = ts_SessionID sig,
        iv_Level = 1, iv_ActionType = ActionZoomOutPrompt,
        iv_AdvicePrompt = (if advice = [] then DefaultZoomOutAdvice else advice),
        iv_TargetCheckpointID = [], iv_Status = ''PENDING'', iv_ExecutedAt = now, iv_ExpiresAt = None,
        iv_Priority = 10, iv_DeliveryModeHint = [], iv_RequiresAck = True, iv_AckStatus = [],
        iv_AckedAt = None, iv_SafeBoundary = BoundaryBeforeTool,
        iv_Fingerprint = (case gm_get (ts_Details sig) ''fingerprint'' of None \<Rightarrow> [] | Some f \<Rightarrow> f),
        iv_ParentAssessmentID = []\<rparr>,
       e\<lparr>en_idSeq := n\<rparr>))"

text \<open>\<open>%v\<close> of a map prints its entries in the order of the keys.\<close>

definition fmt_map :: "string gomap \<Rightarrow> string" where
  "fmt_map m = ''map['' @ Join (map (\<lambda>k. k @ '':'' @ the (gm_get m k)) (sort (gm_keys m))) '' '' @ '']''"

definition review_request_for ::
  "(rat \<Rightarrow> string) \<Rightarrow> tunnel_signal \<Rightarrow> time \<Rightarrow> engine \<Rightarrow> review_request \<times> engine" where
  "review_request_for fmt_g sig now e =
     (let n = en_idSeq e + 1 in
      (\<lparr>rq_RequestID = ''rev-'' @ ts_SignalID sig @ ''-'' @ dec n, rq_ReviewerRole = ''TunnelClassifier'',
        rq_EvidencePackID = [],
        rq_Model = (if en_reviewerModel e = [] then ''policy-optional'' else en_reviewerModel e),
        rq_Prompt = ''session='' @ ts_SessionID sig @ '' failure_mode='' @ ts_FailureMode sig
          @ '' score='' @ fmt_g (ts_Score sig) @ '' details='' @ fmt_map (ts_Details sig),
        rq_RequestedAt = now\<rparr>,
       e\<lparr>en_idSeq := n\<rparr>))"

definition reviewed_advice :: "slow_input \<Rightarrow> review_decision \<Rightarrow> string \<times> bool" where
  "reviewed_advice inp rd =
     (if si_AdvicePrompt inp \<noteq> [] then (si_AdvicePrompt inp, False)
      else if rv_SuggestedAdvice rd \<noteq> [] then (rv_SuggestedAdvice rd, True)
      else let c = adviceFromContract (si_Contract inp) (si_Ledger inp) in
        (if c \<noteq> [] then c else DefaultZoomOutAdvice, False))"

definition EvaluateSlow ::
  "(rat \<Rightarrow> string) \<Rightarrow> time \<Rightarrow> slow_input \<Rightarrow> engine \<Rightarrow> slow_result \<times> go_error option \<times> engine" where
  "EvaluateSlow fmt_g now inp e =
     (case si_Signal inp of
        None \<Rightarrow> (slow_nothing ActionNone ''nil_signal'', None, e)
      | Some sig \<Rightarrow>
          let advice = (if si_AdvicePrompt inp = [] then adviceFromContract (si_Contract inp) (si_Ledger inp)
                        else si_AdvicePrompt inp);
              uncertain = (si_Uncertain inp
                \<or> contractSuggestsReviewer (si_Contract inp) (si_Ledger inp) \<and> en_reviewer e \<noteq> None);
              high = isHighConfidenceRepeatedFailure sig
          in if \<not> uncertain \<and> high then
               let (iv, e1) = buildZoomOut sig advice now e in
               (slow_zoom iv ''deterministic_repeated_error_loop'', None, e1)
             else case en_reviewer e of
               None \<Rightarrow>
                 if high then
                   let (iv, e1) = buildZoomOut sig advice now e in
                   (slow_zoom iv ''uncertain_but_no_reviewer_fallback_deterministic'', None, e1)
                 else (slow_nothing ActionNoIntervention ''uncertain_no_reviewer'', None, e)
             | Some rv \<Rightarrow>
                 let (req, e1) = review_request_for fmt_g sig now e in
                 (case rv req of
                    Inl err \<Rightarrow> ((slow_nothing ActionNone ''reviewer_error'')\<lparr>sr_UsedReviewer := True\<rparr>, Some err, e1)
                  | Inr rd \<Rightarrow>
                      if rv_Classification rd = ''TUNNEL_VISION'' \<or> rv_TunnelConfidence rd \<ge> 85 / 100 \<or> high then
                        let (adv, suggested) = reviewed_advice inp rd; (iv, e2) = buildZoomOut sig adv now e1 in
                        ((slow_zoom iv (if suggested then ''reviewer_tunnel_suggested_advice'' else ''reviewer_tunnel''))
                           \<lparr>sr_UsedReviewer := True, sr_ReviewDecision := Some rd\<rparr>, None, e2)
                      else
                        ((slow_nothing ActionNoIntervention ''reviewer_normal_progress'')
                           \<lparr>sr_UsedReviewer := True, sr_ReviewDecision := Some rd\<rparr>, None, e1)))"

section \<open>The slow path\<close>

definition slow_consults :: "slow_input \<Rightarrow> engine \<Rightarrow> bool" where
  "slow_consults inp e \<longleftrightarrow>
     en_reviewer e \<noteq> None \<and> (\<exists>sig. si_Signal inp = Some sig
       \<and> (si_Uncertain inp \<or> contractSuggestsReviewer (si_Contract inp) (si_Ledger inp)
          \<or> \<not> isHighConfidenceRepeatedFailure sig))"

definition numbered_after :: "engine \<Rightarrow> engine \<Rightarrow> string \<Rightarrow> bool" where
  "numbered_after e e' i \<longleftrightarrow> (\<exists>a n. i = a @ ''-'' @ dec n \<and> en_idSeq e < n \<and> n \<le> en_idSeq e')"

definition zoom_for :: "tunnel_signal \<Rightarrow> engine \<Rightarrow> engine \<Rightarrow> intervention \<Rightarrow> bool" where
  "zoom_for sig e e' iv \<longleftrightarrow>
     iv_SessionID iv = ts_SessionID sig \<and> iv_ActionType iv = ActionZoomOutPrompt \<and> iv_AdvicePrompt iv \<noteq> []
     \<and> iv_RequiresAck iv \<and> iv_SafeBoundary iv = BoundaryBeforeTool
     \<and> numbered_after e e' (iv_InterventionID iv)"

lemma buildZoomOut_for:
  assumes "buildZoomOut sig adv now e1 = (iv, e')" "en_idSeq e \<le> en_idSeq e1"
  shows "zoom_for sig e e' iv" "en_idSeq e < en_idSeq e'" "en_reviewer e' = en_reviewer e1"
proof -
  have "iv_InterventionID iv = (''iv-zoom-'' @ ts_SignalID sig) @ ''-'' @ dec (en_idSeq e1 + 1)"
    "en_idSeq e' = en_idSeq e1 + 1"
    using assms(1) by (auto simp: buildZoomOut_def Let_def)
  then have "numbered_after e e' (iv_InterventionID iv)"
    unfolding numbered_after_def using assms(2) by (metis le_imp_less_Suc Suc_eq_plus1 order_refl)
  then show "zoom_for sig e e' iv" "en_idSeq e < en_idSeq e'" "en_reviewer e' = en_reviewer e1"
    using assms by (auto simp: buildZoomOut_def zoom_for_def DefaultZoomOutAdvice_def Let_def split: if_splits)
qed

lemma review_request_for_seq:
  "review_request_for fmt_g sig now e = (req, e1) \<Longrightarrow> en_idSeq e \<le> en_idSeq e1 \<and> en_reviewer e1 = en_reviewer e"
  by (auto simp: review_request_for_def Let_def)

definition slow_ok :: "slow_input \<Rightarrow> engine \<Rightarrow> slow_result \<Rightarrow> go_error option \<Rightarrow> engine \<Rightarrow> bool" where
  "slow_ok inp e res err e' \<longleftrightarrow>
     sr_UsedReviewer res = slow_consults inp e \<and> en_idSeq e \<le> en_idSeq e' \<and> en_reviewer e' = en_reviewer e
     \<and> (case sr_Intervention res of
          None \<Rightarrow> sr_Action res \<noteq> ActionZoomOutPrompt
            \<and> (si_Signal inp = None \<or> err \<noteq> None
               \<or> (\<exists>sig. si_Signal inp = Some sig \<and> \<not> isHighConfidenceRepeatedFailure sig))
        | Some iv \<Rightarrow> sr_Action res = ActionZoomOutPrompt \<and> err = None
            \<and> (\<exists>sig. si_Signal inp = Some sig \<and> zoom_for sig e e' iv))"

lemma slow_zoom_ok:
  assumes "buildZoomOut sig adv now e1 = (iv, e')" "en_idSeq e \<le> en_idSeq e1" "en_reviewer e1 = en_reviewer e"
    "si_Signal inp = Some sig" "u = slow_consults inp e"
  shows "slow_ok inp e ((slow_zoom iv r)\<lparr>sr_UsedReviewer := u, sr_ReviewDecision := d\<rparr>) None e'"
  using buildZoomOut_for [OF assms(1,2)] assms(3-5) by (auto simp: slow_ok_def slow_zoom_def)

lemma slow_zoom_ok_unreviewed:
  assumes "buildZoomOut sig adv now e = (iv, e')" "si_Signal inp = Some sig" "\<not> slow_consults inp e"
  shows "slow_ok inp e (slow_zoom iv r) None e'"
  using slow_zoom_ok [where u = False and d = None and r = r, OF assms(1) order_refl refl assms(2)] assms(3) by (simp add: slow_zoom_def)

lemma EvaluateSlow_ok:
  assumes "EvaluateSlow fmt_g now inp e = (res, err, e')"
  shows "slow_ok inp e res err e'"
proof (cases "si_Signal inp")
  case None
  then show ?thesis using assms by (auto simp: EvaluateSlow_def slow_ok_def slow_nothing_def slow_consults_def)
next
  case (Some sig)
  note ev = assms [unfolded EvaluateSlow_def Some option.case Let_def]
  show ?thesis
  proof (cases "\<not> (si_Uncertain inp \<or> contractSuggestsReviewer (si_Contract inp) (si_Ledger inp) \<and> en_reviewer e \<noteq> None)
      \<and> isHighConfidenceRepeatedFailure sig")
    case True
    then have "\<not> slow_consults inp e" using Some by (auto simp: slow_consults_def)
    with True ev Some show ?thesis
      by (auto split: prod.splits intro: slow_zoom_ok_unreviewed)
  next
    case unsure: False
    show ?thesis
    proof (cases "en_reviewer e")
      case None
      then have "\<not> slow_consults inp e" by (simp add: slow_consults_def)
      with unsure None ev Some show ?thesis
        by (cases "isHighConfidenceRepeatedFailure sig")
          (auto split: prod.splits intro: slow_zoom_ok_unreviewed, auto simp: slow_ok_def slow_nothing_def)
    next
      case (Some rv)
      then have c: "slow_consults inp e" using unsure \<open>si_Signal inp = Some sig\<close> by (auto simp: slow_consults_def)
      obtain req e1 where req: "review_request_for fmt_g sig now e = (req, e1)" by fastforce
      note seq = review_request_for_seq [OF req]
      show ?thesis
      proof (cases "rv req")
        case (Inl er)
        with ev unsure Some req seq c show ?thesis by (auto simp: slow_ok_def slow_nothing_def)
      next
        case (Inr rd)
        show ?thesis
        proof (cases "rv_Classification rd = ''TUNNEL_VISION'' \<or> rv_TunnelConfidence rd \<ge> 85 / 100
            \<or> isHighConfidenceRepeatedFailure sig")
          case True
          obtain adv sug where adv: "reviewed_advice inp rd = (adv, sug)" by fastforce
          obtain iv e2 where iv: "buildZoomOut sig adv now e1 = (iv, e2)" by fastforce
          have "err = None \<and> e' = e2 \<and> (\<exists>r. res = (slow_zoom iv r)\<lparr>sr_UsedReviewer := True, sr_ReviewDecision := Some rd\<rparr>)"
            using True Inr ev unsure Some req adv iv by (auto split: if_splits)
          then show ?thesis
            using slow_zoom_ok [OF iv conjunct1 [OF seq] conjunct2 [OF seq] \<open>si_Signal inp = Some sig\<close>, of True] c by auto
        next
          case False
          with Inr ev unsure Some req seq c \<open>si_Signal inp = Some sig\<close> show ?thesis
            by (auto simp: slow_ok_def slow_nothing_def)
        qed
      qed
    qed
  qed
qed

fun slow_ids :: "(rat \<Rightarrow> string) \<Rightarrow> (time \<times> slow_input) list \<Rightarrow> engine \<Rightarrow> string list" where
  "slow_ids fmt_g [] e = []"
| "slow_ids fmt_g ((now, inp) # rest) e =
     (case EvaluateSlow fmt_g now inp e of (res, err, e') \<Rightarrow>
        (case sr_Intervention res of None \<Rightarrow> [] | Some iv \<Rightarrow> [iv_InterventionID iv]) @ slow_ids fmt_g rest e')"

lemma slow_ids_numbered:
  "i \<in> set (slow_ids fmt_g calls e) \<Longrightarrow> \<exists>a n. i = a @ ''-'' @ dec n \<and> en_idSeq e < n"
proof (induction fmt_g calls e rule: slow_ids.induct)
  case (2 fmt_g now inp rest e)
  obtain res err e' where ev: "EvaluateSlow fmt_g now inp e = (res, err, e')" by (cases "EvaluateSlow fmt_g now inp e")
  note ok = EvaluateSlow_ok [OF ev]
  show ?case
  proof (cases "i \<in> set (slow_ids fmt_g rest e')")
    case True
    with 2 ev have "\<exists>a n. i = a @ ''-'' @ dec n \<and> en_idSeq e' < n" by simp
    then obtain a n where "i = a @ ''-'' @ dec n" "en_idSeq e' < n" by blast
    moreover have "en_idSeq e \<le> en_idSeq e'" using ok by (simp add: slow_ok_def)
    ultimately have "i = a @ ''-'' @ dec n \<and> en_idSeq e < n" by simp
    then show ?thesis by blast
  next
    case False
    with "2.prems" ev ok show ?thesis
      by (auto simp: slow_ok_def zoom_for_def numbered_after_def split: option.splits)
  qed
qed simp

lemma slow_ids_distinct: "distinct (slow_ids fmt_g calls e)"
proof (induction fmt_g calls e rule: slow_ids.induct)
  case (2 fmt_g now inp rest e)
  obtain res err e' where ev: "EvaluateSlow fmt_g now inp e = (res, err, e')" by (cases "EvaluateSlow fmt_g now inp e")
  have "iv_InterventionID iv \<notin> set (slow_ids fmt_g rest e')" if iv: "sr_Intervention res = Some iv" for iv
  proof
    assume "iv_InterventionID iv \<in> set (slow_ids fmt_g rest e')"
    then obtain a n where an: "iv_InterventionID iv = a @ ''-'' @ dec n" "en_idSeq e' < n"
      using slow_ids_numbered by blast
    obtain b m where "iv_InterventionID iv = b @ ''-'' @ dec m" "m \<le> en_idSeq e'"
      using EvaluateSlow_ok [OF ev] iv by (auto simp: slow_ok_def zoom_for_def numbered_after_def)
    with an numbered_id_inj [of a n b m] show False by simp
  qed
  with 2 ev show ?case by (auto split: option.splits)
qed simp

text \<open>
  C32. The slow path. The reviewer is consulted exactly when one is configured, there is a signal,
  and the case is uncertain, risky by contract or not high-confidence: a high-confidence signal
  without those never waits for a model. An intervention is raised with no error and only as a
  zoom-out for the signal's session that asks for acknowledgement before the next tool; without
  one there was no signal, a reviewer error, or a signal below high confidence. Over any sequence
  of calls the identifiers of the interventions are pairwise different.
\<close>

theorem slow_path_contract:
  "(case EvaluateSlow fmt_g now inp e of (res, err, e') \<Rightarrow>
      sr_UsedReviewer res = slow_consults inp e
      \<and> (case sr_Intervention res of
           None \<Rightarrow> sr_Action res \<noteq> ActionZoomOutPrompt
             \<and> (si_Signal inp = None \<or> (\<exists>er. err = Some er)
                \<or> (\<exists>sig. si_Signal inp = Some sig \<and> \<not> isHighConfidenceRepeatedFailure sig))
         | Some iv \<Rightarrow> sr_Action res = ActionZoomOutPrompt \<and> err = None
             \<and> (\<exists>sig. si_Signal inp = Some sig \<and> zoom_for sig e e' iv)))
   \<and> distinct (slow_ids fmt_g calls e)"
proof -
  obtain res err e' where ev: "EvaluateSlow fmt_g now inp e = (res, err, e')" by (cases "EvaluateSlow fmt_g now inp e")
  with EvaluateSlow_ok [OF ev] slow_ids_distinct [of fmt_g calls e] show ?thesis
    by (simp add: slow_ok_def split: option.splits)
qed

end
