(* ===== verification/GoJSON.thy ===== *)
theory GoJSON
  imports GoStrings
begin

text \<open>
  The part of \<open>encoding/json\<close> the advice ledger depends on: \<open>Marshal\<close> of strings (HTML escaping,
  control characters, the line separators, invalid UTF-8 replaced by U+FFFD) and \<open>Unmarshal\<close> of a
  whole document (white space, escapes with surrogate pairs, numbers kept as their literal). The
  reader uses fuel; twice the length of the text is enough, since every two calls consume a byte.
  Strings of valid UTF-8 survive the round trip, alone, in arrays and in objects, and a marshalled
  string never contains a control character, so that a line of a JSONL file is one document.
\<close>

section \<open>Writing strings\<close>

definition hexdig :: "nat \<Rightarrow> char" where
  "hexdig n = ''0123456789abcdef'' ! n"

definition u_escape :: "nat \<Rightarrow> string" where
  "u_escape n = [CHR 0x5C, CHR ''u'', hexdig (n div 4096 mod 16), hexdig (n div 256 mod 16),
                 hexdig (n div 16 mod 16), hexdig (n mod 16)]"

definition short_escapes :: "(char \<times> char) list" where
  "short_escapes = [(CHR 0x22, CHR 0x22), (CHR 0x5C, CHR 0x5C), (CHR 0x08, CHR ''b''), (CHR 0x0C, CHR ''f''),
     (CHR 0x0A, CHR ''n''), (CHR 0x0D, CHR ''r''), (CHR 0x09, CHR ''t'')]"

definition quote_ascii :: "char \<Rightarrow> string" where
  "quote_ascii c =
     (case map_of short_escapes c of
        Some e \<Rightarrow> [CHR 0x5C, e]
      | None \<Rightarrow> if byte c < 0x20 \<or> c \<in> {CHR ''<'', CHR ''>'', CHR ''&''} then u_escape (byte c) else [c])"

definition quote_rune :: "string \<Rightarrow> string" where
  "quote_rune r =
     (if length r = 1 then quote_ascii (hd r)
      else if r = [CHR 0xE2, CHR 0x80, CHR 0xA8] then u_escape 0x2028
      else if r = [CHR 0xE2, CHR 0x80, CHR 0xA9] then u_escape 0x2029
      else r)"

function json_body :: "string \<Rightarrow> string" where
  "json_body s =
     (if s = [] then []
      else let w = rune_valid_width s in
        if w = 0 then u_escape 0xFFFD @ json_body (tl s)
        else quote_rune (take w s) @ json_body (drop w s))"
  by pat_completeness auto
termination by (relation "measure length") auto

declare json_body.simps [simp del]

definition json_quote :: "string \<Rightarrow> string" where
  "json_quote s = CHR 0x22 # json_body s @ [CHR 0x22]"

section \<open>Reading\<close>

definition hexval :: "char \<Rightarrow> nat option" where
  "hexval c = map_of (zip ''0123456789abcdefABCDEF'' [0,1,2,3,4,5,6,7,8,9,10,11,12,13,14,15,10,11,12,13,14,15]) c"

definition getu4 :: "string \<Rightarrow> nat option" where
  "getu4 s =
     (case s of
        a # b # c # d # _ \<Rightarrow>
          (case (hexval a, hexval b, hexval c, hexval d) of
             (Some w, Some x, Some y, Some z) \<Rightarrow> Some (w * 4096 + x * 256 + y * 16 + z)
           | _ \<Rightarrow> None)
      | _ \<Rightarrow> None)"

definition encode_rune :: "nat \<Rightarrow> string" where
  "encode_rune n =
     (if n < 0x80 then [char_of n]
      else if n < 0x800 then [char_of (0xC0 + n div 64), char_of (0x80 + n mod 64)]
      else if n < 0x10000 then [char_of (0xE0 + n div 4096), char_of (0x80 + n div 64 mod 64), char_of (0x80 + n mod 64)]
      else [char_of (0xF0 + n div 262144), char_of (0x80 + n div 4096 mod 64),
            char_of (0x80 + n div 64 mod 64), char_of (0x80 + n mod 64)])"

text \<open>
  A \<open>\\u\<close> escape: the bytes of the rune and how many characters after the backslash it uses. A high
  surrogate joins a following low one; any other surrogate is U+FFFD.
\<close>

definition read_u :: "string \<Rightarrow> (string \<times> nat) option" where
  "read_u s =
     (case getu4 s of
        None \<Rightarrow> None
      | Some n \<Rightarrow>
          if 0xD800 \<le> n \<and> n < 0xE000 then
            (case (if take 2 (drop 4 s) = [CHR 0x5C, CHR ''u''] then getu4 (drop 6 s) else None) of
               Some m \<Rightarrow>
                 if n < 0xDC00 \<and> 0xDC00 \<le> m \<and> m < 0xE000
                 then Some (encode_rune (0x10000 + (n - 0xD800) * 1024 + (m - 0xDC00)), 11)
                 else Some ([CHR 0xEF, CHR 0xBF, CHR 0xBD], 5)
             | None \<Rightarrow> Some ([CHR 0xEF, CHR 0xBF, CHR 0xBD], 5))
          else Some (encode_rune n, 5))"

function json_unq :: "string \<Rightarrow> (string \<times> string) option" where
  "json_unq s =
     (case s of
        [] \<Rightarrow> None
      | c # cs \<Rightarrow>
          if c = CHR 0x22 then Some ([], cs)
          else if c = CHR 0x5C then
            (case cs of
               [] \<Rightarrow> None
             | e # es \<Rightarrow>
                 if e = CHR ''u'' then
                   (case read_u es of
                      None \<Rightarrow> None
                    | Some (r, k) \<Rightarrow> map_option (\<lambda>(t, rest). (r @ t, rest)) (json_unq (drop k cs)))
                 else if e = CHR ''/'' then map_option (\<lambda>(t, rest). (CHR ''/'' # t, rest)) (json_unq es)
                 else (case map_of (map prod.swap short_escapes) e of
                         None \<Rightarrow> None
                       | Some d \<Rightarrow> map_option (\<lambda>(t, rest). (d # t, rest)) (json_unq es)))
          else if byte c < 0x20 then None
          else let w = rune_valid_width s in
            if w = 0 then map_option (\<lambda>(t, rest). ([CHR 0xEF, CHR 0xBF, CHR 0xBD] @ t, rest)) (json_unq cs)
            else map_option (\<lambda>(t, rest). (take w s @ t, rest)) (json_unq (drop w s)))"
  by pat_completeness auto
termination by (relation "measure length") auto

declare json_unq.simps [simp del]

definition skip_ws :: "string \<Rightarrow> string" where
  "skip_ws s = dropWhile (\<lambda>c. c \<in> {CHR '' '', CHR 0x09, CHR 0x0A, CHR 0x0D}) s"

definition is_digit :: "char \<Rightarrow> bool" where
  "is_digit c \<longleftrightarrow> c \<in> set ''0123456789''"

definition read_digits :: "string \<Rightarrow> (string \<times> string) option" where
  "read_digits s = (if takeWhile is_digit s = [] then None else Some (takeWhile is_digit s, dropWhile is_digit s))"

definition read_int :: "string \<Rightarrow> (string \<times> string) option" where
  "read_int s =
     (case s of
        [] \<Rightarrow> None
      | c # cs \<Rightarrow> if c = CHR ''0'' then Some (''0'', cs) else read_digits s)"

definition read_frac :: "string \<Rightarrow> (string \<times> string) option" where
  "read_frac s =
     (case s of
        c # cs \<Rightarrow> if c = CHR ''.'' then map_option (\<lambda>(d, r). (c # d, r)) (read_digits cs) else Some ([], s)
      | [] \<Rightarrow> Some ([], []))"

definition read_exp :: "string \<Rightarrow> (string \<times> string) option" where
  "read_exp s =
     (case s of
        c # cs \<Rightarrow>
          if c = CHR ''e'' \<or> c = CHR ''E'' then
            (case cs of
               d # ds \<Rightarrow>
                 if d = CHR ''+'' \<or> d = CHR ''-'' then map_option (\<lambda>(g, r). (c # d # g, r)) (read_digits ds)
                 else map_option (\<lambda>(g, r). (c # g, r)) (read_digits cs)
             | [] \<Rightarrow> None)
          else Some ([], s)
      | [] \<Rightarrow> Some ([], []))"

definition json_number :: "string \<Rightarrow> (json \<times> string) option" where
  "json_number s =
     (let neg = (s \<noteq> [] \<and> hd s = CHR ''-'') in
      case read_int (if neg then tl s else s) of
        None \<Rightarrow> None
      | Some (i, r1) \<Rightarrow>
          (case read_frac r1 of
             None \<Rightarrow> None
           | Some (f, r2) \<Rightarrow>
               (case read_exp r2 of
                  None \<Rightarrow> None
                | Some (x, r3) \<Rightarrow> Some (JNum ((if neg then ''-'' else []) @ i @ f @ x), r3))))"

fun json_value :: "nat \<Rightarrow> string \<Rightarrow> (json \<times> string) option"
  and json_elems :: "nat \<Rightarrow> string \<Rightarrow> (json list \<times> string) option"
  and json_members :: "nat \<Rightarrow> string \<Rightarrow> ((string \<times> json) list \<times> string) option" where
  "json_value 0 s = None"
| "json_value (Suc n) s =
     (case skip_ws s of
        [] \<Rightarrow> None
      | c # cs \<Rightarrow>
          if c = CHR 0x22 then map_option (\<lambda>(t, r). (JStr t, r)) (json_unq cs)
          else if c = CHR ''['' then
            (if HasPrefix (skip_ws cs) '']'' then Some (JArr [], tl (skip_ws cs))
             else map_option (\<lambda>(vs, r). (JArr vs, r)) (json_elems n cs))
          else if c = CHR ''{'' then
            (if HasPrefix (skip_ws cs) ''}'' then Some (JObj [], tl (skip_ws cs))
             else map_option (\<lambda>(ms, r). (JObj ms, r)) (json_members n cs))
          else if HasPrefix (c # cs) ''true'' then Some (JBool True, drop 4 (c # cs))
          else if HasPrefix (c # cs) ''false'' then Some (JBool False, drop 5 (c # cs))
          else if HasPrefix (c # cs) ''null'' then Some (JNull, drop 4 (c # cs))
          else json_number (c # cs))"
| "json_elems 0 s = None"
| "json_elems (Suc n) s =
     (case json_value n s of
        None \<Rightarrow> None
      | Some (v, r) \<Rightarrow>
          (case skip_ws r of
             [] \<Rightarrow> None
           | d # ds \<Rightarrow>
               if d = CHR '']'' then Some ([v], ds)
               else if d = CHR '','' then map_option (\<lambda>(vs, r'). (v # vs, r')) (json_elems n ds)
               else None))"
| "json_members 0 s = None"
| "json_members (Suc n) s =
     (case skip_ws s of
        [] \<Rightarrow> None
      | c # cs \<Rightarrow>
          if c \<noteq> CHR 0x22 then None
          else case json_unq cs of
            None \<Rightarrow> None
          | Some (k, r) \<Rightarrow>
              (case skip_ws r of
                 [] \<Rightarrow> None
               | d # ds \<Rightarrow>
                   if d \<noteq> CHR '':'' then None
                   else case json_value n ds of
                     None \<Rightarrow> None
                   | Some (v, r') \<Rightarrow>
                       (case skip_ws r' of
                          [] \<Rightarrow> None
                        | e # es \<Rightarrow>
                            if e = CHR ''}'' then Some ([(k, v)], es)
                            else if e = CHR '','' then map_option (\<lambda>(ms, r''). ((k, v) # ms, r'')) (json_members n es)
                            else None)))"

definition json_parse :: "string \<Rightarrow> json option" where
  "json_parse s =
     (case json_value (2 * length s + 2) s of
        None \<Rightarrow> None
      | Some (v, r) \<Rightarrow> if skip_ws r = [] then Some v else None)"

section \<open>Strings survive\<close>

definition ValidString :: "string \<Rightarrow> bool" where
  "ValidString s \<longleftrightarrow> concat (rune_list s) = s"

lemma hexval_hexdig: "n < 16 \<Longrightarrow> hexval (hexdig n) = Some n"
proof -
  have "list_all (\<lambda>n. hexval (hexdig n) = Some n) [0..<16]" by code_simp
  then show "n < 16 \<Longrightarrow> hexval (hexdig n) = Some n" by (simp add: list_all_iff)
qed

lemma nibbles: "n div 4096 * 4096 + n div 256 mod 16 * 256 + n div 16 mod 16 * 16 + n mod 16 = (n::nat)"
proof -
  have "n div 16 = n div 256 * 16 + n div 16 mod 16" "n div 256 = n div 4096 * 16 + n div 256 mod 16"
    using div_mult_mod_eq [of "n div 16" 16] div_mult_mod_eq [of "n div 256" 16] by (simp_all add: div_mult2_eq [symmetric])
  moreover have "n = n div 16 * 16 + n mod 16" by simp
  ultimately show ?thesis by linarith
qed

lemma getu4_escape:
  assumes "n < 65536" shows "getu4 (drop 2 (u_escape n) @ r) = Some n"
proof -
  have "n div 4096 < 16" using assms by (simp add: less_mult_imp_div_less)
  then show ?thesis using nibbles [of n] by (simp add: getu4_def u_escape_def hexval_hexdig)
qed

lemma unq_escape:
  assumes "n < 0xD800 \<or> 0xE000 \<le> n" "n < 65536"
  shows "json_unq (u_escape n @ r) = map_option (\<lambda>(t, rest). (encode_rune n @ t, rest)) (json_unq r)"
proof -
  obtain d where d: "u_escape n = CHR 0x5C # CHR ''u'' # d" "length d = 4" by (simp add: u_escape_def)
  have "read_u (d @ r) = Some (encode_rune n, 5)"
    using assms getu4_escape [OF assms(2), of r] d by (auto simp: read_u_def)
  then show ?thesis by (subst json_unq.simps) (simp add: d)
qed

lemma byte_lt: "byte c < 256"
  by (simp add: byte_def)

lemma encode_rune_ascii: "byte c < 0x80 \<Longrightarrow> encode_rune (byte c) = [c]"
  by (simp add: encode_rune_def byte_def)

lemma char_of_eqI: "of_char c = (n::nat) \<Longrightarrow> char_of n = c"
  by auto

lemma encode_rune_special:
  "encode_rune 0xFFFD = [CHR 0xEF, CHR 0xBF, CHR 0xBD]"
  "encode_rune 0x2028 = [CHR 0xE2, CHR 0x80, CHR 0xA8]"
  "encode_rune 0x2029 = [CHR 0xE2, CHR 0x80, CHR 0xA9]"
  by (simp_all add: encode_rune_def char_of_eqI)

lemma short_escapes_swap:
  "map_of short_escapes c = Some e \<Longrightarrow>
     map_of (map prod.swap short_escapes) e = Some c \<and> e \<noteq> CHR ''u'' \<and> e \<noteq> CHR ''/''"
  by (auto simp: short_escapes_def split: if_splits)

lemma unq_quote_ascii:
  assumes "byte c < 0x80"
  shows "json_unq (quote_ascii c @ r) = map_option (\<lambda>(t, rest). (c # t, rest)) (json_unq r)"
proof (cases "map_of short_escapes c")
  case (Some e)
  then show ?thesis using short_escapes_swap [OF Some]
    by (subst json_unq.simps) (simp add: quote_ascii_def)
next
  case None
  show ?thesis
  proof (cases "byte c < 0x20 \<or> c \<in> {CHR ''<'', CHR ''>'', CHR ''&''}")
    case True
    then show ?thesis using None unq_escape [of "byte c" r] assms encode_rune_ascii [OF assms]
      by (simp add: quote_ascii_def)
  next
    case False
    then have "c \<noteq> CHR 0x22 \<and> c \<noteq> CHR 0x5C" using None by (auto simp: short_escapes_def)
    moreover have "rune_valid_width (c # r) = 1"
      using assms by (simp add: rune_valid_width_def rune_lead_def tail_ok_def Let_def)
    ultimately show ?thesis using None False
      by (subst json_unq.simps) (simp add: quote_ascii_def)
  qed
qed

lemma rune_width_lead:
  assumes "rune_valid_width s = w" "1 < w"
  shows "\<exists>c cs. s = c # cs \<and> 0xC2 \<le> byte c"
  using assms by (auto simp: rune_valid_width_def rune_lead_def Let_def split: list.splits option.splits if_splits)

lemma rune_width_one: "rune_valid_width s = 1 \<Longrightarrow> \<exists>c cs. s = c # cs \<and> byte c < 0x80"
  by (auto simp: rune_valid_width_def rune_lead_def Let_def split: list.splits option.splits if_splits)

lemma unq_quote_rune:
  assumes "0 < rune_valid_width s"
  shows "json_unq (quote_rune (take (rune_valid_width s) s) @ r)
    = map_option (\<lambda>(t, rest). (take (rune_valid_width s) s @ t, rest)) (json_unq r)"
proof (cases "rune_valid_width s = 1")
  case True
  then obtain c cs where "s = c # cs" "byte c < 0x80" using rune_width_one by blast
  then show ?thesis using True by (simp add: quote_rune_def unq_quote_ascii)
next
  case False
  define u where "u = take (rune_valid_width s) s"
  have w: "1 < rune_valid_width s" using False assms by simp
  obtain c cs where c: "s = c # cs" "0xC2 \<le> byte c" using rune_width_lead [OF refl w] by blast
  have len: "length u = rune_valid_width s" using rune_valid_width_le [of s] by (simp add: u_def)
  consider "u = [CHR 0xE2, CHR 0x80, CHR 0xA8]" | "u = [CHR 0xE2, CHR 0x80, CHR 0xA9]" | "quote_rune u = u"
    using w len by (cases "u = [CHR 0xE2, CHR 0x80, CHR 0xA8]"; cases "u = [CHR 0xE2, CHR 0x80, CHR 0xA9]")
      (auto simp: quote_rune_def)
  then have "json_unq (quote_rune u @ r) = map_option (\<lambda>(t, rest). (u @ t, rest)) (json_unq r)"
  proof cases
    case 3
    obtain us where us: "u = c # us" using c w by (cases "rune_valid_width s") (auto simp: u_def)
    have "rune_valid_width (u @ r) = length u" using rune_valid_width_take [OF assms, of r] len by (simp add: u_def)
    moreover have "c \<noteq> CHR 0x22 \<and> c \<noteq> CHR 0x5C \<and> \<not> byte c < 0x20" using c(2) by (auto simp: byte_def)
    moreover have "length u = Suc (length us)" by (simp add: us)
    ultimately show ?thesis unfolding 3 using us w
      by (subst json_unq.simps) (simp add: Let_def)
  qed (simp_all add: quote_rune_def unq_escape encode_rune_special)
  then show ?thesis by (simp add: u_def)
qed

lemma unq_body: "json_unq (json_body s @ CHR 0x22 # r) = Some (concat (rune_list s), r)"
proof (induction s rule: json_body.induct)
  case (1 s)
  show ?case
  proof (cases "s = []")
    case True
    then show ?thesis by (simp add: json_body.simps rune_list.simps json_unq.simps [of "CHR 0x22 # r"])
  next
    case False
    define w where "w = rune_valid_width s"
    show ?thesis
    proof (cases "w = 0")
      case True
      with False 1 w_def have ih: "json_unq (json_body (tl s) @ CHR 0x22 # r) = Some (concat (rune_list (tl s)), r)" by simp
      have "json_body s = u_escape 0xFFFD @ json_body (tl s)"
        using False True by (simp add: json_body.simps [of s] w_def Let_def)
      then show ?thesis using False True ih
        by (simp add: unq_escape rune_list.simps [of s] w_def encode_rune_special)
    next
      case nz: False
      with False 1 w_def have ih: "json_unq (json_body (drop w s) @ CHR 0x22 # r) = Some (concat (rune_list (drop w s)), r)" by simp
      have "json_body s = quote_rune (take w s) @ json_body (drop w s)"
        using False nz by (simp add: json_body.simps [of s] w_def Let_def)
      then show ?thesis using False nz ih unq_quote_rune [of s "json_body (drop w s) @ CHR 0x22 # r"]
        by (simp add: rune_list.simps [of s] w_def Let_def)
    qed
  qed
qed

section \<open>What a quoted string is made of\<close>

text \<open>No control characters, and valid UTF-8 whatever the source string was.\<close>

lemma hexdig_ascii:
  assumes "n < 16" shows "0x20 \<le> byte (hexdig n) \<and> byte (hexdig n) < 0x80"
proof -
  have "list_all (\<lambda>n. 0x20 \<le> byte (hexdig n) \<and> byte (hexdig n) < 0x80) [0..<16]" by code_simp
  then show ?thesis using assms by (simp add: list_all_iff)
qed

lemma u_escape_ascii: "c \<in> set (u_escape n) \<Longrightarrow> 0x20 \<le> byte c \<and> byte c < 0x80"
proof -
  have h: "0x20 \<le> byte (hexdig (k mod 16)) \<and> byte (hexdig (k mod 16)) < 0x80" for k by (rule hexdig_ascii) simp
  have b: "byte (CHR 0x5C) = 0x5C" "byte (CHR ''u'') = 0x75" by (simp_all add: byte_def)
  show "c \<in> set (u_escape n) \<Longrightarrow> 0x20 \<le> byte c \<and> byte c < 0x80"
    using h [of "n div 4096"] h [of "n div 256"] h [of "n div 16"] h [of n] b by (auto simp: u_escape_def)
qed

lemma quote_ascii_ascii: "byte d < 0x80 \<Longrightarrow> c \<in> set (quote_ascii d) \<Longrightarrow> 0x20 \<le> byte c \<and> byte c < 0x80"
  using u_escape_ascii [of c "byte d"]
  by (auto simp: quote_ascii_def short_escapes_def byte_def split: if_splits option.splits)

lemma rune_multi_bytes:
  assumes "1 < rune_valid_width s" "c \<in> set (take (rune_valid_width s) s)"
  shows "0x80 \<le> byte c"
proof -
  from assms(1) obtain d cs w lo hi where d: "s = d # cs" "rune_lead (byte d) = Some (w, lo, hi)"
    "tail_ok lo hi (take (w - 1) cs)" "rune_valid_width s = w"
    by (auto simp: rune_valid_width_def Let_def split: list.splits option.splits if_splits)
  have "list_all is_cont (take (w - 1) cs)" using tail_ok_cont [OF d(3)] rune_lead_range [OF d(2)] by simp
  moreover have "0x80 \<le> byte d" using d(2,4) assms(1) by (auto simp: rune_lead_def split: if_splits)
  moreover have "take w s = d # take (w - 1) cs" using assms(1) d by (cases w) simp_all
  ultimately show ?thesis using assms(2) d(4) by (auto simp: list_all_iff is_cont_def)
qed

lemma ValidString_Nil [simp]: "ValidString []"
  by (simp add: ValidString_def rune_list.simps)

lemma ValidString_rune:
  "0 < rune_valid_width s \<Longrightarrow> ValidString r \<Longrightarrow> ValidString (take (rune_valid_width s) s @ r)"
  using rune_list_step [of s r] by (simp add: ValidString_def)

lemma ValidString_ascii: "list_all (\<lambda>c. byte c < 0x80) a \<Longrightarrow> ValidString r \<Longrightarrow> ValidString (a @ r)"
proof (induction a)
  case (Cons c a)
  then have "rune_valid_width [c] = 1" by (simp add: rune_valid_width_def rune_lead_def tail_ok_def Let_def)
  then show ?case using ValidString_rune [of "[c]" "a @ r"] Cons by simp
qed simp

lemma quote_rune_good:
  assumes "0 < rune_valid_width s"
  shows "(\<forall>c \<in> set (quote_rune (take (rune_valid_width s) s)). 0x20 \<le> byte c)
    \<and> (ValidString r \<longrightarrow> ValidString (quote_rune (take (rune_valid_width s) s) @ r))"
proof (cases "rune_valid_width s = 1")
  case True
  then obtain d cs where d: "s = d # cs" "byte d < 0x80" using rune_width_one by blast
  then show ?thesis using True quote_ascii_ascii [OF d(2)] ValidString_ascii [of "quote_ascii d" r]
    by (auto simp: quote_rune_def list_all_iff)
next
  case False
  then have w: "1 < rune_valid_width s" using assms by simp
  then have "c \<in> set (take (rune_valid_width s) s) \<Longrightarrow> 0x20 \<le> byte c" for c using rune_multi_bytes [of s c] by simp
  then show ?thesis
    using w u_escape_ascii ValidString_ascii [of "u_escape _" r] ValidString_rune [OF assms, of r] rune_valid_width_le [of s]
    by (auto simp: quote_rune_def list_all_iff)
qed

lemma json_body_good: "(\<forall>c \<in> set (json_body s). 0x20 \<le> byte c) \<and> (ValidString r \<longrightarrow> ValidString (json_body s @ r))"
proof (induction s rule: json_body.induct)
  case (1 s)
  show ?case
  proof (cases "s = []")
    case True
    then show ?thesis by (simp add: json_body.simps)
  next
    case False
    show ?thesis
    proof (cases "rune_valid_width s = 0")
      case True
      with False 1 have "(\<forall>c \<in> set (json_body (tl s)). 0x20 \<le> byte c) \<and> (ValidString r \<longrightarrow> ValidString (json_body (tl s) @ r))"
        by blast
      then show ?thesis using False True u_escape_ascii ValidString_ascii [of "u_escape 0xFFFD" "json_body (tl s) @ r"]
        by (subst (1 2) json_body.simps) (auto simp: Let_def list_all_iff)
    next
      case nz: False
      let ?w = "rune_valid_width s"
      from nz False 1 have "(\<forall>c \<in> set (json_body (drop ?w s)). 0x20 \<le> byte c)
          \<and> (ValidString r \<longrightarrow> ValidString (json_body (drop ?w s) @ r))"
        by blast
      then show ?thesis using False nz quote_rune_good [of s "json_body (drop ?w s) @ r"]
        by (subst (1 2) json_body.simps) (auto simp: Let_def)
    qed
  qed
qed

lemma json_quote_good:
  "(\<forall>c \<in> set (json_quote s). 0x20 \<le> byte c) \<and> (ValidString r \<longrightarrow> ValidString (json_quote s @ r))"
proof -
  have q: "byte (CHR 0x22) = 0x22" by (simp add: byte_def)
  have "ValidString r \<Longrightarrow> ValidString ([CHR 0x22] @ json_body s @ [CHR 0x22] @ r)"
    using json_body_good [of s "[CHR 0x22] @ r"] ValidString_ascii [of "[CHR 0x22]"] q by simp
  then show ?thesis using json_body_good [of s] q by (auto simp: json_quote_def)
qed

lemma json_quote_no_nl: "CHR 0x0A \<notin> set (json_quote s)"
proof
  assume "CHR 0x0A \<in> set (json_quote s)"
  then have "0x20 \<le> byte (CHR 0x0A)" using json_quote_good [of s "[]"] by blast
  then show False by (simp add: byte_def)
qed

section \<open>Arrays and objects of strings\<close>

definition json_strings :: "string list \<Rightarrow> string" where
  "json_strings ss = ''['' @ Join (map json_quote ss) '','' @ '']''"

definition json_member :: "string \<times> string \<Rightarrow> string" where
  "json_member m = json_quote (fst m) @ '':'' @ json_quote (snd m)"

definition json_object :: "(string \<times> string) list \<Rightarrow> string" where
  "json_object ms = ''{'' @ Join (map json_member ms) '','' @ ''}''"

abbreviation scrub :: "string \<Rightarrow> string" where "scrub s \<equiv> concat (rune_list s)"

lemma skip_ws_quote: "skip_ws (json_quote s @ r) = json_quote s @ r"
  by (simp add: skip_ws_def json_quote_def)

lemma skip_ws_punct [simp]:
  "skip_ws (CHR '','' # r) = CHR '','' # r" "skip_ws (CHR '']'' # r) = CHR '']'' # r"
  "skip_ws (CHR ''}'' # r) = CHR ''}'' # r" "skip_ws (CHR '':'' # r) = CHR '':'' # r"
  "skip_ws [] = []"
  by (simp_all add: skip_ws_def)

lemma json_value_quote: "0 < n \<Longrightarrow> json_value n (json_quote s @ r) = Some (JStr (scrub s), r)"
  by (cases n) (simp_all add: skip_ws_quote, simp add: json_quote_def unq_body)

lemma json_elems_strings:
  "ss \<noteq> [] \<Longrightarrow> length ss < n \<Longrightarrow>
   json_elems n (Join (map json_quote ss) '','' @ CHR '']'' # r) = Some (map (JStr \<circ> scrub) ss, r)"
proof (induction ss arbitrary: n)
  case (Cons a ss)
  then obtain k where k: "n = Suc k" "0 < k" "length ss < k" by (cases n) auto
  show ?case
  proof (cases ss)
    case Nil
    then show ?thesis using k json_value_quote [of k a "CHR '']'' # r"] by simp
  next
    case c: (Cons b bs)
    have "json_value k (json_quote a @ CHR '','' # Join (map json_quote ss) '','' @ CHR '']'' # r)
        = Some (JStr (scrub a), CHR '','' # Join (map json_quote ss) '','' @ CHR '']'' # r)"
      by (rule json_value_quote [OF k(2)])
    moreover have "json_elems k (Join (map json_quote ss) '','' @ CHR '']'' # r) = Some (map (JStr \<circ> scrub) ss, r)"
      using Cons.IH [OF _ k(3)] c by simp
    ultimately show ?thesis using c by (simp add: k(1))
  qed
qed simp

lemma json_members_strings:
  "ms \<noteq> [] \<Longrightarrow> length ms < n \<Longrightarrow>
   json_members n (Join (map json_member ms) '','' @ CHR ''}'' # r)
     = Some (map (\<lambda>(k, v). (scrub k, JStr (scrub v))) ms, r)"
proof (induction ms arbitrary: n)
  case (Cons a ms)
  then obtain k where k: "n = Suc k" "0 < k" "length ms < k" by (cases n) auto
  obtain x y where a: "a = (x, y)" by (cases a)
  have head: "json_members (Suc k) (json_member a @ t) =
      (case skip_ws t of
         [] \<Rightarrow> None
       | e # es \<Rightarrow>
           if e = CHR ''}'' then Some ([(scrub x, JStr (scrub y))], es)
           else if e = CHR '','' then map_option (\<lambda>(ms, r''). ((scrub x, JStr (scrub y)) # ms, r'')) (json_members k es)
           else None)" for t
  proof -
    have "json_unq (json_body x @ CHR 0x22 # CHR '':'' # json_quote y @ t) = Some (scrub x, CHR '':'' # json_quote y @ t)"
      by (rule unq_body)
    moreover have "skip_ws (json_member a @ t) = CHR 0x22 # json_body x @ CHR 0x22 # CHR '':'' # json_quote y @ t"
      by (simp add: a json_member_def json_quote_def skip_ws_def)
    ultimately show ?thesis using json_value_quote [OF k(2), of y t] by simp
  qed
  show ?case
  proof (cases ms)
    case Nil
    then show ?thesis using k head [of "CHR ''}'' # r"] a by simp
  next
    case c: (Cons b bs)
    have "json_members k (Join (map json_member ms) '','' @ CHR ''}'' # r)
        = Some (map (\<lambda>(k, v). (scrub k, JStr (scrub v))) ms, r)"
      using Cons.IH [OF _ k(3)] c by simp
    then show ?thesis using c head [of "CHR '','' # Join (map json_member ms) '','' @ CHR ''}'' # r"] a
      by (simp add: k(1))
  qed
qed simp

lemma Join_length: "\<forall>x \<in> set xs. Suc 0 \<le> length x \<Longrightarrow> length xs \<le> length (Join xs sep)"
  by (induction xs sep rule: Join.induct) (auto simp del: Join.simps simp: Join.simps)

lemma Join_starts: "xs \<noteq> [] \<Longrightarrow> hd xs = c # u \<Longrightarrow> \<exists>v. Join xs sep = c # v"
  by (cases xs rule: Join.cases [of "(_, sep)", simplified]) auto

lemma json_strings_parse: "ss \<noteq> [] \<Longrightarrow> json_parse (json_strings ss) = Some (JArr (map (JStr \<circ> scrub) ss))"
proof -
  assume ne: "ss \<noteq> []"
  let ?j = "Join (map json_quote ss) '',''"
  obtain v where v: "?j = CHR 0x22 # v"
    using Join_starts [of "map json_quote ss" "CHR 0x22"] ne by (cases ss) (auto simp: json_quote_def)
  have "length ss \<le> length ?j" using Join_length [of "map json_quote ss"] by (simp add: json_quote_def)
  then have "json_elems (2 * length (json_strings ss) + 1) (?j @ CHR '']'' # []) = Some (map (JStr \<circ> scrub) ss, [])"
    by (intro json_elems_strings ne) (simp add: json_strings_def)
  moreover have "\<not> HasPrefix (skip_ws (?j @ '']'')) '']''" by (simp add: v skip_ws_def HasPrefix_def)
  moreover have "skip_ws (json_strings ss) = CHR ''['' # ?j @ '']''" by (simp add: json_strings_def skip_ws_def)
  ultimately show ?thesis by (simp add: json_parse_def)
qed

lemma json_object_parse:
  "ms \<noteq> [] \<Longrightarrow> json_parse (json_object ms) = Some (JObj (map (\<lambda>(k, v). (scrub k, JStr (scrub v))) ms))"
proof -
  assume ne: "ms \<noteq> []"
  let ?j = "Join (map json_member ms) '',''"
  obtain v where v: "?j = CHR 0x22 # v"
    using Join_starts [of "map json_member ms" "CHR 0x22"] ne by (cases ms) (auto simp: json_quote_def json_member_def)
  have "length ms \<le> length ?j" using Join_length [of "map json_member ms"] by (simp add: json_quote_def json_member_def)
  then have "json_members (2 * length (json_object ms) + 1) (?j @ CHR ''}'' # [])
      = Some (map (\<lambda>(k, v). (scrub k, JStr (scrub v))) ms, [])"
    by (intro json_members_strings ne) (simp add: json_object_def)
  moreover have "\<not> HasPrefix (skip_ws (?j @ ''}'')) ''}''" by (simp add: v skip_ws_def HasPrefix_def)
  moreover have "skip_ws (json_object ms) = CHR ''{'' # ?j @ ''}''" by (simp add: json_object_def skip_ws_def)
  ultimately show ?thesis by (simp add: json_parse_def)
qed

lemma Join_no_nl: "\<forall>x \<in> set xs. c \<notin> set x \<Longrightarrow> c \<notin> set sep \<Longrightarrow> c \<notin> set (Join xs sep)"
  by (induction xs sep rule: Join.induct) auto

lemma json_object_no_nl: "CHR 0x0A \<notin> set (json_object ms)"
proof -
  have "CHR 0x0A \<notin> set (Join (map json_member ms) '','')"
    by (rule Join_no_nl) (auto simp: json_member_def json_quote_no_nl)
  then show ?thesis by (simp add: json_object_def)
qed

lemma json_strings_good: "(\<forall>c \<in> set (json_strings ss). 0x20 \<le> byte c) \<and> (ValidString r \<longrightarrow> ValidString (json_strings ss @ r))"
proof -
  have b: "byte (CHR '','') = 0x2C" "byte (CHR ''['') = 0x5B" "byte (CHR '']'') = 0x5D" by (simp_all add: byte_def)
  have j: "(\<forall>c \<in> set (Join (map json_quote ts) '',''). 0x20 \<le> byte c)
      \<and> (ValidString u \<longrightarrow> ValidString (Join (map json_quote ts) '','' @ u))" for ts u
  proof (induction ts)
    case (Cons a ts)
    show ?case
    proof (cases ts)
      case Nil
      then show ?thesis using json_quote_good [of a u] by simp
    next
      case c: (Cons t tss)
      have "ValidString u \<Longrightarrow> ValidString (json_quote a @ [CHR '',''] @ Join (map json_quote ts) '','' @ u)"
        using Cons.IH json_quote_good [of a "[CHR '',''] @ Join (map json_quote ts) '','' @ u"]
          ValidString_ascii [of "[CHR '','']"] b by simp
      then show ?thesis using Cons.IH json_quote_good [of a "[]"] c b by auto
    qed
  qed simp
  have "ValidString r \<Longrightarrow> ValidString ([CHR ''[''] @ Join (map json_quote ss) '','' @ [CHR '']''] @ r)"
    using j [of ss "[CHR '']''] @ r"] ValidString_ascii [of "[CHR '']'']" r] ValidString_ascii [of "[CHR ''['']"] b by simp
  then show ?thesis using j [of ss "[]"] b by (auto simp: json_strings_def)
qed

lemma json_strings_inj:
  assumes "json_strings ss = json_strings ts" "ss \<noteq> []" "ts \<noteq> []" "list_all ValidString ss" "list_all ValidString ts"
  shows "ss = ts"
proof -
  have "map (JStr \<circ> scrub) ss = map (JStr \<circ> scrub) ts"
    using json_strings_parse [OF assms(2)] json_strings_parse [OF assms(3)] assms(1) by simp
  then have "map scrub ss = map scrub ts" by (metis json.inject(3) list.inj_map_strong map_map comp_apply)
  moreover have "map scrub us = us" if "list_all ValidString us" for us
    using that by (simp add: map_idI list_all_iff ValidString_def)
  ultimately show ?thesis using assms(4,5) by simp
qed

end
