(* ===== verification/DeliveryQueue.thy ===== *)
theory DeliveryQueue
  imports ProtocolTypes
begin

text \<open>
  Results, boundaries, acknowledgement requests and the pending queue of \<open>pkg/adapter\<close>
  (\<open>result.go\<close>, \<open>actuator.go\<close>, \<open>delivery_boundary.go\<close>, \<open>acknowledge.go\<close>, \<open>pending_queue.go\<close>). The
  queue keeps the items by identifier and, per session, the order of the identifiers still to be
  handed out; each operation is one function under the queue's lock. C33: whatever the operations
  and the clock do, an intervention is handed out at most once, to its own session, before it
  expires.
\<close>

section \<open>Results and states\<close>

abbreviation DeliveryModeAdvice :: string where "DeliveryModeAdvice \<equiv> ''advice''"
abbreviation DeliveryModePause :: string where "DeliveryModePause \<equiv> ''pause''"
abbreviation DeliveryModeCancel :: string where "DeliveryModeCancel \<equiv> ''cancel''"
abbreviation DeliveryModeHumanEscalation :: string where "DeliveryModeHumanEscalation \<equiv> ''human_escalation''"

abbreviation AckStatusPending :: string where "AckStatusPending \<equiv> ''pending''"
abbreviation AckStatusAcked :: string where "AckStatusAcked \<equiv> ''acked''"
abbreviation AckStatusRejected :: string where "AckStatusRejected \<equiv> ''rejected''"
abbreviation AckStatusTimedOut :: string where "AckStatusTimedOut \<equiv> ''timed_out''"
abbreviation AckStatusUnsupported :: string where "AckStatusUnsupported \<equiv> ''unsupported''"

abbreviation ErrorClassNone :: string where "ErrorClassNone \<equiv> ''none''"
abbreviation ErrorClassUnsupportedCapability :: string where "ErrorClassUnsupportedCapability \<equiv> ''unsupported_capability''"
abbreviation ErrorClassTimeout :: string where "ErrorClassTimeout \<equiv> ''timeout''"
abbreviation ErrorClassAgentRejected :: string where "ErrorClassAgentRejected \<equiv> ''agent_rejected''"
abbreviation ErrorClassTransport :: string where "ErrorClassTransport \<equiv> ''transport''"

abbreviation ACKLayerNone :: string where "ACKLayerNone \<equiv> ''none''"
abbreviation ACKLayerTransport :: string where "ACKLayerTransport \<equiv> ''transport''"
abbreviation ACKLayerSessionVisible :: string where "ACKLayerSessionVisible \<equiv> ''session_visible''"
abbreviation ACKLayerExplicit :: string where "ACKLayerExplicit \<equiv> ''explicit''"
abbreviation ACKLayerBehavioral :: string where "ACKLayerBehavioral \<equiv> ''behavioral''"

record intervention_result =
  ir_InterventionID :: string
  ir_Accepted :: bool
  ir_DeliveryMode :: string
  ir_DeliveredAt :: time
  ir_AckStatus :: string
  ir_AckAt :: "time option"
  ir_ErrorClass :: string
  ir_Message :: string
  ir_AckLayer :: string
  ir_HostFamily :: string
  ir_HostVersion :: string
  ir_Profile :: string
  ir_SafeBoundary :: string
  ir_TargetSessionID :: string
  ir_CapsDigest :: string
  ir_DeliveryBoundary :: string

definition zero_result :: intervention_result where
  "zero_result = \<lparr>ir_InterventionID = [], ir_Accepted = False, ir_DeliveryMode = [], ir_DeliveredAt = 0,
     ir_AckStatus = [], ir_AckAt = None, ir_ErrorClass = [], ir_Message = [], ir_AckLayer = [],
     ir_HostFamily = [], ir_HostVersion = [], ir_Profile = [], ir_SafeBoundary = [],
     ir_TargetSessionID = [], ir_CapsDigest = [], ir_DeliveryBoundary = []\<rparr>"

datatype delivery_state =
  StatePending | StateDelivering | StateTransportAccepted | StateSessionVisible | StateExplicitACK
  | StateBehavioralACK | StateAcked | StateRejected | StateTimedOut | StateExpired | StateSuppressed
  | StateFailed | StateUnsupported | StateAmbiguous

definition all_states :: "delivery_state list" where
  "all_states = [StatePending, StateDelivering, StateTransportAccepted, StateSessionVisible, StateExplicitACK,
     StateBehavioralACK, StateAcked, StateRejected, StateTimedOut, StateExpired, StateSuppressed,
     StateFailed, StateUnsupported, StateAmbiguous]"

fun state_str :: "delivery_state \<Rightarrow> string" where
  "state_str StatePending = ''PENDING''"
| "state_str StateDelivering = ''DELIVERING''"
| "state_str StateTransportAccepted = ''TRANSPORT_ACCEPTED''"
| "state_str StateSessionVisible = ''SESSION_VISIBLE''"
| "state_str StateExplicitACK = ''EXPLICIT_ACK''"
| "state_str StateBehavioralACK = ''BEHAVIORAL_ACK''"
| "state_str StateAcked = ''ACKED''"
| "state_str StateRejected = ''REJECTED''"
| "state_str StateTimedOut = ''TIMED_OUT''"
| "state_str StateExpired = ''EXPIRED''"
| "state_str StateSuppressed = ''SUPPRESSED''"
| "state_str StateFailed = ''FAILED''"
| "state_str StateUnsupported = ''UNSUPPORTED''"
| "state_str StateAmbiguous = ''AMBIGUOUS''"

definition DefaultDeliveryMode :: "string \<Rightarrow> string" where
  "DefaultDeliveryMode actionType =
     (if actionType = ''ZOOM_OUT_PROMPT'' then DeliveryModeAdvice
      else if actionType = ''PAUSE_PROCESS'' then DeliveryModePause
      else if actionType = ''CANCEL_ACTION'' then DeliveryModeCancel
      else if actionType = ''GIT_ROLLBACK'' \<or> actionType = ''TERMINATE_SESSION'' then DeliveryModeHumanEscalation
      else DeliveryModeAdvice)"

section \<open>Delivery boundaries\<close>

abbreviation BoundaryNotSent :: string where "BoundaryNotSent \<equiv> ''not_sent''"
abbreviation BoundarySendAttemptedUnknown :: string where "BoundarySendAttemptedUnknown \<equiv> ''send_attempted_unknown''"
abbreviation BoundaryTransportAccepted :: string where "BoundaryTransportAccepted \<equiv> ''transport_accepted''"
abbreviation BoundarySessionVisible :: string where "BoundarySessionVisible \<equiv> ''session_visible''"

definition ClassifyDeliveryBoundary :: "intervention_result \<Rightarrow> bool \<Rightarrow> string" where
  "ClassifyDeliveryBoundary res failed =
     (let b = ir_DeliveryBoundary res; l = ir_AckLayer res; c = ir_ErrorClass res in
      if b \<in> {BoundaryNotSent, BoundarySendAttemptedUnknown, BoundaryTransportAccepted, BoundarySessionVisible} then b
      else if l \<in> {ACKLayerSessionVisible, ACKLayerExplicit, ACKLayerBehavioral} then BoundarySessionVisible
      else if l = ACKLayerTransport then BoundaryTransportAccepted
      else if ir_Accepted res then BoundaryTransportAccepted
      else if c = ErrorClassUnsupportedCapability then BoundaryNotSent
      else if c = ErrorClassAgentRejected then BoundaryTransportAccepted
      else if c = ErrorClassTimeout \<or> c = ErrorClassTransport then BoundarySendAttemptedUnknown
      else if failed then BoundarySendAttemptedUnknown
      else BoundaryNotSent)"

definition ShouldAmbiguousSuppress :: "string \<Rightarrow> bool" where
  "ShouldAmbiguousSuppress boundary \<longleftrightarrow>
     boundary \<in> {BoundarySendAttemptedUnknown, BoundaryTransportAccepted, BoundarySessionVisible}"

section \<open>Acknowledgement requests\<close>

record acknowledge_request =
  ak_SchemaVersion :: string
  ak_InterventionID :: string
  ak_HostFamily :: string
  ak_HostVersion :: string
  ak_Profile :: string
  ak_TargetSession :: string
  ak_SourceKind :: string
  ak_SourceEventID :: string
  ak_CorrelationID :: string
  ak_AckLayer :: string
  ak_Status :: string
  ak_ObservedAt :: time

abbreviation AcknowledgeRequestSchemaV1 :: string where "AcknowledgeRequestSchemaV1 \<equiv> ''reinframe.ack_request.v1''"
abbreviation GrokLiveHostFamily :: string where "GrokLiveHostFamily \<equiv> ''grok_build''"
abbreviation GrokACPProfileV1 :: string where "GrokACPProfileV1 \<equiv> ''reinframe.grok_build_acp.v1''"

abbreviation ErrBareAcknowledgeExplicit :: go_error where
  "ErrBareAcknowledgeExplicit \<equiv> ''bare Acknowledge cannot mint explicit ACK; use AcknowledgeSource''"
abbreviation ErrExplicitACKNotSupported :: go_error where
  "ErrExplicitACKNotSupported \<equiv> ''explicit ACK not supported for this host profile''"
abbreviation ErrSourceBoundRequired :: go_error where
  "ErrSourceBoundRequired \<equiv> ''source-bound ACK requires SourceKind and SourceEventID''"
abbreviation ErrDurableWriteFailed :: go_error where
  "ErrDurableWriteFailed \<equiv> ''durable ledger write failed after host delivery''"

definition ProfileMaxACKLayer :: "string \<Rightarrow> string \<Rightarrow> string" where
  "ProfileMaxACKLayer hostFamily profile =
     (if hostFamily = GrokLiveHostFamily \<or> profile = GrokACPProfileV1 then ACKLayerSessionVisible
      else ACKLayerSessionVisible)"

definition ValidateAcknowledgeRequest :: "acknowledge_request \<Rightarrow> go_error option" where
  "ValidateAcknowledgeRequest req =
     (if ak_InterventionID req = [] then Some ''intervention id required''
      else if ak_SourceKind req = [] \<or> ak_SourceEventID req = [] then Some ErrSourceBoundRequired
      else if ak_Status req \<notin> {AckStatusAcked, AckStatusRejected, AckStatusTimedOut} then Some ''invalid ack status''
      else
        let layer = (if ak_AckLayer req \<noteq> [] then ak_AckLayer req
                     else if ak_Status req = AckStatusAcked then ACKLayerSessionVisible else ACKLayerNone)
        in if layer = ACKLayerExplicit \<and> ProfileMaxACKLayer (ak_HostFamily req) (ak_Profile req) \<noteq> ACKLayerExplicit
           then Some ErrExplicitACKNotSupported else None)"

section \<open>The pending queue\<close>

record pending_item =
  pi_Intervention :: intervention
  pi_State :: delivery_state
  pi_EnqueuedAt :: time
  pi_ExpiresAt :: time
  pi_Result :: "intervention_result option"

record pending_queue =
  pq_byID :: "pending_item gomap"
  pq_bySess :: "string list gomap"

definition NewPendingQueue :: pending_queue where
  "NewPendingQueue = \<lparr>pq_byID = [], pq_bySess = []\<rparr>"

definition sess_ids :: "pending_queue \<Rightarrow> string \<Rightarrow> string list" where
  "sess_ids q s = (case gm_get (pq_bySess q) s of None \<Rightarrow> [] | Some ids \<Rightarrow> ids)"

record enqueue_result =
  eq_Item :: pending_item
  eq_Suppressed :: bool
  eq_Expired :: bool

definition five_minutes :: int where "five_minutes = 5 * 60 * 1000000000"

definition pq_Enqueue :: "time \<Rightarrow> intervention \<Rightarrow> int \<Rightarrow> pending_queue \<Rightarrow> enqueue_result \<times> pending_queue" where
  "pq_Enqueue now iv ttl q =
     (case gm_get (pq_byID q) (iv_InterventionID iv) of
        Some existing \<Rightarrow>
          (\<lparr>eq_Item = existing\<lparr>pi_State := StateSuppressed\<rparr>, eq_Suppressed = True, eq_Expired = False\<rparr>, q)
      | None \<Rightarrow>
          let expires = now + (if ttl \<le> 0 then five_minutes else ttl);
              item = \<lparr>pi_Intervention = iv, pi_State = StatePending, pi_EnqueuedAt = now, pi_ExpiresAt = expires,
                      pi_Result = None\<rparr>
          in if \<not> expires > now then
               let item' = item\<lparr>pi_State := StateExpired\<rparr> in
               (\<lparr>eq_Item = item', eq_Suppressed = False, eq_Expired = True\<rparr>,
                q\<lparr>pq_byID := gm_put (iv_InterventionID iv) item' (pq_byID q)\<rparr>)
             else
               (\<lparr>eq_Item = item, eq_Suppressed = False, eq_Expired = False\<rparr>,
                q\<lparr>pq_byID := gm_put (iv_InterventionID iv) item (pq_byID q),
                  pq_bySess := gm_put (iv_SessionID iv) (sess_ids q (iv_SessionID iv) @ [iv_InterventionID iv])
                    (pq_bySess q)\<rparr>))"

definition pq_Get :: "string \<Rightarrow> pending_queue \<Rightarrow> pending_item option" where
  "pq_Get i q = gm_get (pq_byID q) i"

text \<open>The scan of \<open>NextPending\<close>: the item handed out, the items after the scan, the remaining order.\<close>

fun next_scan ::
  "time \<Rightarrow> pending_item gomap \<Rightarrow> string list \<Rightarrow> pending_item option \<times> pending_item gomap \<times> string list" where
  "next_scan now m [] = (None, m, [])"
| "next_scan now m (i # ids) =
     (case gm_get m i of
        None \<Rightarrow> (case next_scan now m ids of (r, m', ids') \<Rightarrow> (r, m', i # ids'))
      | Some item \<Rightarrow>
          if pi_State item \<noteq> StatePending then (case next_scan now m ids of (r, m', ids') \<Rightarrow> (r, m', i # ids'))
          else if \<not> pi_ExpiresAt item > now then
            (case next_scan now (gm_put i (item\<lparr>pi_State := StateExpired\<rparr>) m) ids of (r, m', ids') \<Rightarrow> (r, m', i # ids'))
          else
            let item' = item\<lparr>pi_State := StateDelivering\<rparr> in (Some item', gm_put i item' m, ids))"

definition NextPending :: "time \<Rightarrow> string \<Rightarrow> pending_queue \<Rightarrow> pending_item option \<times> pending_queue" where
  "NextPending now sessionID q =
     (case next_scan now (pq_byID q) (sess_ids q sessionID) of
        (None, m, ids) \<Rightarrow> (None, q\<lparr>pq_byID := m\<rparr>)
      | (Some item, m, ids) \<Rightarrow> (Some item, q\<lparr>pq_byID := m, pq_bySess := gm_put sessionID ids (pq_bySess q)\<rparr>))"

definition UpdateState ::
  "string \<Rightarrow> delivery_state \<Rightarrow> intervention_result option \<Rightarrow> pending_queue \<Rightarrow> bool \<times> pending_queue" where
  "UpdateState i st res q =
     (case gm_get (pq_byID q) i of
        None \<Rightarrow> (False, q)
      | Some item \<Rightarrow>
          let item' = item\<lparr>pi_State := st, pi_Result := (if res = None then pi_Result item else res)\<rparr>
          in (True, q\<lparr>pq_byID := gm_put i item' (pq_byID q)\<rparr>))"

definition inFlightAdvisory :: "delivery_state \<Rightarrow> bool" where
  "inFlightAdvisory st \<longleftrightarrow> st \<in> {StatePending, StateDelivering, StateTransportAccepted, StateSessionVisible}"

fun advisory_scan :: "time \<Rightarrow> pending_item gomap \<Rightarrow> string list \<Rightarrow> string option \<times> pending_item gomap" where
  "advisory_scan now m [] = (None, m)"
| "advisory_scan now m (i # ids) =
     (case gm_get m i of
        None \<Rightarrow> advisory_scan now m ids
      | Some item \<Rightarrow>
          if pi_State item = StatePending \<and> \<not> pi_ExpiresAt item > now then
            advisory_scan now (gm_put i (item\<lparr>pi_State := StateExpired\<rparr>) m) ids
          else if inFlightAdvisory (pi_State item) then (Some (iv_InterventionID (pi_Intervention item)), m)
          else advisory_scan now m ids)"

definition handed_in_flight :: "pending_item gomap \<Rightarrow> string \<Rightarrow> string \<Rightarrow> bool" where
  "handed_in_flight m s k =
     (case gm_get m k of
        None \<Rightarrow> False
      | Some item \<Rightarrow> iv_SessionID (pi_Intervention item) = s \<and> inFlightAdvisory (pi_State item)
          \<and> pi_State item \<noteq> StatePending)"

definition PendingAdvisoryID ::
  "range_order \<Rightarrow> time \<Rightarrow> string \<Rightarrow> pending_queue \<Rightarrow> string \<times> pending_queue" where
  "PendingAdvisoryID ord now sessionID q =
     (case advisory_scan now (pq_byID q) (sess_ids q sessionID) of
        (Some i, m) \<Rightarrow> (i, q\<lparr>pq_byID := m\<rparr>)
      | (None, m) \<Rightarrow>
          (case find (handed_in_flight m sessionID) (ord (gm_keys m)) of
             None \<Rightarrow> []
           | Some k \<Rightarrow> (case gm_get m k of None \<Rightarrow> [] | Some item \<Rightarrow> iv_InterventionID (pi_Intervention item)),
           q\<lparr>pq_byID := m\<rparr>))"

section \<open>Every intervention is handed out at most once\<close>

definition iv_of :: "pending_item gomap \<Rightarrow> string \<Rightarrow> intervention option" where
  "iv_of m k = map_option pi_Intervention (gm_get m k)"

lemma iv_of_put: "iv_of (gm_put i item m) k = (if k = i then Some (pi_Intervention item) else iv_of m k)"
  by (simp add: iv_of_def)

lemma iv_of_update:
  "gm_get m i = Some item \<Longrightarrow> pi_Intervention item' = pi_Intervention item \<Longrightarrow> iv_of (gm_put i item' m) = iv_of m"
  by (auto simp: iv_of_def fun_eq_iff)

lemma next_scan_spec:
  assumes "next_scan now m ids = (r, m', ids')"
  shows "iv_of m' = iv_of m"
    and "case r of
           None \<Rightarrow> ids' = ids
         | Some item \<Rightarrow> (\<exists>pre i post. ids = pre @ i # post \<and> ids' = pre @ post
             \<and> iv_of m i = Some (pi_Intervention item) \<and> gm_get m' i = Some item
             \<and> pi_State item = StateDelivering \<and> now < pi_ExpiresAt item)"
proof -
  have "iv_of m' = iv_of m \<and> (case r of
           None \<Rightarrow> ids' = ids
         | Some item \<Rightarrow> (\<exists>pre i post. ids = pre @ i # post \<and> ids' = pre @ post
             \<and> iv_of m i = Some (pi_Intervention item) \<and> gm_get m' i = Some item
             \<and> pi_State item = StateDelivering \<and> now < pi_ExpiresAt item))"
    using assms
  proof (induction now m ids arbitrary: r m' ids' rule: next_scan.induct)
    case (2 now m i ids)
    consider (skip) m0 ids0 where "next_scan now m0 ids = (r, m', ids0)" "ids' = i # ids0" "iv_of m0 = iv_of m"
        "gm_get m i = None \<and> m0 = m \<or> (\<exists>item. gm_get m i = Some item \<and> pi_State item \<noteq> StatePending \<and> m0 = m)
         \<or> (\<exists>item. gm_get m i = Some item \<and> pi_State item = StatePending \<and> \<not> now < pi_ExpiresAt item
              \<and> m0 = gm_put i (item\<lparr>pi_State := StateExpired\<rparr>) m)"
      | (hit) item where "gm_get m i = Some item" "r = Some (item\<lparr>pi_State := StateDelivering\<rparr>)"
        "m' = gm_put i (item\<lparr>pi_State := StateDelivering\<rparr>) m" "ids' = ids" "now < pi_ExpiresAt item"
      using "2.prems" iv_of_update [of m i]
      by (fastforce split: option.splits if_splits prod.splits simp: Let_def)
    then show ?case
    proof cases
      case skip
      have ih: "iv_of m' = iv_of m0 \<and> (case r of
           None \<Rightarrow> ids0 = ids
         | Some item \<Rightarrow> (\<exists>pre i post. ids = pre @ i # post \<and> ids0 = pre @ post
             \<and> iv_of m0 i = Some (pi_Intervention item) \<and> gm_get m' i = Some item
             \<and> pi_State item = StateDelivering \<and> now < pi_ExpiresAt item))"
        using skip(4) 2(1-3) skip(1) by (elim disjE exE conjE) auto
      show ?thesis
      proof (cases r)
        case None
        then show ?thesis using ih skip by simp
      next
        case (Some item)
        with ih obtain pre j post where j: "ids = pre @ j # post" "ids0 = pre @ post"
            "iv_of m0 j = Some (pi_Intervention item)" "gm_get m' j = Some item"
            "pi_State item = StateDelivering" "now < pi_ExpiresAt item" by auto
        have "i # ids = (i # pre) @ j # post \<and> ids' = (i # pre) @ post" using j skip by simp
        then have "\<exists>pre k post. i # ids = pre @ k # post \<and> ids' = pre @ post
            \<and> iv_of m k = Some (pi_Intervention item) \<and> gm_get m' k = Some item"
          using j skip(3) by metis
        then show ?thesis using j ih Some skip(3) by simp
      qed
    next
      case hit
      have "i # ids = [] @ i # ids \<and> ids' = [] @ ids" using hit by simp
      moreover have "iv_of m i = Some (pi_Intervention item)" using hit by (simp add: iv_of_def)
      moreover have "gm_get m' i = Some (item\<lparr>pi_State := StateDelivering\<rparr>)" "iv_of m' = iv_of m"
        using hit iv_of_update [of m i item] by simp_all
      ultimately have "\<exists>pre k post. i # ids = pre @ k # post \<and> ids' = pre @ post
          \<and> iv_of m k = Some (pi_Intervention item) \<and> gm_get m' k = Some (item\<lparr>pi_State := StateDelivering\<rparr>)"
        by metis
      then show ?thesis using hit \<open>iv_of m' = iv_of m\<close> by simp
    qed
  qed simp
  then show "iv_of m' = iv_of m"
    and "case r of
           None \<Rightarrow> ids' = ids
         | Some item \<Rightarrow> (\<exists>pre i post. ids = pre @ i # post \<and> ids' = pre @ post
             \<and> iv_of m i = Some (pi_Intervention item) \<and> gm_get m' i = Some item
             \<and> pi_State item = StateDelivering \<and> now < pi_ExpiresAt item)"
    by simp_all
qed

lemma advisory_scan_items: "advisory_scan now m ids = (r, m') \<Longrightarrow> iv_of m' = iv_of m"
proof (induction now m ids arbitrary: r m' rule: advisory_scan.induct)
  case (2 now m i ids)
  then show ?case using iv_of_update [of m i] by (auto split: option.splits if_splits)
qed simp

definition pq_inv :: "pending_queue \<Rightarrow> bool" where
  "pq_inv q \<longleftrightarrow>
     (\<forall>i iv. iv_of (pq_byID q) i = Some iv \<longrightarrow> iv_InterventionID iv = i)
     \<and> (\<forall>s. distinct (sess_ids q s)
          \<and> (\<forall>i \<in> set (sess_ids q s). \<exists>iv. iv_of (pq_byID q) i = Some iv \<and> iv_SessionID iv = s))"

lemma pq_invD:
  assumes "pq_inv q"
  shows "iv_of (pq_byID q) i = Some iv \<Longrightarrow> iv_InterventionID iv = i"
    and "distinct (sess_ids q s)"
    and "i \<in> set (sess_ids q s) \<Longrightarrow> \<exists>iv. iv_of (pq_byID q) i = Some iv \<and> iv_SessionID iv = s"
  using assms by (auto simp: pq_inv_def)

datatype pq_op =
    PqEnqueue time intervention int
  | PqNext time string
  | PqUpdate string delivery_state "intervention_result option"
  | PqAdvisory range_order time string

type_synonym handed = "string \<times> time \<times> pending_item"

definition handed_id :: "handed \<Rightarrow> string" where
  "handed_id h = iv_InterventionID (pi_Intervention (snd (snd h)))"

definition handed_ok :: "handed \<Rightarrow> bool" where
  "handed_ok h = (case h of (s, now, item) \<Rightarrow>
     iv_SessionID (pi_Intervention item) = s \<and> pi_State item = StateDelivering \<and> now < pi_ExpiresAt item)"

fun pq_exec :: "pq_op \<Rightarrow> pending_queue \<times> handed list \<Rightarrow> pending_queue \<times> handed list" where
  "pq_exec (PqEnqueue now iv ttl) (q, out) = (snd (pq_Enqueue now iv ttl q), out)"
| "pq_exec (PqNext now s) (q, out) =
     (case NextPending now s q of (r, q') \<Rightarrow> (q', case r of None \<Rightarrow> out | Some item \<Rightarrow> out @ [(s, now, item)]))"
| "pq_exec (PqUpdate i st res) (q, out) = (snd (UpdateState i st res q), out)"
| "pq_exec (PqAdvisory ord now s) (q, out) = (snd (PendingAdvisoryID ord now s q), out)"

definition run_inv :: "pending_queue \<times> handed list \<Rightarrow> bool" where
  "run_inv st = (case st of (q, out) \<Rightarrow>
     pq_inv q \<and> distinct (map handed_id out) \<and> list_all handed_ok out
     \<and> (\<forall>h \<in> set out. iv_of (pq_byID q) (handed_id h) \<noteq> None \<and> (\<forall>s. handed_id h \<notin> set (sess_ids q s))))"

text \<open>Operations that keep the interventions and the order keep the invariant.\<close>

lemma run_inv_same:
  assumes "run_inv (q, out)" "iv_of (pq_byID q') = iv_of (pq_byID q)" "pq_bySess q' = pq_bySess q"
  shows "run_inv (q', out)"
proof -
  have "sess_ids q' s = sess_ids q s" for s using assms(3) by (simp add: sess_ids_def)
  then show ?thesis using assms by (simp add: run_inv_def pq_inv_def)
qed

lemma run_inv_enqueue: "run_inv (q, out) \<Longrightarrow> run_inv (snd (pq_Enqueue now iv ttl q), out)"
proof -
  assume inv: "run_inv (q, out)"
  show "run_inv (snd (pq_Enqueue now iv ttl q), out)"
  proof (cases "gm_get (pq_byID q) (iv_InterventionID iv)")
    case (Some existing)
    then show ?thesis using inv by (simp add: pq_Enqueue_def)
  next
    case None
    then have new: "iv_of (pq_byID q) (iv_InterventionID iv) = None" by (simp add: iv_of_def)
    have pq: "pq_inv q" using inv by (simp add: run_inv_def)
    have fresh: "iv_InterventionID iv \<notin> set (sess_ids q s)" for s
      using pq_invD(3) [OF pq] new by fastforce
    have "sess_ids (q\<lparr>pq_byID := m, pq_bySess := gm_put (iv_SessionID iv) l b\<rparr>) s
        = (if s = iv_SessionID iv then l else sess_ids (q\<lparr>pq_byID := m, pq_bySess := b\<rparr>) s)" for m l b s
      by (simp add: sess_ids_def)
    moreover have "sess_ids (q\<lparr>pq_byID := m\<rparr>) s = sess_ids q s" for m s by (simp add: sess_ids_def)
    ultimately show ?thesis using inv new fresh None
      unfolding run_inv_def pq_inv_def pq_Enqueue_def
      by (auto simp: iv_of_put Let_def)
  qed
qed

lemma run_inv_next:
  assumes inv: "run_inv (q, out)" and n: "NextPending now s q = (r, q')"
  shows "run_inv (q', case r of None \<Rightarrow> out | Some item \<Rightarrow> out @ [(s, now, item)])"
proof -
  obtain r0 m ids where sc: "next_scan now (pq_byID q) (sess_ids q s) = (r0, m, ids)" by (metis prod_cases3)
  note spec = next_scan_spec [OF sc]
  show ?thesis
  proof (cases r0)
    case None
    with n sc spec(1) show ?thesis by (auto simp: NextPending_def intro: run_inv_same [OF inv])
  next
    case (Some item)
    from spec(2) Some obtain pre i post where i: "sess_ids q s = pre @ i # post" "ids = pre @ post"
      "iv_of (pq_byID q) i = Some (pi_Intervention item)" "pi_State item = StateDelivering" "now < pi_ExpiresAt item"
      by auto
    have q': "r = Some item" "q' = q\<lparr>pq_byID := m, pq_bySess := gm_put s ids (pq_bySess q)\<rparr>"
      using n sc Some by (auto simp: NextPending_def)
    have ids': "sess_ids q' s' = (if s' = s then ids else sess_ids q s')" for s'
      by (simp add: q'(2) sess_ids_def)
    have pq: "pq_inv q" using inv by (simp add: run_inv_def)
    have base: "distinct (sess_ids q s)" "iv_InterventionID (pi_Intervention item) = i"
      "iv_SessionID (pi_Intervention item) = s"
      using pq_invD(2) [OF pq, of s] pq_invD(1) [OF pq i(3)] pq_invD(3) [OF pq, of i s] i(1,3) by simp_all
    have only: "i \<notin> set (sess_ids q s')" if "s' \<noteq> s" for s'
      using pq_invD(3) [OF pq, of i s'] i(3) base(3) that by auto
    have gone: "\<forall>s'. i \<notin> set (sess_ids q' s')"
      using base(1) only i(1,2) by (auto simp: ids')
    have sub: "set (sess_ids q' s') \<subseteq> set (sess_ids q s')" "distinct (sess_ids q' s')" for s'
      using i(1,2) base(1) pq_invD(2) [OF pq, of s'] by (auto simp: ids')
    have "pq_inv q'" using inv spec(1) sub q'(2) by (fastforce simp: run_inv_def pq_inv_def)
    moreover have "handed_id (s, now, item) = i" "handed_ok (s, now, item)"
      using base i by (simp_all add: handed_id_def handed_ok_def)
    moreover have "\<forall>h \<in> set out. handed_id h \<noteq> i"
    proof
      fix h assume "h \<in> set out"
      then have "handed_id h \<notin> set (sess_ids q s)" using inv by (simp add: run_inv_def)
      then show "handed_id h \<noteq> i" using i(1) by auto
    qed
    ultimately show ?thesis
      using inv spec(1) gone sub(1) q' i(3) by (fastforce simp: run_inv_def)
  qed
qed

lemma run_inv_exec: "run_inv st \<Longrightarrow> run_inv (pq_exec op st)"
proof (cases st)
  case (Pair q out)
  assume inv: "run_inv st"
  show ?thesis
  proof (cases op)
    case (PqEnqueue now iv ttl)
    then show ?thesis using inv Pair by (simp add: run_inv_enqueue)
  next
    case (PqNext now s)
    then show ?thesis using inv Pair run_inv_next by (auto split: prod.split)
  next
    case (PqUpdate i st' res)
    have "iv_of (pq_byID (snd (UpdateState i st' res q))) = iv_of (pq_byID q)
        \<and> pq_bySess (snd (UpdateState i st' res q)) = pq_bySess q"
      by (auto simp: UpdateState_def Let_def iv_of_update split: option.splits)
    then show ?thesis using inv Pair PqUpdate by (auto intro: run_inv_same)
  next
    case (PqAdvisory ord now s)
    have "iv_of (pq_byID (snd (PendingAdvisoryID ord now s q))) = iv_of (pq_byID q)
        \<and> pq_bySess (snd (PendingAdvisoryID ord now s q)) = pq_bySess q"
      using advisory_scan_items by (auto simp: PendingAdvisoryID_def split: option.splits prod.splits)
    then show ?thesis using inv Pair PqAdvisory by (auto intro: run_inv_same)
  qed
qed

text \<open>
  C33. The pending queue hands every intervention out at most once. Over any sequence of enqueues
  (duplicates included), dequeues, state updates (back to pending included) and advisory queries,
  at any clock readings, the identifiers of the items handed out are pairwise different, and each
  item went to the session it was enqueued for, marked as delivering, before its expiry.
\<close>

theorem handed_out_at_most_once:
  "case fold pq_exec ops (NewPendingQueue, []) of (q, out) \<Rightarrow>
     distinct (map handed_id out) \<and> list_all handed_ok out"
proof -
  have "run_inv (NewPendingQueue, [])"
    by (simp add: run_inv_def pq_inv_def NewPendingQueue_def iv_of_def sess_ids_def)
  then have "run_inv (fold pq_exec ops (NewPendingQueue, []))"
    by (rule fold_invariant_weak) (rule run_inv_exec)
  then show ?thesis by (auto simp: run_inv_def split: prod.splits)
qed

end
