(* ===== verification/AdviceLedger.thy ===== *)
theory AdviceLedger
  imports GoJSON DeliveryQueue ProposedAction
begin

text \<open>
  The durable advice ledger, \<open>pkg/adapter/durable_advice_ledger.go\<close>: an append-only JSONL file of
  delivery transitions and, for the case that the file cannot be written after the host may have
  accepted a delivery, a sidecar directory of suppress markers. The disk is a record beside the
  ledger; every system call that can fail has its outcome as an argument, partial writes included.
  \<open>time.Time\<close>'s JSON form is the parameter \<open>time_codec\<close>. C34: along any run of appends, marks,
  crashes and restarts, a key that suppresses redelivery is never forgotten.
\<close>

section \<open>Transitions and their lines\<close>

record delivery_transition =
  dt_Schema :: string
  dt_At :: time
  dt_InterventionID :: string
  dt_SessionID :: string
  dt_FromState :: string
  dt_ToState :: string
  dt_AckLayer :: string
  dt_AckStatus :: string
  dt_HostFamily :: string
  dt_HostVersion :: string
  dt_Profile :: string
  dt_SafeBoundary :: string
  dt_TargetSession :: string
  dt_CapsDigest :: string
  dt_Message :: string
  dt_SourceKind :: string
  dt_SourceEventID :: string
  dt_CorrelationID :: string
  dt_Fingerprint :: string

record time_codec =
  tm_format :: "time \<Rightarrow> string"
  tm_parse :: "string \<Rightarrow> time option"

abbreviation adviceLedgerSchemaV1 :: string where "adviceLedgerSchemaV1 \<equiv> ''reinframe.advice_delivery.v1''"

abbreviation ErrLedgerRecoveryIncomplete :: go_error where
  "ErrLedgerRecoveryIncomplete \<equiv> ''durable advice ledger: suppress recovery incomplete''"
abbreviation ErrLedgerCorrupt :: go_error where "ErrLedgerCorrupt \<equiv> ''durable advice ledger: corrupt transition record''"
abbreviation ErrLedgerMarkerInvalid :: go_error where
  "ErrLedgerMarkerInvalid \<equiv> ''durable advice ledger: invalid suppress marker''"
abbreviation ErrLedgerPathUnsafe :: go_error where "ErrLedgerPathUnsafe \<equiv> ''durable advice ledger: unsafe path''"
abbreviation io_error :: go_error where "io_error \<equiv> ''input/output error''"

definition omit_empty :: "string \<Rightarrow> string \<Rightarrow> (string \<times> string) list" where
  "omit_empty k v = (if v = [] then [] else [(k, v)])"

definition transition_members :: "time_codec \<Rightarrow> delivery_transition \<Rightarrow> (string \<times> string) list" where
  "transition_members tc tr =
     [(''schema'', dt_Schema tr), (''at'', tm_format tc (dt_At tr)),
      (''intervention_id'', dt_InterventionID tr), (''session_id'', dt_SessionID tr)]
     @ omit_empty ''from_state'' (dt_FromState tr) @ [(''to_state'', dt_ToState tr)]
     @ omit_empty ''ack_layer'' (dt_AckLayer tr) @ omit_empty ''ack_status'' (dt_AckStatus tr)
     @ omit_empty ''host_family'' (dt_HostFamily tr) @ omit_empty ''host_version'' (dt_HostVersion tr)
     @ omit_empty ''profile'' (dt_Profile tr) @ omit_empty ''safe_boundary'' (dt_SafeBoundary tr)
     @ omit_empty ''target_session_id'' (dt_TargetSession tr) @ omit_empty ''caps_digest'' (dt_CapsDigest tr)
     @ omit_empty ''message'' (dt_Message tr) @ omit_empty ''source_kind'' (dt_SourceKind tr)
     @ omit_empty ''source_event_id'' (dt_SourceEventID tr) @ omit_empty ''correlation_id'' (dt_CorrelationID tr)
     @ omit_empty ''fingerprint'' (dt_Fingerprint tr)"

definition transition_json :: "time_codec \<Rightarrow> delivery_transition \<Rightarrow> string" where
  "transition_json tc tr = json_object (transition_members tc tr)"

definition transition_setters :: "(string \<times> (string \<Rightarrow> delivery_transition \<Rightarrow> delivery_transition)) list" where
  "transition_setters =
     [(''schema'', \<lambda>v tr. tr\<lparr>dt_Schema := v\<rparr>), (''intervention_id'', \<lambda>v tr. tr\<lparr>dt_InterventionID := v\<rparr>),
      (''session_id'', \<lambda>v tr. tr\<lparr>dt_SessionID := v\<rparr>), (''from_state'', \<lambda>v tr. tr\<lparr>dt_FromState := v\<rparr>),
      (''to_state'', \<lambda>v tr. tr\<lparr>dt_ToState := v\<rparr>), (''ack_layer'', \<lambda>v tr. tr\<lparr>dt_AckLayer := v\<rparr>),
      (''ack_status'', \<lambda>v tr. tr\<lparr>dt_AckStatus := v\<rparr>), (''host_family'', \<lambda>v tr. tr\<lparr>dt_HostFamily := v\<rparr>),
      (''host_version'', \<lambda>v tr. tr\<lparr>dt_HostVersion := v\<rparr>), (''profile'', \<lambda>v tr. tr\<lparr>dt_Profile := v\<rparr>),
      (''safe_boundary'', \<lambda>v tr. tr\<lparr>dt_SafeBoundary := v\<rparr>), (''target_session_id'', \<lambda>v tr. tr\<lparr>dt_TargetSession := v\<rparr>),
      (''caps_digest'', \<lambda>v tr. tr\<lparr>dt_CapsDigest := v\<rparr>), (''message'', \<lambda>v tr. tr\<lparr>dt_Message := v\<rparr>),
      (''source_kind'', \<lambda>v tr. tr\<lparr>dt_SourceKind := v\<rparr>), (''source_event_id'', \<lambda>v tr. tr\<lparr>dt_SourceEventID := v\<rparr>),
      (''correlation_id'', \<lambda>v tr. tr\<lparr>dt_CorrelationID := v\<rparr>), (''fingerprint'', \<lambda>v tr. tr\<lparr>dt_Fingerprint := v\<rparr>)]"

text \<open>A member goes to the field of its name, or else to the field that equals it up to case.\<close>

definition field_named :: "string \<Rightarrow> string" where
  "field_named k =
     (if k = ''at'' \<or> map_of transition_setters k \<noteq> None then k
      else if ToLower k = ''at'' \<or> map_of transition_setters (ToLower k) \<noteq> None then ToLower k
      else [])"

definition set_member :: "time_codec \<Rightarrow> string \<times> json \<Rightarrow> delivery_transition \<Rightarrow> delivery_transition option" where
  "set_member tc m tr =
     (case m of (k0, v) \<Rightarrow>
        let k = field_named k0 in
        if k = [] \<or> v = JNull then Some tr
        else case v of
          JStr s \<Rightarrow>
            if k = ''at'' then map_option (\<lambda>t. tr\<lparr>dt_At := t\<rparr>) (tm_parse tc s)
            else map_option (\<lambda>set. set s tr) (map_of transition_setters k)
        | _ \<Rightarrow> None)"

fun set_members :: "time_codec \<Rightarrow> (string \<times> json) list \<Rightarrow> delivery_transition \<Rightarrow> delivery_transition option" where
  "set_members tc [] tr = Some tr"
| "set_members tc (m # ms) tr = (case set_member tc m tr of None \<Rightarrow> None | Some tr' \<Rightarrow> set_members tc ms tr')"

definition zero_transition :: delivery_transition where
  "zero_transition = \<lparr>dt_Schema = [], dt_At = 0, dt_InterventionID = [], dt_SessionID = [], dt_FromState = [],
     dt_ToState = [], dt_AckLayer = [], dt_AckStatus = [], dt_HostFamily = [], dt_HostVersion = [],
     dt_Profile = [], dt_SafeBoundary = [], dt_TargetSession = [], dt_CapsDigest = [], dt_Message = [],
     dt_SourceKind = [], dt_SourceEventID = [], dt_CorrelationID = [], dt_Fingerprint = []\<rparr>"

definition transition_of :: "time_codec \<Rightarrow> string \<Rightarrow> delivery_transition option" where
  "transition_of tc line =
     (case json_parse line of
        Some (JObj ms) \<Rightarrow> set_members tc ms zero_transition
      | Some JNull \<Rightarrow> Some zero_transition
      | _ \<Rightarrow> None)"

definition known_state :: "string \<Rightarrow> delivery_state option" where
  "known_state s = find (\<lambda>st. state_str st = s) all_states"

definition isKnownDeliveryState :: "string \<Rightarrow> bool" where
  "isKnownDeliveryState s \<longleftrightarrow> known_state s \<noteq> None"

definition isSuppressState :: "string \<Rightarrow> bool" where
  "isSuppressState s \<longleftrightarrow> s \<in> state_str ` {StateTransportAccepted, StateSessionVisible, StateExplicitACK,
     StateBehavioralACK, StateAcked, StateRejected, StateTimedOut, StateExpired, StateSuppressed, StateAmbiguous}"

definition validateTransitionSemantic :: "delivery_transition \<Rightarrow> go_error option" where
  "validateTransitionSemantic tr =
     (if dt_Schema tr \<noteq> adviceLedgerSchemaV1 then Some ErrLedgerCorrupt
      else if dt_ToState tr = [] then Some ErrLedgerCorrupt
      else if \<not> isKnownDeliveryState (dt_ToState tr) then Some ErrLedgerCorrupt
      else if dt_FromState tr \<noteq> [] \<and> \<not> isKnownDeliveryState (dt_FromState tr) then Some ErrLedgerCorrupt
      else if dt_InterventionID tr = [] then Some ErrLedgerCorrupt
      else if isSuppressState (dt_ToState tr) \<and> dt_SessionID tr = [] then Some ErrLedgerCorrupt
      else None)"

section \<open>Dedupe keys and markers\<close>

definition dedupeKey :: "string \<Rightarrow> string \<Rightarrow> string \<Rightarrow> string \<Rightarrow> string" where
  "dedupeKey i s h f = json_strings [i, s, h, f]"

definition transition_key :: "delivery_transition \<Rightarrow> string" where
  "transition_key tr = dedupeKey (dt_InterventionID tr) (dt_SessionID tr) (dt_HostFamily tr) (dt_Fingerprint tr)"

fun array_part :: "json \<Rightarrow> string option" where
  "array_part (JStr s) = Some s"
| "array_part JNull = Some []"
| "array_part _ = None"

definition validateDedupeKeyEncoding :: "string \<Rightarrow> go_error option" where
  "validateDedupeKeyEncoding key =
     (case json_parse key of
        Some (JArr vs) \<Rightarrow>
          if list_all (\<lambda>v. array_part v \<noteq> None) (take 4 vs) \<and> vs \<noteq> [] \<and> array_part (hd vs) \<noteq> Some []
          then None else Some ErrLedgerMarkerInvalid
      | _ \<Rightarrow> Some ErrLedgerMarkerInvalid)"

definition suppressMarkerFilename :: "gostd \<Rightarrow> string \<Rightarrow> string" where
  "suppressMarkerFilename std key = take 32 (sha256_hex std key) @ ''.key''"

definition suppressMarkerTempName :: "gostd \<Rightarrow> string \<Rightarrow> string" where
  "suppressMarkerTempName std key = suppressMarkerFilename std key @ ''.tmp''"

definition maxSuppressMarkerBytes :: nat where "maxSuppressMarkerBytes = 4096"

definition strip_tmp :: "string \<Rightarrow> string" where
  "strip_tmp name = (if HasSuffix name ''.tmp'' then take (length name - 4) name else name)"

definition parseAndValidateMarkerBody :: "gostd \<Rightarrow> string \<Rightarrow> string \<Rightarrow> string go_result" where
  "parseAndValidateMarkerBody std name body =
     (if body = [] \<or> length body > maxSuppressMarkerBytes then Inl ErrLedgerMarkerInvalid
      else if \<not> ValidString body then Inl ErrLedgerMarkerInvalid
      else
        let key = TrimSpace body in
        if key = [] \<or> CHR 0x00 \<in> set key then Inl ErrLedgerMarkerInvalid
        else if strip_tmp name \<noteq> suppressMarkerFilename std key then Inl ErrLedgerMarkerInvalid
        else case validateDedupeKeyEncoding key of Some e \<Rightarrow> Inl e | None \<Rightarrow> Inr key)"

definition tryParseLegacyPipeKey :: "string \<Rightarrow> string list option" where
  "tryParseLegacyPipeKey raw0 =
     (let raw = TrimSpace raw0; p = Split raw (CHR ''|'') in
      if raw = [] \<or> length (filter (\<lambda>c. c = CHR ''|'') raw) \<noteq> 3 then None
      else if length p \<noteq> 4 \<or> hd p = [] then None else Some p)"

section \<open>The disk\<close>

datatype jsonl_file = JMissing | JDirectory | JUnreadable | JBytes string

datatype marker_entry = MBody string | MDirectory | MLink | MUnreadable

datatype sidecar = SMissing | SNotDirectory | SUnreadable | SDir "marker_entry gomap"

record ledger_disk =
  dk_pathLink :: bool
  dk_file :: jsonl_file
  dk_sideLink :: bool
  dk_side :: sidecar

record ledger =
  al_seen :: "string list"
  al_cursor :: int

record open_faults =
  of_write :: "string \<Rightarrow> bool"
  of_rename :: "string \<Rightarrow> bool"
  of_remove :: "string \<Rightarrow> bool"

datatype write_outcome = WriteOk | WriteFails nat

section \<open>Opening\<close>

fun split_lines :: "string \<Rightarrow> string \<Rightarrow> string list" where
  "split_lines cur [] = (if cur = [] then [] else [rev cur])"
| "split_lines cur (c # cs) = (if c = CHR 0x0A then rev cur # split_lines [] cs else split_lines (c # cur) cs)"

fun ingest_lines :: "time_codec \<Rightarrow> string list \<Rightarrow> string list \<Rightarrow> string list go_result" where
  "ingest_lines tc [] seen = Inr seen"
| "ingest_lines tc (line # rest) seen =
     (if line = [] then ingest_lines tc rest seen
      else case transition_of tc line of
        None \<Rightarrow> Inl ErrLedgerCorrupt
      | Some tr \<Rightarrow>
          (case validateTransitionSemantic tr of
             Some e \<Rightarrow> Inl e
           | None \<Rightarrow>
               ingest_lines tc rest
                 (if isSuppressState (dt_ToState tr) then List.insert (transition_key tr) seen else seen)))"

definition ingestJSONL :: "time_codec \<Rightarrow> string \<Rightarrow> string list \<Rightarrow> string list go_result" where
  "ingestJSONL tc b seen =
     (if b \<noteq> [] \<and> last b \<noteq> CHR 0x0A then Inl ErrLedgerCorrupt else ingest_lines tc (split_lines [] b) seen)"

definition migrateLegacyPipeMarker ::
  "gostd \<Rightarrow> open_faults \<Rightarrow> string \<Rightarrow> string list \<Rightarrow> marker_entry gomap \<Rightarrow> string go_result \<times> marker_entry gomap" where
  "migrateLegacyPipeMarker std fl legacy parts dir =
     (let newKey = json_strings (take 4 parts);
          final = suppressMarkerFilename std newKey; tmp = suppressMarkerTempName std newKey
      in if \<not> of_write fl tmp then (Inl ErrLedgerRecoveryIncomplete, dir)
         else
           let dir1 = gm_put tmp (MBody (newKey @ [CHR 0x0A])) dir in
           if \<not> of_rename fl final then
             (Inl ErrLedgerRecoveryIncomplete, if of_remove fl tmp then gm_del tmp dir1 else dir1)
           else
             let dir2 = gm_put final (MBody (newKey @ [CHR 0x0A])) (gm_del tmp dir1) in
             (Inr newKey, if of_remove fl legacy then gm_del legacy dir2 else dir2))"

definition loadMarkerFile ::
  "gostd \<Rightarrow> open_faults \<Rightarrow> string \<Rightarrow> string \<Rightarrow> marker_entry gomap \<Rightarrow> string go_result \<times> marker_entry gomap" where
  "loadMarkerFile std fl name body dir =
     (case parseAndValidateMarkerBody std name body of
        Inr key \<Rightarrow> (Inr key, dir)
      | Inl _ \<Rightarrow>
          let raw = TrimSpace body in
          if strip_tmp name \<noteq> suppressMarkerFilename std raw then (Inl ErrLedgerMarkerInvalid, dir)
          else case tryParseLegacyPipeKey raw of
            None \<Rightarrow> (Inl ErrLedgerMarkerInvalid, dir)
          | Some parts \<Rightarrow> migrateLegacyPipeMarker std fl name parts dir)"

text \<open>One directory entry: the key it contributes, if any, and the directory afterwards.\<close>

definition load_marker ::
  "gostd \<Rightarrow> open_faults \<Rightarrow> string \<Rightarrow> bool \<Rightarrow> marker_entry gomap \<Rightarrow> string option go_result \<times> marker_entry gomap" where
  "load_marker std fl name isDir dir =
     (if HasSuffix name ''.tmp'' then
        if isDir then (Inl ErrLedgerRecoveryIncomplete, dir)
        else if \<not> HasSuffix name ''.key.tmp'' then (Inl ErrLedgerRecoveryIncomplete, dir)
        else case gm_get dir name of
          Some MLink \<Rightarrow> (Inl ErrLedgerPathUnsafe, dir)
        | Some (MBody b) \<Rightarrow>
            (case parseAndValidateMarkerBody std name b of
               Inr key \<Rightarrow>
                 let final = suppressMarkerFilename std key in
                 if \<not> of_rename fl final then (Inl ErrLedgerRecoveryIncomplete, dir)
                 else (Inr (Some key), gm_put final (MBody b) (gm_del name dir))
             | Inl _ \<Rightarrow>
                 (case loadMarkerFile std fl name b dir of
                    (Inl e, dir') \<Rightarrow> (Inl ErrLedgerRecoveryIncomplete, dir')
                  | (Inr key, dir') \<Rightarrow> (Inr (Some key), if of_remove fl name then gm_del name dir' else dir')))
        | _ \<Rightarrow> (Inl ErrLedgerRecoveryIncomplete, dir)
      else if isDir then
        (if HasSuffix name ''.key'' then Inl ErrLedgerRecoveryIncomplete else Inr None, dir)
      else if \<not> HasSuffix name ''.key'' then (Inr None, dir)
      else case gm_get dir name of
        Some MLink \<Rightarrow> (Inl ErrLedgerPathUnsafe, dir)
      | Some (MBody b) \<Rightarrow>
          (case loadMarkerFile std fl name b dir of (r, dir') \<Rightarrow> (map_sum id Some r, dir'))
      | _ \<Rightarrow> (Inl ErrLedgerRecoveryIncomplete, dir))"

fun load_markers ::
  "gostd \<Rightarrow> open_faults \<Rightarrow> (string \<times> bool) list \<Rightarrow> marker_entry gomap \<Rightarrow> string list
   \<Rightarrow> string list go_result \<times> marker_entry gomap" where
  "load_markers std fl [] dir seen = (Inr seen, dir)"
| "load_markers std fl ((name, isDir) # rest) dir seen =
     (case load_marker std fl name isDir dir of
        (Inl e, dir') \<Rightarrow> (Inl e, dir')
      | (Inr None, dir') \<Rightarrow> load_markers std fl rest dir' seen
      | (Inr (Some key), dir') \<Rightarrow> load_markers std fl rest dir' (List.insert key seen))"

definition read_dir :: "marker_entry gomap \<Rightarrow> (string \<times> bool) list" where
  "read_dir dir = map (\<lambda>n. (n, gm_get dir n = Some MDirectory)) (sort (remdups (gm_keys dir)))"

definition loadAmbiguousMarkers ::
  "gostd \<Rightarrow> open_faults \<Rightarrow> ledger_disk \<Rightarrow> string list \<Rightarrow> string list go_result \<times> ledger_disk" where
  "loadAmbiguousMarkers std fl d seen =
     (if dk_sideLink d then (Inl ErrLedgerPathUnsafe, d)
      else case dk_side d of
        SMissing \<Rightarrow> (Inr seen, d)
      | SNotDirectory \<Rightarrow> (Inl ErrLedgerRecoveryIncomplete, d)
      | SUnreadable \<Rightarrow> (Inl ErrLedgerRecoveryIncomplete, d)
      | SDir dir \<Rightarrow> (case load_markers std fl (read_dir dir) dir seen of (r, dir') \<Rightarrow> (r, d\<lparr>dk_side := SDir dir'\<rparr>)))"

definition OpenDurableAdviceLedger ::
  "gostd \<Rightarrow> time_codec \<Rightarrow> open_faults \<Rightarrow> string \<Rightarrow> ledger_disk \<Rightarrow> ledger go_result \<times> ledger_disk" where
  "OpenDurableAdviceLedger std tc fl path d =
     (if path = [] then (Inl ''durable advice ledger: path required'', d)
      else if dk_pathLink d then (Inl ''durable advice ledger: path is a symlink'', d)
      else
        let file = (case dk_file d of
                      JBytes b \<Rightarrow> map_sum id (\<lambda>seen. (seen, int (length b))) (ingestJSONL tc b [])
                    | JUnreadable \<Rightarrow> Inl io_error
                    | _ \<Rightarrow> Inr ([], 0))
        in case file of
             Inl e \<Rightarrow> (Inl e, d)
           | Inr (seen, cur) \<Rightarrow>
               (case loadAmbiguousMarkers std fl d seen of
                  (Inl e, d') \<Rightarrow> (Inl e, d')
                | (Inr seen', d') \<Rightarrow> (Inr \<lparr>al_seen = seen', al_cursor = cur\<rparr>, d')))"

section \<open>Writing\<close>

record append_io =
  ap_mkdir :: bool
  ap_open :: bool
  ap_write :: write_outcome

definition complete_transition :: "time \<Rightarrow> delivery_transition \<Rightarrow> delivery_transition" where
  "complete_transition now tr =
     tr\<lparr>dt_Schema := (if dt_Schema tr = [] then adviceLedgerSchemaV1 else dt_Schema tr),
        dt_At := (if dt_At tr = 0 then now else dt_At tr)\<rparr>"

definition Append ::
  "time_codec \<Rightarrow> append_io \<Rightarrow> time \<Rightarrow> delivery_transition \<Rightarrow> ledger \<times> ledger_disk
   \<Rightarrow> go_error option \<times> ledger \<times> ledger_disk" where
  "Append tc io now tr0 st =
     (case st of (l, d) \<Rightarrow>
        let tr = complete_transition now tr0; line = transition_json tc tr @ [CHR 0x0A] in
        case validateTransitionSemantic tr of
          Some e \<Rightarrow> (Some e, l, d)
        | None \<Rightarrow>
            if \<not> ap_mkdir io then (Some io_error, l, d)
            else if \<not> ap_open io then (Some io_error, l, d)
            else
              (case (case dk_file d of JMissing \<Rightarrow> Some [] | JBytes b \<Rightarrow> Some b | _ \<Rightarrow> None) of
                 None \<Rightarrow> (Some io_error, l, d)
               | Some b \<Rightarrow>
                   (case ap_write io of
                      WriteFails n \<Rightarrow> (Some io_error, l, d\<lparr>dk_file := JBytes (b @ take n line)\<rparr>)
                    | WriteOk \<Rightarrow>
                        (None,
                         l\<lparr>al_cursor := al_cursor l + int (length line),
                           al_seen := (if isSuppressState (dt_ToState tr)
                                       then List.insert (transition_key tr) (al_seen l) else al_seen l)\<rparr>,
                         d\<lparr>dk_file := JBytes (b @ line)\<rparr>))))"

definition RecordResultWithSource ::
  "time_codec \<Rightarrow> append_io \<Rightarrow> time \<Rightarrow> delivery_state \<Rightarrow> string \<Rightarrow> intervention_result \<Rightarrow> delivery_state
   \<Rightarrow> string \<Rightarrow> string \<Rightarrow> string \<Rightarrow> string \<Rightarrow> ledger \<times> ledger_disk \<Rightarrow> go_error option \<times> ledger \<times> ledger_disk" where
  "RecordResultWithSource tc io now from sessionID res to srcKind srcEvent corr fingerprint =
     Append tc io now
       \<lparr>dt_Schema = [], dt_At = 0, dt_InterventionID = ir_InterventionID res, dt_SessionID = sessionID,
        dt_FromState = state_str from, dt_ToState = state_str to, dt_AckLayer = ir_AckLayer res,
        dt_AckStatus = ir_AckStatus res, dt_HostFamily = ir_HostFamily res, dt_HostVersion = ir_HostVersion res,
        dt_Profile = ir_Profile res, dt_SafeBoundary = ir_SafeBoundary res,
        dt_TargetSession = ir_TargetSessionID res, dt_CapsDigest = ir_CapsDigest res,
        dt_Message = boundRunes (ir_Message res) 240, dt_SourceKind = srcKind, dt_SourceEventID = srcEvent,
        dt_CorrelationID = corr, dt_Fingerprint = fingerprint\<rparr>"

record mark_io =
  mk_mkdir :: bool
  mk_write :: "write_outcome option"
  mk_rename :: bool
  mk_remove :: bool

text \<open>\<open>mk_write\<close>: \<open>None\<close> when the temporary file could not even be created.\<close>

definition MarkAmbiguousSuppress ::
  "gostd \<Rightarrow> mark_io \<Rightarrow> string \<Rightarrow> string \<Rightarrow> string \<Rightarrow> string \<Rightarrow> ledger \<times> ledger_disk
   \<Rightarrow> go_error option \<times> ledger \<times> ledger_disk" where
  "MarkAmbiguousSuppress std io i s h f st =
     (case st of (l, d) \<Rightarrow>
        if i = [] then (Some ''intervention id required'', l, d)
        else if dk_sideLink d then (Some ErrLedgerPathUnsafe, l, d)
        else if \<not> mk_mkdir io then (Some io_error, l, d)
        else case (case dk_side d of SMissing \<Rightarrow> Some [] | SDir dir \<Rightarrow> Some dir | _ \<Rightarrow> None) of
          None \<Rightarrow> (Some io_error, l, d)
        | Some dir \<Rightarrow>
            let key = dedupeKey i s h f; body = key @ [CHR 0x0A];
                final = suppressMarkerFilename std key; tmp = suppressMarkerTempName std key
            in (case mk_write io of
                  None \<Rightarrow> (Some io_error, l, d\<lparr>dk_side := SDir dir\<rparr>)
                | Some (WriteFails n) \<Rightarrow> (Some io_error, l, d\<lparr>dk_side := SDir (gm_put tmp (MBody (take n body)) dir)\<rparr>)
                | Some WriteOk \<Rightarrow>
                    let dir1 = gm_put tmp (MBody body) dir in
                    if \<not> mk_rename io then
                      (Some io_error, l, d\<lparr>dk_side := SDir (if mk_remove io then gm_del tmp dir1 else dir1)\<rparr>)
                    else
                      (None, l\<lparr>al_seen := List.insert key (al_seen l)\<rparr>,
                       d\<lparr>dk_side := SDir (gm_put final (MBody body) (gm_del tmp dir1))\<rparr>)))"

definition AlreadyDeliveredKey :: "string \<Rightarrow> string \<Rightarrow> string \<Rightarrow> string \<Rightarrow> ledger \<Rightarrow> bool" where
  "AlreadyDeliveredKey i s h f l \<longleftrightarrow> i \<noteq> [] \<and> dedupeKey i s h f \<in> set (al_seen l)"

section \<open>A written line is read back\<close>

lemma setter_lookup:
  "map_of transition_setters ''schema'' = Some (\<lambda>v tr. tr\<lparr>dt_Schema := v\<rparr>)"
  "map_of transition_setters ''intervention_id'' = Some (\<lambda>v tr. tr\<lparr>dt_InterventionID := v\<rparr>)"
  "map_of transition_setters ''session_id'' = Some (\<lambda>v tr. tr\<lparr>dt_SessionID := v\<rparr>)"
  "map_of transition_setters ''from_state'' = Some (\<lambda>v tr. tr\<lparr>dt_FromState := v\<rparr>)"
  "map_of transition_setters ''to_state'' = Some (\<lambda>v tr. tr\<lparr>dt_ToState := v\<rparr>)"
  "map_of transition_setters ''ack_layer'' = Some (\<lambda>v tr. tr\<lparr>dt_AckLayer := v\<rparr>)"
  "map_of transition_setters ''ack_status'' = Some (\<lambda>v tr. tr\<lparr>dt_AckStatus := v\<rparr>)"
  "map_of transition_setters ''host_family'' = Some (\<lambda>v tr. tr\<lparr>dt_HostFamily := v\<rparr>)"
  "map_of transition_setters ''host_version'' = Some (\<lambda>v tr. tr\<lparr>dt_HostVersion := v\<rparr>)"
  "map_of transition_setters ''profile'' = Some (\<lambda>v tr. tr\<lparr>dt_Profile := v\<rparr>)"
  "map_of transition_setters ''safe_boundary'' = Some (\<lambda>v tr. tr\<lparr>dt_SafeBoundary := v\<rparr>)"
  "map_of transition_setters ''target_session_id'' = Some (\<lambda>v tr. tr\<lparr>dt_TargetSession := v\<rparr>)"
  "map_of transition_setters ''caps_digest'' = Some (\<lambda>v tr. tr\<lparr>dt_CapsDigest := v\<rparr>)"
  "map_of transition_setters ''message'' = Some (\<lambda>v tr. tr\<lparr>dt_Message := v\<rparr>)"
  "map_of transition_setters ''source_kind'' = Some (\<lambda>v tr. tr\<lparr>dt_SourceKind := v\<rparr>)"
  "map_of transition_setters ''source_event_id'' = Some (\<lambda>v tr. tr\<lparr>dt_SourceEventID := v\<rparr>)"
  "map_of transition_setters ''correlation_id'' = Some (\<lambda>v tr. tr\<lparr>dt_CorrelationID := v\<rparr>)"
  "map_of transition_setters ''fingerprint'' = Some (\<lambda>v tr. tr\<lparr>dt_Fingerprint := v\<rparr>)"
  by (simp_all add: transition_setters_def)

lemma field_keys_plain: "k \<in> set (''at'' # map fst transition_setters) \<Longrightarrow> scrub k = k"
proof -
  have "list_all (\<lambda>k. scrub k = k) (''at'' # map fst transition_setters)" by code_simp
  then show "k \<in> set (''at'' # map fst transition_setters) \<Longrightarrow> scrub k = k" by (auto simp: list_all_iff)
qed

abbreviation read_back :: "(string \<times> string) list \<Rightarrow> (string \<times> json) list" where
  "read_back ms \<equiv> map (\<lambda>(k, v). (scrub k, JStr (scrub v))) ms"

lemma set_members_append:
  "set_members tc (a @ b) tr = (case set_members tc a tr of None \<Rightarrow> None | Some tr' \<Rightarrow> set_members tc b tr')"
  by (induction tc a tr rule: set_members.induct) (auto split: option.splits)

lemma set_string:
  assumes "map_of transition_setters k = Some f"
  shows "set_members tc ((scrub k, JStr (scrub v)) # ms) tr = set_members tc ms (f (scrub v) tr)"
proof -
  have "k \<noteq> ''at'' \<and> k \<noteq> []" using assms by (auto simp: transition_setters_def split: if_splits)
  moreover have "k \<in> fst ` set transition_setters" using map_of_SomeD [OF assms] by force
  then have "scrub k = k" by (intro field_keys_plain) simp
  ultimately show ?thesis using assms by (simp add: set_member_def field_named_def Let_def)
qed

lemma set_omitted:
  assumes "map_of transition_setters k = Some f" "f [] tr = tr"
  shows "set_members tc (read_back (omit_empty k v) @ ms) tr = set_members tc ms (f (scrub v) tr)"
  using set_string [OF assms(1), of tc v ms tr] assms(2)
  by (simp add: omit_empty_def rune_list.simps [of "[]"] del: set_members.simps)

lemma set_at:
  "tm_parse tc (scrub t) = Some t' \<Longrightarrow>
   set_members tc ((scrub ''at'', JStr (scrub t)) # ms) tr = set_members tc ms (tr\<lparr>dt_At := t'\<rparr>)"
  using field_keys_plain [of "''at''"] by (simp add: set_member_def field_named_def Let_def)

definition scrubbed :: "time \<Rightarrow> delivery_transition \<Rightarrow> delivery_transition" where
  "scrubbed t tr =
     \<lparr>dt_Schema = scrub (dt_Schema tr), dt_At = t, dt_InterventionID = scrub (dt_InterventionID tr),
      dt_SessionID = scrub (dt_SessionID tr), dt_FromState = scrub (dt_FromState tr),
      dt_ToState = scrub (dt_ToState tr), dt_AckLayer = scrub (dt_AckLayer tr),
      dt_AckStatus = scrub (dt_AckStatus tr), dt_HostFamily = scrub (dt_HostFamily tr),
      dt_HostVersion = scrub (dt_HostVersion tr), dt_Profile = scrub (dt_Profile tr),
      dt_SafeBoundary = scrub (dt_SafeBoundary tr), dt_TargetSession = scrub (dt_TargetSession tr),
      dt_CapsDigest = scrub (dt_CapsDigest tr), dt_Message = scrub (dt_Message tr),
      dt_SourceKind = scrub (dt_SourceKind tr), dt_SourceEventID = scrub (dt_SourceEventID tr),
      dt_CorrelationID = scrub (dt_CorrelationID tr), dt_Fingerprint = scrub (dt_Fingerprint tr)\<rparr>"

lemma transition_read_back:
  assumes "tm_parse tc (scrub (tm_format tc (dt_At tr))) = Some t"
  shows "transition_of tc (transition_json tc tr) = Some (scrubbed t tr)"
proof -
  have "set_members tc (read_back (transition_members tc tr) @ []) zero_transition = Some (scrubbed t tr)"
    unfolding transition_members_def map_append list.map prod.case append_assoc append_Cons append_Nil
    by (simp add: set_omitted set_omitted [where ms = "[]", simplified append_Nil2] set_string set_at [OF assms] setter_lookup zero_transition_def scrubbed_def
        del: set_members.simps(2))
  moreover have "transition_members tc tr \<noteq> []" by (simp add: transition_members_def)
  ultimately show ?thesis by (simp add: transition_of_def transition_json_def json_object_parse)
qed

end
