(* ===== verification/LedgerRecovery.thy ===== *)
theory LedgerRecovery
  imports AdviceLedger
begin

text \<open>
  Recovery of the advice ledger after crashes. \<open>led_step\<close> is the step relation of a process that
  appends, marks, dies and reopens; it interprets the \<open>transition_system\<close> interface with the
  growth of the set of suppressed keys as its order, which is C34. The theorem covers failed
  system calls of every kind but one: a JSONL write that fails is taken to have written nothing.
  A line cut in the middle at the end of the file makes the next open fail closed
  (\<open>torn_line_fails_closed\<close>).
\<close>

section \<open>The file\<close>

lemma known_state_plain: "isKnownDeliveryState s \<Longrightarrow> scrub s = s"
proof -
  have "list_all (\<lambda>st. scrub (state_str st) = state_str st) all_states" by code_simp
  then show "isKnownDeliveryState s \<Longrightarrow> scrub s = s"
    by (auto simp: isKnownDeliveryState_def known_state_def list_all_iff find_Some_iff dest!: nth_mem)
qed

lemma schema_plain: "scrub adviceLedgerSchemaV1 = adviceLedgerSchemaV1"
  by code_simp

definition identity_valid :: "delivery_transition \<Rightarrow> bool" where
  "identity_valid tr \<longleftrightarrow> ValidString (dt_InterventionID tr) \<and> ValidString (dt_SessionID tr)
     \<and> ValidString (dt_HostFamily tr) \<and> ValidString (dt_Fingerprint tr)"

definition good_transition :: "delivery_transition \<Rightarrow> bool" where
  "good_transition tr \<longleftrightarrow> validateTransitionSemantic tr = None \<and> identity_valid tr"

definition time_readable :: "time_codec \<Rightarrow> bool" where
  "time_readable tc \<longleftrightarrow> (\<forall>t. tm_parse tc (scrub (tm_format tc t)) \<noteq> None)"

lemma good_transition_read:
  assumes "good_transition tr" "time_readable tc"
  shows "\<exists>tr'. transition_of tc (transition_json tc tr) = Some tr' \<and> validateTransitionSemantic tr' = None
    \<and> dt_ToState tr' = dt_ToState tr \<and> transition_key tr' = transition_key tr"
proof -
  obtain t where t: "tm_parse tc (scrub (tm_format tc (dt_At tr))) = Some t"
    using assms(2) by (auto simp: time_readable_def)
  have v: "dt_Schema tr = adviceLedgerSchemaV1" "isKnownDeliveryState (dt_ToState tr)"
      "dt_FromState tr = [] \<or> isKnownDeliveryState (dt_FromState tr)"
    using assms(1) by (auto simp: good_transition_def validateTransitionSemantic_def split: if_splits)
  have "scrub (dt_Schema tr) = dt_Schema tr" "scrub (dt_ToState tr) = dt_ToState tr"
      "scrub (dt_FromState tr) = dt_FromState tr"
    using v known_state_plain schema_plain by (auto simp: rune_list.simps [of "[]"])
  moreover have "identity_valid tr" using assms(1) by (simp add: good_transition_def)
  ultimately have "validateTransitionSemantic (scrubbed t tr) = validateTransitionSemantic tr
      \<and> dt_ToState (scrubbed t tr) = dt_ToState tr \<and> transition_key (scrubbed t tr) = transition_key tr"
    by (simp add: scrubbed_def identity_valid_def ValidString_def validateTransitionSemantic_def transition_key_def)
  then show ?thesis using transition_read_back [OF t] assms(1) by (auto simp: good_transition_def)
qed

definition suppressed_keys :: "delivery_transition list \<Rightarrow> string set" where
  "suppressed_keys trs = transition_key ` {tr \<in> set trs. isSuppressState (dt_ToState tr)}"

lemma transition_json_shape: "transition_json tc tr \<noteq> []" "CHR 0x0A \<notin> set (transition_json tc tr)"
  using json_object_no_nl by (simp_all add: transition_json_def json_object_def)

lemma ingest_good:
  assumes "list_all good_transition trs" "time_readable tc"
  shows "\<exists>seen'. ingest_lines tc (map (transition_json tc) trs) seen = Inr seen'
    \<and> set seen' = set seen \<union> suppressed_keys trs"
  using assms(1)
proof (induction trs arbitrary: seen)
  case (Cons tr trs)
  then obtain tr' where "transition_of tc (transition_json tc tr) = Some tr'" "validateTransitionSemantic tr' = None"
      "dt_ToState tr' = dt_ToState tr" "transition_key tr' = transition_key tr"
    using good_transition_read [OF _ assms(2), of tr] by auto
  then show ?case using Cons transition_json_shape(1) [of tc tr]
    by (fastforce simp: suppressed_keys_def)
qed (simp add: suppressed_keys_def)

definition file_text :: "time_codec \<Rightarrow> delivery_transition list \<Rightarrow> string" where
  "file_text tc trs = concat (map (\<lambda>tr. transition_json tc tr @ [CHR 0x0A]) trs)"

lemma split_lines_line: "CHR 0x0A \<notin> set l \<Longrightarrow> split_lines cur (l @ CHR 0x0A # b) = (rev cur @ l) # split_lines [] b"
  by (induction l arbitrary: cur) auto

lemma split_file_text: "split_lines [] (file_text tc trs) = map (transition_json tc) trs"
  using transition_json_shape(2) by (induction trs) (simp_all add: file_text_def split_lines_line)

lemma file_text_snoc: "file_text tc (trs @ [tr]) = file_text tc trs @ transition_json tc tr @ [CHR 0x0A]"
  by (simp add: file_text_def)

lemma file_text_ends: "file_text tc trs = [] \<or> last (file_text tc trs) = CHR 0x0A"
  by (cases trs rule: rev_cases) (simp_all add: file_text_snoc file_text_def)

lemma ingest_file:
  assumes "list_all good_transition trs" "time_readable tc"
  shows "\<exists>seen. ingestJSONL tc (file_text tc trs) [] = Inr seen \<and> set seen = suppressed_keys trs"
  using ingest_good [OF assms, of "[]"] file_text_ends [of tc trs]
  by (auto simp: ingestJSONL_def split_file_text)

lemma torn_line_fails_closed:
  assumes "0 < n" "n \<le> length (transition_json tc tr)"
  shows "ingestJSONL tc (b @ take n (transition_json tc tr @ [CHR 0x0A])) seen = Inl ErrLedgerCorrupt"
proof -
  have "take n (transition_json tc tr) \<noteq> []" using assms transition_json_shape(1) by simp
  moreover have "last (take n (transition_json tc tr)) \<noteq> CHR 0x0A"
    using transition_json_shape(2) [of tc tr] calculation by (metis in_set_takeD last_in_set)
  ultimately show ?thesis using assms by (simp add: ingestJSONL_def)
qed

section \<open>The markers\<close>

abbreviation nlc :: char where "nlc \<equiv> CHR 0x0A"

definition good_key :: "string \<Rightarrow> bool" where
  "good_key k \<longleftrightarrow> length k < maxSuppressMarkerBytes \<and>
     (\<exists>i s h f. k = dedupeKey i s h f \<and> i \<noteq> [] \<and> list_all ValidString [i, s, h, f])"

definition marker_texts :: "string set \<Rightarrow> string set" where
  "marker_texts K = {TrimSpace (take n (k @ [nlc])) | k n. k \<in> K}"

definition ledger_env :: "gostd \<Rightarrow> time_codec \<Rightarrow> string set \<Rightarrow> bool" where
  "ledger_env std tc K \<longleftrightarrow> time_readable tc \<and> (\<forall>k \<in> K. good_key k)
     \<and> inj_on (suppressMarkerFilename std) (marker_texts K)"

lemma strip_heads_stop: "first_prefix us s = None \<Longrightarrow> strip_heads us s = s"
  by (simp add: strip_heads.simps)

lemma TrimSpace_bracketed: "TrimSpace (''['' @ x @ '']'') = ''['' @ x @ '']''"
  "TrimSpace (''['' @ x @ '']'' @ [nlc]) = ''['' @ x @ '']''"
proof -
  have f: "first_prefix go_spaces (CHR ''['' # y) = None" for y
    by (simp add: go_spaces_def ascii_spaces_def uni_spaces_def HasPrefix_def)
  have r: "first_prefix (map rev go_spaces) (CHR '']'' # y) = None" for y
    by (simp add: go_spaces_def ascii_spaces_def uni_spaces_def HasPrefix_def)
  have n: "strip_heads (map rev go_spaces) (nlc # y) = strip_heads (map rev go_spaces) y" for y
    by (subst strip_heads.simps) (simp add: go_spaces_def ascii_spaces_def uni_spaces_def HasPrefix_def)
  show "TrimSpace (''['' @ x @ '']'') = ''['' @ x @ '']''" "TrimSpace (''['' @ x @ '']'' @ [nlc]) = ''['' @ x @ '']''"
    by (simp_all add: TrimSpace_def strip_both_def strip_heads_stop f r n)
qed

lemma good_key_trim: "good_key k \<Longrightarrow> TrimSpace k = k \<and> TrimSpace (k @ [nlc]) = k"
proof -
  assume "good_key k"
  then obtain j where "k = ''['' @ j @ '']''" unfolding good_key_def dedupeKey_def json_strings_def by blast
  then show "TrimSpace k = k \<and> TrimSpace (k @ [nlc]) = k" using TrimSpace_bracketed [of j] by simp
qed

lemma TrimSpace_length: "length (TrimSpace s) \<le> length s"
  using strip_both_infix [of s go_spaces] by (metis TrimSpace_def length_append le_add1 le_add2 order_trans)

lemma good_key_parses:
  assumes "good_key k" "b = k \<or> b = k @ [nlc]" "strip_tmp name = suppressMarkerFilename std k"
  shows "parseAndValidateMarkerBody std name b = Inr k"
proof -
  obtain i s h f where k: "k = dedupeKey i s h f" "i \<noteq> []" "list_all ValidString [i, s, h, f]"
    "length k < maxSuppressMarkerBytes" using assms(1) by (auto simp: good_key_def)
  have p: "json_parse k = Some (JArr (map (JStr \<circ> scrub) [i, s, h, f]))"
    unfolding k(1) dedupeKey_def by (rule json_strings_parse) simp
  have enc: "validateDedupeKeyEncoding k = None"
    using k(2,3) by (simp add: validateDedupeKeyEncoding_def p ValidString_def)
  have nz: "byte nlc = 0x0A" "byte (CHR 0x00) = 0x00" by (simp_all add: byte_def)
  have chars: "CHR 0x00 \<notin> set k"
  proof
    assume "CHR 0x00 \<in> set k"
    then have "0x20 \<le> byte (CHR 0x00)" using json_strings_good [of "[i, s, h, f]" "[]"] k(1) by (auto simp: dedupeKey_def)
    then show False by (simp add: nz)
  qed
  have valid: "ValidString b"
    using assms(2) json_strings_good [of "[i, s, h, f]" "[]"] json_strings_good [of "[i, s, h, f]" "[nlc]"]
      ValidString_ascii [of "[nlc]" "[]"] k(1) nz by (auto simp: dedupeKey_def)
  have ne: "k \<noteq> []" by (simp add: k(1) dedupeKey_def json_strings_def)
  have len: "b \<noteq> []" "length b \<le> maxSuppressMarkerBytes" using assms(2) k(4) ne by auto
  have trim: "TrimSpace b = k" using assms(2) good_key_trim [OF assms(1)] by auto
  show ?thesis using len valid trim ne chars enc assms(3)
    by (simp add: parseAndValidateMarkerBody_def Let_def)
qed

lemma HasSuffix_append [simp]: "HasSuffix (a @ b) b"
  by (simp add: HasSuffix_def HasPrefix_def)

lemma marker_names:
  "HasSuffix (suppressMarkerFilename std k) ''.key''" "\<not> HasSuffix (suppressMarkerFilename std k) ''.tmp''"
  "HasSuffix (suppressMarkerTempName std k) ''.tmp''" "HasSuffix (suppressMarkerTempName std k) ''.key.tmp''"
  "strip_tmp (suppressMarkerFilename std k) = suppressMarkerFilename std k"
  "strip_tmp (suppressMarkerTempName std k) = suppressMarkerFilename std k"
  "suppressMarkerTempName std k \<noteq> suppressMarkerFilename std k'"
proof -
  show t: "\<not> HasSuffix (suppressMarkerFilename std k) ''.tmp''" for k
    by (simp add: suppressMarkerFilename_def HasSuffix_def HasPrefix_def)
  show "HasSuffix (suppressMarkerFilename std k) ''.key''" by (simp add: suppressMarkerFilename_def)
  show u: "HasSuffix (suppressMarkerTempName std k) ''.tmp''" by (simp add: suppressMarkerTempName_def)
  show "HasSuffix (suppressMarkerTempName std k) ''.key.tmp''"
    by (simp add: suppressMarkerTempName_def suppressMarkerFilename_def HasSuffix_def HasPrefix_def)
  show "strip_tmp (suppressMarkerFilename std k) = suppressMarkerFilename std k" using t by (simp add: strip_tmp_def)
  show "strip_tmp (suppressMarkerTempName std k) = suppressMarkerFilename std k"
    using u by (simp add: strip_tmp_def suppressMarkerTempName_def)
  show "suppressMarkerTempName std k \<noteq> suppressMarkerFilename std k'" using t u by metis
qed

definition dir_inv :: "gostd \<Rightarrow> string set \<Rightarrow> marker_entry gomap \<Rightarrow> bool" where
  "dir_inv std K dir \<longleftrightarrow>
     (\<forall>name e. gm_get dir name = Some e \<longrightarrow> (\<exists>k \<in> K.
        name = suppressMarkerFilename std k \<and> (e = MBody k \<or> e = MBody (k @ [nlc]))
        \<or> name = suppressMarkerTempName std k \<and> (\<exists>n. e = MBody (take n (k @ [nlc])))))"

definition has_marker :: "gostd \<Rightarrow> marker_entry gomap \<Rightarrow> string \<Rightarrow> bool" where
  "has_marker std dir k \<longleftrightarrow>
     gm_get dir (suppressMarkerFilename std k) \<in> {Some (MBody k), Some (MBody (k @ [nlc]))}"

lemma marker_text_of: "k \<in> K \<Longrightarrow> TrimSpace (take n (k @ [nlc])) \<in> marker_texts K"
  by (auto simp: marker_texts_def)

lemma same_name_same_key:
  assumes env: "ledger_env std tc K" and k: "k \<in> K" "k' \<in> K"
    and eq: "suppressMarkerFilename std (TrimSpace (take n (k' @ [nlc]))) = suppressMarkerFilename std k"
  shows "TrimSpace (take n (k' @ [nlc])) = k"
proof -
  have "good_key k" using env k by (simp add: ledger_env_def)
  then have "k \<in> marker_texts K"
    using marker_text_of [OF k(1), of "Suc (length k)"] good_key_trim by simp
  then show ?thesis using env eq marker_text_of [OF k(2)] by (auto simp: ledger_env_def inj_on_def)
qed

lemma full_body:
  assumes "good_key k" "TrimSpace (take n (k @ [nlc])) = k"
  shows "take n (k @ [nlc]) = k \<or> take n (k @ [nlc]) = k @ [nlc]"
proof -
  have "length k \<le> length (take n (k @ [nlc]))" using TrimSpace_length [of "take n (k @ [nlc])"] assms(2) by simp
  then show ?thesis by (cases "n \<le> length k") auto
qed

text \<open>A final marker is read as its key; a temporary one is promoted, or opening fails.\<close>

lemma load_final:
  assumes env: "ledger_env std tc K" and k: "k \<in> K"
    and e: "gm_get dir (suppressMarkerFilename std k) = Some (MBody b)" "b = k \<or> b = k @ [nlc]"
  shows "load_marker std fl (suppressMarkerFilename std k) False dir = (Inr (Some k), dir)"
proof -
  have "good_key k" using env k by (simp add: ledger_env_def)
  then have "parseAndValidateMarkerBody std (suppressMarkerFilename std k) b = Inr k"
    by (rule good_key_parses [OF _ e(2)]) (rule marker_names(5))
  then show ?thesis using e(1) marker_names(1,2) [of std k] by (simp add: load_marker_def loadMarkerFile_def)
qed

lemma load_temp:
  assumes env: "ledger_env std tc K" and k: "k \<in> K" and b: "b = take n (k @ [nlc])"
    and e: "gm_get dir (suppressMarkerTempName std k) = Some (MBody b)"
    and ok: "load_marker std fl (suppressMarkerTempName std k) False dir = (Inr r, dir')"
  shows "r = Some k \<and> (b = k \<or> b = k @ [nlc])
    \<and> dir' = gm_put (suppressMarkerFilename std k) (MBody b) (gm_del (suppressMarkerTempName std k) dir)"
proof -
  let ?name = "suppressMarkerTempName std k"
  have gk: "good_key k" using env k by (simp add: ledger_env_def)
  show ?thesis
  proof (cases "suppressMarkerFilename std (TrimSpace b) = suppressMarkerFilename std k")
    case True
    then have trim: "TrimSpace b = k" unfolding b by (rule same_name_same_key [OF env k k])
    have full: "b = k \<or> b = k @ [nlc]" using full_body [OF gk trim [unfolded b]] by (simp only: b)
    have p: "parseAndValidateMarkerBody std ?name b = Inr k"
      by (rule good_key_parses [OF gk full]) (rule marker_names(6))
    show ?thesis
      using ok full marker_names(3,4) [of std k] by (auto simp: load_marker_def e p Let_def split: if_splits)
  next
    case False
    obtain er where "parseAndValidateMarkerBody std ?name b = Inl er"
      using False by (cases "parseAndValidateMarkerBody std ?name b")
        (auto simp: parseAndValidateMarkerBody_def marker_names(6) Let_def split: if_splits option.splits)
    then show ?thesis using ok False marker_names(3,4,6) [of std k] by (simp add: load_marker_def e loadMarkerFile_def)
  qed
qed

lemma dir_inv_cases:
  assumes "dir_inv std K dir" "gm_get dir name = Some e"
  obtains k b where "k \<in> K" "name = suppressMarkerFilename std k" "e = MBody b" "b = k \<or> b = k @ [nlc]"
  | k n where "k \<in> K" "name = suppressMarkerTempName std k" "e = MBody (take n (k @ [nlc]))"
proof -
  from assms obtain k where "k \<in> K"
    "name = suppressMarkerFilename std k \<and> (e = MBody k \<or> e = MBody (k @ [nlc]))
      \<or> name = suppressMarkerTempName std k \<and> (\<exists>n. e = MBody (take n (k @ [nlc])))"
    unfolding dir_inv_def by blast
  then show thesis using that by blast
qed

lemma dir_inv_put:
  assumes "dir_inv std K dir" "k \<in> K"
  shows "b = k \<or> b = k @ [nlc] \<Longrightarrow> dir_inv std K (gm_put (suppressMarkerFilename std k) (MBody b) dir)"
    and "dir_inv std K (gm_put (suppressMarkerTempName std k) (MBody (take n (k @ [nlc]))) dir)"
    and "dir_inv std K (gm_del name dir)"
proof -
  show "dir_inv std K (gm_put (suppressMarkerFilename std k) (MBody b) dir)" if "b = k \<or> b = k @ [nlc]"
    unfolding dir_inv_def
  proof (intro allI impI)
    fix name e assume g: "gm_get (gm_put (suppressMarkerFilename std k) (MBody b) dir) name = Some e"
    show "\<exists>k \<in> K. name = suppressMarkerFilename std k \<and> (e = MBody k \<or> e = MBody (k @ [nlc]))
        \<or> name = suppressMarkerTempName std k \<and> (\<exists>n. e = MBody (take n (k @ [nlc])))"
    proof (cases "name = suppressMarkerFilename std k")
      case True
      then show ?thesis using g that assms(2) by auto
    next
      case False
      then show ?thesis using g assms(1) by (simp add: dir_inv_def)
    qed
  qed
  show "dir_inv std K (gm_put (suppressMarkerTempName std k) (MBody (take n (k @ [nlc]))) dir)"
    unfolding dir_inv_def
  proof (intro allI impI)
    fix name e assume g: "gm_get (gm_put (suppressMarkerTempName std k) (MBody (take n (k @ [nlc]))) dir) name = Some e"
    show "\<exists>k \<in> K. name = suppressMarkerFilename std k \<and> (e = MBody k \<or> e = MBody (k @ [nlc]))
        \<or> name = suppressMarkerTempName std k \<and> (\<exists>n. e = MBody (take n (k @ [nlc])))"
    proof (cases "name = suppressMarkerTempName std k")
      case True
      then show ?thesis using g assms(2) by auto
    next
      case False
      then show ?thesis using g assms(1) by (simp add: dir_inv_def)
    qed
  qed
  show "dir_inv std K (gm_del name dir)" using assms(1) by (simp add: dir_inv_def)
qed

lemma has_marker_put:
  assumes "ledger_env std tc K" "k \<in> K" "k' \<in> K" "b = k \<or> b = k @ [nlc]"
  shows "has_marker std dir k' \<Longrightarrow> has_marker std (gm_put (suppressMarkerFilename std k) (MBody b) dir) k'"
    and "has_marker std (gm_put (suppressMarkerFilename std k) (MBody b) dir) k"
proof -
  show "has_marker std (gm_put (suppressMarkerFilename std k) (MBody b) dir) k"
    using assms(4) by (simp add: has_marker_def)
  moreover have "k' = k" if "suppressMarkerFilename std k' = suppressMarkerFilename std k"
    using same_name_same_key [OF assms(1,2,3), of "Suc (length k')"] that good_key_trim assms(1,3)
    by (simp add: ledger_env_def)
  ultimately show "has_marker std dir k' \<Longrightarrow> has_marker std (gm_put (suppressMarkerFilename std k) (MBody b) dir) k'"
    by (auto simp: has_marker_def)
qed

lemma has_marker_temp [simp]:
  "has_marker std (gm_del (suppressMarkerTempName std k) dir) k' = has_marker std dir k'"
  "has_marker std (gm_put (suppressMarkerTempName std k) e dir) k' = has_marker std dir k'"
  using marker_names(7) [of std k k'] by (simp_all add: has_marker_def)

text \<open>One entry: nothing is lost, and a final marker or a promoted one contributes its key.\<close>

lemma load_marker_step:
  assumes env: "ledger_env std tc K" and inv: "dir_inv std K dir"
    and lm: "load_marker std fl name False dir = (Inr r, dir1)"
  shows "dir_inv std K dir1 \<and> (\<forall>k \<in> K. has_marker std dir k \<longrightarrow> has_marker std dir1 k)
    \<and> (\<forall>k \<in> K. has_marker std dir k \<and> name = suppressMarkerFilename std k \<longrightarrow> r = Some k)
    \<and> (\<forall>k. r = Some k \<longrightarrow> k \<in> K \<and> has_marker std dir1 k)"
proof (cases "gm_get dir name")
  case None
  then have "r = None \<and> dir1 = dir" using lm by (auto simp: load_marker_def split: if_splits)
  then show ?thesis using inv None by (auto simp: has_marker_def)
next
  case (Some e)
  from inv Some show ?thesis
  proof (cases rule: dir_inv_cases)
    case (1 k b)
    with load_final [OF env 1(1), of dir b fl] Some lm have r: "r = Some k" "dir1 = dir" by simp_all
    have m: "has_marker std dir k" using 1 Some by (auto simp: has_marker_def)
    have "k' = k" if "k' \<in> K" "name = suppressMarkerFilename std k'" for k'
      using same_name_same_key [OF env 1(1) that(1), of "Suc (length k')"] that good_key_trim env 1(2)
      by (simp add: ledger_env_def)
    then show ?thesis using inv r m 1(1) by auto
  next
    case (2 k n)
    have e: "gm_get dir (suppressMarkerTempName std k) = Some (MBody (take n (k @ [nlc])))" using Some 2 by simp
    have l: "load_marker std fl (suppressMarkerTempName std k) False dir = (Inr r, dir1)" using lm 2 by simp
    have r: "r = Some k" "take n (k @ [nlc]) = k \<or> take n (k @ [nlc]) = k @ [nlc]"
        "dir1 = gm_put (suppressMarkerFilename std k) (MBody (take n (k @ [nlc]))) (gm_del name dir)"
      using load_temp [OF env 2(1) refl e l] 2(2) by auto
    have "dir_inv std K dir1" unfolding r(3) by (rule dir_inv_put(1) [OF dir_inv_put(3) [OF inv 2(1)] 2(1) r(2)])
    moreover have "has_marker std dir1 k" unfolding r(3) by (rule has_marker_put(2) [OF env 2(1,1) r(2)])
    moreover have "has_marker std dir1 k'" if "k' \<in> K" "has_marker std dir k'" for k'
      unfolding r(3) by (rule has_marker_put(1) [OF env 2(1) that(1) r(2)]) (simp add: 2(2) that(2))
    moreover have "name \<noteq> suppressMarkerFilename std k'" for k' using marker_names(7) 2(2) by simp
    ultimately show ?thesis using r(1) 2(1) by auto
  qed
qed

lemma load_markers_recover:
  assumes env: "ledger_env std tc K"
  shows "load_markers std fl names dir seen = (Inr seen', dir') \<Longrightarrow> dir_inv std K dir \<Longrightarrow>
    (\<forall>n \<in> set names. \<not> snd n) \<Longrightarrow>
    dir_inv std K dir' \<and> set seen \<subseteq> set seen' \<and> (\<forall>k \<in> K. has_marker std dir k \<longrightarrow> has_marker std dir' k)
    \<and> (\<forall>k \<in> K. has_marker std dir k \<and> suppressMarkerFilename std k \<in> fst ` set names \<longrightarrow> k \<in> set seen')
    \<and> (\<forall>k \<in> set seen'. k \<in> set seen \<or> k \<in> K \<and> has_marker std dir' k)"
proof (induction names arbitrary: dir seen)
  case (Cons n names)
  obtain name where n: "n = (name, False)" using Cons.prems(3) by (cases n) auto
  from Cons.prems(1) n obtain r dir1 where lm: "load_marker std fl name False dir = (Inr r, dir1)"
    by (auto split: prod.splits sum.splits)
  note step = load_marker_step [OF env Cons.prems(2) lm]
  define seen1 where "seen1 = (case r of None \<Rightarrow> seen | Some k \<Rightarrow> List.insert k seen)"
  have rest: "load_markers std fl names dir1 seen1 = (Inr seen', dir')"
    using Cons.prems(1) unfolding n by (cases r) (simp_all add: lm seen1_def)
  have s1: "set seen \<subseteq> set seen1" "\<forall>k \<in> set seen1. k \<in> set seen \<or> r = Some k" "\<forall>k. r = Some k \<longrightarrow> k \<in> set seen1"
    by (auto simp: seen1_def split: option.splits)
  have ih: "dir_inv std K dir'" "set seen1 \<subseteq> set seen'" "\<forall>k \<in> K. has_marker std dir1 k \<longrightarrow> has_marker std dir' k"
    "\<forall>k \<in> K. has_marker std dir1 k \<and> suppressMarkerFilename std k \<in> fst ` set names \<longrightarrow> k \<in> set seen'"
    "\<forall>k \<in> set seen'. k \<in> set seen1 \<or> k \<in> K \<and> has_marker std dir' k"
    using Cons.IH [OF rest conjunct1 [OF step]] Cons.prems(3) by simp_all
  have "k \<in> set seen'" if k: "k \<in> K" "has_marker std dir k" "suppressMarkerFilename std k \<in> fst ` set (n # names)" for k
  proof (cases "suppressMarkerFilename std k = name")
    case True
    then have "r = Some k" using step k by blast
    then show ?thesis using s1(3) ih(2) by blast
  next
    case False
    then have "suppressMarkerFilename std k \<in> fst ` set names" using k(3) n by simp
    then show ?thesis using ih(4) step k by blast
  qed
  moreover have "k \<in> set seen \<or> k \<in> K \<and> has_marker std dir' k" if "k \<in> set seen'" for k
    using ih(3,5) s1(2) step that by blast
  ultimately show ?case using ih(1,2,3) s1(1) step by blast
qed simp

section \<open>Runs with crashes\<close>

definition disk_inv :: "gostd \<Rightarrow> time_codec \<Rightarrow> string set \<Rightarrow> string list \<Rightarrow> ledger_disk \<Rightarrow> bool" where
  "disk_inv std tc K seen d \<longleftrightarrow>
     (\<exists>trs dir. list_all good_transition trs
        \<and> (dk_file d = JBytes (file_text tc trs) \<or> trs = [] \<and> dk_file d \<in> {JMissing, JDirectory})
        \<and> (dk_side d = SDir dir \<or> dir = [] \<and> dk_side d = SMissing) \<and> dir_inv std K dir
        \<and> (\<forall>k \<in> set seen. k \<in> suppressed_keys trs \<or> k \<in> K \<and> has_marker std dir k))"

text \<open>
  The steps: an append whose write succeeds or writes nothing, a mark of a key in \<open>K\<close> with any
  outcome of its system calls, and the death of the process followed by a successful open.
\<close>

inductive led_step ::
  "gostd \<Rightarrow> time_codec \<Rightarrow> string set \<Rightarrow> ledger \<times> ledger_disk \<Rightarrow> ledger \<times> ledger_disk \<Rightarrow> bool"
  for std tc K where
  append: "ledger_env std tc K \<Longrightarrow> identity_valid tr \<Longrightarrow> ap_write io \<in> {WriteOk, WriteFails 0} \<Longrightarrow>
     led_step std tc K st (snd (Append tc io now tr st))"
| mark: "ledger_env std tc K \<Longrightarrow> dedupeKey i s h f \<in> K \<Longrightarrow>
     led_step std tc K st (snd (MarkAmbiguousSuppress std io i s h f st))"
| reopen: "ledger_env std tc K \<Longrightarrow> OpenDurableAdviceLedger std tc fl path d = (Inr l', d') \<Longrightarrow>
     led_step std tc K (l, d) (l', d')"

definition led_initial :: "ledger \<times> ledger_disk \<Rightarrow> bool" where
  "led_initial st \<longleftrightarrow> al_seen (fst st) = [] \<and> dk_file (snd st) \<in> {JMissing, JDirectory} \<and> dk_side (snd st) = SMissing"

definition led_inv :: "gostd \<Rightarrow> time_codec \<Rightarrow> string set \<Rightarrow> ledger \<times> ledger_disk \<Rightarrow> bool" where
  "led_inv std tc K st \<longleftrightarrow> disk_inv std tc K (al_seen (fst st)) (snd st)"

definition led_grows :: "ledger \<times> ledger_disk \<Rightarrow> ledger \<times> ledger_disk \<Rightarrow> bool" where
  "led_grows st st' \<longleftrightarrow> set (al_seen (fst st)) \<subseteq> set (al_seen (fst st'))"

definition appended :: "time_codec \<Rightarrow> delivery_transition \<Rightarrow> string \<Rightarrow> ledger \<times> ledger_disk \<Rightarrow> ledger \<times> ledger_disk" where
  "appended tc tr b st =
     ((fst st)\<lparr>al_cursor := al_cursor (fst st) + int (length (transition_json tc tr @ [nlc])),
        al_seen := (if isSuppressState (dt_ToState tr) then List.insert (transition_key tr) (al_seen (fst st))
                    else al_seen (fst st))\<rparr>,
      (snd st)\<lparr>dk_file := JBytes (b @ transition_json tc tr @ [nlc])\<rparr>)"

lemma Append_cases:
  assumes "ap_write io \<in> {WriteOk, WriteFails 0}"
  obtains (same) "snd (Append tc io now tr (l, d)) = (l, d)"
  | (unwritten) b where "dk_file d = JMissing \<and> b = [] \<or> dk_file d = JBytes b"
      "snd (Append tc io now tr (l, d)) = (l, d\<lparr>dk_file := JBytes b\<rparr>)"
  | (written) b where "validateTransitionSemantic (complete_transition now tr) = None"
      "dk_file d = JMissing \<and> b = [] \<or> dk_file d = JBytes b"
      "snd (Append tc io now tr (l, d)) = appended tc (complete_transition now tr) b (l, d)"
proof -
  let ?r = "snd (Append tc io now tr (l, d))"
  have "?r = (l, d) \<or> (\<exists>b. (dk_file d = JMissing \<and> b = [] \<or> dk_file d = JBytes b) \<and> ?r = (l, d\<lparr>dk_file := JBytes b\<rparr>))
    \<or> (\<exists>b. validateTransitionSemantic (complete_transition now tr) = None
        \<and> (dk_file d = JMissing \<and> b = [] \<or> dk_file d = JBytes b)
        \<and> ?r = appended tc (complete_transition now tr) b (l, d))"
    using assms
    by (cases "validateTransitionSemantic (complete_transition now tr)"; cases "ap_mkdir io \<and> ap_open io";
        cases "dk_file d") (auto simp: Append_def appended_def Let_def)
  then show thesis using that by blast
qed

lemma Append_inv:
  assumes inv: "led_inv std tc K (l, d)" and v: "identity_valid tr" and w: "ap_write io \<in> {WriteOk, WriteFails 0}"
  shows "led_inv std tc K (snd (Append tc io now tr (l, d))) \<and> led_grows (l, d) (snd (Append tc io now tr (l, d)))"
proof -
  let ?tr = "complete_transition now tr"
  show ?thesis
  proof (rule Append_cases [OF w, of tc now tr l d], goal_cases same unwritten written)
    case same
    then show ?thesis using inv by (simp add: led_grows_def)
  next
    case (unwritten b)
    have "disk_inv std tc K (al_seen l) (d\<lparr>dk_file := JBytes b\<rparr>)"
      using inv unwritten(1) unfolding led_inv_def disk_inv_def by (fastforce simp: file_text_def)
    then show ?thesis using unwritten by (simp add: led_inv_def led_grows_def)
  next
    case (written b)
    from inv obtain trs dir where i: "list_all good_transition trs"
      "dk_file d = JBytes (file_text tc trs) \<or> trs = [] \<and> dk_file d \<in> {JMissing, JDirectory}"
      "dk_side d = SDir dir \<or> dir = [] \<and> dk_side d = SMissing" "dir_inv std K dir"
      "\<forall>k \<in> set (al_seen l). k \<in> suppressed_keys trs \<or> k \<in> K \<and> has_marker std dir k"
      by (auto simp: led_inv_def disk_inv_def)
    have b: "b = file_text tc trs" using i(2) written(2) by (auto simp: file_text_def)
    have g: "good_transition ?tr"
      using written(1) v by (simp add: good_transition_def identity_valid_def complete_transition_def)
    have "disk_inv std tc K
        (if isSuppressState (dt_ToState ?tr) then List.insert (transition_key ?tr) (al_seen l) else al_seen l)
        (d\<lparr>dk_file := JBytes (file_text tc (trs @ [?tr]))\<rparr>)"
      unfolding disk_inv_def
    proof (intro exI conjI)
      show "list_all good_transition (trs @ [?tr])" using i(1) g by simp
    qed (use i in \<open>auto simp: suppressed_keys_def\<close>)
    then show ?thesis unfolding written(3) by (auto simp: appended_def b led_inv_def led_grows_def file_text_snoc)
  qed
qed

lemma Mark_cases:
  assumes side: "dk_side d = SDir dir \<or> dir = [] \<and> dk_side d = SMissing" and key: "key = dedupeKey i s h f"
  obtains (same) "snd (MarkAmbiguousSuppress std io i s h f (l, d)) = (l, d)"
  | (temp) dir' where "snd (MarkAmbiguousSuppress std io i s h f (l, d)) = (l, d\<lparr>dk_side := SDir dir'\<rparr>)"
      "dir' = dir \<or> (\<exists>n. dir' = gm_put (suppressMarkerTempName std key) (MBody (take n (key @ [nlc]))) dir)
       \<or> dir' = gm_del (suppressMarkerTempName std key) (gm_put (suppressMarkerTempName std key) (MBody (key @ [nlc])) dir)"
  | (marked) "snd (MarkAmbiguousSuppress std io i s h f (l, d)) =
      (l\<lparr>al_seen := List.insert key (al_seen l)\<rparr>,
       d\<lparr>dk_side := SDir (gm_put (suppressMarkerFilename std key) (MBody (key @ [nlc]))
          (gm_del (suppressMarkerTempName std key) (gm_put (suppressMarkerTempName std key) (MBody (key @ [nlc])) dir)))\<rparr>)"
proof (cases "i = [] \<or> dk_sideLink d \<or> \<not> mk_mkdir io")
  case True
  then show thesis by (intro same) (auto simp: MarkAmbiguousSuppress_def)
next
  case False
  note def = MarkAmbiguousSuppress_def Let_def key [symmetric]
  have all: "take (Suc (length key)) (key @ [nlc]) = key @ [nlc]" by simp
  show thesis
  proof (cases "mk_write io")
    case None
    then show thesis using False side by (intro temp [of dir]) (auto simp: def)
  next
    case (Some w)
    show thesis
    proof (cases w)
      case (WriteFails n)
      then show thesis using False side Some
        by (intro temp [of "gm_put (suppressMarkerTempName std key) (MBody (take n (key @ [nlc]))) dir"]) (auto simp: def)
    next
      case WriteOk
      show thesis
      proof (cases "mk_rename io")
        case True
        then show thesis using False side Some WriteOk by (intro marked) (auto simp: def)
      next
        case no: False
        let ?dir1 = "gm_put (suppressMarkerTempName std key) (MBody (key @ [nlc])) dir"
        have t: "\<exists>n. ?dir1 = gm_put (suppressMarkerTempName std key) (MBody (take n (key @ [nlc]))) dir"
          by (rule exI [of _ "Suc (length key)"]) (simp only: all)
        have "snd (MarkAmbiguousSuppress std io i s h f (l, d)) =
            (l, d\<lparr>dk_side := SDir (if mk_remove io then gm_del (suppressMarkerTempName std key) ?dir1 else ?dir1)\<rparr>)"
          using False side Some WriteOk no by (auto simp: def)
        then show thesis by (rule temp) (use t in simp)
      qed
    qed
  qed
qed

lemma Mark_inv:
  assumes env: "ledger_env std tc K" and inv: "led_inv std tc K (l, d)" and k: "dedupeKey i s h f \<in> K"
  shows "led_inv std tc K (snd (MarkAmbiguousSuppress std io i s h f (l, d)))
    \<and> led_grows (l, d) (snd (MarkAmbiguousSuppress std io i s h f (l, d)))"
proof -
  define key where "key = dedupeKey i s h f"
  let ?tmp = "suppressMarkerTempName std key" and ?final = "suppressMarkerFilename std key"
  have kK: "key \<in> K" using k by (simp add: key_def)
  from inv obtain trs dir where i: "list_all good_transition trs"
    "dk_file d = JBytes (file_text tc trs) \<or> trs = [] \<and> dk_file d \<in> {JMissing, JDirectory}"
    "dk_side d = SDir dir \<or> dir = [] \<and> dk_side d = SMissing" "dir_inv std K dir"
    "\<forall>k \<in> set (al_seen l). k \<in> suppressed_keys trs \<or> k \<in> K \<and> has_marker std dir k"
    by (auto simp: led_inv_def disk_inv_def)
  have put_inv: "disk_inv std tc K seen (d\<lparr>dk_side := SDir dir'\<rparr>)"
    if "dir_inv std K dir'" "\<forall>k \<in> set seen. k \<in> suppressed_keys trs \<or> k \<in> K \<and> has_marker std dir' k" for seen dir'
    unfolding disk_inv_def using i(1,2) that by (intro exI [of _ trs] exI [of _ dir']) simp
  have tmp: "dir_inv std K (gm_put ?tmp (MBody (take n (key @ [nlc]))) dir)" for n
    by (rule dir_inv_put(2) [OF i(4) kK])
  have tmp': "dir_inv std K (gm_put ?tmp (MBody (key @ [nlc])) dir)" using tmp [of "Suc (length key)"] by simp
  have final: "dir_inv std K (gm_put ?final (MBody (key @ [nlc])) (gm_del ?tmp (gm_put ?tmp (MBody (key @ [nlc])) dir)))"
    by (rule dir_inv_put(1) [OF dir_inv_put(3) [OF tmp' kK] kK]) simp
  show ?thesis
  proof (rule Mark_cases [OF i(3) key_def, of std io l], goal_cases same temp marked)
    case same
    then show ?thesis using inv by (simp add: led_grows_def)
  next
    case (temp dir')
    have "dir_inv std K dir' \<and> (\<forall>k'. has_marker std dir' k' = has_marker std dir k')"
      using temp(2) i(4) tmp dir_inv_put(3) [OF tmp' kK, of ?tmp] by auto
    then have "disk_inv std tc K (al_seen l) (d\<lparr>dk_side := SDir dir'\<rparr>)" using i(5) by (intro put_inv) auto
    then show ?thesis using temp(1) by (simp add: led_inv_def led_grows_def)
  next
    case marked
    let ?dir' = "gm_put ?final (MBody (key @ [nlc])) (gm_del ?tmp (gm_put ?tmp (MBody (key @ [nlc])) dir))"
    have "has_marker std ?dir' key" using has_marker_put(2) [OF env kK kK] by simp
    moreover have "has_marker std ?dir' k'" if "k' \<in> K" "has_marker std dir k'" for k'
      by (rule has_marker_put(1) [OF env kK that(1)]) (simp_all add: that(2))
    ultimately have "disk_inv std tc K (List.insert key (al_seen l)) (d\<lparr>dk_side := SDir ?dir'\<rparr>)"
      using i(5) kK by (intro put_inv final) auto
    then show ?thesis using marked by (auto simp: led_inv_def led_grows_def)
  qed
qed

lemma Open_inv:
  assumes env: "ledger_env std tc K" and inv: "led_inv std tc K (l, d)"
    and op: "OpenDurableAdviceLedger std tc fl path d = (Inr l', d')"
  shows "led_inv std tc K (l', d') \<and> led_grows (l, d) (l', d')"
proof -
  from inv obtain trs dir where i: "list_all good_transition trs"
    "dk_file d = JBytes (file_text tc trs) \<or> trs = [] \<and> dk_file d \<in> {JMissing, JDirectory}"
    "dk_side d = SDir dir \<or> dir = [] \<and> dk_side d = SMissing" "dir_inv std K dir"
    "\<forall>k \<in> set (al_seen l). k \<in> suppressed_keys trs \<or> k \<in> K \<and> has_marker std dir k"
    by (auto simp: led_inv_def disk_inv_def)
  have tr: "time_readable tc" using env by (simp add: ledger_env_def)
  obtain seen where "ingestJSONL tc (file_text tc trs) [] = Inr seen" "set seen = suppressed_keys trs"
    using ingest_file [OF i(1) tr] by blast
  with i(2) op obtain seen0 where seen0: "set seen0 = suppressed_keys trs"
      "loadAmbiguousMarkers std fl d seen0 = (Inr (al_seen l'), d')"
    by (auto simp: OpenDurableAdviceLedger_def suppressed_keys_def split: if_splits prod.splits sum.splits)
  have nd: "\<forall>n \<in> set (read_dir dir). \<not> snd n"
    using i(4) by (auto simp: read_dir_def dir_inv_def)
  have names: "suppressMarkerFilename std k \<in> fst ` set (read_dir dir)" if "has_marker std dir k" for k
    using that gm_keys_dom [of "suppressMarkerFilename std k" dir]
    by (auto simp: read_dir_def has_marker_def image_image)
  show ?thesis
  proof (cases "dk_side d")
    case (SDir dir0)
    then have dir0: "dir0 = dir" using i(3) by auto
    from seen0(2) SDir dir0 obtain dir' where lm: "load_markers std fl (read_dir dir) dir seen0 = (Inr (al_seen l'), dir')"
        "d' = d\<lparr>dk_side := SDir dir'\<rparr>"
      by (auto simp: loadAmbiguousMarkers_def split: if_splits prod.splits)
    note rec = load_markers_recover [OF env lm(1) i(4) nd]
    have "disk_inv std tc K (al_seen l') d'"
      unfolding disk_inv_def using i(1,2) rec seen0(1) lm(2)
      by (intro exI [of _ trs] exI [of _ dir']) auto
    moreover have "set (al_seen l) \<subseteq> set (al_seen l')"
      using i(5) rec seen0(1) names by blast
    ultimately show ?thesis by (simp add: led_inv_def led_grows_def)
  next
    case SMissing
    then have "dir = []" using i(3) by auto
    then have "set (al_seen l) \<subseteq> suppressed_keys trs" using i(5) by (auto simp: has_marker_def)
    moreover from SMissing seen0(2) have "al_seen l' = seen0 \<and> d' = d"
      by (auto simp: loadAmbiguousMarkers_def split: if_splits)
    moreover have "disk_inv std tc K seen0 d"
      unfolding disk_inv_def using i seen0(1) by (intro exI [of _ trs] exI [of _ dir]) simp
    ultimately show ?thesis using seen0(1) by (simp add: led_inv_def led_grows_def)
  qed (use i(3) in auto)
qed

interpretation ledger_runs: transition_system led_initial "led_step std tc K" "led_inv std tc K" led_grows
  for std tc K
proof unfold_locales
  fix st :: "ledger \<times> ledger_disk" assume "led_initial st"
  then show "led_inv std tc K st"
    unfolding led_initial_def led_inv_def disk_inv_def
    by (intro exI [of _ "[]"]) (auto simp: dir_inv_def)
next
  fix st st' assume "led_inv std tc K st" "led_step std tc K st st'"
  from this(2,1) show "led_inv std tc K st' \<and> led_grows st st'"
  proof cases
    case (append tr io now)
    then show ?thesis using Append_inv [of std tc K "fst st" "snd st"] \<open>led_inv std tc K st\<close> by simp
  next
    case (mark i s h f io)
    then show ?thesis using Mark_inv [of std tc K "fst st" "snd st"] \<open>led_inv std tc K st\<close> by simp
  next
    case (reopen fl path d l' d' l)
    then show ?thesis using Open_inv \<open>led_inv std tc K st\<close> by simp
  qed
qed (auto simp: led_grows_def)

text \<open>
  C34. Suppression survives crashes. Start from a ledger that has never been written, let it
  append, mark, die and be reopened in any order, with failing system calls and temporary markers
  left behind: whatever key suppresses redelivery at one moment suppresses it ever after, in every
  later process whose open succeeds. Keys are compared as the identity they encode: for valid
  UTF-8 two different identities never share a key.

  The runs are those of \<open>led_step\<close>, which is restricted as follows. Appended identities are valid
  UTF-8 (\<open>identity_valid\<close>); for others the key changes when the line is read back, and suppression
  is lost. The marked keys \<open>K\<close> encode a valid UTF-8 identity with an intervention id and fit into a
  marker (\<open>good_key\<close>); the names of their markers, whole or cut short, do not collide; formatted times
  can be parsed again (\<open>ledger_env\<close>). A failed write of a JSONL line has written nothing; a marker
  may be cut anywhere.
\<close>

theorem suppression_survives_crashes:
  assumes "led_initial st0" "(led_step std tc K)\<^sup>*\<^sup>* st0 (l, d)" "(led_step std tc K)\<^sup>*\<^sup>* (l, d) (l', d')"
    and "AlreadyDeliveredKey i s h f l"
  shows "AlreadyDeliveredKey i s h f l'
    \<and> (\<forall>i2 s2 h2 f2. list_all ValidString [i, s, h, f, i2, s2, h2, f2] \<longrightarrow>
         dedupeKey i2 s2 h2 f2 = dedupeKey i s h f \<longrightarrow> (i2, s2, h2, f2) = (i, s, h, f))"
proof -
  have "led_grows (l, d) (l', d')" using assms(1-3) by (rule ledger_runs.reached_grows)
  then have "AlreadyDeliveredKey i s h f l'" using assms(4) by (auto simp: led_grows_def AlreadyDeliveredKey_def)
  moreover have "(i2, s2, h2, f2) = (i, s, h, f)"
    if "list_all ValidString [i, s, h, f, i2, s2, h2, f2]" "dedupeKey i2 s2 h2 f2 = dedupeKey i s h f" for i2 s2 h2 f2
    using json_strings_inj [of "[i2, s2, h2, f2]" "[i, s, h, f]"] that by (simp add: dedupeKey_def)
  ultimately show ?thesis by blast
qed

section \<open>A run with a poisoned path\<close>

text \<open>
  The JSONL path is a directory, so the host's acceptance goes to a marker; the process dies and
  the next one finds it. The digest of the example is the length of the text.
\<close>

definition length_std :: gostd where
  "length_std = \<lparr>sha256_hex = (\<lambda>s. dec (length s)), json_decode = (\<lambda>_. None), json_encode = (\<lambda>_. [])\<rparr>"

definition dull_time :: time_codec where
  "dull_time = \<lparr>tm_format = (\<lambda>_. []), tm_parse = (\<lambda>_. Some 0)\<rparr>"

definition demo_key :: string where "demo_key = dedupeKey ''i'' ''s'' ''h'' ''f''"

definition poisoned :: "ledger \<times> ledger_disk" where
  "poisoned = (\<lparr>al_seen = [], al_cursor = 0\<rparr>,
     \<lparr>dk_pathLink = False, dk_file = JDirectory, dk_sideLink = False, dk_side = SMissing\<rparr>)"

definition demo_marked :: "ledger \<times> ledger_disk" where
  "demo_marked = snd (MarkAmbiguousSuppress length_std
     \<lparr>mk_mkdir = True, mk_write = Some WriteOk, mk_rename = True, mk_remove = True\<rparr> ''i'' ''s'' ''h'' ''f'' poisoned)"

definition demo_reopened :: "ledger go_result \<times> ledger_disk" where
  "demo_reopened = OpenDurableAdviceLedger length_std dull_time
     \<lparr>of_write = (\<lambda>_. True), of_rename = (\<lambda>_. True), of_remove = (\<lambda>_. True)\<rparr> ''/l'' (snd demo_marked)"

lemma demo_env: "ledger_env length_std dull_time {demo_key}"
proof -
  let ?L = "map (\<lambda>n. TrimSpace (take n (demo_key @ [nlc]))) [0..<length demo_key + 2]"
  have len: "length demo_key = 17" by code_simp
  have "marker_texts {demo_key} \<subseteq> set ?L"
  proof
    fix x assume "x \<in> marker_texts {demo_key}"
    then obtain n where n: "x = TrimSpace (take n (demo_key @ [nlc]))" by (auto simp: marker_texts_def)
    then have "x = TrimSpace (take (min n 18) (demo_key @ [nlc]))" by (simp add: len min_def)
    then show "x \<in> set ?L" by (auto simp: len)
  qed
  moreover have "distinct (map (suppressMarkerFilename length_std) (remdups ?L))" by code_simp
  then have "inj_on (suppressMarkerFilename length_std) (set ?L)" by (simp add: distinct_map)
  ultimately have "inj_on (suppressMarkerFilename length_std) (marker_texts {demo_key})" by (rule inj_on_subset [rotated])
  moreover have "list_all ValidString [''i'', ''s'', ''h'', ''f'']" by code_simp
  then have "good_key demo_key"
    unfolding good_key_def using len by (auto simp: demo_key_def maxSuppressMarkerBytes_def)
  ultimately show ?thesis by (simp add: ledger_env_def time_readable_def dull_time_def)
qed

theorem suppression_survives_crashes_witness:
  "led_initial poisoned \<and> AlreadyDeliveredKey ''i'' ''s'' ''h'' ''f'' (fst demo_marked)
   \<and> (case demo_reopened of (r, d') \<Rightarrow> (case r of Inl e \<Rightarrow> False | Inr l' \<Rightarrow> AlreadyDeliveredKey ''i'' ''s'' ''h'' ''f'' l'))"
proof -
  have init: "led_initial poisoned" by (simp add: led_initial_def poisoned_def)
  have a: "AlreadyDeliveredKey ''i'' ''s'' ''h'' ''f'' (fst demo_marked)" by code_simp
  have "led_step length_std dull_time {demo_key} poisoned demo_marked"
    unfolding demo_marked_def by (rule led_step.mark [OF demo_env]) (simp add: demo_key_def)
  then have m: "(led_step length_std dull_time {demo_key})\<^sup>*\<^sup>* poisoned (fst demo_marked, snd demo_marked)" by simp
  have ok: "case fst demo_reopened of Inl _ \<Rightarrow> False | Inr _ \<Rightarrow> True" by code_simp
  obtain l' d' where r: "demo_reopened = (Inr l', d')"
  proof (cases "fst demo_reopened")
    case (Inl e)
    then show thesis using ok by simp
  next
    case (Inr l')
    then show thesis by (intro that [of l' "snd demo_reopened"]) (metis prod.collapse)
  qed
  then have "led_step length_std dull_time {demo_key} (fst demo_marked, snd demo_marked) (l', d')"
    unfolding demo_reopened_def by (rule led_step.reopen [OF demo_env])
  then have "(led_step length_std dull_time {demo_key})\<^sup>*\<^sup>* (fst demo_marked, snd demo_marked) (l', d')" by simp
  from suppression_survives_crashes [OF init m this a] show ?thesis using init a unfolding r by simp
qed

end
