(* ===== verification/AdvisoryDelivery.thy ===== *)
theory AdvisoryDelivery
  imports LedgerRecovery
begin

text \<open>
  \<open>pkg/adapter/advisory_delivery.go\<close>: the queue, the actuator, the human alerter and the ledger put
  together. The actuator and the alerter are parameters; the clock readings and the outcomes of the
  system calls of one call are the record \<open>delivery_env\<close>. An error that wraps
  \<open>ErrDurableWriteFailed\<close> is that constant. C35: what a delivery made durable is never delivered
  again, across restarts. C36: acknowledgements never mint an explicit ACK and change nothing when
  they fail.
\<close>

abbreviation CapAdviceDeliveryName :: string where "CapAdviceDeliveryName \<equiv> ''CapAdviceDelivery''"

abbreviation ErrNopHumanAlerter :: go_error where
  "ErrNopHumanAlerter \<equiv> ''human alerter is NopHumanAlerter; cannot claim escalation succeeded''"

type_synonym actuator = "intervention \<Rightarrow> intervention_result \<times> go_error option"

datatype human_alerter = NopHumanAlerter | Alerter "string \<Rightarrow> intervention \<Rightarrow> string \<Rightarrow> go_error option"

record advisory_delivery =
  ad_alerter :: human_alerter
  ad_supportsAdviceDelivery :: bool
  ad_defaultTTL :: int
  ad_queue :: pending_queue
  ad_ledger :: "ledger option"
  ad_dedupeHostFamily :: string

record delivery_env =
  de_queueNow :: time
  de_now :: time
  de_actuator :: actuator
  de_append :: append_io
  de_appendAmbiguous :: append_io
  de_mark :: mark_io

text \<open>\<open>actuatorHost\<close>: \<open>None\<close> for a nil actuator, else what \<open>hostFamilyFromActuator\<close> reports of it.\<close>

definition NewAdvisoryDelivery ::
  "string option \<Rightarrow> human_alerter option \<Rightarrow> bool \<Rightarrow> int \<Rightarrow> pending_queue option \<Rightarrow> ledger option \<Rightarrow> string
   \<Rightarrow> advisory_delivery go_result" where
  "NewAdvisoryDelivery actuatorHost al supports ttl q led dedupeHost =
     (case actuatorHost of
        None \<Rightarrow> Inl ''actuator is required''
      | Some ah \<Rightarrow>
          let host = (if TrimSpace dedupeHost = [] then ah else TrimSpace dedupeHost) in
          if led \<noteq> None \<and> host = []
          then Inl ''DedupeHostFamily required when Ledger is set (must match actuator HostFamily for restart suppress)''
          else Inr \<lparr>ad_alerter = (case al of None \<Rightarrow> NopHumanAlerter | Some a \<Rightarrow> a),
                    ad_supportsAdviceDelivery = supports, ad_defaultTTL = (if ttl \<le> 0 then five_minutes else ttl),
                    ad_queue = (case q of None \<Rightarrow> NewPendingQueue | Some q' \<Rightarrow> q'), ad_ledger = led,
                    ad_dedupeHostFamily = host\<rparr>)"

definition ad_Enqueue ::
  "time \<Rightarrow> intervention \<Rightarrow> int \<Rightarrow> advisory_delivery \<Rightarrow> enqueue_result \<times> advisory_delivery" where
  "ad_Enqueue now iv ttl ad =
     (case pq_Enqueue now iv (if ttl \<le> 0 then ad_defaultTTL ad else ttl) (ad_queue ad) of
        (r, q) \<Rightarrow> (r, ad\<lparr>ad_queue := q\<rparr>))"

definition mapResultToState :: "intervention_result \<Rightarrow> bool \<Rightarrow> delivery_state" where
  "mapResultToState res failed =
     (let st = ir_AckStatus res; layer = ir_AckLayer res; c = ir_ErrorClass res in
      if st = AckStatusAcked then
        (if layer = ACKLayerExplicit then StateExplicitACK
         else if layer = ACKLayerBehavioral then StateBehavioralACK else StateAcked)
      else if st = AckStatusRejected then StateRejected
      else if st = AckStatusTimedOut then StateTimedOut
      else if st = AckStatusUnsupported then StateUnsupported
      else if st = AckStatusPending then
        (if failed then StateFailed
         else if layer = ACKLayerSessionVisible then StateSessionVisible
         else if layer = ACKLayerTransport then StateTransportAccepted else StateDelivering)
      else if c = ErrorClassUnsupportedCapability then StateUnsupported
      else if c = ErrorClassTimeout then StateTimedOut
      else if c = ErrorClassTransport \<or> failed then StateFailed
      else if ir_Accepted res then StateAcked else StateFailed)"

definition layerRank :: "string \<Rightarrow> nat" where
  "layerRank layer =
     (if layer = ACKLayerTransport then 1 else if layer = ACKLayerSessionVisible then 2
      else if layer = ACKLayerBehavioral then 3 else if layer = ACKLayerExplicit then 4 else 0)"

definition pickNonEmpty :: "string \<Rightarrow> string \<Rightarrow> string" where
  "pickNonEmpty a b = (if a \<noteq> [] then a else b)"

definition awaitingExplicitACK :: "delivery_state \<Rightarrow> bool" where
  "awaitingExplicitACK st \<longleftrightarrow> st \<in> {StateDelivering, StateTransportAccepted, StateSessionVisible}"

section \<open>Delivering\<close>

type_synonym delivered = "pending_item option \<times> intervention_result \<times> go_error option"

definition suppress_duplicate ::
  "time_codec \<Rightarrow> delivery_env \<Rightarrow> string \<Rightarrow> string \<Rightarrow> pending_item \<Rightarrow> advisory_delivery \<Rightarrow> ledger \<Rightarrow> ledger_disk
   \<Rightarrow> delivered \<times> advisory_delivery \<times> ledger_disk" where
  "suppress_duplicate tc env sessionID host item ad l d =
     (let iv = pi_Intervention item;
          res = zero_result\<lparr>ir_InterventionID := iv_InterventionID iv, ir_Accepted := False,
            ir_DeliveryMode := DefaultDeliveryMode (iv_ActionType iv), ir_DeliveredAt := de_now env,
            ir_AckStatus := AckStatusRejected, ir_ErrorClass := ErrorClassNone,
            ir_Message := ''duplicate InterventionID suppressed by durable ledger'',
            ir_AckLayer := ACKLayerNone, ir_HostFamily := host\<rparr>;
          q = snd (UpdateState (iv_InterventionID iv) StateSuppressed (Some res) (ad_queue ad));
          (_, l', d') = RecordResultWithSource tc (de_append env) (de_now env) StateDelivering sessionID res
            StateSuppressed [] [] [] (iv_Fingerprint iv) (l, d)
      in ((Some (item\<lparr>pi_State := StateSuppressed, pi_Result := Some res\<rparr>), res, None),
          ad\<lparr>ad_queue := q, ad_ledger := Some l'\<rparr>, d'))"

definition fail_item ::
  "pending_item \<Rightarrow> intervention_result \<Rightarrow> go_error option \<Rightarrow> advisory_delivery \<Rightarrow> ledger_disk
   \<Rightarrow> delivered \<times> advisory_delivery \<times> ledger_disk" where
  "fail_item item res err ad d =
     ((Some (item\<lparr>pi_State := StateFailed, pi_Result := Some res\<rparr>), res, err),
      ad\<lparr>ad_queue := snd (UpdateState (iv_InterventionID (pi_Intervention item)) StateFailed (Some res) (ad_queue ad))\<rparr>, d)"

definition escalate ::
  "delivery_env \<Rightarrow> string \<Rightarrow> pending_item \<Rightarrow> advisory_delivery \<Rightarrow> ledger_disk
   \<Rightarrow> delivered \<times> advisory_delivery \<times> ledger_disk" where
  "escalate env sessionID item ad d =
     (let msg = ''missing capability '' @ CapAdviceDeliveryName @ ''; escalate to human required'';
          res = zero_result\<lparr>ir_InterventionID := iv_InterventionID (pi_Intervention item), ir_Accepted := False,
            ir_DeliveryMode := DeliveryModeHumanEscalation, ir_DeliveredAt := de_now env,
            ir_AckStatus := AckStatusUnsupported, ir_ErrorClass := ErrorClassUnsupportedCapability, ir_Message := msg\<rparr>
      in case ad_alerter ad of
           NopHumanAlerter \<Rightarrow>
             fail_item item (res\<lparr>ir_Message := msg @ '': '' @ ErrNopHumanAlerter, ir_ErrorClass := ErrorClassTransport\<rparr>)
               (Some ErrNopHumanAlerter) ad d
         | Alerter alert \<Rightarrow>
             (case alert sessionID (pi_Intervention item) msg of
                Some e \<Rightarrow>
                  fail_item item (res\<lparr>ir_Message := msg @ '': alerter error: '' @ e, ir_ErrorClass := ErrorClassTransport\<rparr>)
                    (Some e) ad d
              | None \<Rightarrow> fail_item item res None ad d))"

text \<open>The ledger part of a delivery: the state and result to report, the error, ledger and disk.\<close>

definition record_delivery ::
  "gostd \<Rightarrow> time_codec \<Rightarrow> delivery_env \<Rightarrow> string \<Rightarrow> intervention \<Rightarrow> intervention_result \<Rightarrow> go_error option
   \<Rightarrow> delivery_state \<Rightarrow> ledger \<Rightarrow> ledger_disk
   \<Rightarrow> (delivery_state \<times> intervention_result \<times> go_error option) \<times> ledger \<times> ledger_disk" where
  "record_delivery std tc env sessionID iv res err st l d =
     (let fp = iv_Fingerprint iv in
      case RecordResultWithSource tc (de_append env) (de_now env) StateDelivering sessionID res st [] [] [] fp (l, d) of
        (None, l1, d1) \<Rightarrow> ((st, res, err), l1, d1)
      | (Some lerr, l1, d1) \<Rightarrow>
          let boundary = ClassifyDeliveryBoundary res (err \<noteq> None);
              res1 = res\<lparr>ir_Message := TrimSpace (ir_Message res @ ''; durable_write_failed'')\<rparr>
          in if \<not> ShouldAmbiguousSuppress boundary then
               ((st, if ir_ErrorClass res1 = ErrorClassNone then res1\<lparr>ir_ErrorClass := ErrorClassTransport\<rparr> else res1,
                 Some ErrDurableWriteFailed), l1, d1)
             else
               let res2 = res1\<lparr>ir_ErrorClass := ErrorClassTransport\<rparr> in
               (case RecordResultWithSource tc (de_appendAmbiguous env) (de_now env) StateDelivering sessionID res2
                       StateAmbiguous [] [] [] fp (l1, d1) of
                  (None, l2, d2) \<Rightarrow> ((StateAmbiguous, res2, Some ErrDurableWriteFailed), l2, d2)
                | (Some merr, l2, d2) \<Rightarrow>
                    (case MarkAmbiguousSuppress std (de_mark env) (iv_InterventionID iv) sessionID (ir_HostFamily res2) fp (l2, d2) of
                       (_, l3, d3) \<Rightarrow> ((StateAmbiguous, res2, Some ErrDurableWriteFailed), l3, d3))))"

definition send_item ::
  "gostd \<Rightarrow> time_codec \<Rightarrow> delivery_env \<Rightarrow> string \<Rightarrow> pending_item \<Rightarrow> advisory_delivery \<Rightarrow> ledger_disk
   \<Rightarrow> delivered \<times> advisory_delivery \<times> ledger_disk" where
  "send_item std tc env sessionID item ad d =
     (let iv = pi_Intervention item; (res0, err) = de_actuator env iv;
          res = (if ir_HostFamily res0 = [] then res0\<lparr>ir_HostFamily := ad_dedupeHostFamily ad\<rparr> else res0);
          st = mapResultToState res (err \<noteq> None)
      in case ad_ledger ad of
           None \<Rightarrow>
             ((Some (item\<lparr>pi_State := st, pi_Result := Some res\<rparr>), res, err),
              ad\<lparr>ad_queue := snd (UpdateState (iv_InterventionID iv) st (Some res) (ad_queue ad))\<rparr>, d)
         | Some l \<Rightarrow>
             (case record_delivery std tc env sessionID iv res err st l d of
                ((st', res', err'), l', d') \<Rightarrow>
                  ((Some (item\<lparr>pi_State := st', pi_Result := Some res'\<rparr>), res', err'),
                   ad\<lparr>ad_queue := snd (UpdateState (iv_InterventionID iv) st' (Some res') (ad_queue ad)),
                      ad_ledger := Some l'\<rparr>, d')))"

definition DeliverPending ::
  "gostd \<Rightarrow> time_codec \<Rightarrow> delivery_env \<Rightarrow> string \<Rightarrow> advisory_delivery \<Rightarrow> ledger_disk
   \<Rightarrow> delivered \<times> advisory_delivery \<times> ledger_disk" where
  "DeliverPending std tc env sessionID ad0 d =
     (case NextPending (de_queueNow env) sessionID (ad_queue ad0) of
        (None, q) \<Rightarrow> ((None, zero_result, Some ''no pending intervention for session''), ad0\<lparr>ad_queue := q\<rparr>, d)
      | (Some item, q) \<Rightarrow>
          let ad = ad0\<lparr>ad_queue := q\<rparr>; iv = pi_Intervention item;
              host = (case pi_Result item of
                        Some r \<Rightarrow> if ir_HostFamily r \<noteq> [] then ir_HostFamily r else ad_dedupeHostFamily ad
                      | None \<Rightarrow> ad_dedupeHostFamily ad);
              dup = (case ad_ledger ad of
                       None \<Rightarrow> False
                     | Some l \<Rightarrow> AlreadyDeliveredKey (iv_InterventionID iv) sessionID host (iv_Fingerprint iv) l)
          in if dup then suppress_duplicate tc env sessionID host item ad (the (ad_ledger ad)) d
             else if \<not> ad_supportsAdviceDelivery ad then escalate env sessionID item ad d
             else send_item std tc env sessionID item ad d)"

section \<open>Acknowledging\<close>

definition ack_state :: "string \<Rightarrow> delivery_state" where
  "ack_state layer =
     (if layer = ACKLayerExplicit then StateExplicitACK
      else if layer = ACKLayerSessionVisible then StateSessionVisible
      else if layer = ACKLayerTransport then StateTransportAccepted else StateAcked)"

definition ack_result :: "acknowledge_request \<Rightarrow> time \<Rightarrow> pending_item \<Rightarrow> intervention_result" where
  "ack_result req now item =
     (case pi_Result item of
        None \<Rightarrow> zero_result\<lparr>ir_InterventionID := ak_InterventionID req,
          ir_DeliveryMode := DefaultDeliveryMode (iv_ActionType (pi_Intervention item)), ir_DeliveredAt := now,
          ir_ErrorClass := ErrorClassNone, ir_HostFamily := ak_HostFamily req, ir_HostVersion := ak_HostVersion req,
          ir_Profile := ak_Profile req, ir_TargetSessionID := ak_TargetSession req\<rparr>
      | Some prev \<Rightarrow> prev\<lparr>ir_HostFamily := pickNonEmpty (ak_HostFamily req) (ir_HostFamily prev),
          ir_HostVersion := pickNonEmpty (ak_HostVersion req) (ir_HostVersion prev),
          ir_Profile := pickNonEmpty (ak_Profile req) (ir_Profile prev),
          ir_TargetSessionID := pickNonEmpty (ak_TargetSession req) (ir_TargetSessionID prev)\<rparr>)"

definition ack_outcome ::
  "acknowledge_request \<Rightarrow> time \<Rightarrow> intervention_result \<Rightarrow> (delivery_state \<times> intervention_result) go_result" where
  "ack_outcome req now res =
     (let layer0 = (if ak_AckLayer req = [] \<and> ak_Status req = AckStatusAcked then ACKLayerSessionVisible else ak_AckLayer req);
          mx = ProfileMaxACKLayer (ir_HostFamily res) (ir_Profile res)
      in if layer0 = ACKLayerExplicit \<and> mx \<noteq> ACKLayerExplicit then Inl ErrExplicitACKNotSupported
         else
           let layer = (if layerRank layer0 > layerRank mx then mx else layer0) in
           if ak_Status req = AckStatusAcked then
             Inr (ack_state layer,
               res\<lparr>ir_Accepted := True, ir_AckStatus := AckStatusAcked, ir_AckLayer := layer, ir_AckAt := Some now,
                   ir_Message := ''source_bound ack kind='' @ ak_SourceKind req @ '' event='' @ ak_SourceEventID req
                     @ '' layer='' @ layer\<rparr>)
           else if ak_Status req = AckStatusRejected then
             Inr (StateRejected, res\<lparr>ir_Accepted := False, ir_AckStatus := AckStatusRejected,
               ir_ErrorClass := ErrorClassAgentRejected, ir_AckAt := Some now\<rparr>)
           else if ak_Status req = AckStatusTimedOut then
             Inr (StateTimedOut, res\<lparr>ir_Accepted := False, ir_AckStatus := AckStatusTimedOut,
               ir_ErrorClass := ErrorClassTimeout\<rparr>)
           else Inl ''invalid ack status'')"

definition AcknowledgeSource ::
  "time_codec \<Rightarrow> append_io \<Rightarrow> time \<Rightarrow> acknowledge_request \<Rightarrow> advisory_delivery \<Rightarrow> ledger_disk
   \<Rightarrow> go_error option \<times> advisory_delivery \<times> ledger_disk" where
  "AcknowledgeSource tc io wall req ad d =
     (case ValidateAcknowledgeRequest req of
        Some e \<Rightarrow> (Some e, ad, d)
      | None \<Rightarrow>
          (case pq_Get (ak_InterventionID req) (ad_queue ad) of
             None \<Rightarrow> (Some ''unknown intervention'', ad, d)
           | Some item \<Rightarrow>
               if \<not> awaitingExplicitACK (pi_State item) then (Some ''intervention not awaiting ack'', ad, d)
               else if (case pi_Result item of
                          None \<Rightarrow> False
                        | Some r \<Rightarrow> ir_TargetSessionID r \<noteq> [] \<and> ak_TargetSession req \<noteq> []
                            \<and> ir_TargetSessionID r \<noteq> ak_TargetSession req)
                 then (Some ''target session mismatch'', ad, d)
               else
                 let now = (if ak_ObservedAt req = 0 then wall else ak_ObservedAt req) in
                 (case ack_outcome req now (ack_result req now item) of
                    Inl e \<Rightarrow> (Some e, ad, d)
                  | Inr (st, res) \<Rightarrow>
                      let q = snd (UpdateState (ak_InterventionID req) st (Some res) (ad_queue ad)) in
                      (case ad_ledger ad of
                         None \<Rightarrow> (None, ad\<lparr>ad_queue := q\<rparr>, d)
                       | Some l \<Rightarrow>
                           (case RecordResultWithSource tc io wall (pi_State item)
                                   (iv_SessionID (pi_Intervention item)) res st (ak_SourceKind req)
                                   (ak_SourceEventID req) (ak_CorrelationID req)
                                   (iv_Fingerprint (pi_Intervention item)) (l, d) of
                              (Some e, l', d') \<Rightarrow> (Some ErrDurableWriteFailed, ad\<lparr>ad_ledger := Some l'\<rparr>, d')
                            | (None, l', d') \<Rightarrow> (None, ad\<lparr>ad_queue := q, ad_ledger := Some l'\<rparr>, d'))))))"

definition ad_Acknowledge ::
  "time_codec \<Rightarrow> append_io \<Rightarrow> time \<Rightarrow> string \<Rightarrow> string \<Rightarrow> advisory_delivery \<Rightarrow> ledger_disk
   \<Rightarrow> go_error option \<times> advisory_delivery \<times> ledger_disk" where
  "ad_Acknowledge tc io wall i status ad d =
     (if status = AckStatusAcked then (Some ErrBareAcknowledgeExplicit, ad, d)
      else AcknowledgeSource tc io wall
        \<lparr>ak_SchemaVersion = AcknowledgeRequestSchemaV1, ak_InterventionID = i, ak_HostFamily = [], ak_HostVersion = [],
         ak_Profile = [], ak_TargetSession = [], ak_SourceKind = ''legacy_bare'',
         ak_SourceEventID = ''legacy:'' @ i @ '':'' @ status, ak_CorrelationID = [], ak_AckLayer = ACKLayerNone,
         ak_Status = status, ak_ObservedAt = 0\<rparr> ad d)"

section \<open>No redelivery\<close>

definition host_faithful :: "advisory_delivery \<Rightarrow> delivery_env \<Rightarrow> intervention \<Rightarrow> bool" where
  "host_faithful ad env iv \<longleftrightarrow>
     ir_InterventionID (fst (de_actuator env iv)) = iv_InterventionID iv
     \<and> ir_HostFamily (fst (de_actuator env iv)) \<in> {[], ad_dedupeHostFamily ad}"

definition fresh_next :: "delivery_env \<Rightarrow> string \<Rightarrow> advisory_delivery \<Rightarrow> pending_item \<Rightarrow> bool" where
  "fresh_next env s ad item \<longleftrightarrow>
     fst (NextPending (de_queueNow env) s (ad_queue ad)) = Some item \<and> pi_Result item = None"

abbreviation handled_by :: "string \<Rightarrow> advisory_delivery \<Rightarrow> intervention \<Rightarrow> ledger \<Rightarrow> bool" where
  "handled_by s ad iv l \<equiv> AlreadyDeliveredKey (iv_InterventionID iv) s (ad_dedupeHostFamily ad) (iv_Fingerprint iv) l"

lemma Append_ok:
  assumes "Append tc io now tr (l, d) = (None, l1, d1)"
  shows "dt_InterventionID tr \<noteq> []" "set (al_seen l) \<subseteq> set (al_seen l1)"
    and "isSuppressState (dt_ToState tr) \<Longrightarrow> transition_key tr \<in> set (al_seen l1)"
proof -
  have v: "validateTransitionSemantic (complete_transition now tr) = None"
    and l1: "al_seen l1 = (if isSuppressState (dt_ToState (complete_transition now tr))
        then List.insert (transition_key (complete_transition now tr)) (al_seen l) else al_seen l)"
    using assms by (auto simp: Append_def Let_def split: option.splits if_splits jsonl_file.splits write_outcome.splits)
  show "dt_InterventionID tr \<noteq> []"
    using v by (auto simp: validateTransitionSemantic_def complete_transition_def split: if_splits)
  show "set (al_seen l) \<subseteq> set (al_seen l1)" using l1 by auto
  show "transition_key tr \<in> set (al_seen l1)" if "isSuppressState (dt_ToState tr)"
    using l1 that by (simp add: complete_transition_def transition_key_def)
qed

lemma DeliverPending_known:
  assumes "fresh_next env s ad item" "ad_ledger ad = Some l" "handled_by s ad (pi_Intervention item) l"
  shows "DeliverPending std tc env s ad d =
    suppress_duplicate tc env s (ad_dedupeHostFamily ad) item
      (ad\<lparr>ad_queue := snd (NextPending (de_queueNow env) s (ad_queue ad))\<rparr>) l d"
  using assms by (cases "NextPending (de_queueNow env) s (ad_queue ad)") (simp add: DeliverPending_def fresh_next_def Let_def)

text \<open>A first delivery that ends in a suppressing state without an error leaves its key in the ledger.\<close>

lemma RecordResult_run:
  assumes "ledger_env std tc K" "ap_write io \<in> {WriteOk, WriteFails 0}"
    and "list_all ValidString [ir_InterventionID res, s, ir_HostFamily res, f]"
    and "RecordResultWithSource tc io now from s res st k e c f (l, d) = (err, l1, d1)"
  shows "led_step std tc K (l, d) (l1, d1)"
proof -
  have "led_step std tc K (l, d) (snd (RecordResultWithSource tc io now from s res st k e c f (l, d)))"
    unfolding RecordResultWithSource_def
    by (rule led_step.append [OF assms(1) _ assms(2)]) (use assms(3) in \<open>simp add: identity_valid_def\<close>)
  then show ?thesis by (simp add: assms(4))
qed

lemma RecordResult_key:
  assumes "RecordResultWithSource tc io now from s res st k e c f (l, d) = (None, l1, d1)" "isSuppressState (state_str st)"
  shows "AlreadyDeliveredKey (ir_InterventionID res) s (ir_HostFamily res) f l1"
  using Append_ok(1,3) [OF assms(1) [unfolded RecordResultWithSource_def]] assms(2)
  by (simp add: AlreadyDeliveredKey_def transition_key_def)

lemma record_delivery_ok:
  assumes "record_delivery std tc env s iv res err st l d = ((st', res', None), l1, d1)"
  shows "st' = st \<and> RecordResultWithSource tc (de_append env) (de_now env) StateDelivering s res st [] [] []
    (iv_Fingerprint iv) (l, d) = (None, l1, d1)"
  using assms by (auto simp: record_delivery_def Let_def split: prod.splits option.splits if_splits)

lemma fail_item_state: "fail_item item res err ad d = ((Some it, r, e), ad1, d1) \<Longrightarrow> pi_State it = StateFailed"
  by (auto simp: fail_item_def)

lemma escalate_fails: "escalate env s item ad d = ((Some it, res, err), ad1, d1) \<Longrightarrow> pi_State it = StateFailed"
  by (auto simp: escalate_def Let_def dest: fail_item_state split: human_alerter.splits option.splits)

lemma not_suppress_failed: "\<not> isSuppressState (state_str StateFailed)"
  by code_simp

lemma first_delivery:
  assumes env: "ledger_env std tc K" "ap_write (de_append env) \<in> {WriteOk, WriteFails 0}"
    and nx: "fresh_next env s ad item" and iv: "iv = pi_Intervention item"
    and valid: "list_all ValidString [iv_InterventionID iv, s, ad_dedupeHostFamily ad, iv_Fingerprint iv]"
    and host: "host_faithful ad env iv" and led: "ad_ledger ad = Some l"
    and del: "DeliverPending std tc env s ad d = ((Some it, res, None), ad1, d1)" "isSuppressState (state_str (pi_State it))"
  shows "\<exists>l1. ad_ledger ad1 = Some l1 \<and> led_step std tc K (l, d) (l1, d1) \<and> (handled_by s ad iv l \<or> handled_by s ad iv l1)"
proof (cases "handled_by s ad iv l")
  case True
  define q where "q = snd (NextPending (de_queueNow env) s (ad_queue ad))"
  have "suppress_duplicate tc env s (ad_dedupeHostFamily ad) item (ad\<lparr>ad_queue := q\<rparr>) l d = ((Some it, res, None), ad1, d1)"
    using DeliverPending_known [OF nx led] True del(1) by (simp add: iv q_def)
  then have r: "ir_InterventionID res = iv_InterventionID iv" "ir_HostFamily res = ad_dedupeHostFamily ad"
    and "\<exists>e l1. ad_ledger ad1 = Some l1 \<and> RecordResultWithSource tc (de_append env) (de_now env) StateDelivering s res
      StateSuppressed [] [] [] (iv_Fingerprint iv) (l, d) = (e, l1, d1)"
    by (auto simp: suppress_duplicate_def Let_def zero_result_def iv split: prod.splits)
  then show ?thesis using RecordResult_run [OF env, of res s "iv_Fingerprint iv"] valid True r by auto
next
  case False
  obtain q where q: "NextPending (de_queueNow env) s (ad_queue ad) = (Some item, q)" "pi_Result item = None"
    using nx by (auto simp: fresh_next_def prod_eq_iff)
  have sup: "ad_supportsAdviceDelivery ad"
  proof (rule ccontr)
    assume "\<not> ad_supportsAdviceDelivery ad"
    then have "escalate env s item (ad\<lparr>ad_queue := q\<rparr>) d = ((Some it, res, None), ad1, d1)"
      using del(1) q led False by (simp add: DeliverPending_def Let_def iv)
    from escalate_fails [OF this] show False using del(2) not_suppress_failed by simp
  qed
  obtain res0 err where a: "de_actuator env iv = (res0, err)" by fastforce
  define r where "r = (if ir_HostFamily res0 = []
    then res0\<lparr>ir_HostFamily := ad_dedupeHostFamily (ad\<lparr>ad_queue := q\<rparr>)\<rparr> else res0)"
  have rh: "ir_HostFamily r = ad_dedupeHostFamily ad" "ir_InterventionID r = iv_InterventionID iv"
    using host a by (auto simp: r_def host_faithful_def)
  from del(1) q led False sup a obtain st' res' l1 where
      rec: "record_delivery std tc env s iv r err (mapResultToState r (err \<noteq> None)) l d = ((st', res', None), l1, d1)"
      "ad_ledger ad1 = Some l1" "pi_State it = st'"
    by (auto simp: DeliverPending_def send_item_def Let_def iv r_def [symmetric] split: prod.splits)
  note ok = record_delivery_ok [OF rec(1)]
  have "led_step std tc K (l, d) (l1, d1)"
    by (rule RecordResult_run [OF env _ conjunct2 [OF ok]]) (use valid rh in simp)
  moreover have "handled_by s ad iv l1"
    using RecordResult_key [OF conjunct2 [OF ok]] ok del(2) rec(3) rh by simp
  ultimately show ?thesis using rec(2) by blast
qed

text \<open>
  C35. No redelivery. A process delivers an intervention; the call reports no error and a state in
  which the host may have it. Whatever then happens to the ledger, a crash and a restart included,
  a later process that finds the same intervention for the same session at the head of its queue
  does not deliver it again: the outcome does not depend on what the actuator would do, and the item
  is reported as suppressed.

  The hypotheses are what the dedupe relies on. The first actuator answers for the intervention it
  was given and names no other host family than the configured one (\<open>host_faithful\<close>); the identity
  is valid UTF-8; the ledger runs are those of C34, and the line of this delivery is written whole
  or not at all; both items come fresh from their queue, without a result of their own
  (\<open>fresh_next\<close>); and the later process is configured with the same host family.
\<close>

theorem no_redelivery_after_restart:
  assumes "led_initial st0" "(led_step std tc K)\<^sup>*\<^sup>* st0 (l, d)"
    and "ledger_env std tc K" "ap_write (de_append env) \<in> {WriteOk, WriteFails 0}"
    and "fresh_next env s ad item" "host_faithful ad env (pi_Intervention item)"
    and "list_all ValidString [iv_InterventionID (pi_Intervention item), s, ad_dedupeHostFamily ad,
           iv_Fingerprint (pi_Intervention item)]"
    and "ad_ledger ad = Some l" "DeliverPending std tc env s ad d = ((Some it, res, None), ad1, d1)"
    and "isSuppressState (state_str (pi_State it))"
    and "ad_ledger ad1 = Some l1" "(led_step std tc K)\<^sup>*\<^sup>* (l1, d1) (l2, d2)"
    and "fresh_next env2 s ad2 item2" "ad_ledger ad2 = Some l2" "ad_dedupeHostFamily ad2 = ad_dedupeHostFamily ad"
    and "iv_InterventionID (pi_Intervention item2) = iv_InterventionID (pi_Intervention item)"
    and "iv_Fingerprint (pi_Intervention item2) = iv_Fingerprint (pi_Intervention item)"
  shows "DeliverPending std tc (env2\<lparr>de_actuator := act\<rparr>) s ad2 d2 = DeliverPending std tc env2 s ad2 d2
    \<and> (case DeliverPending std tc env2 s ad2 d2 of ((out, res2, err), _, _) \<Rightarrow>
         map_option pi_State out = Some StateSuppressed \<and> \<not> ir_Accepted res2 \<and> err = None)"
proof -
  let ?iv = "pi_Intervention item"
  have step: "led_step std tc K (l, d) (l1, d1)" "handled_by s ad ?iv l \<or> handled_by s ad ?iv l1"
    using first_delivery [OF assms(3-5) refl assms(7,6,8-10)] assms(11) by auto
  have "(led_step std tc K)\<^sup>*\<^sup>* st0 (l1, d1)" using assms(2) step(1) by (rule rtranclp.rtrancl_into_rtrancl)
  then have "led_grows (l1, d1) (l2, d2)" by (rule ledger_runs.reached_grows [OF assms(1) _ assms(12)])
  moreover have "led_grows (l, d) (l1, d1)"
    by (rule ledger_runs.reached_grows [OF assms(1,2)]) (use step(1) in simp)
  ultimately have "handled_by s ad2 (pi_Intervention item2) l2"
    using step(2) assms(15-17) by (auto simp: led_grows_def AlreadyDeliveredKey_def)
  moreover have "fresh_next (env2\<lparr>de_actuator := act\<rparr>) s ad2 item2" using assms(13) by (simp add: fresh_next_def)
  ultimately have k: "DeliverPending std tc (env2\<lparr>de_actuator := act\<rparr>) s ad2 d2 = suppress_duplicate tc
      (env2\<lparr>de_actuator := act\<rparr>) s (ad_dedupeHostFamily ad2) item2
      (ad2\<lparr>ad_queue := snd (NextPending (de_queueNow env2) s (ad_queue ad2))\<rparr>) l2 d2"
    "DeliverPending std tc env2 s ad2 d2 = suppress_duplicate tc env2 s (ad_dedupeHostFamily ad2) item2
      (ad2\<lparr>ad_queue := snd (NextPending (de_queueNow env2) s (ad_queue ad2))\<rparr>) l2 d2"
    using DeliverPending_known [OF _ assms(14)] assms(13) by simp_all
  show ?thesis unfolding k by (simp add: suppress_duplicate_def Let_def zero_result_def split: prod.splits)
qed

section \<open>Acknowledgements\<close>

definition ack_effect :: "acknowledge_request \<Rightarrow> pending_item \<Rightarrow> pending_item \<Rightarrow> bool" where
  "ack_effect req old new \<longleftrightarrow>
     awaitingExplicitACK (pi_State old) \<and> pi_Intervention new = pi_Intervention old
     \<and> (if ak_Status req = AckStatusAcked
         then pi_State new \<in> {StateTransportAccepted, StateSessionVisible, StateAcked}
           \<and> (case pi_Result new of None \<Rightarrow> False | Some r \<Rightarrow> ir_Accepted r \<and> layerRank (ir_AckLayer r) \<le> 2)
         else pi_State new = (if ak_Status req = AckStatusRejected then StateRejected else StateTimedOut)
           \<and> (case pi_Result new of None \<Rightarrow> False | Some r \<Rightarrow> \<not> ir_Accepted r))"

lemma ack_outcome_spec:
  assumes "ack_outcome req now res = Inr (st, r)"
  shows "if ak_Status req = AckStatusAcked
         then st \<in> {StateTransportAccepted, StateSessionVisible, StateAcked} \<and> ir_Accepted r \<and> layerRank (ir_AckLayer r) \<le> 2
         else st = (if ak_Status req = AckStatusRejected then StateRejected else StateTimedOut) \<and> \<not> ir_Accepted r"
proof -
  have "layerRank ACKLayerSessionVisible = 2" by (simp add: layerRank_def)
  moreover have "ProfileMaxACKLayer h p = ACKLayerSessionVisible" for h p by (simp add: ProfileMaxACKLayer_def)
  moreover have "layer \<noteq> ACKLayerExplicit" if "layerRank layer \<le> 2" for layer using that by (auto simp: layerRank_def)
  ultimately show ?thesis using assms
    by (auto simp: ack_outcome_def ack_state_def Let_def split: if_splits)
qed

lemma UpdateState_get:
  "pq_Get i q = Some item \<Longrightarrow>
   pq_Get j (snd (UpdateState i st (Some r) q)) =
     (if j = i then Some (item\<lparr>pi_State := st, pi_Result := Some r\<rparr>) else pq_Get j q)"
  by (simp add: UpdateState_def pq_Get_def Let_def)

text \<open>
  C36. Acknowledgements. When the call fails, for a bad request, an unknown or settled intervention,
  a session mismatch or a ledger write, the queue is unchanged: memory never runs ahead of the log.
  When it succeeds, the item was awaiting an acknowledgement, no other item changes, and the new
  state follows the status; an acknowledgement is never recorded above the session-visible layer and
  never as an explicit one.
\<close>

theorem acknowledge_contract:
  "case AcknowledgeSource tc io wall req ad d of
     (Some e, ad', d') \<Rightarrow> ad_queue ad' = ad_queue ad
   | (None, ad', d') \<Rightarrow>
       (case (pq_Get (ak_InterventionID req) (ad_queue ad), pq_Get (ak_InterventionID req) (ad_queue ad')) of
          (Some old, Some new) \<Rightarrow> ack_effect req old new
        | _ \<Rightarrow> False)
       \<and> pq_bySess (ad_queue ad') = pq_bySess (ad_queue ad)
       \<and> (\<forall>j. j = ak_InterventionID req \<or> pq_Get j (ad_queue ad') = pq_Get j (ad_queue ad))"
proof -
  let ?i = "ak_InterventionID req"
  obtain e ad' d' where ack: "AcknowledgeSource tc io wall req ad d = (e, ad', d')" by (metis prod_cases3)
  show ?thesis
  proof (cases e)
    case (Some err)
    then have "ad_queue ad' = ad_queue ad"
      using ack unfolding AcknowledgeSource_def Let_def
      by (auto split: option.splits sum.splits prod.splits if_splits)
    then show ?thesis using ack Some by simp
  next
    case None
    then obtain item now st r where ok: "pq_Get ?i (ad_queue ad) = Some item" "awaitingExplicitACK (pi_State item)"
        "ack_outcome req now (ack_result req now item) = Inr (st, r)"
        "ad_queue ad' = snd (UpdateState ?i st (Some r) (ad_queue ad))"
      using ack unfolding AcknowledgeSource_def Let_def
      by (auto split: option.splits sum.splits prod.splits if_split_asm)
    have "ack_effect req item (item\<lparr>pi_State := st, pi_Result := Some r\<rparr>)"
      using ack_outcome_spec [OF ok(3)] ok(2) by (cases "ak_Status req = AckStatusAcked") (auto simp: ack_effect_def)
    moreover have "pq_bySess (snd (UpdateState ?i st (Some r) (ad_queue ad))) = pq_bySess (ad_queue ad)"
      by (simp add: UpdateState_def Let_def split: option.split)
    ultimately show ?thesis using ack None ok UpdateState_get [OF ok(1)] by simp
  qed
qed

section \<open>A delivery and a restart\<close>

definition demo_iv :: intervention where
  "demo_iv = \<lparr>iv_InterventionID = ''i'', iv_SessionID = ''s'', iv_Level = 1, iv_ActionType = ''ZOOM_OUT_PROMPT'',
     iv_AdvicePrompt = ''a'', iv_TargetCheckpointID = [], iv_Status = [], iv_ExecutedAt = 0, iv_ExpiresAt = None,
     iv_Priority = 0, iv_DeliveryModeHint = [], iv_RequiresAck = False, iv_AckStatus = [], iv_AckedAt = None,
     iv_SafeBoundary = [], iv_Fingerprint = ''f'', iv_ParentAssessmentID = []\<rparr>"

definition unwritten_ledger :: "ledger \<times> ledger_disk" where
  "unwritten_ledger = (\<lparr>al_seen = [], al_cursor = 0\<rparr>,
     \<lparr>dk_pathLink = False, dk_file = JMissing, dk_sideLink = False, dk_side = SMissing\<rparr>)"

definition clean_append :: append_io where
  "clean_append = \<lparr>ap_mkdir = True, ap_open = True, ap_write = WriteOk\<rparr>"

definition demo_env_d :: delivery_env where
  "demo_env_d = \<lparr>de_queueNow = 2, de_now = 3,
     de_actuator = (\<lambda>iv. (zero_result\<lparr>ir_InterventionID := iv_InterventionID iv, ir_Accepted := True,
        ir_AckStatus := AckStatusPending, ir_AckLayer := ACKLayerSessionVisible\<rparr>, None)),
     de_append = clean_append, de_appendAmbiguous = clean_append,
     de_mark = \<lparr>mk_mkdir = True, mk_write = Some WriteOk, mk_rename = True, mk_remove = True\<rparr>\<rparr>"

definition demo_ad :: "ledger \<Rightarrow> advisory_delivery" where
  "demo_ad l = \<lparr>ad_alerter = NopHumanAlerter, ad_supportsAdviceDelivery = True, ad_defaultTTL = five_minutes,
     ad_queue = snd (pq_Enqueue 1 demo_iv 0 NewPendingQueue), ad_ledger = Some l, ad_dedupeHostFamily = ''h''\<rparr>"

definition demo_item :: pending_item where
  "demo_item = \<lparr>pi_Intervention = demo_iv, pi_State = StateDelivering, pi_EnqueuedAt = 1,
     pi_ExpiresAt = 1 + five_minutes, pi_Result = None\<rparr>"

abbreviation demo_delivery :: "ledger \<Rightarrow> ledger_disk \<Rightarrow> delivered \<times> advisory_delivery \<times> ledger_disk" where
  "demo_delivery l d \<equiv> DeliverPending length_std dull_time demo_env_d ''s'' (demo_ad l) d"

abbreviation demo_open :: "ledger_disk \<Rightarrow> ledger go_result \<times> ledger_disk" where
  "demo_open \<equiv> OpenDurableAdviceLedger length_std dull_time
     \<lparr>of_write = (\<lambda>_. True), of_rename = (\<lambda>_. True), of_remove = (\<lambda>_. True)\<rparr> ''/l''"

definition demo_restart :: "(delivery_state \<times> ledger \<times> ledger \<times> ledger_disk \<times> ledger_disk) option" where
  "demo_restart =
     (case demo_delivery (fst unwritten_ledger) (snd unwritten_ledger) of
        ((Some it, _, None), ad1, d1) \<Rightarrow>
          (case (ad_ledger ad1, demo_open d1) of
             (Some l1, Inr l2, d2) \<Rightarrow> Some (pi_State it, l1, l2, d1, d2)
           | _ \<Rightarrow> None)
      | _ \<Rightarrow> None)"

lemma demo_restart_visible: "map_option fst demo_restart = Some StateSessionVisible"
  by code_simp


theorem no_redelivery_after_restart_witness:
  "led_initial unwritten_ledger \<and> map_option fst demo_restart = Some StateSessionVisible
   \<and> (case demo_restart of
        None \<Rightarrow> False
      | Some (_, _, l2, _, d2) \<Rightarrow>
          (case demo_delivery l2 d2 of ((out, res2, err), _, _) \<Rightarrow>
             map_option pi_State out = Some StateSuppressed \<and> \<not> ir_Accepted res2 \<and> err = None))"
proof -
  have init: "led_initial unwritten_ledger" by (simp add: led_initial_def unwritten_ledger_def)
  have env: "ledger_env length_std dull_time {}"
    by (simp add: ledger_env_def marker_texts_def time_readable_def dull_time_def)
  obtain l1 l2 d1 d2 where r: "demo_restart = Some (StateSessionVisible, l1, l2, d1, d2)"
    using demo_restart_visible by auto
  then obtain it res ad1 where first: "ad_ledger (demo_ad (fst unwritten_ledger)) = Some (fst unwritten_ledger)"
      "demo_delivery (fst unwritten_ledger) (snd unwritten_ledger) = ((Some it, res, None), ad1, d1)"
      "pi_State it = StateSessionVisible" "ad_ledger ad1 = Some l1" and op: "demo_open d1 = (Inr l2, d2)"
    unfolding demo_restart_def
    by (auto simp: demo_ad_def [of "fst unwritten_ledger"] split: prod.splits option.splits sum.splits)
  have sup: "isSuppressState (state_str (pi_State it))" unfolding first(3) by code_simp
  have nx: "fresh_next demo_env_d ''s'' (demo_ad l) demo_item" for l
    by (simp add: fresh_next_def demo_env_d_def demo_ad_def demo_item_def pq_Enqueue_def NewPendingQueue_def
        NextPending_def sess_ids_def five_minutes_def demo_iv_def Let_def)
  have host: "host_faithful (demo_ad l) demo_env_d (pi_Intervention demo_item)" for l
    by (simp add: host_faithful_def demo_env_d_def zero_result_def)
  have valid: "list_all ValidString [iv_InterventionID (pi_Intervention demo_item), ''s'', ad_dedupeHostFamily (demo_ad l),
      iv_Fingerprint (pi_Intervention demo_item)]" for l
  proof -
    have "list_all ValidString [''i'', ''s'', ''h'', ''f'']" by code_simp
    then show ?thesis by (simp add: demo_item_def demo_iv_def demo_ad_def)
  qed
  have w: "ap_write (de_append demo_env_d) \<in> {WriteOk, WriteFails 0}" by (simp add: demo_env_d_def clean_append_def)
  have run: "(led_step length_std dull_time {})\<^sup>*\<^sup>* (l1, d1) (l2, d2)" using led_step.reopen [OF env op] by blast
  have "(led_step length_std dull_time {})\<^sup>*\<^sup>* unwritten_ledger (fst unwritten_ledger, snd unwritten_ledger)" by simp
  note again = no_redelivery_after_restart [OF init this env w nx host valid first(1,2) sup first(4) run nx _ _ refl refl]
  have "ad_ledger (demo_ad l2) = Some l2"
    "ad_dedupeHostFamily (demo_ad l2) = ad_dedupeHostFamily (demo_ad (fst unwritten_ledger))"
    by (simp_all add: demo_ad_def)
  from conjunct2 [OF again [OF this]] show ?thesis unfolding r using init by simp
qed

end
