(* ===== verification/Supervisor.thy ===== *)
theory Supervisor
  imports PolicyEngine AdvisoryDelivery
begin

text \<open>
  \<open>pkg/supervisor/orchestrator.go\<close>: the composition root. An event goes to the detector, its signal
  to the slow path, the intervention to the delivery queue, and a per-session latch makes the
  pre-tool gate defer tools until the advice is settled. Every call runs to its end before the next
  one; clock readings and outcomes of system calls are arguments, and the store's append is its
  outcome. C37: as long as an advisory is still to be delivered to a session, the gate lets no tool
  of that session through.
\<close>

section \<open>State\<close>

record audit_entry =
  au_At :: time
  au_Session :: string
  au_Category :: string
  au_Summary :: string
  au_RefID :: string

record orchestrator =
  or_det :: repeated_failure_detector
  or_pol :: engine
  or_del :: advisory_delivery
  or_store :: bool
  or_ttl :: int
  or_basePolicy :: hook_policy
  or_pendingLatch :: "string gomap"
  or_audit :: "audit_entry list"

definition NewOrchestrator ::
  "repeated_failure_detector option \<Rightarrow> engine option \<Rightarrow> advisory_delivery option \<Rightarrow> bool \<Rightarrow> hook_policy \<Rightarrow> int
   \<Rightarrow> orchestrator go_result" where
  "NewOrchestrator det pol del store base ttl =
     (case det of
        None \<Rightarrow> Inl ''detector is required''
      | Some dt \<Rightarrow>
          (case pol of
             None \<Rightarrow> Inl ''policy is required''
           | Some e \<Rightarrow>
               (case del of
                  None \<Rightarrow> Inl ''delivery is required''
                | Some ad \<Rightarrow>
                    Inr \<lparr>or_det = dt, or_pol = e, or_del = ad, or_store = store, or_ttl = ttl, or_basePolicy = base,
                         or_pendingLatch = [], or_audit = []\<rparr>)))"

definition recordAudit :: "time \<Rightarrow> string \<Rightarrow> string \<Rightarrow> string \<Rightarrow> string \<Rightarrow> orchestrator \<Rightarrow> orchestrator" where
  "recordAudit now session category summary ref o1 =
     o1\<lparr>or_audit := or_audit o1 @ [\<lparr>au_At = now, au_Session = session, au_Category = category,
        au_Summary = summary, au_RefID = ref\<rparr>]\<rparr>"

definition clearLatch :: "string \<Rightarrow> string \<Rightarrow> orchestrator \<Rightarrow> orchestrator" where
  "clearLatch sessionID interventionID o1 =
     (case gm_get (or_pendingLatch o1) sessionID of
        None \<Rightarrow> o1
      | Some cur \<Rightarrow>
          if interventionID = [] \<or> cur = interventionID
          then o1\<lparr>or_pendingLatch := gm_del sessionID (or_pendingLatch o1)\<rparr> else o1)"

definition hookPolicyFor :: "string \<Rightarrow> orchestrator \<Rightarrow> hook_policy" where
  "hookPolicyFor sessionID o1 =
     (case gm_get (or_pendingLatch o1) sessionID of
        None \<Rightarrow> or_basePolicy o1
      | Some i \<Rightarrow> if i \<noteq> [] then (or_basePolicy o1)\<lparr>hp_PendingAdvisoryInterventionID := i\<rparr> else or_basePolicy o1)"

definition PendingInterventionID :: "string \<Rightarrow> orchestrator \<Rightarrow> string" where
  "PendingInterventionID sessionID o1 =
     (case gm_get (or_pendingLatch o1) sessionID of None \<Rightarrow> [] | Some i \<Rightarrow> i)"

section \<open>Operations\<close>

record handle_env =
  he_storeErr :: "go_error option"
  he_detNow :: time
  he_polNow :: time
  he_queueNow :: time
  he_auditNow :: time
  he_auditNow2 :: time

definition fmt_bool :: "bool \<Rightarrow> string" where
  "fmt_bool b = (if b then ''true'' else ''false'')"

definition HandleEvent ::
  "event_codec \<Rightarrow> (rat \<Rightarrow> string) \<Rightarrow> handle_env \<Rightarrow> agent_event \<Rightarrow> orchestrator
   \<Rightarrow> (tunnel_signal option \<times> intervention option \<times> go_error option) \<times> orchestrator" where
  "HandleEvent ec fmt_g env event o0 =
     (if or_store o0 \<and> he_storeErr env \<noteq> None then ((None, None, he_storeErr env), o0)
      else case rf_Observe ec event (he_detNow env) (or_det o0) of
        (None, det) \<Rightarrow> ((None, None, None), o0\<lparr>or_det := det\<rparr>)
      | (Some sig, det) \<Rightarrow>
          let s = ae_SessionID event;
              o1 = recordAudit (he_auditNow env) s ''detector'' ''repeated_failure_signal'' (ts_SignalID sig)
                     (o0\<lparr>or_det := det\<rparr>)
          in (case EvaluateSlow fmt_g (he_polNow env)
                     \<lparr>si_Signal = Some sig, si_Contract = None, si_Ledger = None, si_Uncertain = False,
                      si_AdvicePrompt = []\<rparr> (or_pol o1) of
                (slow, Some err, pol) \<Rightarrow> ((Some sig, None, Some err), o1\<lparr>or_pol := pol\<rparr>)
              | (slow, None, pol) \<Rightarrow>
                  let o2 = o1\<lparr>or_pol := pol\<rparr> in
                  (case sr_Intervention slow of
                     None \<Rightarrow>
                       ((Some sig, None, None),
                        recordAudit (he_auditNow2 env) s ''policy'' (''no_intervention:'' @ sr_Reason slow)
                          (ts_SignalID sig) o2)
                   | Some iv \<Rightarrow>
                       (case ad_Enqueue (he_queueNow env) iv (or_ttl o2) (or_del o2) of
                          (enq, del) \<Rightarrow>
                            let o3 = o2\<lparr>or_del := del\<rparr> in
                            if eq_Suppressed enq \<or> eq_Expired enq then
                              ((Some sig, Some iv, None),
                               recordAudit (he_auditNow2 env) s ''queue''
                                 (''enqueue suppressed='' @ fmt_bool (eq_Suppressed enq) @ '' expired=''
                                  @ fmt_bool (eq_Expired enq)) (iv_InterventionID iv) o3)
                            else
                              ((Some sig, Some iv, None),
                               recordAudit (he_auditNow2 env) s ''policy'' ''enqueued_zoom_out'' (iv_InterventionID iv)
                                 (o3\<lparr>or_pendingLatch := gm_put s (iv_InterventionID iv) (or_pendingLatch o3)\<rparr>))))))"

definition EvaluateFast :: "bool \<Rightarrow> hook_race \<Rightarrow> hook_request \<Rightarrow> hook_policy \<Rightarrow> hook_decision" where
  "EvaluateFast ctxDone race req pol = EvaluateHook ctxDone race req pol"

definition EvaluatePreTool :: "bool \<Rightarrow> hook_race \<Rightarrow> hook_request \<Rightarrow> orchestrator \<Rightarrow> hook_decision" where
  "EvaluatePreTool ctxDone race req o1 = EvaluateFast ctxDone race req (hookPolicyFor (hq_SessionID req) o1)"

definition settles :: "pending_item \<Rightarrow> intervention_result \<Rightarrow> go_error option \<Rightarrow> bool" where
  "settles item res err \<longleftrightarrow>
     pi_State item = StateAcked \<or> pi_State item = StateSuppressed \<or> pi_State item = StateAmbiguous
     \<or> pi_State item = StateFailed \<and> ir_DeliveryMode res = DeliveryModeHumanEscalation \<and> err = None
     \<or> pi_State item = StateUnsupported \<and> ir_AckStatus res = AckStatusUnsupported \<and> err = None"

definition DeliverAtSafeBoundary ::
  "gostd \<Rightarrow> time_codec \<Rightarrow> delivery_env \<Rightarrow> time \<Rightarrow> string \<Rightarrow> orchestrator \<Rightarrow> ledger_disk
   \<Rightarrow> delivered \<times> orchestrator \<times> ledger_disk" where
  "DeliverAtSafeBoundary std tc env now sessionID o0 d =
     (case DeliverPending std tc env sessionID (or_del o0) d of
        ((None, res, err), del, d') \<Rightarrow> ((None, res, err), o0\<lparr>or_del := del\<rparr>, d')
      | ((Some item, res, err), del, d') \<Rightarrow>
          let i = iv_InterventionID (pi_Intervention item);
              o1 = recordAudit now sessionID ''delivery''
                     (''state='' @ state_str (pi_State item) @ '' ack='' @ ir_AckStatus res) i (o0\<lparr>or_del := del\<rparr>)
          in ((Some item, res, err), if settles item res err then clearLatch sessionID i o1 else o1, d'))"

definition or_Acknowledge ::
  "time_codec \<Rightarrow> append_io \<Rightarrow> time \<Rightarrow> time \<Rightarrow> string \<Rightarrow> string \<Rightarrow> orchestrator \<Rightarrow> ledger_disk
   \<Rightarrow> go_error option \<times> orchestrator \<times> ledger_disk" where
  "or_Acknowledge tc io wall now i status o0 d =
     (let (err, del, d') =
        (if status = AckStatusAcked then
           AcknowledgeSource tc io wall
             \<lparr>ak_SchemaVersion = AcknowledgeRequestSchemaV1, ak_InterventionID = i, ak_HostFamily = [],
              ak_HostVersion = [], ak_Profile = [], ak_TargetSession = [], ak_SourceKind = ''orchestrator'',
              ak_SourceEventID = ''orchestrator:'' @ i, ak_CorrelationID = [], ak_AckLayer = ACKLayerSessionVisible,
              ak_Status = status, ak_ObservedAt = 0\<rparr> (or_del o0) d
         else ad_Acknowledge tc io wall i status (or_del o0) d);
          o1 = o0\<lparr>or_del := del\<rparr>
      in if err \<noteq> None then (err, o1, d')
         else case pq_Get i (ad_queue del) of
           None \<Rightarrow> (None, o1, d')
         | Some item \<Rightarrow>
             let s = iv_SessionID (pi_Intervention item); o2 = recordAudit now s ''ack'' status i o1 in
             (None, if status = AckStatusAcked then clearLatch s i o2 else o2, d'))"

section \<open>The latch stands for what is still to be delivered\<close>

definition st_of :: "pending_item gomap \<Rightarrow> string \<Rightarrow> delivery_state option" where
  "st_of m i = map_option pi_State (gm_get m i)"

text \<open>What a scan does to an item it does not hand out: nothing, or a pending item lapses.\<close>

definition lapse :: "delivery_state option \<Rightarrow> delivery_state option \<Rightarrow> bool" where
  "lapse a b \<longleftrightarrow> b = a \<or> a = Some StatePending \<and> b = Some StateExpired"

lemma lapse_trans: "lapse a b \<Longrightarrow> lapse b c \<Longrightarrow> lapse a c"
  by (auto simp: lapse_def)

definition handed_out :: "pending_item gomap \<Rightarrow> string list \<Rightarrow> pending_item gomap \<Rightarrow> string list \<Rightarrow> pending_item \<Rightarrow> string \<Rightarrow> bool" where
  "handed_out m ids m' ids' item i \<longleftrightarrow>
     (\<exists>pre post. ids = pre @ i # post \<and> ids' = pre @ post \<and> (\<forall>j \<in> set pre. st_of m' j \<noteq> Some StatePending))
     \<and> st_of m i = Some StatePending \<and> gm_get m' i = Some item \<and> pi_State item = StateDelivering
     \<and> (\<forall>j. j = i \<or> lapse (st_of m j) (st_of m' j))"

lemma next_scan_states:
  assumes "next_scan now m ids = (r, m', ids')" "distinct ids"
  shows "case r of None \<Rightarrow> ids' = ids \<and> (\<forall>j. lapse (st_of m j) (st_of m' j))
         | Some item \<Rightarrow> \<exists>i. handed_out m ids m' ids' item i"
  using assms
proof (induction now m ids arbitrary: r m' ids' rule: next_scan.induct)
  case (1 now m)
  then show ?case by (auto simp: lapse_def)
next
  case (2 now m i ids)
  consider (skip) m0 ids0 where "next_scan now m0 ids = (r, m', ids0)" "ids' = i # ids0"
      "st_of m0 i \<noteq> Some StatePending" "\<forall>j. lapse (st_of m j) (st_of m0 j)"
      "case r of None \<Rightarrow> ids0 = ids \<and> (\<forall>j. lapse (st_of m0 j) (st_of m' j))
         | Some item \<Rightarrow> \<exists>i. handed_out m0 ids m' ids0 item i"
    | (hit) item where "gm_get m i = Some item" "pi_State item = StatePending" "r = Some (item\<lparr>pi_State := StateDelivering\<rparr>)"
      "m' = gm_put i (item\<lparr>pi_State := StateDelivering\<rparr>) m" "ids' = ids"
  proof (cases "gm_get m i")
    case None
    obtain ids0 where n: "next_scan now m ids = (r, m', ids0)" "ids' = i # ids0"
      using "2.prems"(1) None by (auto split: prod.splits)
    show thesis by (rule skip [OF n]) (use None 2(1) [OF None n(1)] "2.prems"(2) in \<open>auto simp: st_of_def lapse_def\<close>)
  next
    case (Some item)
    show thesis
    proof (cases "pi_State item = StatePending")
      case False
      obtain ids0 where n: "next_scan now m ids = (r, m', ids0)" "ids' = i # ids0"
        using "2.prems"(1) Some False by (auto split: prod.splits)
      show thesis
        by (rule skip [OF n]) (use Some False 2(2) [OF Some False n(1)] "2.prems"(2) in \<open>auto simp: st_of_def lapse_def\<close>)
    next
      case pend: True
      show thesis
      proof (cases "now < pi_ExpiresAt item")
        case True
        then show thesis using "2.prems"(1) Some pend by (intro hit [of item]) (auto simp: Let_def)
      next
        case False
        let ?m0 = "gm_put i (item\<lparr>pi_State := StateExpired\<rparr>) m"
        obtain ids0 where n: "next_scan now ?m0 ids = (r, m', ids0)" "ids' = i # ids0"
          using "2.prems"(1) Some pend False by (auto split: prod.splits)
        have ih: "case r of None \<Rightarrow> ids0 = ids \<and> (\<forall>j. lapse (st_of ?m0 j) (st_of m' j))
            | Some item \<Rightarrow> \<exists>i. handed_out ?m0 ids m' ids0 item i"
          using 2(3) [OF Some _ _ n(1)] pend False "2.prems"(2) by simp
        show thesis by (rule skip [OF n _ _ ih]) (use Some pend in \<open>auto simp: st_of_def lapse_def\<close>)
      qed
    qed
  qed
  then show ?case
  proof cases
    case skip
    show ?thesis
    proof (cases r)
      case None
      then show ?thesis using skip lapse_trans by auto blast
    next
      case (Some item)
      with skip(5) obtain k where k: "handed_out m0 ids m' ids0 item k" by auto
      then obtain pre post where pp: "ids = pre @ k # post" "ids0 = pre @ post"
        "\<forall>j \<in> set pre. st_of m' j \<noteq> Some StatePending" unfolding handed_out_def by blast
      have "k \<noteq> i" using pp(1) "2.prems"(2) by auto
      have "st_of m' i \<noteq> Some StatePending"
        using k skip(3) \<open>k \<noteq> i\<close> unfolding handed_out_def lapse_def by metis
      then have "i # ids = (i # pre) @ k # post \<and> ids' = (i # pre) @ post
          \<and> (\<forall>j \<in> set (i # pre). st_of m' j \<noteq> Some StatePending)" using pp skip(2) by simp
      moreover have "st_of m k = Some StatePending" using k skip(4) unfolding handed_out_def lapse_def by metis
      moreover have "\<forall>j. j = k \<or> lapse (st_of m j) (st_of m' j)"
        using k skip(4) lapse_trans unfolding handed_out_def by blast
      ultimately have "handed_out m (i # ids) m' ids' item k" using k unfolding handed_out_def by blast
      then show ?thesis using Some by auto
    qed
  next
    case hit
    then have "handed_out m (i # ids) m' ids' (item\<lparr>pi_State := StateDelivering\<rparr>) i"
      unfolding handed_out_def
      by (intro conjI exI [of _ "[]"] exI [of _ ids]) (auto simp: st_of_def lapse_def)
    then show ?thesis using hit by auto
  qed
qed


definition idle :: "pending_queue \<Rightarrow> string \<Rightarrow> bool" where
  "idle q s \<longleftrightarrow> (\<forall>i \<in> set (sess_ids q s). st_of (pq_byID q) i \<noteq> Some StatePending)"

definition held :: "pending_queue \<Rightarrow> string gomap \<Rightarrow> string \<Rightarrow> bool" where
  "held q latch s \<longleftrightarrow>
     (\<exists>i pre post. gm_get latch s = Some i \<and> sess_ids q s = pre @ i # post
        \<and> (\<forall>j \<in> set post. st_of (pq_byID q) j \<noteq> Some StatePending))"

definition latch_inv :: "pending_queue \<Rightarrow> string gomap \<Rightarrow> bool" where
  "latch_inv q latch \<longleftrightarrow>
     pq_inv q
     \<and> (\<forall>i iv. iv_of (pq_byID q) i = Some iv \<and> st_of (pq_byID q) i = Some StatePending \<longrightarrow> i \<in> set (sess_ids q (iv_SessionID iv)))
     \<and> (\<forall>s. \<forall>i \<in> set (sess_ids q s). st_of (pq_byID q) i \<in> {Some StatePending, Some StateExpired})
     \<and> (\<forall>i. iv_of (pq_byID q) i \<noteq> None \<longrightarrow> i \<noteq> [])
     \<and> (\<forall>s. idle q s \<or> held q latch s)"

lemma latch_invD:
  assumes "latch_inv q latch"
  shows "pq_inv q"
    and "iv_of (pq_byID q) i = Some iv \<Longrightarrow> st_of (pq_byID q) i = Some StatePending \<Longrightarrow> i \<in> set (sess_ids q (iv_SessionID iv))"
    and "i \<in> set (sess_ids q s) \<Longrightarrow> st_of (pq_byID q) i \<in> {Some StatePending, Some StateExpired}"
    and "iv_of (pq_byID q) i \<noteq> None \<Longrightarrow> i \<noteq> []"
    and "idle q s \<or> held q latch s"
  using assms unfolding latch_inv_def by blast+

lemma idle_or_held_mono:
  assumes "idle q s \<or> held q latch s" "sess_ids q' s = sess_ids q s" "gm_get latch' s = gm_get latch s"
    and "\<forall>j \<in> set (sess_ids q s). st_of (pq_byID q') j = Some StatePending \<longrightarrow> st_of (pq_byID q) j = Some StatePending"
  shows "idle q' s \<or> held q' latch' s"
proof (cases "held q latch s")
  case True
  then obtain i pre post where "gm_get latch s = Some i" "sess_ids q s = pre @ i # post"
    "\<forall>j \<in> set post. st_of (pq_byID q) j \<noteq> Some StatePending" unfolding held_def by blast
  then have "held q' latch' s" unfolding held_def using assms(2-)
    by (intro exI [of _ i] exI [of _ pre] exI [of _ post]) auto
  then show ?thesis ..
next
  case False
  then show ?thesis using assms by (auto simp: idle_def)
qed

lemma latch_inv_lapse:
  assumes inv: "latch_inv q latch" and same: "iv_of (pq_byID q') = iv_of (pq_byID q)" "pq_bySess q' = pq_bySess q"
    and l: "\<forall>j. lapse (st_of (pq_byID q) j) (st_of (pq_byID q') j)"
  shows "latch_inv q' latch"
proof -
  have ids: "sess_ids q' s = sess_ids q s" for s using same(2) by (simp add: sess_ids_def)
  have pend: "st_of (pq_byID q) j = Some StatePending" if "st_of (pq_byID q') j = Some StatePending" for j
    using l [rule_format, of j] that by (auto simp: lapse_def)
  have "pq_inv q'" using latch_invD(1) [OF inv] by (simp add: pq_inv_def ids same(1))
  moreover have "st_of (pq_byID q') i \<in> {Some StatePending, Some StateExpired}" if "i \<in> set (sess_ids q s)" for i s
    using latch_invD(3) [OF inv that] l [rule_format, of i] by (auto simp: lapse_def)
  moreover have "idle q' s \<or> held q' latch s" for s
    by (rule idle_or_held_mono [OF latch_invD(5) [OF inv]]) (use pend in \<open>simp_all add: ids\<close>)
  ultimately show ?thesis
    using latch_invD(2,4) [OF inv] pend unfolding latch_inv_def ids same(1) by blast
qed

lemma latch_inv_update:
  assumes inv: "latch_inv q latch" and st: "st \<noteq> StatePending" and out: "\<forall>s. i \<notin> set (sess_ids q s)"
  shows "latch_inv (snd (UpdateState i st (Some r) q)) latch"
proof (cases "gm_get (pq_byID q) i")
  case None
  then show ?thesis using inv by (simp add: UpdateState_def)
next
  case (Some item)
  define q' where "q' = snd (UpdateState i st (Some r) q)"
  have q': "pq_byID q' = gm_put i (item\<lparr>pi_State := st, pi_Result := Some r\<rparr>) (pq_byID q)" "pq_bySess q' = pq_bySess q"
    by (simp_all add: q'_def UpdateState_def Some Let_def)
  have ids: "sess_ids q' s = sess_ids q s" for s by (simp add: sess_ids_def q'(2))
  have iv: "iv_of (pq_byID q') = iv_of (pq_byID q)" unfolding q'(1) by (rule iv_of_update [OF Some]) simp
  have s: "st_of (pq_byID q') j = (if j = i then Some st else st_of (pq_byID q) j)" for j by (simp add: st_of_def q'(1))
  have "pq_inv q'" using latch_invD(1) [OF inv] by (simp add: pq_inv_def ids iv)
  moreover have "idle q' s \<or> held q' latch s" for s
    by (rule idle_or_held_mono [OF latch_invD(5) [OF inv]]) (use st in \<open>auto simp: ids s\<close>)
  moreover have "st_of (pq_byID q') j \<in> {Some StatePending, Some StateExpired}" if "j \<in> set (sess_ids q s)" for j s
    using latch_invD(3) [OF inv that] out that by (auto simp: s)
  ultimately have "latch_inv q' latch"
    using latch_invD(2,4) [OF inv] st unfolding latch_inv_def ids iv s by auto
  then show ?thesis by (simp add: q'_def)
qed

lemma latch_inv_clear:
  assumes inv: "latch_inv q latch" and ok: "idle q s \<or> gm_get latch s \<noteq> Some i"
    and cur: "gm_get latch s = Some cur" "i = [] \<or> cur = i" "i \<noteq> []"
  shows "latch_inv q (gm_del s latch)"
proof -
  have "idle q s" using ok cur by auto
  then have "idle q s' \<or> held q (gm_del s latch) s'" for s'
    using latch_invD(5) [OF inv, of s'] by (auto simp: held_def)
  then show ?thesis using inv unfolding latch_inv_def by blast
qed

lemma split_unique: "distinct (a @ k # b) \<Longrightarrow> a @ k # b = c @ k # d \<Longrightarrow> a = c \<and> b = d"
  by (subst (asm) append_Cons_eq_iff) auto

lemma latch_inv_next:
  assumes inv: "latch_inv q latch" and n: "NextPending now s q = (r, q')"
  shows "latch_inv q' latch"
    and "r = Some item \<Longrightarrow> i = iv_InterventionID (pi_Intervention item) \<Longrightarrow>
      i \<noteq> [] \<and> (\<forall>s'. i \<notin> set (sess_ids q' s')) \<and> (idle q' s \<or> gm_get latch s \<noteq> Some i)"
proof -
  obtain r0 m ids where sc: "next_scan now (pq_byID q) (sess_ids q s) = (r0, m, ids)" by (metis prod_cases3)
  note pq = latch_invD(1) [OF inv]
  note states = next_scan_states [OF sc pq_invD(2) [OF pq]] and items = next_scan_spec(1) [OF sc]
  have "latch_inv q' latch \<and> (\<forall>item i. r = Some item \<and> i = iv_InterventionID (pi_Intervention item) \<longrightarrow>
      i \<noteq> [] \<and> (\<forall>s'. i \<notin> set (sess_ids q' s')) \<and> (idle q' s \<or> gm_get latch s \<noteq> Some i))"
  proof (cases r0)
    case None
    then have q': "q' = q\<lparr>pq_byID := m\<rparr>" "r = None" using n sc by (auto simp: NextPending_def)
    show ?thesis using states items None q' by (auto intro: latch_inv_lapse [OF inv])
  next
    case (Some item)
    then have q': "r = Some item" "pq_byID q' = m" "pq_bySess q' = gm_put s ids (pq_bySess q)"
      using n sc by (auto simp: NextPending_def)
    from states Some obtain k where k: "handed_out (pq_byID q) (sess_ids q s) m ids item k" by auto
    then obtain pre post where pp: "sess_ids q s = pre @ k # post" "ids = pre @ post"
      "\<forall>j \<in> set pre. st_of m j \<noteq> Some StatePending" unfolding handed_out_def by blast
    have lap: "j = k \<or> lapse (st_of (pq_byID q) j) (st_of m j)" for j using k by (simp add: handed_out_def)
    have kp: "st_of (pq_byID q) k = Some StatePending" "st_of m k = Some StateDelivering" "gm_get m k = Some item"
      using k by (auto simp: handed_out_def st_of_def)
    have ids': "sess_ids q' s' = (if s' = s then ids else sess_ids q s')" for s' by (simp add: sess_ids_def q'(3))
    have "iv_of m k = Some (pi_Intervention item)" using kp(3) by (simp add: iv_of_def)
    then have ki: "iv_InterventionID (pi_Intervention item) = k" "iv_of (pq_byID q) k = Some (pi_Intervention item)"
      "k \<noteq> []" using pq_invD(1) [OF pq] latch_invD(4) [OF inv, of k] items by simp_all
    have dist: "distinct (pre @ k # post)" using pq_invD(2) [OF pq, of s] pp(1) by simp
    have other: "k \<notin> set (sess_ids q s')" if "s' \<noteq> s" for s'
      using pq_invD(3) [OF pq, of k s'] pq_invD(3) [OF pq, of k s] pp(1) that by auto
    have out: "k \<notin> set (sess_ids q' s')" for s' using dist other pp(2) by (auto simp: ids')
    have sub: "set (sess_ids q' s') \<subseteq> set (sess_ids q s')" for s' using pp by (auto simp: ids')
    have pend: "st_of (pq_byID q) j = Some StatePending \<and> j \<noteq> k" if "st_of m j = Some StatePending" for j
      using lap [of j] that kp(2) by (cases "j = k") (auto simp: lapse_def)
    have "pq_inv q'"
      using pq sub dist pp(2) items unfolding pq_inv_def q'(2) by (fastforce simp: ids')
    moreover have "st_of m j \<in> {Some StatePending, Some StateExpired}" if "j \<in> set (sess_ids q' s')" for j s'
    proof -
      have "j \<in> set (sess_ids q s')" "j \<noteq> k" using sub that out by blast+
      then show ?thesis using latch_invD(3) [OF inv, of j s'] lap [of j] by (auto simp: lapse_def)
    qed
    moreover have "j \<in> set (sess_ids q' (iv_SessionID iv))" if "iv_of m j = Some iv" "st_of m j = Some StatePending" for j iv
      using latch_invD(2) [OF inv, of j iv] that items pend [OF that(2)] pp by (auto simp: ids')
    moreover have clear: "idle q' s \<or> gm_get latch s \<noteq> Some k \<and> held q' latch s"
    proof (cases "held q latch s")
      case True
      then obtain L a b where L: "gm_get latch s = Some L" "sess_ids q s = a @ L # b"
        "\<forall>j \<in> set b. st_of (pq_byID q) j \<noteq> Some StatePending" unfolding held_def by blast
      have "k \<notin> set b" using L(3) kp(1) by auto
      moreover have "k \<in> set (a @ L # b)" using pp(1) unfolding L(2) [symmetric] by simp
      ultimately consider "k = L" | "k \<in> set a" by auto
      then show ?thesis
      proof cases
        case 1
        then have "post = b" using split_unique [OF dist, of a b] pp(1) L(2) by simp
        then have "idle q' s" using pp L(3) pend by (auto simp: idle_def ids' q'(2))
        then show ?thesis by simp
      next
        case 2
        then obtain a1 a2 where "a = a1 @ k # a2" by (meson split_list)
        then have "ids = (a1 @ a2) @ L # b" using split_unique [OF dist, of a1 "a2 @ L # b"] pp L(2) by simp
        then have "held q' latch s" using L pend unfolding held_def
          by (intro exI [of _ L] exI [of _ "a1 @ a2"] exI [of _ b]) (auto simp: ids' q'(2))
        moreover have "L \<noteq> k" using 2 dist unfolding pp(1) [symmetric] L(2) by auto
        ultimately show ?thesis using L(1) by simp
      qed
    next
      case False
      then have "idle q s" using latch_invD(5) [OF inv, of s] by blast
      then show ?thesis using kp(1) pp(1) by (auto simp: idle_def)
    qed
    moreover have "idle q' s' \<or> held q' latch s'" if "s' \<noteq> s" for s'
      by (rule idle_or_held_mono [OF latch_invD(5) [OF inv]]) (use that pend in \<open>auto simp: ids' q'(2)\<close>)
    ultimately have "latch_inv q' latch"
      using latch_invD(4) [OF inv] items unfolding latch_inv_def q'(2) by metis
    then show ?thesis using q'(1) ki out clear by auto
  qed
  then show "latch_inv q' latch"
    and "r = Some item \<Longrightarrow> i = iv_InterventionID (pi_Intervention item) \<Longrightarrow>
      i \<noteq> [] \<and> (\<forall>s'. i \<notin> set (sess_ids q' s')) \<and> (idle q' s \<or> gm_get latch s \<noteq> Some i)"
    by blast+
qed

lemma latch_inv_enqueue:
  assumes inv: "latch_inv q latch" and e: "pq_Enqueue now iv ttl q = (r, q')" and i: "iv_InterventionID iv \<noteq> []"
  shows "latch_inv q' (if eq_Suppressed r \<or> eq_Expired r then latch
    else gm_put (iv_SessionID iv) (iv_InterventionID iv) latch)"
proof (cases "gm_get (pq_byID q) (iv_InterventionID iv)")
  case (Some item)
  then show ?thesis using e inv by (auto simp: pq_Enqueue_def)
next
  case None
  let ?i = "iv_InterventionID iv" and ?s = "iv_SessionID iv"
  define item where "item = \<lparr>pi_Intervention = iv, pi_State = StatePending, pi_EnqueuedAt = now,
    pi_ExpiresAt = now + (if ttl \<le> 0 then five_minutes else ttl), pi_Result = None\<rparr>"
  have q': "q' = q\<lparr>pq_byID := gm_put ?i item (pq_byID q), pq_bySess := gm_put ?s (sess_ids q ?s @ [?i]) (pq_bySess q)\<rparr>"
      "\<not> eq_Suppressed r" "\<not> eq_Expired r"
    using e None by (auto simp: pq_Enqueue_def item_def five_minutes_def Let_def split: if_splits)
  note pq = latch_invD(1) [OF inv]
  have new: "?i \<notin> set (sess_ids q s)" for s using pq_invD(3) [OF pq, of ?i s] None by (auto simp: iv_of_def)
  have ids: "sess_ids q' s = (if s = ?s then sess_ids q s @ [?i] else sess_ids q s)" for s
    by (simp add: q'(1) sess_ids_def)
  have ivs: "iv_of (pq_byID q') j = (if j = ?i then Some iv else iv_of (pq_byID q) j)" for j
    by (simp add: q'(1) iv_of_put item_def)
  have sts: "st_of (pq_byID q') j = (if j = ?i then Some StatePending else st_of (pq_byID q) j)" for j
    by (simp add: q'(1) st_of_def item_def)
  have "pq_inv q'" unfolding pq_inv_def ids ivs using pq_invD [OF pq] new by auto
  moreover have "j \<in> set (sess_ids q' (iv_SessionID v))"
    if "iv_of (pq_byID q') j = Some v" "st_of (pq_byID q') j = Some StatePending" for j v
    using latch_invD(2) [OF inv, of j v] that by (auto simp: ids ivs sts split: if_splits)
  moreover have "st_of (pq_byID q') j \<in> {Some StatePending, Some StateExpired}" if "j \<in> set (sess_ids q' s)" for j s
    using latch_invD(3) [OF inv, of j s] that by (auto simp: ids sts split: if_splits)
  moreover have "idle q' s \<or> held q' (gm_put ?s ?i latch) s" for s
  proof (cases "s = ?s")
    case True
    then have "sess_ids q' s = sess_ids q s @ ?i # []" by (simp add: ids)
    then show ?thesis unfolding held_def using True by (intro disjI2 exI [of _ ?i] exI [of _ "sess_ids q s"] exI [of _ "[]"]) simp
  next
    case False
    show ?thesis
      by (rule idle_or_held_mono [OF latch_invD(5) [OF inv]]) (use False new in \<open>auto simp: ids sts\<close>)
  qed
  ultimately have "latch_inv q' (gm_put ?s ?i latch)"
    using latch_invD(4) [OF inv] i unfolding latch_inv_def by (auto simp: ivs)
  then show ?thesis using q'(2,3) by simp
qed

abbreviation or_inv :: "orchestrator \<Rightarrow> bool" where
  "or_inv o1 \<equiv> latch_inv (ad_queue (or_del o1)) (or_pendingLatch o1)"

lemma recordAudit_fields [simp]:
  "or_del (recordAudit now s c m ref o1) = or_del o1" "or_pendingLatch (recordAudit now s c m ref o1) = or_pendingLatch o1"
  "or_basePolicy (recordAudit now s c m ref o1) = or_basePolicy o1" "or_pol (recordAudit now s c m ref o1) = or_pol o1"
  by (simp_all add: recordAudit_def)

lemma or_inv_clear:
  assumes "or_inv o1" "i \<noteq> []" "idle (ad_queue (or_del o1)) s \<or> gm_get (or_pendingLatch o1) s \<noteq> Some i"
  shows "or_inv (clearLatch s i o1)"
  using assms latch_inv_clear [OF assms(1), of s i]
  by (auto simp: clearLatch_def split: option.splits)

lemma Observe_session: "rf_Observe ec e now dt = (Some sig, dt') \<Longrightarrow> ts_SessionID sig = ae_SessionID e"
  by (auto simp: rf_Observe_def ObserveRaw_def Let_def split: if_splits)

lemma HandleEvent_inv:
  assumes inv: "or_inv o0"
  shows "or_inv (snd (HandleEvent ec fmt_g env event o0))"
proof (cases "or_store o0 \<and> he_storeErr env \<noteq> None")
  case True
  then show ?thesis using inv by (simp add: HandleEvent_def)
next
  case False
  obtain so dt where ob: "rf_Observe ec event (he_detNow env) (or_det o0) = (so, dt)" by fastforce
  show ?thesis
  proof (cases so)
    case None
    then show ?thesis using inv False ob by (simp add: HandleEvent_def)
  next
    case (Some sig)
    let ?inp = "\<lparr>si_Signal = Some sig, si_Contract = None, si_Ledger = None, si_Uncertain = False, si_AdvicePrompt = []\<rparr>"
    obtain slow err pol where ev: "EvaluateSlow fmt_g (he_polNow env) ?inp (or_pol o0) = (slow, err, pol)"
      by (metis prod_cases3)
    show ?thesis
    proof (cases "err = None \<and> sr_Intervention slow \<noteq> None")
      case no: False
      then show ?thesis using inv False ob Some ev
        by (auto simp: HandleEvent_def Let_def split: option.splits)
    next
      case True
      then obtain iv where iv: "sr_Intervention slow = Some iv" by auto
      have z: "zoom_for sig (or_pol o0) pol iv" using EvaluateSlow_ok [OF ev] iv by (simp add: slow_ok_def)
      then have ids: "iv_SessionID iv = ae_SessionID event" "iv_InterventionID iv \<noteq> []"
        using Observe_session ob Some by (auto simp: zoom_for_def numbered_after_def)
      obtain enq q where en: "pq_Enqueue (he_queueNow env) iv
          (if or_ttl o0 \<le> 0 then ad_defaultTTL (or_del o0) else or_ttl o0) (ad_queue (or_del o0)) = (enq, q)" by fastforce
      from latch_inv_enqueue [OF inv en ids(2)] show ?thesis
        using False ob Some ev iv en ids(1) True by (auto simp: HandleEvent_def ad_Enqueue_def recordAudit_def Let_def)
    qed
  qed
qed

lemma mapResultToState_settled: "mapResultToState res failed \<noteq> StatePending"
  by (simp add: mapResultToState_def Let_def)

text \<open>Whatever a delivery does after handing an item out, it only moves that item to a settled state.\<close>

definition moved :: "pending_item \<Rightarrow> pending_queue \<Rightarrow> pending_item option \<Rightarrow> pending_queue \<Rightarrow> bool" where
  "moved item q it q' \<longleftrightarrow>
     (\<exists>st rs. st \<noteq> StatePending \<and> q' = snd (UpdateState (iv_InterventionID (pi_Intervention item)) st (Some rs) q)
        \<and> it = Some (item\<lparr>pi_State := st, pi_Result := Some rs\<rparr>))"

lemma movedI:
  "st \<noteq> StatePending \<Longrightarrow> q' = snd (UpdateState (iv_InterventionID (pi_Intervention item)) st (Some rs) q) \<Longrightarrow>
   it = Some (item\<lparr>pi_State := st, pi_Result := Some rs\<rparr>) \<Longrightarrow> moved item q it q'"
  unfolding moved_def by blast

lemma fail_item_moved: "fail_item item rs e a d = ((it, res, err), a', d') \<Longrightarrow> moved item (ad_queue a) it (ad_queue a')"
  by (rule movedI [of StateFailed _ _ rs]) (auto simp: fail_item_def)

lemma suppress_moved:
  "suppress_duplicate tc env s host item a l d = ((it, res, err), a', d') \<Longrightarrow> moved item (ad_queue a) it (ad_queue a')"
  by (rule movedI [of StateSuppressed _ _ res]) (auto simp: suppress_duplicate_def Let_def split: prod.splits)

lemma escalate_moved: "escalate env s item a d = ((it, res, err), a', d') \<Longrightarrow> moved item (ad_queue a) it (ad_queue a')"
  by (auto simp: escalate_def Let_def dest: fail_item_moved split: human_alerter.splits option.splits)

lemma record_delivery_settled:
  assumes "record_delivery std tc env s iv rs er st l d = ((st', rs', er'), l', d')" "st \<noteq> StatePending"
  shows "st' \<noteq> StatePending"
  using assms by (auto simp: record_delivery_def Let_def split: prod.splits option.splits if_splits)

lemma send_item_moved:
  assumes "send_item std tc env s item a d = ((it, res, err), a', d')"
  shows "moved item (ad_queue a) it (ad_queue a')"
proof (cases "ad_ledger a")
  case None
  show ?thesis using assms None mapResultToState_settled
    by (intro movedI [of "mapResultToState res (err \<noteq> None)" _ _ res]) (auto simp: send_item_def Let_def split: prod.splits)
next
  case (Some l)
  obtain res0 er where act: "de_actuator env (pi_Intervention item) = (res0, er)" by fastforce
  define rs where "rs = (if ir_HostFamily res0 = [] then res0\<lparr>ir_HostFamily := ad_dedupeHostFamily a\<rparr> else res0)"
  obtain st1 rs1 er1 l1 d1 where rd: "record_delivery std tc env s (pi_Intervention item) rs er
      (mapResultToState rs (er \<noteq> None)) l d = ((st1, rs1, er1), l1, d1)" by (metis prod_cases3 prod.collapse)
  have "it = Some (item\<lparr>pi_State := st1, pi_Result := Some rs1\<rparr>)"
      "ad_queue a' = snd (UpdateState (iv_InterventionID (pi_Intervention item)) st1 (Some rs1) (ad_queue a))"
    using assms unfolding send_item_def Let_def act prod.case rs_def [symmetric] rd Some option.case by auto
  then show ?thesis using record_delivery_settled [OF rd mapResultToState_settled] by (intro movedI)
qed

lemma DeliverPending_queue:
  assumes dp: "DeliverPending std tc env s ad d = ((it, res, err), ad', d')"
    and nx: "NextPending (de_queueNow env) s (ad_queue ad) = (r, q)"
  shows "case r of None \<Rightarrow> it = None \<and> ad_queue ad' = q | Some item \<Rightarrow> moved item q it (ad_queue ad')"
proof (cases r)
  case None
  then show ?thesis using assms by (auto simp: DeliverPending_def)
next
  case (Some item)
  define a where "a = ad\<lparr>ad_queue := q\<rparr>"
  have "(\<exists>host l. suppress_duplicate tc env s host item a l d = ((it, res, err), ad', d'))
      \<or> escalate env s item a d = ((it, res, err), ad', d') \<or> send_item std tc env s item a d = ((it, res, err), ad', d')"
    using dp unfolding DeliverPending_def nx Some prod.case option.case Let_def a_def [symmetric]
    by (simp split: if_splits) blast+
  then have "moved item (ad_queue a) it (ad_queue ad')"
    by (elim disjE exE) (erule suppress_moved escalate_moved send_item_moved)+
  then show ?thesis by (simp add: Some a_def)
qed

lemma idle_update:
  "idle q s \<Longrightarrow> st \<noteq> StatePending \<Longrightarrow> idle (snd (UpdateState i st r q)) s"
  by (auto simp: idle_def UpdateState_def sess_ids_def st_of_def Let_def split: option.splits)

lemma DeliverAtSafeBoundary_inv:
  assumes inv: "or_inv o0" and del: "DeliverAtSafeBoundary std tc env now s o0 d = (out, o1, d')"
  shows "or_inv o1"
proof -
  obtain it res err ad' d1 where dp: "DeliverPending std tc env s (or_del o0) d = ((it, res, err), ad', d1)"
    by (metis prod_cases3 prod.collapse)
  obtain r q where nx: "NextPending (de_queueNow env) s (ad_queue (or_del o0)) = (r, q)" by fastforce
  note qs = DeliverPending_queue [OF dp nx] and inv_q = latch_inv_next(1) [OF inv nx]
  show ?thesis
  proof (cases r)
    case None
    then show ?thesis using qs dp del inv_q by (auto simp: DeliverAtSafeBoundary_def)
  next
    case (Some item)
    let ?i = "iv_InterventionID (pi_Intervention item)"
    note handed = latch_inv_next(2) [OF inv nx Some refl]
    from qs Some obtain st rs where u: "st \<noteq> StatePending" "ad_queue ad' = snd (UpdateState ?i st (Some rs) q)"
      "it = Some (item\<lparr>pi_State := st, pi_Result := Some rs\<rparr>)" by (auto simp: moved_def)
    have inv': "latch_inv (ad_queue ad') (or_pendingLatch o0)"
      unfolding u(2) by (rule latch_inv_update [OF inv_q u(1)]) (use handed in blast)
    have id': "idle (ad_queue ad') s \<or> gm_get (or_pendingLatch o0) s \<noteq> Some ?i"
      using handed idle_update u(1,2) by auto
    have "or_inv (clearLatch s ?i o2)" if "or_del o2 = ad'" "or_pendingLatch o2 = or_pendingLatch o0" for o2
      by (rule or_inv_clear) (use that inv' id' handed in auto)
    then show ?thesis using del dp u(3) inv' by (auto simp: DeliverAtSafeBoundary_def Let_def split: if_splits)
  qed
qed

lemma AcknowledgeSource_queue:
  assumes "AcknowledgeSource tc io wall req ad d = (err, ad', d')"
  shows "ad_queue ad' = ad_queue ad \<and> err \<noteq> None
    \<or> (\<exists>item st r. pq_Get (ak_InterventionID req) (ad_queue ad) = Some item \<and> awaitingExplicitACK (pi_State item)
         \<and> st \<noteq> StatePending \<and> ad_queue ad' = snd (UpdateState (ak_InterventionID req) st (Some r) (ad_queue ad)))"
proof (cases err)
  case (Some e)
  then show ?thesis using assms unfolding AcknowledgeSource_def Let_def
    by (auto split: option.splits sum.splits prod.splits if_splits)
next
  case None
  then obtain item now st r where "pq_Get (ak_InterventionID req) (ad_queue ad) = Some item"
      "awaitingExplicitACK (pi_State item)" "ack_outcome req now (ack_result req now item) = Inr (st, r)"
      "ad_queue ad' = snd (UpdateState (ak_InterventionID req) st (Some r) (ad_queue ad))"
    using assms unfolding AcknowledgeSource_def Let_def
    by (auto split: option.splits sum.splits prod.splits if_split_asm)
  moreover from ack_outcome_spec [OF this(3)] have "st \<noteq> StatePending" by (auto split: if_splits)
  ultimately show ?thesis by blast
qed

lemma or_inv_ack:
  assumes inv: "or_inv o0" and get: "pq_Get i (ad_queue (or_del o0)) = Some item" "awaitingExplicitACK (pi_State item)"
    and st: "st \<noteq> StatePending" and q: "ad_queue del = snd (UpdateState i st (Some r) (ad_queue (or_del o0)))"
  shows "or_inv (o0\<lparr>or_del := del\<rparr>)" "i \<noteq> []" "idle (ad_queue del) s \<or> gm_get (or_pendingLatch o0) s \<noteq> Some i"
proof -
  let ?q = "ad_queue (or_del o0)"
  have "st_of (pq_byID ?q) i = Some (pi_State item)" using get(1) by (simp add: st_of_def pq_Get_def)
  then have out: "i \<notin> set (sess_ids ?q s)" for s
    using latch_invD(3) [OF inv, of i s] get(2) by (auto simp: awaitingExplicitACK_def)
  show "i \<noteq> []" using latch_invD(4) [OF inv, of i] get(1) by (simp add: iv_of_def pq_Get_def)
  show "or_inv (o0\<lparr>or_del := del\<rparr>)" using latch_inv_update [OF inv st] out by (simp add: q)
  have "idle ?q s \<or> gm_get (or_pendingLatch o0) s \<noteq> Some i"
    using latch_invD(5) [OF inv, of s] out [of s] by (auto simp: held_def)
  then show "idle (ad_queue del) s \<or> gm_get (or_pendingLatch o0) s \<noteq> Some i" using idle_update [OF _ st] q by auto
qed

lemma or_Acknowledge_inv:
  assumes inv: "or_inv o0" and ack: "or_Acknowledge tc io wall now i status o0 d = (err, o1, d')"
  shows "or_inv o1"
proof -
  define call where "call = (if status = AckStatusAcked then
      AcknowledgeSource tc io wall
        \<lparr>ak_SchemaVersion = AcknowledgeRequestSchemaV1, ak_InterventionID = i, ak_HostFamily = [],
         ak_HostVersion = [], ak_Profile = [], ak_TargetSession = [], ak_SourceKind = ''orchestrator'',
         ak_SourceEventID = ''orchestrator:'' @ i, ak_CorrelationID = [], ak_AckLayer = ACKLayerSessionVisible,
         ak_Status = status, ak_ObservedAt = 0\<rparr> (or_del o0) d
    else ad_Acknowledge tc io wall i status (or_del o0) d)"
  obtain er del d1 where c: "call = (er, del, d1)" by (metis prod_cases3)
  have "ad_queue del = ad_queue (or_del o0) \<and> er \<noteq> None
    \<or> (\<exists>item st r. pq_Get i (ad_queue (or_del o0)) = Some item \<and> awaitingExplicitACK (pi_State item)
         \<and> st \<noteq> StatePending \<and> ad_queue del = snd (UpdateState i st (Some r) (ad_queue (or_del o0))))"
  proof (cases "status = AckStatusAcked")
    case True
    then show ?thesis using AcknowledgeSource_queue [of tc io wall _ "or_del o0" d er del d1] c
      by (fastforce simp: call_def)
  next
    case False
    then show ?thesis using AcknowledgeSource_queue [of tc io wall _ "or_del o0" d er del d1] c
      by (fastforce simp: call_def ad_Acknowledge_def)
  qed
  then consider (same) "ad_queue del = ad_queue (or_del o0)" "er \<noteq> None"
    | (moved) item st r where "pq_Get i (ad_queue (or_del o0)) = Some item" "awaitingExplicitACK (pi_State item)"
        "st \<noteq> StatePending" "ad_queue del = snd (UpdateState i st (Some r) (ad_queue (or_del o0)))"
    by blast
  then show ?thesis
  proof cases
    case same
    then show ?thesis using ack inv c unfolding or_Acknowledge_def call_def [symmetric] by (auto simp: Let_def)
  next
    case moved
    note base = or_inv_ack [OF inv moved]
    have "or_inv (clearLatch s i o2)" if "or_del o2 = del" "or_pendingLatch o2 = or_pendingLatch o0" for o2 s
      by (rule or_inv_clear) (use that base in auto)
    then show ?thesis using ack base(1) c unfolding or_Acknowledge_def call_def [symmetric]
      by (auto simp: Let_def split: if_splits option.splits)
  qed
qed

section \<open>Runs of the orchestrator\<close>

datatype sup_op =
    SupEvent handle_env agent_event
  | SupDeliver delivery_env time string
  | SupAck append_io time time string string

fun sup_exec ::
  "gostd \<Rightarrow> time_codec \<Rightarrow> event_codec \<Rightarrow> (rat \<Rightarrow> string) \<Rightarrow> sup_op \<Rightarrow> orchestrator \<times> ledger_disk
   \<Rightarrow> orchestrator \<times> ledger_disk" where
  "sup_exec std tc ec fmt_g (SupEvent env event) (o1, d) = (snd (HandleEvent ec fmt_g env event o1), d)"
| "sup_exec std tc ec fmt_g (SupDeliver env now s) (o1, d) = snd (DeliverAtSafeBoundary std tc env now s o1 d)"
| "sup_exec std tc ec fmt_g (SupAck io wall now i status) (o1, d) = snd (or_Acknowledge tc io wall now i status o1 d)"

lemma clearLatch_base [simp]: "or_basePolicy (clearLatch s i o1) = or_basePolicy o1"
  by (simp add: clearLatch_def split: option.split)

lemma sup_exec_base: "or_basePolicy (fst (sup_exec std tc ec fmt_g op (o1, d))) = or_basePolicy o1"
proof (cases op)
  case (SupEvent env event)
  then show ?thesis by (auto simp: HandleEvent_def Let_def split: prod.splits option.splits)
next
  case (SupDeliver env now s)
  then show ?thesis by (auto simp: DeliverAtSafeBoundary_def Let_def split: prod.splits option.splits)
next
  case (SupAck io wall now i status)
  then show ?thesis by (auto simp: or_Acknowledge_def Let_def split: prod.splits option.splits)
qed

lemma sup_exec_inv: "or_inv o1 \<Longrightarrow> or_inv (fst (sup_exec std tc ec fmt_g op (o1, d)))"
proof (cases op)
  case (SupEvent env event)
  then show "or_inv o1 \<Longrightarrow> ?thesis" using HandleEvent_inv by simp
next
  case (SupDeliver env now s)
  assume inv: "or_inv o1"
  obtain out o2 d2 where r: "DeliverAtSafeBoundary std tc env now s o1 d = (out, o2, d2)" by (metis prod_cases3)
  from DeliverAtSafeBoundary_inv [OF inv r] show ?thesis using SupDeliver r by simp
next
  case (SupAck io wall now i status)
  assume inv: "or_inv o1"
  obtain e o2 d2 where r: "or_Acknowledge tc io wall now i status o1 d = (e, o2, d2)" by (metis prod_cases3)
  from or_Acknowledge_inv [OF inv r] show ?thesis using SupAck r by simp
qed

lemma empty_queue_inv: "latch_inv NewPendingQueue []"
  by (simp add: latch_inv_def pq_inv_def NewPendingQueue_def iv_of_def st_of_def sess_ids_def idle_def)

lemma runs_keep:
  assumes "or_inv o0"
  shows "case fold (sup_exec std tc ec fmt_g) ops (o0, d0) of (o1, d1) \<Rightarrow> or_inv o1 \<and> or_basePolicy o1 = or_basePolicy o0"
proof -
  have "or_inv (fst (fold (sup_exec std tc ec fmt_g) ops (o0, d0)))
      \<and> or_basePolicy (fst (fold (sup_exec std tc ec fmt_g) ops (o0, d0))) = or_basePolicy o0"
    by (rule fold_invariant_weak [where I = "\<lambda>st. or_inv (fst st) \<and> or_basePolicy (fst st) = or_basePolicy o0"])
      (use assms sup_exec_inv sup_exec_base in \<open>auto simp del: sup_exec.simps\<close>)
  then show ?thesis by (cases "fold (sup_exec std tc ec fmt_g) ops (o0, d0)") simp
qed

text \<open>The advisories of a session that are still to be delivered.\<close>

definition undelivered :: "pending_queue \<Rightarrow> string \<Rightarrow> string list" where
  "undelivered q s = filter (\<lambda>i. case gm_get (pq_byID q) i of
     None \<Rightarrow> False
   | Some item \<Rightarrow> pi_State item = StatePending \<and> iv_SessionID (pi_Intervention item) = s) (gm_keys (pq_byID q))"

lemma undelivered_latched:
  assumes inv: "or_inv o1" and u: "undelivered (ad_queue (or_del o1)) s \<noteq> []"
  shows "\<exists>i item. gm_get (or_pendingLatch o1) s = Some i \<and> i \<noteq> []
    \<and> pq_Get i (ad_queue (or_del o1)) = Some item \<and> iv_SessionID (pi_Intervention item) = s"
proof -
  let ?q = "ad_queue (or_del o1)"
  from u obtain i where "i \<in> set (undelivered ?q s)" by (cases "undelivered ?q s") auto
  then obtain item where i: "gm_get (pq_byID ?q) i = Some item" "pi_State item = StatePending"
      "iv_SessionID (pi_Intervention item) = s"
    by (auto simp: undelivered_def split: option.splits)
  have "i \<in> set (sess_ids ?q s)"
    using latch_invD(2) [OF inv, of i "pi_Intervention item"] i by (simp add: iv_of_def st_of_def)
  then have "\<not> idle ?q s" using i by (auto simp: idle_def st_of_def)
  then have "held ?q (or_pendingLatch o1) s" using latch_invD(5) [OF inv, of s] by blast
  then obtain k where k: "gm_get (or_pendingLatch o1) s = Some k" "k \<in> set (sess_ids ?q s)"
    by (auto simp: held_def)
  then obtain iv where "iv_of (pq_byID ?q) k = Some iv" "iv_SessionID iv = s"
    using pq_invD(3) [OF latch_invD(1) [OF inv], of k s] by blast
  then show ?thesis using k latch_invD(4) [OF inv, of k] by (auto simp: iv_of_def pq_Get_def)
qed

lemma latched_rules:
  assumes "i \<noteq> []"
  shows "evaluateHookRules req (pol\<lparr>hp_PendingAdvisoryInterventionID := i\<rparr>) =
    (if hd_Action (evaluateHookRules req pol) = HookActionDeny then evaluateHookRules req pol
     else \<lparr>hd_Action = HookActionDefer, hd_ReasonCode = ReasonDeferPendingAdvisory, hd_InterventionID = i,
           hd_Deadline = hp_DeferDeadline pol\<rparr>)"
  using assms by (simp add: evaluateHookRules_def deny_reason_def decision_def)

text \<open>
  C37. Pending advice holds the tools. Run an orchestrator with an empty queue through any sequence
  of events, deliveries and acknowledgements, with any clock, host, ledger and reviewer behaviour.
  If an intervention is then still to be delivered to a session, a pre-tool check of that session is
  never allowed by the rules: it gets the denial of the static policy where that denies, and
  otherwise it is deferred in the name of an intervention of its own session. Only a check that ran
  into its deadline or a cancelled context gets the policy's timeout decision instead.
\<close>

theorem pending_advice_holds_tools:
  "case NewOrchestrator (Some dt) (Some e) (Some (ad\<lparr>ad_queue := NewPendingQueue\<rparr>)) store base ttl of
     Inl err \<Rightarrow> False
   | Inr o0 \<Rightarrow>
       (case fold (sup_exec std tc ec fmt_g) ops (o0, d0) of (o1, d1) \<Rightarrow>
          (let q = ad_queue (or_del o1); s = hq_SessionID req; i = PendingInterventionID s o1 in
           case undelivered q s of
             [] \<Rightarrow> True
           | _ \<Rightarrow>
               EvaluatePreTool ctxDone race req o1 =
                 (if hook_interrupted ctxDone race base then timeoutDecision base
                  else if hd_Action (evaluateHookRules req base) = HookActionDeny then evaluateHookRules req base
                  else \<lparr>hd_Action = HookActionDefer, hd_ReasonCode = ReasonDeferPendingAdvisory,
                        hd_InterventionID = i, hd_Deadline = hp_DeferDeadline base\<rparr>)
               \<and> (\<exists>item. pq_Get i q = Some item \<and> iv_SessionID (pi_Intervention item) = s)))"
proof -
  define o0 where "o0 = \<lparr>or_det = dt, or_pol = e, or_del = ad\<lparr>ad_queue := NewPendingQueue\<rparr>, or_store = store, or_ttl = ttl,
    or_basePolicy = base, or_pendingLatch = [], or_audit = []\<rparr>"
  obtain o1 d1 where run: "fold (sup_exec std tc ec fmt_g) ops (o0, d0) = (o1, d1)" by fastforce
  have "or_inv o0" using empty_queue_inv by (simp add: o0_def)
  from runs_keep [OF this, of std tc ec fmt_g ops d0] have inv: "or_inv o1" "or_basePolicy o1 = base"
    unfolding run by (simp_all add: o0_def)
  have new: "NewOrchestrator (Some dt) (Some e) (Some (ad\<lparr>ad_queue := NewPendingQueue\<rparr>)) store base ttl = Inr o0"
    by (simp add: NewOrchestrator_def o0_def)
  let ?q = "ad_queue (or_del o1)" and ?s = "hq_SessionID req"
  show ?thesis
  proof (cases "undelivered ?q ?s")
    case Nil
    then show ?thesis by (simp add: new run)
  next
    case (Cons u us)
    then obtain i item where i: "gm_get (or_pendingLatch o1) ?s = Some i" "i \<noteq> []" "pq_Get i ?q = Some item"
        "iv_SessionID (pi_Intervention item) = ?s"
      using undelivered_latched [OF inv(1), of ?s] by auto
    have "hookPolicyFor ?s o1 = base\<lparr>hp_PendingAdvisoryInterventionID := i\<rparr>" "PendingInterventionID ?s o1 = i"
      using i inv(2) by (simp_all add: hookPolicyFor_def PendingInterventionID_def)
    then show ?thesis using i latched_rules [OF i(2)] Cons
      by (simp add: new run EvaluatePreTool_def EvaluateFast_def EvaluateHook_cases hook_interrupted_def timeoutDecision_def)
  qed
qed

section \<open>A latch that nothing clears\<close>

text \<open>
  The latch is cleared on ACKED, SUPPRESSED, AMBIGUOUS, and on two unsupported outcomes, and by an
  acknowledgement. A host that rejects the advice leaves the item in REJECTED, which is none of
  them, and every later acknowledgement of it is refused: the tools of the session stay deferred.
\<close>

definition rejecting_host :: delivery_env where
  "rejecting_host = demo_env_d\<lparr>de_actuator := (\<lambda>iv. (zero_result\<lparr>ir_InterventionID := iv_InterventionID iv,
     ir_AckStatus := AckStatusRejected\<rparr>, None))\<rparr>"

definition demo_orchestrator :: orchestrator where
  "demo_orchestrator =
     \<lparr>or_det = NewRepeatedFailureDetector 1, or_pol = NewEngine None [],
      or_del = \<lparr>ad_alerter = NopHumanAlerter, ad_supportsAdviceDelivery = True, ad_defaultTTL = five_minutes,
        ad_queue = NewPendingQueue, ad_ledger = None, ad_dedupeHostFamily = ''h''\<rparr>,
      or_store = False, or_ttl = 0,
      or_basePolicy = \<lparr>hp_Timeout = 0, hp_FailOpen = False, hp_DeniedTools = [], hp_ToolDenyReasons = [],
        hp_ScopeWhitelist = [], hp_BudgetExhausted = False, hp_HardDenyInterventionID = [],
        hp_PendingAdvisoryInterventionID = [], hp_DeferDeadline = None, hp_Wait = False\<rparr>,
      or_pendingLatch = [], or_audit = []\<rparr>"

definition demo_rejected :: "orchestrator \<times> ledger_disk" where
  "demo_rejected = fold (sup_exec length_std dull_time
       \<lparr>ec_TestResult = (\<lambda>_. None), ec_ToolCall = (\<lambda>_. None), ec_Object = (\<lambda>_. None)\<rparr> (\<lambda>_. []))
     [SupEvent \<lparr>he_storeErr = None, he_detNow = 1, he_polNow = 1, he_queueNow = 1, he_auditNow = 1, he_auditNow2 = 1\<rparr>
        \<lparr>ae_EventID = ''e'', ae_SessionID = ''s'', ae_SequenceNum = 1, ae_EventType = ''error'', ae_Timestamp = 1,
         ae_Payload = ''boom''\<rparr>,
      SupDeliver rejecting_host 2 ''s''] (demo_orchestrator, snd unwritten_ledger)"

lemma rejected_advice_latches_forever:
  "case demo_rejected of (o1, d) \<Rightarrow>
     (let i = PendingInterventionID ''s'' o1 in
      i \<noteq> [] \<and> undelivered (ad_queue (or_del o1)) ''s'' = []
      \<and> list_all (\<lambda>status. fst (or_Acknowledge dull_time clean_append 3 3 i status o1 d) \<noteq> None)
          [AckStatusAcked, AckStatusRejected, AckStatusTimedOut])"
  by code_simp

end
