(* ===== verification/ClassifierInput.thy ===== *)
theory ClassifierInput
  imports GoJSON ProposedAction "HOL-Library.Word" "HOL-Library.Product_Lexorder" "HOL-Library.Sublist"
begin

text \<open>
  The request side of the Stage 1 classifier (\<open>pkg/classifier\<close>): the records of \<open>provider.go\<close>, the
  trajectory packet of \<open>input_trajectory.go\<close>, input validation (\<open>validate_input.go\<close>), prompt plans
  (\<open>prompt_plan.go\<close>), bounds (\<open>contract.go\<close>) and the construction of a request. Sequence numbers are
  64-bit words, which the code only compares; byte counts are unbounded integers. \<open>json.Marshal\<close>
  and SHA-256 are the parameter \<open>gostd\<close>; \<open>json.Valid\<close> is the parser of \<open>GoJSON\<close>. Marshalling maps of
  strings, numbers and booleans cannot fail, so the error results of the encoders have no branch
  here. C38: what the builder accepts is bounded, is a prefix of the ordered evidence, says whether
  it was cut, and passes the validation of the transport.
\<close>

section \<open>Data\<close>

abbreviation SchemaClassifierInput :: string where "SchemaClassifierInput \<equiv> ''reinframe.classifier_input.v1''"
abbreviation SchemaProviderRequest :: string where "SchemaProviderRequest \<equiv> ''reinframe.classifier_provider_request.v1''"
abbreviation SchemaPromptPlan :: string where "SchemaPromptPlan \<equiv> ''reinframe.classifier_prompt_plan.v1''"
abbreviation PolicyClassProductivity :: string where "PolicyClassProductivity \<equiv> ''PRODUCTIVITY''"
abbreviation PolicyClassSecurity :: string where "PolicyClassSecurity \<equiv> ''SECURITY''"

definition MaxRecentEvents :: int where "MaxRecentEvents = 40"
definition MaxRelatedEvents :: int where "MaxRelatedEvents = 32"
definition MaxTrajectoryBytes :: int where "MaxTrajectoryBytes = 48 * 1024"
definition MaxEvidenceIDs :: nat where "MaxEvidenceIDs = 32"

abbreviation OverflowNone :: string where "OverflowNone \<equiv> []"
abbreviation OverflowEvents :: string where "OverflowEvents \<equiv> ''events''"
abbreviation OverflowBytes :: string where "OverflowBytes \<equiv> ''bytes''"
abbreviation OverflowEventsAndBytes :: string where "OverflowEventsAndBytes \<equiv> ''events_and_bytes''"

definition ValidEventTypes :: "string list" where
  "ValidEventTypes = [''tool_call'', ''tool_result'', ''user_message'', ''assistant'', ''observation'', ''error'',
     ''system'', ''unknown'']"

definition ValidRawReasonCodes :: "string list" where
  "ValidRawReasonCodes = [''NORMAL_PROGRESS'', ''SCOPE_DRIFT'', ''VERIFICATION_CHURN'', ''REPEATED_FAILURE'',
     ''HYPOTHESIS_LOOP'', ''TOOL_BUDGET'', ''EVIDENCE_GAP'', ''OVER_SOP'', ''UNKNOWN'']"

record task_anchor =
  tn_TaskID :: string
  tn_Objective :: string
  tn_Acceptance :: "string list"

record event_digest =
  eg_EventID :: string
  eg_Sequence :: "64 word"
  eg_EventType :: string
  eg_Summary :: string
  eg_ContentHash :: string
  eg_RelatedTo :: string

record window_meta =
  wm_EventCount :: int
  wm_ByteCount :: int
  wm_Truncated :: bool
  wm_OverflowMarker :: string

record challenge_context =
  cx_ChallengeID :: string
  cx_State :: string
  cx_BlockClass :: string
  cx_ReasonCode :: string
  cx_Appealability :: string
  cx_RequiredClaims :: "string list"
  cx_RetryBudget :: int
  cx_ExpiresAtSequence :: int
  cx_OriginalActionID :: string
  cx_ActionFingerprint :: string
  cx_ConcreteValue :: string
  cx_PreventedFailureOrThreat :: string
  cx_EstimatedCost :: string
  cx_AlternativesConsidered :: string
  cx_ScopeLimit :: string
  cx_VerificationPlan :: string
  cx_RollbackPlan :: string
  cx_Claims :: "string list"
  cx_EvidenceEventIDs :: "string list"

record classifier_input =
  ci_SchemaVersion :: string
  ci_SessionID :: string
  ci_FixtureName :: string
  ci_PolicyClass :: string
  ci_RulesetID :: string
  ci_RulesetHash :: string
  ci_TaskAnchor :: task_anchor
  ci_ContractRevision :: int
  ci_EvidenceRevision :: int
  ci_RecentEvents :: "event_digest list"
  ci_RelatedEvents :: "event_digest list"
  ci_Window :: window_meta
  ci_RecentEventIDs :: "string list"
  ci_RelatedEventIDs :: "string list"
  ci_AllowLegacyFixtureIDs :: bool
  ci_ProposedAction :: "proposed_action option"
  ci_Challenge :: "challenge_context option"
  ci_UserException :: bool
  ci_RepoPolicyException :: bool
  ci_FlakyInvestigation :: bool

record prompt_block =
  pb_Role :: string
  pb_Type :: string
  pb_Text :: string

record prompt_plan =
  pp_SchemaVersion :: string
  pp_StablePrefix :: "prompt_block list"
  pp_DynamicSuffix :: "prompt_block list"
  pp_StablePrefixHash :: string
  pp_PromptHash :: string
  pp_RulesetHash :: string
  pp_InputHash :: string

record prompt_plan_material =
  pm_PromptSchemaVersion :: string
  pm_PolicyText :: string
  pm_OutputSchemaText :: string
  pm_DecisionRulesText :: string
  pm_StableExamples :: "prompt_block list"
  pm_RulesetHash :: string

record provider_request =
  pq_SchemaVersion :: string
  pq_Input :: classifier_input
  pq_Prompt :: prompt_plan
  pq_Timeout :: int
  pq_MaxInputBytes :: int
  pq_MaxOutputBytes :: int

record provider_request_options =
  po_AllowLegacyFixtureIDs :: bool
  po_Production :: bool

section \<open>Trajectory packets\<close>

definition ValidateTaskAnchor :: "task_anchor \<Rightarrow> go_error option" where
  "ValidateTaskAnchor t =
     (if length (tn_TaskID t) > 128 then Some ''classifier: task_id too long''
      else if length (tn_Objective t) > 1024 then Some ''classifier: objective too long''
      else if length (tn_Acceptance t) > 16 then Some ''classifier: too many acceptance items''
      else if list_ex (\<lambda>a. length a > 256) (tn_Acceptance t) then Some ''classifier: acceptance item too long''
      else None)"

definition digest_fault :: "bool \<Rightarrow> string list \<Rightarrow> 64 word option \<Rightarrow> event_digest \<Rightarrow> go_error option" where
  "digest_fault production seen prev e =
     (let ty = eg_EventType e in
      if eg_EventID e = [] \<or> length (eg_EventID e) > 128 then Some ''classifier: invalid event_id''
      else if eg_EventID e \<in> set seen then Some ''classifier: duplicate event_id''
      else if length ty > 64 then Some ''classifier: event_type too long''
      else if production \<and> ty = [] then Some ''classifier: event_type required''
      else if production \<and> ty \<notin> set ValidEventTypes then Some ''classifier: unknown event_type''
      else if production \<and> eg_Summary e = [] \<and> eg_ContentHash e = []
        then Some ''classifier: event summary or content_hash required''
      else if \<not> production \<and> ty \<noteq> [] \<and> ty \<notin> set ValidEventTypes then Some ''classifier: unknown event_type''
      else if length (eg_Summary e) > 512 then Some ''classifier: event summary too long''
      else if length (eg_ContentHash e) > 128 then Some ''classifier: content_hash too long''
      else if (case prev of None \<Rightarrow> False | Some p \<Rightarrow> eg_Sequence e < p)
        then Some ''classifier: event sequence not deterministic ascending''
      else None)"

fun digests_fault :: "bool \<Rightarrow> string list \<Rightarrow> 64 word option \<Rightarrow> event_digest list \<Rightarrow> go_error option" where
  "digests_fault production seen prev [] = None"
| "digests_fault production seen prev (e # es) =
     (case digest_fault production seen prev e of
        Some err \<Rightarrow> Some err
      | None \<Rightarrow> digests_fault production (eg_EventID e # seen) (Some (eg_Sequence e)) es)"

definition ValidateEventDigestsOpts :: "event_digest list \<Rightarrow> int \<Rightarrow> bool \<Rightarrow> go_error option" where
  "ValidateEventDigestsOpts events maxN0 production =
     (let maxN = (if maxN0 \<le> 0 then MaxRecentEvents else maxN0) in
      if int (length events) > maxN then Some ''classifier: too many events''
      else digests_fault production [] None events)"

definition ValidateWindowMeta :: "window_meta \<Rightarrow> go_error option" where
  "ValidateWindowMeta w =
     (if wm_EventCount w < 0 \<or> wm_ByteCount w < 0 then Some ''classifier: invalid window counts''
      else if wm_OverflowMarker w \<notin> {OverflowNone, OverflowEvents, OverflowBytes, OverflowEventsAndBytes}
        then Some ''classifier: unknown overflow_marker''
      else if wm_Truncated w \<and> wm_OverflowMarker w = OverflowNone
        then Some ''classifier: truncated window requires overflow_marker''
      else if \<not> wm_Truncated w \<and> wm_OverflowMarker w \<noteq> OverflowNone
        then Some ''classifier: overflow_marker without truncated''
      else None)"

definition SortEventDigests :: "event_digest list \<Rightarrow> event_digest list" where
  "SortEventDigests events = sort_key (\<lambda>e. (eg_Sequence e, eg_EventID e)) events"

definition digest_size :: "event_digest \<Rightarrow> int" where
  "digest_size e = int (length (eg_EventID e) + length (eg_EventType e) + length (eg_Summary e)
     + length (eg_ContentHash e) + length (eg_RelatedTo e) + 16)"

definition DigestByteCount :: "event_digest list \<Rightarrow> int" where
  "DigestByteCount events = sum_list (map digest_size events)"

text \<open>The closure \<open>take\<close>: events taken, byte count, and the two overflow flags it sets.\<close>

fun take_events :: "int \<Rightarrow> int \<Rightarrow> int \<Rightarrow> int \<Rightarrow> event_digest list \<Rightarrow> event_digest list \<times> int \<times> bool \<times> bool" where
  "take_events maxB limit n bytes [] = ([], bytes, False, False)"
| "take_events maxB limit n bytes (e # es) =
     (if n \<ge> limit then ([], bytes, True, False)
      else if bytes + digest_size e > maxB then ([], bytes, False, True)
      else case take_events maxB limit (n + 1) (bytes + digest_size e) es of
        (out, b, eo, bo) \<Rightarrow> (e # out, b, eo, bo))"

definition related_limit :: "int \<Rightarrow> nat \<Rightarrow> int" where
  "related_limit maxN taken =
     (let remain0 = maxN - int taken; remain = (if remain0 < 0 then 0 else remain0)
      in if remain > MaxRelatedEvents then MaxRelatedEvents else remain)"

definition BoundTrajectory ::
  "event_digest list \<Rightarrow> event_digest list \<Rightarrow> int \<Rightarrow> int
   \<Rightarrow> event_digest list \<times> event_digest list \<times> window_meta" where
  "BoundTrajectory recent0 related0 maxN0 maxB0 =
     (let maxN = (if maxN0 \<le> 0 then MaxRecentEvents else maxN0);
          maxB = (if maxB0 \<le> 0 then MaxTrajectoryBytes else maxB0);
          recent = SortEventDigests recent0; related = SortEventDigests related0;
          (outRecent, b1, e1, y1) = take_events maxB maxN 0 0 recent;
          (outRelated, b2, e2, y2) = take_events maxB (related_limit maxN (length outRecent)) 0 b1 related;
          bytesOverflow = (y1 \<or> y2);
          sourceOverflow = (length recent > length outRecent \<or> length related > length outRelated);
          eventsOverflow = (e1 \<or> e2 \<or> sourceOverflow \<and> \<not> bytesOverflow)
      in (outRecent, outRelated,
          \<lparr>wm_EventCount = int (length outRecent + length outRelated), wm_ByteCount = b2,
           wm_Truncated = (eventsOverflow \<or> bytesOverflow \<or> sourceOverflow),
           wm_OverflowMarker =
             (if eventsOverflow \<and> bytesOverflow then OverflowEventsAndBytes
              else if eventsOverflow then OverflowEvents
              else if bytesOverflow then OverflowBytes
              else if sourceOverflow then OverflowEvents else OverflowNone)\<rparr>))"

definition mergeOverflowMarkers :: "string \<Rightarrow> string \<Rightarrow> string" where
  "mergeOverflowMarkers a b =
     (if a = OverflowNone then b
      else if b = OverflowNone then a
      else if a = b then a
      else
        let hasE = (a = OverflowEvents \<or> a = OverflowEventsAndBytes \<or> b = OverflowEvents \<or> b = OverflowEventsAndBytes);
            hasB = (a = OverflowBytes \<or> a = OverflowEventsAndBytes \<or> b = OverflowBytes \<or> b = OverflowEventsAndBytes)
        in if hasE \<and> hasB then OverflowEventsAndBytes
           else if hasE then OverflowEvents else if hasB then OverflowBytes else a)"

definition MergeWindowMeta ::
  "window_meta \<Rightarrow> window_meta \<Rightarrow> event_digest list \<Rightarrow> event_digest list \<Rightarrow> window_meta" where
  "MergeWindowMeta upstream local recent related =
     (let exact = (wm_EventCount local > 0 \<or> wm_ByteCount local > 0 \<or> wm_Truncated local);
          trunc = (wm_Truncated upstream \<or> wm_Truncated local);
          m0 = mergeOverflowMarkers (wm_OverflowMarker upstream) (wm_OverflowMarker local);
          m1 = (if trunc \<and> m0 = OverflowNone
                then (if wm_OverflowMarker local \<noteq> OverflowNone then wm_OverflowMarker local
                      else if wm_OverflowMarker upstream \<noteq> OverflowNone then wm_OverflowMarker upstream
                      else OverflowEvents)
                else m0)
      in \<lparr>wm_EventCount = (if exact then wm_EventCount local else int (length recent + length related)),
          wm_ByteCount = (if exact then wm_ByteCount local else DigestByteCount recent + DigestByteCount related),
          wm_Truncated = trunc, wm_OverflowMarker = (if \<not> trunc then OverflowNone else m1)\<rparr>)"

fun legacy_ids_fault :: "string list \<Rightarrow> string list \<Rightarrow> string list go_result" where
  "legacy_ids_fault seen [] = Inr seen"
| "legacy_ids_fault seen (i # ids) =
     (if i = [] \<or> length i > 128 then Inl ''classifier: invalid legacy event id''
      else if i \<in> set seen then Inl ''classifier: duplicate legacy event id''
      else legacy_ids_fault (i # seen) ids)"

definition ValidateLegacyFixtureIDs :: "string list \<Rightarrow> string list \<Rightarrow> go_error option" where
  "ValidateLegacyFixtureIDs recent related =
     (if int (length recent) > MaxRecentEvents \<or> int (length related) > MaxRecentEvents
      then Some ''classifier: too many legacy event ids''
      else case legacy_ids_fault [] recent of
        Inl e \<Rightarrow> Some e
      | Inr seen \<Rightarrow> (case legacy_ids_fault seen related of Inl e \<Rightarrow> Some e | Inr _ \<Rightarrow> None))"

definition ValidateWindowMetaExact :: "window_meta \<Rightarrow> event_digest list \<Rightarrow> event_digest list \<Rightarrow> go_error option" where
  "ValidateWindowMetaExact w recent related =
     (case ValidateWindowMeta w of
        Some e \<Rightarrow> Some e
      | None \<Rightarrow>
          if wm_EventCount w \<noteq> int (length recent + length related) then Some ''classifier: window event_count mismatch''
          else if wm_ByteCount w \<noteq> DigestByteCount recent + DigestByteCount related
            then Some ''classifier: window byte_count mismatch''
          else None)"

section \<open>Input validation\<close>

fun dup_free :: "string list \<Rightarrow> string list \<Rightarrow> string list option" where
  "dup_free seen [] = Some seen"
| "dup_free seen (x # xs) =
     (if x = [] then dup_free seen xs else if x \<in> set seen then None else dup_free (x # seen) xs)"

definition noDupAcross :: "event_digest list \<Rightarrow> event_digest list \<Rightarrow> go_error option" where
  "noDupAcross a b =
     (case dup_free [] (map eg_EventID a) of
        None \<Rightarrow> Some ''classifier: duplicate event_id across lists''
      | Some seen \<Rightarrow>
          (case dup_free seen (map eg_EventID b) of
             None \<Rightarrow> Some ''classifier: duplicate event_id across lists'' | Some _ \<Rightarrow> None))"

definition noDupStrings :: "string list \<Rightarrow> go_error option" where
  "noDupStrings xs = (case dup_free [] xs of None \<Rightarrow> Some ''classifier: duplicate list entry'' | Some _ \<Rightarrow> None)"

definition ValidateProposedActionForModel :: "proposed_action \<Rightarrow> go_error option" where
  "ValidateProposedActionForModel pa =
     (if pa_SchemaVersion pa \<notin> {[], ''reinframe.proposed_action.v1'', ProposedActionSchemaVersion}
        then Some ''classifier: unsupported proposed_action schema''
      else if pa_Truncated pa then Some ''classifier: truncated proposed_action rejected for model call''
      else if pa_ParseStatus pa \<in> {''fail_closed'', ''unknown_shape''}
        then Some ''classifier: proposed_action parse_status not model-safe''
      else if pa_RedactedPayload pa \<noteq> [] \<and> json_parse (pa_RedactedPayload pa) = None
        then Some ''classifier: malformed redacted_payload''
      else if length (pa_Arguments pa) > 64 then Some ''classifier: too many arguments''
      else if length (pa_TargetScope pa) > 64 then Some ''classifier: too many target_scope entries''
      else None)"

definition ValidateProposedActionProduction :: "proposed_action \<Rightarrow> go_error option" where
  "ValidateProposedActionProduction pa =
     (if pa_SchemaVersion pa \<notin> {''reinframe.proposed_action.v1'', ProposedActionSchemaVersion}
        then Some ''classifier: proposed_action schema required''
      else if pa_Truncated pa then Some ''classifier: truncated proposed_action rejected''
      else if pa_ParseStatus pa \<noteq> ''ok'' then Some ''classifier: proposed_action parse_status must be ok''
      else ValidateProposedActionForModel pa)"

definition validChallengeStates :: "string list" where
  "validChallengeStates = [[], ''OPEN'', ''JUSTIFIED'', ''RETRY_PENDING'', ''ALLOWED_ONCE'', ''REJECTED'',
     ''HUMAN_REVIEW'', ''ABANDONED'', ''EXPIRED'']"

definition validAppealability :: "string list" where
  "validAppealability = [[], ''APPEALABLE'', ''NON_APPEALABLE'', ''HUMAN_REVIEW'']"

definition or_else :: "go_error option \<Rightarrow> go_error option \<Rightarrow> go_error option" where
  "or_else a b = (case a of Some e \<Rightarrow> Some e | None \<Rightarrow> b)"

definition ValidateChallengeContext :: "challenge_context \<Rightarrow> go_error option" where
  "ValidateChallengeContext c =
     (if cx_State c \<notin> set validChallengeStates then Some ''classifier: unknown challenge state''
      else if cx_Appealability c \<notin> set validAppealability then Some ''classifier: unknown appealability''
      else if cx_RetryBudget c < 0 \<or> cx_RetryBudget c > 8 then Some ''classifier: invalid retry_budget''
      else if cx_ExpiresAtSequence c < 0 then Some ''classifier: invalid expires_at_sequence''
      else if list_ex (\<lambda>s. length s > 2048)
          [cx_ChallengeID c, cx_BlockClass c, cx_ReasonCode c, cx_ConcreteValue c, cx_PreventedFailureOrThreat c,
           cx_EstimatedCost c, cx_AlternativesConsidered c, cx_ScopeLimit c, cx_VerificationPlan c, cx_RollbackPlan c,
           cx_OriginalActionID c, cx_ActionFingerprint c]
        then Some ''classifier: challenge field too long''
      else if length (cx_Claims c) > 16 \<or> length (cx_RequiredClaims c) > 16
          \<or> length (cx_EvidenceEventIDs c) > MaxEvidenceIDs
        then Some ''classifier: challenge list too long''
      else or_else (noDupStrings (cx_Claims c))
             (or_else (noDupStrings (cx_RequiredClaims c)) (noDupStrings (cx_EvidenceEventIDs c))))"

definition ValidateClassifierInputOpts :: "classifier_input \<Rightarrow> provider_request_options \<Rightarrow> go_error option" where
  "ValidateClassifierInputOpts inp opts =
     (let prod = po_Production opts; digests = (ci_RecentEvents inp \<noteq> [] \<or> ci_RelatedEvents inp \<noteq> []) in
      if ci_SchemaVersion inp \<noteq> SchemaClassifierInput then Some ''classifier: classifier_input schema required''
      else if prod \<and> ci_PolicyClass inp \<notin> {PolicyClassProductivity, PolicyClassSecurity}
        then Some ''classifier: production policy_class required''
      else if \<not> prod \<and> ci_PolicyClass inp \<notin> {[], PolicyClassProductivity, PolicyClassSecurity}
        then Some ''classifier: unknown policy_class''
      else if ci_ContractRevision inp < 0 \<or> ci_EvidenceRevision inp < 0 then Some ''classifier: negative revision''
      else or_else (ValidateTaskAnchor (ci_TaskAnchor inp))
       (if prod \<and> digests \<and> (tn_TaskID (ci_TaskAnchor inp) = [] \<or> tn_Objective (ci_TaskAnchor inp) = [])
        then Some ''classifier: production task_anchor required with trajectory''
        else or_else (ValidateEventDigestsOpts (ci_RecentEvents inp) MaxRecentEvents prod)
         (or_else (ValidateEventDigestsOpts (ci_RelatedEvents inp) MaxRelatedEvents prod)
          (or_else (noDupAcross (ci_RecentEvents inp) (ci_RelatedEvents inp))
           (or_else (if digests then ValidateWindowMetaExact (ci_Window inp) (ci_RecentEvents inp) (ci_RelatedEvents inp)
                     else ValidateWindowMeta (ci_Window inp))
            (or_else (case ci_ProposedAction inp of
                        None \<Rightarrow> None
                      | Some pa \<Rightarrow> if prod \<and> pa_SchemaVersion pa \<noteq> [] then ValidateProposedActionProduction pa
                                   else ValidateProposedActionForModel pa)
             (case ci_Challenge inp of None \<Rightarrow> None | Some c \<Rightarrow> ValidateChallengeContext c)))))))"

definition ValidateClassifierInput :: "classifier_input \<Rightarrow> go_error option" where
  "ValidateClassifierInput inp = ValidateClassifierInputOpts inp
     \<lparr>po_AllowLegacyFixtureIDs = ci_AllowLegacyFixtureIDs inp, po_Production = False\<rparr>"

section \<open>Prompt plans\<close>

definition jstrings :: "string list \<Rightarrow> json" where
  "jstrings xs = (if xs = [] then JNull else JArr (map JStr xs))"

definition jint :: "int \<Rightarrow> json" where "jint i = JNum (itoa i)"

definition hashCanon :: "gostd \<Rightarrow> json \<Rightarrow> string" where
  "hashCanon std v = sha256_hex std (json_encode std v)"

definition block_json :: "prompt_block \<Rightarrow> json" where
  "block_json b = JObj [(''role'', JStr (pb_Role b)), (''type'', JStr (pb_Type b)), (''text'', JStr (pb_Text b))]"

definition hashBlocks :: "gostd \<Rightarrow> prompt_block list \<Rightarrow> string" where
  "hashBlocks std bs = hashCanon std (if bs = [] then JNull else JArr (map block_json bs))"

definition encodeProposedAction :: "gostd \<Rightarrow> proposed_action \<Rightarrow> string" where
  "encodeProposedAction std pa = json_encode std (JObj
     [(''schema_version'', JStr (pa_SchemaVersion pa)), (''session_id'', JStr (pa_SessionID pa)),
      (''action_id'', JStr (pa_ActionID pa)), (''tool_name'', JStr (pa_ToolName pa)),
      (''tool_class'', JStr (pa_ToolClass pa)), (''command'', JStr (pa_Command pa)),
      (''arguments'', jstrings (pa_Arguments pa)), (''file_path'', JStr (pa_FilePath pa)),
      (''target_scope'', jstrings (pa_TargetScope pa)), (''workspace_revision'', JStr (pa_WorkspaceRevision pa)),
      (''contract_revision'', jint (pa_ContractRevision pa)), (''redacted_payload'', JStr (pa_RedactedPayload pa)),
      (''source'', JStr (pa_Source pa)), (''truncated'', JBool (pa_Truncated pa)),
      (''parse_status'', JStr (pa_ParseStatus pa))])"

definition encodeChallengeContext :: "gostd \<Rightarrow> challenge_context \<Rightarrow> string" where
  "encodeChallengeContext std c = json_encode std (JObj
     [(''challenge_id'', JStr (cx_ChallengeID c)), (''state'', JStr (cx_State c)),
      (''block_class'', JStr (cx_BlockClass c)), (''reason_code'', JStr (cx_ReasonCode c)),
      (''appealability'', JStr (cx_Appealability c)), (''required_claims'', jstrings (cx_RequiredClaims c)),
      (''retry_budget'', jint (cx_RetryBudget c)), (''expires_at_sequence'', jint (cx_ExpiresAtSequence c)),
      (''original_action_id'', JStr (cx_OriginalActionID c)), (''action_fingerprint'', JStr (cx_ActionFingerprint c)),
      (''concrete_value'', JStr (cx_ConcreteValue c)),
      (''prevented_failure_or_threat'', JStr (cx_PreventedFailureOrThreat c)),
      (''estimated_cost'', JStr (cx_EstimatedCost c)), (''alternatives_considered'', JStr (cx_AlternativesConsidered c)),
      (''scope_limit'', JStr (cx_ScopeLimit c)), (''verification_plan'', JStr (cx_VerificationPlan c)),
      (''rollback_plan'', JStr (cx_RollbackPlan c)), (''claims'', jstrings (cx_Claims c)),
      (''evidence_event_ids'', jstrings (cx_EvidenceEventIDs c))])"

definition encodeEventDigests :: "event_digest list \<Rightarrow> json" where
  "encodeEventDigests events = JArr (map (\<lambda>e. JObj
     [(''event_id'', JStr (eg_EventID e)), (''sequence'', JNum (dec (unat (eg_Sequence e)))),
      (''event_type'', JStr (eg_EventType e)), (''summary'', JStr (eg_Summary e)),
      (''content_hash'', JStr (eg_ContentHash e)), (''related_to'', JStr (eg_RelatedTo e))]) events)"

definition user_block :: "string \<Rightarrow> string \<Rightarrow> prompt_block" where
  "user_block ty text = \<lparr>pb_Role = ''user'', pb_Type = ty, pb_Text = text\<rparr>"

definition system_block :: "string \<Rightarrow> string \<Rightarrow> prompt_block" where
  "system_block ty text = \<lparr>pb_Role = ''system'', pb_Type = ty, pb_Text = text\<rparr>"

definition task_text :: "gostd \<Rightarrow> classifier_input \<Rightarrow> string" where
  "task_text std inp = json_encode std (JObj
     [(''session_id'', JStr (ci_SessionID inp)), (''policy_class'', JStr (ci_PolicyClass inp)),
      (''ruleset_id'', JStr (ci_RulesetID inp)), (''ruleset_hash'', JStr (ci_RulesetHash inp)),
      (''fixture'', JStr (ci_FixtureName inp)), (''contract_revision'', jint (ci_ContractRevision inp)),
      (''evidence_revision'', jint (ci_EvidenceRevision inp)), (''task_id'', JStr (tn_TaskID (ci_TaskAnchor inp))),
      (''objective'', JStr (tn_Objective (ci_TaskAnchor inp))),
      (''acceptance'', jstrings (tn_Acceptance (ci_TaskAnchor inp)))])"

definition evidence_text :: "gostd \<Rightarrow> classifier_input \<Rightarrow> string" where
  "evidence_text std inp = json_encode std (JObj
     [(''recent_event_ids'', jstrings (ci_RecentEventIDs inp)), (''related_event_ids'', jstrings (ci_RelatedEventIDs inp)),
      (''recent_events'', encodeEventDigests (ci_RecentEvents inp)),
      (''related_events'', encodeEventDigests (ci_RelatedEvents inp)),
      (''window'', JObj [(''event_count'', jint (wm_EventCount (ci_Window inp))),
         (''byte_count'', jint (wm_ByteCount (ci_Window inp))), (''truncated'', JBool (wm_Truncated (ci_Window inp))),
         (''overflow_marker'', JStr (wm_OverflowMarker (ci_Window inp)))])])"

definition buildDynamicSuffix :: "gostd \<Rightarrow> classifier_input \<Rightarrow> prompt_block list" where
  "buildDynamicSuffix std inp =
     [user_block ''task'' (task_text std inp), user_block ''evidence'' (evidence_text std inp)]
     @ (case ci_ProposedAction inp of None \<Rightarrow> [] | Some pa \<Rightarrow> [user_block ''action'' (encodeProposedAction std pa)])
     @ (case ci_Challenge inp of None \<Rightarrow> [] | Some c \<Rightarrow> [user_block ''challenge'' (encodeChallengeContext std c)])
     @ (if ci_UserException inp \<or> ci_RepoPolicyException inp \<or> ci_FlakyInvestigation inp
        then [user_block ''meta'' (json_encode std (JObj
           [(''user_exception'', JBool (ci_UserException inp)),
            (''repo_policy_exception'', JBool (ci_RepoPolicyException inp)),
            (''flaky_investigation'', JBool (ci_FlakyInvestigation inp))]))]
        else [])"

definition prompt_hash :: "gostd \<Rightarrow> string \<Rightarrow> string \<Rightarrow> string \<Rightarrow> string \<Rightarrow> string" where
  "prompt_hash std stab inh rules schema = hashCanon std (JObj
     [(''stable'', JStr stab), (''input'', JStr inh), (''rules'', JStr rules), (''schema'', JStr schema)])"

definition recomputePlanHashes :: "gostd \<Rightarrow> prompt_plan \<Rightarrow> string \<Rightarrow> prompt_plan" where
  "recomputePlanHashes std plan promptSchema =
     (let st = hashBlocks std (pp_StablePrefix plan); inh = hashBlocks std (pp_DynamicSuffix plan);
          schema = (if promptSchema = [] then pp_SchemaVersion plan else promptSchema)
      in plan\<lparr>pp_StablePrefixHash := st, pp_InputHash := inh,
              pp_PromptHash := prompt_hash std st inh (pp_RulesetHash plan) schema\<rparr>)"

definition sortedReasonCodes :: "string list" where
  "sortedReasonCodes = sort ValidRawReasonCodes"

definition DefaultPromptPlanMaterial :: prompt_plan_material where
  "DefaultPromptPlanMaterial =
     \<lparr>pm_PromptSchemaVersion = SchemaPromptPlan,
      pm_PolicyText = ''You are Reinframe Action Alignment Stage-1 classifier. ''
        @ ''Return exactly one JSON object matching the closed RawAssessment schema. ''
        @ ''Do not include markdown, prose, or extra fields. ''
        @ ''RawAssessment is evidence only; the deterministic resolver owns ALLOW|BLOCK.'',
      pm_OutputSchemaText = ''{\"schema_version\":\"reinframe.raw_assessment.v1\",\"severity\":0,\"reason_code\":\"NORMAL_PROGRESS\",\"evidence_event_ids\":[]}'',
      pm_DecisionRulesText = ''severity is integer 0-100; reason_code must be from the closed allowlist; ''
        @ ''evidence_event_ids must reference only supplied event IDs.'',
      pm_StableExamples = [], pm_RulesetHash = ''builtin-ruleset-v1''\<rparr>"

definition example_block :: "prompt_block \<Rightarrow> prompt_block" where
  "example_block ex = ex\<lparr>pb_Role := (if pb_Role ex = [] then ''system'' else pb_Role ex),
     pb_Type := (if pb_Type ex = [] then ''example'' else pb_Type ex)\<rparr>"

definition BuildPromptPlan :: "gostd \<Rightarrow> prompt_plan_material \<Rightarrow> classifier_input \<Rightarrow> prompt_plan" where
  "BuildPromptPlan std mat inp =
     (let schema = (if pm_PromptSchemaVersion mat = [] then SchemaPromptPlan else pm_PromptSchemaVersion mat);
          rules = (if pm_RulesetHash mat = [] then ''builtin-ruleset-v1'' else pm_RulesetHash mat);
          stab = [system_block ''policy'' (pm_PolicyText mat), system_block ''schema'' (pm_OutputSchemaText mat),
              system_block ''reason_codes'' (json_encode std (jstrings sortedReasonCodes)),
              system_block ''rules'' (pm_DecisionRulesText mat)]
            @ map example_block (pm_StableExamples mat)
            @ [system_block ''meta'' (json_encode std (JObj
                [(''prompt_schema'', JStr schema), (''ruleset_hash'', JStr rules)]))]
      in recomputePlanHashes std
           \<lparr>pp_SchemaVersion = SchemaPromptPlan, pp_StablePrefix = stab, pp_DynamicSuffix = buildDynamicSuffix std inp,
            pp_StablePrefixHash = [], pp_PromptHash = [], pp_RulesetHash = rules, pp_InputHash = []\<rparr> schema)"

definition prompt_roles :: "string list" where "prompt_roles = [''system'', ''user'', ''assistant'']"

definition stable_types :: "string list" where
  "stable_types = [''policy'', ''schema'', ''reason_codes'', ''rules'', ''example'', ''meta'']"

definition dynamic_types :: "string list" where
  "dynamic_types = [''task'', ''evidence'', ''action'', ''challenge'', ''meta'']"

definition block_fault :: "string list \<Rightarrow> go_error \<Rightarrow> prompt_block list \<Rightarrow> go_error option" where
  "block_fault types misplaced bs =
     (case find (\<lambda>b. pb_Role b \<notin> set prompt_roles \<or> pb_Type b \<notin> set types) bs of
        None \<Rightarrow> None
      | Some b \<Rightarrow> Some (if pb_Role b \<notin> set prompt_roles then ''classifier: unknown prompt role'' else misplaced))"

definition ValidatePromptPlan :: "gostd \<Rightarrow> prompt_plan \<Rightarrow> classifier_input \<Rightarrow> go_error option" where
  "ValidatePromptPlan std plan inp =
     (if pp_SchemaVersion plan \<noteq> SchemaPromptPlan then Some ''classifier: unsupported prompt plan schema''
      else or_else (block_fault stable_types ''classifier: misplaced or unknown stable block type'' (pp_StablePrefix plan))
       (or_else (block_fault dynamic_types ''classifier: misplaced or unknown dynamic block type'' (pp_DynamicSuffix plan))
        (if buildDynamicSuffix std inp \<noteq> pp_DynamicSuffix plan
           then Some ''classifier: prompt dynamic suffix does not match input''
         else
           let wantStable = hashBlocks std (pp_StablePrefix plan); wantInput = hashBlocks std (pp_DynamicSuffix plan)
           in if pp_StablePrefixHash plan \<noteq> wantStable then Some ''classifier: stale StablePrefixHash''
              else if pp_InputHash plan \<noteq> wantInput then Some ''classifier: stale InputHash''
              else if pp_PromptHash plan \<noteq> prompt_hash std wantStable wantInput (pp_RulesetHash plan) (pp_SchemaVersion plan)
                then Some ''classifier: stale PromptHash''
              else None)))"

section \<open>Requests\<close>

definition DefaultTimeout :: int where "DefaultTimeout = 1500 * 1000000"
definition MaxAllowedTimeout :: int where "MaxAllowedTimeout = 60 * 1000000000"
definition DefaultMaxInputBytes :: int where "DefaultMaxInputBytes = 65536"
definition DefaultMaxOutputBytes :: int where "DefaultMaxOutputBytes = 8192"
definition MaxAllowedInputBytes :: int where "MaxAllowedInputBytes = 1048576"
definition MaxAllowedOutputBytes :: int where "MaxAllowedOutputBytes = 256 * 1024"

definition id_only :: "classifier_input \<Rightarrow> bool" where
  "id_only inp \<longleftrightarrow> (ci_RecentEventIDs inp \<noteq> [] \<or> ci_RelatedEventIDs inp \<noteq> [])
     \<and> ci_RecentEvents inp = [] \<and> ci_RelatedEvents inp = []"

definition ValidateProviderRequest :: "gostd \<Rightarrow> provider_request \<Rightarrow> go_error option" where
  "ValidateProviderRequest std req =
     (if pq_SchemaVersion req \<noteq> SchemaProviderRequest then Some ''classifier: provider request schema required''
      else if pq_MaxInputBytes req < 0 \<or> pq_MaxOutputBytes req < 0 then Some ''classifier: negative byte limits''
      else if pq_MaxInputBytes req > MaxAllowedInputBytes then Some ''classifier: max_input_bytes exceeds ceiling''
      else if pq_MaxOutputBytes req > MaxAllowedOutputBytes then Some ''classifier: max_output_bytes exceeds ceiling''
      else if pq_Timeout req < 0 then Some ''classifier: negative timeout''
      else if pq_Timeout req > MaxAllowedTimeout then Some ''classifier: timeout exceeds ceiling''
      else or_else (ValidateClassifierInput (pq_Input req))
       (if \<not> ci_AllowLegacyFixtureIDs (pq_Input req) \<and> id_only (pq_Input req)
          then Some ''classifier: legacy event IDs without digests rejected''
        else ValidatePromptPlan std (pq_Prompt req) (pq_Input req)))"

definition bounded_input :: "classifier_input \<Rightarrow> classifier_input" where
  "bounded_input inp =
     (case BoundTrajectory (ci_RecentEvents inp) (ci_RelatedEvents inp) MaxRecentEvents MaxTrajectoryBytes of
        (r, rel, local) \<Rightarrow>
          inp\<lparr>ci_RecentEvents := r, ci_RelatedEvents := rel,
              ci_Window := MergeWindowMeta (ci_Window inp) local r rel,
              ci_RecentEventIDs := map eg_EventID r, ci_RelatedEventIDs := map eg_EventID rel\<rparr>)"

definition request_of :: "classifier_input \<Rightarrow> provider_request_options \<Rightarrow> classifier_input" where
  "request_of in0 opts =
     in0\<lparr>ci_SchemaVersion := (if ci_SchemaVersion in0 = [] then SchemaClassifierInput else ci_SchemaVersion in0),
         ci_AllowLegacyFixtureIDs := po_AllowLegacyFixtureIDs opts,
         ci_PolicyClass := (if po_Production opts \<and> ci_PolicyClass in0 = [] then PolicyClassProductivity
                            else ci_PolicyClass in0)\<rparr>"

definition NewProviderRequestWithOptions ::
  "gostd \<Rightarrow> classifier_input \<Rightarrow> provider_request_options \<Rightarrow> provider_request go_result" where
  "NewProviderRequestWithOptions std in0 opts =
     (let in1 = request_of in0 opts;
          digests = (ci_RecentEvents in1 \<noteq> [] \<or> ci_RelatedEvents in1 \<noteq> []);
          in2 = (if digests then bounded_input in1 else in1)
      in if \<not> po_AllowLegacyFixtureIDs opts \<and> id_only in1
           then Inl ''config: legacy event IDs without digests rejected for production''
         else case (if \<not> digests \<and> po_AllowLegacyFixtureIDs opts
                    then ValidateLegacyFixtureIDs (ci_RecentEventIDs in1) (ci_RelatedEventIDs in1) else None) of
           Some e \<Rightarrow> Inl e
         | None \<Rightarrow>
             (case ValidateClassifierInputOpts in2 opts of
                Some e \<Rightarrow> Inl e
              | None \<Rightarrow>
                  Inr \<lparr>pq_SchemaVersion = SchemaProviderRequest, pq_Input = in2,
                       pq_Prompt = BuildPromptPlan std DefaultPromptPlanMaterial in2, pq_Timeout = DefaultTimeout,
                       pq_MaxInputBytes = DefaultMaxInputBytes, pq_MaxOutputBytes = DefaultMaxOutputBytes\<rparr>))"

definition NewProviderRequest :: "gostd \<Rightarrow> classifier_input \<Rightarrow> provider_request go_result" where
  "NewProviderRequest std inp = NewProviderRequestWithOptions std inp
     \<lparr>po_AllowLegacyFixtureIDs = False, po_Production = True\<rparr>"

definition NewFixtureProviderRequest :: "gostd \<Rightarrow> classifier_input \<Rightarrow> provider_request go_result" where
  "NewFixtureProviderRequest std inp = NewProviderRequestWithOptions std inp
     \<lparr>po_AllowLegacyFixtureIDs = True, po_Production = False\<rparr>"

fun minPositive :: "int \<Rightarrow> int list \<Rightarrow> int" where
  "minPositive m [] = m"
| "minPositive m (v # vs) = minPositive (if v \<le> 0 then m else if m = 0 \<or> v < m then v else m) vs"

record provider_bound_sources =
  bs_ConfigTimeout :: int
  bs_ConfigMaxInput :: int
  bs_ConfigMaxOutput :: int
  bs_CapabilityMaxInput :: int

definition effective :: "int \<Rightarrow> int \<Rightarrow> int list \<Rightarrow> int" where
  "effective dflt ceiling vals =
     (let m = minPositive 0 vals; v = (if m \<le> 0 then dflt else m) in if v > ceiling then ceiling else v)"

definition EffectiveProviderBounds :: "provider_request \<Rightarrow> provider_bound_sources \<Rightarrow> int \<times> int \<times> int" where
  "EffectiveProviderBounds req src =
     (effective DefaultTimeout MaxAllowedTimeout [pq_Timeout req, bs_ConfigTimeout src],
      effective DefaultMaxInputBytes MaxAllowedInputBytes
        [pq_MaxInputBytes req, bs_ConfigMaxInput src, bs_CapabilityMaxInput src],
      effective DefaultMaxOutputBytes MaxAllowedOutputBytes [pq_MaxOutputBytes req, bs_ConfigMaxOutput src])"

section \<open>What the builder builds\<close>

lemma or_else_None [simp]: "or_else a b = None \<longleftrightarrow> a = None \<and> b = None"
  by (cases a) (simp_all add: or_else_def)

lemma DigestByteCount_simps [simp]:
  "DigestByteCount [] = 0" "DigestByteCount (e # es) = digest_size e + DigestByteCount es"
  by (simp_all add: DigestByteCount_def)

lemma digest_size_pos: "0 < digest_size e"
  by (simp add: digest_size_def)

lemma DigestByteCount_nonneg: "0 \<le> DigestByteCount es"
  by (induction es) (use digest_size_pos in \<open>auto intro: add_nonneg_nonneg less_imp_le\<close>)

lemma take_events_spec:
  assumes "take_events maxB limit n b es = (out, b', eo, bo)"
  shows "\<exists>rest. es = out @ rest \<and> (rest = [] \<longleftrightarrow> \<not> eo \<and> \<not> bo)"
    and "b' = b + DigestByteCount out" and "b \<le> maxB \<Longrightarrow> b' \<le> maxB" and "n \<le> limit \<Longrightarrow> n + int (length out) \<le> limit"
proof -
  have "(\<exists>rest. es = out @ rest \<and> (rest = [] \<longleftrightarrow> \<not> eo \<and> \<not> bo)) \<and> b' = b + DigestByteCount out
      \<and> (b \<le> maxB \<longrightarrow> b' \<le> maxB) \<and> (n \<le> limit \<longrightarrow> n + int (length out) \<le> limit)"
    using assms
  proof (induction maxB limit n b es arbitrary: out b' eo bo rule: take_events.induct)
    case (2 maxB limit n b e es)
    show ?case
    proof (cases "n \<ge> limit \<or> b + digest_size e > maxB")
      case True
      then show ?thesis using "2.prems" by (auto split: if_splits)
    next
      case False
      obtain o1 b1 e1 y1 where t: "take_events maxB limit (n + 1) (b + digest_size e) es = (o1, b1, e1, y1)"
        by (metis prod_cases4)
      have r: "out = e # o1" "b' = b1" "eo = e1" "bo = y1" using "2.prems" False t by auto
      show ?thesis using 2(1) [OF _ _ t] False r by auto
    qed
  qed simp
  then show "\<exists>rest. es = out @ rest \<and> (rest = [] \<longleftrightarrow> \<not> eo \<and> \<not> bo)"
    and "b' = b + DigestByteCount out" and "b \<le> maxB \<Longrightarrow> b' \<le> maxB" and "n \<le> limit \<Longrightarrow> n + int (length out) \<le> limit"
    by blast+
qed

definition packet_ok :: "event_digest list \<Rightarrow> event_digest list \<Rightarrow> event_digest list \<Rightarrow> event_digest list \<Rightarrow> bool" where
  "packet_ok recent related r rel \<longleftrightarrow>
     int (length r + length rel) \<le> MaxRecentEvents \<and> int (length rel) \<le> MaxRelatedEvents
     \<and> DigestByteCount r + DigestByteCount rel \<le> MaxTrajectoryBytes
     \<and> (\<exists>rest. SortEventDigests recent = r @ rest) \<and> (\<exists>rest. SortEventDigests related = rel @ rest)"

lemma BoundTrajectory_spec:
  assumes "BoundTrajectory recent related MaxRecentEvents MaxTrajectoryBytes = (r, rel, w)"
  shows "packet_ok recent related r rel"
    and "wm_EventCount w = int (length r + length rel)" "wm_ByteCount w = DigestByteCount r + DigestByteCount rel"
    and "wm_Truncated w \<longleftrightarrow> r \<noteq> SortEventDigests recent \<or> rel \<noteq> SortEventDigests related"
    and "wm_OverflowMarker w \<in> {OverflowNone, OverflowEvents, OverflowBytes, OverflowEventsAndBytes}"
      "wm_Truncated w \<longleftrightarrow> wm_OverflowMarker w \<noteq> OverflowNone"
proof -
  note mx = MaxRecentEvents_def MaxTrajectoryBytes_def MaxRelatedEvents_def
  let ?remain = "related_limit MaxRecentEvents (length r)"
  obtain b1 e1 y1 where t1: "take_events MaxTrajectoryBytes MaxRecentEvents 0 0 (SortEventDigests recent) = (r, b1, e1, y1)"
    using assms by (auto simp: BoundTrajectory_def mx Let_def split: prod.splits)
  note s1 = take_events_spec [OF t1]
  have len: "int (length r) \<le> MaxRecentEvents" "b1 \<le> MaxTrajectoryBytes" using s1(3,4) by (simp_all add: mx)
  have rem: "0 \<le> ?remain" "?remain \<le> MaxRelatedEvents" "?remain \<le> MaxRecentEvents - int (length r)"
    using len by (simp_all add: related_limit_def mx Let_def)
  have pos: "\<not> MaxRecentEvents \<le> 0" "\<not> MaxTrajectoryBytes \<le> 0" by (simp_all add: mx)
  obtain b2 e2 y2 where t2: "take_events MaxTrajectoryBytes ?remain 0 b1 (SortEventDigests related) = (rel, b2, e2, y2)"
    using assms t1 pos by (auto simp: BoundTrajectory_def Let_def split: prod.splits)
  note s2 = take_events_spec [OF t2]
  have len2: "int (length rel) \<le> ?remain" "b2 \<le> MaxTrajectoryBytes" using s2(3,4) len rem(1) by simp_all
  obtain rest1 where r1: "SortEventDigests recent = r @ rest1" "rest1 = [] \<longleftrightarrow> \<not> e1 \<and> \<not> y1" using s1(1) by blast
  obtain rest2 where r2: "SortEventDigests related = rel @ rest2" "rest2 = [] \<longleftrightarrow> \<not> e2 \<and> \<not> y2" using s2(1) by blast
  define src where "src \<longleftrightarrow> rest1 \<noteq> [] \<or> rest2 \<noteq> []"
  have w: "wm_EventCount w = int (length r + length rel)" "wm_ByteCount w = b2"
    "wm_Truncated w \<longleftrightarrow> (e1 \<or> e2 \<or> src \<and> \<not> (y1 \<or> y2)) \<or> (y1 \<or> y2) \<or> src"
    "wm_OverflowMarker w = (if (e1 \<or> e2 \<or> src \<and> \<not> (y1 \<or> y2)) \<and> (y1 \<or> y2) then OverflowEventsAndBytes
       else if e1 \<or> e2 \<or> src \<and> \<not> (y1 \<or> y2) then OverflowEvents
       else if y1 \<or> y2 then OverflowBytes else if src then OverflowEvents else OverflowNone)"
  proof -
    have src: "length (SortEventDigests recent) > length r \<or> length (SortEventDigests related) > length rel \<longleftrightarrow> src"
      by (auto simp: src_def r1(1) r2(1))
    show "wm_EventCount w = int (length r + length rel)" "wm_ByteCount w = b2"
      "wm_Truncated w \<longleftrightarrow> (e1 \<or> e2 \<or> src \<and> \<not> (y1 \<or> y2)) \<or> (y1 \<or> y2) \<or> src"
      "wm_OverflowMarker w = (if (e1 \<or> e2 \<or> src \<and> \<not> (y1 \<or> y2)) \<and> (y1 \<or> y2) then OverflowEventsAndBytes
         else if e1 \<or> e2 \<or> src \<and> \<not> (y1 \<or> y2) then OverflowEvents
         else if y1 \<or> y2 then OverflowBytes else if src then OverflowEvents else OverflowNone)"
      using assms unfolding BoundTrajectory_def Let_def if_not_P [OF pos(1)] if_not_P [OF pos(2)] t1 prod.case t2 src
      by auto
  qed
  show "packet_ok recent related r rel" using len2 rem s1(2) s2(2) r1 r2 by (auto simp: packet_ok_def)
  show "wm_EventCount w = int (length r + length rel)" "wm_ByteCount w = DigestByteCount r + DigestByteCount rel"
    using w(1,2) s1(2) s2(2) by simp_all
  show "wm_Truncated w \<longleftrightarrow> r \<noteq> SortEventDigests recent \<or> rel \<noteq> SortEventDigests related"
    using w(3) r1 r2 unfolding src_def by auto
  show "wm_OverflowMarker w \<in> {OverflowNone, OverflowEvents, OverflowBytes, OverflowEventsAndBytes}" using w(4) by auto
  show "wm_Truncated w \<longleftrightarrow> wm_OverflowMarker w \<noteq> OverflowNone" using w(3,4) by auto
qed

text \<open>What production validation accepts, the laxer validation of the transport accepts too.\<close>

lemma digest_fault_relax: "digest_fault production seen prev e = None \<Longrightarrow> digest_fault False seen prev e = None"
  by (auto simp: digest_fault_def Let_def split: if_splits)

lemma digests_fault_relax: "digests_fault production seen prev es = None \<Longrightarrow> digests_fault False seen prev es = None"
  by (induction es arbitrary: seen prev) (auto split: option.splits dest: digest_fault_relax)

lemma digests_relax:
  "ValidateEventDigestsOpts es n production = None \<Longrightarrow> ValidateEventDigestsOpts es n False = None"
  by (auto simp: ValidateEventDigestsOpts_def Let_def split: if_splits intro: digests_fault_relax)

lemma production_action_relax:
  "ValidateProposedActionProduction pa = None \<Longrightarrow> ValidateProposedActionForModel pa = None"
  by (auto simp: ValidateProposedActionProduction_def split: if_splits)

lemma guard_None: "(if c then Some e else x) = None \<longleftrightarrow> \<not> c \<and> x = None"
  by simp

lemma input_relax:
  assumes "ValidateClassifierInputOpts inp opts = None"
  shows "ValidateClassifierInput inp = None"
proof -
  note v = assms [unfolded ValidateClassifierInputOpts_def Let_def guard_None or_else_None]
  have action: "(case ci_ProposedAction inp of None \<Rightarrow> None | Some pa \<Rightarrow> ValidateProposedActionForModel pa) = None"
    using v production_action_relax by (auto split: option.splits if_splits)
  have digs: "ValidateEventDigestsOpts (ci_RecentEvents inp) MaxRecentEvents False = None"
    "ValidateEventDigestsOpts (ci_RelatedEvents inp) MaxRelatedEvents False = None"
    using v digests_relax by blast+
  show ?thesis
    unfolding ValidateClassifierInput_def ValidateClassifierInputOpts_def Let_def guard_None or_else_None
      provider_request_options.simps simp_thms if_False
    using v action digs by (cases "po_Production opts") simp_all
qed

lemma block_fault_None:
  "block_fault types e bs = None \<longleftrightarrow> list_all (\<lambda>b. pb_Role b \<in> set prompt_roles \<and> pb_Type b \<in> set types) bs"
proof -
  let ?bad = "\<lambda>b. pb_Role b \<notin> set prompt_roles \<or> pb_Type b \<notin> set types"
  have "block_fault types e bs = None \<longleftrightarrow> find ?bad bs = None" by (simp add: block_fault_def split: option.split)
  then show ?thesis by (auto simp: find_None_iff list_all_iff)
qed

lemma built_suffix_ok: "block_fault dynamic_types e (buildDynamicSuffix std inp) = None"
  by (auto simp: block_fault_None buildDynamicSuffix_def user_block_def prompt_roles_def dynamic_types_def
      split: option.splits)

text \<open>A plan built from the default material, or from any material with the plan's own schema and well-placed
  examples, passes validation against the input it was built for.\<close>

lemma built_plan_ok:
  assumes "pm_PromptSchemaVersion mat \<in> {[], SchemaPromptPlan}"
    and "list_all (\<lambda>b. pb_Role b \<in> set ([] # prompt_roles) \<and> pb_Type b \<in> set ([] # stable_types)) (pm_StableExamples mat)"
  shows "ValidatePromptPlan std (BuildPromptPlan std mat inp) inp = None"
proof -
  let ?plan = "BuildPromptPlan std mat inp"
  have dyn: "pp_DynamicSuffix ?plan = buildDynamicSuffix std inp" "pp_SchemaVersion ?plan = SchemaPromptPlan"
    by (simp_all add: BuildPromptPlan_def recomputePlanHashes_def Let_def)
  have "list_all (\<lambda>b. pb_Role b \<in> set prompt_roles \<and> pb_Type b \<in> set stable_types) (map example_block (pm_StableExamples mat))"
    using assms(2) by (auto simp: list_all_iff example_block_def prompt_roles_def stable_types_def)
  then have "list_all (\<lambda>b. pb_Role b \<in> set prompt_roles \<and> pb_Type b \<in> set stable_types) (pp_StablePrefix ?plan)"
    by (simp add: BuildPromptPlan_def recomputePlanHashes_def Let_def system_block_def prompt_roles_def stable_types_def)
  moreover have "pp_StablePrefixHash ?plan = hashBlocks std (pp_StablePrefix ?plan)"
    "pp_InputHash ?plan = hashBlocks std (pp_DynamicSuffix ?plan)"
    "pp_PromptHash ?plan = prompt_hash std (hashBlocks std (pp_StablePrefix ?plan)) (hashBlocks std (pp_DynamicSuffix ?plan))
       (pp_RulesetHash ?plan) (pp_SchemaVersion ?plan)"
    using assms(1) by (auto simp: BuildPromptPlan_def recomputePlanHashes_def Let_def)
  ultimately show ?thesis
    by (simp add: ValidatePromptPlan_def Let_def block_fault_None [of stable_types] dyn built_suffix_ok)
qed

lemma default_plan_ok: "ValidatePromptPlan std (BuildPromptPlan std DefaultPromptPlanMaterial inp) inp = None"
  by (rule built_plan_ok) (simp_all add: DefaultPromptPlanMaterial_def)

lemma bounded_input_fields:
  assumes "BoundTrajectory (ci_RecentEvents inp) (ci_RelatedEvents inp) MaxRecentEvents MaxTrajectoryBytes = (r, rel, w)"
  shows "ci_RecentEvents (bounded_input inp) = r" "ci_RelatedEvents (bounded_input inp) = rel"
    "ci_RecentEventIDs (bounded_input inp) = map eg_EventID r" "ci_RelatedEventIDs (bounded_input inp) = map eg_EventID rel"
    "wm_Truncated (ci_Window (bounded_input inp)) \<longleftrightarrow> wm_Truncated (ci_Window inp) \<or> wm_Truncated w"
    "ci_AllowLegacyFixtureIDs (bounded_input inp) = ci_AllowLegacyFixtureIDs inp"
  using assms by (simp_all add: bounded_input_def MergeWindowMeta_def Let_def)

lemma bounded_not_id_only: "\<not> id_only (bounded_input inp)"
proof -
  obtain r rel w where "BoundTrajectory (ci_RecentEvents inp) (ci_RelatedEvents inp) MaxRecentEvents MaxTrajectoryBytes
    = (r, rel, w)" by (metis prod_cases3)
  then show ?thesis by (auto simp: id_only_def bounded_input_fields)
qed

lemma SortEventDigests_Nil [simp]: "SortEventDigests [] = []"
  by (simp add: SortEventDigests_def)

lemma request_cases:
  assumes "NewProviderRequestWithOptions std in0 opts = Inr req"
  defines "in1 \<equiv> request_of in0 opts"
  shows "pq_Input req = (if ci_RecentEvents in0 \<noteq> [] \<or> ci_RelatedEvents in0 \<noteq> [] then bounded_input in1 else in1)"
    and "ValidateClassifierInputOpts (pq_Input req) opts = None"
    and "pq_Prompt req = BuildPromptPlan std DefaultPromptPlanMaterial (pq_Input req)"
    and "pq_SchemaVersion req = SchemaProviderRequest" "pq_Timeout req = DefaultTimeout"
      "pq_MaxInputBytes req = DefaultMaxInputBytes" "pq_MaxOutputBytes req = DefaultMaxOutputBytes"
    and "po_AllowLegacyFixtureIDs opts \<or> \<not> id_only in1"
proof -
  define legacy where "legacy = (if \<not> (ci_RecentEvents in1 \<noteq> [] \<or> ci_RelatedEvents in1 \<noteq> []) \<and> po_AllowLegacyFixtureIDs opts
    then ValidateLegacyFixtureIDs (ci_RecentEventIDs in1) (ci_RelatedEventIDs in1) else None)"
  define in2 where "in2 = (if ci_RecentEvents in1 \<noteq> [] \<or> ci_RelatedEvents in1 \<noteq> [] then bounded_input in1 else in1)"
  note a = assms(1) [unfolded NewProviderRequestWithOptions_def Let_def in1_def [symmetric],
    folded legacy_def in2_def]
  have g: "\<not> (\<not> po_AllowLegacyFixtureIDs opts \<and> id_only in1)" "legacy = None" "ValidateClassifierInputOpts in2 opts = None"
    using a by (auto split: if_splits option.splits)
  have req: "req = \<lparr>pq_SchemaVersion = SchemaProviderRequest, pq_Input = in2,
      pq_Prompt = BuildPromptPlan std DefaultPromptPlanMaterial in2, pq_Timeout = DefaultTimeout,
      pq_MaxInputBytes = DefaultMaxInputBytes, pq_MaxOutputBytes = DefaultMaxOutputBytes\<rparr>"
    using a unfolding if_not_P [OF g(1)] g(2,3) by simp
  have same: "ci_RecentEvents in1 = ci_RecentEvents in0" "ci_RelatedEvents in1 = ci_RelatedEvents in0"
    by (simp_all add: in1_def request_of_def)
  show "pq_Input req = (if ci_RecentEvents in0 \<noteq> [] \<or> ci_RelatedEvents in0 \<noteq> [] then bounded_input in1 else in1)"
    unfolding req in2_def same by simp
  show "ValidateClassifierInputOpts (pq_Input req) opts = None" using g(3) req by simp
  show "po_AllowLegacyFixtureIDs opts \<or> \<not> id_only in1" using g(1) by simp
qed (use assms(1) in \<open>auto simp: NewProviderRequestWithOptions_def Let_def split: if_splits option.splits\<close>)

lemma request_transport_valid:
  assumes "NewProviderRequestWithOptions std inp opts = Inr req"
  shows "ValidateProviderRequest std req = None"
proof -
  note c = request_cases [OF assms]
  have legacy: "\<not> (\<not> ci_AllowLegacyFixtureIDs (pq_Input req) \<and> id_only (pq_Input req))"
    using c(8) bounded_not_id_only [of "request_of inp opts"] by (auto simp: c(1) request_of_def bounded_input_def split: prod.splits)
  show ?thesis
    unfolding ValidateProviderRequest_def c(3-7) guard_None or_else_None
    using input_relax [OF c(2)] legacy default_plan_ok
    by (simp add: DefaultMaxInputBytes_def DefaultMaxOutputBytes_def DefaultTimeout_def MaxAllowedInputBytes_def
        MaxAllowedOutputBytes_def MaxAllowedTimeout_def)
qed

lemma request_packet:
  assumes "NewProviderRequestWithOptions std inp opts = Inr req"
  shows "packet_ok (ci_RecentEvents inp) (ci_RelatedEvents inp) (ci_RecentEvents (pq_Input req)) (ci_RelatedEvents (pq_Input req))"
    and "wm_Truncated (ci_Window (pq_Input req)) \<longleftrightarrow> wm_Truncated (ci_Window inp)
      \<or> ci_RecentEvents (pq_Input req) \<noteq> SortEventDigests (ci_RecentEvents inp)
      \<or> ci_RelatedEvents (pq_Input req) \<noteq> SortEventDigests (ci_RelatedEvents inp)"
proof -
  let ?in1 = "request_of inp opts"
  have same: "ci_RecentEvents ?in1 = ci_RecentEvents inp" "ci_RelatedEvents ?in1 = ci_RelatedEvents inp"
    "ci_Window ?in1 = ci_Window inp" by (simp_all add: request_of_def)
  have "packet_ok (ci_RecentEvents inp) (ci_RelatedEvents inp) (ci_RecentEvents (pq_Input req)) (ci_RelatedEvents (pq_Input req))
    \<and> (wm_Truncated (ci_Window (pq_Input req)) \<longleftrightarrow> wm_Truncated (ci_Window inp)
      \<or> ci_RecentEvents (pq_Input req) \<noteq> SortEventDigests (ci_RecentEvents inp)
      \<or> ci_RelatedEvents (pq_Input req) \<noteq> SortEventDigests (ci_RelatedEvents inp))"
  proof (cases "ci_RecentEvents inp \<noteq> [] \<or> ci_RelatedEvents inp \<noteq> []")
    case True
    obtain r rel w where b: "BoundTrajectory (ci_RecentEvents ?in1) (ci_RelatedEvents ?in1) MaxRecentEvents MaxTrajectoryBytes
      = (r, rel, w)" by (metis prod_cases3)
    then show ?thesis
      using True BoundTrajectory_spec(1,4) [OF b] by (simp add: request_cases(1) [OF assms] bounded_input_fields [OF b] same)
  next
    case False
    then show ?thesis
      by (simp add: request_cases(1) [OF assms] same packet_ok_def MaxRecentEvents_def MaxRelatedEvents_def MaxTrajectoryBytes_def)
  qed
  then show "packet_ok (ci_RecentEvents inp) (ci_RelatedEvents inp) (ci_RecentEvents (pq_Input req)) (ci_RelatedEvents (pq_Input req))"
    and "wm_Truncated (ci_Window (pq_Input req)) \<longleftrightarrow> wm_Truncated (ci_Window inp)
      \<or> ci_RecentEvents (pq_Input req) \<noteq> SortEventDigests (ci_RecentEvents inp)
      \<or> ci_RelatedEvents (pq_Input req) \<noteq> SortEventDigests (ci_RelatedEvents inp)" by blast+
qed

lemma request_keeps:
  assumes "NewProviderRequestWithOptions std inp opts = Inr req"
  shows "ci_ProposedAction (pq_Input req) = ci_ProposedAction inp" "ci_Challenge (pq_Input req) = ci_Challenge inp"
    "ci_TaskAnchor (pq_Input req) = ci_TaskAnchor inp"
  by (simp_all add: request_cases(1) [OF assms] request_of_def bounded_input_def split: prod.splits)

text \<open>The builder accepts real inputs: a production input with its events out of order becomes a request that
  carries them in order.\<close>

definition sample_input :: classifier_input where
  "sample_input =
     \<lparr>ci_SchemaVersion = [], ci_SessionID = ''s'', ci_FixtureName = [], ci_PolicyClass = [], ci_RulesetID = [],
      ci_RulesetHash = [], ci_TaskAnchor = \<lparr>tn_TaskID = ''t'', tn_Objective = ''o'', tn_Acceptance = []\<rparr>,
      ci_ContractRevision = 1, ci_EvidenceRevision = 1,
      ci_RecentEvents = map (\<lambda>i. \<lparr>eg_EventID = i, eg_Sequence = 7, eg_EventType = ''tool_call'',
        eg_Summary = ''ran'', eg_ContentHash = [], eg_RelatedTo = []\<rparr>) [''e2'', ''e1''],
      ci_RelatedEvents = [], ci_Window = \<lparr>wm_EventCount = 0, wm_ByteCount = 0, wm_Truncated = False, wm_OverflowMarker = []\<rparr>,
      ci_RecentEventIDs = [], ci_RelatedEventIDs = [], ci_AllowLegacyFixtureIDs = False, ci_ProposedAction = None,
      ci_Challenge = None, ci_UserException = False, ci_RepoPolicyException = False, ci_FlakyInvestigation = False\<rparr>"

lemma sample_request:
  "case NewProviderRequest std sample_input of
     Inl e \<Rightarrow> False
   | Inr req \<Rightarrow> map eg_EventID (ci_RecentEvents (pq_Input req)) = [''e1'', ''e2'']
       \<and> \<not> wm_Truncated (ci_Window (pq_Input req)) \<and> wm_ByteCount (ci_Window (pq_Input req)) = 60"
  by code_simp

text \<open>C38: What the request builder hands to a model. Whatever events, window, action and challenge it is given,
  production or fixture, a request it returns passes the transport's own validation (schema, byte and time
  ceilings, input, and a prompt whose blocks and hashes are those of this very input); carries at most 40
  events of which at most 32 related ones, within 48 KiB, each list an initial part of the evidence in
  sequence order, so that what is dropped is dropped from the end and nothing is reordered or invented; is marked
  truncated exactly when the caller's window was or an event was dropped; and leaves the task, the proposed
  action and the challenge as they were.\<close>

theorem provider_request_bounded:
  "case NewProviderRequestWithOptions std inp opts of
     Inl e \<Rightarrow> True
   | Inr req \<Rightarrow>
       let out = pq_Input req in
         ValidateProviderRequest std req = None
       \<and> int (length (ci_RecentEvents out) + length (ci_RelatedEvents out)) \<le> 40
       \<and> int (length (ci_RelatedEvents out)) \<le> 32
       \<and> DigestByteCount (ci_RecentEvents out) + DigestByteCount (ci_RelatedEvents out) \<le> 49152
       \<and> prefix (ci_RecentEvents out) (SortEventDigests (ci_RecentEvents inp))
       \<and> prefix (ci_RelatedEvents out) (SortEventDigests (ci_RelatedEvents inp))
       \<and> (\<not> wm_Truncated (ci_Window out) \<longleftrightarrow> \<not> wm_Truncated (ci_Window inp)
            \<and> ci_RecentEvents out = SortEventDigests (ci_RecentEvents inp)
            \<and> ci_RelatedEvents out = SortEventDigests (ci_RelatedEvents inp))
       \<and> ci_ProposedAction out = ci_ProposedAction inp \<and> ci_Challenge out = ci_Challenge inp
       \<and> ci_TaskAnchor out = ci_TaskAnchor inp"
proof (cases "NewProviderRequestWithOptions std inp opts")
  case (Inr req)
  then show ?thesis
    using request_packet [OF Inr] request_transport_valid [OF Inr] request_keeps [OF Inr]
    by (simp add: packet_ok_def Let_def prefix_def MaxRecentEvents_def MaxRelatedEvents_def MaxTrajectoryBytes_def) blast
qed simp

end
