(* ===== verification/ClassifierResult.thy ===== *)
theory ClassifierResult
  imports ClassifierInput
begin

text \<open>
  The answer side of the Stage 1 classifier: the result records of \<open>contract.go\<close>, the request-bound
  validation of \<open>validate_result.go\<close>, the audit record of \<open>audit.go\<close>, the classification of errors in
  \<open>context_err.go\<close>, the profiles of \<open>capabilities.go\<close> and the deterministic provider of \<open>provider.go\<close>.
  A provider is a function from requests to a result and an error; an error is an abort of the
  caller's context, a typed \<open>ProviderError\<close> with its class, or any other error.
\<close>

section \<open>Results\<close>

abbreviation SchemaRawAssessment :: string where "SchemaRawAssessment \<equiv> ''reinframe.raw_assessment.v1''"
abbreviation SchemaProviderResult :: string where "SchemaProviderResult \<equiv> ''reinframe.classifier_provider_result.v1''"
abbreviation SchemaProviderCallAudit :: string where
  "SchemaProviderCallAudit \<equiv> ''reinframe.classifier_provider_call_audit.v1''"
abbreviation StatusOK :: string where "StatusOK \<equiv> ''ok''"
abbreviation ParseStatusInvalid :: string where "ParseStatusInvalid \<equiv> ''invalid''"
abbreviation ParseStatusError :: string where "ParseStatusError \<equiv> ''error''"

definition MaxAuditStringBytes :: nat where "MaxAuditStringBytes = 256"
definition MaxRetryCount :: int where "MaxRetryCount = 2"

record classifier_assessment =
  asm_SchemaVersion :: string
  asm_Severity :: int
  asm_ReasonCode :: string
  asm_EvidenceEventIDs :: "string list"
  asm_ModelID :: string
  asm_ModelVersion :: string
  asm_PromptHash :: string
  asm_RulesetID :: string
  asm_RulesetHash :: string
  asm_ParseStatus :: string
  asm_LatencyMS :: int

record provider_usage =
  usg_InputTokens :: int
  usg_UncachedInputTokens :: int
  usg_CacheReadTokens :: int
  usg_CacheWriteTokens :: int
  usg_OutputTokens :: int
  usg_ReasoningTokens :: int
  usg_UsagePresent :: bool
  usg_CacheHit :: bool
  usg_CacheBackend :: string
  usg_CacheKeyHash :: string

record provider_meta =
  met_Provider :: string
  met_ModelID :: string
  met_ModelVersion :: string
  met_CapabilitiesProfile :: string
  met_ProviderRequestID :: string
  met_HTTPStatus :: int
  met_LatencyMS :: int
  met_RetryCount :: int
  met_ParseStatus :: string
  met_FallbackReason :: string
  met_ErrorClass :: string

record provider_result =
  prs_SchemaVersion :: string
  prs_Assessment :: classifier_assessment
  prs_Usage :: provider_usage
  prs_Meta :: provider_meta

definition zero_assessment :: classifier_assessment where
  "zero_assessment = \<lparr>asm_SchemaVersion = [], asm_Severity = 0, asm_ReasonCode = [], asm_EvidenceEventIDs = [],
     asm_ModelID = [], asm_ModelVersion = [], asm_PromptHash = [], asm_RulesetID = [], asm_RulesetHash = [],
     asm_ParseStatus = [], asm_LatencyMS = 0\<rparr>"

definition zero_usage :: provider_usage where
  "zero_usage = \<lparr>usg_InputTokens = 0, usg_UncachedInputTokens = 0, usg_CacheReadTokens = 0, usg_CacheWriteTokens = 0,
     usg_OutputTokens = 0, usg_ReasoningTokens = 0, usg_UsagePresent = False, usg_CacheHit = False,
     usg_CacheBackend = [], usg_CacheKeyHash = []\<rparr>"

definition zero_meta :: provider_meta where
  "zero_meta = \<lparr>met_Provider = [], met_ModelID = [], met_ModelVersion = [], met_CapabilitiesProfile = [],
     met_ProviderRequestID = [], met_HTTPStatus = 0, met_LatencyMS = 0, met_RetryCount = 0, met_ParseStatus = [],
     met_FallbackReason = [], met_ErrorClass = []\<rparr>"

definition zero_result :: provider_result where
  "zero_result = \<lparr>prs_SchemaVersion = [], prs_Assessment = zero_assessment, prs_Usage = zero_usage, prs_Meta = zero_meta\<rparr>"

section \<open>Errors of a call\<close>

datatype ctx_err = Canceled | DeadlineExceeded

datatype assess_error = CtxError ctx_err | ProviderError string | PlainError

text \<open>The contexts are their current \<open>Err()\<close>, a missing context being one that never ends.\<close>

definition classifyOpError ::
  "ctx_err option \<Rightarrow> ctx_err option \<Rightarrow> assess_error option \<Rightarrow> assess_error option" where
  "classifyOpError parent operation err =
     (case parent of
        Some p \<Rightarrow> Some (CtxError p)
      | None \<Rightarrow>
          (case err of
             Some (CtxError Canceled) \<Rightarrow> Some (CtxError Canceled)
           | Some (CtxError DeadlineExceeded) \<Rightarrow> Some (ProviderError ''timeout'')
           | Some (ProviderError c) \<Rightarrow> Some (ProviderError c)
           | Some PlainError \<Rightarrow> Some (ProviderError ''transport'')
           | None \<Rightarrow>
               (case operation of
                  Some DeadlineExceeded \<Rightarrow> Some (ProviderError ''timeout'')
                | Some Canceled \<Rightarrow> Some (CtxError Canceled)
                | None \<Rightarrow> None)))"

fun isParentContextAbort :: "assess_error \<Rightarrow> bool" where
  "isParentContextAbort (CtxError c) = True"
| "isParentContextAbort (ProviderError c) = False"
| "isParentContextAbort PlainError = False"

definition isAdapterTimeout :: "assess_error \<Rightarrow> bool" where
  "isAdapterTimeout e = (e = ProviderError ''timeout'')"

section \<open>Validation of a result\<close>

definition ValidateRawReasonCode :: "string \<Rightarrow> bool" where
  "ValidateRawReasonCode code = (code \<in> set ValidRawReasonCodes)"

definition usageHasNegative :: "provider_usage \<Rightarrow> bool" where
  "usageHasNegative u = (usg_InputTokens u < 0 \<or> usg_OutputTokens u < 0 \<or> usg_ReasoningTokens u < 0
     \<or> usg_CacheReadTokens u < 0 \<or> usg_CacheWriteTokens u < 0 \<or> usg_UncachedInputTokens u < 0)"

definition ValidateProviderUsage :: "provider_usage \<Rightarrow> go_error option" where
  "ValidateProviderUsage u =
     (if usg_InputTokens u < 0 \<or> usg_OutputTokens u < 0 \<or> usg_ReasoningTokens u < 0
        \<or> usg_CacheReadTokens u < 0 \<or> usg_CacheWriteTokens u < 0 \<or> usg_UncachedInputTokens u < 0
      then Some ''classifier: invalid negative usage tokens'' else None)"

definition ValidateProviderMeta :: "provider_meta \<Rightarrow> go_error option" where
  "ValidateProviderMeta m =
     (if met_HTTPStatus m < 0 \<or> met_HTTPStatus m > 999 then Some ''classifier: invalid http_status''
      else if met_RetryCount m < 0 \<or> met_RetryCount m > MaxRetryCount + 1 then Some ''classifier: invalid retry_count''
      else if length (met_Provider m) > MaxAuditStringBytes \<or> length (met_ModelID m) > MaxAuditStringBytes
        then Some ''classifier: meta string too long''
      else None)"

definition ValidateProviderResult :: "provider_result \<Rightarrow> go_error option" where
  "ValidateProviderResult res =
     (if prs_SchemaVersion res \<noteq> SchemaProviderResult then Some ''classifier: provider result schema required''
      else or_else (ValidateProviderUsage (prs_Usage res)) (ValidateProviderMeta (prs_Meta res)))"

definition EvidenceAllowlistFromDigests :: "event_digest list \<Rightarrow> event_digest list \<Rightarrow> string list" where
  "EvidenceAllowlistFromDigests recent related = remdups (map eg_EventID recent @ map eg_EventID related)"

definition AllowedEvidenceSet :: "classifier_input \<Rightarrow> string list" where
  "AllowedEvidenceSet inp = remdups (ci_RecentEventIDs inp @ ci_RelatedEventIDs inp)"

definition evidenceAllowlist :: "classifier_input \<Rightarrow> string list" where
  "evidenceAllowlist inp =
     (if ci_RecentEvents inp \<noteq> [] \<or> ci_RelatedEvents inp \<noteq> []
      then EvidenceAllowlistFromDigests (ci_RecentEvents inp) (ci_RelatedEvents inp) else AllowedEvidenceSet inp)"

definition evidenceAllowlistShownOnly :: "classifier_input \<Rightarrow> string list" where
  "evidenceAllowlistShownOnly inp =
     (if ci_RecentEvents inp \<noteq> [] \<or> ci_RelatedEvents inp \<noteq> []
      then EvidenceAllowlistFromDigests (ci_RecentEvents inp) (ci_RelatedEvents inp)
      else if ci_AllowLegacyFixtureIDs inp then AllowedEvidenceSet inp else [])"

definition SortedEvidenceIDs :: "string list \<Rightarrow> string list" where
  "SortedEvidenceIDs allow = sort allow"

fun evidence_fault :: "string list \<Rightarrow> string list \<Rightarrow> string list \<Rightarrow> go_error option" where
  "evidence_fault allow seen [] = None"
| "evidence_fault allow seen (i # ids) =
     (if i = [] then Some ''empty evidence id''
      else if i \<in> set seen then Some ''duplicate evidence id''
      else if i \<notin> set allow then Some ''evidence id not in shown digests''
      else evidence_fault allow (i # seen) ids)"

definition validateEvidenceAgainstShown :: "classifier_input \<Rightarrow> string list \<Rightarrow> go_error option" where
  "validateEvidenceAgainstShown inp ids =
     (if length ids > MaxEvidenceIDs then Some ''too many evidence ids''
      else evidence_fault (evidenceAllowlistShownOnly inp) [] ids)"

text \<open>Every error of this function is a \<open>ProviderError\<close> of class \<open>parse\<close>; the value is its message.\<close>

definition ok_fault :: "provider_request \<Rightarrow> provider_result \<Rightarrow> go_error option" where
  "ok_fault req res =
     (let a = prs_Assessment res; m = prs_Meta res in
      if \<not> ValidateSeverity (asm_Severity a) then Some ''severity out of range''
      else if \<not> ValidateRawReasonCode (asm_ReasonCode a) then Some ''unknown reason_code''
      else if asm_PromptHash a \<noteq> pp_PromptHash (pq_Prompt req) then Some ''prompt_hash mismatch''
      else if asm_RulesetID a \<noteq> ci_RulesetID (pq_Input req) then Some ''ruleset_id mismatch''
      else if asm_RulesetHash a \<noteq> ci_RulesetHash (pq_Input req) then Some ''ruleset_hash mismatch''
      else if met_ModelID m \<noteq> [] \<and> asm_ModelID a \<noteq> [] \<and> asm_ModelID a \<noteq> met_ModelID m then Some ''model_id mismatch''
      else if met_ModelVersion m \<noteq> [] \<and> asm_ModelVersion a \<noteq> [] \<and> asm_ModelVersion a \<noteq> met_ModelVersion m
        then Some ''model_version mismatch''
      else validateEvidenceAgainstShown (pq_Input req) (asm_EvidenceEventIDs a))"

definition ValidateProviderResultForRequest :: "provider_request \<Rightarrow> provider_result \<Rightarrow> go_error option" where
  "ValidateProviderResultForRequest req res =
     (let a = prs_Assessment res; st = asm_ParseStatus a in
      or_else (ValidateProviderResult res)
       (if st \<notin> {StatusOK, ParseStatusInvalid, ParseStatusError} then Some ''unknown parse_status''
        else if asm_SchemaVersion a \<noteq> SchemaRawAssessment then Some ''raw_assessment schema required''
        else if st = StatusOK then ok_fault req res
        else if st = ParseStatusInvalid \<and> length (asm_EvidenceEventIDs a) > MaxEvidenceIDs then Some ''too many evidence ids''
        else None))"

section \<open>The audit of a call\<close>

text \<open>\<open>CreatedAt\<close> is kept as the instant that the code formats; the zero instant is the empty string.\<close>

record provider_call_audit =
  pca_SchemaVersion :: string
  pca_Provider :: string
  pca_ModelID :: string
  pca_CapabilitiesProfile :: string
  pca_PromptHash :: string
  pca_StablePrefixHash :: string
  pca_RulesetHash :: string
  pca_InputHash :: string
  pca_EvidenceEventIDs :: "string list"
  pca_HTTPStatus :: int
  pca_LatencyMS :: int
  pca_RetryCount :: int
  pca_ProviderRequestID :: string
  pca_ParseStatus :: string
  pca_FallbackReason :: string
  pca_ErrorClass :: string
  pca_UsagePresent :: bool
  pca_UsageInvalid :: bool
  pca_InputTokens :: int
  pca_OutputTokens :: int
  pca_ReasoningTokens :: int
  pca_CacheReadTokens :: int
  pca_CacheWriteTokens :: int
  pca_UncachedInputTokens :: int
  pca_CacheHit :: bool
  pca_CacheBackend :: string
  pca_CacheKeyHash :: string
  pca_ModelVersion :: string
  pca_CorrelationID :: string
  pca_CausationID :: string
  pca_CreatedAt :: time
  pca_Severity :: int
  pca_ReasonCode :: string

definition truncateAudit :: "string \<Rightarrow> string" where
  "truncateAudit s = (if length s \<le> MaxAuditStringBytes then s else take MaxAuditStringBytes s)"

definition BuildProviderCallAudit ::
  "provider_request \<Rightarrow> provider_result \<Rightarrow> string \<Rightarrow> string \<Rightarrow> time \<Rightarrow> provider_call_audit" where
  "BuildProviderCallAudit req res corr cause now =
     (let m = prs_Meta res; u = prs_Usage res; a = prs_Assessment res; plan = pq_Prompt req;
          counted = (\<lambda>n. if usageHasNegative u then 0 else if usg_UsagePresent u then n else 0)
      in \<lparr>pca_SchemaVersion = SchemaProviderCallAudit, pca_Provider = truncateAudit (met_Provider m),
          pca_ModelID = truncateAudit (met_ModelID m),
          pca_CapabilitiesProfile = truncateAudit (met_CapabilitiesProfile m),
          pca_PromptHash = truncateAudit (pp_PromptHash plan),
          pca_StablePrefixHash = truncateAudit (pp_StablePrefixHash plan),
          pca_RulesetHash = truncateAudit (pp_RulesetHash plan), pca_InputHash = truncateAudit (pp_InputHash plan),
          pca_EvidenceEventIDs = take MaxEvidenceIDs (asm_EvidenceEventIDs a), pca_HTTPStatus = met_HTTPStatus m,
          pca_LatencyMS = met_LatencyMS m, pca_RetryCount = met_RetryCount m,
          pca_ProviderRequestID = truncateAudit (met_ProviderRequestID m),
          pca_ParseStatus = truncateAudit (met_ParseStatus m), pca_FallbackReason = truncateAudit (met_FallbackReason m),
          pca_ErrorClass = truncateAudit (met_ErrorClass m),
          pca_UsagePresent = (usg_UsagePresent u \<and> \<not> usageHasNegative u), pca_UsageInvalid = usageHasNegative u,
          pca_InputTokens = counted (usg_InputTokens u), pca_OutputTokens = counted (usg_OutputTokens u),
          pca_ReasoningTokens = counted (usg_ReasoningTokens u), pca_CacheReadTokens = counted (usg_CacheReadTokens u),
          pca_CacheWriteTokens = counted (usg_CacheWriteTokens u),
          pca_UncachedInputTokens = counted (usg_UncachedInputTokens u),
          pca_CacheHit = (usg_CacheHit u \<and> usg_UsagePresent u \<and> \<not> usageHasNegative u),
          pca_CacheBackend = truncateAudit (usg_CacheBackend u), pca_CacheKeyHash = truncateAudit (usg_CacheKeyHash u),
          pca_ModelVersion = truncateAudit (met_ModelVersion m), pca_CorrelationID = truncateAudit corr,
          pca_CausationID = truncateAudit cause, pca_CreatedAt = now, pca_Severity = asm_Severity a,
          pca_ReasonCode = truncateAudit (asm_ReasonCode a)\<rparr>)"

section \<open>The deterministic provider\<close>

definition fake_fixture :: "classifier_input \<Rightarrow> string" where
  "fake_fixture inp =
     (if ci_FixtureName inp = [] \<and> (case ci_ProposedAction inp of None \<Rightarrow> False | Some pa \<Rightarrow> FullSuiteCommand pa)
      then ''clear_block'' else ci_FixtureName inp)"

definition fake_score ::
  "classifier_input \<Rightarrow> (string \<times> int \<times> string \<times> string list) option" where
  "fake_score inp =
     (let name = fake_fixture inp in
      if name = ''clear_allow'' then Some (StatusOK, 10, ''NORMAL_PROGRESS'', [])
      else if name = ''clear_block'' then
        Some (StatusOK, 90, ''OVER_SOP'',
          case SortedEvidenceIDs (evidenceAllowlist inp) of [] \<Rightarrow> [] | i # _ \<Rightarrow> [i])
      else if name = ''malformed_output'' then Some (ParseStatusInvalid, 0, ''UNKNOWN'', [])
      else if name \<in> {''user_exception'', ''repo_policy_exception'', ''flaky_investigation''}
        then Some (StatusOK, 85, ''OVER_SOP'', [])
      else if name \<in> {''healthy_deep_security_work'', ''objective_outside_recent_tail'', ''contradictory_related_evidence''}
        then Some (StatusOK, 40, ''NORMAL_PROGRESS'', [])
      else if name = [] then Some (StatusOK, 0, ''NORMAL_PROGRESS'', [])
      else None)"

text \<open>\<open>elapsed\<close> is the measured latency, used when none is configured.\<close>

definition fake_Assess ::
  "gostd \<Rightarrow> int \<Rightarrow> string \<Rightarrow> int \<Rightarrow> ctx_err option \<Rightarrow> provider_request \<Rightarrow> provider_result \<times> assess_error option" where
  "fake_Assess std latency kind0 elapsed ctx req =
     (case ctx of
        Some e \<Rightarrow> (zero_result, Some (CtxError e))
      | None \<Rightarrow>
          (case ValidateProviderRequest std req of
             Some e \<Rightarrow> (zero_result, Some PlainError)
           | None \<Rightarrow>
               (case fake_score (pq_Input req) of
                  None \<Rightarrow> (zero_result, Some PlainError)
                | Some (st, sev, code, ev) \<Rightarrow>
                    if st = StatusOK \<and> \<not> ValidateSeverity sev then (zero_result, Some PlainError)
                    else if st = StatusOK \<and> \<not> ValidateRawReasonCode code then (zero_result, Some PlainError)
                    else
                      let ms = (if latency = 0 then elapsed else latency);
                          ph = pp_PromptHash (pq_Prompt req);
                          out = \<lparr>asm_SchemaVersion = SchemaRawAssessment, asm_Severity = sev, asm_ReasonCode = code,
                            asm_EvidenceEventIDs = ev, asm_ModelID = ''fake'', asm_ModelVersion = ''v0'',
                            asm_PromptHash = (if ph = [] then ''fake-prompt'' else ph),
                            asm_RulesetID = ci_RulesetID (pq_Input req), asm_RulesetHash = ci_RulesetHash (pq_Input req),
                            asm_ParseStatus = st, asm_LatencyMS = ms\<rparr>
                      in (\<lparr>prs_SchemaVersion = SchemaProviderResult, prs_Assessment = out, prs_Usage = zero_usage,
                           prs_Meta = zero_meta\<lparr>met_Provider := (if kind0 = [] then ''fake'' else kind0),
                             met_ModelID := ''fake'', met_ModelVersion := ''v0'', met_LatencyMS := ms,
                             met_ParseStatus := st\<rparr>\<rparr>, None))))"

section \<open>Capability profiles\<close>

record provider_capabilities =
  cpb_NativeStructuredOutput :: bool
  cpb_CacheMode :: string
  cpb_CacheKey :: bool
  cpb_CacheUsageTelemetry :: bool
  cpb_StatefulContinuation :: bool
  cpb_MaxInputBytes :: int

abbreviation CacheModeNone :: string where "CacheModeNone \<equiv> ''none''"
abbreviation CacheModeImplicitPrefix :: string where "CacheModeImplicitPrefix \<equiv> ''implicit_prefix''"
abbreviation CacheModeExplicitBreakpoint :: string where "CacheModeExplicitBreakpoint \<equiv> ''explicit_breakpoint''"
abbreviation CacheModeExplicitObject :: string where "CacheModeExplicitObject \<equiv> ''explicit_object''"

definition profile :: "string \<Rightarrow> bool \<Rightarrow> provider_capabilities" where
  "profile mode key = \<lparr>cpb_NativeStructuredOutput = True, cpb_CacheMode = mode, cpb_CacheKey = key,
     cpb_CacheUsageTelemetry = True, cpb_StatefulContinuation = False, cpb_MaxInputBytes = DefaultMaxInputBytes\<rparr>"

definition LookupCapabilitiesProfile :: "string \<Rightarrow> provider_capabilities go_result" where
  "LookupCapabilitiesProfile name =
     (if name \<in> {[], ''generic-none-v1''}
        then Inr ((profile CacheModeNone False)\<lparr>cpb_NativeStructuredOutput := False, cpb_CacheUsageTelemetry := False\<rparr>)
      else if name \<in> {''openai-off-v1'', ''anthropic-off-v1'', ''gemini-off-v1'', ''xai-off-v1''}
        then Inr (profile CacheModeNone False)
      else if name \<in> {''openai-implicit-v1'', ''anthropic-automatic-5m-v1'', ''anthropic-automatic-1h-v1'',
                      ''gemini-implicit-v1'', ''gemini-implicit-min1024-v1''}
        then Inr (profile CacheModeImplicitPrefix False)
      else if name \<in> {''openai-explicit-prefix-v1'', ''anthropic-explicit-prefix-5m-v1'', ''anthropic-explicit-prefix-1h-v1''}
        then Inr (profile CacheModeExplicitBreakpoint True)
      else if name \<in> {''openai-spark-v1'', ''xai-responses-prefix-v1''}
        then Inr (profile CacheModeImplicitPrefix True)
      else Inl ''classifier: unknown capabilities_profile'')"

definition ValidateCapabilities :: "provider_capabilities \<Rightarrow> go_error option" where
  "ValidateCapabilities c =
     (if cpb_CacheMode c = [] then Some ''classifier: empty cache_mode''
      else if cpb_CacheMode c \<notin> {CacheModeNone, CacheModeImplicitPrefix, CacheModeExplicitBreakpoint, CacheModeExplicitObject}
        then Some ''classifier: unknown cache_mode''
      else if cpb_MaxInputBytes c < 0 \<or> cpb_MaxInputBytes c > MaxAllowedInputBytes
        then Some ''classifier: invalid capabilities max_input_bytes''
      else None)"

section \<open>What validation guarantees\<close>

lemma five_way:
  "(if a then Inr p else if b then Inr q else if c then Inr r else if d then Inr s else if e then Inr t else Inl u) = Inr v
   \<Longrightarrow> v \<in> {p, q, r, s, t}"
  by (auto split: if_splits)

lemma profiles_valid:
  assumes "LookupCapabilitiesProfile name = Inr c"
  shows "ValidateCapabilities c = None" "\<not> cpb_StatefulContinuation c"
proof -
  have "c \<in> {(profile CacheModeNone False)\<lparr>cpb_NativeStructuredOutput := False, cpb_CacheUsageTelemetry := False\<rparr>,
      profile CacheModeNone False, profile CacheModeImplicitPrefix False, profile CacheModeExplicitBreakpoint True,
      profile CacheModeImplicitPrefix True}"
    using assms unfolding LookupCapabilitiesProfile_def by (rule five_way)
  then show "ValidateCapabilities c = None" "\<not> cpb_StatefulContinuation c"
    by (auto simp: ValidateCapabilities_def profile_def DefaultMaxInputBytes_def MaxAllowedInputBytes_def)
qed

lemma abort_iff_parent: "isParentContextAbort e \<longleftrightarrow> (\<exists>c. e = CtxError c)"
  by (cases e) auto

text \<open>A deadline of the adapter itself is never mistaken for an abort of the caller.\<close>

lemma adapter_deadline_is_timeout:
  "classifyOpError None operation (Some (CtxError DeadlineExceeded)) = Some (ProviderError ''timeout'')"
  "classifyOpError (Some p) operation err = Some (CtxError p)"
  by (simp_all add: classifyOpError_def)

lemma classifyOpError_complete: "err \<noteq> None \<Longrightarrow> classifyOpError parent operation err \<noteq> None"
  by (auto simp: classifyOpError_def split: option.splits assess_error.splits ctx_err.splits)

lemma evidence_fault_None:
  "evidence_fault allow seen ids = None \<longleftrightarrow>
     distinct ids \<and> set ids \<inter> set seen = {} \<and> [] \<notin> set ids \<and> set ids \<subseteq> set allow"
  by (induction allow seen ids rule: evidence_fault.induct) auto

lemma result_ok_bound:
  assumes "ValidateProviderResultForRequest req res = None" and "asm_ParseStatus (prs_Assessment res) = StatusOK"
  shows "ValidateSeverity (asm_Severity (prs_Assessment res))"
    and "asm_PromptHash (prs_Assessment res) = pp_PromptHash (pq_Prompt req)"
    and "asm_RulesetID (prs_Assessment res) = ci_RulesetID (pq_Input req)"
    and "asm_RulesetHash (prs_Assessment res) = ci_RulesetHash (pq_Input req)"
    and "asm_ReasonCode (prs_Assessment res) \<in> set ValidRawReasonCodes"
    and "set (asm_EvidenceEventIDs (prs_Assessment res)) \<subseteq> set (evidenceAllowlistShownOnly (pq_Input req))"
proof -
  have ok: "ok_fault req res = None"
    using assms by (simp add: ValidateProviderResultForRequest_def Let_def guard_None)
  note g = ok [unfolded ok_fault_def Let_def guard_None]
  show "ValidateSeverity (asm_Severity (prs_Assessment res))"
    "asm_PromptHash (prs_Assessment res) = pp_PromptHash (pq_Prompt req)"
    "asm_RulesetID (prs_Assessment res) = ci_RulesetID (pq_Input req)"
    "asm_RulesetHash (prs_Assessment res) = ci_RulesetHash (pq_Input req)" using g by simp_all
  show "asm_ReasonCode (prs_Assessment res) \<in> set ValidRawReasonCodes" using g by (simp add: ValidateRawReasonCode_def)
  show "set (asm_EvidenceEventIDs (prs_Assessment res)) \<subseteq> set (evidenceAllowlistShownOnly (pq_Input req))"
    using g by (simp add: validateEvidenceAgainstShown_def guard_None evidence_fault_None)
qed

lemma audit_is_bounded:
  "length (pca_Provider (BuildProviderCallAudit req res corr cause now)) \<le> MaxAuditStringBytes"
  "length (pca_CorrelationID (BuildProviderCallAudit req res corr cause now)) \<le> MaxAuditStringBytes"
  "length (pca_EvidenceEventIDs (BuildProviderCallAudit req res corr cause now)) \<le> MaxEvidenceIDs"
  by (simp_all add: BuildProviderCallAudit_def Let_def truncateAudit_def)

lemma audit_tokens_nonnegative:
  "0 \<le> pca_InputTokens (BuildProviderCallAudit req res corr cause now)"
  "0 \<le> pca_OutputTokens (BuildProviderCallAudit req res corr cause now)"
  "pca_UsagePresent (BuildProviderCallAudit req res corr cause now) \<longleftrightarrow>
     usg_UsagePresent (prs_Usage res) \<and> ValidateProviderUsage (prs_Usage res) = None"
  by (auto simp: BuildProviderCallAudit_def Let_def usageHasNegative_def ValidateProviderUsage_def)

end
