(* ===== verification/AssessmentCache.thy ===== *)
theory AssessmentCache
  imports ClassifierResult
begin

text \<open>
  The exact assessment cache (\<open>exact_cache.go\<close>): configuration, the LRU store with expiry and a byte
  budget, its key, and the caching provider with its single flight. The store's operations run under
  its mutex, so each is one function on the state; \<open>json.Marshal\<close> of an entry is the parameter
  \<open>marshal\<close> and the clock an argument. The eviction loop of \<open>Admit\<close> is a partial function: if the
  order list named a key without an entry the loop would never end. C39: it always ends, and the
  budgets hold after any sequence of operations.
\<close>

section \<open>Configuration\<close>

abbreviation SchemaExactCacheKey :: string where "SchemaExactCacheKey \<equiv> ''reinframe.exact_assessment_cache_key.v1''"
abbreviation SchemaCachedAssessment :: string where "SchemaCachedAssessment \<equiv> ''reinframe.cached_assessment.v1''"
abbreviation ExactCacheLayerReinframeExact :: string where "ExactCacheLayerReinframeExact \<equiv> ''reinframe_exact''"

record exact_cache_config =
  xc_Enabled :: bool
  xc_MaxEntries :: int
  xc_MaxBytes :: int
  xc_TTL :: int
  xc_Singleflight :: bool

definition Normalize :: "exact_cache_config \<Rightarrow> exact_cache_config" where
  "Normalize c =
     (if \<not> xc_Enabled c
      then \<lparr>xc_Enabled = False, xc_MaxEntries = 0, xc_MaxBytes = 0, xc_TTL = 0, xc_Singleflight = False\<rparr>
      else c\<lparr>xc_MaxEntries := (if xc_MaxEntries c \<le> 0 then 1024 else xc_MaxEntries c),
             xc_MaxBytes := (if xc_MaxBytes c \<le> 0 then 16 * 1048576 else xc_MaxBytes c),
             xc_TTL := (if xc_TTL c \<le> 0 then 600 * 1000000000 else xc_TTL c)\<rparr>)"

definition ValidateExactCacheConfig :: "exact_cache_config \<Rightarrow> go_error option" where
  "ValidateExactCacheConfig c =
     (if \<not> xc_Enabled c then
        (if xc_MaxEntries c \<noteq> 0 \<or> xc_MaxBytes c \<noteq> 0 \<or> xc_TTL c \<noteq> 0
         then Some ''classifier: exact cache disabled requires empty bounds'' else None)
      else if xc_MaxEntries c < 1 \<or> xc_MaxEntries c > 1000000 then Some ''classifier: exact cache max_entries out of range''
      else if xc_MaxBytes c < 1024 \<or> xc_MaxBytes c > 256 * 1048576 then Some ''classifier: exact cache max_bytes out of range''
      else if xc_TTL c < 1000000000 \<or> xc_TTL c > 24 * 3600 * 1000000000 then Some ''classifier: exact cache ttl out of range''
      else None)"

section \<open>State\<close>

record cached_assessment =
  cas_SchemaVersion :: string
  cas_Assessment :: classifier_assessment
  cas_SourceAuditID :: string
  cas_ProviderMeta :: provider_meta
  cas_CreatedAt :: time
  cas_ExpiresAt :: time
  cas_CacheKeyVersion :: string
  cas_KeyHash :: string

record exact_cache_stats =
  xs_Lookups :: int
  xs_Hits :: int
  xs_Misses :: int
  xs_Admissions :: int
  xs_Rejections :: int
  xs_Evictions :: int
  xs_Coalesced :: int
  xs_Entries :: int
  xs_Bytes :: int

record exact_cache_entry =
  xe_key :: string
  xe_val :: cached_assessment
  xe_size :: int

text \<open>A flight is its published outcome, if any, and its number of waiters; the channel \<open>done\<close> is closed when there
  is an outcome. The objects are kept in a list and referred to by position.\<close>

record exact_inflight =
  xf_outcome :: "(provider_result \<times> assess_error option) option"
  xf_wait :: int

record exact_assessment_cache =
  xa_cfg :: exact_cache_config
  xa_entries :: "exact_cache_entry gomap"
  xa_order :: "string list"
  xa_bytes :: int
  xa_stats :: exact_cache_stats
  xa_inflight :: "nat gomap"
  xa_flights :: "exact_inflight list"

definition zero_stats :: exact_cache_stats where
  "zero_stats = \<lparr>xs_Lookups = 0, xs_Hits = 0, xs_Misses = 0, xs_Admissions = 0, xs_Rejections = 0, xs_Evictions = 0,
     xs_Coalesced = 0, xs_Entries = 0, xs_Bytes = 0\<rparr>"

definition NewExactAssessmentCache :: "exact_cache_config \<Rightarrow> exact_assessment_cache go_result" where
  "NewExactAssessmentCache cfg0 =
     (let cfg = Normalize cfg0 in
      case ValidateExactCacheConfig cfg of
        Some e \<Rightarrow> Inl e
      | None \<Rightarrow> Inr \<lparr>xa_cfg = cfg, xa_entries = [], xa_order = [], xa_bytes = 0, xa_stats = zero_stats,
                     xa_inflight = [], xa_flights = []\<rparr>)"

definition Stats :: "exact_assessment_cache \<Rightarrow> exact_cache_stats" where
  "Stats c = (xa_stats c)\<lparr>xs_Entries := int (length (xa_entries c)), xs_Bytes := xa_bytes c\<rparr>"

definition bump :: "(exact_cache_stats \<Rightarrow> exact_cache_stats) \<Rightarrow> exact_assessment_cache \<Rightarrow> exact_assessment_cache" where
  "bump f c = c\<lparr>xa_stats := f (xa_stats c)\<rparr>"

definition count_lookup :: "exact_cache_stats \<Rightarrow> exact_cache_stats" where
  "count_lookup s = s\<lparr>xs_Lookups := xs_Lookups s + 1\<rparr>"
definition count_hit :: "exact_cache_stats \<Rightarrow> exact_cache_stats" where
  "count_hit s = s\<lparr>xs_Hits := xs_Hits s + 1\<rparr>"
definition count_miss :: "exact_cache_stats \<Rightarrow> exact_cache_stats" where
  "count_miss s = s\<lparr>xs_Misses := xs_Misses s + 1\<rparr>"
definition count_admission :: "exact_cache_stats \<Rightarrow> exact_cache_stats" where
  "count_admission s = s\<lparr>xs_Admissions := xs_Admissions s + 1\<rparr>"
definition count_rejection :: "exact_cache_stats \<Rightarrow> exact_cache_stats" where
  "count_rejection s = s\<lparr>xs_Rejections := xs_Rejections s + 1\<rparr>"
definition count_eviction :: "exact_cache_stats \<Rightarrow> exact_cache_stats" where
  "count_eviction s = s\<lparr>xs_Evictions := xs_Evictions s + 1\<rparr>"
definition count_coalesced :: "exact_cache_stats \<Rightarrow> exact_cache_stats" where
  "count_coalesced s = s\<lparr>xs_Coalesced := xs_Coalesced s + 1\<rparr>"

section \<open>Lookup and admission\<close>

definition removeOrderLocked :: "string \<Rightarrow> exact_assessment_cache \<Rightarrow> exact_assessment_cache" where
  "removeOrderLocked key c = c\<lparr>xa_order := remove1 key (xa_order c)\<rparr>"

definition touchLocked :: "string \<Rightarrow> exact_assessment_cache \<Rightarrow> exact_assessment_cache" where
  "touchLocked key c = (let c1 = removeOrderLocked key c in c1\<lparr>xa_order := xa_order c1 @ [key]\<rparr>)"

definition removeLocked :: "string \<Rightarrow> exact_assessment_cache \<Rightarrow> exact_assessment_cache" where
  "removeLocked key c =
     (case gm_get (xa_entries c) key of
        None \<Rightarrow> c
      | Some ent \<Rightarrow> removeOrderLocked key
          (c\<lparr>xa_bytes := xa_bytes c - xe_size ent, xa_entries := gm_del key (xa_entries c)\<rparr>))"

definition validateCachedAssessment :: "cached_assessment \<Rightarrow> go_error option" where
  "validateCachedAssessment v =
     (let a = cas_Assessment v; m = cas_ProviderMeta v in
      if cas_SchemaVersion v \<notin> {[], SchemaCachedAssessment} then Some ''bad cached assessment schema''
      else if asm_SchemaVersion a \<noteq> SchemaRawAssessment then Some ''bad assessment schema''
      else if asm_ParseStatus a \<noteq> StatusOK \<and> asm_ParseStatus a \<noteq> [] then Some ''parse status not ok''
      else if met_ParseStatus m = ParseStatusError \<or> met_ParseStatus m = ParseStatusInvalid then Some ''meta parse not ok''
      else if met_ErrorClass m \<noteq> [] \<or> met_FallbackReason m \<noteq> [] then Some ''error/fallback not cacheable''
      else if \<not> ValidateSeverity (asm_Severity a) \<or> \<not> ValidateRawReasonCode (asm_ReasonCode a)
        then Some ''invalid assessment fields''
      else None)"

definition live :: "time \<Rightarrow> cached_assessment \<Rightarrow> bool" where
  "live now v \<longleftrightarrow> cas_ExpiresAt v = 0 \<or> now < cas_ExpiresAt v"

definition cache_Get :: "time \<Rightarrow> string \<Rightarrow> exact_assessment_cache \<Rightarrow> cached_assessment option \<times> exact_assessment_cache" where
  "cache_Get now key c =
     (if \<not> xc_Enabled (xa_cfg c) \<or> key = [] then (None, c)
      else
        let c1 = bump count_lookup c in
        case gm_get (xa_entries c1) key of
          None \<Rightarrow> (None, bump count_miss c1)
        | Some ent \<Rightarrow>
            if \<not> live now (xe_val ent) then (None, bump (count_eviction \<circ> count_miss) (removeLocked key c1))
            else (Some (xe_val ent), bump count_hit (touchLocked key c1)))"

definition over_budget :: "int \<Rightarrow> exact_assessment_cache \<Rightarrow> bool" where
  "over_budget sz c \<longleftrightarrow> int (length (xa_entries c)) \<ge> xc_MaxEntries (xa_cfg c) \<or> xa_bytes c + sz > xc_MaxBytes (xa_cfg c)"

partial_function (option) evict :: "int \<Rightarrow> exact_assessment_cache \<Rightarrow> exact_assessment_cache option" where
  "evict sz c =
     (if over_budget sz c \<and> xa_order c \<noteq> []
      then evict sz (bump count_eviction (removeLocked (hd (xa_order c)) c))
      else Some c)"

definition insert_entry :: "string \<Rightarrow> cached_assessment \<Rightarrow> int \<Rightarrow> exact_assessment_cache \<Rightarrow> exact_assessment_cache" where
  "insert_entry key val sz c = bump count_admission
     (c\<lparr>xa_entries := gm_put key \<lparr>xe_key = key, xe_val = val\<lparr>cas_KeyHash := key\<rparr>, xe_size = sz\<rparr> (xa_entries c),
        xa_order := xa_order c @ [key], xa_bytes := xa_bytes c + sz\<rparr>)"

definition Admit ::
  "(cached_assessment \<Rightarrow> string option) \<Rightarrow> string \<Rightarrow> cached_assessment \<Rightarrow> exact_assessment_cache
   \<Rightarrow> (bool \<times> exact_assessment_cache) option" where
  "Admit marshal key val c =
     (if \<not> xc_Enabled (xa_cfg c) \<or> key = [] then Some (False, c)
      else if validateCachedAssessment val \<noteq> None then Some (False, bump count_rejection c)
      else case marshal val of
        None \<Rightarrow> Some (False, bump count_rejection c)
      | Some raw \<Rightarrow>
          let sz = int (length raw) in
          if sz > xc_MaxBytes (xa_cfg c) then Some (False, bump count_rejection c)
          else
            (case evict sz (removeLocked key c) of
               None \<Rightarrow> None
             | Some c1 \<Rightarrow>
                 if over_budget sz c1 then Some (False, bump count_rejection c1)
                 else Some (True, insert_entry key val sz c1)))"

section \<open>The key\<close>

record exact_cache_identity =
  xi_ProviderKind :: string
  xi_ModelID :: string
  xi_ModelVersion :: string
  xi_CapabilitiesProfile :: string
  xi_EgressProfile :: string
  xi_ParserSchema :: string

definition shortHash :: "gostd \<Rightarrow> string \<Rightarrow> string" where
  "shortHash std s = (if s = [] then [] else take 16 (sha256_hex std s))"

definition firstNonEmpty :: "string \<Rightarrow> string \<Rightarrow> string" where
  "firstNonEmpty a b = (if a \<noteq> [] then a else b)"

definition event_part :: "gostd \<Rightarrow> event_digest \<Rightarrow> json" where
  "event_part std e = JObj [(''id'', JStr (eg_EventID e)), (''type'', JStr (eg_EventType e)),
     (''seq'', JNum (dec (unat (eg_Sequence e)))),
     (''sum'', JStr ((if eg_ContentHash e = [] then shortHash std (eg_Summary e) else eg_ContentHash e)
        @ ''|'' @ eg_RelatedTo e))]"

definition canonEvents :: "gostd \<Rightarrow> event_digest list \<Rightarrow> json" where
  "canonEvents std evs = JArr (map (event_part std) (sort_key (\<lambda>e. (eg_Sequence e, eg_EventID e)) evs))"

definition action_part :: "gostd \<Rightarrow> proposed_action \<Rightarrow> string" where
  "action_part std pa = shortHash std (json_encode std (JObj
     [(''schema'', JStr (pa_SchemaVersion pa)), (''tool'', JStr (pa_ToolName pa)), (''class'', JStr (pa_ToolClass pa)),
      (''command'', JStr (pa_Command pa)), (''path'', JStr (pa_FilePath pa)), (''args'', jstrings (pa_Arguments pa)),
      (''scope'', jstrings (pa_TargetScope pa)), (''ws_rev'', JStr (pa_WorkspaceRevision pa)),
      (''contract'', jint (pa_ContractRevision pa)), (''truncated'', JBool (pa_Truncated pa)),
      (''source'', JStr (pa_Source pa)), (''parse'', JStr (pa_ParseStatus pa)),
      (''payload_h'', JStr (shortHash std (pa_RedactedPayload pa)))]))"

definition challenge_part :: "gostd \<Rightarrow> challenge_context \<Rightarrow> json" where
  "challenge_part std c = JObj
     [(''id'', JStr (cx_ChallengeID c)), (''state'', JStr (cx_State c)), (''block_class'', JStr (cx_BlockClass c)),
      (''reason'', JStr (cx_ReasonCode c)), (''appealability'', JStr (cx_Appealability c)),
      (''required_claims'', jstrings (cx_RequiredClaims c)), (''claims'', jstrings (cx_Claims c)),
      (''evidence'', jstrings (cx_EvidenceEventIDs c)), (''expires_seq'', jint (cx_ExpiresAtSequence c)),
      (''original_action'', JStr (cx_OriginalActionID c)), (''concrete'', JStr (shortHash std (cx_ConcreteValue c))),
      (''prevented'', JStr (shortHash std (cx_PreventedFailureOrThreat c))),
      (''cost'', JStr (shortHash std (cx_EstimatedCost c))), (''alts'', JStr (shortHash std (cx_AlternativesConsidered c))),
      (''scope'', JStr (shortHash std (cx_ScopeLimit c))), (''verify'', JStr (shortHash std (cx_VerificationPlan c))),
      (''rollback'', JStr (shortHash std (cx_RollbackPlan c))), (''action_fp'', JStr (cx_ActionFingerprint c))]"

definition key_payload :: "gostd \<Rightarrow> exact_cache_identity \<Rightarrow> provider_request \<Rightarrow> json" where
  "key_payload std i req =
     (let inp = pq_Input req; w = ci_Window inp in JObj
     [(''schema'', JStr SchemaExactCacheKey), (''provider'', JStr (xi_ProviderKind i)), (''model'', JStr (xi_ModelID i)),
      (''model_version'', JStr (xi_ModelVersion i)), (''capabilities'', JStr (xi_CapabilitiesProfile i)),
      (''egress'', JStr (xi_EgressProfile i)),
      (''parser_schema'', JStr (firstNonEmpty (xi_ParserSchema i) SchemaRawAssessment)),
      (''prompt_schema'', JStr (pp_SchemaVersion (pq_Prompt req))),
      (''stable_prefix_hash'', JStr (pp_StablePrefixHash (pq_Prompt req))), (''ruleset_id'', JStr (ci_RulesetID inp)),
      (''ruleset_hash'', JStr (ci_RulesetHash inp)), (''policy_class'', JStr (ci_PolicyClass inp)),
      (''task_id'', JStr (tn_TaskID (ci_TaskAnchor inp))),
      (''task_obj_hash'', JStr (shortHash std (tn_Objective (ci_TaskAnchor inp)))),
      (''task_acceptance'', jstrings (sort (tn_Acceptance (ci_TaskAnchor inp)))),
      (''contract_rev'', jint (ci_ContractRevision inp)), (''evidence_rev'', jint (ci_EvidenceRevision inp)),
      (''window'', JObj [(''EventCount'', jint (wm_EventCount w)), (''ByteCount'', jint (wm_ByteCount w)),
         (''Truncated'', JBool (wm_Truncated w)), (''OverflowMarker'', JStr (wm_OverflowMarker w))]),
      (''recent'', canonEvents std (ci_RecentEvents inp)), (''related'', canonEvents std (ci_RelatedEvents inp)),
      (''action_fp'', JStr (case ci_ProposedAction inp of None \<Rightarrow> [] | Some pa \<Rightarrow> action_part std pa)),
      (''challenge'', case ci_Challenge inp of None \<Rightarrow> JNull | Some c \<Rightarrow> challenge_part std c),
      (''user_exception'', JBool (ci_UserException inp)), (''repo_exception'', JBool (ci_RepoPolicyException inp)),
      (''flaky_invest'', JBool (ci_FlakyInvestigation inp)), (''session_id'', JStr (ci_SessionID inp))])"

definition BuildExactCacheKeyHash :: "gostd \<Rightarrow> exact_cache_identity \<Rightarrow> provider_request \<Rightarrow> string option" where
  "BuildExactCacheKeyHash std i req =
     (let inp = pq_Input req in
      if xi_ProviderKind i = [] \<or> xi_ModelID i = [] then None
      else if ci_AllowLegacyFixtureIDs inp then None
      else if EqualFold (ci_PolicyClass inp) PolicyClassSecurity then None
      else if ci_RulesetID inp \<noteq> [] \<and> ci_RulesetHash inp = [] then None
      else if pp_StablePrefixHash (pq_Prompt req) = [] then None
      else Some (take 32 (sha256_hex std (json_encode std (key_payload std i req)))))"

section \<open>The caching provider\<close>

definition rebind :: "provider_request \<Rightarrow> classifier_assessment \<Rightarrow> classifier_assessment" where
  "rebind req a = a\<lparr>asm_PromptHash := pp_PromptHash (pq_Prompt req), asm_RulesetID := ci_RulesetID (pq_Input req),
     asm_RulesetHash := ci_RulesetHash (pq_Input req)\<rparr>"

text \<open>The result both of a hit and of a coalesced waiter: no usage of its own, the layer named.\<close>

definition exact_layer_result ::
  "exact_cache_identity \<Rightarrow> string \<Rightarrow> provider_request \<Rightarrow> classifier_assessment \<Rightarrow> string \<Rightarrow> provider_result" where
  "exact_layer_result i key req a requestID =
     \<lparr>prs_SchemaVersion = SchemaProviderResult, prs_Assessment = rebind req a,
      prs_Usage = zero_usage\<lparr>usg_UsagePresent := True, usg_CacheHit := True,
        usg_CacheBackend := ExactCacheLayerReinframeExact, usg_CacheKeyHash := key\<rparr>,
      prs_Meta = zero_meta\<lparr>met_Provider := xi_ProviderKind i, met_ModelID := xi_ModelID i,
        met_ModelVersion := xi_ModelVersion i, met_CapabilitiesProfile := xi_CapabilitiesProfile i,
        met_ProviderRequestID := requestID, met_ParseStatus := StatusOK\<rparr>\<rparr>"

definition hitResult :: "exact_cache_identity \<Rightarrow> cached_assessment \<Rightarrow> string \<Rightarrow> provider_request \<Rightarrow> provider_result" where
  "hitResult i hit key req = exact_layer_result i key req (cas_Assessment hit) (cas_SourceAuditID hit)"

definition coalescedWaiterResult ::
  "exact_cache_identity \<Rightarrow> provider_result \<Rightarrow> string \<Rightarrow> provider_request \<Rightarrow> provider_result" where
  "coalescedWaiterResult i leader key req =
     exact_layer_result i key req (prs_Assessment leader) (met_ProviderRequestID (prs_Meta leader))"

definition tryAdmit ::
  "(cached_assessment \<Rightarrow> string option) \<Rightarrow> time \<Rightarrow> string \<Rightarrow> provider_result \<Rightarrow> exact_assessment_cache
   \<Rightarrow> exact_assessment_cache option" where
  "tryAdmit marshal now key res c =
     (let m = prs_Meta res; a = prs_Assessment res in
      if met_ParseStatus m \<noteq> [] \<and> met_ParseStatus m \<noteq> StatusOK then Some (bump count_rejection c)
      else if asm_ParseStatus a \<noteq> [] \<and> asm_ParseStatus a \<noteq> StatusOK then Some (bump count_rejection c)
      else if met_ErrorClass m \<noteq> [] \<or> met_FallbackReason m \<noteq> [] then Some (bump count_rejection c)
      else if usg_CacheBackend (prs_Usage res) = ExactCacheLayerReinframeExact then Some c
      else map_option snd (Admit marshal key
        \<lparr>cas_SchemaVersion = SchemaCachedAssessment, cas_Assessment = a, cas_SourceAuditID = met_ProviderRequestID m,
         cas_ProviderMeta = m\<lparr>met_FallbackReason := []\<rparr>, cas_CreatedAt = now,
         cas_ExpiresAt = now + xc_TTL (xa_cfg c), cas_CacheKeyVersion = SchemaExactCacheKey, cas_KeyHash = []\<rparr> c))"

text \<open>
  The lock sections of the single flight. \<open>coalesce_enter\<close> is what a caller does under the lock: take
  a hit, join the flight of its key or start one. \<open>flight_finish\<close> is the end of the goroutine, on
  success, error or panic. \<open>wait_abandon\<close> is a waiter whose context ended first.
\<close>

datatype entrance = Hit cached_assessment | Join nat | Lead nat

definition coalesce_flight :: "string \<Rightarrow> exact_assessment_cache \<Rightarrow> entrance \<times> exact_assessment_cache" where
  "coalesce_flight key c =
     (case gm_get (xa_inflight c) key of
        Some f \<Rightarrow>
          (Join f, bump count_coalesced (c\<lparr>xa_flights :=
             (xa_flights c)[f := (xa_flights c ! f)\<lparr>xf_wait := xf_wait (xa_flights c ! f) + 1\<rparr>]\<rparr>))
      | None \<Rightarrow>
          (let f = length (xa_flights c) in
           (Lead f, c\<lparr>xa_flights := xa_flights c @ [\<lparr>xf_outcome = None, xf_wait = 1\<rparr>],
                     xa_inflight := gm_put key f (xa_inflight c)\<rparr>)))"

definition coalesce_enter :: "time \<Rightarrow> string \<Rightarrow> exact_assessment_cache \<Rightarrow> entrance \<times> exact_assessment_cache" where
  "coalesce_enter now key c =
     (case gm_get (xa_entries c) key of
        Some ent \<Rightarrow>
          if live now (xe_val ent) then (Hit (xe_val ent), touchLocked key (bump (count_hit \<circ> count_lookup) c))
          else coalesce_flight key (bump count_eviction (removeLocked key c))
      | None \<Rightarrow> coalesce_flight key c)"

definition flight_finish ::
  "string \<Rightarrow> nat \<Rightarrow> provider_result \<times> assess_error option \<Rightarrow> exact_assessment_cache \<Rightarrow> exact_assessment_cache" where
  "flight_finish key f outcome c =
     c\<lparr>xa_inflight := gm_del key (xa_inflight c),
       xa_flights := (xa_flights c)[f := (xa_flights c ! f)\<lparr>xf_outcome := Some outcome\<rparr>]\<rparr>"

definition wait_abandon :: "string \<Rightarrow> nat \<Rightarrow> exact_assessment_cache \<Rightarrow> exact_assessment_cache" where
  "wait_abandon key f c =
     (if gm_get (xa_inflight c) key = Some f
      then c\<lparr>xa_flights := (xa_flights c)[f := (xa_flights c ! f)\<lparr>xf_wait := xf_wait (xa_flights c ! f) - 1\<rparr>]\<rparr>
      else c)"

text \<open>
  The environment of one call: the context, the clock readings, what other goroutines do to the
  cache between two sections of this call, and whether the caller's context ends before its flight
  (the flight of a leader that left goes on, as a step of the other goroutines). A panic of the inner
  provider is an error of it. \<open>None\<close> is a call that does not return.
\<close>

record assess_env =
  ae_ctx :: "ctx_err option"
  ae_clock :: "nat \<Rightarrow> time"
  ae_others :: "nat \<Rightarrow> exact_assessment_cache \<Rightarrow> exact_assessment_cache"
  ae_ends_first :: "ctx_err option"

definition assessAndAdmit ::
  "(cached_assessment \<Rightarrow> string option) \<Rightarrow> (provider_request \<Rightarrow> provider_result \<times> assess_error option) \<Rightarrow> assess_env
   \<Rightarrow> provider_request \<Rightarrow> string \<Rightarrow> exact_assessment_cache
   \<Rightarrow> ((provider_result \<times> assess_error option) \<times> exact_assessment_cache) option" where
  "assessAndAdmit marshal inner env req key c =
     (case inner req of
        (res, Some e) \<Rightarrow> Some ((res, Some e), ae_others env 1 c)
      | (res, None) \<Rightarrow> map_option (\<lambda>c'. ((res, None), c')) (tryAdmit marshal (ae_clock env 1) key res (ae_others env 1 c)))"

definition waitInflight ::
  "exact_cache_identity \<Rightarrow> assess_env \<Rightarrow> nat \<Rightarrow> bool \<Rightarrow> string \<Rightarrow> provider_request \<Rightarrow> exact_assessment_cache
   \<Rightarrow> ((provider_result \<times> assess_error option) \<times> exact_assessment_cache) option" where
  "waitInflight i env f asLeader key req c =
     (case ae_ends_first env of
        Some e \<Rightarrow> Some ((zero_result, Some (CtxError e)), wait_abandon key f c)
      | None \<Rightarrow>
          (let c1 = ae_others env 2 c in
           case xf_outcome (xa_flights c1 ! f) of
             None \<Rightarrow> None
           | Some (res, Some e) \<Rightarrow> Some ((zero_result, Some e), c1)
           | Some (res, None) \<Rightarrow>
               Some ((if asLeader then res else coalescedWaiterResult i res key req, None), c1)))"

definition run_flight ::
  "(cached_assessment \<Rightarrow> string option) \<Rightarrow> (provider_request \<Rightarrow> provider_result \<times> assess_error option) \<Rightarrow> assess_env
   \<Rightarrow> provider_request \<Rightarrow> string \<Rightarrow> nat \<Rightarrow> exact_assessment_cache \<Rightarrow> exact_assessment_cache option" where
  "run_flight marshal inner env req key f c =
     map_option (flight_finish key f (inner req))
       (case inner req of
          (res, Some e) \<Rightarrow> Some (ae_others env 1 c)
        | (res, None) \<Rightarrow> tryAdmit marshal (ae_clock env 1) key res (ae_others env 1 c))"

definition assessCoalesced ::
  "(cached_assessment \<Rightarrow> string option) \<Rightarrow> (provider_request \<Rightarrow> provider_result \<times> assess_error option)
   \<Rightarrow> exact_cache_identity \<Rightarrow> assess_env \<Rightarrow> provider_request \<Rightarrow> string \<Rightarrow> exact_assessment_cache
   \<Rightarrow> ((provider_result \<times> assess_error option) \<times> exact_assessment_cache) option" where
  "assessCoalesced marshal inner i env req key c =
     (case coalesce_enter (ae_clock env 0) key c of
        (Hit v, c1) \<Rightarrow> Some ((hitResult i v key req, None), c1)
      | (Join f, c1) \<Rightarrow> waitInflight i env f False key req c1
      | (Lead f, c1) \<Rightarrow>
          if ae_ends_first env \<noteq> None then waitInflight i env f True key req c1
          else (case run_flight marshal inner env req key f c1 of
                  None \<Rightarrow> None
                | Some c2 \<Rightarrow> waitInflight i env f True key req c2))"

definition caching_Assess ::
  "gostd \<Rightarrow> (cached_assessment \<Rightarrow> string option) \<Rightarrow> (provider_request \<Rightarrow> provider_result \<times> assess_error option)
   \<Rightarrow> exact_cache_identity \<Rightarrow> assess_env \<Rightarrow> provider_request \<Rightarrow> exact_assessment_cache
   \<Rightarrow> ((provider_result \<times> assess_error option) \<times> exact_assessment_cache) option" where
  "caching_Assess std marshal inner i env req c =
     (case ae_ctx env of
        Some e \<Rightarrow> Some ((zero_result, Some (CtxError e)), c)
      | None \<Rightarrow>
          (case (if xc_Enabled (xa_cfg c) then BuildExactCacheKeyHash std i req else None) of
             None \<Rightarrow> Some (inner req, c)
           | Some key \<Rightarrow>
               (case cache_Get (ae_clock env 0) key c of
                  (Some hit, c1) \<Rightarrow> Some ((hitResult i hit key req, None), c1)
                | (None, c1) \<Rightarrow>
                    if xc_Singleflight (xa_cfg c1)
                    then assessCoalesced marshal inner i env req key (ae_others env 0 c1)
                    else assessAndAdmit marshal inner env req key c1)))"

section \<open>Budgets and termination\<close>

definition total_size :: "exact_cache_entry gomap \<Rightarrow> int" where
  "total_size m = sum_list (map (xe_size \<circ> snd) m)"

lemma total_size_simps [simp]:
  "total_size [] = 0" "total_size (p # m) = xe_size (snd p) + total_size m"
  by (simp_all add: total_size_def)

lemma total_size_put_fresh:
  "gm_get m k = None \<Longrightarrow> total_size (gm_put k v m) = total_size m + xe_size v \<and> length (gm_put k v m) = Suc (length m)"
  by (induction m) (auto split: if_splits)

lemma gm_del_absent: "gm_get m k = None \<Longrightarrow> gm_del k m = m"
  by (metis delete_id map_of_eq_None_iff)

lemma total_size_del:
  "distinct (gm_keys m) \<Longrightarrow> gm_get m k = Some e \<Longrightarrow>
     total_size (gm_del k m) = total_size m - xe_size e \<and> Suc (length (gm_del k m)) = length m"
proof (induction m)
  case (Cons p m)
  show ?case
  proof (cases "fst p = k")
    case True
    then have "gm_get m k = None" using Cons.prems(1) by (auto simp: gm_keys_def map_of_eq_None_iff)
    then show ?thesis using Cons.prems(2) True gm_del_absent [of m k] by auto
  next
    case False
    then show ?thesis using Cons by (auto simp: gm_keys_def)
  qed
qed simp

text \<open>The part of the invariant that the eviction loop keeps while it makes room, and the whole of it.\<close>

definition store_ok :: "exact_assessment_cache \<Rightarrow> bool" where
  "store_ok c \<longleftrightarrow> distinct (gm_keys (xa_entries c)) \<and> distinct (xa_order c) \<and> set (xa_order c) = set (gm_keys (xa_entries c))
     \<and> xa_bytes c = total_size (xa_entries c)
     \<and> (\<forall>k e. gm_get (xa_entries c) k = Some e \<longrightarrow>
          xe_key e = k \<and> cas_KeyHash (xe_val e) = k \<and> 0 \<le> xe_size e \<and> validateCachedAssessment (xe_val e) = None)"

definition cache_inv :: "exact_assessment_cache \<Rightarrow> bool" where
  "cache_inv c \<longleftrightarrow> store_ok c \<and> int (length (xa_entries c)) \<le> xc_MaxEntries (xa_cfg c) \<and> xa_bytes c \<le> xc_MaxBytes (xa_cfg c)
     \<and> (xc_Enabled (xa_cfg c) \<longrightarrow> 1 \<le> xc_MaxEntries (xa_cfg c) \<and> 0 \<le> xc_MaxBytes (xa_cfg c))"

lemma bump_fields [simp]:
  "xa_cfg (bump f c) = xa_cfg c" "xa_entries (bump f c) = xa_entries c" "xa_order (bump f c) = xa_order c"
  "xa_bytes (bump f c) = xa_bytes c" "xa_inflight (bump f c) = xa_inflight c" "xa_flights (bump f c) = xa_flights c"
  by (simp_all add: bump_def)

lemma store_ok_cong:
  assumes "xa_entries c = xa_entries d" "xa_order c = xa_order d" "xa_bytes c = xa_bytes d"
  shows "store_ok c = store_ok d"
  using assms by (simp add: store_ok_def)

lemma cache_inv_cong:
  assumes "xa_entries c = xa_entries d" "xa_order c = xa_order d" "xa_bytes c = xa_bytes d" "xa_cfg c = xa_cfg d"
  shows "cache_inv c = cache_inv d"
  using assms store_ok_cong [of c d] by (simp add: cache_inv_def)

lemma bump_inv [simp]: "store_ok (bump f c) = store_ok c" "cache_inv (bump f c) = cache_inv c"
  using store_ok_cong [of "bump f c" c] cache_inv_cong [of "bump f c" c] by simp_all

lemma removeLocked_fields [simp]:
  "xa_cfg (removeLocked k c) = xa_cfg c" "xa_entries (removeLocked k c) = gm_del k (xa_entries c)"
  "xa_inflight (removeLocked k c) = xa_inflight c" "xa_flights (removeLocked k c) = xa_flights c"
  by (auto simp: removeLocked_def removeOrderLocked_def gm_del_absent split: option.splits)

lemma removeLocked_store_ok:
  assumes "store_ok c" shows "store_ok (removeLocked k c)"
proof (cases "gm_get (xa_entries c) k")
  case None
  then show ?thesis using assms by (simp add: removeLocked_def)
next
  case (Some e)
  have "set (gm_keys (gm_del k (xa_entries c))) = set (gm_keys (xa_entries c)) - {k}"
    by (simp add: gm_keys_def delete_keys)
  then show ?thesis
    using assms total_size_del [OF _ Some] unfolding store_ok_def
    by (simp add: removeLocked_def Some removeOrderLocked_def set_remove1_eq)
qed

lemma total_size_nonneg:
  assumes "store_ok c" shows "0 \<le> total_size (xa_entries c)"
proof -
  have "\<forall>p \<in> set (xa_entries c). 0 \<le> xe_size (snd p)"
  proof
    fix p assume "p \<in> set (xa_entries c)"
    then have "gm_get (xa_entries c) (fst p) = Some (snd p)"
      using assms by (auto simp: store_ok_def gm_keys_def)
    then show "0 \<le> xe_size (snd p)" using assms by (auto simp: store_ok_def)
  qed
  then show ?thesis unfolding total_size_def by (intro sum_list_nonneg) auto
qed

lemma removeLocked_shrinks:
  assumes "store_ok c"
  shows "length (xa_entries (removeLocked k c)) \<le> length (xa_entries c)" "xa_bytes (removeLocked k c) \<le> xa_bytes c"
proof -
  show "length (xa_entries (removeLocked k c)) \<le> length (xa_entries c)" by (simp add: length_delete_le)
  show "xa_bytes (removeLocked k c) \<le> xa_bytes c"
    using assms by (auto simp: removeLocked_def removeOrderLocked_def store_ok_def split: option.splits)
qed

lemma removeLocked_inv:
  assumes "cache_inv c" shows "cache_inv (removeLocked k c)"
proof -
  have s: "store_ok c" using assms by (simp add: cache_inv_def)
  have le: "int (length (xa_entries c)) \<le> xc_MaxEntries (xa_cfg c)" "xa_bytes c \<le> xc_MaxBytes (xa_cfg c)"
    and en: "xc_Enabled (xa_cfg c) \<longrightarrow> 1 \<le> xc_MaxEntries (xa_cfg c) \<and> 0 \<le> xc_MaxBytes (xa_cfg c)"
    using assms unfolding cache_inv_def by blast+
  have "int (length (xa_entries (removeLocked k c))) \<le> xc_MaxEntries (xa_cfg c)"
    using removeLocked_shrinks(1) [OF s, of k] le(1) by linarith
  moreover have "xa_bytes (removeLocked k c) \<le> xc_MaxBytes (xa_cfg c)"
    using removeLocked_shrinks(2) [OF s, of k] le(2) by linarith
  ultimately show ?thesis
    using removeLocked_store_ok [OF s, of k] en unfolding cache_inv_def removeLocked_fields(1) by (intro conjI)
qed

text \<open>The loop ends: every turn removes the head of the order, because the head has an entry.\<close>

lemma evict_ends:
  assumes "store_ok c"
  shows "\<exists>c'. evict sz c = Some c' \<and> store_ok c' \<and> xa_cfg c' = xa_cfg c
    \<and> (gm_get (xa_entries c) k = None \<longrightarrow> gm_get (xa_entries c') k = None)
    \<and> (over_budget sz c' \<longrightarrow> xa_entries c' = [])"
  using assms
proof (induction "length (xa_order c)" arbitrary: c rule: less_induct)
  case less
  show ?case
  proof (cases "over_budget sz c \<and> xa_order c \<noteq> []")
    case False
    have "xa_order c = [] \<Longrightarrow> xa_entries c = []"
      using less.prems by (simp add: store_ok_def gm_keys_def)
    then show ?thesis using False less.prems by (subst evict.simps) auto
  next
    case True
    let ?d = "bump count_eviction (removeLocked (hd (xa_order c)) c)"
    have "hd (xa_order c) \<in> set (xa_order c)" using True by simp
    then have "gm_get (xa_entries c) (hd (xa_order c)) \<noteq> None"
      using less.prems gm_keys_dom unfolding store_ok_def by metis
    then obtain e where "gm_get (xa_entries c) (hd (xa_order c)) = Some e" by blast
    then have "length (xa_order ?d) < length (xa_order c)"
      using True by (simp add: removeLocked_def removeOrderLocked_def length_remove1)
    moreover have "store_ok ?d" using removeLocked_store_ok [OF less.prems] by simp
    ultimately obtain c' where "evict sz ?d = Some c'" "store_ok c'" "xa_cfg c' = xa_cfg ?d"
      "gm_get (xa_entries ?d) k = None \<longrightarrow> gm_get (xa_entries c') k = None" "over_budget sz c' \<longrightarrow> xa_entries c' = []"
      using less.hyps by blast
    then show ?thesis using True by (subst evict.simps) auto
  qed
qed

lemma touchLocked_inv:
  assumes "cache_inv c" and "gm_get (xa_entries c) k = Some e"
  shows "cache_inv (touchLocked k c)"
proof -
  have "k \<in> set (xa_order c)" using assms gm_keys_dom [of k] unfolding cache_inv_def store_ok_def by blast
  then show ?thesis
    using assms(1) unfolding cache_inv_def store_ok_def
    by (auto simp: touchLocked_def removeOrderLocked_def Let_def set_remove1_eq)
qed

lemma cache_Get_inv: "cache_inv c \<Longrightarrow> cache_inv (snd (cache_Get now k c))"
  by (simp add: cache_Get_def Let_def removeLocked_inv touchLocked_inv split: option.split)

definition admissible :: "(cached_assessment \<Rightarrow> string option) \<Rightarrow> string \<Rightarrow> cached_assessment \<Rightarrow> exact_cache_config \<Rightarrow> bool" where
  "admissible marshal key val cfg \<longleftrightarrow> xc_Enabled cfg \<and> key \<noteq> [] \<and> validateCachedAssessment val = None
     \<and> (case marshal val of None \<Rightarrow> False | Some raw \<Rightarrow> int (length raw) \<le> xc_MaxBytes cfg)"

lemma Admit_rejects:
  "\<not> admissible marshal key val (xa_cfg c) \<Longrightarrow> \<exists>f. Admit marshal key val c = Some (False, bump f c)"
proof -
  have "c = bump id c" by (simp add: bump_def)
  then show "\<not> admissible marshal key val (xa_cfg c) \<Longrightarrow> \<exists>f. Admit marshal key val c = Some (False, bump f c)"
    by (auto simp: Admit_def admissible_def Let_def split: option.splits)
qed

lemma validate_keyhash [simp]: "validateCachedAssessment (val\<lparr>cas_KeyHash := k\<rparr>) = validateCachedAssessment val"
  by (simp add: validateCachedAssessment_def)

lemma insert_entry_inv:
  assumes "store_ok c" and "gm_get (xa_entries c) k = None" and "\<not> over_budget sz c" and "0 \<le> sz"
    and "validateCachedAssessment val = None" and "xc_Enabled (xa_cfg c) \<longrightarrow> 1 \<le> xc_MaxEntries (xa_cfg c) \<and> 0 \<le> xc_MaxBytes (xa_cfg c)"
  shows "cache_inv (insert_entry k val sz c)"
proof -
  let ?e = "\<lparr>xe_key = k, xe_val = val\<lparr>cas_KeyHash := k\<rparr>, xe_size = sz\<rparr>"
  have ts: "total_size (gm_put k ?e (xa_entries c)) = total_size (xa_entries c) + sz"
    "length (gm_put k ?e (xa_entries c)) = Suc (length (xa_entries c))"
    using total_size_put_fresh [OF assms(2), of ?e] by simp_all
  have "k \<notin> set (gm_keys (xa_entries c))" using assms(2) by (simp add: gm_keys_dom)
  moreover have "set (gm_keys (gm_put k ?e (xa_entries c))) = insert k (set (gm_keys (xa_entries c)))"
    by (auto simp: gm_keys_dom split: if_splits)
  ultimately have "store_ok (insert_entry k val sz c)"
    using assms(1,4,5) ts unfolding store_ok_def insert_entry_def by auto
  then show ?thesis
    using assms(3,6) ts assms(1) by (auto simp: cache_inv_def insert_entry_def over_budget_def)
qed

lemma Admit_admits:
  assumes "cache_inv c" and "admissible marshal key val (xa_cfg c)"
  shows "\<exists>c'. Admit marshal key val c = Some (True, c') \<and> cache_inv c' \<and> xa_cfg c' = xa_cfg c
    \<and> (\<exists>e. gm_get (xa_entries c') key = Some e \<and> xe_val e = val\<lparr>cas_KeyHash := key\<rparr>)"
proof -
  obtain raw where raw: "marshal val = Some raw" "int (length raw) \<le> xc_MaxBytes (xa_cfg c)"
    and g: "xc_Enabled (xa_cfg c)" "key \<noteq> []" "validateCachedAssessment val = None"
    using assms(2) by (auto simp: admissible_def split: option.splits)
  let ?sz = "int (length raw)" and ?d = "removeLocked key c"
  have s: "store_ok ?d" using assms(1) removeLocked_store_ok by (simp add: cache_inv_def)
  obtain c1 where c1: "evict ?sz ?d = Some c1" "store_ok c1" "xa_cfg c1 = xa_cfg c"
    "gm_get (xa_entries c1) key = None" "over_budget ?sz c1 \<longrightarrow> xa_entries c1 = []"
    using evict_ends [OF s, of ?sz key] by auto
  have lim: "1 \<le> xc_MaxEntries (xa_cfg c)" "0 \<le> xc_MaxBytes (xa_cfg c)" using assms(1) g(1) by (simp_all add: cache_inv_def)
  have room: "\<not> over_budget ?sz c1"
    using c1(2,3,5) raw(2) lim by (auto simp: over_budget_def store_ok_def)
  have "Admit marshal key val c = Some (True, insert_entry key val ?sz c1)"
    using g raw room c1(1) by (simp add: Admit_def Let_def)
  moreover have "cache_inv (insert_entry key val ?sz c1)"
    by (rule insert_entry_inv [OF c1(2,4) room _ g(3)]) (use lim c1(3) in simp_all)
  ultimately show ?thesis using c1(3) by (simp add: insert_entry_def)
qed

lemma Admit_total:
  assumes "cache_inv c"
  obtains ok c' where "Admit marshal key val c = Some (ok, c')" "cache_inv c'" "xa_cfg c' = xa_cfg c"
    "ok = admissible marshal key val (xa_cfg c)"
proof (cases "admissible marshal key val (xa_cfg c)")
  case True
  then show ?thesis using Admit_admits [OF assms True] that by blast
next
  case False
  then show ?thesis using Admit_rejects [OF False] assms that by auto
qed

lemma tryAdmit_total:
  assumes "cache_inv c"
  shows "\<exists>c'. tryAdmit marshal now key res c = Some c' \<and> cache_inv c' \<and> xa_cfg c' = xa_cfg c"
proof -
  have "\<exists>c'. map_option snd (Admit marshal key v c) = Some c' \<and> cache_inv c' \<and> xa_cfg c' = xa_cfg c" for v
    by (rule Admit_total [OF assms, of marshal key v]) simp
  then show ?thesis using assms by (simp add: tryAdmit_def Let_def)
qed

lemma coalesce_enter_inv:
  assumes "cache_inv c"
  shows "cache_inv (snd (coalesce_enter now key c))" "xa_cfg (snd (coalesce_enter now key c)) = xa_cfg c"
proof -
  have fl: "cache_inv (snd (coalesce_flight key d)) = cache_inv d" "xa_cfg (snd (coalesce_flight key d)) = xa_cfg d" for d
    using cache_inv_cong [of "snd (coalesce_flight key d)" d]
    by (simp_all add: coalesce_flight_def Let_def split: option.split)
  have touch: "cache_inv (touchLocked key (bump f c))" if "gm_get (xa_entries c) key = Some e" for f e
    using touchLocked_inv [of "bump f c" key e] assms that by simp
  show "cache_inv (snd (coalesce_enter now key c))"
    using assms touch by (auto simp: coalesce_enter_def fl removeLocked_inv split: option.split)
  show "xa_cfg (snd (coalesce_enter now key c)) = xa_cfg c"
    by (auto simp: coalesce_enter_def fl touchLocked_def removeOrderLocked_def Let_def split: option.split)
qed

section \<open>Runs\<close>

text \<open>What the goroutines that share a cache do to it, one lock section at a time, in any order.\<close>

datatype cache_op =
    OpGet time string
  | OpAdmit string cached_assessment
  | OpTryAdmit time string provider_result
  | OpEnter time string
  | OpFinish string nat "provider_result \<times> assess_error option"
  | OpAbandon string nat

fun cache_exec :: "(cached_assessment \<Rightarrow> string option) \<Rightarrow> cache_op \<Rightarrow> exact_assessment_cache \<Rightarrow> exact_assessment_cache option" where
  "cache_exec marshal (OpGet now key) c = Some (snd (cache_Get now key c))"
| "cache_exec marshal (OpAdmit key val) c = map_option snd (Admit marshal key val c)"
| "cache_exec marshal (OpTryAdmit now key res) c = tryAdmit marshal now key res c"
| "cache_exec marshal (OpEnter now key) c = Some (snd (coalesce_enter now key c))"
| "cache_exec marshal (OpFinish key f outcome) c = Some (flight_finish key f outcome c)"
| "cache_exec marshal (OpAbandon key f) c = Some (wait_abandon key f c)"

fun cache_run :: "(cached_assessment \<Rightarrow> string option) \<Rightarrow> cache_op list \<Rightarrow> exact_assessment_cache \<Rightarrow> exact_assessment_cache option" where
  "cache_run marshal [] c = Some c"
| "cache_run marshal (x # xs) c = (case cache_exec marshal x c of None \<Rightarrow> None | Some c' \<Rightarrow> cache_run marshal xs c')"

lemma cache_Get_cfg: "xa_cfg (snd (cache_Get now key c)) = xa_cfg c"
  by (simp add: cache_Get_def Let_def touchLocked_def removeOrderLocked_def split: option.split)

lemma cache_exec_total:
  assumes "cache_inv c"
  shows "\<exists>c'. cache_exec marshal x c = Some c' \<and> cache_inv c' \<and> xa_cfg c' = xa_cfg c"
proof (cases x)
  case (OpGet now key)
  then show ?thesis using cache_Get_inv [OF assms] cache_Get_cfg by simp
next
  case (OpAdmit key val)
  show ?thesis by (rule Admit_total [OF assms, of marshal key val]) (simp add: OpAdmit)
next
  case (OpTryAdmit now key res)
  then show ?thesis using tryAdmit_total [OF assms] by simp
next
  case (OpEnter now key)
  then show ?thesis using coalesce_enter_inv [OF assms] by simp
next
  case (OpFinish key f outcome)
  then show ?thesis using assms cache_inv_cong [of "flight_finish key f outcome c" c] by (simp add: flight_finish_def)
next
  case (OpAbandon key f)
  then show ?thesis using assms cache_inv_cong [of "wait_abandon key f c" c] by (simp add: wait_abandon_def)
qed

lemma cache_run_total:
  "cache_inv c \<Longrightarrow> \<exists>c'. cache_run marshal xs c = Some c' \<and> cache_inv c' \<and> xa_cfg c' = xa_cfg c"
proof (induction xs arbitrary: c)
  case (Cons x xs)
  then show ?case using cache_exec_total [OF Cons.prems, of marshal x] by fastforce
qed simp

lemma new_cache_inv:
  assumes "NewExactAssessmentCache cfg = Inr c"
  shows "cache_inv c" "xa_cfg c = Normalize cfg"
proof -
  have v: "ValidateExactCacheConfig (Normalize cfg) = None"
    and c: "c = \<lparr>xa_cfg = Normalize cfg, xa_entries = [], xa_order = [], xa_bytes = 0, xa_stats = zero_stats,
      xa_inflight = [], xa_flights = []\<rparr>"
    using assms by (auto simp: NewExactAssessmentCache_def Let_def split: option.splits)
  have "0 \<le> xc_MaxEntries (Normalize cfg)" "0 \<le> xc_MaxBytes (Normalize cfg)"
    "xc_Enabled (Normalize cfg) \<Longrightarrow> 1 \<le> xc_MaxEntries (Normalize cfg)"
    using v by (auto simp: ValidateExactCacheConfig_def Normalize_def split: if_splits)
  then show "cache_inv c" by (simp add: c cache_inv_def store_ok_def gm_keys_def)
  show "xa_cfg c = Normalize cfg" by (simp add: c)
qed

lemma cache_Get_value:
  assumes "xc_Enabled (xa_cfg c)" "key \<noteq> []"
  shows "fst (cache_Get now key c) = (case gm_get (xa_entries c) key of
     None \<Rightarrow> None | Some e \<Rightarrow> if live now (xe_val e) then Some (xe_val e) else None)"
  using assms by (simp add: cache_Get_def Let_def split: option.split)

text \<open>C39: The cache stays within its budgets and admission ends. Start from a new cache and let any number of
  goroutines look up, admit, enter, finish and abandon flights in any order at any times. No operation
  hangs in the eviction loop; afterwards there are at most \<open>MaxEntries\<close> entries, the byte count is the
  sum of their sizes and at most \<open>MaxBytes\<close>, the recency order lists each key once, and every entry is
  a well-formed assessment stored under its key with no error in it. A further admission succeeds
  exactly when the cache is enabled, the key is not empty, the value is valid and it fits the budget on
  its own; the next lookup then returns that very value, until it expires.\<close>

theorem cache_bounded_and_live:
  "case NewExactAssessmentCache cfg of
     Inl e \<Rightarrow> True
   | Inr c0 \<Rightarrow>
       (case cache_run marshal ops c0 of
          None \<Rightarrow> False
        | Some c \<Rightarrow>
            int (length (xa_entries c)) \<le> xc_MaxEntries (Normalize cfg)
          \<and> xa_bytes c = sum_list (map (xe_size \<circ> snd) (xa_entries c)) \<and> xa_bytes c \<le> xc_MaxBytes (Normalize cfg)
          \<and> distinct (xa_order c) \<and> set (xa_order c) = fst ` set (xa_entries c) \<and> length (xa_order c) = length (xa_entries c)
          \<and> list_all (\<lambda>(k, e). cas_KeyHash (xe_val e) = k \<and> validateCachedAssessment (xe_val e) = None) (xa_entries c)
          \<and> (case Admit marshal key val c of
               None \<Rightarrow> False
             | Some (ok, c') \<Rightarrow>
                 (ok \<longleftrightarrow> admissible marshal key val (Normalize cfg))
               \<and> fst (cache_Get now key c') =
                   (if ok then (if live now val then Some (val\<lparr>cas_KeyHash := key\<rparr>) else None)
                    else fst (cache_Get now key c))))"
proof (cases "NewExactAssessmentCache cfg")
  case (Inr c0)
  obtain c where run: "cache_run marshal ops c0 = Some c" and inv: "cache_inv c" and cfg: "xa_cfg c = Normalize cfg"
    using cache_run_total [OF new_cache_inv(1) [OF Inr], of marshal ops] new_cache_inv(2) [OF Inr] by auto
  have st: "store_ok c" and lim: "int (length (xa_entries c)) \<le> xc_MaxEntries (Normalize cfg)" "xa_bytes c \<le> xc_MaxBytes (Normalize cfg)"
    using inv cfg by (simp_all add: cache_inv_def)
  have ord: "distinct (xa_order c)" "set (xa_order c) = fst ` set (xa_entries c)" "length (xa_order c) = length (xa_entries c)"
    "xa_bytes c = sum_list (map (xe_size \<circ> snd) (xa_entries c))"
    using st distinct_card [of "xa_order c"] distinct_card [of "gm_keys (xa_entries c)"]
    by (simp_all add: store_ok_def gm_keys_def total_size_def)
  have ents: "list_all (\<lambda>(k, e). cas_KeyHash (xe_val e) = k \<and> validateCachedAssessment (xe_val e) = None) (xa_entries c)"
    using st by (auto simp: store_ok_def list_all_iff gm_keys_def)
  have adm: "case Admit marshal key val c of
      None \<Rightarrow> False
    | Some (ok, c') \<Rightarrow> (ok \<longleftrightarrow> admissible marshal key val (Normalize cfg)) \<and> fst (cache_Get now key c') =
        (if ok then (if live now val then Some (val\<lparr>cas_KeyHash := key\<rparr>) else None) else fst (cache_Get now key c))"
  proof (cases "admissible marshal key val (Normalize cfg)")
    case True
    obtain c' e where a: "Admit marshal key val c = Some (True, c')" "xa_cfg c' = Normalize cfg"
      "gm_get (xa_entries c') key = Some e" "xe_val e = val\<lparr>cas_KeyHash := key\<rparr>"
      using Admit_admits [OF inv True [folded cfg]] cfg by auto
    have en: "xc_Enabled (xa_cfg c')" "key \<noteq> []" using True a(2) by (simp_all add: admissible_def)
    show ?thesis using True by (simp add: a(1,3,4) cache_Get_value [OF en] live_def)
  next
    case False
    obtain f where a: "Admit marshal key val c = Some (False, bump f c)" using Admit_rejects [OF False [folded cfg]] by blast
    have "fst (cache_Get now key (bump f c)) = fst (cache_Get now key c)"
      by (simp add: cache_Get_def Let_def split: option.split)
    then show ?thesis using False by (simp add: a)
  qed
  show ?thesis using lim ord ents adm by (simp add: Inr run)
qed simp

section \<open>The key and the provider\<close>

text \<open>No request of the SECURITY class and no fixture request has a key, and spending retry budget does not change one.\<close>

lemma keyed_requests:
  assumes "BuildExactCacheKeyHash std i req = Some k"
  shows "ci_PolicyClass (pq_Input req) \<noteq> PolicyClassSecurity" "\<not> ci_AllowLegacyFixtureIDs (pq_Input req)"
    "pp_StablePrefixHash (pq_Prompt req) \<noteq> []"
  using assms by (auto simp: BuildExactCacheKeyHash_def Let_def EqualFold_def split: if_splits)

lemma key_ignores_retry_budget:
  "BuildExactCacheKeyHash std i (req\<lparr>pq_Input := (pq_Input req)\<lparr>ci_Challenge := Some (c\<lparr>cx_RetryBudget := n\<rparr>)\<rparr>\<rparr>)
   = BuildExactCacheKeyHash std i (req\<lparr>pq_Input := (pq_Input req)\<lparr>ci_Challenge := Some c\<rparr>\<rparr>)"
  by (simp add: BuildExactCacheKeyHash_def key_payload_def challenge_part_def Let_def)

lemma security_bypasses_cache:
  assumes "ci_PolicyClass (pq_Input req) = PolicyClassSecurity" and "ae_ctx env = None"
  shows "caching_Assess std marshal inner i env req c = Some (inner req, c)"
proof -
  have "BuildExactCacheKeyHash std i req = None"
    using keyed_requests(1) assms(1) by (cases "BuildExactCacheKeyHash std i req") auto
  then show ?thesis using assms(2) by (simp add: caching_Assess_def)
qed

lemma hit_rebinds:
  "asm_PromptHash (prs_Assessment (hitResult i hit key req)) = pp_PromptHash (pq_Prompt req)"
  "asm_RulesetHash (prs_Assessment (hitResult i hit key req)) = ci_RulesetHash (pq_Input req)"
  "asm_Severity (prs_Assessment (hitResult i hit key req)) = asm_Severity (cas_Assessment hit)"
  "usg_InputTokens (prs_Usage (hitResult i hit key req)) = 0"
  by (simp_all add: hitResult_def exact_layer_result_def rebind_def zero_usage_def)

text \<open>A failed call leaves nothing behind: an answer with an error or a failure class is not admitted.\<close>

lemma failures_are_not_cached:
  assumes "met_ErrorClass (prs_Meta res) \<noteq> [] \<or> met_FallbackReason (prs_Meta res) \<noteq> []
    \<or> asm_ParseStatus (prs_Assessment res) \<in> {ParseStatusInvalid, ParseStatusError}"
  shows "\<exists>f. tryAdmit marshal now key res c = Some (bump f c)"
  using assms by (auto simp: tryAdmit_def Let_def)

text \<open>Without the single flight a call through the cache returns, whatever the other goroutines do within the
  invariant, and keeps it.\<close>

lemma caching_call_returns:
  assumes "cache_inv c" and "\<not> xc_Singleflight (xa_cfg c)" and "\<And>n d. cache_inv d \<Longrightarrow> cache_inv (ae_others env n d)"
  shows "\<exists>r c'. caching_Assess std marshal inner i env req c = Some (r, c') \<and> cache_inv c'"
proof -
  let ?g = "\<lambda>key. cache_Get (ae_clock env 0) key c"
  have inv: "cache_inv (snd (?g key))" and sf: "\<not> xc_Singleflight (xa_cfg (snd (?g key)))" for key
    using cache_Get_inv [OF assms(1)] cache_Get_cfg assms(2) by simp_all
  have adm: "\<exists>r c'. assessAndAdmit marshal inner env req key (snd (?g key)) = Some (r, c') \<and> cache_inv c'" for key
    using tryAdmit_total [OF assms(3) [OF inv]] assms(3) [OF inv]
    by (fastforce simp: assessAndAdmit_def split: prod.split option.split)
  show ?thesis
    using assms(1) inv sf adm by (auto simp: caching_Assess_def split: option.split prod.split) (metis snd_conv)+
qed

end
