(* ===== verification/ClassifierShadow.thy ===== *)
theory ClassifierShadow
  imports ClassifierResult HookGate
begin

text \<open>
  The shadow resolver (\<open>shadow.go\<close>): Stage 0, an optional Stage 1 call, the deterministic Stage 2. The
  provider is a parameter, a function from the built request to its answer. C40: what the resolver
  decides on every path. The observer is best effort and its result is discarded; the audit handed to
  it is the one of the result.
\<close>

section \<open>Data\<close>

abbreviation SchemaResolvedDecision :: string where "SchemaResolvedDecision \<equiv> ''reinframe.resolved_decision.v1''"
abbreviation DecisionAllow :: string where "DecisionAllow \<equiv> ''ALLOW''"
abbreviation DecisionBlock :: string where "DecisionBlock \<equiv> ''BLOCK''"

record shadow_input =
  shi_SessionID :: string
  shi_Proposed :: proposed_action
  shi_HookGateAction :: string
  shi_PolicyClass :: string
  shi_RulesetID :: string
  shi_RulesetHash :: string
  shi_Stage0Block :: bool
  shi_Stage0Reason :: string
  shi_RecentEventIDs :: "string list"
  shi_RelatedEventIDs :: "string list"
  shi_TaskAnchor :: task_anchor
  shi_ContractRevision :: int
  shi_EvidenceRevision :: int
  shi_RecentEvents :: "event_digest list"
  shi_RelatedEvents :: "event_digest list"
  shi_Threshold :: int
  shi_ProfileID :: string
  shi_UserException :: bool
  shi_RepoPolicyException :: bool
  shi_FlakyInvestigation :: bool
  shi_FixtureName :: string
  shi_AllowLegacyFixtureIDs :: bool

record resolved_decision =
  rsd_SchemaVersion :: string
  rsd_Decision :: string
  rsd_RawSeverity :: int
  rsd_Threshold :: int
  rsd_ReasonCode :: string
  rsd_ResolverReason :: string
  rsd_Feedback :: string
  rsd_Enforced :: bool
  rsd_ProfileID :: string

record shadow_result =
  shr_Raw :: classifier_assessment
  shr_Resolved :: resolved_decision
  shr_Disagreement :: bool
  shr_HookGateAction :: string
  shr_InputHash :: string
  shr_CreatedAt :: time
  shr_ProviderCall :: "provider_call_audit option"
  shr_LastProviderResult :: "provider_result option"

section \<open>The resolver\<close>

definition shadow_defaults :: "shadow_input \<Rightarrow> shadow_input" where
  "shadow_defaults inp = inp\<lparr>
     shi_PolicyClass := (if shi_PolicyClass inp = [] then PolicyClassProductivity else shi_PolicyClass inp),
     shi_Threshold := (if shi_Threshold inp \<le> 0 then 50 else shi_Threshold inp),
     shi_ProfileID := (if shi_ProfileID inp = [] then ''provisional-default'' else shi_ProfileID inp)\<rparr>"

definition hashShadowInput :: "gostd \<Rightarrow> shadow_input \<Rightarrow> string" where
  "hashShadowInput std inp = take 16 (sha256_hex std (json_encode std (JObj
     [(''S'', JStr (shi_SessionID inp)), (''T'', JStr (pa_ToolName (shi_Proposed inp))),
      (''C'', JStr (pa_Command (shi_Proposed inp))), (''A'', JStr (shi_HookGateAction inp))])))"

definition shadow_packet :: "shadow_input \<Rightarrow> classifier_input" where
  "shadow_packet inp =
     (let rid = shi_RulesetID inp; fix = (shi_FixtureName inp = [] \<and> length rid > 8 \<and> take 8 rid = ''fixture:'') in
      \<lparr>ci_SchemaVersion = SchemaClassifierInput, ci_SessionID = shi_SessionID inp,
       ci_FixtureName = (if fix then drop 8 rid else shi_FixtureName inp), ci_PolicyClass = shi_PolicyClass inp,
       ci_RulesetID = (if fix then ''test'' else rid), ci_RulesetHash = shi_RulesetHash inp,
       ci_TaskAnchor = shi_TaskAnchor inp, ci_ContractRevision = shi_ContractRevision inp,
       ci_EvidenceRevision = shi_EvidenceRevision inp, ci_RecentEvents = shi_RecentEvents inp,
       ci_RelatedEvents = shi_RelatedEvents inp,
       ci_Window = \<lparr>wm_EventCount = 0, wm_ByteCount = 0, wm_Truncated = False, wm_OverflowMarker = []\<rparr>,
       ci_RecentEventIDs = shi_RecentEventIDs inp, ci_RelatedEventIDs = shi_RelatedEventIDs inp,
       ci_AllowLegacyFixtureIDs = False, ci_ProposedAction = Some (shi_Proposed inp), ci_Challenge = None,
       ci_UserException = shi_UserException inp, ci_RepoPolicyException = shi_RepoPolicyException inp,
       ci_FlakyInvestigation = shi_FlakyInvestigation inp\<rparr>)"

definition shadow_request :: "gostd \<Rightarrow> shadow_input \<Rightarrow> provider_request go_result" where
  "shadow_request std inp =
     (if shi_AllowLegacyFixtureIDs inp then NewFixtureProviderRequest std (shadow_packet inp)
      else NewProviderRequest std (shadow_packet inp))"

text \<open>The answer after request-bound validation; a result that fails it is marked as a contract failure.\<close>

definition checked_answer ::
  "(provider_request \<Rightarrow> provider_result \<times> assess_error option) \<Rightarrow> provider_request
   \<Rightarrow> provider_result \<times> assess_error option" where
  "checked_answer assess preq =
     (case assess preq of
        (pres, Some e) \<Rightarrow> (pres, Some e)
      | (pres, None) \<Rightarrow>
          (case ValidateProviderResultForRequest preq pres of
             None \<Rightarrow> (pres, None)
           | Some _ \<Rightarrow>
               (pres\<lparr>prs_Meta := (prs_Meta pres)\<lparr>met_ParseStatus := ParseStatusError, met_ErrorClass := ''parse'',
                  met_FallbackReason := ''contract''\<rparr>\<rparr>, Some (ProviderError ''parse''))))"

definition error_class :: "assess_error \<Rightarrow> string" where
  "error_class e =
     (if isAdapterTimeout e then ''timeout''
      else if isParentContextAbort e then ''canceled''
      else case e of ProviderError c \<Rightarrow> c | _ \<Rightarrow> ''transport'')"

definition call_audit ::
  "provider_request \<Rightarrow> provider_result \<Rightarrow> assess_error option \<Rightarrow> string \<Rightarrow> time \<Rightarrow> provider_call_audit" where
  "call_audit preq pres err sess now =
     (let a = BuildProviderCallAudit preq pres sess [] now in
      case err of
        None \<Rightarrow> a
      | Some e \<Rightarrow> a\<lparr>pca_ErrorClass := error_class e, pca_FallbackReason := error_class e,
                    pca_ParseStatus := ParseStatusError\<rparr>)"

definition fail_decision :: "string \<Rightarrow> string \<times> string" where
  "fail_decision cls = (if cls = PolicyClassSecurity then (DecisionBlock, ''fail_closed_security'')
     else (DecisionAllow, ''fail_open_productivity''))"

text \<open>Stage 2 on an answer with status ok: decision, reason code, resolver reason.\<close>

definition threshold_stage :: "shadow_input \<Rightarrow> int \<Rightarrow> string \<times> string \<times> string" where
  "threshold_stage inp severity =
     (if \<not> ValidateSeverity severity
        then (case fail_decision (shi_PolicyClass inp) of (d, why) \<Rightarrow> (d, ''parse_invalid'', why))
      else if severity \<ge> shi_Threshold inp then (DecisionBlock, ''above_threshold'', ''stage1_applied'')
      else (DecisionAllow, ''below_threshold'', ''stage1_applied''))"

definition exception_stage :: "shadow_input \<Rightarrow> string \<times> string \<times> string \<Rightarrow> string \<times> string \<times> string" where
  "exception_stage inp r =
     (if fst r \<noteq> DecisionBlock then r
      else if shi_UserException inp then (DecisionAllow, ''user_exception'', ''user_exception'')
      else if shi_RepoPolicyException inp then (DecisionAllow, ''repo_policy_exception'', ''repo_policy_exception'')
      else if shi_FlakyInvestigation inp then (DecisionAllow, ''flaky_investigation'', ''flaky_investigation'')
      else r)"

definition base_decision :: "shadow_input \<Rightarrow> resolved_decision" where
  "base_decision inp = \<lparr>rsd_SchemaVersion = SchemaResolvedDecision, rsd_Decision = [], rsd_RawSeverity = 0,
     rsd_Threshold = shi_Threshold inp, rsd_ReasonCode = [], rsd_ResolverReason = [], rsd_Feedback = [],
     rsd_Enforced = False, rsd_ProfileID = shi_ProfileID inp\<rparr>"

definition decided :: "shadow_input \<Rightarrow> int \<Rightarrow> string \<times> string \<times> string \<Rightarrow> resolved_decision" where
  "decided inp severity r = (case r of (d, code, why) \<Rightarrow>
     (base_decision inp)\<lparr>rsd_Decision := d, rsd_RawSeverity := severity, rsd_ReasonCode := code, rsd_ResolverReason := why\<rparr>)"

definition shadow_out ::
  "gostd \<Rightarrow> time \<Rightarrow> shadow_input \<Rightarrow> bool \<Rightarrow> classifier_assessment \<Rightarrow> resolved_decision \<Rightarrow> provider_call_audit option
   \<Rightarrow> provider_result option \<Rightarrow> shadow_result" where
  "shadow_out std now inp dis raw res call lastRes =
     \<lparr>shr_Raw = raw, shr_Resolved = res, shr_Disagreement = dis, shr_HookGateAction = shi_HookGateAction inp,
      shr_InputHash = hashShadowInput std inp, shr_CreatedAt = now, shr_ProviderCall = call,
      shr_LastProviderResult = lastRes\<rparr>"

definition disagrees :: "shadow_input \<Rightarrow> resolved_decision \<Rightarrow> bool" where
  "disagrees inp res = ((shi_HookGateAction inp = HookActionDeny) \<noteq> (rsd_Decision res = DecisionBlock))"

definition mark_error :: "classifier_assessment \<Rightarrow> classifier_assessment" where
  "mark_error raw = raw\<lparr>asm_SchemaVersion := (if asm_ParseStatus raw = [] then SchemaRawAssessment else asm_SchemaVersion raw),
     asm_ParseStatus := ParseStatusError\<rparr>"

definition provider_stage ::
  "gostd \<Rightarrow> (provider_request \<Rightarrow> provider_result \<times> assess_error option) \<Rightarrow> time \<Rightarrow> shadow_input
   \<Rightarrow> shadow_result \<times> assess_error option" where
  "provider_stage std assess now inp =
     (let failed = (\<lambda>code. case fail_decision (shi_PolicyClass inp) of (d, why) \<Rightarrow> decided inp 0 (d, code, why));
          finish = (\<lambda>raw res call lastRes. (shadow_out std now inp (disagrees inp res) raw res call lastRes, None))
      in case shadow_request std inp of
           Inl e \<Rightarrow> finish (mark_error zero_assessment) (failed ''provider_unavailable'') None None
         | Inr preq \<Rightarrow>
             (case checked_answer assess preq of (pres, err) \<Rightarrow>
                let raw = prs_Assessment pres; call = Some (call_audit preq pres err (shi_SessionID inp) now) in
                case err of
                  Some e \<Rightarrow>
                    if isParentContextAbort e
                    then (shadow_out std now inp False (mark_error raw)
                            (decided inp 0 (DecisionBlock, ''provider_unavailable'', ''provider_context_canceled''))
                            call (Some pres), Some e)
                    else finish (mark_error raw) (failed ''provider_unavailable'') call (Some pres)
                | None \<Rightarrow>
                    if asm_ParseStatus raw \<noteq> StatusOK then finish raw (failed ''parse_invalid'') call (Some pres)
                    else finish raw (decided inp (asm_Severity raw)
                           (exception_stage inp (threshold_stage inp (asm_Severity raw)))) call (Some pres)))"

definition EvaluateShadow ::
  "gostd \<Rightarrow> (provider_request \<Rightarrow> provider_result \<times> assess_error option) option \<Rightarrow> time \<Rightarrow> shadow_input
   \<Rightarrow> shadow_result \<times> assess_error option" where
  "EvaluateShadow std provider now in0 =
     (let inp = shadow_defaults in0 in
      if shi_Stage0Block inp then
        let res = (decided inp 100 (DecisionBlock, ''above_threshold'', ''stage0_block''))
                    \<lparr>rsd_Feedback := shi_Stage0Reason inp\<rparr> in
        (shadow_out std now inp (disagrees inp res)
           (zero_assessment\<lparr>asm_SchemaVersion := SchemaRawAssessment, asm_Severity := 100, asm_ReasonCode := ''OVER_SOP'',
              asm_ParseStatus := StatusOK, asm_RulesetID := shi_RulesetID inp, asm_RulesetHash := shi_RulesetHash inp\<rparr>)
           res None None, None)
      else case provider of
        None \<Rightarrow>
          (let res = decided inp 0 (DecisionAllow, ''below_threshold'', ''stage0_skip'') in
           (shadow_out std now inp (disagrees inp res)
              (zero_assessment\<lparr>asm_SchemaVersion := SchemaRawAssessment, asm_ReasonCode := ''NORMAL_PROGRESS'',
                 asm_ParseStatus := StatusOK\<rparr>) res None None, None))
      | Some assess \<Rightarrow> provider_stage std assess now inp)"

definition Stage0FullSuiteBlock :: "proposed_action \<Rightarrow> bool \<Rightarrow> bool \<Rightarrow> bool \<times> string" where
  "Stage0FullSuiteBlock pa criteriaMet simpleLowRisk =
     (if \<not> simpleLowRisk \<or> \<not> criteriaMet then (False, [])
      else if FullSuiteCommand pa then (True, ''stage0_over_sop_full_suite'') else (False, []))"

section \<open>What the resolver decides\<close>

lemmas shadow_fields = shadow_out_def decided_def base_decision_def disagrees_def

lemma fail_decision_cases:
  "fail_decision cls = (if cls = PolicyClassSecurity then DecisionBlock else DecisionAllow, snd (fail_decision cls))"
  by (simp add: fail_decision_def)

lemma scored_decision:
  assumes "ValidateSeverity severity"
  shows "fst (exception_stage inp (threshold_stage inp severity)) =
    (if severity \<ge> shi_Threshold inp \<and> \<not> shi_UserException inp \<and> \<not> shi_RepoPolicyException inp \<and> \<not> shi_FlakyInvestigation inp
     then DecisionBlock else DecisionAllow)"
  using assms by (simp add: exception_stage_def threshold_stage_def)

definition legacy_ids :: "shadow_input \<Rightarrow> string list" where
  "legacy_ids inp = (if shi_AllowLegacyFixtureIDs inp then shi_RecentEventIDs inp @ shi_RelatedEventIDs inp else [])"

lemma shadow_request_cases:
  assumes "shadow_request std inp = Inr preq"
  obtains opts where "NewProviderRequestWithOptions std (shadow_packet inp) opts = Inr preq"
    "po_AllowLegacyFixtureIDs opts = shi_AllowLegacyFixtureIDs inp"
  using assms that by (cases "shi_AllowLegacyFixtureIDs inp")
    (simp_all add: shadow_request_def NewFixtureProviderRequest_def NewProviderRequest_def)

text \<open>The evidence the provider was shown is evidence of the caller.\<close>

lemma shown_evidence:
  assumes "shadow_request std inp = Inr preq"
  shows "set (evidenceAllowlistShownOnly (pq_Input preq))
    \<subseteq> eg_EventID ` set (shi_RecentEvents inp @ shi_RelatedEvents inp) \<union> set (legacy_ids inp)"
proof -
  obtain opts where b: "NewProviderRequestWithOptions std (shadow_packet inp) opts = Inr preq"
    and leg: "po_AllowLegacyFixtureIDs opts = shi_AllowLegacyFixtureIDs inp"
    using shadow_request_cases [OF assms] .
  have "set (ci_RecentEvents (pq_Input preq)) \<subseteq> set (shi_RecentEvents inp)"
    "set (ci_RelatedEvents (pq_Input preq)) \<subseteq> set (shi_RelatedEvents inp)"
    using request_packet(1) [OF b] set_append
    by (auto simp: packet_ok_def shadow_packet_def Let_def SortEventDigests_def dest!: arg_cong [of _ _ set])
  moreover have "ci_RecentEvents (pq_Input preq) = [] \<and> ci_RelatedEvents (pq_Input preq) = []
      \<and> ci_AllowLegacyFixtureIDs (pq_Input preq) \<Longrightarrow>
    set (AllowedEvidenceSet (pq_Input preq)) \<subseteq> set (legacy_ids inp)"
    using leg by (auto simp: request_cases(1) [OF b] request_of_def bounded_input_def AllowedEvidenceSet_def legacy_ids_def
        shadow_packet_def Let_def split: if_splits prod.splits)
  ultimately show ?thesis
    by (auto simp: evidenceAllowlistShownOnly_def EvidenceAllowlistFromDigests_def)
qed

lemma request_ruleset:
  assumes "shadow_request std inp = Inr preq"
  shows "ci_RulesetHash (pq_Input preq) = shi_RulesetHash inp"
proof -
  obtain opts where b: "NewProviderRequestWithOptions std (shadow_packet inp) opts = Inr preq"
    using shadow_request_cases [OF assms] .
  show ?thesis
    by (simp add: request_cases(1) [OF b] request_of_def bounded_input_def shadow_packet_def Let_def split: prod.splits)
qed

text \<open>The provider stage, path by path: the request fails, the call is aborted, the call or its validation fails,
  the answer is no score, the answer is a score.\<close>

lemma stage_no_request:
  assumes "shadow_request std inp = Inl e"
  shows "\<exists>out. provider_stage std assess now inp = (out, None) \<and> \<not> rsd_Enforced (shr_Resolved out)
    \<and> rsd_Decision (shr_Resolved out) = fst (fail_decision (shi_PolicyClass inp))"
  using assms by (simp add: provider_stage_def shadow_fields split: prod.splits)

lemma stage_abort:
  assumes "shadow_request std inp = Inr preq" and "assess preq = (pres, Some (CtxError c))"
  shows "\<exists>out. provider_stage std assess now inp = (out, Some (CtxError c)) \<and> \<not> rsd_Enforced (shr_Resolved out)
    \<and> rsd_Decision (shr_Resolved out) = DecisionBlock"
  using assms by (simp add: provider_stage_def checked_answer_def shadow_fields Let_def)

lemma stage_failed:
  assumes "shadow_request std inp = Inr preq" and "checked_answer assess preq = (pres, Some e)" and "\<not> isParentContextAbort e"
  shows "\<exists>out. provider_stage std assess now inp = (out, None) \<and> \<not> rsd_Enforced (shr_Resolved out)
    \<and> rsd_Decision (shr_Resolved out) = fst (fail_decision (shi_PolicyClass inp))"
  using assms by (simp add: provider_stage_def shadow_fields Let_def split: prod.splits)

lemma stage_no_score:
  assumes "shadow_request std inp = Inr preq" and "checked_answer assess preq = (pres, None)"
    and "asm_ParseStatus (prs_Assessment pres) \<noteq> StatusOK"
  shows "\<exists>out. provider_stage std assess now inp = (out, None) \<and> \<not> rsd_Enforced (shr_Resolved out)
    \<and> rsd_Decision (shr_Resolved out) = fst (fail_decision (shi_PolicyClass inp))"
  using assms by (simp add: provider_stage_def shadow_fields Let_def split: prod.splits)

lemma stage_scored:
  assumes "shadow_request std inp = Inr preq" and "checked_answer assess preq = (pres, None)"
    and "asm_ParseStatus (prs_Assessment pres) = StatusOK"
  shows "\<exists>out. provider_stage std assess now inp = (out, None) \<and> \<not> rsd_Enforced (shr_Resolved out)
    \<and> shr_Raw out = prs_Assessment pres
    \<and> rsd_Decision (shr_Resolved out)
        = fst (exception_stage inp (threshold_stage inp (asm_Severity (prs_Assessment pres))))"
  using assms by (simp add: provider_stage_def shadow_fields Let_def split: prod.splits)

definition effective_class :: "shadow_input \<Rightarrow> string" where
  "effective_class inp = (if shi_PolicyClass inp = [] then PolicyClassProductivity else shi_PolicyClass inp)"

definition effective_threshold :: "shadow_input \<Rightarrow> int" where
  "effective_threshold inp = (if shi_Threshold inp \<le> 0 then 50 else shi_Threshold inp)"

definition excepted :: "shadow_input \<Rightarrow> bool" where
  "excepted inp \<longleftrightarrow> shi_UserException inp \<or> shi_RepoPolicyException inp \<or> shi_FlakyInvestigation inp"

lemma shadow_defaults_fields:
  "shi_PolicyClass (shadow_defaults inp) = effective_class inp"
  "shi_Threshold (shadow_defaults inp) = effective_threshold inp"
  "shi_Stage0Block (shadow_defaults inp) = shi_Stage0Block inp" "legacy_ids (shadow_defaults inp) = legacy_ids inp"
  "shi_RecentEvents (shadow_defaults inp) = shi_RecentEvents inp"
  "shi_RelatedEvents (shadow_defaults inp) = shi_RelatedEvents inp"
  "shi_UserException (shadow_defaults inp) = shi_UserException inp"
  "shi_RepoPolicyException (shadow_defaults inp) = shi_RepoPolicyException inp"
  "shi_FlakyInvestigation (shadow_defaults inp) = shi_FlakyInvestigation inp"
  "shi_RulesetHash (shadow_defaults inp) = shi_RulesetHash inp"
  by (simp_all add: shadow_defaults_def effective_class_def effective_threshold_def legacy_ids_def)

lemma failed_class:
  "fst (fail_decision (shi_PolicyClass (shadow_defaults inp))) =
     (if effective_class inp = PolicyClassSecurity then DecisionBlock else DecisionAllow)"
  by (simp add: fail_decision_def shadow_defaults_fields)

lemma scored_path:
  assumes "shadow_request std (shadow_defaults inp) = Inr preq" and "assess preq = (pres, None)"
    and "ValidateProviderResultForRequest preq pres = None" and "asm_ParseStatus (prs_Assessment pres) = StatusOK"
  shows "\<exists>out. provider_stage std assess now (shadow_defaults inp) = (out, None) \<and> \<not> rsd_Enforced (shr_Resolved out)
      \<and> shr_Raw out = prs_Assessment pres
      \<and> rsd_Decision (shr_Resolved out) =
          (if asm_Severity (prs_Assessment pres) \<ge> effective_threshold inp \<and> \<not> excepted inp then DecisionBlock else DecisionAllow)"
    and "asm_PromptHash (prs_Assessment pres) = pp_PromptHash (pq_Prompt preq)"
    and "asm_RulesetHash (prs_Assessment pres) = shi_RulesetHash inp"
    and "set (asm_EvidenceEventIDs (prs_Assessment pres))
      \<subseteq> eg_EventID ` set (shi_RecentEvents inp @ shi_RelatedEvents inp) \<union> set (legacy_ids inp)"
proof -
  have ca: "checked_answer assess preq = (pres, None)" using assms by (simp add: checked_answer_def)
  note ok = result_ok_bound [OF assms(3,4)]
  show "\<exists>out. provider_stage std assess now (shadow_defaults inp) = (out, None) \<and> \<not> rsd_Enforced (shr_Resolved out)
      \<and> shr_Raw out = prs_Assessment pres
      \<and> rsd_Decision (shr_Resolved out) =
          (if asm_Severity (prs_Assessment pres) \<ge> effective_threshold inp \<and> \<not> excepted inp then DecisionBlock else DecisionAllow)"
    using stage_scored [where now = now, OF assms(1) ca assms(4)]
    by (simp only: scored_decision [OF ok(1)] shadow_defaults_fields excepted_def de_Morgan_disj)
  show "asm_PromptHash (prs_Assessment pres) = pp_PromptHash (pq_Prompt preq)" by (rule ok(2))
  show "asm_RulesetHash (prs_Assessment pres) = shi_RulesetHash inp"
    using ok(4) request_ruleset [OF assms(1)] by (simp add: shadow_defaults_fields)
  show "set (asm_EvidenceEventIDs (prs_Assessment pres))
      \<subseteq> eg_EventID ` set (shi_RecentEvents inp @ shi_RelatedEvents inp) \<union> set (legacy_ids inp)"
    using order_trans [OF ok(6) shown_evidence [OF assms(1)]] by (simp add: shadow_defaults_fields)
qed

lemma provider_path:
  "case provider_stage std assess now (shadow_defaults inp) of
     (out, err) \<Rightarrow>
       let blocked = (rsd_Decision (shr_Resolved out) = DecisionBlock);
           closed = (effective_class inp = PolicyClassSecurity) in
         \<not> rsd_Enforced (shr_Resolved out) \<and> rsd_Decision (shr_Resolved out) \<in> {DecisionAllow, DecisionBlock}
       \<and>
              (case shadow_request std (shadow_defaults inp) of
                 Inl e \<Rightarrow> err = None \<and> blocked = closed
               | Inr preq \<Rightarrow>
                   (case assess preq of
                      (pres, Some (CtxError c)) \<Rightarrow> blocked \<and> err = Some (CtxError c)
                    | (pres, Some e) \<Rightarrow> err = None \<and> blocked = closed
                    | (pres, None) \<Rightarrow>
                        err = None
                        \<and> (let raw = prs_Assessment pres in
                           if ValidateProviderResultForRequest preq pres = None \<and> asm_ParseStatus raw = StatusOK
                           then blocked = (asm_Severity raw \<ge> effective_threshold inp \<and> \<not> excepted inp)
                             \<and> shr_Raw out = raw \<and> asm_PromptHash raw = pp_PromptHash (pq_Prompt preq)
                             \<and> asm_RulesetHash raw = shi_RulesetHash inp
                             \<and> set (asm_EvidenceEventIDs raw)
                                 \<subseteq> eg_EventID ` set (shi_RecentEvents inp @ shi_RelatedEvents inp) \<union> set (legacy_ids inp)
                           else blocked = closed)))"
proof (cases "shadow_request std (shadow_defaults inp)")
  case (Inl e)
  from stage_no_request [OF Inl, of assess now] show ?thesis by (auto simp: Inl Let_def failed_class split: if_splits)
next
  case (Inr preq)
  obtain pres eo where a: "assess preq = (pres, eo)" by fastforce
  consider (abort) c where "eo = Some (CtxError c)"
    | (failed) e where "eo = Some e" "\<not> isParentContextAbort e"
    | (bad) "eo = None" "ValidateProviderResultForRequest preq pres \<noteq> None"
    | (noscore) "eo = None" "ValidateProviderResultForRequest preq pres = None" "asm_ParseStatus (prs_Assessment pres) \<noteq> StatusOK"
    | (scored) "eo = None" "ValidateProviderResultForRequest preq pres = None" "asm_ParseStatus (prs_Assessment pres) = StatusOK"
    using abort_iff_parent by (cases eo) auto
  then show ?thesis
  proof cases
    case abort
    from stage_abort [where assess = assess and now = now, OF Inr a [unfolded abort]] show ?thesis by (auto simp: Inr a abort Let_def)
  next
    case failed
    have "checked_answer assess preq = (pres, Some e)" by (simp add: checked_answer_def a failed)
    from stage_failed [OF Inr this failed(2), of now] show ?thesis
      using failed(2) by (cases e) (auto simp: Inr a failed(1) Let_def failed_class split: if_splits)
  next
    case bad
    then obtain pres' where "checked_answer assess preq = (pres', Some (ProviderError ''parse''))"
      by (auto simp: checked_answer_def a)
    from stage_failed [OF Inr this, of now] bad show ?thesis by (auto simp: Inr a Let_def failed_class split: if_splits)
  next
    case noscore
    have "checked_answer assess preq = (pres, None)" by (simp add: checked_answer_def a noscore)
    from stage_no_score [OF Inr this noscore(3), of now] noscore show ?thesis by (auto simp: Inr a Let_def failed_class split: if_splits)
  next
    case scored
    note sp = scored_path [where assess = assess, OF Inr a [unfolded scored(1)] scored(2,3)]
    obtain out where out: "provider_stage std assess now (shadow_defaults inp) = (out, None)" "\<not> rsd_Enforced (shr_Resolved out)"
      "shr_Raw out = prs_Assessment pres" "rsd_Decision (shr_Resolved out) =
          (if asm_Severity (prs_Assessment pres) \<ge> effective_threshold inp \<and> \<not> excepted inp then DecisionBlock else DecisionAllow)"
      using sp(1) [where now = now] by blast
    show ?thesis using out(2-) sp(2-) scored(2,3) by (simp add: out(1) Inr a scored(1) Let_def)
  qed
qed

text \<open>C40: What the shadow resolver decides, for every provider and every answer. It never enforces. A Stage 0
  block is a block and asks nobody; without a provider the action is allowed. If the request cannot be
  built, the call fails, or the answer does not fit this very request or is not a score, SECURITY
  blocks and every other class allows, and an abort of the caller's context blocks whatever the class
  and is returned to the caller. A valid score blocks exactly when it reaches the threshold (50 unless
  one is set) and no exception holds; such a score is for the prompt and ruleset that were sent, and
  names only events the caller supplied.\<close>

theorem shadow_resolution:
  "case EvaluateShadow std provider now inp of
     (out, err) \<Rightarrow>
       let blocked = (rsd_Decision (shr_Resolved out) = DecisionBlock);
           closed = (effective_class inp = PolicyClassSecurity) in
         \<not> rsd_Enforced (shr_Resolved out) \<and> rsd_Decision (shr_Resolved out) \<in> {DecisionAllow, DecisionBlock}
       \<and> (if shi_Stage0Block inp then blocked \<and> err = None \<and> shr_ProviderCall out = None
          else case provider of
            None \<Rightarrow> \<not> blocked \<and> err = None
          | Some assess \<Rightarrow>
              (case shadow_request std (shadow_defaults inp) of
                 Inl e \<Rightarrow> err = None \<and> blocked = closed
               | Inr preq \<Rightarrow>
                   (case assess preq of
                      (pres, Some (CtxError c)) \<Rightarrow> blocked \<and> err = Some (CtxError c)
                    | (pres, Some e) \<Rightarrow> err = None \<and> blocked = closed
                    | (pres, None) \<Rightarrow>
                        err = None
                        \<and> (let raw = prs_Assessment pres in
                           if ValidateProviderResultForRequest preq pres = None \<and> asm_ParseStatus raw = StatusOK
                           then blocked = (asm_Severity raw \<ge> effective_threshold inp \<and> \<not> excepted inp)
                             \<and> shr_Raw out = raw \<and> asm_PromptHash raw = pp_PromptHash (pq_Prompt preq)
                             \<and> asm_RulesetHash raw = shi_RulesetHash inp
                             \<and> set (asm_EvidenceEventIDs raw)
                                 \<subseteq> eg_EventID ` set (shi_RecentEvents inp @ shi_RelatedEvents inp) \<union> set (legacy_ids inp)
                           else blocked = closed))))"
proof (cases "shi_Stage0Block inp")
  case True
  then show ?thesis by (simp add: EvaluateShadow_def Let_def shadow_defaults_fields shadow_fields)
next
  case s0: False
  show ?thesis
  proof (cases provider)
    case None
    then show ?thesis using s0 by (simp add: EvaluateShadow_def Let_def shadow_defaults_fields shadow_fields)
  next
    case (Some assess)
    then have "EvaluateShadow std provider now inp = provider_stage std assess now (shadow_defaults inp)"
      using s0 by (simp add: EvaluateShadow_def Let_def shadow_defaults_fields)
    then show ?thesis using provider_path [where std = std and assess = assess and now = now and inp = inp] s0 Some by simp
  qed
qed

end
