(* ===== verification/ClaudeBridge.thy ===== *)
theory ClaudeBridge
  imports HookGate ChallengeWitnesses
begin

text \<open>
  The Claude host: how a PreToolUse document becomes a tool call (\<open>pkg/adapter/claude_bridge.go\<close>), how a
  decision becomes an answer (\<open>claude_hook_response.go\<close>), and the bridge that opens challenges and
  serves their retry turns (\<open>pkg/challenge/claude_challenge.go\<close>). The context, the gate's schedule and
  the environments of the service calls are the record \<open>bridge_env\<close>. \<open>encoding/json\<close> is the parameter
  \<open>gostd\<close>, a decoded object having each key once. C18: when the host is told to go ahead.
\<close>

section \<open>Answers\<close>

record claude_challenge_context =
  cc_ChallengeID :: string
  cc_ChallengeNonce :: string
  cc_Reason :: string
  cc_SuggestedFix :: string
  cc_OneShotRetryAllowed :: bool

record hook_specific_output =
  ho_HookEventName :: string
  ho_PermissionDecision :: string
  ho_PermissionDecisionReason :: string
  ho_AdditionalContext :: string

record reinframe_meta =
  rn_Action :: string
  rn_ReasonCode :: string
  rn_InterventionID :: string
  rn_SessionID :: string
  rn_ToolName :: string
  rn_TransportLevel :: string
  rn_Challenge :: "claude_challenge_context option"

record claude_hook_response =
  cl_Continue :: "bool option"
  cl_Decision :: string
  cl_Reason :: string
  cl_HookSpecificOutput :: "hook_specific_output option"
  cl_Reinframe :: "reinframe_meta option"

record claude_response_options =
  cr_Profile :: string
  cr_HostMode :: string
  cr_NativeDefer :: bool
  cr_FailOpenProductivity :: bool
  cr_Challenge :: "claude_challenge_context option"
  cr_TransportLevel :: string

abbreviation TransportAdditionalContext :: string where "TransportAdditionalContext \<equiv> ''hook_additional_context''"
abbreviation TransportNativeDefer :: string where "TransportNativeDefer \<equiv> ''native_defer''"
abbreviation TransportDegradedDeny :: string where "TransportDegradedDeny \<equiv> ''degraded_deny''"
abbreviation TransportDirectDeny :: string where "TransportDirectDeny \<equiv> ''direct_deny''"
abbreviation TransportDirectAllow :: string where "TransportDirectAllow \<equiv> ''direct_allow''"
abbreviation HostModeInteractive :: string where "HostModeInteractive \<equiv> ''interactive''"
abbreviation HostModeHeadless :: string where "HostModeHeadless \<equiv> ''headless''"
abbreviation HostModeUnknown :: string where "HostModeUnknown \<equiv> ''unknown''"
abbreviation ClaudeHookProfileV1 :: string where "ClaudeHookProfileV1 \<equiv> ''reinframe.claude_hook_response.v1''"

definition MaxHookReasonRunes :: nat where "MaxHookReasonRunes = 500"
definition MaxHookContextRunes :: nat where "MaxHookContextRunes = 2000"

definition secret_marks :: "string list" where
  "secret_marks = [''password='', ''api_key='', ''authorization:'', ''bearer '']"

definition bound_text :: "string \<Rightarrow> nat \<Rightarrow> string \<Rightarrow> string" where
  "bound_text redacted mx s0 =
     (let s = TrimSpace s0 in
      if s = [] then []
      else if list_ex (Contains (ToLower s)) secret_marks then redacted
      else boundRunes s mx)"

definition boundReason :: "string \<Rightarrow> string" where
  "boundReason s = bound_text ''redacted_reason'' MaxHookReasonRunes s"

definition boundContext :: "string \<Rightarrow> string" where
  "boundContext s = bound_text ''redacted_context'' MaxHookContextRunes s"

definition nl :: string where "nl = [CHR 0x0A]"

definition FormatAdditionalContext :: "claude_challenge_context \<Rightarrow> string" where
  "FormatAdditionalContext c =
     (if cc_ChallengeID c = [] then []
      else boundContext
        (''[Reinframe Appealable Challenge]'' @ nl @ ''challenge_id: '' @ cc_ChallengeID c @ nl
         @ (if cc_ChallengeNonce c \<noteq> [] then ''challenge_nonce: '' @ cc_ChallengeNonce c @ nl else [])
         @ (if cc_Reason c \<noteq> [] then ''reason: '' @ cc_Reason c @ nl else [])
         @ (if cc_SuggestedFix c \<noteq> [] then ''suggested_fix: '' @ cc_SuggestedFix c @ nl else [])
         @ ''one_shot_retry_allowed: '' @ (if cc_OneShotRetryAllowed c then ''true'' else ''false'') @ nl
         @ (if cc_OneShotRetryAllowed c
            then ''To appeal and retry this action once, provide your justification with challenge_id and ''
              @ ''challenge_nonce in your next tool call.'' @ nl
            else [])))"

definition isProductivityTimeout :: "string \<Rightarrow> bool" where
  "isProductivityTimeout reason =
     (let r = ToLower reason in r = ReasonTimeoutFailOpen \<or> r = ''timeout'' \<or> Contains r ''timeout_productivity'')"

section \<open>Tool calls\<close>

record claude_pretool_input =
  cp_Phase :: string
  cp_SessionID :: string
  cp_ToolName :: string
  cp_ToolUseID :: string
  cp_FilePath :: string
  cp_RawToolInput :: string
  cp_Proposed :: "proposed_action option"
  cp_ChallengeID :: string
  cp_ChallengeNonce :: string
  cp_Justification :: "justification_input option"

fun firstString :: "(string \<times> json) list \<Rightarrow> string list \<Rightarrow> string" where
  "firstString m [] = []"
| "firstString m (k # ks) =
     (case map_of m k of Some (JStr t) \<Rightarrow> if t \<noteq> [] then t else firstString m ks | _ \<Rightarrow> firstString m ks)"

definition toStringSlice :: "json \<Rightarrow> string list" where
  "toStringSlice v =
     (case v of
        JArr xs \<Rightarrow> filter (\<lambda>s. s \<noteq> []) (string_elems xs)
      | JStr s \<Rightarrow> if s \<noteq> [] then [s] else []
      | _ \<Rightarrow> [])"

definition empty_justification_input :: justification_input where
  "empty_justification_input = \<lparr>ji_ConcreteValue = [], ji_PreventedFailureOrThreat = [], ji_EstimatedCost = [],
     ji_AlternativesConsidered = [], ji_ScopeLimit = [], ji_VerificationPlan = [], ji_RollbackPlan = [],
     ji_SupportingEvidenceEventIDs = [], ji_RawText = []\<rparr>"

definition justification_of_map :: "(string \<times> json) list \<Rightarrow> justification_input" where
  "justification_of_map m =
     \<lparr>ji_ConcreteValue = firstString m [''concrete_value'', ''concreteValue'', ''value''],
      ji_PreventedFailureOrThreat =
        firstString m [''prevented_failure_or_threat'', ''preventedFailureOrThreat'', ''threat'', ''prevented_failure''],
      ji_EstimatedCost = firstString m [''estimated_cost'', ''estimatedCost'', ''cost''],
      ji_AlternativesConsidered = firstString m [''alternatives_considered'', ''alternativesConsidered'', ''alternatives''],
      ji_ScopeLimit = firstString m [''scope_limit'', ''scopeLimit'', ''scope''],
      ji_VerificationPlan = firstString m [''verification_plan'', ''verificationPlan'', ''verification''],
      ji_RollbackPlan = firstString m [''rollback_plan'', ''rollbackPlan'', ''rollback''],
      ji_SupportingEvidenceEventIDs =
        (case map_of m ''supporting_evidence_event_ids'' of
           Some ev \<Rightarrow> toStringSlice ev
         | None \<Rightarrow> (case map_of m ''evidence_ids'' of
             Some ev \<Rightarrow> toStringSlice ev
           | None \<Rightarrow> (case map_of m ''evidence'' of Some ev \<Rightarrow> toStringSlice ev | None \<Rightarrow> []))),
      ji_RawText = []\<rparr>"

definition parseJustificationInput :: "gostd \<Rightarrow> json option \<Rightarrow> justification_input option" where
  "parseJustificationInput std v =
     (case v of
        Some (JStr s0) \<Rightarrow>
          (let s = TrimSpace s0 in
           if s = [] then None
           else case json_decode std s of
             Some (JObj m) \<Rightarrow> if m \<noteq> [] then Some (justification_of_map m) else Some (empty_justification_input\<lparr>ji_RawText := s\<rparr>)
           | _ \<Rightarrow> Some (empty_justification_input\<lparr>ji_RawText := s\<rparr>))
      | Some (JObj m) \<Rightarrow> Some (justification_of_map m)
      | _ \<Rightarrow> None)"

text \<open>The fields a nested tool input may supply when the document itself does not have them.\<close>

definition if_missing :: "string \<Rightarrow> string \<Rightarrow> string" where
  "if_missing a b = (if a = [] then b else a)"

definition justification_in :: "gostd \<Rightarrow> justification_input option \<Rightarrow> (string \<times> json) list \<Rightarrow> justification_input option" where
  "justification_in std j t =
     (case j of
        Some x \<Rightarrow> Some x
      | None \<Rightarrow> (case parseJustificationInput std (map_of t ''justification'') of
          Some x \<Rightarrow> Some x | None \<Rightarrow> parseJustificationInput std (map_of t ''_justification'')))"

definition absorb :: "gostd \<Rightarrow> (string \<times> json) list \<Rightarrow> claude_pretool_input \<Rightarrow> claude_pretool_input" where
  "absorb std t inp = inp\<lparr>
     cp_ToolName := if_missing (cp_ToolName inp) (firstString t [''tool_name'', ''name'']),
     cp_FilePath := if_missing (cp_FilePath inp) (firstString t [''file_path'', ''filePath'', ''path'']),
     cp_ChallengeID := if_missing (cp_ChallengeID inp) (firstString t [''challenge_id'', ''challengeId'', ''_challenge_id'']),
     cp_ChallengeNonce := if_missing (cp_ChallengeNonce inp)
       (firstString t [''challenge_nonce'', ''challengeNonce'', ''_challenge_nonce'', ''nonce'']),
     cp_Justification := justification_in std (cp_Justification inp) t\<rparr>"

definition clip400 :: "string \<Rightarrow> string" where
  "clip400 s = (if length s > 400 then take 400 s @ ellipsis else s)"

definition pretool_base :: "gostd \<Rightarrow> (string \<times> json) list \<Rightarrow> claude_pretool_input" where
  "pretool_base std m =
     \<lparr>cp_Phase = ''PreTool'', cp_SessionID = firstString m [''session_id'', ''sessionId'', ''sessionID''],
      cp_ToolName = firstString m [''tool_name'', ''toolName'', ''tool''],
      cp_ToolUseID = firstString m [''tool_use_id'', ''toolUseId'', ''id''], cp_FilePath = [], cp_RawToolInput = [],
      cp_Proposed = None, cp_ChallengeID = firstString m [''challenge_id'', ''challengeId'', ''_challenge_id''],
      cp_ChallengeNonce = firstString m [''challenge_nonce'', ''challengeNonce'', ''_challenge_nonce'', ''nonce''],
      cp_Justification = justification_in std None m\<rparr>"

definition top_path :: "(string \<times> json) list \<Rightarrow> claude_pretool_input \<Rightarrow> claude_pretool_input" where
  "top_path m inp =
     (let p = firstString m [''file_path'', ''filePath'', ''path''] in
      inp\<lparr>cp_FilePath := (if TrimSpace (cp_FilePath inp) \<noteq> [] then cp_FilePath inp else if TrimSpace p \<noteq> [] then p else [])\<rparr>)"

text \<open>The input with its nested fields, and the tool input handed on, if any.\<close>

definition pretool_fields :: "gostd \<Rightarrow> (string \<times> json) list \<Rightarrow> claude_pretool_input \<times> json option" where
  "pretool_fields std m =
     (let in0 = pretool_base std m in
      case map_of m ''tool_input'' of
        Some (JObj t) \<Rightarrow>
          ((top_path m (absorb std t in0))\<lparr>cp_RawToolInput := clip400 (json_encode std (JObj t))\<rparr>, Some (JObj t))
      | _ \<Rightarrow>
          (let in1 = top_path m in0; s = firstString m [''tool_input'', ''toolInput'']; c = clip400 s in
           if s = [] then (in1, None)
           else case json_decode std c of
             None \<Rightarrow> (in1\<lparr>cp_RawToolInput := c\<rparr>, None)
           | Some JNull \<Rightarrow> (in1\<lparr>cp_RawToolInput := c\<rparr>, None)
           | Some (JObj t) \<Rightarrow> (absorb std t (in1\<lparr>cp_RawToolInput := c\<rparr>), Some (JObj t))
           | Some v \<Rightarrow> (in1\<lparr>cp_RawToolInput := c\<rparr>, Some v)))"

definition control_keys :: "string list" where
  "control_keys = [''challenge_id'', ''challengeid'', ''_challenge_id'', ''challenge_nonce'', ''challengenonce'',
     ''_challenge_nonce'', ''nonce'', ''justification'', ''_justification'']"

definition cleanToolInputMap :: "(string \<times> json) list \<Rightarrow> (string \<times> json) list" where
  "cleanToolInputMap m = filter (\<lambda>(k, v). ToLower (TrimSpace k) \<notin> set control_keys) m"

definition clean_input :: "json option \<Rightarrow> json option" where
  "clean_input v = (case v of Some (JObj t) \<Rightarrow> Some (JObj (cleanToolInputMap t)) | _ \<Rightarrow> v)"

definition MapClaudePreToolUseJSON :: "gostd \<Rightarrow> string \<Rightarrow> claude_pretool_input go_result" where
  "MapClaudePreToolUseJSON std raw =
     (case (case json_decode std raw of Some (JObj m) \<Rightarrow> Some m | Some JNull \<Rightarrow> Some [] | _ \<Rightarrow> None) of
        None \<Rightarrow> Inl ''claude pretool json''
      | Some m \<Rightarrow>
          (case pretool_fields std m of (inp, ti) \<Rightarrow>
             if cp_SessionID inp = [] then Inl ''claude pretool: session_id required''
             else if cp_ToolName inp = [] then Inl ''claude pretool: tool_name required''
             else case ProposedActionFromClaudePreTool std (cp_SessionID inp) (cp_ToolName inp) (cp_FilePath inp)
                 (cp_RawToolInput inp) (clean_input ti)
                 \<lparr>po_WorkspaceRevision = [], po_ContractRevision = 0, po_TargetScope = [], po_ActionID = []\<rparr> of
               Inl e \<Rightarrow> Inl e
             | Inr pa \<Rightarrow> Inr (inp\<lparr>cp_Proposed := Some pa, cp_FilePath := if_missing (cp_FilePath inp) (pa_FilePath pa)\<rparr>)))"

definition HookRequestFromProposedAction :: "proposed_action \<Rightarrow> string \<Rightarrow> hook_request" where
  "HookRequestFromProposedAction pa phase =
     \<lparr>hq_SessionID = pa_SessionID pa, hq_Phase = (if phase = [] then ''PreTool'' else phase), hq_ToolName = pa_ToolName pa,
      hq_FilePath = pa_FilePath pa, hq_Proposed = None, hq_ChallengeID = [], hq_ChallengeNonce = [], hq_Justification = None\<rparr>"

definition HookRequestFromClaudePreTool :: "claude_pretool_input \<Rightarrow> hook_request" where
  "HookRequestFromClaudePreTool inp =
     (case cp_Proposed inp of
        Some pa \<Rightarrow> (HookRequestFromProposedAction pa ''PreTool'')\<lparr>hq_Proposed := Some pa\<rparr>
      | None \<Rightarrow> \<lparr>hq_SessionID = cp_SessionID inp, hq_Phase = ''PreTool'', hq_ToolName = cp_ToolName inp,
          hq_FilePath = cp_FilePath inp, hq_Proposed = None, hq_ChallengeID = [], hq_ChallengeNonce = [], hq_Justification = None\<rparr>)
     \<lparr>hq_ChallengeID := cp_ChallengeID inp, hq_ChallengeNonce := cp_ChallengeNonce inp,
      hq_Justification := cp_Justification inp\<rparr>"

section \<open>From a decision to an answer\<close>

definition plain_decision :: "string \<Rightarrow> string \<Rightarrow> hook_decision" where
  "plain_decision action reason = \<lparr>hd_Action = action, hd_ReasonCode = reason, hd_InterventionID = [], hd_Deadline = None\<rparr>"

definition host_decision :: "claude_response_options \<Rightarrow> hook_decision \<Rightarrow> hook_decision" where
  "host_decision opts d0 =
     (let d1 = (if cr_HostMode opts = HostModeUnknown \<and> hd_Action d0 \<noteq> HookActionAllow
                then plain_decision HookActionDeny ''unsupported_host_version'' else d0)
      in if cr_FailOpenProductivity opts \<and> isProductivityTimeout (hd_ReasonCode d1)
         then plain_decision HookActionAllow ReasonTimeoutFailOpen else d1)"

definition native_ask :: "claude_response_options \<Rightarrow> bool" where
  "native_ask opts \<longleftrightarrow> cr_NativeDefer opts \<and> cr_HostMode opts = HostModeInteractive"

definition transport_level :: "claude_response_options \<Rightarrow> string \<Rightarrow> string" where
  "transport_level opts action =
     (if cr_TransportLevel opts \<noteq> [] then cr_TransportLevel opts
      else if action = HookActionAllow then TransportDirectAllow
      else if cr_Challenge opts \<noteq> None then TransportAdditionalContext
      else if action = HookActionDefer \<and> native_ask opts then TransportNativeDefer
      else if action = HookActionDefer then TransportDegradedDeny
      else TransportDirectDeny)"

definition specific :: "string \<Rightarrow> string \<Rightarrow> string \<Rightarrow> hook_specific_output option" where
  "specific permission reason context = Some \<lparr>ho_HookEventName = ''PreToolUse'', ho_PermissionDecision = permission,
     ho_PermissionDecisionReason = reason, ho_AdditionalContext = context\<rparr>"

definition host_options :: "claude_response_options \<Rightarrow> claude_response_options" where
  "host_options opts = opts\<lparr>cr_Profile := (if cr_Profile opts = [] then ClaudeHookProfileV1 else cr_Profile opts),
     cr_HostMode := (if cr_HostMode opts = [] then HostModeHeadless else cr_HostMode opts)\<rparr>"

definition ClaudeHookResponseFromDecisionOpts ::
  "claude_pretool_input \<Rightarrow> hook_decision \<Rightarrow> claude_response_options \<Rightarrow> claude_hook_response" where
  "ClaudeHookResponseFromDecisionOpts inp d0 opts0 =
     (let opts = host_options opts0;
          d = host_decision opts d0; reason = boundReason (hd_ReasonCode d);
          context = (case cr_Challenge opts of None \<Rightarrow> [] | Some c \<Rightarrow> FormatAdditionalContext c);
          resp = \<lparr>cl_Continue = None, cl_Decision = [], cl_Reason = reason, cl_HookSpecificOutput = None,
            cl_Reinframe = Some \<lparr>rn_Action = hd_Action d, rn_ReasonCode = hd_ReasonCode d, rn_InterventionID = hd_InterventionID d,
              rn_SessionID = cp_SessionID inp, rn_ToolName = cp_ToolName inp,
              rn_TransportLevel = transport_level opts (hd_Action d), rn_Challenge = cr_Challenge opts\<rparr>\<rparr>
      in if hd_Action d = HookActionAllow
           then resp\<lparr>cl_Decision := ''approve'', cl_HookSpecificOutput := specific ''allow'' reason context\<rparr>
         else if hd_Action d = HookActionDefer then
           (if native_ask opts
            then let r = boundReason (''defer:'' @ hd_ReasonCode d) in
              resp\<lparr>cl_Decision := ''block'', cl_Reason := r, cl_HookSpecificOutput := specific ''ask'' r []\<rparr>
            else let r = boundReason (''defer_degraded:'' @ hd_ReasonCode d) in
              resp\<lparr>cl_Decision := ''block'', cl_Reason := r, cl_HookSpecificOutput := specific ''deny'' r []\<rparr>)
         else if hd_Action d = HookActionDeny
           then resp\<lparr>cl_Decision := ''block'', cl_HookSpecificOutput := specific ''deny'' reason context\<rparr>
         else resp\<lparr>cl_Decision := ''approve'', cl_HookSpecificOutput := specific ''allow'' [] []\<rparr>)"

definition ClaudeHookResponseFromDecision :: "claude_pretool_input \<Rightarrow> hook_decision \<Rightarrow> claude_hook_response" where
  "ClaudeHookResponseFromDecision inp d = ClaudeHookResponseFromDecisionOpts inp d
     \<lparr>cr_Profile = ClaudeHookProfileV1, cr_HostMode = HostModeHeadless, cr_NativeDefer = False,
      cr_FailOpenProductivity = False, cr_Challenge = None, cr_TransportLevel = []\<rparr>"

definition ValidateClaudeHookResponseClosedSchema :: "claude_hook_response \<Rightarrow> go_error option" where
  "ValidateClaudeHookResponseClosedSchema resp =
     (if cl_Continue resp = Some False then Some ''claude hook response: continue:false is forbidden for tool-level decisions (session stop)''
      else if cl_Decision resp \<notin> {[], ''approve'', ''block''} then Some ''claude hook response: unknown decision''
      else case (case cl_HookSpecificOutput resp of
          None \<Rightarrow> None
        | Some h \<Rightarrow>
            if ho_PermissionDecision h \<notin> {[], ''allow'', ''deny'', ''ask''}
              then Some ''claude hook response: unknown permissionDecision''
            else if ho_HookEventName h \<notin> {[], ''PreToolUse''} then Some ''claude hook response: unexpected hookEventName''
            else if RuneCount (ho_AdditionalContext h) > MaxHookContextRunes
              then Some ''claude hook response: additionalContext too long''
            else None) of
        Some e \<Rightarrow> Some e
      | None \<Rightarrow> if RuneCount (cl_Reason resp) > MaxHookReasonRunes then Some ''claude hook response: reason too long'' else None)"

section \<open>The bridge\<close>

record bridge_options =
  bo_KnownEvidenceIDs :: "string list"
  bo_ReEvalContext :: "reeval_context option"
  bo_DefaultBlockClass :: string
  bo_DefaultPolicyClass :: string
  bo_PolicyVersion :: string
  bo_RulesetHash :: string
  bo_Branch :: string
  bo_ExpiresAfterSequences :: int

record bridge_config =
  bg_Policy :: hook_policy
  bg_Evaluate :: "(hook_request \<Rightarrow> hook_decision) option"
  bg_Response :: claude_response_options

record bridge_env =
  bv_ctxBefore :: "go_error option"
  bv_ctxAfter :: "go_error option"
  bv_hookCtx :: bool
  bv_race :: hook_race
  bv_open :: env
  bv_justify :: env
  bv_retry :: env
  bv_others :: "nat \<Rightarrow> store \<Rightarrow> store"

type_synonym bridge_answer = "claude_hook_response \<times> hook_decision \<times> bool \<times> go_error option"

definition empty_response :: claude_hook_response where
  "empty_response = \<lparr>cl_Continue = None, cl_Decision = [], cl_Reason = [], cl_HookSpecificOutput = None, cl_Reinframe = None\<rparr>"

definition JustificationFromClaudeInput :: "string \<Rightarrow> justification_input option \<Rightarrow> justification" where
  "JustificationFromClaudeInput chID inp =
     (case inp of
        None \<Rightarrow> empty_justification\<lparr>ju_SchemaVersion := SchemaJustification, ju_ChallengeID := chID\<rparr>
      | Some j \<Rightarrow>
          empty_justification\<lparr>ju_SchemaVersion := SchemaJustification, ju_ChallengeID := chID,
            ju_ConcreteValue := ji_ConcreteValue j, ju_PreventedFailureOrThreat := ji_PreventedFailureOrThreat j,
            ju_EstimatedCost := ji_EstimatedCost j, ju_AlternativesConsidered := ji_AlternativesConsidered j,
            ju_ScopeLimit := ji_ScopeLimit j, ju_VerificationPlan := ji_VerificationPlan j,
            ju_RollbackPlan := ji_RollbackPlan j, ju_SupportingEvidenceEventIDs := ji_SupportingEvidenceEventIDs j\<rparr>)"

definition ChallengeContextFromRecord :: "challenge \<Rightarrow> claude_challenge_context" where
  "ChallengeContextFromRecord rec =
     \<lparr>cc_ChallengeID = ch_ChallengeID rec, cc_ChallengeNonce = ch_ChallengeNonce rec, cc_Reason = ch_ReasonCode rec,
      cc_SuggestedFix = ch_SuggestedFix rec,
      cc_OneShotRetryAllowed = (ch_Appealability rec = AppealAppealable \<and> ch_RetryBudget rec > 0)\<rparr>"

definition gate_decision :: "bridge_env \<Rightarrow> bridge_config \<Rightarrow> claude_pretool_input \<Rightarrow> hook_decision" where
  "gate_decision env cfg inp =
     (let req = HookRequestFromClaudePreTool inp in
      case bg_Evaluate cfg of Some f \<Rightarrow> f req | None \<Rightarrow> EvaluateHook (bv_hookCtx env) (bv_race env) req (bg_Policy cfg))"

definition proposed_of :: "claude_pretool_input \<Rightarrow> proposed_action" where
  "proposed_of inp =
     (case cp_Proposed inp of
        Some pa \<Rightarrow> pa
      | None \<Rightarrow> empty_action\<lparr>pa_SessionID := cp_SessionID inp, pa_ToolName := cp_ToolName inp, pa_FilePath := cp_FilePath inp\<rparr>)"

definition tagged :: "bridge_config \<Rightarrow> string \<Rightarrow> claude_response_options" where
  "tagged cfg level = (bg_Response cfg)\<lparr>cr_TransportLevel := level\<rparr>"

definition denied :: "bridge_config \<Rightarrow> claude_pretool_input \<Rightarrow> string \<Rightarrow> go_error option \<Rightarrow> bridge_answer" where
  "denied cfg inp reason err =
     (let d = plain_decision HookActionDeny reason in
      (ClaudeHookResponseFromDecisionOpts inp d (tagged cfg TransportAdditionalContext), d, True, err))"

definition bridge_open_request :: "bridge_options \<Rightarrow> claude_pretool_input \<Rightarrow> hook_decision \<Rightarrow> open_request" where
  "bridge_open_request opts inp d =
     \<lparr>or_SessionID = cp_SessionID inp, or_Proposed = proposed_of inp,
      or_BlockClass = (if bo_DefaultBlockClass opts = [] then hd_ReasonCode d else bo_DefaultBlockClass opts),
      or_ReasonCode = hd_ReasonCode d, or_SuggestedFix = [], or_ChallengeNonce = [],
      or_PolicyClass = bo_DefaultPolicyClass opts, or_RequiredClaims = [], or_PolicyVersion = bo_PolicyVersion opts,
      or_RulesetHash = bo_RulesetHash opts, or_Branch = bo_Branch opts,
      or_ExpiresAfterSequences = bo_ExpiresAfterSequences opts, or_CorrelationID = cp_SessionID inp @ ''-pretool''\<rparr>"

definition attempt_id :: "claude_pretool_input \<Rightarrow> string" where
  "attempt_id inp =
     (let a = cp_ToolUseID inp; b = (if a = [] then (case cp_Proposed inp of Some pa \<Rightarrow> pa_ActionID pa | None \<Rightarrow> []) else a)
      in if b = [] then ''inv-1'' else b)"

definition bridge_retry_request :: "bridge_options \<Rightarrow> claude_pretool_input \<Rightarrow> retry_request" where
  "bridge_retry_request opts inp =
     \<lparr>rq_ChallengeID = cp_ChallengeID inp, rq_ChallengeNonce = cp_ChallengeNonce inp, rq_RequireNonce = True,
      rq_SessionID = cp_SessionID inp, rq_Branch = bo_Branch opts,
      rq_RetryRequestID = cp_SessionID inp @ ''-retry-'' @ cp_ChallengeID inp @ ''-'' @ attempt_id inp,
      rq_Proposed = proposed_of inp, rq_CorrelationID = cp_ChallengeID inp @ ''-retry-'' @ attempt_id inp,
      rq_ReEval = Some (case bo_ReEvalContext opts of Some c \<Rightarrow> c | None \<Rightarrow> empty_reeval_context\<lparr>rc_UserException := True\<rparr>)\<rparr>"

definition retry_answer ::
  "bridge_env \<Rightarrow> bridge_config \<Rightarrow> claude_pretool_input \<Rightarrow> retry_result \<Rightarrow> go_error option \<Rightarrow> bridge_answer" where
  "retry_answer env cfg inp res err =
     (let rejected = denied cfg inp (if rt_RejectedReason res = [] then ''retry_rejected'' else rt_RejectedReason res) None in
      if err \<noteq> None then
        (case bv_ctxAfter env of
           Some e \<Rightarrow> (empty_response, plain_decision [] [], False, Some e)
         | None \<Rightarrow> rejected)
      else if rt_Stage2Decision res = DecisionAllow then
        (let d = plain_decision HookActionAllow ''challenge_retry_allowed''; rec = rt_Record res in
         (ClaudeHookResponseFromDecisionOpts inp d ((tagged cfg TransportAdditionalContext)
            \<lparr>cr_Challenge := Some \<lparr>cc_ChallengeID = ch_ChallengeID rec, cc_ChallengeNonce = ch_ChallengeNonce rec,
               cc_Reason = ch_ReasonCode rec, cc_SuggestedFix = ch_SuggestedFix rec, cc_OneShotRetryAllowed = False\<rparr>\<rparr>),
          d, True, None))
      else rejected)"

definition finish_retry ::
  "gostd \<Rightarrow> bridge_env \<Rightarrow> bridge_options \<Rightarrow> bridge_config \<Rightarrow> claude_pretool_input \<Rightarrow> store \<Rightarrow> bridge_answer option \<times> store" where
  "finish_retry std env opts cfg inp s =
     (case AttemptRetry std (bv_retry env) (bridge_retry_request opts inp) s of
        (None, s') \<Rightarrow> (None, s')
      | (Some (res, err), s') \<Rightarrow> (Some (retry_answer env cfg inp res err), s'))"

definition handleRetry ::
  "gostd \<Rightarrow> bridge_env \<Rightarrow> bridge_options \<Rightarrow> bridge_config \<Rightarrow> claude_pretool_input \<Rightarrow> store \<Rightarrow> bridge_answer option \<times> store" where
  "handleRetry std env opts cfg inp s =
     (case Get s (cp_ChallengeID inp) of
        None \<Rightarrow> (Some (denied cfg inp ''unknown_challenge'' (Some (''retry: unknown challenge '' @ cp_ChallengeID inp))), s)
      | Some rec \<Rightarrow>
          let s1 = bv_others env 0 s in
          if TrimSpace (cp_ChallengeNonce inp) = []
            then (Some (denied cfg inp ''missing_challenge_nonce'' (Some ''retry: missing challenge nonce'')), s1)
          else if ch_ChallengeNonce rec \<noteq> [] \<and> cp_ChallengeNonce inp \<noteq> ch_ChallengeNonce rec
            then (Some (denied cfg inp ''corrupted_challenge_nonce'' (Some ''retry: corrupted challenge nonce'')), s1)
          else if cp_Justification inp \<noteq> None \<and> ch_State rec = StateOpen then
            (case Justify std (bv_justify env) (JustificationFromClaudeInput (cp_ChallengeID inp) (cp_Justification inp))
                    (bo_KnownEvidenceIDs opts) s1 of
               ((_, Some e), s2) \<Rightarrow> (Some (denied cfg inp ''justification_rejected'' (Some e)), s2)
             | ((_, None), s2) \<Rightarrow> finish_retry std env opts cfg inp (bv_others env 1 s2))
          else finish_retry std env opts cfg inp s1)"

definition open_challenge ::
  "gostd \<Rightarrow> bridge_env \<Rightarrow> bridge_options \<Rightarrow> bridge_config \<Rightarrow> claude_pretool_input \<Rightarrow> hook_decision \<Rightarrow> store
   \<Rightarrow> bridge_answer option \<times> store" where
  "open_challenge std env opts cfg inp d s =
     (let req = bridge_open_request opts inp d; direct = ClaudeHookResponseFromDecisionOpts inp d (tagged cfg TransportDirectDeny) in
      if fst (ClassifyAppealability (or_BlockClass req) (or_Proposed req)) \<noteq> AppealAppealable
        then (Some (direct, d, True, None), s)
      else case Open std (bv_open env) req s of
        ((_, Some e), s') \<Rightarrow> (Some (direct, d, True, None), s')
      | ((rec, None), s') \<Rightarrow>
          (Some (ClaudeHookResponseFromDecisionOpts inp d ((tagged cfg TransportAdditionalContext)
             \<lparr>cr_Challenge := Some (ChallengeContextFromRecord rec)\<rparr>), d, True, None), s'))"

definition bridge_EvaluatePreTool ::
  "gostd \<Rightarrow> bridge_env \<Rightarrow> bridge_options \<Rightarrow> bridge_config \<Rightarrow> claude_pretool_input \<Rightarrow> store \<Rightarrow> bridge_answer option \<times> store" where
  "bridge_EvaluatePreTool std env opts cfg inp s =
     (case bv_ctxBefore env of
        Some e \<Rightarrow> (Some (empty_response, plain_decision [] [], False, Some e), s)
      | None \<Rightarrow>
          if cp_ChallengeID inp \<noteq> [] then handleRetry std env opts cfg inp s
          else
            let d = gate_decision env cfg inp in
            if hd_Action d = HookActionAllow \<or> hd_Action d = HookActionDefer
            then (Some (ClaudeHookResponseFromDecisionOpts inp d (bg_Response cfg), d, True, None), s)
            else open_challenge std env opts cfg inp d s)"

text \<open>The entry of the adapter with the bridge installed as \<open>EvaluateChallenge\<close>.\<close>

definition EvaluateClaudePreTool ::
  "gostd \<Rightarrow> bridge_env \<Rightarrow> bridge_options \<Rightarrow> bridge_config \<Rightarrow> claude_pretool_input \<Rightarrow> store
   \<Rightarrow> (claude_hook_response \<times> hook_decision \<times> go_error option) option \<times> store" where
  "EvaluateClaudePreTool std env opts cfg inp s =
     (case bridge_EvaluatePreTool std env opts cfg inp s of
        (None, s') \<Rightarrow> (None, s')
      | (Some (resp, d, handled, Some e), s') \<Rightarrow> (Some (resp, d, Some e), s')
      | (Some (resp, d, True, None), s') \<Rightarrow> (Some (resp, d, None), s')
      | (Some (resp, d, False, None), s') \<Rightarrow>
          (let g = gate_decision env cfg inp in
           (Some (ClaudeHookResponseFromDecisionOpts inp g (bg_Response cfg), g, None), s')))"

definition EvaluateClaudePreToolJSON ::
  "gostd \<Rightarrow> bridge_env \<Rightarrow> bridge_options \<Rightarrow> bridge_config \<Rightarrow> string \<Rightarrow> store
   \<Rightarrow> (claude_hook_response \<times> hook_decision \<times> go_error option) option \<times> store" where
  "EvaluateClaudePreToolJSON std env opts cfg raw s =
     (case MapClaudePreToolUseJSON std raw of
        Inl e \<Rightarrow> (Some (empty_response, plain_decision [] [], Some e), s)
      | Inr inp \<Rightarrow> EvaluateClaudePreTool std env opts cfg inp s)"

section \<open>What the host is told\<close>

definition permits :: "claude_hook_response \<Rightarrow> bool" where
  "permits resp \<longleftrightarrow> (case cl_HookSpecificOutput resp of None \<Rightarrow> False | Some h \<Rightarrow> ho_PermissionDecision h = ''allow'')"

definition closed_action :: "hook_decision \<Rightarrow> bool" where
  "closed_action d \<longleftrightarrow> hd_Action d \<in> {HookActionAllow, HookActionDeny, HookActionDefer}"

lemma plain_decision_closed [simp]:
  "hd_Action (plain_decision a r) = a" "closed_action (plain_decision HookActionDeny r)"
  "closed_action (plain_decision HookActionAllow r)"
  by (simp_all add: plain_decision_def closed_action_def)

text \<open>No answer stops the session, whatever the decision.\<close>

lemma never_stops_session: "cl_Continue (ClaudeHookResponseFromDecisionOpts inp d opts) = None"
  by (simp add: ClaudeHookResponseFromDecisionOpts_def Let_def)

lemma response_permits_iff:
  "permits (ClaudeHookResponseFromDecisionOpts inp d opts) \<longleftrightarrow>
     hd_Action (host_decision (host_options opts) d) \<notin> {HookActionDefer, HookActionDeny}"
  unfolding ClaudeHookResponseFromDecisionOpts_def Let_def
  by (cases "hd_Action (host_decision (host_options opts) d) = HookActionAllow";
      cases "hd_Action (host_decision (host_options opts) d) = HookActionDefer";
      cases "hd_Action (host_decision (host_options opts) d) = HookActionDeny")
    (simp_all add: permits_def specific_def)

lemma host_decision_closed:
  assumes "\<not> cr_FailOpenProductivity opts" and "closed_action d"
  shows "hd_Action (host_decision opts d) \<notin> {HookActionDefer, HookActionDeny} \<longleftrightarrow> hd_Action d = HookActionAllow"
proof (cases "cr_HostMode opts = HostModeUnknown \<and> hd_Action d \<noteq> HookActionAllow")
  case True
  then show ?thesis using assms(1) by (simp add: host_decision_def)
next
  case False
  then show ?thesis using assms by (auto simp: host_decision_def closed_action_def)
qed

lemma response_permits:
  assumes "\<not> cr_FailOpenProductivity opts" and "closed_action d"
  shows "permits (ClaudeHookResponseFromDecisionOpts inp d opts) \<longleftrightarrow> hd_Action d = HookActionAllow"
  unfolding response_permits_iff by (rule host_decision_closed) (use assms in \<open>simp_all add: host_options_def\<close>)

lemma tagged_fail_open [simp]: "cr_FailOpenProductivity (tagged cfg l) = cr_FailOpenProductivity (bg_Response cfg)"
  by (simp add: tagged_def)

lemma denied_not_permitted:
  assumes "\<not> cr_FailOpenProductivity (bg_Response cfg)"
  shows "denied cfg inp reason err \<noteq> (resp, d, handled, e) \<or> \<not> permits resp"
  using response_permits [of "tagged cfg TransportAdditionalContext" "plain_decision HookActionDeny reason" inp] assms
  by (auto simp: denied_def Let_def)

lemma empty_not_permitted [simp]: "\<not> permits empty_response"
  by (simp add: permits_def empty_response_def)

lemma retry_answer_permits:
  assumes "\<not> cr_FailOpenProductivity (bg_Response cfg)" and "retry_answer env cfg inp res err = (resp, d, handled, e)"
    and "permits resp"
  shows "err = None" "rt_Stage2Decision res = DecisionAllow" "e = None" "handled" "hd_Action d = HookActionAllow"
proof -
  note dn = denied_not_permitted [OF assms(1)]
  show "err = None" "rt_Stage2Decision res = DecisionAllow"
    using assms(2,3) dn by (auto simp: retry_answer_def Let_def split: if_splits option.splits)
  then show "e = None" "handled" "hd_Action d = HookActionAllow"
    using assms(2) by (auto simp: retry_answer_def Let_def)
qed

text \<open>In every gap other goroutines run any critical sections and signals, whatever they leave outstanding.\<close>

definition bridge_runs :: "bridge_env \<Rightarrow> bool" where
  "bridge_runs env \<longleftrightarrow> others_leave UNIV (bv_justify env) \<and> others_leave UNIV (bv_retry env)
     \<and> (\<forall>n s. run_leaving UNIV s (bv_others env n s))"

definition earned_allow :: "gostd \<Rightarrow> env \<Rightarrow> retry_request \<Rightarrow> store \<Rightarrow> bool" where
  "earned_allow std env req s' \<longleftrightarrow>
     (\<exists>res. rt_Stage2Decision res = DecisionAllow
        \<and> ((\<exists>fp. replayed_allow res (retryAttemptKey std (rq_ChallengeID req) req fp)) \<or> fresh_allow env req res s'))"

lemma finish_retry_permits:
  assumes "sys_reached \<lparr>sy_store = s, sy_due = due\<rparr>" and "bridge_runs env" and "\<not> cr_FailOpenProductivity (bg_Response cfg)"
    and "finish_retry std env opts cfg inp s = (Some (resp, d, handled, e), s')" and "permits resp"
  shows "e = None" "handled" "hd_Action d = HookActionAllow"
    and "earned_allow std (bv_retry env) (bridge_retry_request opts inp) s'"
proof -
  obtain res err where run: "AttemptRetry std (bv_retry env) (bridge_retry_request opts inp) s = (Some (res, err), s')"
    and ans: "retry_answer env cfg inp res err = (resp, d, handled, e)"
    using assms(4) by (auto simp: finish_retry_def split: prod.splits option.splits)
  note p = retry_answer_permits [OF assms(3) ans assms(5)]
  show "e = None" "handled" "hd_Action d = HookActionAllow" using p by simp_all
  show "earned_allow std (bv_retry env) (bridge_retry_request opts inp) s'"
    using retry_allow_cases [OF assms(1) _ run p(2)] assms(2) p(2) unfolding earned_allow_def bridge_runs_def by blast
qed

lemma handleRetry_permits:
  assumes reached: "sys_reached \<lparr>sy_store = s, sy_due = due\<rparr>" and runs: "bridge_runs env"
    and closed: "\<not> cr_FailOpenProductivity (bg_Response cfg)"
    and run: "handleRetry std env opts cfg inp s = (Some (resp, d, handled, e), s')" and "permits resp"
  shows "e = None \<and> handled \<and> hd_Action d = HookActionAllow"
    and "TrimSpace (cp_ChallengeNonce inp) \<noteq> []"
    and "\<exists>rec. Get s (cp_ChallengeID inp) = Some rec \<and> ch_ChallengeNonce rec \<in> {[], cp_ChallengeNonce inp}"
    and "earned_allow std (bv_retry env) (bridge_retry_request opts inp) s'"
proof -
  note dn = denied_not_permitted [OF closed]
  obtain rec where rec: "Get s (cp_ChallengeID inp) = Some rec"
    using run assms(5) dn by (cases "Get s (cp_ChallengeID inp)") (auto simp: handleRetry_def)
  show nonce: "TrimSpace (cp_ChallengeNonce inp) \<noteq> []"
    using run assms(5) dn by (auto simp: handleRetry_def rec Let_def split: if_splits)
  have ok: "\<not> (ch_ChallengeNonce rec \<noteq> [] \<and> cp_ChallengeNonce inp \<noteq> ch_ChallengeNonce rec)"
    using run assms(5) dn nonce by (auto simp: handleRetry_def rec Let_def split: if_splits)
  show "\<exists>rec. Get s (cp_ChallengeID inp) = Some rec \<and> ch_ChallengeNonce rec \<in> {[], cp_ChallengeNonce inp}"
    using rec ok by auto
  have s1: "run_leaving UNIV s (bv_others env 0 s)" using runs by (simp add: bridge_runs_def)
  have jrun: "run_leaving UNIV s (bv_others env 1 (snd (Justify std (bv_justify env) j k (bv_others env 0 s))))" for j k
    using run_leaving_trans [OF s1 Justify_run] runs run_leaving_trans [OF run_leaving_trans [OF s1 Justify_run]]
    unfolding bridge_runs_def by blast
  obtain s2 where s2: "run_leaving UNIV s s2" and fin: "finish_retry std env opts cfg inp s2 = (Some (resp, d, handled, e), s')"
  proof (cases "cp_Justification inp \<noteq> None \<and> ch_State rec = StateOpen")
    case True
    obtain r e2 s2 where j: "Justify std (bv_justify env) (JustificationFromClaudeInput (cp_ChallengeID inp) (cp_Justification inp))
        (bo_KnownEvidenceIDs opts) (bv_others env 0 s) = ((r, e2), s2)" by (metis surjective_pairing)
    have ans: "(case e2 of Some x \<Rightarrow> (Some (denied cfg inp ''justification_rejected'' (Some x)), s2)
        | None \<Rightarrow> finish_retry std env opts cfg inp (bv_others env 1 s2)) = (Some (resp, d, handled, e), s')"
      using run [unfolded handleRetry_def rec option.case Let_def if_not_P [OF nonce] if_not_P [OF ok] if_P [OF True] j]
      by (simp split: option.splits)
    have "e2 = None" "finish_retry std env opts cfg inp (bv_others env 1 s2) = (Some (resp, d, handled, e), s')"
      using ans assms(5) dn by (auto split: option.splits)
    then show ?thesis using that [of "bv_others env 1 s2"] jrun [of "JustificationFromClaudeInput (cp_ChallengeID inp) (cp_Justification inp)"
        "bo_KnownEvidenceIDs opts"] j by simp
  next
    case False
    then show ?thesis using that [OF s1] run assms(5) dn nonce
      by (auto simp: handleRetry_def rec Let_def split: if_splits)
  qed
  obtain due2 where "sys_reached \<lparr>sy_store = s2, sy_due = due2\<rparr>" by (rule run_leaving_reached [OF s2 reached])
  note f = finish_retry_permits [OF this runs closed fin assms(5)]
  show "e = None \<and> handled \<and> hd_Action d = HookActionAllow" using f by simp
  show "earned_allow std (bv_retry env) (bridge_retry_request opts inp) s'" by (rule f(4))
qed

lemma open_challenge_denies:
  assumes "\<not> cr_FailOpenProductivity (bg_Response cfg)" and "hd_Action d = HookActionDeny"
    and "open_challenge std env opts cfg inp d s = (Some (resp, d', handled, e), s')"
  shows "\<not> permits resp"
proof -
  have no: "\<not> permits (ClaudeHookResponseFromDecisionOpts inp d o1)" if "\<not> cr_FailOpenProductivity o1" for o1
    using response_permits [OF that, of d inp] assms(2) by (simp add: closed_action_def)
  show ?thesis
    using assms(1,3) no by (auto simp: open_challenge_def Let_def split: if_splits prod.splits option.splits)
qed

text \<open>The bridge always handles what it answers without an error, so the adapter's own gate is never asked again.\<close>

lemma open_handled:
  assumes "open_challenge std env opts cfg inp d s = (Some (resp, d', handled, e), s')"
  shows "handled" "e = None"
  using assms by (auto simp: open_challenge_def Let_def split: if_splits prod.splits option.splits)

lemma retry_answer_handled: "retry_answer env cfg inp res err \<noteq> (resp, d, False, None)"
  by (auto simp: retry_answer_def denied_def Let_def split: option.splits)

lemma finish_retry_handled: "finish_retry std env opts cfg inp s \<noteq> (Some (resp, d, False, None), s')"
  using retry_answer_handled by (auto simp: finish_retry_def split: prod.splits option.splits)

lemma handleRetry_handled: "handleRetry std env opts cfg inp s \<noteq> (Some (resp, d, False, None), s')"
  using finish_retry_handled
  by (auto simp: handleRetry_def denied_def Let_def split: prod.splits option.splits)

lemma EvaluateClaudePreTool_bridge:
  "EvaluateClaudePreTool std env opts cfg inp s =
     (case bridge_EvaluatePreTool std env opts cfg inp s of
        (None, s') \<Rightarrow> (None, s')
      | (Some (resp, d, handled, e), s') \<Rightarrow> (Some (resp, d, e), s'))"
proof -
  have "bridge_EvaluatePreTool std env opts cfg inp s \<noteq> (Some (resp, d, False, None), s')" for resp d s'
    using handleRetry_handled [of std env opts cfg inp s resp d s'] open_handled(1) [of std env opts cfg inp _ s resp d False None s']
    by (auto simp: bridge_EvaluatePreTool_def Let_def split: option.splits if_splits)
  then show ?thesis
    unfolding EvaluateClaudePreTool_def by (auto split: prod.splits option.splits bool.splits)
qed


text \<open>The justified challenge of the other witnesses, answered through the bridge while the gate still denies.\<close>

definition demo_input :: claude_pretool_input where
  "demo_input = \<lparr>cp_Phase = ''pre_tool_use'', cp_SessionID = ''s'', cp_ToolName = ''Read'', cp_ToolUseID = ''tu-1'', cp_FilePath = ''f'',
     cp_RawToolInput = [], cp_Proposed = Some demo_action, cp_ChallengeID = ''ch-1'', cp_ChallengeNonce = ''n'',
     cp_Justification = None\<rparr>"

definition demo_options :: bridge_options where
  "demo_options = \<lparr>bo_KnownEvidenceIDs = [], bo_ReEvalContext = Some demo_context, bo_DefaultBlockClass = [],
     bo_DefaultPolicyClass = [], bo_PolicyVersion = ''v1'', bo_RulesetHash = ''h1'', bo_Branch = [], bo_ExpiresAfterSequences = 0\<rparr>"

definition demo_config :: bridge_config where
  "demo_config = \<lparr>bg_Policy = \<lparr>hp_Timeout = 0, hp_FailOpen = False, hp_DeniedTools = [], hp_ToolDenyReasons = [],
       hp_ScopeWhitelist = [], hp_BudgetExhausted = False, hp_HardDenyInterventionID = [],
       hp_PendingAdvisoryInterventionID = [], hp_DeferDeadline = None, hp_Wait = False\<rparr>,
     bg_Evaluate = Some (\<lambda>_. plain_decision HookActionDeny ''OVER_SOP''),
     bg_Response = \<lparr>cr_Profile = [], cr_HostMode = HostModeHeadless, cr_NativeDefer = False,
       cr_FailOpenProductivity = False, cr_Challenge = None, cr_TransportLevel = []\<rparr>\<rparr>"

definition demo_bridge :: "hook_race \<Rightarrow> bridge_env" where
  "demo_bridge r = \<lparr>bv_ctxBefore = None, bv_ctxAfter = None, bv_hookCtx = False, bv_race = r, bv_open = demo_env,
     bv_justify = demo_env, bv_retry = demo_env, bv_others = (\<lambda>_ s. s)\<rparr>"

definition demo_race :: hook_race where
  "demo_race = \<lparr>ra_waitTimedOut = False, ra_expiredAfterWait = False, ra_callerTimedOut = False, ra_resultReady = True\<rparr>"

lemma demo_permitted:
  "case fst (EvaluateClaudePreTool demo_std (demo_bridge r) demo_options demo_config demo_input demo_s2) of
     Some (resp, d, err) \<Rightarrow> permits resp | None \<Rightarrow> False"
  by code_simp

lemma demo_bridge_runs: "bridge_runs (demo_bridge r)"
  by (simp add: bridge_runs_def demo_bridge_def others_leave_mono [OF demo_others])


end
