(* ===== verification/StrictParser.thy ===== *)
theory StrictParser
  imports GoJSON GoGlob ClassifierResult
begin

text \<open>
  The closed parser of model text, \<open>pkg/classifier/parse_raw.go\<close>. The token walk that rejects
  duplicate keys and deep nesting reads the bytes the way \<open>json.Decoder\<close> hands out tokens: \<open>More\<close>
  looks at the next byte, \<open>Token\<close> insists on the separator before it reads a key or a value. Of a
  \<open>ParseError\<close> the model keeps the reason code; the message only adds the text of a key. C16: the parser accepts exactly
  one small object with the score fields, and nothing else.
\<close>

section \<open>White space\<close>

definition MaxEvidenceIDLen :: nat where "MaxEvidenceIDLen = 128"
definition MaxNestedJSONDepth :: nat where "MaxNestedJSONDepth = 8"

definition isJSONWhitespace :: "char \<Rightarrow> bool" where
  "isJSONWhitespace b \<longleftrightarrow> b \<in> {CHR '' '', CHR 0x09, CHR 0x0A, CHR 0x0D}"

definition trimJSONWhitespace :: "string \<Rightarrow> string" where
  "trimJSONWhitespace s = rev (dropWhile isJSONWhitespace (rev (dropWhile isJSONWhitespace s)))"

definition isUnicodeSpaceNotJSON :: "nat \<Rightarrow> bool" where
  "isUnicodeSpaceNotJSON r \<longleftrightarrow>
     r \<notin> {0x20, 0x09, 0x0A, 0x0D}
     \<and> (r \<in> {0xA0, 0x2003, 0x2002, 0x2009, 0x2028, 0x2029, 0xFEFF}
        \<or> r > 0x7F \<and> (r = 0x1680 \<or> 0x2000 \<le> r \<and> r \<le> 0x200A \<or> r = 0x202F \<or> r = 0x205F \<or> r = 0x3000))"

text \<open>The first rune of a list that is not JSON white space; the list is read from the front or from the
  back. The caller has checked that the text is valid UTF-8, so both segmentations agree.\<close>

definition edge_space :: "string list \<Rightarrow> bool" where
  "edge_space us =
     (case dropWhile (\<lambda>u. length u = 1 \<and> isJSONWhitespace (hd u)) us of
        [] \<Rightarrow> False
      | u # _ \<Rightarrow> isUnicodeSpaceNotJSON (fst (decode_rune u)))"

definition hasNonJSONBoundaryWhitespace :: "string \<Rightarrow> bool" where
  "hasNonJSONBoundaryWhitespace s \<longleftrightarrow> edge_space (rune_list s) \<or> edge_space (rev (rune_list s))"

section \<open>The token walk\<close>

text \<open>Where the next key or value starts once the separator the decoder insists on is read.\<close>

definition token_start :: "char option \<Rightarrow> string \<Rightarrow> string option" where
  "token_start sep s =
     (case sep of
        None \<Rightarrow> Some (skip_ws s)
      | Some c \<Rightarrow> (case skip_ws s of [] \<Rightarrow> None | x # xs \<Rightarrow> if x = c then Some (skip_ws xs) else None))"

fun walkValue :: "nat \<Rightarrow> nat \<Rightarrow> char option \<Rightarrow> string \<Rightarrow> string + string"
  and walk_members :: "nat \<Rightarrow> nat \<Rightarrow> bool \<Rightarrow> string list \<Rightarrow> string \<Rightarrow> string + string"
  and walk_elems :: "nat \<Rightarrow> nat \<Rightarrow> bool \<Rightarrow> string \<Rightarrow> string + string" where
  "walkValue 0 d sep s = Inl ''json''"
| "walkValue (Suc n) d sep s =
     (if d > MaxNestedJSONDepth then Inl ''json''
      else case token_start sep s of
        None \<Rightarrow> Inl ''json''
      | Some [] \<Rightarrow> Inl ''json''
      | Some (c # cs) \<Rightarrow>
          if c = CHR ''{'' then walk_members n d True [] cs
          else if c = CHR ''['' then walk_elems n d True cs
          else case json_value 1 (c # cs) of None \<Rightarrow> Inl ''json'' | Some (v, r) \<Rightarrow> Inr r)"
| "walk_members 0 d first seen s = Inl ''json''"
| "walk_members (Suc n) d first seen s =
     (case skip_ws s of
        [] \<Rightarrow> Inl ''json''
      | c # cs \<Rightarrow>
          if c = CHR ''}'' then Inr cs
          else if c = CHR '']'' then Inl ''json''
          else case token_start (if first then None else Some (CHR '','')) s of
            None \<Rightarrow> Inl ''json''
          | Some [] \<Rightarrow> Inl ''json''
          | Some (q # ks) \<Rightarrow>
              if q \<noteq> CHR 0x22 then Inl ''json''
              else case json_unq ks of
                None \<Rightarrow> Inl ''json''
              | Some (k, r) \<Rightarrow>
                  if k \<in> set seen then Inl ''duplicate_key''
                  else case walkValue n (Suc d) (Some (CHR '':'')) r of
                    Inl e \<Rightarrow> Inl e
                  | Inr r' \<Rightarrow> walk_members n d False (k # seen) r')"
| "walk_elems 0 d first s = Inl ''json''"
| "walk_elems (Suc n) d first s =
     (case skip_ws s of
        [] \<Rightarrow> Inl ''json''
      | c # cs \<Rightarrow>
          if c = CHR '']'' then Inr cs
          else if c = CHR ''}'' then Inl ''json''
          else case walkValue n (Suc d) (if first then None else Some (CHR '','')) s of
            Inl e \<Rightarrow> Inl e
          | Inr r \<Rightarrow> walk_elems n d False r)"

definition rejectDuplicateKeys :: "string \<Rightarrow> string + string" where
  "rejectDuplicateKeys s = walkValue (2 * length s + 3) 0 None s"

text \<open>A second value and any other trailing text have the same reason.\<close>

definition validateSingleJSONObject :: "string \<Rightarrow> string option" where
  "validateSingleJSONObject s =
     (case rejectDuplicateKeys s of
        Inl e \<Rightarrow> Some e
      | Inr _ \<Rightarrow>
          (case json_value (2 * length s + 2) s of
             None \<Rightarrow> Some ''json''
           | Some (v, r) \<Rightarrow> if skip_ws r \<noteq> [] then Some ''json'' else None))"

section \<open>Typed members\<close>

definition decodeStrictString :: "json \<Rightarrow> string + string" where
  "decodeStrictString v = (case v of JStr s \<Rightarrow> Inr s | _ \<Rightarrow> Inl ''type'')"

definition digits_value :: "string \<Rightarrow> int" where
  "digits_value ds = foldl (\<lambda>a c. 10 * a + (int (byte c) - 48)) 0 ds"

definition number_value :: "string \<Rightarrow> int" where
  "number_value t = (case t of [] \<Rightarrow> 0 | c # cs \<Rightarrow> if c = CHR ''-'' then - digits_value cs else digits_value t)"

definition decodeStrictInt :: "json \<Rightarrow> string + int" where
  "decodeStrictInt v =
     (case v of
        JNum t \<Rightarrow>
          if ContainsAny t ''.eE'' then Inl ''type''
          else let i = number_value t in if - (2 ^ 63) \<le> i \<and> i < 2 ^ 63 then Inr i else Inl ''type''
      | _ \<Rightarrow> Inl ''type'')"

fun strict_strings :: "json list \<Rightarrow> string + string list" where
  "strict_strings [] = Inr []"
| "strict_strings (v # vs) =
     (case decodeStrictString v of
        Inl e \<Rightarrow> Inl e
      | Inr s \<Rightarrow> (case strict_strings vs of Inl e \<Rightarrow> Inl e | Inr ss \<Rightarrow> Inr (s # ss)))"

definition decodeStrictStringArray :: "json \<Rightarrow> string + string list" where
  "decodeStrictStringArray v = (case v of JArr vs \<Rightarrow> strict_strings vs | _ \<Rightarrow> Inl ''type'')"

definition allowed_fields :: "string list" where
  "allowed_fields = [''schema_version'', ''severity'', ''reason_code'', ''evidence_event_ids'']"

definition forbidden_fields :: "string list" where
  "forbidden_fields = [''input_tokens'', ''output_tokens'', ''cached_tokens'', ''cache_hit'', ''provider_request_id'', ''usage'',
     ''cache_read_tokens'', ''uncached_input_tokens'', ''model_id'', ''model_version'', ''prompt_hash'', ''ruleset_id'',
     ''ruleset_hash'', ''parse_status'', ''latency_ms'']"

fun evidence_faulty :: "string list \<Rightarrow> string list \<Rightarrow> string list \<Rightarrow> bool" where
  "evidence_faulty allowed seen [] = False"
| "evidence_faulty allowed seen (i # is) =
     (if i = [] \<or> length i > MaxEvidenceIDLen then True
      else if i \<in> set seen then True
      else if i \<notin> set allowed then True
      else evidence_faulty allowed (i # seen) is)"

definition evidence_of :: "string list \<Rightarrow> (string \<times> json) list \<Rightarrow> string + string list" where
  "evidence_of allowed raw =
     (case map_of raw ''evidence_event_ids'' of
        None \<Rightarrow> Inr []
      | Some v \<Rightarrow>
          (case decodeStrictStringArray v of
             Inl e \<Rightarrow> Inl e
           | Inr ids \<Rightarrow>
               if length ids > ClassifierInput.MaxEvidenceIDs then Inl ''evidence''
               else if ids \<noteq> [] \<and> allowed = [] then Inl ''evidence''
               else if evidence_faulty allowed [] ids then Inl ''evidence''
               else Inr ids))"

definition assessment_of :: "string list \<Rightarrow> (string \<times> json) list \<Rightarrow> string + classifier_assessment" where
  "assessment_of allowed raw =
     (if list_ex (\<lambda>k. map_of raw k \<noteq> None) forbidden_fields then Inl ''unknown_field''
      else if list_ex (\<lambda>(k, v). k \<notin> set allowed_fields) raw then Inl ''unknown_field''
      else case (map_of raw ''schema_version'', map_of raw ''severity'', map_of raw ''reason_code'') of
        (Some sv, Some sev, Some rc) \<Rightarrow>
          (case decodeStrictString sv of
             Inl e \<Rightarrow> Inl e
           | Inr sv' \<Rightarrow>
               if sv' \<noteq> SchemaRawAssessment then Inl ''schema''
               else case decodeStrictInt sev of
                 Inl e \<Rightarrow> Inl e
               | Inr i \<Rightarrow>
                   if \<not> ValidateSeverity i then Inl ''severity''
                   else case decodeStrictString rc of
                     Inl e \<Rightarrow> Inl e
                   | Inr code \<Rightarrow>
                       if \<not> ValidateRawReasonCode code then Inl ''reason_code''
                       else case evidence_of allowed raw of
                         Inl e \<Rightarrow> Inl e
                       | Inr ids \<Rightarrow>
                           Inr (zero_assessment\<lparr>asm_SchemaVersion := SchemaRawAssessment, asm_Severity := i,
                             asm_ReasonCode := code, asm_EvidenceEventIDs := ids, asm_ParseStatus := StatusOK\<rparr>))
      | _ \<Rightarrow> Inl ''missing_field'')"

definition ParseRawAssessmentStrict :: "string \<Rightarrow> int \<Rightarrow> string list \<Rightarrow> string + classifier_assessment" where
  "ParseRawAssessmentStrict content maxBytes0 allowed =
     (let maxBytes = (if maxBytes0 \<le> 0 then DefaultMaxOutputBytes else maxBytes0); t = trimJSONWhitespace content in
      if int (length content) > maxBytes then Inl ''oversized''
      else if \<not> ValidString content then Inl ''utf8''
      else if hasNonJSONBoundaryWhitespace content then Inl ''whitespace''
      else if t = [] then Inl ''empty''
      else if HasPrefix t ''```'' \<or> Contains t ''```'' then Inl ''fence''
      else if hd t \<noteq> CHR ''{'' then Inl ''prose''
      else case validateSingleJSONObject t of
        Some e \<Rightarrow> Inl e
      | None \<Rightarrow> (case json_parse t of Some (JObj raw) \<Rightarrow> assessment_of allowed raw | _ \<Rightarrow> Inl ''json''))"

text \<open>A text that is accepted, and three that are not.\<close>

definition sample_text :: string where
  "sample_text = ''{\"severity\":85,\"schema_version\":\"reinframe.raw_assessment.v1\",\"reason_code\":\"OVER_SOP\",''
     @ ''\"evidence_event_ids\":[\"e1\"]} ''"

lemma sample_runes: "rune_list sample_text = map (\<lambda>c. [c]) sample_text"
  by code_simp

lemma sample_edges: "\<not> hasNonJSONBoundaryWhitespace sample_text"
  unfolding hasNonJSONBoundaryWhitespace_def sample_runes
  by (simp add: sample_text_def edge_space_def isJSONWhitespace_def isUnicodeSpaceNotJSON_def decode_rune_def Let_def
      rune_valid_width_def rune_lead_def byte_def)

lemma sample_rest:
  "ValidString sample_text" "int (length sample_text) \<le> DefaultMaxOutputBytes"
  "\<not> (HasPrefix (trimJSONWhitespace sample_text) ''```'' \<or> Contains (trimJSONWhitespace sample_text) ''```'')"
  "trimJSONWhitespace sample_text \<noteq> []" "\<not> hd (trimJSONWhitespace sample_text) \<noteq> CHR ''{''"
  "validateSingleJSONObject (trimJSONWhitespace sample_text) = None"
  "(case json_parse (trimJSONWhitespace sample_text) of Some (JObj raw) \<Rightarrow> assessment_of [''e1''] raw | _ \<Rightarrow> Inl ''json'')
     = Inr (zero_assessment\<lparr>asm_SchemaVersion := SchemaRawAssessment, asm_Severity := 85, asm_ReasonCode := ''OVER_SOP'',
         asm_EvidenceEventIDs := [''e1''], asm_ParseStatus := StatusOK\<rparr>)"
  by code_simp+

lemma sample_accepted:
  "ParseRawAssessmentStrict sample_text 0 [''e1''] = Inr (zero_assessment\<lparr>asm_SchemaVersion := SchemaRawAssessment,
     asm_Severity := 85, asm_ReasonCode := ''OVER_SOP'', asm_EvidenceEventIDs := [''e1''], asm_ParseStatus := StatusOK\<rparr>)"
  using sample_rest sample_edges by (simp add: ParseRawAssessmentStrict_def Let_def del: HasPrefix_iff)

lemma sample_rejected:
  "rejectDuplicateKeys ''{\"a\":{\"b\":1,\"b\":2}}'' = Inl ''duplicate_key''"
  "rejectDuplicateKeys ''{\"a\":[[[[[[[[0]]]]]]]]}'' = Inl ''json''"
  "validateSingleJSONObject ''{}{}'' = Some ''json''"
  by code_simp+

section \<open>The walk and the parser\<close>

text \<open>A tree without duplicate keys in any object and within the nesting limit.\<close>

fun strict_tree :: "nat \<Rightarrow> json \<Rightarrow> bool" where
  "strict_tree d (JArr vs) \<longleftrightarrow> d \<le> MaxNestedJSONDepth \<and> list_all (strict_tree (Suc d)) vs"
| "strict_tree d (JObj ms) \<longleftrightarrow> d \<le> MaxNestedJSONDepth \<and> distinct (map fst ms) \<and> list_all (\<lambda>m. strict_tree (Suc d) (snd m)) ms"
| "strict_tree d v \<longleftrightarrow> d \<le> MaxNestedJSONDepth"

lemma skip_ws_idem [simp]: "skip_ws (skip_ws s) = skip_ws s"
  by (simp add: skip_ws_def)

lemma token_start_skipped: "token_start sep s = Some t \<Longrightarrow> skip_ws t = t"
  by (auto simp: token_start_def split: option.splits list.splits if_splits)

lemma json_value_skip: "json_value n (skip_ws s) = json_value n s"
  by (cases n) simp_all

lemma json_members_skip: "json_members n (skip_ws s) = json_members n s"
  by (cases n) simp_all

lemma json_elems_skip: "json_elems n (skip_ws s) = json_elems n s"
  by (cases n) (simp_all add: json_value_skip)

text \<open>A value that opens no array and no object is read in one step.\<close>

lemma json_value_scalar:
  assumes "skip_ws s = c # cs" "c \<noteq> CHR ''{''" "c \<noteq> CHR ''[''"
  shows "json_value (Suc n) s = json_value 1 s"
  using assms by simp

lemma json_number_scalar: "json_number s = Some (v, r) \<Longrightarrow> strict_tree d v = (d \<le> MaxNestedJSONDepth)"
  by (auto simp: json_number_def Let_def split: option.splits)

lemma json_scalar_tree:
  assumes "json_value 1 s = Some (v, r)" "skip_ws s = c # cs" "c \<noteq> CHR ''{''" "c \<noteq> CHR ''[''"
  shows "strict_tree d v = (d \<le> MaxNestedJSONDepth)"
  using assms by (auto simp: json_number_scalar split: if_splits)

lemma token_start_Some [simp]: "token_start (Some c) s = Some t \<longleftrightarrow> (\<exists>xs. skip_ws s = c # xs \<and> t = skip_ws xs)"
  by (auto simp: token_start_def split: list.splits)

lemma token_start_None [simp]: "token_start None s = Some (skip_ws s)"
  by (simp add: token_start_def)

definition members_ok :: "nat \<Rightarrow> string list \<Rightarrow> (string \<times> json) list \<Rightarrow> bool" where
  "members_ok d seen ms \<longleftrightarrow>
     distinct (map fst ms) \<and> set (map fst ms) \<inter> set seen = {} \<and> list_all (\<lambda>m. strict_tree (Suc d) (snd m)) ms"

lemma members_ok_simps:
  "members_ok d seen []"
  "members_ok d seen ((k, v) # ms) \<longleftrightarrow> k \<notin> set seen \<and> strict_tree (Suc d) v \<and> members_ok d (k # seen) ms"
  by (auto simp: members_ok_def)

lemma json_members_step:
  assumes "skip_ws t = CHR 0x22 # ks" "json_unq ks = Some (k, r1)" "skip_ws r1 = CHR '':'' # ds" "json_value n ds = Some (v, r)"
  shows "json_members (Suc n) t =
     (case skip_ws r of
        [] \<Rightarrow> None
      | e # es \<Rightarrow> if e = CHR ''}'' then Some ([(k, v)], es)
          else if e = CHR '','' then map_option (\<lambda>(ms, r''). ((k, v) # ms, r'')) (json_members n es) else None)"
  using assms by simp

lemma json_object_value:
  assumes "skip_ws s = CHR ''{'' # cs"
  shows "json_value (Suc n) s =
    (if HasPrefix (skip_ws cs) ''}'' then Some (JObj [], tl (skip_ws cs)) else map_option (\<lambda>(ms, r). (JObj ms, r)) (json_members n cs))"
  using assms by simp

lemma json_array_value:
  assumes "skip_ws s = CHR ''['' # cs"
  shows "json_value (Suc n) s =
    (if HasPrefix (skip_ws cs) '']'' then Some (JArr [], tl (skip_ws cs)) else map_option (\<lambda>(vs, r). (JArr vs, r)) (json_elems n cs))"
  using assms by simp

lemma HasPrefix_single: "HasPrefix s [c] \<longleftrightarrow> (\<exists>r. s = c # r)"
  by (auto simp: HasPrefix_iff)

lemma HasPrefix_Cons: "HasPrefix (c # s) (d # p) \<longleftrightarrow> c = d \<and> HasPrefix s p"
  by (auto simp: HasPrefix_iff)

lemma json_members_not_end: "json_members n s = Some x \<Longrightarrow> \<not> HasPrefix (skip_ws s) ''}''"
  by (cases n) (auto simp: HasPrefix_single split: list.splits)

lemma json_number_start: "json_number s = Some x \<Longrightarrow> s \<noteq> [] \<and> (hd s = CHR ''-'' \<or> is_digit (hd s))"
  by (cases s) (auto simp: json_number_def read_int_def read_digits_def is_digit_def Let_def split: option.splits if_splits)

lemma json_value_not_end: "json_value n s = Some x \<Longrightarrow> \<not> HasPrefix (skip_ws s) '']'' \<and> \<not> HasPrefix (skip_ws s) ''}''"
  using json_number_start [of "skip_ws s" x]
  by (cases n) (auto simp: HasPrefix_single is_digit_def HasPrefix_Cons)

lemma json_elems_not_end: "json_elems n s = Some x \<Longrightarrow> \<not> HasPrefix (skip_ws s) '']''"
  using json_value_not_end [of "n - 1" s] by (cases n) (auto split: option.splits)

text \<open>What the walk accepts is a value the parser reads, with the same rest.\<close>

lemma walk_members_sound:
  assumes IH: "walkValue n (Suc d) (Some (CHR '':'')) r1 = Inr r'" "strict_tree (Suc d) v" "json_value n ds = Some (v, r')"
    and start: "token_start (if first then None else Some (CHR '','')) s = Some (CHR 0x22 # ks)" "json_unq ks = Some (k, r1)"
    and colon: "skip_ws r1 = CHR '':'' # ds" and new: "k \<notin> set seen"
    and rest: "skip_ws r' = CHR ''}'' # r \<or> (\<exists>t ms. token_start (Some (CHR '','')) r' = Some t \<and> json_members n t = Some (ms, r)
      \<and> members_ok d (k # seen) ms)"
  shows "\<exists>t ms. token_start (if first then None else Some (CHR '','')) s = Some t \<and> json_members (Suc n) t = Some (ms, r)
      \<and> members_ok d seen ms"
proof -
  have t: "skip_ws (CHR 0x22 # ks) = CHR 0x22 # ks" by (simp add: skip_ws_def)
  note step = json_members_step [OF t start(2) colon IH(3)]
  from rest show ?thesis
  proof
    assume "skip_ws r' = CHR ''}'' # r"
    then have "json_members (Suc n) (CHR 0x22 # ks) = Some ([(k, v)], r)" unfolding step by simp
    moreover have "members_ok d seen [(k, v)]" using new IH(2) by (simp add: members_ok_def)
    ultimately show ?thesis using start(1) by blast
  next
    assume "\<exists>t ms. token_start (Some (CHR '','')) r' = Some t \<and> json_members n t = Some (ms, r) \<and> members_ok d (k # seen) ms"
    then obtain es ms where "skip_ws r' = CHR '','' # es" "json_members n es = Some (ms, r)" "members_ok d (k # seen) ms"
      by (auto simp: json_members_skip)
    then have "json_members (Suc n) (CHR 0x22 # ks) = Some ((k, v) # ms, r)" unfolding step by simp
    moreover have "members_ok d seen ((k, v) # ms)"
      using new IH(2) \<open>members_ok d (k # seen) ms\<close> by (auto simp: members_ok_def)
    ultimately show ?thesis using start(1) by blast
  qed
qed

lemma walk_sound:
  "walkValue n d sep s = Inr r \<Longrightarrow>
     \<exists>v t. token_start sep s = Some t \<and> json_value n t = Some (v, r) \<and> strict_tree d v"
  "walk_members n d first seen s = Inr r \<Longrightarrow>
     skip_ws s = CHR ''}'' # r \<or> (\<exists>t ms. token_start (if first then None else Some (CHR '','')) s = Some t
       \<and> json_members n t = Some (ms, r) \<and> members_ok d seen ms)"
  "walk_elems n d first s = Inr r \<Longrightarrow>
     skip_ws s = CHR '']'' # r \<or> (\<exists>t vs. token_start (if first then None else Some (CHR '','')) s = Some t
       \<and> json_elems n t = Some (vs, r) \<and> list_all (strict_tree (Suc d)) vs)"
proof (induction n d sep s and n d first seen s and n d first s arbitrary: r and r and r rule: walkValue_walk_members_walk_elems.induct)
  case (2 n d sep s)
  then have d: "d \<le> MaxNestedJSONDepth" by (auto split: if_splits)
  obtain c cs where start: "token_start sep s = Some (c # cs)"
    using 2(3) by (auto split: if_splits option.splits list.splits)
  note t = token_start_skipped [OF start]
  have run: "(if c = CHR ''{'' then walk_members n d True [] cs
      else if c = CHR ''['' then walk_elems n d True cs
      else case json_value 1 (c # cs) of None \<Rightarrow> Inl ''json'' | Some (v, r) \<Rightarrow> Inr r) = Inr r"
    using 2(3) d start by simp
  consider "c = CHR ''{''" | "c = CHR ''[''" | "c \<noteq> CHR ''{''" "c \<noteq> CHR ''[''" by blast
  then have "\<exists>v. json_value (Suc n) (c # cs) = Some (v, r) \<and> strict_tree d v"
  proof cases
    case 1
    have "skip_ws cs = CHR ''}'' # r \<or> (\<exists>ms. json_members n cs = Some (ms, r) \<and> members_ok d [] ms)"
      using 2(1) [OF _ start] run d 1 by (auto simp: json_members_skip)
    then show ?thesis using json_members_not_end [of n cs] d json_object_value [OF t [unfolded 1], of n] 1
      by (auto simp: HasPrefix_single members_ok_def)
  next
    case c: 2
    have "skip_ws cs = CHR '']'' # r \<or> (\<exists>vs. json_elems n cs = Some (vs, r) \<and> list_all (strict_tree (Suc d)) vs)"
      using 2(2) [OF _ start] run d c by (auto simp: json_elems_skip)
    then show ?thesis using json_elems_not_end [of n cs] d json_array_value [OF t [unfolded c], of n] c
      by (auto simp: HasPrefix_single)
  next
    case 3
    obtain v where v: "json_value 1 (c # cs) = Some (v, r)" using run 3 by (auto split: option.splits)
    then show ?thesis using json_value_scalar [OF t 3, of n] json_scalar_tree [OF v t 3] d by auto
  qed
  then show ?case using start by blast
next
  case (4 n d first seen s)
  show ?case
  proof (cases "skip_ws s = CHR ''}'' # r")
    case False
    obtain ks where start: "token_start (if first then None else Some (CHR '','')) s = Some (CHR 0x22 # ks)"
      using 4(3) False by (simp split: list.splits option.splits if_splits)
    obtain c cs where s: "skip_ws s = c # cs" and c: "c \<noteq> CHR ''}''" "c \<noteq> CHR '']''"
      using 4(3) False by (simp split: list.splits if_splits)
    obtain x where x: "json_unq ks = Some x"
      using 4(3) by (cases "json_unq ks") (simp_all add: s c start del: token_start_Some token_start_None)
    obtain k r1 where key: "json_unq ks = Some (k, r1)" using x by (cases x) simp
    have body: "(if k \<in> set seen then Inl ''duplicate_key''
        else case walkValue n (Suc d) (Some (CHR '':'')) r1 of Inl e \<Rightarrow> Inl e | Inr r' \<Rightarrow> walk_members n d False (k # seen) r') = Inr r"
      using 4(3) by (simp add: s c start key del: token_start_Some token_start_None)
    then have new: "k \<notin> set seen" by (simp split: if_splits)
    obtain r' where val: "walkValue n (Suc d) (Some (CHR '':'')) r1 = Inr r'" and more: "walk_members n d False (k # seen) r' = Inr r"
      using body new by (simp split: sum.splits)
    obtain v ds where "skip_ws r1 = CHR '':'' # ds" "json_value n ds = Some (v, r')" "strict_tree (Suc d) v"
      using 4(1) [OF s c start refl _ key refl new val] by (auto simp: json_value_skip)
    moreover have "skip_ws r' = CHR ''}'' # r \<or> (\<exists>t ms. token_start (Some (CHR '','')) r' = Some t \<and> json_members n t = Some (ms, r)
      \<and> members_ok d (k # seen) ms)"
      using 4(2) [OF s c start refl _ key refl new val more] by simp
    ultimately show ?thesis using walk_members_sound [OF val _ _ start key _ new] by blast
  qed simp
next
  case (6 n d first s)
  show ?case
  proof (cases "skip_ws s = CHR '']'' # r")
    case False
    obtain c cs where s: "skip_ws s = c # cs" and c: "c \<noteq> CHR '']''" "c \<noteq> CHR ''}''"
      using 6(3) False by (simp split: list.splits if_splits)
    obtain r' where val: "walkValue n (Suc d) (if first then None else Some (CHR '','')) s = Inr r'"
        and more: "walk_elems n d False r' = Inr r"
      using 6(3) s c by (simp split: sum.splits)
    obtain v t where v: "token_start (if first then None else Some (CHR '','')) s = Some t" "json_value n t = Some (v, r')"
        "strict_tree (Suc d) v"
      using 6(1) [OF s c val] by blast
    from 6(2) [OF s c val more] have "\<exists>vs. json_elems (Suc n) t = Some (vs, r) \<and> list_all (strict_tree (Suc d)) vs"
    proof
      assume "skip_ws r' = CHR '']'' # r"
      then show ?thesis using v by simp
    next
      assume "\<exists>t vs. token_start (if False then None else Some (CHR '','')) r' = Some t \<and> json_elems n t = Some (vs, r)
        \<and> list_all (strict_tree (Suc d)) vs"
      then show ?thesis using v by (auto simp: json_elems_skip)
    qed
    then show ?thesis using v(1) by blast
  qed simp
qed simp_all

text \<open>And the walk accepts every value the parser reads, if its tree is strict.\<close>

lemma start_not_end:
  assumes "token_start (if first then None else Some (CHR '','')) s0 = Some t"
    and "\<not> HasPrefix t '']''" "\<not> HasPrefix t ''}''" "t \<noteq> []"
  shows "\<exists>c cs. skip_ws s0 = c # cs \<and> c \<noteq> CHR '']'' \<and> c \<noteq> CHR ''}''"
  using assms by (cases first; cases "skip_ws s0") (auto simp: HasPrefix_single)

lemma json_value_start: "json_value n s = Some x \<Longrightarrow> skip_ws s \<noteq> []"
  by (cases n) (auto split: list.splits)

lemma json_members_start: "json_members n s = Some x \<Longrightarrow> \<exists>ks. skip_ws s = CHR 0x22 # ks"
  by (cases n) (auto split: list.splits if_splits)

lemma walk_elems_step:
  assumes "skip_ws s0 = c # cs" "c \<noteq> CHR '']''" "c \<noteq> CHR ''}''"
    and "walkValue n (Suc d) (if first then None else Some (CHR '','')) s0 = Inr r"
  shows "walk_elems (Suc n) d first s0 = walk_elems n d False r"
  using assms by simp

lemma walk_members_step:
  assumes "token_start (if first then None else Some (CHR '','')) s0 = Some (CHR 0x22 # ks)"
    and "json_unq ks = Some (k, r1)" "k \<notin> set seen" "walkValue n (Suc d) (Some (CHR '':'')) r1 = Inr r"
  shows "walk_members (Suc n) d first seen s0 = walk_members n d False (k # seen) r"
proof -
  obtain c cs where "skip_ws s0 = c # cs" "c \<noteq> CHR '']''" "c \<noteq> CHR ''}''"
    using start_not_end [OF assms(1)] by (auto simp: HasPrefix_single)
  then show ?thesis using assms by (simp del: token_start_Some token_start_None)
qed

lemma walk_complete:
  "json_value n s = Some (v, r) \<Longrightarrow> strict_tree d v \<Longrightarrow> token_start sep s0 = Some (skip_ws s) \<Longrightarrow>
     walkValue (Suc n) d sep s0 = Inr r"
  "json_elems n s = Some (vs, r) \<Longrightarrow> list_all (strict_tree (Suc d)) vs \<Longrightarrow>
     token_start (if first then None else Some (CHR '','')) s0 = Some (skip_ws s) \<Longrightarrow> walk_elems (Suc n) d first s0 = Inr r"
  "json_members n s = Some (ms, r) \<Longrightarrow> members_ok d seen ms \<Longrightarrow>
     token_start (if first then None else Some (CHR '','')) s0 = Some (skip_ws s) \<Longrightarrow> walk_members (Suc n) d first seen s0 = Inr r"
proof (induction n s and n s and n s arbitrary: v r d sep s0 and vs r d first s0 and ms r d first seen s0
    rule: json_value_json_elems_json_members.induct)
  case (2 n s)
  have d: "d \<le> MaxNestedJSONDepth" using 2(4) by (cases v) simp_all
  obtain c cs where s: "skip_ws s = c # cs" using json_value_start [OF 2(3)] by (cases "skip_ws s") auto
  note t = 2(5) [unfolded s]
  have walk: "walkValue (Suc (Suc n)) d sep s0 = (if c = CHR ''{'' then walk_members (Suc n) d True [] cs
      else if c = CHR ''['' then walk_elems (Suc n) d True cs
      else case json_value 1 (c # cs) of None \<Rightarrow> Inl ''json'' | Some (v, r) \<Rightarrow> Inr r)"
    using d t by (subst walkValue.simps) simp
  consider "c = CHR ''{''" | "c = CHR ''[''" | "c \<noteq> CHR ''{''" "c \<noteq> CHR ''[''" by blast
  then show ?case
  proof cases
    case c: 1
    show ?thesis
    proof (cases "HasPrefix (skip_ws cs) ''}''")
      case True
      then show ?thesis using 2(3) c walk unfolding json_object_value [OF s [unfolded c]] by (auto simp: HasPrefix_single)
    next
      case False
      then obtain ms where "v = JObj ms" and ms: "json_members n cs = Some (ms, r)"
        using 2(3) unfolding json_object_value [OF s [unfolded c]] by (auto split: if_splits)
      then have "walk_members (Suc n) d True [] cs = Inr r"
        using 2(2) [OF s _ _ c False ms, of d "[]" True cs] 2(4) by (simp add: members_ok_def c)
      then show ?thesis using c walk by simp
    qed
  next
    case c: 2
    show ?thesis
    proof (cases "HasPrefix (skip_ws cs) '']''")
      case True
      then show ?thesis using 2(3) c walk unfolding json_array_value [OF s [unfolded c]] by (auto simp: HasPrefix_single)
    next
      case False
      then obtain vs where "v = JArr vs" and vs: "json_elems n cs = Some (vs, r)"
        using 2(3) unfolding json_array_value [OF s [unfolded c]] by (auto split: if_splits)
      then have "walk_elems (Suc n) d True cs = Inr r"
        using 2(1) [OF s _ c False vs, of d True cs] 2(4) by (simp add: c)
      then show ?thesis using c walk by simp
    qed
  next
    case 3
    then have "json_value 1 (c # cs) = Some (v, r)"
      using 2(3) json_value_scalar [OF s 3, of n] json_value_skip [of 1 s] s by simp
    then show ?thesis using 3 walk by simp
  qed
next
  case (4 n s)
  obtain v r1 where v: "json_value n s = Some (v, r1)" using 4(3) by (auto split: option.splits)
  have tl: "strict_tree (Suc d) v" using 4(3,4) v by (auto split: list.splits if_splits)
  have w: "walkValue (Suc n) (Suc d) (if first then None else Some (CHR '','')) s0 = Inr r1"
    by (rule 4(1) [OF v tl 4(5)])
  obtain c cs where s0: "skip_ws s0 = c # cs" "c \<noteq> CHR '']''" "c \<noteq> CHR ''}''"
    using start_not_end [OF 4(5)] json_value_not_end [OF v] json_value_start [OF v] by auto
  have "walk_elems (Suc n) d False r1 = Inr r"
  proof (cases "skip_ws r1")
    case (Cons e es)
    show ?thesis
    proof (cases "e = CHR '']''")
      case False
      then obtain vs' where "json_elems n es = Some (vs', r)" "e = CHR '',''" "vs = v # vs'"
        using 4(3) v Cons by (auto split: if_splits)
      then show ?thesis using 4(2) [OF v refl Cons False, of vs' r d False r1] 4(4) Cons by simp
    qed (use 4(3) v Cons in simp)
  qed (use 4(3) v in simp)
  then show ?case using walk_elems_step [OF s0 w] by simp
next
  case (6 n s)
  obtain ks where s: "skip_ws s = CHR 0x22 # ks" using json_members_start [OF 6(3)] by blast
  obtain k r1 where k: "json_unq ks = Some (k, r1)" using 6(3) s by (auto split: option.splits)
  obtain ds where r1: "skip_ws r1 = CHR '':'' # ds" using 6(3) s k by (auto split: list.splits if_splits)
  obtain v r2 where v: "json_value n ds = Some (v, r2)" using 6(3) s k r1 by (auto split: option.splits)
  note step = json_members_step [OF s k r1 v]
  have ok: "k \<notin> set seen" "strict_tree (Suc d) v" using 6(3,4) unfolding step
    by (auto simp: members_ok_simps split: list.splits if_splits)
  have w: "walkValue (Suc n) (Suc d) (Some (CHR '':'')) r1 = Inr r2"
    by (rule 6(1) [OF s _ k refl r1 _ v ok(2)]) (simp_all add: r1)
  have "walk_members (Suc n) d False (k # seen) r2 = Inr r"
  proof (cases "skip_ws r2")
    case (Cons e es)
    show ?thesis
    proof (cases "e = CHR ''}''")
      case False
      then obtain ms' where "json_members n es = Some (ms', r)" "e = CHR '',''" "ms = (k, v) # ms'"
        using 6(3) Cons unfolding step by (auto split: if_splits)
      then show ?thesis
        using 6(2) [OF s _ k refl r1 _ v refl Cons False, of ms' r d "k # seen" False r2] 6(4) Cons by (simp add: members_ok_simps)
    qed (use 6(3) Cons step in simp)
  qed (use 6(3) step in simp)
  then show ?case using walk_members_step [OF 6(5) [unfolded s] k ok(1) w] by simp
qed simp_all

section \<open>The fuel is enough\<close>

text \<open>Whatever the parser reads it reads with any fuel from twice the length of the text on.\<close>

lemma skip_ws_length: "length (skip_ws s) \<le> length s"
  by (simp add: skip_ws_def length_dropWhile_le)

lemma json_unq_shorter: "json_unq s = Some x \<Longrightarrow> length (snd x) < length s"
proof (induction s arbitrary: x rule: length_induct)
  case (1 s)
  have IH: "length (snd x) < length s" if m: "map_option (\<lambda>(t, rest). (f t, rest)) (json_unq u) = Some x" and "length u < length s" for f u
  proof -
    obtain y where "json_unq u = Some y" "snd y = snd x" using m by auto
    then show ?thesis using "1.IH" that(2) by (metis less_trans)
  qed
  show ?case
  proof (cases s)
    case (Cons c cs)
    note u = "1.prems" [unfolded json_unq.simps [of s], unfolded Cons list.case]
    show ?thesis
    proof (cases "c = CHR 0x22")
      case False
      note u = u [unfolded if_not_P [OF False]]
      show ?thesis
      proof (cases "c = CHR 0x5C")
        case True
        note u = u [unfolded if_P [OF True]]
        show ?thesis
        proof (cases cs)
          case cs: (Cons e es)
          show ?thesis using u IH [of _ es] IH [of _ "drop k cs" for k] unfolding cs list.case
            by (simp add: Cons cs split: if_splits option.splits prod.splits)
        qed (use u in simp)
      next
        case False
        show ?thesis
          using u IH [of _ cs] IH [of _ "drop (rune_valid_width s) s"]
          by (simp add: Cons False Let_def split: if_splits)
      qed
    qed (use u Cons in auto)
  qed (use "1.prems" in \<open>simp add: json_unq.simps\<close>)
qed

lemma read_digits_shorter: "read_digits s = Some x \<Longrightarrow> length (snd x) < length s"
  by (cases s) (auto simp: read_digits_def length_dropWhile_le le_imp_less_Suc split: if_splits)

lemma read_int_shorter: "read_int s = Some x \<Longrightarrow> length (snd x) < length s"
  using read_digits_shorter [of s] by (cases s) (auto simp: read_int_def split: if_splits)

lemma read_frac_shorter: "read_frac s = Some x \<Longrightarrow> length (snd x) \<le> length s"
  using read_digits_shorter [of "tl s"] by (cases s) (fastforce simp: read_frac_def split: if_splits)+

lemma read_exp_shorter: "read_exp s = Some x \<Longrightarrow> length (snd x) \<le> length s"
  using read_digits_shorter [of "tl s"] read_digits_shorter [of "tl (tl s)"]
  by (cases s; cases "tl s") (fastforce simp: read_exp_def split: if_splits)+

lemma json_number_shorter:
  assumes "json_number s = Some x" shows "length (snd x) < length s"
proof -
  define u where "u = (if s \<noteq> [] \<and> hd s = CHR ''-'' then tl s else s)"
  obtain i r1 f r2 e r3 where "read_int u = Some (i, r1)" "read_frac r1 = Some (f, r2)" "read_exp r2 = Some (e, r3)" "snd x = r3"
    using assms by (auto simp: json_number_def Let_def u_def split: option.splits)
  moreover have "length u \<le> length s" by (simp add: u_def)
  ultimately show ?thesis using read_int_shorter read_frac_shorter read_exp_shorter by fastforce
qed

lemma skip_ws_Cons_length: "skip_ws s = c # cs \<Longrightarrow> length cs < length s"
  using skip_ws_length [of s] by simp

lemma all_later: "(\<And>m. P (Suc m)) \<Longrightarrow> 0 < (k::nat) \<Longrightarrow> \<forall>m. k \<le> m \<longrightarrow> P m"
  by (metis Suc_pred order.strict_trans2)

lemma json_fuel:
  "json_value n s = Some (v, r) \<Longrightarrow> length r < length s \<and> (\<forall>m. 2 * length s \<le> m \<longrightarrow> json_value m s = Some (v, r))"
  "json_elems n s = Some (vs, r) \<Longrightarrow> length r < length s \<and> (\<forall>m. 2 * length s + 1 \<le> m \<longrightarrow> json_elems m s = Some (vs, r))"
  "json_members n s = Some (ms, r) \<Longrightarrow> length r < length s \<and> (\<forall>m. 2 * length s + 1 \<le> m \<longrightarrow> json_members m s = Some (ms, r))"
proof (induction n s and n s and n s arbitrary: v r and vs r and ms r rule: json_value_json_elems_json_members.induct)
  case (2 n s)
  obtain c cs where s: "skip_ws s = c # cs" using json_value_start [OF 2(3)] by (cases "skip_ws s") auto
  note len = skip_ws_Cons_length [OF s]
  have pos: "0 < 2 * length s" using len by linarith
  consider "c = CHR ''{''" | "c = CHR ''[''" | "c \<noteq> CHR ''{''" "c \<noteq> CHR ''[''" by blast
  then show ?case
  proof cases
    case c: 1
    note o = json_object_value [OF s [unfolded c]]
    show ?thesis
    proof (cases "HasPrefix (skip_ws cs) ''}''")
      case True
      then have "length r < length s \<and> (\<forall>m. json_value (Suc m) s = Some (v, r))"
        using 2(3) len skip_ws_length [of cs] unfolding o by (auto simp: HasPrefix_single)
      then show ?thesis using all_later [of "\<lambda>m. json_value m s = Some (v, r)", OF _ pos] by blast
    next
      case False
      then obtain ms where v: "v = JObj ms" and ms: "json_members n cs = Some (ms, r)"
        using 2(3) unfolding o by (auto split: if_splits)
      have ih: "length r < length cs" "\<And>m. 2 * length cs + 1 \<le> m \<Longrightarrow> json_members m cs = Some (ms, r)"
        using 2(2) [OF s _ _ c False ms] by (simp_all add: c)
      have "json_value m s = Some (v, r)" if "2 * length s \<le> m" for m
        using o [of "m - 1"] ih(2) [of "m - 1"] len that False v by (cases m) auto
      then show ?thesis using ih(1) len by simp
    qed
  next
    case c: 2
    note o = json_array_value [OF s [unfolded c]]
    show ?thesis
    proof (cases "HasPrefix (skip_ws cs) '']''")
      case True
      then have "length r < length s \<and> (\<forall>m. json_value (Suc m) s = Some (v, r))"
        using 2(3) len skip_ws_length [of cs] unfolding o by (auto simp: HasPrefix_single)
      then show ?thesis using all_later [of "\<lambda>m. json_value m s = Some (v, r)", OF _ pos] by blast
    next
      case False
      then obtain vs where v: "v = JArr vs" and vs: "json_elems n cs = Some (vs, r)"
        using 2(3) unfolding o by (auto split: if_splits)
      have ih: "length r < length cs" "\<And>m. 2 * length cs + 1 \<le> m \<Longrightarrow> json_elems m cs = Some (vs, r)"
        using 2(1) [OF s _ c False vs] by (simp_all add: c)
      have "json_value m s = Some (v, r)" if "2 * length s \<le> m" for m
        using o [of "m - 1"] ih(2) [of "m - 1"] len that False v by (cases m) auto
      then show ?thesis using ih(1) len by simp
    qed
  next
    case 3
    have one: "json_value 1 s = Some (v, r)" using 2(3) json_value_scalar [OF s 3, of n] by simp
    then have "json_value m s = Some (v, r)" if "2 * length s \<le> m" for m
      using json_value_scalar [OF s 3, of "m - 1"] len that by (cases m) auto
    moreover have "length r < length s"
      using one s 3 len json_unq_shorter [of cs] json_number_shorter [of "c # cs"] skip_ws_length [of s]
      by (auto split: if_splits)
    ultimately show ?thesis by simp
  qed
next
  case (4 n s)
  obtain v r1 where v: "json_value n s = Some (v, r1)" using 4(3) by (auto split: option.splits)
  note iv = 4(1) [OF v]
  obtain e es where r1: "skip_ws r1 = e # es" using 4(3) v by (auto split: list.splits)
  note len = skip_ws_Cons_length [OF r1]
  show ?case
  proof (cases "e = CHR '']''")
    case True
    have "json_elems m s = Some (vs, r)" if "2 * length s + 1 \<le> m" for m
      using 4(3) v r1 True iv that by (cases m) auto
    moreover have "r = es" using 4(3) v r1 True by simp
    ultimately show ?thesis using iv len by auto
  next
    case False
    then obtain vs' where vs': "json_elems n es = Some (vs', r)" "e = CHR '',''" "vs = v # vs'"
      using 4(3) v r1 by (auto split: if_splits)
    note ie = 4(2) [OF v refl r1 False vs'(2,1)]
    have "json_elems m s = Some (vs, r)" if "2 * length s + 1 \<le> m" for m
      using v r1 False vs' iv ie len that by (cases m) auto
    then show ?thesis using iv ie len by auto
  qed
next
  case (6 n s)
  obtain ks where s: "skip_ws s = CHR 0x22 # ks" using json_members_start [OF 6(3)] by blast
  obtain k r1 where k: "json_unq ks = Some (k, r1)" using 6(3) s by (auto split: option.splits)
  obtain ds where r1: "skip_ws r1 = CHR '':'' # ds" using 6(3) s k by (auto split: list.splits if_splits)
  obtain v r2 where v: "json_value n ds = Some (v, r2)" using 6(3) s k r1 by (auto split: option.splits)
  have iv: "length r2 < length ds" "\<And>m. 2 * length ds \<le> m \<Longrightarrow> json_value m ds = Some (v, r2)"
    using 6(1) [OF s _ k refl r1 _ v] by simp_all
  have ds: "length ds < length s"
    using skip_ws_Cons_length [OF s] json_unq_shorter [OF k] skip_ws_Cons_length [OF r1] by simp
  obtain e es where r2: "skip_ws r2 = e # es" using 6(3) unfolding json_members_step [OF s k r1 v] by (auto split: list.splits)
  note len = skip_ws_Cons_length [OF r2]
  show ?case
  proof (cases "e = CHR ''}''")
    case True
    have "json_members m s = Some (ms, r)" if "2 * length s + 1 \<le> m" for m
      using 6(3) json_members_step [OF s k r1 v] json_members_step [OF s k r1 iv(2) [of "m - 1"]] r2 True ds that
      by (cases m) auto
    moreover have "r = es" using 6(3) r2 True unfolding json_members_step [OF s k r1 v] by simp
    ultimately show ?thesis using iv(1) len ds by auto
  next
    case False
    then obtain ms' where ms': "json_members n es = Some (ms', r)" "e = CHR '',''" "ms = (k, v) # ms'"
      using 6(3) r2 unfolding json_members_step [OF s k r1 v] by (auto split: if_splits)
    have ie: "length r < length es" "\<And>m. 2 * length es + 1 \<le> m \<Longrightarrow> json_members m es = Some (ms', r)"
      using 6(2) [OF s _ k refl r1 _ v refl r2 False ms'(2,1)] by simp_all
    have "json_members m s = Some (ms, r)" if "2 * length s + 1 \<le> m" for m
      using json_members_step [OF s k r1 iv(2) [of "m - 1"]] r2 False ms' ie(2) [of "m - 1"] iv(1) ds len that
      by (cases m) auto
    then show ?thesis using iv(1) ie(1) len ds by auto
  qed
qed simp_all

text \<open>So the walk and the parser agree on every text.\<close>

lemma walk_is_strict_parse:
  "(\<exists>r. rejectDuplicateKeys s = Inr r \<and> json_value (2 * length s + 2) s = Some (v, r)) \<longleftrightarrow>
     (\<exists>r. json_value (2 * length s + 2) s = Some (v, r) \<and> strict_tree 0 v)"
proof
  assume "\<exists>r. rejectDuplicateKeys s = Inr r \<and> json_value (2 * length s + 2) s = Some (v, r)"
  then obtain r where w: "walkValue (2 * length s + 3) 0 None s = Inr r" and v: "json_value (2 * length s + 2) s = Some (v, r)"
    by (auto simp: rejectDuplicateKeys_def)
  obtain v' where "json_value (2 * length s + 3) s = Some (v', r)" "strict_tree 0 v'"
    using walk_sound(1) [OF w] by (auto simp: json_value_skip simp del: json_value.simps)
  moreover have "json_value (2 * length s + 3) s = Some (v, r)"
    using json_fuel(1) [OF v] by (simp del: json_value.simps)
  ultimately show "\<exists>r. json_value (2 * length s + 2) s = Some (v, r) \<and> strict_tree 0 v" using v by auto
next
  assume "\<exists>r. json_value (2 * length s + 2) s = Some (v, r) \<and> strict_tree 0 v"
  then obtain r where v: "json_value (2 * length s + 2) s = Some (v, r)" "strict_tree 0 v" by blast
  have "walkValue (Suc (2 * length s + 2)) 0 None s = Inr r" by (rule walk_complete(1) [OF v]) simp
  then show "\<exists>r. rejectDuplicateKeys s = Inr r \<and> json_value (2 * length s + 2) s = Some (v, r)"
    using v(1) by (auto simp: rejectDuplicateKeys_def eval_nat_numeral simp del: walkValue.simps json_value.simps)
qed

section \<open>What is accepted\<close>

definition cited_ok :: "string list \<Rightarrow> string list \<Rightarrow> bool" where
  "cited_ok allowed ids \<longleftrightarrow> length ids \<le> ClassifierInput.MaxEvidenceIDs \<and> distinct ids
     \<and> list_all (\<lambda>i. i \<noteq> [] \<and> length i \<le> MaxEvidenceIDLen \<and> i \<in> set allowed) ids"

definition score_members :: "string list \<Rightarrow> (string \<times> json) list \<Rightarrow> classifier_assessment \<Rightarrow> bool" where
  "score_members allowed ms a \<longleftrightarrow>
     fst ` set ms \<subseteq> set allowed_fields
     \<and> map_of ms ''schema_version'' = Some (JStr SchemaRawAssessment)
     \<and> (\<exists>t. map_of ms ''severity'' = Some (JNum t) \<and> \<not> ContainsAny t ''.eE'' \<and> number_value t = asm_Severity a)
     \<and> 0 \<le> asm_Severity a \<and> asm_Severity a \<le> 100
     \<and> map_of ms ''reason_code'' = Some (JStr (asm_ReasonCode a)) \<and> asm_ReasonCode a \<in> set ValidRawReasonCodes
     \<and> map_of ms ''evidence_event_ids'' \<in> {Some (JArr (map JStr (asm_EvidenceEventIDs a)))} \<union> (if asm_EvidenceEventIDs a = [] then {None} else {})
     \<and> cited_ok allowed (asm_EvidenceEventIDs a)
     \<and> a = zero_assessment\<lparr>asm_SchemaVersion := SchemaRawAssessment, asm_Severity := asm_Severity a,
          asm_ReasonCode := asm_ReasonCode a, asm_EvidenceEventIDs := asm_EvidenceEventIDs a, asm_ParseStatus := StatusOK\<rparr>"

lemma strict_string_iff: "decodeStrictString v = Inr s \<longleftrightarrow> v = JStr s"
  by (auto simp: decodeStrictString_def split: json.splits)

lemma strict_int_iff:
  "decodeStrictInt v = Inr i \<longleftrightarrow> (\<exists>t. v = JNum t \<and> \<not> ContainsAny t ''.eE'' \<and> number_value t = i \<and> - (2 ^ 63) \<le> i \<and> i < 2 ^ 63)"
  by (auto simp: decodeStrictInt_def Let_def split: json.splits)

lemma strict_strings_map: "strict_strings (map JStr ids) = Inr ids"
  by (induction ids) (simp_all add: decodeStrictString_def)

lemma strict_strings_Inr: "strict_strings vs = Inr ids \<Longrightarrow> vs = map JStr ids"
  by (induction vs arbitrary: ids) (auto simp: strict_string_iff split: sum.splits)

lemma strict_strings_iff: "strict_strings vs = Inr ids \<longleftrightarrow> vs = map JStr ids"
  using strict_strings_map strict_strings_Inr by blast

lemma strict_array_iff: "decodeStrictStringArray v = Inr ids \<longleftrightarrow> v = JArr (map JStr ids)"
  by (auto simp: decodeStrictStringArray_def strict_strings_iff split: json.splits)

lemma evidence_faulty_iff:
  "\<not> evidence_faulty allowed seen ids \<longleftrightarrow> distinct ids \<and> set ids \<inter> set seen = {}
     \<and> list_all (\<lambda>i. i \<noteq> [] \<and> length i \<le> MaxEvidenceIDLen \<and> i \<in> set allowed) ids"
  by (induction ids arbitrary: seen) auto

lemma evidence_of_iff:
  "evidence_of allowed raw = Inr ids \<longleftrightarrow>
     map_of raw ''evidence_event_ids'' \<in> {Some (JArr (map JStr ids))} \<union> (if ids = [] then {None} else {}) \<and> cited_ok allowed ids"
proof (cases "map_of raw ''evidence_event_ids''")
  case (Some v)
  have none: "ids \<noteq> [] \<Longrightarrow> cited_ok allowed ids \<Longrightarrow> allowed \<noteq> []" by (cases ids) (auto simp: cited_ok_def)
  show ?thesis
  proof (cases "decodeStrictStringArray v")
    case (Inl e)
    then have "v \<noteq> JArr (map JStr ids)" using strict_array_iff [of v ids] by simp
    then show ?thesis by (simp add: evidence_of_def Some Inl)
  next
    case (Inr js)
    then have v: "v = JArr (map JStr js)" by (simp add: strict_array_iff)
    have "evidence_of allowed raw = Inr ids \<longleftrightarrow> js = ids \<and> cited_ok allowed ids"
      using none evidence_faulty_iff [of allowed "[]" js]
      by (auto simp: evidence_of_def Some Inr cited_ok_def)
    moreover have "map JStr js = map JStr ids \<longleftrightarrow> js = ids"
      by (rule inj_map_eq_map) (simp add: inj_def)
    moreover have "Some (JArr (map JStr js)) \<in> {Some (JArr (map JStr ids))} \<union> (if ids = [] then {None} else {})
        \<longleftrightarrow> map JStr js = map JStr ids" by (cases "ids = []") simp_all
    ultimately show ?thesis unfolding Some v by metis
  qed
qed (auto simp: evidence_of_def cited_ok_def)

lemma closed_fields: "list_all (\<lambda>k. k \<notin> set allowed_fields) forbidden_fields"
  by code_simp

lemma closed_keys:
  assumes "fst ` set ms \<subseteq> set allowed_fields"
  shows "\<not> list_ex (\<lambda>k. map_of ms k \<noteq> None) forbidden_fields" "\<not> list_ex (\<lambda>(k, v). k \<notin> set allowed_fields) ms"
proof -
  show "\<not> list_ex (\<lambda>k. map_of ms k \<noteq> None) forbidden_fields"
    using assms closed_fields by (auto simp: list_ex_iff list_all_iff map_of_eq_None_iff)
  show "\<not> list_ex (\<lambda>(k, v). k \<notin> set allowed_fields) ms"
    using assms by (force simp: list_ex_iff)
qed

lemma assessment_of_iff: "assessment_of allowed ms = Inr a \<longleftrightarrow> score_members allowed ms a"
proof
  assume run: "assessment_of allowed ms = Inr a"
  have "\<not> list_ex (\<lambda>(k, v). k \<notin> set allowed_fields) ms" using run by (auto simp: assessment_of_def split: if_splits)
  then have keys: "fst ` set ms \<subseteq> set allowed_fields" by (force simp: list_ex_iff)
  note open1 = run [unfolded assessment_of_def if_not_P [OF closed_keys(1) [OF keys]] if_not_P [OF closed_keys(2) [OF keys]]]
  obtain sv sev rc where m: "map_of ms ''schema_version'' = Some sv" "map_of ms ''severity'' = Some sev" "map_of ms ''reason_code'' = Some rc"
    using open1 by (auto split: option.splits)
  note open2 = open1 [unfolded m prod.case option.case]
  have sv: "sv = JStr SchemaRawAssessment"
    using open2 by (cases "decodeStrictString sv") (auto simp: strict_string_iff split: if_splits)
  obtain i where i: "decodeStrictInt sev = Inr i" "ValidateSeverity i"
    using open2 by (cases "decodeStrictInt sev") (auto split: sum.splits if_splits)
  obtain code where c: "rc = JStr code" "ValidateRawReasonCode code"
    using open2 by (cases "decodeStrictString rc") (auto simp: strict_string_iff split: sum.splits if_splits)
  obtain ids where e: "evidence_of allowed ms = Inr ids"
    using open2 by (cases "evidence_of allowed ms") (auto split: sum.splits if_splits)
  have a: "a = zero_assessment\<lparr>asm_SchemaVersion := SchemaRawAssessment, asm_Severity := i,
      asm_ReasonCode := code, asm_EvidenceEventIDs := ids, asm_ParseStatus := StatusOK\<rparr>"
    using open2 by (simp add: sv i c e decodeStrictString_def)
  have ids: "asm_EvidenceEventIDs a = ids" "asm_Severity a = i" "asm_ReasonCode a = code" by (simp_all add: a)
  show "score_members allowed ms a"
    unfolding score_members_def ids
    using m sv i c e [unfolded evidence_of_iff] keys strict_int_iff [of sev i]
    by (auto simp: a ValidateSeverity_def ValidateRawReasonCode_def)
next
  assume s: "score_members allowed ms a"
  then have keys: "fst ` set ms \<subseteq> set allowed_fields" by (simp add: score_members_def)
  obtain t where t: "map_of ms ''severity'' = Some (JNum t)" "\<not> ContainsAny t ''.eE''" "number_value t = asm_Severity a"
    and r: "0 \<le> asm_Severity a" "asm_Severity a \<le> 100" using s by (auto simp: score_members_def)
  have i: "decodeStrictInt (JNum t) = Inr (asm_Severity a)" using t r by (simp add: strict_int_iff)
  have e: "evidence_of allowed ms = Inr (asm_EvidenceEventIDs a)" using s unfolding evidence_of_iff by (simp add: score_members_def)
  have m: "map_of ms ''schema_version'' = Some (JStr SchemaRawAssessment)" "map_of ms ''reason_code'' = Some (JStr (asm_ReasonCode a))"
      "ValidateRawReasonCode (asm_ReasonCode a)"
    using s by (simp_all add: score_members_def ValidateRawReasonCode_def)
  have "assessment_of allowed ms = Inr (zero_assessment\<lparr>asm_SchemaVersion := SchemaRawAssessment, asm_Severity := asm_Severity a,
      asm_ReasonCode := asm_ReasonCode a, asm_EvidenceEventIDs := asm_EvidenceEventIDs a, asm_ParseStatus := StatusOK\<rparr>)"
    unfolding assessment_of_def if_not_P [OF closed_keys(1) [OF keys]] if_not_P [OF closed_keys(2) [OF keys]] t(1) m prod.case option.case
    by (simp add: decodeStrictString_def i e m(3) ValidateSeverity_def r)
  moreover have "\<dots> = Inr a" using s unfolding score_members_def by metis
  ultimately show "assessment_of allowed ms = Inr a" by simp
qed

lemma trimmed_start:
  assumes "trimJSONWhitespace s = c # cs" shows "skip_ws (c # cs) = c # cs"
proof -
  define u where "u = dropWhile isJSONWhitespace s"
  have "prefix (trimJSONWhitespace s) u"
    unfolding trimJSONWhitespace_def u_def [symmetric] by (metis rev_rev_ident suffix_dropWhile suffix_to_prefix)
  then obtain us where u: "u = c # us" using assms by (cases u) (auto simp: prefix_def)
  then have "\<not> isJSONWhitespace c" using hd_dropWhile [of isJSONWhitespace s] by (simp add: u_def)
  then show ?thesis by (simp add: skip_ws_def isJSONWhitespace_def)
qed

lemma json_value_object_start:
  assumes "json_value n s = Some (JObj ms, r)" shows "\<exists>cs. skip_ws s = CHR ''{'' # cs"
proof -
  obtain k where k: "n = Suc k" using assms by (cases n) auto
  obtain c cs where s: "skip_ws s = c # cs" using json_value_start [OF assms] by (cases "skip_ws s") auto
  have "c = CHR ''{''"
  proof (rule ccontr)
    assume c: "c \<noteq> CHR ''{''"
    show False
    proof (cases "c = CHR ''[''")
      case True
      then show False using assms unfolding k json_array_value [OF s [unfolded True]] by (auto split: if_splits)
    next
      case False
      have one: "json_value 1 s = Some (JObj ms, r)" using assms json_value_scalar [OF s c False, of k] k by simp
      then show False using json_scalar_tree [OF one s c False, of 0] json_number_scalar [of _ "JObj ms" r 0] s c False
        by (auto simp: json_number_def Let_def split: if_splits option.splits)
    qed
  qed
  then show ?thesis using s by simp
qed

lemma json_parse_iff: "json_parse s = Some v \<longleftrightarrow> (\<exists>r. json_value (2 * length s + 2) s = Some (v, r) \<and> skip_ws r = [])"
  by (auto simp: json_parse_def simp del: json_value.simps split: option.splits prod.splits if_splits)

lemma validateSingle_iff:
  "validateSingleJSONObject s = None \<and> json_parse s = Some v \<longleftrightarrow> json_parse s = Some v \<and> strict_tree 0 v"
proof (cases "json_parse s = Some v")
  case True
  then obtain r where v: "json_value (2 * length s + 2) s = Some (v, r)" "skip_ws r = []" by (auto simp: json_parse_iff)
  have "validateSingleJSONObject s = None \<longleftrightarrow> (\<exists>r. rejectDuplicateKeys s = Inr r)"
    unfolding validateSingleJSONObject_def v(1) by (auto simp: v(2) split: sum.splits)
  also have "\<dots> \<longleftrightarrow> strict_tree 0 v"
  proof
    assume "\<exists>r. rejectDuplicateKeys s = Inr r"
    then obtain r' where w: "rejectDuplicateKeys s = Inr r'" by blast
    have "\<exists>v'. json_value (2 * length s + 3) s = Some (v', r')"
      using walk_sound(1) [OF w [unfolded rejectDuplicateKeys_def]] by (auto simp: json_value_skip simp del: json_value.simps)
    then have "r' = r" using json_fuel(1) [OF v(1)] by (auto simp del: json_value.simps)
    then show "strict_tree 0 v" using walk_is_strict_parse [of s v] w v(1) by (auto simp del: json_value.simps)
  next
    assume "strict_tree 0 v"
    then show "\<exists>r. rejectDuplicateKeys s = Inr r" using walk_is_strict_parse [of s v] v(1) by (auto simp del: json_value.simps)
  qed
  finally show ?thesis using True by simp
qed simp

lemma guard_iff: "(if A then Inl e else X) = Inr a \<longleftrightarrow> \<not> A \<and> X = Inr a"
  by simp

lemma object_branch_iff:
  "(case V of Some e \<Rightarrow> Inl e | None \<Rightarrow> (case J of Some (JObj raw) \<Rightarrow> f raw | _ \<Rightarrow> Inl x)) = Inr a
     \<longleftrightarrow> (\<exists>ms. (V = None \<and> J = Some (JObj ms)) \<and> f ms = Inr a)"
  by (auto split: option.splits json.splits)

text \<open>C16: What the strict parser lets through. A model's text becomes an assessment exactly when it fits
  the byte limit, is valid UTF-8 without exotic white space at its ends and without a code fence, and is one JSON
  object and nothing else, in which no object has a key twice and nothing lies deeper than eight levels; its keys are among the four
  score fields, schema, severity and reason code are present with their types, the severity is an integer
  from 0 to 100 written without fraction or exponent, the reason is a known code, and the evidence is at most 32 pairwise
  different ids that were shown in the request. The assessment is then exactly these fields. In particular no text can
  supply a field of the transport (model, hashes, usage).\<close>

theorem strict_parse_exact:
  "ParseRawAssessmentStrict content mb allowed = Inr a \<longleftrightarrow>
     (let t = trimJSONWhitespace content in
        int (length content) \<le> (if mb \<le> 0 then DefaultMaxOutputBytes else mb)
      \<and> ValidString content \<and> \<not> hasNonJSONBoundaryWhitespace content \<and> \<not> Contains t ''```''
      \<and> (\<exists>ms. json_parse t = Some (JObj ms) \<and> strict_tree 0 (JObj ms) \<and> score_members allowed ms a))"
proof -
  define t where "t = trimJSONWhitespace content"
  define m where "m = (if mb \<le> 0 then DefaultMaxOutputBytes else mb)"
  have start: "t \<noteq> [] \<and> hd t = CHR ''{''" if js: "json_parse t = Some (JObj ms)" for ms
  proof -
    obtain r where "json_value (2 * length t + 2) t = Some (JObj ms, r)" using js json_parse_iff by blast
    then obtain cs where "skip_ws t = CHR ''{'' # cs" using json_value_object_start by blast
    moreover from this obtain d ds where "t = d # ds" by (cases t) (auto simp: skip_ws_def)
    ultimately show ?thesis using trimmed_start [of content d ds] by (simp add: t_def)
  qed
  have tail: "(case validateSingleJSONObject t of Some e \<Rightarrow> Inl e
      | None \<Rightarrow> (case json_parse t of Some (JObj raw) \<Rightarrow> assessment_of allowed raw | _ \<Rightarrow> Inl ''json'')) = Inr a
    \<longleftrightarrow> (\<exists>ms. json_parse t = Some (JObj ms) \<and> strict_tree 0 (JObj ms) \<and> score_members allowed ms a)"
  proof -
    show ?thesis unfolding object_branch_iff validateSingle_iff assessment_of_iff by blast
  qed
  have fence: "HasPrefix t ''```'' \<or> Contains t ''```'' \<longleftrightarrow> Contains t ''```''"
    unfolding HasPrefix_iff Contains_iff by (metis append_Nil)
  show ?thesis
    unfolding ParseRawAssessmentStrict_def Let_def t_def [symmetric] m_def [symmetric] fence guard_iff tail
    using start by (auto simp: not_less)
qed

end
