(* ===== verification/EventStore.thy ===== *)
theory EventStore
  imports Detectors "HOL-Library.Sublist" "HOL-Library.Multiset"
begin

text \<open>
  The durable event store, \<open>pkg/state/store.go\<close> and \<open>migration.go\<close>, over the schema of
  \<open>pkg/state/migrations\<close>. The table \<open>events\<close> is the list of its rows in the order of their
  insertion, with the two uniqueness constraints of the schema. What SQLite and the clock decide is a
  parameter: the text of its error messages (\<open>sql_driver\<close>), how timestamps are written and read
  (\<open>gotime\<close>), and for each attempt of a transaction a turn that says what other
  connections did before it, whether the context was done, and which statements failed. The list of
  turns is finite: where it ends the deadline of the retry loop has passed. C9: appends are atomic; C27: what a query of a session returns.
\<close>

section \<open>Rows and events\<close>

record event_row =
  er_EventID :: string
  er_SessionID :: string
  er_SequenceNum :: int
  er_EventType :: string
  er_Timestamp :: string
  er_Payload :: string

record event_store =
  es_rows :: "event_row list"
  es_closed :: bool
  es_inFlight :: int

datatype store_error = ErrDuplicateSequence string | ErrDuplicateEventID string | ErrInvalidEvent | ErrStoreClosed
  | StoreError string

record gotime =
  gt_Format :: "string \<Rightarrow> time \<Rightarrow> string"
  gt_Parse :: "string \<Rightarrow> string \<Rightarrow> time option"

abbreviation FixedTimestampLayout :: string where "FixedTimestampLayout \<equiv> ''2006-01-02T15:04:05.000000000Z''"
abbreviation RFC3339Nano :: string where "RFC3339Nano \<equiv> ''2006-01-02T15:04:05.999999999Z07:00''"
abbreviation RFC3339 :: string where "RFC3339 \<equiv> ''2006-01-02T15:04:05Z07:00''"

definition parseTimestamp :: "gotime \<Rightarrow> string \<Rightarrow> time option" where
  "parseTimestamp gt s =
     (case gt_Parse gt FixedTimestampLayout s of
        Some t \<Rightarrow> Some t
      | None \<Rightarrow> (case gt_Parse gt RFC3339Nano s of Some t \<Rightarrow> Some t | None \<Rightarrow> gt_Parse gt RFC3339 s))"

definition event_row_of :: "gotime \<Rightarrow> agent_event \<Rightarrow> event_row" where
  "event_row_of gt e =
     \<lparr>er_EventID = ae_EventID e, er_SessionID = ae_SessionID e, er_SequenceNum = ae_SequenceNum e,
      er_EventType = ae_EventType e, er_Timestamp = gt_Format gt FixedTimestampLayout (ae_Timestamp e),
      er_Payload = (if ae_Payload e = [] then ''{}'' else ae_Payload e)\<rparr>"

definition valid_event :: "agent_event \<Rightarrow> bool" where
  "valid_event e \<longleftrightarrow> ae_EventID e \<noteq> [] \<and> ae_SessionID e \<noteq> [] \<and> ae_EventType e \<noteq> [] \<and> ae_SequenceNum e > 0"

section \<open>Transactions\<close>

record sql_driver =
  sd_dupEventID :: string
  sd_dupSequence :: string
  sd_pkFirst :: bool

record tx_fault =
  tf_prepare :: "string option"
  tf_exec :: "nat \<Rightarrow> string option"
  tf_commit :: "string option"

record 'd tx_turn =
  tu_others :: "'d \<Rightarrow> 'd"
  tu_ctx :: "string option"
  tu_begin :: "string option"
  tu_fault :: tx_fault

definition isBusyError :: "string \<Rightarrow> bool" where
  "isBusyError e \<longleftrightarrow> Contains e ''database is locked'' \<or> Contains e ''SQLITE_BUSY'' \<or> Contains e ''busy''"

text \<open>\<open>fn\<close> works on the state the transaction began in; on an error it is rolled back.\<close>

fun runTxWithRetry ::
  "(tx_fault \<Rightarrow> 'd \<Rightarrow> string + 'd) \<Rightarrow> string option \<Rightarrow> 'd tx_turn list \<Rightarrow> 'd \<Rightarrow> string option \<times> 'd" where
  "runTxWithRetry fn lastErr [] d =
     ((case lastErr of Some e \<Rightarrow> Some e | None \<Rightarrow> Some ''sqlite transaction timed out due to busy lock''), d)"
| "runTxWithRetry fn lastErr (t # ts) d0 =
     (let d = tu_others t d0 in
      case tu_ctx t of
        Some e \<Rightarrow> (Some e, d)
      | None \<Rightarrow>
          (case tu_begin t of
             Some e \<Rightarrow> if isBusyError e then runTxWithRetry fn (Some e) ts d else (Some e, d)
           | None \<Rightarrow>
               (case fn (tu_fault t) d of
                  Inr d' \<Rightarrow> (None, d')
                | Inl e \<Rightarrow> if isBusyError e then runTxWithRetry fn (Some e) ts d else (Some e, d))))"

text \<open>One \<open>INSERT\<close> under the constraints \<open>PRIMARY KEY (event_id)\<close> and \<open>UNIQUE (session_id, sequence_num)\<close>; when
  both fail, which one is reported is up to the engine.\<close>

definition row_key :: "event_row \<Rightarrow> string \<times> int" where
  "row_key r = (er_SessionID r, er_SequenceNum r)"

definition insert_row :: "sql_driver \<Rightarrow> event_row list \<Rightarrow> event_row \<Rightarrow> string + event_row list" where
  "insert_row drv rows r =
     (let pk = er_EventID r \<in> er_EventID ` set rows; uq = row_key r \<in> row_key ` set rows in
      if pk \<and> (sd_pkFirst drv \<or> \<not> uq) then Inl (sd_dupEventID drv)
      else if uq then Inl (sd_dupSequence drv)
      else Inr (rows @ [r]))"

fun exec_inserts ::
  "sql_driver \<Rightarrow> gotime \<Rightarrow> (nat \<Rightarrow> string option) \<Rightarrow> nat \<Rightarrow> event_row list \<Rightarrow> agent_event list \<Rightarrow> string + event_row list" where
  "exec_inserts drv gt fault i rows [] = Inr rows"
| "exec_inserts drv gt fault i rows (e # es) =
     (case fault i of
        Some x \<Rightarrow> Inl x
      | None \<Rightarrow>
          (case insert_row drv rows (event_row_of gt e) of
             Inl x \<Rightarrow> Inl x
           | Inr rows' \<Rightarrow> exec_inserts drv gt fault (Suc i) rows' es))"

definition append_tx :: "sql_driver \<Rightarrow> gotime \<Rightarrow> agent_event list \<Rightarrow> tx_fault \<Rightarrow> event_store \<Rightarrow> string + event_store" where
  "append_tx drv gt evs f s =
     (case tf_prepare f of
        Some e \<Rightarrow> Inl e
      | None \<Rightarrow>
          (case exec_inserts drv gt (tf_exec f) 0 (es_rows s) evs of
             Inl e \<Rightarrow> Inl e
           | Inr rows \<Rightarrow> (case tf_commit f of Some e \<Rightarrow> Inl e | None \<Rightarrow> Inr (s\<lparr>es_rows := rows\<rparr>))))"

section \<open>Errors\<close>

definition mapSQLiteError :: "string \<Rightarrow> store_error" where
  "mapSQLiteError e =
     (if Contains e ''unq_events_session_seq'' \<or> Contains e ''events.session_id, events.sequence_num''
         \<or> Contains e ''session_id, sequence_num'' then ErrDuplicateSequence e
      else if Contains e ''events.event_id'' \<or> Contains e ''PRIMARY KEY'' then ErrDuplicateEventID e
      else if Contains e ''UNIQUE constraint failed'' then ErrDuplicateSequence e
      else StoreError e)"

definition isSQLiteInterrupt :: "string \<Rightarrow> bool" where
  "isSQLiteInterrupt e \<longleftrightarrow> (let m = ToLower e in Contains m ''interrupted'' \<or> Contains m ''interrupt'')"

definition wrapDBErr :: "bool \<Rightarrow> store_error \<Rightarrow> store_error" where
  "wrapDBErr shut err =
     (case err of
        StoreError e \<Rightarrow>
          if Contains e ''database is closed'' \<or> Contains e ''transaction has already been committed or rolled back''
             \<or> Contains e ''sql: connection is already closed'' \<or> isSQLiteInterrupt e then ErrStoreClosed
          else if shut then ErrStoreClosed else err
      | _ \<Rightarrow> err)"

definition mapWriteErr :: "bool \<Rightarrow> string option \<Rightarrow> string \<Rightarrow> store_error" where
  "mapWriteErr shut ctx e =
     (case mapSQLiteError e of
        StoreError e' \<Rightarrow>
          (case ctx of
             Some c \<Rightarrow> if isSQLiteInterrupt e then StoreError c else wrapDBErr shut (StoreError e')
           | None \<Rightarrow> wrapDBErr shut (StoreError e'))
      | err \<Rightarrow> err)"

section \<open>Operations\<close>

text \<open>How a call is scheduled: what happens between the two reads of the closed flag, the turns of its
  transaction, the context when the error is mapped, and whether a concurrent \<open>Close\<close> is seen only then.\<close>

record store_env =
  sv_enter :: "event_store \<Rightarrow> event_store"
  sv_turns :: "event_store tx_turn list"
  sv_ctx :: "string option"
  sv_lateClose :: bool

definition leave :: "event_store \<Rightarrow> event_store" where
  "leave s = s\<lparr>es_inFlight := es_inFlight s - 1\<rparr>"

definition enter :: "(event_store \<Rightarrow> event_store) \<Rightarrow> event_store \<Rightarrow> store_error option \<times> event_store" where
  "enter mid s =
     (if es_closed s then (Some ErrStoreClosed, s)
      else let s1 = mid (s\<lparr>es_inFlight := es_inFlight s + 1\<rparr>) in
        if es_closed s1 then (Some ErrStoreClosed, leave s1) else (None, s1))"

definition AppendEvents ::
  "sql_driver \<Rightarrow> gotime \<Rightarrow> store_env \<Rightarrow> agent_event option list \<Rightarrow> event_store \<Rightarrow> store_error option \<times> event_store" where
  "AppendEvents drv gt env evs s =
     (case enter (sv_enter env) s of
        (Some e, s') \<Rightarrow> (Some e, s')
      | (None, s1) \<Rightarrow>
          if evs = [] then (None, leave s1)
          else if list_ex (\<lambda>e. case e of None \<Rightarrow> True | Some x \<Rightarrow> \<not> valid_event x) evs then (Some ErrInvalidEvent, leave s1)
          else (case runTxWithRetry (append_tx drv gt (map the evs)) None (sv_turns env) s1 of
                  (None, s2) \<Rightarrow> (None, leave s2)
                | (Some e, s2) \<Rightarrow> (Some (mapWriteErr (es_closed s2 \<or> sv_lateClose env) (sv_ctx env) e), leave s2)))"

definition AppendEvent ::
  "sql_driver \<Rightarrow> gotime \<Rightarrow> store_env \<Rightarrow> agent_event option \<Rightarrow> event_store \<Rightarrow> store_error option \<times> event_store" where
  "AppendEvent drv gt env ev s =
     (case ev of
        None \<Rightarrow> (Some ErrInvalidEvent, s)
      | Some e \<Rightarrow> if \<not> valid_event e then (Some ErrInvalidEvent, s) else AppendEvents drv gt env [Some e] s)"

record event_filter =
  ef_SessionID :: string
  ef_EventTypes :: "string list"
  ef_StartSequence :: "int option"
  ef_EndSequence :: "int option"
  ef_StartTime :: "time option"
  ef_EndTime :: "time option"
  ef_Limit :: int
  ef_Offset :: int
  ef_Ascending :: bool

text \<open>The \<open>WHERE\<close> clause; SQLite compares texts byte by byte.\<close>

definition row_matches :: "gotime \<Rightarrow> event_filter \<Rightarrow> event_row \<Rightarrow> bool" where
  "row_matches gt f r \<longleftrightarrow>
     (ef_SessionID f = [] \<or> er_SessionID r = ef_SessionID f)
     \<and> (ef_EventTypes f = [] \<or> er_EventType r \<in> set (ef_EventTypes f))
     \<and> (case ef_StartSequence f of None \<Rightarrow> True | Some n \<Rightarrow> er_SequenceNum r \<ge> n)
     \<and> (case ef_EndSequence f of None \<Rightarrow> True | Some n \<Rightarrow> er_SequenceNum r \<le> n)
     \<and> (case ef_StartTime f of None \<Rightarrow> True | Some t \<Rightarrow> er_Timestamp r \<ge> gt_Format gt FixedTimestampLayout t)
     \<and> (case ef_EndTime f of None \<Rightarrow> True | Some t \<Rightarrow> er_Timestamp r \<le> gt_Format gt FixedTimestampLayout t)"

text \<open>\<open>ORDER BY\<close> leaves rows of equal sequence numbers in the order of the scan, \<open>LIMIT\<close> and \<open>OFFSET\<close> cut a page.\<close>

definition order_rows :: "bool \<Rightarrow> event_row list \<Rightarrow> event_row list" where
  "order_rows asc rows = (if asc then sort_key er_SequenceNum rows else sort_key (\<lambda>r. - er_SequenceNum r) rows)"

definition page_rows :: "int \<Rightarrow> int \<Rightarrow> 'a list \<Rightarrow> 'a list" where
  "page_rows limit offset rows =
     (if limit > 0 then take (nat limit) (if offset > 0 then drop (nat offset) rows else rows)
      else if offset > 0 then drop (nat offset) rows else rows)"

definition select_rows :: "gotime \<Rightarrow> event_filter \<Rightarrow> event_row list \<Rightarrow> event_row list" where
  "select_rows gt f rows = page_rows (ef_Limit f) (ef_Offset f) (order_rows (ef_Ascending f) (filter (row_matches gt f) rows))"

record query_env =
  qv_enter :: "event_store \<Rightarrow> event_store"
  qv_scan :: "event_row list \<Rightarrow> event_row list"
  qv_error :: "string option"
  qv_lateClose :: bool

definition event_of_row :: "gotime \<Rightarrow> event_row \<Rightarrow> agent_event option" where
  "event_of_row gt r = map_option (\<lambda>t. \<lparr>ae_EventID = er_EventID r, ae_SessionID = er_SessionID r,
     ae_SequenceNum = er_SequenceNum r, ae_EventType = er_EventType r, ae_Timestamp = t, ae_Payload = er_Payload r\<rparr>)
     (parseTimestamp gt (er_Timestamp r))"

definition QueryEvents :: "gotime \<Rightarrow> query_env \<Rightarrow> event_filter \<Rightarrow> event_store \<Rightarrow> (store_error + agent_event list) \<times> event_store" where
  "QueryEvents gt env f s =
     (case enter (qv_enter env) s of
        (Some e, s') \<Rightarrow> (Inl e, s')
      | (None, s1) \<Rightarrow>
          (case qv_error env of
             Some e \<Rightarrow> (Inl (wrapDBErr (es_closed s1 \<or> qv_lateClose env) (StoreError e)), leave s1)
           | None \<Rightarrow>
               let evs = map (event_of_row gt) (select_rows gt f (qv_scan env (es_rows s1))) in
               (if list_ex Option.is_none evs then Inl (StoreError ''failed to parse event timestamp'') else Inr (map the evs),
                leave s1)))"

definition GetLatestSequenceNum :: "query_env \<Rightarrow> string \<Rightarrow> event_store \<Rightarrow> (store_error + int) \<times> event_store" where
  "GetLatestSequenceNum env sess s =
     (case enter (qv_enter env) s of
        (Some e, s') \<Rightarrow> (Inl e, s')
      | (None, s1) \<Rightarrow>
          (case qv_error env of
             Some e \<Rightarrow> (Inl (wrapDBErr (es_closed s1 \<or> qv_lateClose env) (StoreError e)), leave s1)
           | None \<Rightarrow>
               let ns = map er_SequenceNum (filter (\<lambda>r. er_SessionID r = sess) (es_rows s1)) in
               (Inr (if ns = [] then 0 else Max (set ns)), leave s1)))"

text \<open>\<open>Close\<close>: the flag; the wait for operations in flight and the closing of the handle keep the rows.\<close>

definition CloseStore :: "event_store \<Rightarrow> event_store" where
  "CloseStore s = s\<lparr>es_closed := True\<rparr>"

section \<open>Opening\<close>

record store_options =
  so_DatabasePath :: string
  so_BusyTimeout :: time
  so_MaxOpenConns :: int
  so_MaxIdleConns :: int

definition memory_db :: "string \<Rightarrow> bool" where
  "memory_db p \<longleftrightarrow> p = [] \<or> p = '':memory:'' \<or> Contains p ''mode=memory''"

text \<open>The data source name; \<open>n\<close> is the counter of in-memory databases after its increment.\<close>

definition store_dsn :: "nat \<Rightarrow> store_options \<Rightarrow> string" where
  "store_dsn n opts =
     (let p = so_DatabasePath opts;
          path = (if p = [] \<or> p = '':memory:'' then ''file:reinframe-memory-'' @ dec n @ ''?mode=memory&cache=shared'' else p);
          busy = (if so_BusyTimeout opts > 0 then so_BusyTimeout opts div 1000000 else 5000);
          pragmas = ''_pragma=busy_timeout('' @ itoa busy @ '')&_pragma=journal_mode(WAL)&_pragma=foreign_keys(1)''
            @ ''&_pragma=synchronous(NORMAL)&_txlock=immediate''
      in if Contains path ''?'' then path @ ''&'' @ pragmas else path @ ''?'' @ pragmas)"

definition store_pool :: "store_options \<Rightarrow> int \<times> int" where
  "store_pool opts =
     (let mo = (if memory_db (so_DatabasePath opts) then 1 else if so_MaxOpenConns opts > 0 then so_MaxOpenConns opts else 10);
          mi = (if so_MaxIdleConns opts > 0 then so_MaxIdleConns opts else 5)
      in (mo, min mi mo))"

text \<open>The option \<open>_txlock=immediate\<close> makes every transaction a \<open>BEGIN IMMEDIATE\<close>, so one attempt is a single
  step of the model.\<close>

section \<open>Migrations\<close>

text \<open>The table of applied versions and the scripts the schema is the result of, in order.\<close>

record migration =
  mg_Version :: int
  mg_Name :: string
  mg_SQL :: string

record migration_db =
  md_table :: bool
  md_applied :: "(int \<times> string) list"
  md_scripts :: "string list"

record dir_entry =
  de_Name :: string
  de_IsDir :: bool
  de_Content :: "string option"

fun load_migrations :: "dir_entry list \<Rightarrow> string + migration list" where
  "load_migrations [] = Inr []"
| "load_migrations (e # es) =
     (if de_IsDir e \<or> \<not> HasSuffix (de_Name e) ''.sql'' then load_migrations es
      else if CHR ''_'' \<notin> set (de_Name e) then load_migrations es
      else case atoi (takeWhile (\<lambda>c. c \<noteq> CHR ''_'') (de_Name e)) of
        None \<Rightarrow> Inl (''invalid migration version in file '' @ de_Name e)
      | Some v \<Rightarrow>
          (case de_Content e of
             None \<Rightarrow> Inl (''failed to read migration file '' @ de_Name e)
           | Some sql \<Rightarrow>
               (case load_migrations es of
                  Inl x \<Rightarrow> Inl x
                | Inr ms \<Rightarrow> Inr (\<lparr>mg_Version = v, mg_Name = de_Name e, mg_SQL = sql\<rparr> # ms))))"

definition bootstrap_tx :: "tx_fault \<Rightarrow> migration_db \<Rightarrow> string + migration_db" where
  "bootstrap_tx f d =
     (case tf_exec f 0 of
        Some e \<Rightarrow> Inl (''failed to bootstrap schema_migrations table: '' @ e)
      | None \<Rightarrow> (case tf_commit f of Some e \<Rightarrow> Inl e | None \<Rightarrow> Inr (d\<lparr>md_table := True\<rparr>)))"

definition migrate_tx :: "migration \<Rightarrow> tx_fault \<Rightarrow> migration_db \<Rightarrow> string + migration_db" where
  "migrate_tx m f d =
     (case tf_exec f 0 of
        Some e \<Rightarrow> Inl (''failed to check migration status: '' @ e)
      | None \<Rightarrow>
          if mg_Version m \<in> fst ` set (md_applied d) then (case tf_commit f of Some e \<Rightarrow> Inl e | None \<Rightarrow> Inr d)
          else (case tf_exec f 1 of
            Some e \<Rightarrow> Inl (''failed to execute migration '' @ mg_Name m @ '': '' @ e)
          | None \<Rightarrow>
              (case tf_exec f 2 of
                 Some e \<Rightarrow> Inl (''failed to record migration '' @ mg_Name m @ '': '' @ e)
               | None \<Rightarrow>
                   (case tf_commit f of
                      Some e \<Rightarrow> Inl e
                    | None \<Rightarrow> Inr (d\<lparr>md_applied := md_applied d @ [(mg_Version m, mg_Name m)],
                        md_scripts := md_scripts d @ [mg_SQL m]\<rparr>)))))"

fun apply_migrations ::
  "(nat \<Rightarrow> migration_db tx_turn list) \<Rightarrow> nat \<Rightarrow> migration list \<Rightarrow> migration_db \<Rightarrow> string option \<times> migration_db" where
  "apply_migrations env i [] d = (None, d)"
| "apply_migrations env i (m # ms) d =
     (case runTxWithRetry (migrate_tx m) None (env i) d of
        (Some e, d') \<Rightarrow> (Some e, d')
      | (None, d') \<Rightarrow> apply_migrations env (Suc i) ms d')"

text \<open>\<open>env i\<close> are the turns of the \<open>i\<close>-th transaction; the first creates the table of versions.\<close>

definition RunMigrations ::
  "(nat \<Rightarrow> migration_db tx_turn list) \<Rightarrow> dir_entry list \<Rightarrow> migration_db \<Rightarrow> string option \<times> migration_db" where
  "RunMigrations env entries d =
     (case runTxWithRetry bootstrap_tx None (env 0) d of
        (Some e, d') \<Rightarrow> (Some e, d')
      | (None, d') \<Rightarrow>
          (case load_migrations entries of
             Inl e \<Rightarrow> (Some e, d')
           | Inr ms \<Rightarrow> apply_migrations env 1 (sort_key mg_Version ms) d'))"

text \<open>A version is applied at most once, and a run that succeeds leaves every version applied, whatever
  other processes migrate at the same time.\<close>

definition applied_grows :: "migration_db \<Rightarrow> migration_db \<Rightarrow> bool" where
  "applied_grows d d' \<longleftrightarrow> prefix (md_applied d) (md_applied d') \<and> (distinct (map fst (md_applied d)) \<longrightarrow> distinct (map fst (md_applied d')))"

lemma applied_grows_refl [simp]: "applied_grows d d"
  by (simp add: applied_grows_def)

lemma applied_grows_trans: "applied_grows a b \<Longrightarrow> applied_grows b c \<Longrightarrow> applied_grows a c"
  by (auto simp: applied_grows_def)

lemma runTx_invariant:
  assumes "runTxWithRetry fn lastErr ts d = (err, d')" and "list_all (\<lambda>t. \<forall>d. R d (tu_others t d)) ts"
    and "\<And>f d d'. fn f d = Inr d' \<Longrightarrow> R d d'" and "R d d" and "\<And>a b c. R a b \<Longrightarrow> R b c \<Longrightarrow> R a c" and "\<And>a. R a a"
  shows "R d d' \<and> (err = None \<longrightarrow> (\<exists>f d1. R d d1 \<and> fn f d1 = Inr d'))"
  using assms(1,2)
proof (induction ts arbitrary: lastErr d)
  case Nil
  then show ?case using assms(6) by (auto split: option.splits)
next
  case (Cons t ts)
  have step: "R d (tu_others t d)" using Cons.prems(2) by simp
  have again: ?case if r: "runTxWithRetry fn x ts (tu_others t d) = (err, d')" for x
  proof -
    have "list_all (\<lambda>t. \<forall>d. R d (tu_others t d)) ts" using Cons.prems(2) by simp
    from Cons.IH [OF r this] show ?thesis using step assms(5) by blast
  qed
  show ?case
  proof (cases "tu_ctx t = None \<and> tu_begin t = None \<and> (\<exists>d1. fn (tu_fault t) (tu_others t d) = Inr d1)")
    case True
    then obtain d1 where c: "tu_ctx t = None" "tu_begin t = None" and f: "fn (tu_fault t) (tu_others t d) = Inr d1" by blast
    have "err = None" "d' = d1" using Cons.prems(1) by (simp_all add: Let_def c f)
    then show ?thesis using f step assms(3) [OF f] assms(5) by blast
  next
    case False
    have "(\<exists>x. runTxWithRetry fn x ts (tu_others t d) = (err, d')) \<or> (err \<noteq> None \<and> d' = tu_others t d)"
    proof (cases "tu_ctx t")
      case c: None
      show ?thesis
      proof (cases "tu_begin t")
        case None
        then obtain e where "fn (tu_fault t) (tu_others t d) = Inl e" using False c by (cases "fn (tu_fault t) (tu_others t d)") auto
        then show ?thesis using Cons.prems(1) c None by (cases "isBusyError e") (auto simp: Let_def)
      next
        case (Some e)
        then show ?thesis using Cons.prems(1) c by (cases "isBusyError e") (auto simp: Let_def)
      qed
    qed (use Cons.prems(1) in \<open>auto simp: Let_def\<close>)
    then show ?thesis using again step by auto
  qed
qed

lemma migrate_grows: "migrate_tx m f d = Inr d' \<Longrightarrow> applied_grows d d' \<and> mg_Version m \<in> fst ` set (md_applied d')"
  by (auto simp: migrate_tx_def applied_grows_def split: option.splits if_splits)

lemma apply_migrations_all:
  assumes "apply_migrations env i ms d = (None, d')"
    and "\<And>i. list_all (\<lambda>t. \<forall>d. applied_grows d (tu_others t d)) (env i)"
  shows "applied_grows d d' \<and> mg_Version ` set ms \<subseteq> fst ` set (md_applied d')"
  using assms(1)
proof (induction ms arbitrary: i d)
  case (Cons m ms)
  then obtain d1 where tx: "runTxWithRetry (migrate_tx m) None (env i) d = (None, d1)"
    and more: "apply_migrations env (Suc i) ms d1 = (None, d')" by (auto split: prod.splits option.splits)
  have first: "applied_grows d d1 \<and> mg_Version m \<in> fst ` set (md_applied d1)"
    using runTx_invariant [where R = applied_grows, OF tx assms(2)] migrate_grows applied_grows_trans by (metis applied_grows_refl)
  have rest: "applied_grows d1 d' \<and> mg_Version ` set ms \<subseteq> fst ` set (md_applied d')" by (rule Cons.IH [OF more])
  have "fst ` set (md_applied d1) \<subseteq> fst ` set (md_applied d')"
    using rest by (auto simp: applied_grows_def prefix_def)
  then show ?case using first rest applied_grows_trans by auto
qed simp

section \<open>Runs\<close>

text \<open>What any connection can do to the store: commit a batch that the constraints admit, raise the closed
  flag, count its operation in or out.\<close>

definition row_ok :: "event_row \<Rightarrow> bool" where
  "row_ok r \<longleftrightarrow> er_EventID r \<noteq> [] \<and> er_SessionID r \<noteq> [] \<and> er_EventType r \<noteq> [] \<and> er_SequenceNum r > 0 \<and> er_Payload r \<noteq> []"

definition rows_ok :: "event_row list \<Rightarrow> bool" where
  "rows_ok rows \<longleftrightarrow> distinct (map er_EventID rows) \<and> distinct (map row_key rows) \<and> list_all row_ok rows"

inductive db_step :: "event_store \<Rightarrow> event_store \<Rightarrow> bool" where
  commit: "rows_ok (es_rows s @ new) \<Longrightarrow> db_step s (s\<lparr>es_rows := es_rows s @ new\<rparr>)"
| closing: "db_step s (s\<lparr>es_closed := True\<rparr>)"
| counting: "db_step s (s\<lparr>es_inFlight := n\<rparr>)"

definition db_run :: "event_store \<Rightarrow> event_store \<Rightarrow> bool" where
  "db_run s s' \<longleftrightarrow> db_step\<^sup>*\<^sup>* s s'"

definition db_initial :: "event_store \<Rightarrow> bool" where
  "db_initial s \<longleftrightarrow> es_rows s = []"

definition db_reached :: "event_store \<Rightarrow> bool" where
  "db_reached s \<longleftrightarrow> (\<exists>s0. db_initial s0 \<and> db_run s0 s)"

definition db_grows :: "event_store \<Rightarrow> event_store \<Rightarrow> bool" where
  "db_grows s s' \<longleftrightarrow> prefix (es_rows s) (es_rows s') \<and> (es_closed s \<longrightarrow> es_closed s')"

interpretation event_runs: transition_system db_initial db_step "\<lambda>s. rows_ok (es_rows s)" db_grows
proof unfold_locales
  fix s assume "db_initial s"
  then show "rows_ok (es_rows s)" by (simp add: db_initial_def rows_ok_def)
next
  fix s s' assume "rows_ok (es_rows s)" "db_step s s'"
  from this(2,1) show "rows_ok (es_rows s') \<and> db_grows s s'" by cases (simp_all add: db_grows_def)
qed (auto simp: db_grows_def)

lemma db_run_refl [simp]: "db_run s s"
  by (simp add: db_run_def)

lemma db_run_trans: "db_run a b \<Longrightarrow> db_run b c \<Longrightarrow> db_run a c"
  by (simp add: db_run_def)

lemma db_run_step: "db_step a b \<Longrightarrow> db_run a b"
  by (simp add: db_run_def)

lemma db_reached_run: "db_reached s \<Longrightarrow> db_run s s' \<Longrightarrow> db_reached s'"
  unfolding db_reached_def using db_run_trans by blast

lemma db_reached_ok: "db_reached s \<Longrightarrow> rows_ok (es_rows s)"
  unfolding db_reached_def db_run_def using event_runs.reached_inv by blast

lemma db_run_grows: "db_reached s \<Longrightarrow> db_run s s' \<Longrightarrow> db_grows s s'"
  using event_runs.run_inv db_reached_ok unfolding db_run_def by blast

lemma db_run_count: "db_run s (s\<lparr>es_inFlight := n\<rparr>)"
  by (rule db_run_step) (rule counting)

lemma CloseStore_run: "db_run s (CloseStore s)"
  unfolding CloseStore_def by (rule db_run_step) (rule closing)

definition others_ok :: "store_env \<Rightarrow> bool" where
  "others_ok env \<longleftrightarrow> (\<forall>s. db_run s (sv_enter env s)) \<and> list_all (\<lambda>t. \<forall>s. db_run s (tu_others t s)) (sv_turns env)"

section \<open>The insert loop\<close>

lemma insert_row_Inr: "insert_row drv rows r = Inr rows' \<Longrightarrow> rows' = rows @ [r] \<and> er_EventID r \<notin> er_EventID ` set rows \<and> row_key r \<notin> row_key ` set rows"
  by (auto simp: insert_row_def Let_def split: if_splits)

lemma event_row_ok: "valid_event e \<Longrightarrow> row_ok (event_row_of gt e)"
  by (simp add: valid_event_def row_ok_def event_row_of_def)

lemma rows_ok_snoc:
  "rows_ok (rows @ [r]) \<longleftrightarrow> rows_ok rows \<and> row_ok r \<and> er_EventID r \<notin> er_EventID ` set rows \<and> row_key r \<notin> row_key ` set rows"
  by (auto simp: rows_ok_def)

lemma exec_inserts_Inr:
  assumes "exec_inserts drv gt fault i rows es = Inr rows'" and "rows_ok rows" and "list_all valid_event es"
  shows "rows' = rows @ map (event_row_of gt) es \<and> rows_ok rows'"
  using assms
proof (induction drv gt fault i rows es rule: exec_inserts.induct)
  case (2 drv gt fault i rows e es)
  then obtain rows1 where ins: "fault i = None" "insert_row drv rows (event_row_of gt e) = Inr rows1"
      and more: "exec_inserts drv gt fault (Suc i) rows1 es = Inr rows'"
    by (auto split: option.splits sum.splits)
  have "rows1 = rows @ [event_row_of gt e]" "rows_ok rows1"
    using insert_row_Inr [OF ins(2)] 2(3,4) event_row_ok rows_ok_snoc by auto
  then show ?case using 2(1) [OF ins more] 2(4) by auto
qed simp

lemma exec_inserts_clean:
  assumes "\<And>i. fault i = None" and "rows_ok rows" and "list_all valid_event es"
  shows "rows_ok (rows @ map (event_row_of gt) es) \<longleftrightarrow> (\<exists>rows'. exec_inserts drv gt fault i rows es = Inr rows')"
    and "exec_inserts drv gt fault i rows es = Inl x \<Longrightarrow> x \<in> {sd_dupEventID drv, sd_dupSequence drv}"
  using assms(2,3)
proof (induction es arbitrary: rows i)
  case (Cons e es)
  let ?r = "event_row_of gt e"
  { case 1
    show ?case
    proof (cases "insert_row drv rows ?r")
      case (Inl x)
      then have "er_EventID ?r \<in> er_EventID ` set rows \<or> row_key ?r \<in> row_key ` set rows"
        by (auto simp: insert_row_def Let_def split: if_splits)
      then have "\<not> rows_ok (rows @ map (event_row_of gt) (e # es))" by (auto simp: rows_ok_def)
      then show ?thesis using assms(1) Inl by simp
    next
      case (Inr rows1)
      then have "rows1 = rows @ [?r]" "rows_ok rows1"
        using insert_row_Inr [OF Inr] 1 event_row_ok rows_ok_snoc by auto
      then show ?thesis using Cons(1) [of rows1 "Suc i"] 1 assms(1) Inr by simp
    qed
  next
    case 2
    show ?case
    proof (cases "insert_row drv rows ?r")
      case (Inl y)
      then show ?thesis using 2 assms(1) by (auto simp: insert_row_def Let_def split: if_splits)
    next
      case (Inr rows1)
      then have "rows_ok rows1" using insert_row_Inr [OF Inr] 2 event_row_ok rows_ok_snoc by auto
      then show ?thesis using Cons(2) [of "Suc i" rows1] 2 assms(1) Inr by simp
    qed
  }
qed (simp_all add: assms)

section \<open>Appends\<close>

text \<open>The store after the first \<open>k\<close> turns of other connections, without the call's own rows.\<close>

definition after_turns :: "event_store tx_turn list \<Rightarrow> nat \<Rightarrow> event_store \<Rightarrow> event_store" where
  "after_turns ts k d = foldl (\<lambda>s t. tu_others t s) d (take k ts)"

lemma append_tx_Inr:
  assumes "append_tx drv gt evs f d = Inr d'" and "rows_ok (es_rows d)" and "list_all valid_event evs"
  shows "d' = d\<lparr>es_rows := es_rows d @ map (event_row_of gt) evs\<rparr> \<and> rows_ok (es_rows d')"
  using assms exec_inserts_Inr [of drv gt "tf_exec f" 0 "es_rows d" evs]
  by (auto simp: append_tx_def split: option.splits sum.splits)

lemma append_turns:
  assumes "runTxWithRetry (append_tx drv gt evs) lastErr ts d = (err, d')" and "db_reached d"
    and "list_all (\<lambda>t. \<forall>s. db_run s (tu_others t s)) ts" and "list_all valid_event evs"
  shows "\<exists>k. db_run d (after_turns ts k d)
    \<and> d' = (if err = None then (after_turns ts k d)\<lparr>es_rows := es_rows (after_turns ts k d) @ map (event_row_of gt) evs\<rparr>
            else after_turns ts k d)
    \<and> rows_ok (es_rows d')"
  using assms
proof (induction ts arbitrary: lastErr d)
  case Nil
  then show ?case using db_reached_ok [of d] by (auto simp: after_turns_def split: option.splits)
next
  case (Cons t ts)
  let ?d = "tu_others t d"
  have run: "db_run d ?d" using Cons.prems(3) by simp
  have reached: "db_reached ?d" by (rule db_reached_run [OF Cons.prems(2) run])
  have shift: "after_turns (t # ts) (Suc k) d = after_turns ts k ?d" for k by (simp add: after_turns_def)
  have stop: "?case" if "err \<noteq> None" "d' = ?d"
    using that run db_reached_ok [OF reached] by (intro exI [of _ "Suc 0"]) (auto simp: after_turns_def)
  have again: "?case" if r: "runTxWithRetry (append_tx drv gt evs) x ts ?d = (err, d')" for x
  proof -
    have "list_all (\<lambda>t. \<forall>s. db_run s (tu_others t s)) ts" using Cons.prems(3) by simp
    from Cons.IH [OF r reached this Cons.prems(4)] obtain k where
      k: "db_run ?d (after_turns ts k ?d)" "rows_ok (es_rows d')"
        "d' = (if err = None then (after_turns ts k ?d)\<lparr>es_rows := es_rows (after_turns ts k ?d) @ map (event_row_of gt) evs\<rparr>
          else after_turns ts k ?d)" by blast
    have "db_run d (after_turns ts k ?d)" by (rule db_run_trans [OF run k(1)])
    then show ?thesis using k(2,3) by (intro exI [of _ "Suc k"] conjI) (simp_all only: shift)
  qed
  consider (ctx) e where "tu_ctx t = Some e"
    | (start) e where "tu_ctx t = None" "tu_begin t = Some e"
    | (fault) e where "tu_ctx t = None" "tu_begin t = None" "append_tx drv gt evs (tu_fault t) ?d = Inl e"
    | (commit) d1 where "tu_ctx t = None" "tu_begin t = None" "append_tx drv gt evs (tu_fault t) ?d = Inr d1"
    by (cases "tu_ctx t"; cases "tu_begin t"; cases "append_tx drv gt evs (tu_fault t) ?d") auto
  then show ?case
  proof cases
    case ctx
    have "err = Some e" "d' = ?d" using Cons.prems(1) by (simp_all add: Let_def ctx)
    then show ?thesis by (intro stop) simp_all
  next
    case start
    show ?thesis
    proof (cases "isBusyError e")
      case True
      show ?thesis by (rule again) (use Cons.prems(1) in \<open>simp add: Let_def start True\<close>)
    next
      case False
      have "err = Some e" "d' = ?d" using Cons.prems(1) by (simp_all add: Let_def start False)
      then show ?thesis by (intro stop) simp_all
    qed
  next
    case fault
    show ?thesis
    proof (cases "isBusyError e")
      case True
      show ?thesis by (rule again) (use Cons.prems(1) in \<open>simp add: Let_def fault True\<close>)
    next
      case False
      have "err = Some e" "d' = ?d" using Cons.prems(1) by (simp_all add: Let_def fault False)
      then show ?thesis by (intro stop) simp_all
    qed
  next
    case commit
    have "err = None" "d' = d1" using Cons.prems(1) by (simp_all add: Let_def commit)
    then show ?thesis
      using append_tx_Inr [OF commit(3) db_reached_ok [OF reached] Cons.prems(4)] run
      by (intro exI [of _ "Suc 0"]) (auto simp: after_turns_def)
  qed
qed

lemma enter_run:
  assumes "\<And>s. db_run s (mid s)" and "enter mid s = (e, s1)"
  shows "db_run s s1" and "e = None \<Longrightarrow> s1 = mid (s\<lparr>es_inFlight := es_inFlight s + 1\<rparr>)"
    and "e \<noteq> None \<Longrightarrow> es_rows s1 = es_rows s \<or> es_rows s1 = es_rows (mid (s\<lparr>es_inFlight := es_inFlight s + 1\<rparr>))"
proof -
  have m: "db_run s (mid (s\<lparr>es_inFlight := es_inFlight s + 1\<rparr>))" using db_run_trans [OF db_run_count assms(1)] .
  show "db_run s s1" using assms(2) m db_run_trans [OF m db_run_count]
    by (auto simp: enter_def leave_def Let_def split: if_splits)
  show "e = None \<Longrightarrow> s1 = mid (s\<lparr>es_inFlight := es_inFlight s + 1\<rparr>)"
    "e \<noteq> None \<Longrightarrow> es_rows s1 = es_rows s \<or> es_rows s1 = es_rows (mid (s\<lparr>es_inFlight := es_inFlight s + 1\<rparr>))"
    using assms(2) by (auto simp: enter_def leave_def Let_def split: if_splits)
qed

lemma leave_simps [simp]: "es_rows (leave s) = es_rows s" "es_closed (leave s) = es_closed s" "db_run s (leave s)"
  by (simp_all add: leave_def db_run_count)

text \<open>The rows another connection had committed when a call entered and \<open>k\<close> turns had passed.\<close>

definition foreign_rows :: "store_env \<Rightarrow> event_store \<Rightarrow> nat \<Rightarrow> event_row list" where
  "foreign_rows env s k =
     es_rows (after_turns (sv_turns env) k (sv_enter env (s\<lparr>es_inFlight := es_inFlight s + 1\<rparr>)))"

lemma append_atomic:
  assumes "db_reached s" and "others_ok env" and "AppendEvents drv gt env evs s = (err, s')"
  shows "db_run s s'"
    and "if err = None then evs = [] \<or> (\<exists>k. es_rows s' = foreign_rows env s k @ map (event_row_of gt \<circ> the) evs)
         else es_rows s' = es_rows s \<or> (\<exists>k. es_rows s' = foreign_rows env s k)"
proof -
  obtain e s1 where en: "enter (sv_enter env) s = (e, s1)" by (metis surjective_pairing)
  have mid: "\<And>s. db_run s (sv_enter env s)" using assms(2) by (simp add: others_ok_def)
  note er = enter_run [OF mid en]
  have at0: "foreign_rows env s 0 = es_rows s1" if "e = None" using er(2) [OF that] by (simp add: foreign_rows_def after_turns_def)
  have both: "db_run s s' \<and> (if err = None then evs = [] \<or> (\<exists>k. es_rows s' = foreign_rows env s k @ map (event_row_of gt \<circ> the) evs)
         else es_rows s' = es_rows s \<or> (\<exists>k. es_rows s' = foreign_rows env s k))"
  proof (cases e)
    case (Some x)
    then have "s' = s1" "err = Some x" using assms(3) en by (auto simp: AppendEvents_def)
    then show ?thesis using er(1,3) Some by (auto simp: foreign_rows_def after_turns_def intro!: exI [of _ 0])
  next
    case None
    note at0 = at0 [OF None]
    have run1: "db_run s (leave s1)" using db_run_trans [OF er(1)] by simp
    show ?thesis
    proof (cases "evs = [] \<or> list_ex (\<lambda>e. case e of None \<Rightarrow> True | Some x \<Rightarrow> \<not> valid_event x) evs")
      case True
      then have "s' = leave s1" "err = None \<longrightarrow> evs = []" using assms(3) en None by (auto simp: AppendEvents_def split: if_splits)
      then show ?thesis using run1 at0 by (metis leave_simps(1))
    next
      case False
      then have valid: "list_all valid_event (map the evs)"
        by (auto simp: list_ex_iff list_all_iff split: option.splits)
      obtain r s2 where tx: "runTxWithRetry (append_tx drv gt (map the evs)) None (sv_turns env) s1 = (r, s2)" by (metis surjective_pairing)
      have s': "s' = leave s2" "err = None \<longleftrightarrow> r = None"
        using assms(3) False en None tx by (auto simp: AppendEvents_def split: option.splits)
      have reached1: "db_reached s1" by (rule db_reached_run [OF assms(1) er(1)])
      have turns: "list_all (\<lambda>t. \<forall>s. db_run s (tu_others t s)) (sv_turns env)" using assms(2) by (simp add: others_ok_def)
      obtain k where k: "db_run s1 (after_turns (sv_turns env) k s1)" "rows_ok (es_rows s2)"
        and s2: "s2 = (if r = None then (after_turns (sv_turns env) k s1)\<lparr>es_rows := es_rows (after_turns (sv_turns env) k s1)
            @ map (event_row_of gt) (map the evs)\<rparr> else after_turns (sv_turns env) k s1)"
        using append_turns [OF tx reached1 turns valid] by blast
      have "foreign_rows env s k = es_rows (after_turns (sv_turns env) k s1)" using er(2) [OF None] by (simp add: foreign_rows_def)
      moreover have "db_run (after_turns (sv_turns env) k s1) s2"
        using k(2) s2 by (auto intro!: db_run_step commit)
      then have "db_run s s'" using db_run_trans [OF db_run_trans [OF er(1) k(1)]] db_run_trans s'(1) leave_simps(3) by blast
      moreover have "es_rows s' = (if err = None then foreign_rows env s k @ map (event_row_of gt \<circ> the) evs else foreign_rows env s k)"
        using s2 s' calculation(1) by simp
      ultimately show ?thesis by (metis (no_types, lifting))
    qed
  qed
  show "db_run s s'" using both by blast
  show "if err = None then evs = [] \<or> (\<exists>k. es_rows s' = foreign_rows env s k @ map (event_row_of gt \<circ> the) evs)
         else es_rows s' = es_rows s \<or> (\<exists>k. es_rows s' = foreign_rows env s k)" using both by blast
qed

text \<open>A turn in which nothing but the constraints can stop the transaction.\<close>

definition clean_turn :: "event_store tx_turn \<Rightarrow> bool" where
  "clean_turn t \<longleftrightarrow> tu_ctx t = None \<and> tu_begin t = None \<and> tf_prepare (tu_fault t) = None
     \<and> tf_exec (tu_fault t) = (\<lambda>_. None) \<and> tf_commit (tu_fault t) = None"

text \<open>What the error mapping relies on in the engine's messages.\<close>

definition sqlite_messages :: "sql_driver \<Rightarrow> bool" where
  "sqlite_messages drv \<longleftrightarrow>
     Contains (sd_dupSequence drv) ''events.session_id, events.sequence_num''
     \<and> Contains (sd_dupEventID drv) ''events.event_id''
     \<and> \<not> Contains (sd_dupEventID drv) ''session_id, sequence_num''
     \<and> \<not> Contains (sd_dupEventID drv) ''events.session_id, events.sequence_num''
     \<and> \<not> Contains (sd_dupEventID drv) ''unq_events_session_seq''
     \<and> \<not> isBusyError (sd_dupSequence drv) \<and> \<not> isBusyError (sd_dupEventID drv)"

definition modernc :: sql_driver where
  "modernc = \<lparr>sd_dupEventID = ''constraint failed: UNIQUE constraint failed: events.event_id (1555)'',
     sd_dupSequence = ''constraint failed: UNIQUE constraint failed: events.session_id, events.sequence_num (2067)'',
     sd_pkFirst = True\<rparr>"

lemma modernc_messages: "sqlite_messages modernc"
  unfolding sqlite_messages_def by code_simp

definition given :: "agent_event option list \<Rightarrow> bool" where
  "given evs \<longleftrightarrow> evs \<noteq> [] \<and> list_all (\<lambda>e. \<exists>x. e = Some x \<and> valid_event x) evs"

lemma duplicate_errors:
  assumes "sqlite_messages drv"
  shows "mapSQLiteError (sd_dupSequence drv) = ErrDuplicateSequence (sd_dupSequence drv)"
    and "mapSQLiteError (sd_dupEventID drv) = ErrDuplicateEventID (sd_dupEventID drv)"
    and "mapWriteErr b x (sd_dupSequence drv) = ErrDuplicateSequence (sd_dupSequence drv)"
    and "mapWriteErr b x (sd_dupEventID drv) = ErrDuplicateEventID (sd_dupEventID drv)"
proof -
  note m = assms [unfolded sqlite_messages_def]
  show s: "mapSQLiteError (sd_dupSequence drv) = ErrDuplicateSequence (sd_dupSequence drv)"
    unfolding mapSQLiteError_def using m by simp
  show e: "mapSQLiteError (sd_dupEventID drv) = ErrDuplicateEventID (sd_dupEventID drv)"
    unfolding mapSQLiteError_def using m by simp
  show "mapWriteErr b x (sd_dupSequence drv) = ErrDuplicateSequence (sd_dupSequence drv)" by (simp add: mapWriteErr_def s)
  show "mapWriteErr b x (sd_dupEventID drv) = ErrDuplicateEventID (sd_dupEventID drv)" by (simp add: mapWriteErr_def e)
qed

lemma append_clean:
  assumes "db_reached s" and "others_ok env" and "sqlite_messages drv" and "given evs"
    and "sv_turns env = t # ts" and "clean_turn t" and "enter (sv_enter env) s = (None, s1)"
    and "AppendEvents drv gt env evs s = (err, s')"
  shows "err = None \<longleftrightarrow> rows_ok (foreign_rows env s 1 @ map (event_row_of gt \<circ> the) evs)"
    and "err \<in> {None, Some (ErrDuplicateEventID (sd_dupEventID drv)), Some (ErrDuplicateSequence (sd_dupSequence drv))}"
proof -
  have mid: "\<And>s. db_run s (sv_enter env s)" using assms(2) by (simp add: others_ok_def)
  note er = enter_run [OF mid assms(7)]
  define d where "d = tu_others t s1"
  have "db_reached d" unfolding d_def
    using db_reached_run [OF db_reached_run [OF assms(1) er(1)]] assms(2,5) by (simp add: others_ok_def)
  note ok = db_reached_ok [OF this]
  have rows: "foreign_rows env s 1 = es_rows d" using er(2) [OF refl] assms(5) by (simp add: foreign_rows_def after_turns_def d_def)
  have valid: "list_all valid_event (map the evs)" "evs \<noteq> []"
      "\<not> list_ex (\<lambda>e. case e of None \<Rightarrow> True | Some x \<Rightarrow> \<not> valid_event x) evs"
    using assms(4) by (force simp: given_def list_all_iff list_ex_iff)+
  let ?ins = "exec_inserts drv gt (\<lambda>_. None) 0 (es_rows d) (map the evs)"
  note c = exec_inserts_clean [where fault = "\<lambda>_. None" and gt = gt and drv = drv and i = 0, OF refl ok valid(1)]
  have tx: "runTxWithRetry (append_tx drv gt (map the evs)) None (sv_turns env) s1 =
      (case ?ins of Inr rows \<Rightarrow> (None, d\<lparr>es_rows := rows\<rparr>)
       | Inl e \<Rightarrow> if isBusyError e then runTxWithRetry (append_tx drv gt (map the evs)) (Some e) ts d else (Some e, d))"
    using assms(6) by (simp add: assms(5) clean_turn_def append_tx_def d_def [symmetric] split: sum.splits)
  have err: "err = (case ?ins of Inr rows \<Rightarrow> None | Inl e \<Rightarrow> Some (mapSQLiteError e))"
  proof (cases ?ins)
    case (Inl e)
    then have e: "e \<in> {sd_dupEventID drv, sd_dupSequence drv}" by (rule c(2))
    then have b: "\<not> isBusyError e" and m: "mapWriteErr b x e = mapSQLiteError e" for b x
      using duplicate_errors [OF assms(3)] assms(3) by (auto simp: sqlite_messages_def)
    have "runTxWithRetry (append_tx drv gt (map the evs)) None (sv_turns env) s1 = (Some e, d)" using tx Inl b by simp
    then show ?thesis using assms(7,8) valid(2,3) Inl by (simp add: AppendEvents_def m)
  next
    case (Inr r)
    then have "runTxWithRetry (append_tx drv gt (map the evs)) None (sv_turns env) s1 = (None, d\<lparr>es_rows := r\<rparr>)" using tx by simp
    then show ?thesis using assms(7,8) valid(2,3) Inr by (simp add: AppendEvents_def)
  qed
  show "err = None \<longleftrightarrow> rows_ok (foreign_rows env s 1 @ map (event_row_of gt \<circ> the) evs)"
    using c(1) err rows by (cases ?ins) auto
  show "err \<in> {None, Some (ErrDuplicateEventID (sd_dupEventID drv)), Some (ErrDuplicateSequence (sd_dupSequence drv))}"
    using err c(2) duplicate_errors(1,2) [OF assms(3)] by (cases ?ins) auto
qed

section \<open>Queries\<close>

text \<open>The scan may hand out the rows in any order.\<close>

definition scans :: "query_env \<Rightarrow> bool" where
  "scans env \<longleftrightarrow> (\<forall>rows. mset (qv_scan env rows) = mset rows)"

lemma sort_by_key_unique:
  fixes f :: "'a \<Rightarrow> int"
  assumes "mset xs = mset ys" and "inj_on f (set ys)"
  shows "sort_key f xs = sort_key f ys"
  by (rule sort_key_inj_key_eq) (use assms in \<open>auto dest: mset_eq_setD\<close>)

lemma sort_key_strict:
  fixes f :: "'a \<Rightarrow> int"
  assumes "inj_on f (set ys)" and "distinct ys"
  shows "sorted_wrt (<) (map f (sort_key f ys))"
proof -
  have "distinct (map f (sort_key f ys))" using assms by (simp add: distinct_map)
  then show ?thesis by (simp add: strict_sorted_iff)
qed

lemma select_scan:
  assumes "mset (scan rows) = mset rows" and "rows_ok rows" and "ef_SessionID f \<noteq> []"
  shows "select_rows gt f (scan rows) = select_rows gt f rows"
proof -
  have "mset (filter (row_matches gt f) (scan rows)) = mset (filter (row_matches gt f) rows)"
    using assms(1) by (metis mset_filter)
  moreover have "inj_on er_SequenceNum (set (filter (row_matches gt f) rows))"
    using assms(2,3) by (auto simp: rows_ok_def row_matches_def distinct_map inj_on_def row_key_def)
  moreover from this have "inj_on (\<lambda>r. - er_SequenceNum r) (set (filter (row_matches gt f) rows))"
    by (auto simp: inj_on_def)
  ultimately show ?thesis unfolding select_rows_def order_rows_def using sort_by_key_unique by metis
qed

section \<open>The store's contract\<close>

lemma append_facts:
  assumes "db_reached s" and "others_ok env" and "sqlite_messages drv"
    and "AppendEvents drv gt env evs s = (err, s')"
  shows "db_run s s' \<and> rows_ok (es_rows s') \<and> prefix (es_rows s) (es_rows s')"
    and "if err = None then evs = [] \<or> (\<exists>k. es_rows s' = foreign_rows env s k @ map (event_row_of gt \<circ> the) evs)
         else es_rows s' = es_rows s \<or> (\<exists>k. es_rows s' = foreign_rows env s k)"
    and "given evs \<Longrightarrow> sv_turns env = t # ts \<Longrightarrow> clean_turn t \<Longrightarrow> enter (sv_enter env) s = (None, s1) \<Longrightarrow>
         (err = None \<longleftrightarrow> rows_ok (foreign_rows env s 1 @ map (event_row_of gt \<circ> the) evs))
         \<and> err \<in> {None, Some (ErrDuplicateEventID (sd_dupEventID drv)), Some (ErrDuplicateSequence (sd_dupSequence drv))}"
proof -
  note a = append_atomic [OF assms(1,2,4)]
  show "db_run s s' \<and> rows_ok (es_rows s') \<and> prefix (es_rows s) (es_rows s')"
    using a(1) db_reached_ok [OF db_reached_run [OF assms(1) a(1)]] db_run_grows [OF assms(1) a(1)] by (simp add: db_grows_def)
  show "if err = None then evs = [] \<or> (\<exists>k. es_rows s' = foreign_rows env s k @ map (event_row_of gt \<circ> the) evs)
         else es_rows s' = es_rows s \<or> (\<exists>k. es_rows s' = foreign_rows env s k)" by (rule a(2))
  assume c: "given evs" "sv_turns env = t # ts" "clean_turn t" "enter (sv_enter env) s = (None, s1)"
  show "(err = None \<longleftrightarrow> rows_ok (foreign_rows env s 1 @ map (event_row_of gt \<circ> the) evs))
         \<and> err \<in> {None, Some (ErrDuplicateEventID (sd_dupEventID drv)), Some (ErrDuplicateSequence (sd_dupSequence drv))}"
    using append_clean [OF assms(1,2,3) c assms(4)] by blast
qed

lemma session_query_facts:
  assumes "db_reached s" and "scans env" and "\<And>s. db_run s (qv_enter env s)" and "qv_error env = None"
    and "enter (qv_enter env) s = (None, s1)" and "ef_SessionID f \<noteq> []"
    and "list_all (\<lambda>r. parseTimestamp gt (er_Timestamp r) \<noteq> None) (es_rows s1)"
    and "full = order_rows (ef_Ascending f) (filter (row_matches gt f) (es_rows s1))"
  shows "fst (QueryEvents gt env f s) = Inr (map (the \<circ> event_of_row gt) (page_rows (ef_Limit f) (ef_Offset f) full))"
    and "mset full = mset (filter (row_matches gt f) (es_rows s1))"
    and "sorted_wrt (\<lambda>a b. if ef_Ascending f then er_SequenceNum a < er_SequenceNum b else er_SequenceNum b < er_SequenceNum a) full"
    and "\<exists>m. fst (GetLatestSequenceNum env (ef_SessionID f) s) = Inr m
          \<and> (if filter (\<lambda>r. er_SessionID r = ef_SessionID f) (es_rows s1) = [] then m = 0
             else \<exists>r \<in> set (es_rows s1). er_SessionID r = ef_SessionID f \<and> er_SequenceNum r = m)
          \<and> list_all (\<lambda>r. er_SessionID r = ef_SessionID f \<longrightarrow> er_SequenceNum r \<le> m) (es_rows s1)"
proof -
  have ok: "rows_ok (es_rows s1)"
    by (rule db_reached_ok [OF db_reached_run [OF assms(1) enter_run(1) [OF assms(3,5)]]])
  have scan: "select_rows gt f (qv_scan env (es_rows s1)) = select_rows gt f (es_rows s1)"
    using select_scan [of "qv_scan env", OF _ ok assms(6)] assms(2) by (simp add: scans_def)
  have sel: "select_rows gt f (es_rows s1) = page_rows (ef_Limit f) (ef_Offset f) full"
    by (simp add: select_rows_def assms(8))
  show m: "mset full = mset (filter (row_matches gt f) (es_rows s1))"
    by (simp add: assms(8) order_rows_def)
  have "set (page_rows (ef_Limit f) (ef_Offset f) full) \<subseteq> set full"
    by (auto simp: page_rows_def dest: in_set_takeD in_set_dropD split: if_splits)
  also have "\<dots> \<subseteq> set (es_rows s1)" using mset_eq_setD [OF m] by auto
  finally have parsed: "\<not> list_ex Option.is_none (map (event_of_row gt) (page_rows (ef_Limit f) (ef_Offset f) full))"
    using assms(7) by (fastforce simp: list_ex_iff list_all_iff event_of_row_def Option.is_none_def)
  show "fst (QueryEvents gt env f s) = Inr (map (the \<circ> event_of_row gt) (page_rows (ef_Limit f) (ef_Offset f) full))"
    using parsed by (simp add: QueryEvents_def assms(4,5) scan sel Let_def)
  have inj: "inj_on er_SequenceNum (set (filter (row_matches gt f) (es_rows s1)))"
    using ok assms(6) by (auto simp: rows_ok_def row_matches_def distinct_map inj_on_def row_key_def)
  then have inj': "inj_on (\<lambda>r. - er_SequenceNum r) (set (filter (row_matches gt f) (es_rows s1)))" by (auto simp: inj_on_def)
  have dist: "distinct (filter (row_matches gt f) (es_rows s1))" using ok by (auto simp: rows_ok_def distinct_map)
  show "sorted_wrt (\<lambda>a b. if ef_Ascending f then er_SequenceNum a < er_SequenceNum b else er_SequenceNum b < er_SequenceNum a) full"
    using sort_key_strict [OF inj dist] sort_key_strict [OF inj' dist]
    by (simp add: assms(8) order_rows_def sorted_wrt_map)
  define ns where "ns = map er_SequenceNum (filter (\<lambda>r. er_SessionID r = ef_SessionID f) (es_rows s1))"
  have latest: "fst (GetLatestSequenceNum env (ef_SessionID f) s) = Inr (if ns = [] then 0 else Max (set ns))"
    by (simp add: GetLatestSequenceNum_def assms(4,5) Let_def ns_def)
  have bound: "er_SequenceNum r \<le> Max (set ns)" if "r \<in> set (es_rows s1)" "er_SessionID r = ef_SessionID f" for r
    by (rule Max_ge) (use that in \<open>auto simp: ns_def\<close>)
  have hit: "Max (set ns) \<in> set ns" if "ns \<noteq> []" using that by (intro Max_in) auto
  show "\<exists>m. fst (GetLatestSequenceNum env (ef_SessionID f) s) = Inr m
          \<and> (if filter (\<lambda>r. er_SessionID r = ef_SessionID f) (es_rows s1) = [] then m = 0
             else \<exists>r \<in> set (es_rows s1). er_SessionID r = ef_SessionID f \<and> er_SequenceNum r = m)
          \<and> list_all (\<lambda>r. er_SessionID r = ef_SessionID f \<longrightarrow> er_SequenceNum r \<le> m) (es_rows s1)"
  proof (cases "ns = []")
    case True
    then have "filter (\<lambda>r. er_SessionID r = ef_SessionID f) (es_rows s1) = []" by (simp add: ns_def)
    then show ?thesis using latest True by (auto simp: filter_empty_conv list_all_iff)
  next
    case False
    then have ne: "filter (\<lambda>r. er_SessionID r = ef_SessionID f) (es_rows s1) \<noteq> []" by (simp add: ns_def)
    have "\<exists>r \<in> set (es_rows s1). er_SessionID r = ef_SessionID f \<and> er_SequenceNum r = Max (set ns)"
      using hit [OF False] by (auto simp: ns_def)
    then show ?thesis using latest False ne bound by (intro exI [of _ "Max (set ns)"]) (simp add: list_all_iff)
  qed
qed

text \<open>
  C9. Appends are atomic. Let any call of \<open>AppendEvents\<close> meet a store reached by any interleaving of
  connections, with other connections committing, closing or failing between its attempts and
  SQLite failing any statement. Then the call is a run of the store: every event id and every
  session and sequence number is still unique, and rows are only added at the end. If it answers
  without an error, all its events are there, consecutive and in order; if it answers with an
  error, none of them is, whatever was retried. And if the first attempt meets no fault, it
  succeeds exactly when the constraints admit the whole batch, and otherwise names the duplicate.
\<close>

theorem append_is_atomic:
  assumes "db_reached s" and "others_ok env" and "sqlite_messages drv"
    and "AppendEvents drv gt env evs s = (err, s')"
  shows "db_run s s' \<and> rows_ok (es_rows s') \<and> prefix (es_rows s) (es_rows s')
    \<and> (if err = None then evs = [] \<or> (\<exists>k. es_rows s' = foreign_rows env s k @ map (event_row_of gt \<circ> the) evs)
       else es_rows s' = es_rows s \<or> (\<exists>k. es_rows s' = foreign_rows env s k))
    \<and> (given evs \<and> sv_turns env = t # ts \<and> clean_turn t \<and> enter (sv_enter env) s = (None, s1) \<longrightarrow>
       (err = None \<longleftrightarrow> rows_ok (foreign_rows env s 1 @ map (event_row_of gt \<circ> the) evs))
       \<and> err \<in> {None, Some (ErrDuplicateEventID (sd_dupEventID drv)), Some (ErrDuplicateSequence (sd_dupSequence drv))})"
  using append_facts(1,2) [OF assms] append_facts(3) [OF assms, of t ts s1] by blast

text \<open>
  C27. What a query of one session returns. Whatever order SQLite scans the rows in, the answer is the
  same: the page that \<open>Limit\<close> and \<open>Offset\<close> cut from the list of exactly the rows that match, each once,
  strictly ordered by sequence number in the direction asked for; and \<open>GetLatestSequenceNum\<close> is the largest
  sequence number of the session, or 0 if it has none.
\<close>

theorem session_query_exact:
  assumes "db_reached s" and "scans env" and "\<And>s. db_run s (qv_enter env s)" and "qv_error env = None"
    and "enter (qv_enter env) s = (None, s1)" and "ef_SessionID f \<noteq> []"
    and "list_all (\<lambda>r. parseTimestamp gt (er_Timestamp r) \<noteq> None) (es_rows s1)"
    and "full = order_rows (ef_Ascending f) (filter (row_matches gt f) (es_rows s1))"
  shows "fst (QueryEvents gt env f s) = Inr (map (the \<circ> event_of_row gt) (page_rows (ef_Limit f) (ef_Offset f) full))
    \<and> mset full = mset (filter (row_matches gt f) (es_rows s1))
    \<and> sorted_wrt (\<lambda>a b. if ef_Ascending f then er_SequenceNum a < er_SequenceNum b else er_SequenceNum b < er_SequenceNum a) full
    \<and> (\<exists>m. fst (GetLatestSequenceNum env (ef_SessionID f) s) = Inr m
          \<and> (if filter (\<lambda>r. er_SessionID r = ef_SessionID f) (es_rows s1) = [] then m = 0
             else \<exists>r \<in> set (es_rows s1). er_SessionID r = ef_SessionID f \<and> er_SequenceNum r = m)
          \<and> list_all (\<lambda>r. er_SessionID r = ef_SessionID f \<longrightarrow> er_SequenceNum r \<le> m) (es_rows s1))"
  by (intro conjI session_query_facts [OF assms])

section \<open>Witnesses\<close>

definition sample_time :: gotime where
  "sample_time = \<lparr>gt_Format = (\<lambda>_ t. itoa t), gt_Parse = (\<lambda>_ _. Some 0)\<rparr>"

definition sample_event :: "string \<Rightarrow> int \<Rightarrow> agent_event" where
  "sample_event i n = \<lparr>ae_EventID = i, ae_SessionID = ''s'', ae_SequenceNum = n, ae_EventType = ''tool_call'', ae_Timestamp = 0, ae_Payload = []\<rparr>"

definition sample_turn :: "event_store tx_turn" where
  "sample_turn = \<lparr>tu_others = (\<lambda>s. s), tu_ctx = None, tu_begin = None,
     tu_fault = \<lparr>tf_prepare = None, tf_exec = (\<lambda>_. None), tf_commit = None\<rparr>\<rparr>"

definition busy_turn :: "event_store tx_turn" where
  "busy_turn = sample_turn\<lparr>tu_begin := Some ''database is locked (5) (SQLITE_BUSY)''\<rparr>"

definition sample_env :: store_env where
  "sample_env = \<lparr>sv_enter = (\<lambda>s. s), sv_turns = [busy_turn, sample_turn], sv_ctx = None, sv_lateClose = False\<rparr>"

definition empty_store :: event_store where
  "empty_store = \<lparr>es_rows = [], es_closed = False, es_inFlight = 0\<rparr>"

definition filled_store :: event_store where
  "filled_store = snd (AppendEvents modernc sample_time sample_env [Some (sample_event ''b'' 2), Some (sample_event ''a'' 1)] empty_store)"

lemma empty_reached: "db_reached empty_store"
  unfolding db_reached_def by (intro exI [of _ empty_store]) (simp add: db_initial_def empty_store_def)

lemma sample_others: "others_ok sample_env"
  by (simp add: others_ok_def sample_env_def busy_turn_def sample_turn_def)

lemma filled_answer:
  "fst (AppendEvents modernc sample_time sample_env [Some (sample_event ''b'' 2), Some (sample_event ''a'' 1)] empty_store) = None"
  by code_simp

theorem append_is_atomic_witness:
  "rows_ok (es_rows filled_store) \<and> (\<exists>k. es_rows filled_store = foreign_rows sample_env empty_store k
     @ map (event_row_of sample_time) [sample_event ''b'' 2, sample_event ''a'' 1])"
  using append_is_atomic [OF empty_reached sample_others modernc_messages, of sample_time
      "[Some (sample_event ''b'' 2), Some (sample_event ''a'' 1)]" None filled_store] filled_answer
  by (simp add: filled_store_def prod_eq_iff)

definition sample_query :: query_env where
  "sample_query = \<lparr>qv_enter = (\<lambda>s. s), qv_scan = rev, qv_error = None, qv_lateClose = False\<rparr>"

definition sample_filter :: event_filter where
  "sample_filter = \<lparr>ef_SessionID = ''s'', ef_EventTypes = [], ef_StartSequence = None, ef_EndSequence = None, ef_StartTime = None,
     ef_EndTime = None, ef_Limit = 1, ef_Offset = 1, ef_Ascending = True\<rparr>"

lemma filled_reached: "db_reached filled_store"
  using append_atomic(1) [OF empty_reached sample_others, of modernc sample_time
      "[Some (sample_event ''b'' 2), Some (sample_event ''a'' 1)]"] db_reached_run [OF empty_reached]
  unfolding filled_store_def by (metis surjective_pairing)

lemma filled_rows: "map er_SequenceNum (es_rows filled_store) = [2, 1]" "es_closed filled_store = False"
  by code_simp+

lemma filled_enter:
  "enter (qv_enter sample_query) filled_store = (None, filled_store\<lparr>es_inFlight := es_inFlight filled_store + 1\<rparr>)"
  by (simp add: enter_def sample_query_def filled_rows)

theorem session_query_exact_witness:
  "fst (QueryEvents sample_time sample_query sample_filter filled_store) =
     Inr (map (the \<circ> event_of_row sample_time) (page_rows 1 1 (order_rows True (filter (row_matches sample_time sample_filter) (es_rows filled_store)))))
   \<and> (\<exists>m. fst (GetLatestSequenceNum sample_query ''s'' filled_store) = Inr m)"
proof -
  have "scans sample_query" "\<And>s. db_run s (qv_enter sample_query s)" "qv_error sample_query = None"
    "ef_SessionID sample_filter \<noteq> []"
    by (simp_all add: scans_def sample_query_def sample_filter_def)
  moreover have "list_all (\<lambda>r. parseTimestamp sample_time (er_Timestamp r) \<noteq> None)
      (es_rows (filled_store\<lparr>es_inFlight := es_inFlight filled_store + 1\<rparr>))"
    by (simp add: list_all_iff parseTimestamp_def sample_time_def)
  moreover have "ef_Ascending sample_filter" "ef_Limit sample_filter = 1" "ef_Offset sample_filter = 1" "ef_SessionID sample_filter = ''s''"
    by (simp_all add: sample_filter_def)
  ultimately show ?thesis
    using session_query_exact [OF filled_reached _ _ _ filled_enter _ _ refl, of sample_filter sample_time]
    by simp blast
qed

end
