(* ===== verification/ManagedWorkspace.thy ===== *)
theory ManagedWorkspace
  imports GoGlob GoJSON
begin

text \<open>
  Managed worktrees, \<open>pkg/workspace/managed.go\<close>: the registry creates or adopts git worktrees under its
  root, checkpoints clean ones and rolls them back. Everything outside the process is a parameter:
  each call of \<open>os\<close>, \<open>filepath.EvalSymlinks\<close> or \<open>git\<close> is a function of the record \<open>host\<close> on an arbitrary
  world, which it may change, so that the agent that works in the worktree may interfere between any two
  calls. The state carries beside the world the list of calls made with their answers. C29: what a
  rollback has checked before it destroys anything.
\<close>

section \<open>The host\<close>

datatype read_result = ReadMissing | ReadError string | ReadBytes string

record exec_result =
  ex_Stdout :: string
  ex_Combined :: string
  ex_Err :: "string option"

datatype host_call = CallEval string "string option" | CallLstat string "string + bool" | CallRead string read_result
  | CallExec string "string list" exec_result | CallMkdir string "string option" | CallWrite string string "string option"
  | CallRemoveAll string

record 'w host =
  hs_Abs :: "string \<Rightarrow> string + string"
  hs_Eval :: "string \<Rightarrow> 'w \<Rightarrow> string option \<times> 'w"
  hs_Lstat :: "string \<Rightarrow> 'w \<Rightarrow> (string + bool) \<times> 'w"
  hs_Read :: "string \<Rightarrow> 'w \<Rightarrow> read_result \<times> 'w"
  hs_Exec :: "string \<Rightarrow> string list \<Rightarrow> 'w \<Rightarrow> exec_result \<times> 'w"
  hs_Mkdir :: "string \<Rightarrow> 'w \<Rightarrow> string option \<times> 'w"
  hs_Write :: "string \<Rightarrow> string \<Rightarrow> 'w \<Rightarrow> string option \<times> 'w"
  hs_RemoveAll :: "string \<Rightarrow> 'w \<Rightarrow> 'w"
  hs_Now :: "nat \<Rightarrow> time"
  hs_TimeString :: "time \<Rightarrow> string"
  hs_TimeJSON :: "time \<Rightarrow> string"
  hs_TimeParse :: "string \<Rightarrow> time option"

type_synonym 'w hstate = "'w \<times> host_call list"

definition evalSymlinks :: "'w host \<Rightarrow> string \<Rightarrow> 'w hstate \<Rightarrow> string option \<times> 'w hstate" where
  "evalSymlinks h p st = (case hs_Eval h p (fst st) of (r, w) \<Rightarrow> (r, (w, snd st @ [CallEval p r])))"

definition lstat :: "'w host \<Rightarrow> string \<Rightarrow> 'w hstate \<Rightarrow> (string + bool) \<times> 'w hstate" where
  "lstat h p st = (case hs_Lstat h p (fst st) of (r, w) \<Rightarrow> (r, (w, snd st @ [CallLstat p r])))"

definition readFile :: "'w host \<Rightarrow> string \<Rightarrow> 'w hstate \<Rightarrow> read_result \<times> 'w hstate" where
  "readFile h p st = (case hs_Read h p (fst st) of (r, w) \<Rightarrow> (r, (w, snd st @ [CallRead p r])))"

definition execGit :: "'w host \<Rightarrow> string \<Rightarrow> string list \<Rightarrow> 'w hstate \<Rightarrow> exec_result \<times> 'w hstate" where
  "execGit h d args st = (case hs_Exec h d args (fst st) of (r, w) \<Rightarrow> (r, (w, snd st @ [CallExec d args r])))"

definition mkdirAll :: "'w host \<Rightarrow> string \<Rightarrow> 'w hstate \<Rightarrow> string option \<times> 'w hstate" where
  "mkdirAll h p st = (case hs_Mkdir h p (fst st) of (r, w) \<Rightarrow> (r, (w, snd st @ [CallMkdir p r])))"

definition writeFile :: "'w host \<Rightarrow> string \<Rightarrow> string \<Rightarrow> 'w hstate \<Rightarrow> string option \<times> 'w hstate" where
  "writeFile h p b st = (case hs_Write h p b (fst st) of (r, w) \<Rightarrow> (r, (w, snd st @ [CallWrite p b r])))"

definition removeAll :: "'w host \<Rightarrow> string \<Rightarrow> 'w hstate \<Rightarrow> 'w hstate" where
  "removeAll h p st = (hs_RemoveAll h p (fst st), snd st @ [CallRemoveAll p])"

section \<open>Paths\<close>

definition filepath_Join :: "string list \<Rightarrow> string" where
  "filepath_Join es = (let ne = filter (\<lambda>e. e \<noteq> []) es in if ne = [] then [] else path_Clean (Join ne ''/''))"

fun drop_common :: "string list \<Rightarrow> string list \<Rightarrow> string list \<times> string list" where
  "drop_common (b # bs) (t # ts) = (if b = t then drop_common bs ts else (b # bs, t # ts))"
| "drop_common bs ts = (bs, ts)"

text \<open>\<open>filepath.Rel\<close>; the root of a registry and the paths it checks are absolute, so no \<open>..\<close> is left in them.\<close>

definition filepath_Rel :: "string \<Rightarrow> string \<Rightarrow> string option" where
  "filepath_Rel base targ =
     (if path_Clean base = path_Clean targ then Some ''.''
      else if HasPrefix base ''/'' \<noteq> HasPrefix targ ''/'' then None
      else case drop_common (path_segs base) (path_segs targ) of
        (bs, ts) \<Rightarrow>
          if bs \<noteq> [] \<and> ts \<noteq> [] \<and> hd bs = ''..'' then None
          else Some (Join (map (\<lambda>_. ''..'') bs @ ts) ''/''))"

definition filepath_Dir :: "string \<Rightarrow> string" where
  "filepath_Dir p = path_Clean (rev (dropWhile (\<lambda>c. c \<noteq> CHR ''/'') (rev p)))"

definition path_IsAbs :: "string \<Rightarrow> bool" where
  "path_IsAbs p \<longleftrightarrow> HasPrefix p ''/''"

section \<open>Records\<close>

abbreviation CheckpointRecordSchema :: string where "CheckpointRecordSchema \<equiv> ''reinframe.managed_checkpoint.v1''"
abbreviation RegistrySchema :: string where "RegistrySchema \<equiv> ''reinframe.worktree_registry.v1''"
abbreviation MarkerFile :: string where "MarkerFile \<equiv> ''.reinframe-managed-worktree''"

record managed_worktree =
  wk_ID :: string
  wk_SessionID :: string
  wk_Path :: string
  wk_GitCommonDir :: string
  wk_Generation :: int
  wk_CreatedAt :: time

record registry =
  rg_Root :: string
  rg_trees :: "managed_worktree gomap"

record checkpoint_record =
  ck_SchemaVersion :: string
  ck_CheckpointID :: string
  ck_SessionID :: string
  ck_ManagedWorktreeID :: string
  ck_Generation :: int
  ck_GitCommonDir :: string
  ck_WorktreePath :: string
  ck_HEAD :: string
  ck_Branch :: string
  ck_IndexDigest :: string
  ck_TrackedDigest :: string
  ck_UntrackedPolicy :: string
  ck_CreatedAt :: time
  ck_Reason :: string
  ck_RollbackCapability :: string
  ck_PrimaryCheckoutDenied :: bool

record rollback_result =
  rb_RollbackID :: string
  rb_SessionID :: string
  rb_TargetCheckpointID :: string
  rb_PreviousCommitHash :: string
  rb_RestoredCommitHash :: string
  rb_Success :: bool
  rb_ErrorMessage :: string
  rb_CompletedAt :: time

record marker =
  mk_ID :: string
  mk_SessionID :: string
  mk_Schema :: string

definition shortID :: "gostd \<Rightarrow> string \<Rightarrow> string" where
  "shortID std s = take 16 (sha256_hex std s)"

definition hashStr :: "gostd \<Rightarrow> string \<Rightarrow> string" where
  "hashStr std s = take 16 (sha256_hex std s)"

section \<open>Documents\<close>

text \<open>
  \<open>json.MarshalIndent\<close> of a flat struct, and \<open>json.Unmarshal\<close> into one: members go to the field of their name
  up to case, the last of a name wins, \<open>null\<close> leaves a field alone, another type is an error.
\<close>

definition indent_object :: "(string \<times> string) list \<Rightarrow> string" where
  "indent_object ms =
     ''{'' @ [CHR 0x0A] @ Join (map (\<lambda>(k, v). ''  '' @ json_quote k @ '': '' @ v) ms) ('','' @ [CHR 0x0A]) @ [CHR 0x0A] @ ''}''"

fun set_all :: "(string \<Rightarrow> json \<Rightarrow> 'r \<Rightarrow> 'r option) \<Rightarrow> (string \<times> json) list \<Rightarrow> 'r \<Rightarrow> 'r option" where
  "set_all f [] r = Some r"
| "set_all f ((k, v) # ms) r =
     (case (if v = JNull then Some r else f (ToLower k) v r) of None \<Rightarrow> None | Some r' \<Rightarrow> set_all f ms r')"

definition unmarshal :: "(string \<Rightarrow> json \<Rightarrow> 'r \<Rightarrow> 'r option) \<Rightarrow> 'r \<Rightarrow> string \<Rightarrow> 'r option" where
  "unmarshal f zero b = (case json_parse b of Some (JObj ms) \<Rightarrow> set_all f ms zero | Some JNull \<Rightarrow> Some zero | _ \<Rightarrow> None)"

definition text_setter :: "(string \<times> (string \<Rightarrow> 'r \<Rightarrow> 'r)) list \<Rightarrow> string \<Rightarrow> json \<Rightarrow> 'r \<Rightarrow> 'r option" where
  "text_setter fs k v r =
     (case map_of fs k of None \<Rightarrow> Some r | Some put \<Rightarrow> (case v of JStr s \<Rightarrow> Some (put s r) | _ \<Rightarrow> None))"

definition marker_member :: "string \<Rightarrow> json \<Rightarrow> marker \<Rightarrow> marker option" where
  "marker_member = text_setter [(''id'', \<lambda>s m. m\<lparr>mk_ID := s\<rparr>), (''session_id'', \<lambda>s m. m\<lparr>mk_SessionID := s\<rparr>),
     (''schema'', \<lambda>s m. m\<lparr>mk_Schema := s\<rparr>)]"

definition decode_marker :: "string \<Rightarrow> marker option" where
  "decode_marker = unmarshal marker_member \<lparr>mk_ID = [], mk_SessionID = [], mk_Schema = []\<rparr>"

definition zero_checkpoint :: checkpoint_record where
  "zero_checkpoint = \<lparr>ck_SchemaVersion = [], ck_CheckpointID = [], ck_SessionID = [], ck_ManagedWorktreeID = [], ck_Generation = 0,
     ck_GitCommonDir = [], ck_WorktreePath = [], ck_HEAD = [], ck_Branch = [], ck_IndexDigest = [], ck_TrackedDigest = [],
     ck_UntrackedPolicy = [], ck_CreatedAt = 0, ck_Reason = [], ck_RollbackCapability = [], ck_PrimaryCheckoutDenied = False\<rparr>"

definition checkpoint_text :: "string \<Rightarrow> json \<Rightarrow> checkpoint_record \<Rightarrow> checkpoint_record option" where
  "checkpoint_text = text_setter
     [(''schema_version'', \<lambda>s r. r\<lparr>ck_SchemaVersion := s\<rparr>), (''checkpoint_id'', \<lambda>s r. r\<lparr>ck_CheckpointID := s\<rparr>),
      (''session_id'', \<lambda>s r. r\<lparr>ck_SessionID := s\<rparr>), (''managed_worktree_id'', \<lambda>s r. r\<lparr>ck_ManagedWorktreeID := s\<rparr>),
      (''git_common_dir'', \<lambda>s r. r\<lparr>ck_GitCommonDir := s\<rparr>), (''worktree_path'', \<lambda>s r. r\<lparr>ck_WorktreePath := s\<rparr>),
      (''head'', \<lambda>s r. r\<lparr>ck_HEAD := s\<rparr>), (''branch'', \<lambda>s r. r\<lparr>ck_Branch := s\<rparr>),
      (''index_digest'', \<lambda>s r. r\<lparr>ck_IndexDigest := s\<rparr>), (''tracked_digest'', \<lambda>s r. r\<lparr>ck_TrackedDigest := s\<rparr>),
      (''untracked_policy'', \<lambda>s r. r\<lparr>ck_UntrackedPolicy := s\<rparr>), (''reason'', \<lambda>s r. r\<lparr>ck_Reason := s\<rparr>),
      (''rollback_capability'', \<lambda>s r. r\<lparr>ck_RollbackCapability := s\<rparr>)]"

definition checkpoint_member :: "'w host \<Rightarrow> string \<Rightarrow> json \<Rightarrow> checkpoint_record \<Rightarrow> checkpoint_record option" where
  "checkpoint_member h k v r =
     (if k = ''generation'' then (case v of JNum l \<Rightarrow> map_option (\<lambda>n. r\<lparr>ck_Generation := n\<rparr>) (atoi l) | _ \<Rightarrow> None)
      else if k = ''created_at'' then (case v of JStr s \<Rightarrow> map_option (\<lambda>t. r\<lparr>ck_CreatedAt := t\<rparr>) (hs_TimeParse h s) | _ \<Rightarrow> None)
      else if k = ''primary_checkout_denied'' then (case v of JBool b \<Rightarrow> Some (r\<lparr>ck_PrimaryCheckoutDenied := b\<rparr>) | _ \<Rightarrow> None)
      else checkpoint_text k v r)"

definition decode_checkpoint :: "'w host \<Rightarrow> string \<Rightarrow> checkpoint_record option" where
  "decode_checkpoint h = unmarshal (checkpoint_member h) zero_checkpoint"

section \<open>Git and the marker\<close>

definition gitOutput :: "'w host \<Rightarrow> string \<Rightarrow> string list \<Rightarrow> 'w hstate \<Rightarrow> (string + string) \<times> 'w hstate" where
  "gitOutput h d args st =
     (case execGit h d args st of
        (r, st') \<Rightarrow> (case ex_Err r of Some e \<Rightarrow> Inl e | None \<Rightarrow> Inr (TrimSpace (ex_Stdout r)), st'))"

definition requireGitRepo :: "'w host \<Rightarrow> string \<Rightarrow> 'w hstate \<Rightarrow> string option \<times> 'w hstate" where
  "requireGitRepo h p st =
     (case gitOutput h p [''rev-parse'', ''--git-dir''] st of
        (Inl e, st') \<Rightarrow> (Some (''workspace: not a git repo: '' @ e), st')
      | (Inr _, st') \<Rightarrow> (None, st'))"

definition head_args :: "string list" where
  "head_args = [''rev-parse'', ''HEAD'']"

definition verify_args :: "string \<Rightarrow> string list" where
  "verify_args c = [''rev-parse'', ''--verify'', c @ ''^{commit}'']"

definition status_args :: "string list" where
  "status_args = [''status'', ''--porcelain'', ''--untracked-files=all'']"

definition requireClean :: "'w host \<Rightarrow> string \<Rightarrow> 'w hstate \<Rightarrow> string option \<times> 'w hstate" where
  "requireClean h p st =
     (case gitOutput h p status_args st of
        (Inl e, st') \<Rightarrow> (Some e, st')
      | (Inr out, st') \<Rightarrow> (if TrimSpace out \<noteq> [] then Some ''worktree not clean'' else None, st'))"

definition common_args :: "string list" where
  "common_args = [''rev-parse'', ''--git-common-dir'']"

definition clean_common :: "'w host \<Rightarrow> string \<Rightarrow> string \<Rightarrow> string + string" where
  "clean_common h p out =
     (if path_IsAbs out then Inr (path_Clean out)
      else case hs_Abs h (filepath_Join [p, out]) of Inl e \<Rightarrow> Inl e | Inr a \<Rightarrow> Inr (path_Clean a))"

definition gitCommonDir :: "'w host \<Rightarrow> string \<Rightarrow> 'w hstate \<Rightarrow> (string + string) \<times> 'w hstate" where
  "gitCommonDir h p st =
     (case gitOutput h p common_args st of
        (Inl e, st') \<Rightarrow> (Inl e, st')
      | (Inr out, st') \<Rightarrow> (clean_common h p out, st'))"

definition marker_path :: "string \<Rightarrow> string" where
  "marker_path d = filepath_Join [d, MarkerFile]"

definition readMarker :: "'w host \<Rightarrow> string \<Rightarrow> 'w hstate \<Rightarrow> (string + marker) \<times> 'w hstate" where
  "readMarker h d st =
     (case readFile h (marker_path d) st of
        (ReadMissing, st') \<Rightarrow> (Inl ''file does not exist'', st')
      | (ReadError e, st') \<Rightarrow> (Inl e, st')
      | (ReadBytes b, st') \<Rightarrow>
          (case decode_marker b of
             None \<Rightarrow> Inl ''invalid marker json''
           | Some m \<Rightarrow> if mk_Schema m \<noteq> RegistrySchema then Inl ''bad marker schema'' else Inr m, st'))"

definition writeJSON :: "'w host \<Rightarrow> string \<Rightarrow> (string \<times> string) list \<Rightarrow> 'w hstate \<Rightarrow> string option \<times> 'w hstate" where
  "writeJSON h p ms st =
     (case mkdirAll h (filepath_Dir p) st of
        (Some e, st') \<Rightarrow> (Some e, st')
      | (None, st') \<Rightarrow> writeFile h p (indent_object ms @ [CHR 0x0A]) st')"

definition writeMarker :: "'w host \<Rightarrow> string \<Rightarrow> string \<Rightarrow> string \<Rightarrow> 'w hstate \<Rightarrow> string option \<times> 'w hstate" where
  "writeMarker h d i sess st =
     writeJSON h (marker_path d) [(''id'', json_quote i), (''session_id'', json_quote sess), (''schema'', json_quote RegistrySchema)] st"

definition ensureGitignoreLine :: "'w host \<Rightarrow> string \<Rightarrow> string \<Rightarrow> 'w hstate \<Rightarrow> string option \<times> 'w hstate" where
  "ensureGitignoreLine h d line st =
     (let p = filepath_Join [d, ''.gitignore''] in
      case readFile h p st of
        (ReadError e, st') \<Rightarrow> (Some e, st')
      | (r, st') \<Rightarrow>
          (let content = (case r of ReadBytes b \<Rightarrow> b | _ \<Rightarrow> []) in
           if list_ex (\<lambda>l. TrimSpace l = line) (Split content (CHR 0x0A)) then (None, st')
           else let c1 = (if content \<noteq> [] \<and> \<not> HasSuffix content [CHR 0x0A] then content @ [CHR 0x0A] else content)
             in writeFile h p (c1 @ line @ [CHR 0x0A]) st'))"

definition removeWorktree :: "'w host \<Rightarrow> string \<Rightarrow> string \<Rightarrow> 'w hstate \<Rightarrow> 'w hstate" where
  "removeWorktree h base dest st =
     (case execGit h base [''worktree'', ''remove'', ''--force'', dest] st of (_, st') \<Rightarrow> removeAll h dest st')"

section \<open>Ownership\<close>

definition answered :: "string \<Rightarrow> string option \<Rightarrow> string" where
  "answered p r = (case r of Some x \<Rightarrow> x | None \<Rightarrow> p)"

definition rel_check :: "string \<Rightarrow> string \<Rightarrow> string option" where
  "rel_check root q =
     (case filepath_Rel root q of
        None \<Rightarrow> Some ''workspace: path outside managed root (fail closed)''
      | Some rel \<Rightarrow>
          if HasPrefix rel ''..'' \<or> rel = ''.'' then Some ''workspace: path outside managed root (fail closed)'' else None)"

definition underRoot :: "'w host \<Rightarrow> registry \<Rightarrow> string \<Rightarrow> 'w hstate \<Rightarrow> string option \<times> 'w hstate" where
  "underRoot h reg p st =
     (case evalSymlinks h (rg_Root reg) st of
        (r1, st1) \<Rightarrow> (case evalSymlinks h p st1 of (r2, st2) \<Rightarrow> (rel_check (answered (rg_Root reg) r1) (answered p r2), st2)))"

definition rejectSymlink :: "'w host \<Rightarrow> string \<Rightarrow> 'w hstate \<Rightarrow> string option \<times> 'w hstate" where
  "rejectSymlink h p st =
     (case lstat h p st of
        (r, st') \<Rightarrow> (case r of Inl e \<Rightarrow> Some e | Inr link \<Rightarrow> if link then Some ''workspace: symlink path fail closed'' else None, st'))"

definition check_marker :: "managed_worktree \<Rightarrow> marker \<Rightarrow> string option" where
  "check_marker wt m =
     (if mk_ID m = [] \<or> wk_ID wt = [] \<or> mk_ID m \<noteq> wk_ID wt then Some ''workspace: marker id mismatch (fail closed)''
      else if mk_SessionID m = [] \<or> wk_SessionID wt = [] \<or> mk_SessionID m \<noteq> wk_SessionID wt
        then Some ''workspace: marker session mismatch (fail closed)''
      else None)"

definition validateOwned ::
  "'w host \<Rightarrow> registry \<Rightarrow> managed_worktree \<Rightarrow> 'w hstate \<Rightarrow> string option \<times> managed_worktree \<times> 'w hstate" where
  "validateOwned h reg wt st =
     (case hs_Abs h (wk_Path wt) of
        Inl e \<Rightarrow> (Some e, wt, st)
      | Inr p0 \<Rightarrow>
          (case evalSymlinks h p0 st of
             (r, st1) \<Rightarrow>
               let wt' = wt\<lparr>wk_Path := answered (wk_Path wt) r\<rparr>; p = answered p0 r in
               case underRoot h reg p st1 of
                 (Some e, st2) \<Rightarrow> (Some e, wt', st2)
               | (None, st2) \<Rightarrow>
                   (case rejectSymlink h p st2 of
                      (Some e, st3) \<Rightarrow> (Some e, wt', st3)
                    | (None, st3) \<Rightarrow>
                        (case readMarker h p st3 of
                           (Inl e, st4) \<Rightarrow> (Some (''workspace: ownership marker missing: '' @ e), wt', st4)
                         | (Inr m, st4) \<Rightarrow> (check_marker wt' m, wt', st4)))))"

section \<open>Checkpoints\<close>

definition privateCheckpointDir :: "registry \<Rightarrow> string \<Rightarrow> string" where
  "privateCheckpointDir reg i = filepath_Join [rg_Root reg, ''.reinframe-private'', ''checkpoints'', i]"

definition text_fields :: "(string \<times> string) list \<Rightarrow> (string \<times> string) list" where
  "text_fields fs = map (\<lambda>(k, s). (k, json_quote s)) fs"

definition omit_blank :: "(string \<times> string) list \<Rightarrow> (string \<times> string) list" where
  "omit_blank fs = text_fields (filter (\<lambda>(k, s). s \<noteq> []) fs)"

definition checkpoint_members :: "'w host \<Rightarrow> checkpoint_record \<Rightarrow> (string \<times> string) list" where
  "checkpoint_members h r =
     text_fields [(''schema_version'', ck_SchemaVersion r), (''checkpoint_id'', ck_CheckpointID r), (''session_id'', ck_SessionID r),
       (''managed_worktree_id'', ck_ManagedWorktreeID r)]
     @ [(''generation'', itoa (ck_Generation r))]
     @ text_fields [(''git_common_dir'', ck_GitCommonDir r), (''worktree_path'', ck_WorktreePath r), (''head'', ck_HEAD r)]
     @ omit_blank [(''branch'', ck_Branch r), (''index_digest'', ck_IndexDigest r), (''tracked_digest'', ck_TrackedDigest r)]
     @ text_fields [(''untracked_policy'', ck_UntrackedPolicy r), (''created_at'', hs_TimeJSON h (ck_CreatedAt r))]
     @ omit_blank [(''reason'', ck_Reason r)]
     @ text_fields [(''rollback_capability'', ck_RollbackCapability r)]
     @ [(''primary_checkout_denied'', if ck_PrimaryCheckoutDenied r then ''true'' else ''false'')]"

definition out_of :: "string + string \<Rightarrow> string" where
  "out_of r = (case r of Inl _ \<Rightarrow> [] | Inr s \<Rightarrow> s)"

text \<open>\<open>Checkpoint\<close>; the second record the code returns repeats five fields of the first.\<close>

definition Checkpoint ::
  "gostd \<Rightarrow> 'w host \<Rightarrow> registry \<Rightarrow> managed_worktree option \<Rightarrow> string \<Rightarrow> 'w hstate
   \<Rightarrow> (string + checkpoint_record) \<times> managed_worktree option \<times> 'w hstate" where
  "Checkpoint std h reg wt0 reason st =
     (case wt0 of
        None \<Rightarrow> (Inl ''workspace: nil worktree'', None, st)
      | Some w0 \<Rightarrow>
          (case validateOwned h reg w0 st of
             (Some e, wt, st1) \<Rightarrow> (Inl e, Some wt, st1)
           | (None, wt, st1) \<Rightarrow>
               (case requireClean h (wk_Path wt) st1 of
                  (Some e, st2) \<Rightarrow> (Inl e, Some wt, st2)
                | (None, st2) \<Rightarrow>
                    (case gitOutput h (wk_Path wt) [''rev-parse'', ''HEAD''] st2 of
                       (Inl e, st3) \<Rightarrow> (Inl e, Some wt, st3)
                     | (Inr head, st3) \<Rightarrow>
                         (case gitOutput h (wk_Path wt) [''rev-parse'', ''--abbrev-ref'', ''HEAD''] st3 of
                            (branch, st4) \<Rightarrow>
                         (case gitOutput h (wk_Path wt) [''write-tree''] st4 of
                            (idx, st5) \<Rightarrow>
                         (case gitOutput h (wk_Path wt) [''rev-parse'', ''HEAD''] st5 of
                            (tracked, st6) \<Rightarrow>
                              let i = ''chk-'' @ shortID std (head @ wk_ID wt @ hs_TimeString h (hs_Now h 0));
                                  rec = \<lparr>ck_SchemaVersion = CheckpointRecordSchema, ck_CheckpointID = i, ck_SessionID = wk_SessionID wt,
                                    ck_ManagedWorktreeID = wk_ID wt, ck_Generation = wk_Generation wt, ck_GitCommonDir = wk_GitCommonDir wt,
                                    ck_WorktreePath = wk_Path wt, ck_HEAD = head, ck_Branch = out_of branch,
                                    ck_IndexDigest = hashStr std (out_of idx), ck_TrackedDigest = hashStr std (out_of tracked),
                                    ck_UntrackedPolicy = ''clean-only'', ck_CreatedAt = hs_Now h 1, ck_Reason = reason,
                                    ck_RollbackCapability = ''hard-reset-clean'', ck_PrimaryCheckoutDenied = True\<rparr>
                              in case writeJSON h (filepath_Join [privateCheckpointDir reg (wk_ID wt), i @ ''.json'']) (checkpoint_members h rec) st6 of
                                (Some e, st7) \<Rightarrow> (Inl e, Some wt, st7)
                              | (None, st7) \<Rightarrow> (Inr rec, Some wt, st7))))))))"

section \<open>Rollback\<close>

definition mismatch :: "managed_worktree \<Rightarrow> checkpoint_record \<Rightarrow> string option" where
  "mismatch wt rec =
     (if ck_ManagedWorktreeID rec \<noteq> wk_ID wt then Some ''checkpoint worktree mismatch''
      else if ck_SessionID rec = [] \<or> wk_SessionID wt = [] \<or> ck_SessionID rec \<noteq> wk_SessionID wt
        then Some ''checkpoint session mismatch (fail closed)''
      else if ck_Generation rec \<noteq> 0 \<and> wk_Generation wt \<noteq> 0 \<and> ck_Generation rec \<noteq> wk_Generation wt
        then Some ''worktree generation mismatch''
      else None)"

definition failed :: "rollback_result \<Rightarrow> string \<Rightarrow> rollback_result" where
  "failed res e = res\<lparr>rb_Success := False, rb_ErrorMessage := e\<rparr>"

definition ws_error :: "string \<Rightarrow> string option" where
  "ws_error e = Some (''workspace: '' @ e)"

definition reset_args :: "string \<Rightarrow> string list" where
  "reset_args commit = [''reset'', ''--hard'', commit]"

text \<open>From the reset on.\<close>

definition reset_to ::
  "'w host \<Rightarrow> managed_worktree \<Rightarrow> checkpoint_record \<Rightarrow> rollback_result \<Rightarrow> string \<Rightarrow> 'w hstate
   \<Rightarrow> (rollback_result \<times> string option) \<times> 'w hstate" where
  "reset_to h wt rec res commit st =
     (case execGit h (wk_Path wt) (reset_args commit) st of
        (r, st1) \<Rightarrow>
          (case ex_Err r of
             Some e \<Rightarrow> let m = ''reset failed: '' @ e @ '' ('' @ ex_Combined r @ '')'' in ((failed res m, ws_error m), st1)
           | None \<Rightarrow>
               (case gitOutput h (wk_Path wt) head_args st1 of
                  (head, st2) \<Rightarrow>
                    (if isl head \<or> out_of head \<noteq> ck_HEAD rec
                     then (((failed res ''verification failed after reset'')\<lparr>rb_RestoredCommitHash := out_of head\<rparr>,
                            ws_error ''verification failed''), st2)
                     else ((res\<lparr>rb_RestoredCommitHash := out_of head, rb_Success := True\<rparr>, None), st2)))))"

text \<open>The guards between the ownership check and the reset; the commit to reset to when all hold.\<close>

definition rollback_guard ::
  "'w host \<Rightarrow> managed_worktree \<Rightarrow> checkpoint_record \<Rightarrow> rollback_result \<Rightarrow> 'w hstate
   \<Rightarrow> ((rollback_result \<times> string option) + (rollback_result \<times> string)) \<times> 'w hstate" where
  "rollback_guard h wt rec res st1 =
     (case mismatch wt rec of
        Some e \<Rightarrow> (Inl (failed res e, ws_error e), st1)
      | None \<Rightarrow>
          (case gitCommonDir h (wk_Path wt) st1 of
             (Inl e, st2) \<Rightarrow> (Inl (failed res e, Some e), st2)
           | (Inr common, st2) \<Rightarrow>
               if common \<noteq> ck_GitCommonDir rec \<and> ck_GitCommonDir rec \<noteq> []
               then (Inl (failed res ''git common-dir identity mismatch'', ws_error ''git common-dir identity mismatch''), st2)
               else
                 (case requireClean h (wk_Path wt) st2 of
                    (Some e, st3) \<Rightarrow>
                      let m = ''dirty or untracked drift (fail closed): '' @ e in (Inl (failed res m, ws_error m), st3)
                  | (None, st3) \<Rightarrow>
                      (case gitOutput h (wk_Path wt) head_args st3 of
                         (prev, st4) \<Rightarrow>
                           let res1 = res\<lparr>rb_PreviousCommitHash := out_of prev\<rparr> in
                           (case gitOutput h (wk_Path wt) (verify_args (ck_HEAD rec)) st4 of
                              (commit, st5) \<Rightarrow>
                                (if out_of commit = []
                                 then Inl (failed res1 ''checkpoint HEAD is not a commit object'',
                                           ws_error ''checkpoint HEAD is not a commit object'')
                                 else Inr (res1, out_of commit), st5))))))"

definition Rollback ::
  "gostd \<Rightarrow> 'w host \<Rightarrow> registry \<Rightarrow> managed_worktree \<Rightarrow> checkpoint_record \<Rightarrow> 'w hstate
   \<Rightarrow> (rollback_result \<times> string option) \<times> managed_worktree \<times> 'w hstate" where
  "Rollback std h reg wt0 rec st =
     (let res = \<lparr>rb_RollbackID = ''rb-'' @ shortID std (hs_TimeString h (hs_Now h 0)), rb_SessionID = wk_SessionID wt0,
            rb_TargetCheckpointID = ck_CheckpointID rec, rb_PreviousCommitHash = [], rb_RestoredCommitHash = [], rb_Success = False,
            rb_ErrorMessage = [], rb_CompletedAt = hs_Now h 1\<rparr> in
      case validateOwned h reg wt0 st of
        (Some e, wt, st1) \<Rightarrow> ((failed res e, Some e), wt, st1)
      | (None, wt, st1) \<Rightarrow>
          (case rollback_guard h wt rec res st1 of
             (Inl out, st2) \<Rightarrow> (out, wt, st2)
           | (Inr (res1, commit), st2) \<Rightarrow>
               (case reset_to h wt rec res1 commit st2 of (out, st3) \<Rightarrow> (out, wt, st3))))"

section \<open>The registry\<close>

definition LoadCheckpointFromPath :: "'w host \<Rightarrow> string \<Rightarrow> 'w hstate \<Rightarrow> (string + checkpoint_record) \<times> 'w hstate" where
  "LoadCheckpointFromPath h p st =
     (case readFile h p st of
        (ReadMissing, st') \<Rightarrow> (Inl ''file does not exist'', st')
      | (ReadError e, st') \<Rightarrow> (Inl e, st')
      | (ReadBytes b, st') \<Rightarrow>
          (case decode_checkpoint h b of
             None \<Rightarrow> Inl ''invalid checkpoint json''
           | Some rec \<Rightarrow> if ck_SchemaVersion rec \<noteq> CheckpointRecordSchema then Inl ''workspace: checkpoint schema'' else Inr rec, st'))"

definition LoadCheckpoint ::
  "'w host \<Rightarrow> registry \<Rightarrow> string \<Rightarrow> string \<Rightarrow> 'w hstate \<Rightarrow> (string + checkpoint_record) \<times> 'w hstate" where
  "LoadCheckpoint h reg i c st = LoadCheckpointFromPath h (filepath_Join [privateCheckpointDir reg i, c @ ''.json'']) st"

definition NewRegistry :: "'w host \<Rightarrow> string \<Rightarrow> 'w hstate \<Rightarrow> (string + registry) \<times> 'w hstate" where
  "NewRegistry h root st =
     (if root = [] then (Inl ''workspace: ManagedWorktreeRoot required'', st)
      else case hs_Abs h root of
        Inl e \<Rightarrow> (Inl e, st)
      | Inr a \<Rightarrow>
          (case lstat h a st of
             (r, st1) \<Rightarrow>
               if r = Inr True then (Inl ''workspace: managed root is symlink (fail closed)'', st1)
               else (case evalSymlinks h a st1 of
                 (c, st2) \<Rightarrow> (Inr \<lparr>rg_Root = case c of Some x \<Rightarrow> x | None \<Rightarrow> a, rg_trees = []\<rparr>, st2))))"

text \<open>Once the worktree is added, any failure removes it again.\<close>

definition git_add :: "'w host \<Rightarrow> string \<Rightarrow> string list \<Rightarrow> string \<Rightarrow> 'w hstate \<Rightarrow> string option \<times> 'w hstate" where
  "git_add h d args what st =
     (case execGit h d args st of
        (r, st') \<Rightarrow> (case ex_Err r of None \<Rightarrow> None | Some e \<Rightarrow> Some (what @ '': '' @ e @ '' ('' @ ex_Combined r @ '')''), st'))"

definition populate :: "'w host \<Rightarrow> string \<Rightarrow> string \<Rightarrow> string \<Rightarrow> 'w hstate \<Rightarrow> (string + string) \<times> 'w hstate" where
  "populate h dest i sess st =
     (case gitCommonDir h dest st of
        (Inl e, st1) \<Rightarrow> (Inl e, st1)
      | (Inr common, st1) \<Rightarrow>
          (case writeMarker h dest i sess st1 of
             (Some e, st2) \<Rightarrow> (Inl e, st2)
           | (None, st2) \<Rightarrow>
               (case ensureGitignoreLine h dest ''.reinframe-checkpoints/'' st2 of
                  (Some e, st3) \<Rightarrow> (Inl e, st3)
                | (None, st3) \<Rightarrow>
                    (case git_add h dest [''add'', MarkerFile, ''.gitignore''] ''git add marker'' st3 of
                       (Some e, st4) \<Rightarrow> (Inl e, st4)
                     | (None, st4) \<Rightarrow>
                         (case git_add h dest [''-c'', ''user.email=reinframe@local'', ''-c'', ''user.name=reinframe'', ''commit'', ''-m'',
                                 ''reinframe: managed worktree marker''] ''git commit marker'' st4 of
                            (Some e, st5) \<Rightarrow> (Inl e, st5)
                          | (None, st5) \<Rightarrow> (Inr common, st5))))))"

definition CreateWorktree ::
  "gostd \<Rightarrow> 'w host \<Rightarrow> registry \<Rightarrow> string \<Rightarrow> string \<Rightarrow> string \<Rightarrow> 'w hstate
   \<Rightarrow> (string + managed_worktree) \<times> registry \<times> 'w hstate" where
  "CreateWorktree std h reg sess baseRepo branch st =
     (if sess = [] \<or> baseRepo = [] then (Inl ''workspace: sessionID and baseRepo required'', reg, st)
      else case hs_Abs h baseRepo of
        Inl e \<Rightarrow> (Inl e, reg, st)
      | Inr base \<Rightarrow>
          (case requireGitRepo h base st of
             (Some e, st1) \<Rightarrow> (Inl e, reg, st1)
           | (None, st1) \<Rightarrow>
               let i = shortID std (sess @ hs_TimeString h (hs_Now h 0)); dest = filepath_Join [rg_Root reg, i];
                   start = (if branch = [] then ''HEAD'' else branch) in
               (case mkdirAll h (rg_Root reg) st1 of
                  (Some e, st2) \<Rightarrow> (Inl e, reg, st2)
                | (None, st2) \<Rightarrow>
                    (case git_add h base [''worktree'', ''add'', ''--detach'', dest, start] ''git worktree add'' st2 of
                       (Some e, st3) \<Rightarrow> (Inl e, reg, st3)
                     | (None, st3) \<Rightarrow>
                         (case populate h dest i sess st3 of
                            (Inl e, st4) \<Rightarrow> (Inl e, reg, removeWorktree h base dest st4)
                          | (Inr common, st4) \<Rightarrow>
                              let wt = \<lparr>wk_ID = i, wk_SessionID = sess, wk_Path = dest, wk_GitCommonDir = common, wk_Generation = 1,
                                    wk_CreatedAt = hs_Now h 1\<rparr>
                              in (Inr wt, reg\<lparr>rg_trees := gm_put i wt (rg_trees reg)\<rparr>, st4))))))"

definition AdoptExisting ::
  "gostd \<Rightarrow> 'w host \<Rightarrow> registry \<Rightarrow> string \<Rightarrow> string \<Rightarrow> 'w hstate \<Rightarrow> (string + managed_worktree) \<times> registry \<times> 'w hstate" where
  "AdoptExisting std h reg sess p st =
     (case hs_Abs h p of
        Inl e \<Rightarrow> (Inl e, reg, st)
      | Inr a \<Rightarrow>
          (case underRoot h reg a st of
             (Some e, st1) \<Rightarrow> (Inl e, reg, st1)
           | (None, st1) \<Rightarrow>
               (case rejectSymlink h a st1 of
                  (Some e, st2) \<Rightarrow> (Inl e, reg, st2)
                | (None, st2) \<Rightarrow>
                    (case readMarker h a st2 of
                       (Inl e, st3) \<Rightarrow> (Inl (''workspace: not reinframe-owned (missing marker): '' @ e), reg, st3)
                     | (Inr m, st3) \<Rightarrow>
                         if mk_SessionID m \<noteq> [] \<and> sess \<noteq> [] \<and> mk_SessionID m \<noteq> sess then (Inl ''workspace: session mismatch'', reg, st3)
                         else (case gitCommonDir h a st3 of
                           (Inl e, st4) \<Rightarrow> (Inl e, reg, st4)
                         | (Inr common, st4) \<Rightarrow>
                             let i = (if mk_ID m = [] then shortID std a else mk_ID m);
                                 wt = \<lparr>wk_ID = i, wk_SessionID = sess, wk_Path = a, wk_GitCommonDir = common, wk_Generation = 1,
                                   wk_CreatedAt = hs_Now h 0\<rparr>
                             in (Inr wt, reg\<lparr>rg_trees := gm_put i wt (rg_trees reg)\<rparr>, st4))))))"

section \<open>What the calls show\<close>

lemma evalSymlinks_log: "evalSymlinks h p st = (r, st') \<Longrightarrow> snd st' = snd st @ [CallEval p r]"
  by (auto simp: evalSymlinks_def split: prod.splits)

lemma lstat_log: "lstat h p st = (r, st') \<Longrightarrow> snd st' = snd st @ [CallLstat p r]"
  by (auto simp: lstat_def split: prod.splits)

lemma readFile_log: "readFile h p st = (r, st') \<Longrightarrow> snd st' = snd st @ [CallRead p r]"
  by (auto simp: readFile_def split: prod.splits)

lemma execGit_log: "execGit h d args st = (x, st') \<Longrightarrow> snd st' = snd st @ [CallExec d args x]"
  by (auto simp: execGit_def split: prod.splits)

definition git_answer :: "exec_result \<Rightarrow> string + string" where
  "git_answer x = (case ex_Err x of Some e \<Rightarrow> Inl e | None \<Rightarrow> Inr (TrimSpace (ex_Stdout x)))"

lemma gitOutput_log: "gitOutput h d args st = (r, st') \<Longrightarrow> \<exists>x. snd st' = snd st @ [CallExec d args x] \<and> r = git_answer x"
  by (auto simp: gitOutput_def git_answer_def dest!: execGit_log split: prod.splits)

lemma requireClean_log:
  assumes "requireClean h p st = (e, st')"
  shows "\<exists>x. snd st' = snd st @ [CallExec p status_args x] \<and> (e = None \<longrightarrow> (\<exists>out. git_answer x = Inr out \<and> TrimSpace out = []))"
proof -
  obtain r st1 where g: "gitOutput h p status_args st = (r, st1)" by (rule prod.exhaust)
  from gitOutput_log [OF g] obtain x where x: "snd st1 = snd st @ [CallExec p status_args x]" "r = git_answer x" by auto
  show ?thesis using assms g x
    by (cases "git_answer x") (auto simp: requireClean_def intro!: exI [of _ x] split: if_splits)
qed

lemma gitCommonDir_log:
  assumes "gitCommonDir h p st = (r, st')"
  shows "\<exists>x. snd st' = snd st @ [CallExec p common_args x]
    \<and> (\<forall>c. r = Inr c \<longrightarrow> (\<exists>out. git_answer x = Inr out \<and> clean_common h p out = Inr c))"
proof -
  obtain y st1 where g: "gitOutput h p common_args st = (y, st1)" by (rule prod.exhaust)
  from gitOutput_log [OF g] obtain x where x: "snd st1 = snd st @ [CallExec p common_args x]" "y = git_answer x" by auto
  show ?thesis using assms g x by (cases "git_answer x") (auto simp: gitCommonDir_def intro!: exI [of _ x])
qed

lemma readMarker_log:
  assumes "readMarker h d st = (r, st')"
  shows "\<exists>x. snd st' = snd st @ [CallRead (marker_path d) x]
    \<and> (\<forall>m. r = Inr m \<longrightarrow> (\<exists>b. x = ReadBytes b \<and> decode_marker b = Some m \<and> mk_Schema m = RegistrySchema))"
proof -
  obtain y st1 where g: "readFile h (marker_path d) st = (y, st1)" by (rule prod.exhaust)
  from readFile_log [OF this] assms g show ?thesis
    by (cases y) (auto simp: readMarker_def split: option.splits if_splits)
qed

lemma rejectSymlink_log:
  "rejectSymlink h p st = (e, st') \<Longrightarrow> \<exists>r. snd st' = snd st @ [CallLstat p r] \<and> (e = None \<longleftrightarrow> r = Inr False)"
  by (auto simp: rejectSymlink_def dest!: lstat_log split: prod.splits sum.splits)

lemma underRoot_log:
  assumes "underRoot h reg p st = (e, st')"
  shows "\<exists>a b. snd st' = snd st @ [CallEval (rg_Root reg) a, CallEval p b]
     \<and> e = rel_check (answered (rg_Root reg) a) (answered p b)"
proof -
  obtain a st1 where r: "evalSymlinks h (rg_Root reg) st = (a, st1)" by (rule prod.exhaust)
  obtain b st2 where q: "evalSymlinks h p st1 = (b, st2)" by (rule prod.exhaust)
  from evalSymlinks_log [OF r] evalSymlinks_log [OF q] r q assms show ?thesis by (auto simp: underRoot_def)
qed

definition lies_below :: "string \<Rightarrow> string \<Rightarrow> bool" where
  "lies_below root q \<longleftrightarrow> HasPrefix q ''/'' \<and> (\<exists>rest. rest \<noteq> [] \<and> path_segs q = path_segs root @ rest)"

text \<open>A path inside the root lies properly below it.\<close>

lemma drop_common_split: "drop_common bs ts = (bs', ts') \<Longrightarrow> \<exists>cs. bs = cs @ bs' \<and> ts = cs @ ts'"
proof (induction bs ts arbitrary: bs' ts' rule: drop_common.induct)
  case (1 b bs t ts)
  show ?case
  proof (cases "b = t")
    case True
    with 1 obtain cs where "bs = cs @ bs'" "ts = cs @ ts'" by auto
    with True show ?thesis by (intro exI [of _ "b # cs"]) simp
  qed (use 1(2) in simp)
qed auto

lemma inside_below:
  assumes "HasPrefix root ''/''" and "rel_check root q = None"
  shows "lies_below root q"
proof -
  obtain rel where rel: "filepath_Rel root q = Some rel" "\<not> HasPrefix rel ''..''" "rel \<noteq> ''.''"
    using assms(2) by (auto simp: rel_check_def simp del: HasPrefix_iff split: option.splits if_splits)
  obtain bs ts where d: "drop_common (path_segs root) (path_segs q) = (bs, ts)" by (rule prod.exhaust)
  from drop_common_split [OF d] obtain cs where cs: "path_segs root = cs @ bs" "path_segs q = cs @ ts" by blast
  have q: "HasPrefix q ''/''" and ne: "path_Clean root \<noteq> path_Clean q"
    and j: "rel = Join (map (\<lambda>_. ''..'') bs @ ts) ''/''"
    using rel assms(1) d by (auto simp: filepath_Rel_def simp del: HasPrefix_iff split: if_splits)
  have "bs = []"
  proof (rule ccontr)
    assume "bs \<noteq> []"
    then have "HasPrefix rel ''..''"
      by (cases bs; cases "map (\<lambda>_. ''..'') (tl bs) @ ts") (auto simp: j HasPrefix_def)
    then show False using rel(2) by simp
  qed
  moreover have "ts \<noteq> []" using calculation cs ne q assms(1) by (auto simp: path_Clean_segs)
  ultimately show ?thesis using cs q by (simp add: lies_below_def del: HasPrefix_iff)
qed

text \<open>
  What a rollback has seen before it resets: the calls in this order, with these answers.
\<close>

definition vouched :: "'w host \<Rightarrow> registry \<Rightarrow> managed_worktree \<Rightarrow> string \<Rightarrow> host_call list \<Rightarrow> bool" where
  "vouched h reg wt0 d seen \<longleftrightarrow>
     (\<exists>p0 r a b text m.
        seen = [CallEval p0 r, CallEval (rg_Root reg) a, CallEval (answered p0 r) b, CallLstat (answered p0 r) (Inr False),
          CallRead (marker_path (answered p0 r)) (ReadBytes text)]
        \<and> hs_Abs h (wk_Path wt0) = Inr p0 \<and> d = answered (wk_Path wt0) r
        \<and> rel_check (answered (rg_Root reg) a) (answered (answered p0 r) b) = None
        \<and> (HasPrefix (answered (rg_Root reg) a) ''/'' \<longrightarrow> lies_below (answered (rg_Root reg) a) (answered (answered p0 r) b))
        \<and> decode_marker text = Some m \<and> mk_Schema m = RegistrySchema
        \<and> mk_ID m = wk_ID wt0 \<and> wk_ID wt0 \<noteq> [] \<and> mk_SessionID m = wk_SessionID wt0 \<and> wk_SessionID wt0 \<noteq> [])"

fun observes :: "host_call \<Rightarrow> bool" where
  "observes (CallExec d args x) \<longleftrightarrow> args \<noteq> [] \<and> hd args \<in> {''rev-parse'', ''status''}"
| "observes (CallMkdir p r) \<longleftrightarrow> False"
| "observes (CallWrite p b r) \<longleftrightarrow> False"
| "observes (CallRemoveAll p) \<longleftrightarrow> False"
| "observes _ \<longleftrightarrow> True"

lemma reading_args [simp]:
  "common_args \<noteq> []" "hd common_args = ''rev-parse''" "status_args \<noteq> []" "hd status_args = ''status''"
  "head_args \<noteq> []" "hd head_args = ''rev-parse''" "verify_args c \<noteq> []" "hd (verify_args c) = ''rev-parse''"
  by (simp_all add: common_args_def status_args_def head_args_def verify_args_def)

lemma check_marker_None:
  "check_marker wt m = None \<longleftrightarrow> mk_ID m = wk_ID wt \<and> wk_ID wt \<noteq> [] \<and> mk_SessionID m = wk_SessionID wt \<and> wk_SessionID wt \<noteq> []"
  by (auto simp: check_marker_def)

lemma validateOwned_log:
  assumes "validateOwned h reg wt0 st = (e, wt, st')"
  shows "\<exists>seen p. snd st' = snd st @ seen \<and> list_all observes seen \<and> wt = wt0\<lparr>wk_Path := p\<rparr>
    \<and> (e = None \<longrightarrow> vouched h reg wt0 p seen)"
proof (cases "hs_Abs h (wk_Path wt0)")
  case (Inr p0)
  obtain r st1 where 1: "evalSymlinks h p0 st = (r, st1)" by (rule prod.exhaust)
  define p where "p = answered p0 r"
  define d where "d = answered (wk_Path wt0) r"
  obtain e2 st2 where 2: "underRoot h reg p st1 = (e2, st2)" by (rule prod.exhaust)
  from underRoot_log [OF 2] obtain a b where ab: "snd st2 = snd st1 @ [CallEval (rg_Root reg) a, CallEval p b]"
    "e2 = rel_check (answered (rg_Root reg) a) (answered p b)" by blast
  obtain e3 st3 where 3: "rejectSymlink h p st2 = (e3, st3)" by (rule prod.exhaust)
  from rejectSymlink_log [OF 3] obtain l where l: "snd st3 = snd st2 @ [CallLstat p l]" "e3 = None \<longleftrightarrow> l = Inr False" by blast
  obtain m st4 where 4: "readMarker h p st3 = (m, st4)" by (rule prod.exhaust)
  from readMarker_log [OF 4] obtain x where x: "snd st4 = snd st3 @ [CallRead (marker_path p) x]"
    "\<And>mm. m = Inr mm \<Longrightarrow> \<exists>t. x = ReadBytes t \<and> decode_marker t = Some mm \<and> mk_Schema mm = RegistrySchema"
    by (elim exE conjE) (rule that; simp)
  have run: "validateOwned h reg wt0 st =
     (if e2 \<noteq> None then (e2, wt0\<lparr>wk_Path := d\<rparr>, st2) else if e3 \<noteq> None then (e3, wt0\<lparr>wk_Path := d\<rparr>, st3)
      else case m of Inl y \<Rightarrow> (Some (''workspace: ownership marker missing: '' @ y), wt0\<lparr>wk_Path := d\<rparr>, st4)
        | Inr mm \<Rightarrow> (check_marker (wt0\<lparr>wk_Path := d\<rparr>) mm, wt0\<lparr>wk_Path := d\<rparr>, st4))"
    using 2 3 4 by (cases e2; cases e3) (simp_all add: validateOwned_def Inr 1 p_def [symmetric] d_def [symmetric] Let_def split: sum.split)
  note logs = evalSymlinks_log [OF 1] ab(1) l(1) x(1)
  show ?thesis
  proof (cases "e2 = None \<and> e3 = None")
    case False
    with run assms logs show ?thesis by (auto simp: prod_eq_iff split: if_splits)
  next
    case True
    show ?thesis
    proof (cases m)
      case (Inl y)
      with True run assms logs show ?thesis by (auto simp: prod_eq_iff)
    next
      case (Inr mm)
      with x(2) obtain t where t: "x = ReadBytes t" "decode_marker t = Some mm" "mk_Schema mm = RegistrySchema" by blast
      let ?seen = "[CallEval p0 r, CallEval (rg_Root reg) a, CallEval p b, CallLstat p (Inr False), CallRead (marker_path p) (ReadBytes t)]"
      have "snd st4 = snd st @ ?seen" using logs True l(2) t(1) by simp
      moreover have "e = check_marker (wt0\<lparr>wk_Path := d\<rparr>) mm" "wt = wt0\<lparr>wk_Path := d\<rparr>" "st' = st4"
        using True run assms Inr by auto
      moreover have "e = None \<longrightarrow> vouched h reg wt0 d ?seen"
        using calculation(2) True ab(2) t \<open>hs_Abs h (wk_Path wt0) = Inr p0\<close>
        by (auto simp: vouched_def check_marker_None p_def d_def inside_below simp del: HasPrefix_iff)
      ultimately show ?thesis by (intro exI [of _ ?seen] exI [of _ d]) simp
    qed
  qed
qed (use assms in \<open>auto simp: validateOwned_def intro!: exI [of _ "[]"] exI [of _ "wk_Path wt0"]\<close>)

lemma mismatch_None:
  "mismatch wt rec = None \<longleftrightarrow> ck_ManagedWorktreeID rec = wk_ID wt \<and> ck_SessionID rec = wk_SessionID wt \<and> wk_SessionID wt \<noteq> []
     \<and> (ck_Generation rec = wk_Generation wt \<or> ck_Generation rec = 0 \<or> wk_Generation wt = 0)"
  by (auto simp: mismatch_def)

lemma reset_to_log:
  assumes "reset_to h wt rec res commit st = ((res', err), st')" and "\<not> rb_Success res"
  shows "\<exists>x y. snd st' = snd st @ CallExec (wk_Path wt) (reset_args commit) x
        # (if ex_Err x = None then [CallExec (wk_Path wt) head_args y] else [])
    \<and> (rb_Success res' \<longleftrightarrow> err = None) \<and> rb_PreviousCommitHash res' = rb_PreviousCommitHash res
    \<and> (err = None \<longleftrightarrow> ex_Err x = None \<and> git_answer y = Inr (ck_HEAD rec))
    \<and> (err = None \<longrightarrow> rb_RestoredCommitHash res' = ck_HEAD rec)"
proof -
  obtain x st1 where 1: "execGit h (wk_Path wt) (reset_args commit) st = (x, st1)" by (rule prod.exhaust)
  obtain g st2 where 2: "gitOutput h (wk_Path wt) head_args st1 = (g, st2)" by (rule prod.exhaust)
  from gitOutput_log [OF 2] obtain y where y: "snd st2 = snd st1 @ [CallExec (wk_Path wt) head_args y]" "g = git_answer y" by auto
  note l = execGit_log [OF 1]
  show ?thesis
  proof (cases "ex_Err x")
    case (Some e)
    with assms 1 have "st' = st1" "err \<noteq> None" "\<not> rb_Success res'"
        "rb_PreviousCommitHash res' = rb_PreviousCommitHash res"
      by (auto simp: reset_to_def ws_error_def failed_def Let_def)
    with l Some show ?thesis by (intro exI [of _ x] exI [of _ y]) auto
  next
    case None
    have "snd st' = snd st @ CallExec (wk_Path wt) (reset_args commit) x # [CallExec (wk_Path wt) head_args y]"
      using assms 1 2 l y(1) None by (simp add: reset_to_def split: if_splits)
    moreover have "(rb_Success res' \<longleftrightarrow> err = None) \<and> rb_PreviousCommitHash res' = rb_PreviousCommitHash res
         \<and> (err = None \<longleftrightarrow> git_answer y = Inr (ck_HEAD rec))
         \<and> (err = None \<longrightarrow> rb_RestoredCommitHash res' = ck_HEAD rec)"
      using assms 1 2 y(2) None
      by (cases "git_answer y") (auto simp: reset_to_def failed_def ws_error_def out_of_def split: if_splits)
    ultimately show ?thesis using None by (intro exI [of _ x] exI [of _ y]) auto
  qed
qed

text \<open>What the guards have seen when they let a reset pass.\<close>

definition guarded ::
  "'w host \<Rightarrow> managed_worktree \<Rightarrow> checkpoint_record \<Rightarrow> string \<Rightarrow> string \<Rightarrow> string \<Rightarrow> host_call list \<Rightarrow> bool" where
  "guarded h wt rec d previous commit seen \<longleftrightarrow>
     (\<exists>xc common xs out xh xv.
        seen = [CallExec d common_args xc, CallExec d status_args xs, CallExec d head_args xh,
          CallExec d (verify_args (ck_HEAD rec)) xv]
        \<and> ck_ManagedWorktreeID rec = wk_ID wt \<and> ck_SessionID rec = wk_SessionID wt
        \<and> (ck_Generation rec = wk_Generation wt \<or> ck_Generation rec = 0 \<or> wk_Generation wt = 0)
        \<and> git_answer xc = Inr common \<and> (ck_GitCommonDir rec = [] \<or> clean_common h d common = Inr (ck_GitCommonDir rec))
        \<and> git_answer xs = Inr out \<and> TrimSpace out = []
        \<and> previous = out_of (git_answer xh) \<and> git_answer xv = Inr commit \<and> commit \<noteq> [])"

lemma rollback_guard_log:
  assumes "rollback_guard h wt rec res st = (r, st')" and "\<not> rb_Success res"
  shows "\<exists>seen. snd st' = snd st @ seen \<and> list_all observes seen
    \<and> (case r of Inl (res', err) \<Rightarrow> err \<noteq> None \<and> \<not> rb_Success res'
       | Inr (res', commit) \<Rightarrow> \<not> rb_Success res' \<and> guarded h wt rec (wk_Path wt) (rb_PreviousCommitHash res') commit seen)"
proof -
  define p where "p = wk_Path wt"
  obtain c st2 where 2: "gitCommonDir h p st = (c, st2)" by (rule prod.exhaust)
  from gitCommonDir_log [OF 2] obtain xc where xc: "snd st2 = snd st @ [CallExec p common_args xc]"
    "\<forall>d. c = Inr d \<longrightarrow> (\<exists>out. git_answer xc = Inr out \<and> clean_common h p out = Inr d)" by auto
  obtain e3 st3 where 3: "requireClean h p st2 = (e3, st3)" by (rule prod.exhaust)
  from requireClean_log [OF 3] obtain xs where xs: "snd st3 = snd st2 @ [CallExec p status_args xs]"
    "e3 = None \<longrightarrow> (\<exists>out. git_answer xs = Inr out \<and> TrimSpace out = [])" by auto
  obtain g st4 where 4: "gitOutput h p head_args st3 = (g, st4)" by (rule prod.exhaust)
  from gitOutput_log [OF 4] obtain xh where xh: "snd st4 = snd st3 @ [CallExec p head_args xh]" "g = git_answer xh" by auto
  obtain q st5 where 5: "gitOutput h p (verify_args (ck_HEAD rec)) st4 = (q, st5)" by (rule prod.exhaust)
  from gitOutput_log [OF 5] obtain xv where xv: "snd st5 = snd st4 @ [CallExec p (verify_args (ck_HEAD rec)) xv]" "q = git_answer xv" by auto
  note defs = rollback_guard_def p_def [symmetric] failed_def ws_error_def Let_def
  note logs = xc(1) xs(1) xh(1) xv(1)
  consider "mismatch wt rec \<noteq> None" | "mismatch wt rec = None" "\<not> (\<exists>d. c = Inr d \<and> (d = ck_GitCommonDir rec \<or> ck_GitCommonDir rec = []))"
    | d where "mismatch wt rec = None" "c = Inr d" "d = ck_GitCommonDir rec \<or> ck_GitCommonDir rec = []" by blast
  then show ?thesis
  proof cases
    case 1
    with assms show ?thesis by (auto simp: defs)
  next
    case 2
    with assms \<open>gitCommonDir h p st = (c, st2)\<close> have "st' = st2 \<and> (\<exists>res' e. r = Inl (res', e) \<and> e \<noteq> None \<and> \<not> rb_Success res')"
      by (auto simp: defs split: sum.splits if_splits)
    then show ?thesis using logs by auto
  next
    case (3 d)
    show ?thesis
    proof (cases "e3 = None \<and> out_of q \<noteq> []")
      case False
      with assms 3 2 \<open>requireClean h p st2 = (e3, st3)\<close> 4 5
      have "st' \<in> {st3, st5} \<and> (\<exists>res' e. r = Inl (res', e) \<and> e \<noteq> None \<and> \<not> rb_Success res')"
        by (cases e3) (auto simp: defs)
      then show ?thesis using logs by auto
    next
      case True
      with xv(2) obtain commit where cm: "git_answer xv = Inr commit" "commit \<noteq> []"
        by (cases "git_answer xv") (auto simp: out_of_def)
      have r: "r = Inr (res\<lparr>rb_PreviousCommitHash := out_of (git_answer xh)\<rparr>, commit)" "st' = st5"
        using assms 3 2 \<open>requireClean h p st2 = (e3, st3)\<close> 4 5 True cm xv(2) xh(2) by (auto simp: defs out_of_def)
      have "guarded h wt rec p (out_of (git_answer xh)) commit [CallExec p common_args xc, CallExec p status_args xs,
          CallExec p head_args xh, CallExec p (verify_args (ck_HEAD rec)) xv]"
        using True 3 xc(2) xs(2) cm unfolding guarded_def mismatch_None by simp blast
      with r logs assms(2) show ?thesis by (simp add: p_def)
    qed
  qed
qed

text \<open>
  C29. A rollback resets only what it has vouched for. Whatever the file system and git answer, and whatever
  the agent does between the calls, a rollback makes no call but reads unless it has seen, in this order: a
  canonical path below the canonical root, that is no link, with a readable ownership marker that names this
  worktree and this session; a common git directory that is the checkpoint's, where the checkpoint records one
  (an empty record is not compared); a status that was clean when it was asked; and a commit object at the
  checkpoint's HEAD. The checkpoint is of this worktree and session, and of its generation unless one of the two
  generations is unset. Then the only call that changes anything is the one reset to that commit, and it is
  followed by one question for the HEAD, when git did not fail. After the reset the rollback returns no error
  exactly when git did not fail and then names the checkpoint's HEAD; it reports success exactly when it
  returns no error.
\<close>

theorem rollback_resets_only_vouched:
  assumes "Rollback std h reg wt0 rec st = ((res, err), wt, st')"
  shows "(rb_Success res \<longleftrightarrow> err = None)
    \<and> (\<exists>owned seen. list_all observes (owned @ seen)
       \<and> (err \<noteq> None \<and> snd st' = snd st @ owned @ seen
          \<or> (\<exists>commit x y. snd st' = snd st @ owned @ seen @ CallExec (wk_Path wt) (reset_args commit) x
                  # (if ex_Err x = None then [CallExec (wk_Path wt) head_args y] else [])
              \<and> vouched h reg wt0 (wk_Path wt) owned
              \<and> guarded h wt0 rec (wk_Path wt) (rb_PreviousCommitHash res) commit seen
              \<and> (err = None \<longleftrightarrow> ex_Err x = None \<and> git_answer y = Inr (ck_HEAD rec))
              \<and> (err = None \<longrightarrow> rb_RestoredCommitHash res = ck_HEAD rec))))"
proof -
  define r0 where "r0 = \<lparr>rb_RollbackID = ''rb-'' @ shortID std (hs_TimeString h (hs_Now h 0)), rb_SessionID = wk_SessionID wt0,
      rb_TargetCheckpointID = ck_CheckpointID rec, rb_PreviousCommitHash = [], rb_RestoredCommitHash = [], rb_Success = False,
      rb_ErrorMessage = [], rb_CompletedAt = hs_Now h 1\<rparr>"
  have r0: "\<not> rb_Success r0" by (simp add: r0_def)
  obtain e1 wt1 st1 where 1: "validateOwned h reg wt0 st = (e1, wt1, st1)" by (metis surj_pair)
  from validateOwned_log [OF 1] obtain owned p where v: "snd st1 = snd st @ owned" "list_all observes owned"
    "wt1 = wt0\<lparr>wk_Path := p\<rparr>" "e1 = None \<longrightarrow> vouched h reg wt0 p owned" by auto
  obtain g st2 where 2: "rollback_guard h wt1 rec r0 st1 = (g, st2)" by (rule prod.exhaust)
  note run = assms [unfolded Rollback_def, folded r0_def, unfolded Let_def 1, simplified]
  have stop: ?thesis if "err \<noteq> None" "\<not> rb_Success res" "snd st' = snd st @ owned @ seen" "list_all observes seen" for seen
    using that v(2) by (intro conjI exI [of _ owned] exI [of _ seen] disjI1) simp_all
  show ?thesis
  proof (cases e1)
    case (Some e)
    with run have "err \<noteq> None" "\<not> rb_Success res" "st' = st1" by (auto simp: failed_def)
    with v(1) show ?thesis using stop [of "[]"] by simp
  next
    case None
    from rollback_guard_log [OF 2 r0] obtain seen where s: "snd st2 = snd st1 @ seen" "list_all observes seen"
      "case g of Inl (res', err) \<Rightarrow> err \<noteq> None \<and> \<not> rb_Success res'
       | Inr (res', commit) \<Rightarrow> \<not> rb_Success res' \<and> guarded h wt1 rec (wk_Path wt1) (rb_PreviousCommitHash res') commit seen" by blast
    show ?thesis
    proof (cases g)
      case (Inl o1)
      with run None 2 s v(1) have "err \<noteq> None" "\<not> rb_Success res" "snd st' = snd st @ owned @ seen"
        by (auto simp: prod_eq_iff)
      then show ?thesis by (rule stop [OF _ _ _ s(2)])
    next
      case (Inr gr)
      then obtain r1 commit where gr: "g = Inr (r1, commit)" by (cases gr) simp
      with run None 2 have reset: "reset_to h wt1 rec r1 commit st2 = ((res, err), st')" "wt = wt1"
        by (auto split: prod.splits)
      have g: "guarded h wt0 rec p (rb_PreviousCommitHash r1) commit seen" "\<not> rb_Success r1"
        using s(3) gr v(3) by (simp_all add: guarded_def)
      have p: "wk_Path wt1 = p" by (simp add: v(3))
      from reset_to_log [OF reset(1) g(2), unfolded p]
      obtain x y where e: "snd st' = snd st2 @ CallExec p (reset_args commit) x
            # (if ex_Err x = None then [CallExec p head_args y] else [])"
        "rb_Success res \<longleftrightarrow> err = None" "rb_PreviousCommitHash res = rb_PreviousCommitHash r1"
        "err = None \<longleftrightarrow> ex_Err x = None \<and> git_answer y = Inr (ck_HEAD rec)"
        "err = None \<longrightarrow> rb_RestoredCommitHash res = ck_HEAD rec" by (elim exE conjE) (rule that)
      have "vouched h reg wt0 p owned" using v(4) None by simp
      then have "snd st' = snd st @ owned @ seen @ CallExec (wk_Path wt) (reset_args commit) x
            # (if ex_Err x = None then [CallExec (wk_Path wt) head_args y] else [])
          \<and> vouched h reg wt0 (wk_Path wt) owned
          \<and> guarded h wt0 rec (wk_Path wt) (rb_PreviousCommitHash res) commit seen
          \<and> (err = None \<longleftrightarrow> ex_Err x = None \<and> git_answer y = Inr (ck_HEAD rec))
          \<and> (err = None \<longrightarrow> rb_RestoredCommitHash res = ck_HEAD rec)"
        using e(4,5) g(1) unfolding reset(2) p e(1,3) s(1) v(1) append_assoc by (intro conjI) (rule refl, assumption+)
      moreover have "list_all observes (owned @ seen)" using v(2) s(2) by simp
      ultimately show ?thesis using e(2) by blast
    qed
  qed
qed

section \<open>A rollback\<close>

definition ws_std :: gostd where
  "ws_std = \<lparr>sha256_hex = (\<lambda>x. x), json_decode = (\<lambda>_. None), json_encode = (\<lambda>_. [])\<rparr>"

definition said :: "string \<Rightarrow> exec_result" where
  "said s = \<lparr>ex_Stdout = s @ [CHR 0x0A], ex_Combined = s, ex_Err = None\<rparr>"

text \<open>A host whose world is the HEAD of the one worktree.\<close>

definition sample_git :: "string list \<Rightarrow> string \<Rightarrow> exec_result \<times> string" where
  "sample_git args w =
     (if args = common_args then (said ''../../base/.git'', w) else if args = status_args then (said [], w)
      else if args = head_args then (said w, w) else if args = verify_args ''c0'' then (said ''c0'', w)
      else if args = reset_args ''c0'' then (said ''HEAD is now at c0'', ''c0'') else ((said [])\<lparr>ex_Err := Some ''exit status 1''\<rparr>, w))"

definition sample_host :: "string host" where
  "sample_host = \<lparr>hs_Abs = Inr, hs_Eval = (\<lambda>p w. (Some p, w)), hs_Lstat = (\<lambda>p w. (Inr False, w)),
     hs_Read = (\<lambda>p w. (if p = ''/r/t/.reinframe-managed-worktree''
        then ReadBytes (indent_object [(''id'', json_quote ''t''), (''session_id'', json_quote ''s''), (''schema'', json_quote RegistrySchema)])
        else ReadMissing, w)),
     hs_Exec = (\<lambda>d args w. if d = ''/r/t'' then sample_git args w else ((said [])\<lparr>ex_Err := Some ''chdir''\<rparr>, w)),
     hs_Mkdir = (\<lambda>p w. (None, w)), hs_Write = (\<lambda>p b w. (None, w)), hs_RemoveAll = (\<lambda>p w. w), hs_Now = (\<lambda>_. 0),
     hs_TimeString = itoa, hs_TimeJSON = itoa, hs_TimeParse = atoi\<rparr>"

definition sample_registry :: registry where
  "sample_registry = \<lparr>rg_Root = ''/r'', rg_trees = []\<rparr>"

definition sample_worktree :: managed_worktree where
  "sample_worktree = \<lparr>wk_ID = ''t'', wk_SessionID = ''s'', wk_Path = ''/r/t'', wk_GitCommonDir = ''/base/.git'', wk_Generation = 1,
     wk_CreatedAt = 0\<rparr>"

definition sample_checkpoint :: checkpoint_record where
  "sample_checkpoint = zero_checkpoint\<lparr>ck_SchemaVersion := CheckpointRecordSchema, ck_CheckpointID := ''chk-1'', ck_SessionID := ''s'',
     ck_ManagedWorktreeID := ''t'', ck_Generation := 1, ck_GitCommonDir := ''/base/.git'', ck_HEAD := ''c0''\<rparr>"

definition sample_run :: "string \<Rightarrow> (rollback_result \<times> string option) \<times> managed_worktree \<times> string hstate" where
  "sample_run w = Rollback ws_std sample_host sample_registry sample_worktree sample_checkpoint (w, [])"

lemma sample_run_ok: "snd (fst (sample_run ''c1'')) = None" "fst (snd (snd (sample_run ''c1''))) = ''c0''"
  by code_simp+

theorem rollback_resets_only_vouched_witness:
  "\<exists>owned seen commit x y. snd (snd (snd (sample_run ''c1''))) = owned @ seen @ [CallExec ''/r/t'' (reset_args commit) x, CallExec ''/r/t'' head_args y]
     \<and> vouched sample_host sample_registry sample_worktree ''/r/t'' owned
     \<and> guarded sample_host sample_worktree sample_checkpoint ''/r/t'' ''c1'' commit seen
     \<and> git_answer y = Inr ''c0''"
proof -
  obtain res wt st' where run: "sample_run ''c1'' = ((res, None), wt, st')"
    using sample_run_ok(1) by (metis prod.collapse)
  have "wk_Path (fst (snd (sample_run ''c1''))) = ''/r/t''" "rb_PreviousCommitHash (fst (fst (sample_run ''c1''))) = ''c1''"
    by code_simp+
  then have "wk_Path wt = ''/r/t''" "rb_PreviousCommitHash res = ''c1''" by (simp_all add: run)
  with rollback_resets_only_vouched [OF run [unfolded sample_run_def]]
  obtain owned seen commit x y where r: "snd st' = owned @ seen @ [CallExec ''/r/t'' (reset_args commit) x, CallExec ''/r/t'' head_args y]"
    "vouched sample_host sample_registry sample_worktree ''/r/t'' owned"
    "guarded sample_host sample_worktree sample_checkpoint ''/r/t'' ''c1'' commit seen" "git_answer y = Inr (ck_HEAD sample_checkpoint)"
    by auto
  moreover have "ck_HEAD sample_checkpoint = ''c0''" by (simp add: sample_checkpoint_def)
  ultimately show ?thesis by (simp add: run) metis
qed

end
