(* ===== verification/Spec2Isabelle.thy ===== *)
theory Spec2Isabelle
  imports ChallengeWitnesses FingerprintWitnesses Capability LaneRouter Supervisor AssessmentCache
    ClassifierShadow ClaudeBridge StrictParser EventStore ManagedWorkspace
begin

text \<open>
  \<^bold>\<open>Reinframe: challenges, one-shot retries and the identity of actions.\<close>

  Reinframe supervises coding agents. A host (Claude Code, Codex, Grok) reports each tool call
  before it runs; the call is normalised into a \<open>ProposedAction\<close> (\<open>pkg/adapter/proposed_action.go\<close>)
  and may be blocked. A blocked call is either denied for good, sent to a human, or opened as a
  \<^emph>\<open>challenge\<close> (\<open>pkg/challenge\<close>): the agent may justify the action once and retry it once; a
  re-evaluation then allows exactly that retry or rejects it. Beside that path runs a second one:
  events of the agent feed detectors (\<open>pkg/detector\<close>), their signals the policy engine
  (\<open>pkg/policy\<close>), whose interventions are queued, delivered once and acknowledged over a durable
  ledger (\<open>pkg/adapter\<close>), and a gate holds the tools back meanwhile. Which model serves a role, with which
  credentials, is decided by the dual-lane router. This development models these parts and proves
  what makes them safe.

  \<^bold>\<open>Theories and the code they model.\<close>
  \<^item> \<open>Prelude\<close>: the association-list maps that stand for Go maps, the enumeration orders of
    Go's \<open>range\<close> over a map, and the locale \<open>transition_system\<close> (initial states, steps, an
    invariant, a growth relation) with its induction principles.
  \<^item> \<open>GoStrings\<close>, \<open>GoRegex\<close>: the functions of \<open>strings\<close>, \<open>unicode/utf8\<close>, \<open>path\<close>, \<open>strconv\<close> and
    \<open>regexp\<close> the source calls, on byte strings (\<open>string\<close> is a list of bytes, runes are decoded
    as Go does, invalid bytes become U+FFFD). SHA-256 and \<open>encoding/json\<close> are the fields of the
    parameter \<open>gostd\<close>. Go's case mapping is modelled on ASCII letters. The length-prefixed
    encodings of \<open>fingerprint.go\<close> are here with their injectivity.
  \<^item> \<open>ProposedAction\<close>: \<open>pkg/adapter/proposed_action.go\<close> (classification of tool names, bounding,
    redaction, extraction of tool input, detection of full test suites).
  \<^item> \<open>ShellSurface\<close>: the shell half of \<open>pkg/challenge/fingerprint.go\<close> (tokenising, environment
    prefixes, \<open>rm\<close> and \<open>find\<close> option scanners, delete targets and flags, command normalisation).
  \<^item> \<open>Fingerprint\<close>: the other half and \<open>proposed.go\<close> (side-effect classes, operation digests,
    \<open>ComputeFingerprint\<close>, \<open>ClassifyRelationship\<close>, \<open>ValidateProposedForChallenge\<close>).
  \<^item> \<open>ChallengePolicy\<close>: \<open>appealability.go\<close>, \<open>claims.go\<close>, \<open>justification.go\<close>.
  \<^item> \<open>ChallengeStore\<close>: \<open>types.go\<close>, \<open>store.go\<close>, \<open>projector.go\<close>. The store is a record with the fields
    of the Go struct: event log, snapshots by id, justifications, the index of open challenges,
    sequence and id counters, barrier map, terminal channels. A closed channel is the value
    \<open>True\<close>. The theory states the store invariant \<open>store_inv\<close> and the relation \<open>evolves\<close> (the log
    grows, records keep their identity, terminal records do not change).
  \<^item> \<open>ReEval\<close>: \<open>reeval.go\<close>; request building, the provider call, its validation and the audit of
    \<open>pkg/classifier\<close> are the parameter \<open>stage1\<close>.
  \<^item> \<open>ChallengeService\<close>: \<open>service.go\<close> and \<open>cache_key.go\<close>. Each critical section under \<open>store.mu\<close> is
    one function on the store (\<open>open_deny_locked\<close>, \<open>open_human_locked\<close>, \<open>open_appeal_locked\<close>,
    \<open>justify_locked\<close>, \<open>retry_consume_locked\<close>, \<open>retry_cancel_locked\<close>, \<open>retry_finish_locked\<close>,
    \<open>abandon_locked\<close>, \<open>expire_locked\<close>, \<open>expire_due_locked\<close>); a handler composes its sections in
    the order of the code, and between two of them the environment \<open>env\<close> (clock, random bytes,
    context, map order, other goroutines) may change the store.
  \<^item> \<open>ChallengeSections\<close>: every critical section preserves the invariant and stays in \<open>evolves\<close>.
  \<^item> \<open>ChallengeRuns\<close>: the step relation \<open>sys_step\<close> whose steps are the critical sections and the
    sending of owed signals, in any order; it interprets \<open>transition_system\<close> as
    \<open>challenge_runs\<close>, and the safety theorems about every interleaving follow (C1 to C5, C7, C8).
    \<open>sys_reached\<close> are the stores of these runs from a new store or from one that was loaded back
    from its file (\<open>SaveToFile\<close>, \<open>LoadFromFile\<close>), after any number of restarts.
  \<^item> \<open>ChallengeHandlers\<close>: the whole handlers refine \<open>sys_step\<close> runs, with any sections and signals of
    other goroutines in the gaps; \<open>run_leaving P\<close> is a run that leaves at most the signals of the
    challenges \<open>P\<close> outstanding, so that with \<open>P\<close> empty every signal was sent (C10, C11). From that,
    who waits for a challenge that ended is released (C6), and what an ALLOW answer means (C12).
  \<^item> \<open>ClaudeBridge\<close>: \<open>claude_challenge.go\<close> with \<open>claude_bridge.go\<close> and \<open>claude_hook_response.go\<close> of
    \<open>pkg/adapter\<close>: the PreToolUse document, the answer to the host, and the bridge over gate and
    service (C18).
  \<^item> \<open>FingerprintWitnesses\<close>, \<open>ChallengeWitnesses\<close>: the properties at concrete inputs.
  \<^item> \<open>Capability\<close>: \<open>pkg/protocol/capability.go\<close>; masks are 64-bit words (C20, C21).
  \<^item> \<open>RuntimeCatalog\<close>: \<open>pkg/protocol/auth.go\<close> and \<open>model_catalog.go\<close> (C22).
  \<^item> \<open>LaneRouter\<close>: \<open>pkg/policy/router.go\<close> (C23 to C25).
  \<^item> \<open>Detectors\<close>: the four detectors of \<open>pkg/detector\<close>; the locale \<open>tracked_value\<close> is the contract of
    their session bookkeeping and each of them interprets it (C26, C28).
  \<^item> \<open>GoGlob\<close>, \<open>GoJSON\<close>: \<open>path/filepath\<close> (\<open>Clean\<close>, \<open>Match\<close>) and the part of \<open>encoding/json\<close> the ledger
    writes and reads back, with the round trip of strings, arrays and objects.
  \<^item> \<open>ProtocolTypes\<close>: the structs of \<open>pkg/protocol/schema.go\<close> the later theories exchange.
  \<^item> \<open>HookGate\<close>: \<open>pkg/adapter/hook_gate.go\<close> and \<open>pkg/policy/before_tool.go\<close> (C30, C31); the goroutine
    and its deadline are the record \<open>hook_race\<close>.
  \<^item> \<open>PolicyEngine\<close>: the slow path of \<open>pkg/policy/policy.go\<close>; the reviewer is a parameter (C32).
  \<^item> \<open>DeliveryQueue\<close>: \<open>result.go\<close>, \<open>actuator.go\<close>, \<open>delivery_boundary.go\<close>, \<open>acknowledge.go\<close>,
    \<open>pending_queue.go\<close> of \<open>pkg/adapter\<close> (C33).
  \<^item> \<open>AdviceLedger\<close>, \<open>LedgerRecovery\<close>: \<open>durable_advice_ledger.go\<close>; the disk is a record and each system
    call has its outcome as an argument. \<open>led_step\<close> (append, mark, crash and reopen) interprets
    \<open>transition_system\<close> as \<open>ledger_runs\<close> (C34).
  \<^item> \<open>AdvisoryDelivery\<close>: \<open>advisory_delivery.go\<close>, the queue, the actuator and the ledger together (C35,
    C36).
  \<^item> \<open>Supervisor\<close>: \<open>pkg/supervisor/orchestrator.go\<close>, which joins the repeated-failure detector, the
    policy engine, the delivery and the gate through a latch per session (C37).
  \<^item> \<open>EventStore\<close>: \<open>pkg/state\<close>, the durable event log over SQLite: the table with the constraints of
    \<open>migrations\<close>, transactions with busy retry, error mapping, queries and the migration loop. What
    other connections and the engine do is given by turns; \<open>db_step\<close> interprets \<open>transition_system\<close>
    as \<open>event_runs\<close> (C9, C27).
  \<^item> \<open>ManagedWorkspace\<close>: \<open>pkg/workspace/managed.go\<close>, the registry of git worktrees with ownership markers,
    checkpoints and rollback. Each call of \<open>os\<close>, \<open>filepath.EvalSymlinks\<close> and \<open>git\<close> is a function of a record on an
    arbitrary world and is logged with its answer (C29).
  \<^item> \<open>ClassifierInput\<close>: the request side of \<open>pkg/classifier\<close> (\<open>input_trajectory.go\<close>, \<open>validate_input.go\<close>,
    \<open>prompt_plan.go\<close>, \<open>contract.go\<close>, the builders of \<open>provider.go\<close>) (C38).
  \<^item> \<open>ClassifierResult\<close>: the answer side (\<open>validate_result.go\<close>, \<open>audit.go\<close>, \<open>context_err.go\<close>,
    \<open>capabilities.go\<close>, the result half of \<open>contract.go\<close>, the fixture provider).
  \<^item> \<open>AssessmentCache\<close>: \<open>exact_cache.go\<close>, the bounded LRU store, its key and the single flight (C39).
  \<^item> \<open>StrictParser\<close>: \<open>parse_raw.go\<close>, the closed parser of model text; the token walk over the bytes is
    proved equivalent to the parser of \<open>GoJSON\<close> with conditions on its tree, and the fuel of both
    enough (C16).
  \<^item> \<open>ClassifierShadow\<close>: \<open>shadow.go\<close>; the provider is a parameter (C40).

  \<^bold>\<open>What the theorems show.\<close>
  One-shot authorisation (C1), replay against live records (C2), finality of terminal records
  (C3), the log as an ordered history of the state machine (C4), a single active challenge per
  action (C5), the release of whoever waits for a challenge that ended (C6), denials and their barrier against concurrent opens
  (C7, C8), atomic appends to the event store (C9), refinement of the handlers (C10, C11), the meaning of an allow (C12), identity of
  fingerprints and rewrites (C13 to C15), the text a model may answer with (C16), justifications (C17), the Claude bridge (C18)
  and the re-evaluator (C19). Capability masks and levels (C20, C21), catalogs as indexes (C22),
  lanes, capabilities and fallback of routes (C23 to C25), the exact firing condition of the
  detectors over their history (C26, C28), what a rollback has checked before it resets (C29), the queries of the event store (C27), confinement by the whitelist and the exact condition under
  which the gate allows (C30, C31), the slow path (C32), single hand-out of interventions (C33),
  suppression of redelivery across crashes and restarts (C34, C35), acknowledgements (C36), the latch
  that holds tools back while advice is pending (C37), the bounds of a classifier request (C38), the
  budgets and the termination of the assessment cache (C39) and the shadow resolver (C40).

  \<^bold>\<open>Bounds.\<close>
  Loops over strings and lists are total functions with their own termination proofs; the eviction
  loop of the cache is a partial function that C39 proves to end. Two definitions carry a bound:
  \<open>waitTerminal\<close> recurses over the finite list of wait turns the environment supplies
  and answers \<open>Inl\<close> when the context ends first, and the JSON parser has fuel
  \<open>2 * length + 2\<close>, which is enough: whatever it reads with any fuel it reads with every
  fuel from twice the length on (\<open>json_fuel\<close> in \<open>StrictParser\<close>). \<open>int64\<close> arithmetic that can overflow in the source (the expiry sequence) is
  wrapped by \<open>wrap64\<close>; sequence numbers themselves are unbounded integers, floats are
  rationals. Digest collisions are explicit hypotheses where a theorem needs their absence. C34
  takes a failed write of a JSONL line to have written nothing; a torn line makes the next open
  fail closed (\<open>torn_line_fails_closed\<close>).

  \<^bold>\<open>Not modelled.\<close>
  File and network I/O of the host adapters, the running of subprocesses, the SQLite engine, JSON-schema validation and the
  benchmark harness.
\<close>

end
